(* ===== verification/Prelude.thy ===== *)
theory Prelude
  imports Complex_Main "HOL-Library.AList"
begin

text \<open>
  Shared notions of the development.  Python values are read as follows: \<open>int\<close> is HOL's
  \<open>int\<close>; \<open>float\<close> is an exact \<open>rat\<close> (binary rounding, infinities and NaN are outside the
  model); \<open>str\<close> is \<open>string\<close>, a list of characters (text outside Latin-1 stands as its UTF-8
  bytes); \<open>dict\<close> and \<open>OrderedDict\<close> are association lists with distinct keys in insertion
  order, so that \<open>AList.update\<close> is item assignment (in place for a known key, at the end for a
  new one) and \<open>AList.delete\<close> is \<open>pop(key, None)\<close>.  The lemmas here are about those containers,
  eviction from the front, and Python's string and rounding primitives.
\<close>

section \<open>Collections and type names\<close>

named_theorems wf_intros \<open>preservation of the well-formedness invariants\<close>
named_theorems text_simps \<open>equations of the string primitives\<close>

type_synonym ('k, 'v) dict = "('k \<times> 'v) list"

abbreviation keys :: "('k, 'v) dict \<Rightarrow> 'k list" where
  "keys d \<equiv> map fst d"

section \<open>Ordered dictionaries\<close>

definition dict_wf :: "('k, 'v) dict \<Rightarrow> bool" where
  "dict_wf d \<longleftrightarrow> distinct (keys d)"

text \<open>\<open>d.setdefault(k, v)\<close> (the dictionary part), \<open>d.move_to_end(k)\<close>.\<close>

definition setdefault :: "'k \<Rightarrow> 'v \<Rightarrow> ('k, 'v) dict \<Rightarrow> ('k, 'v) dict" where
  "setdefault k v d = (case map_of d k of None \<Rightarrow> d @ [(k, v)] | Some _ \<Rightarrow> d)"

definition move_to_end :: "'k \<Rightarrow> ('k, 'v) dict \<Rightarrow> ('k, 'v) dict" where
  "move_to_end k d = filter (\<lambda>p. fst p \<noteq> k) d @ filter (\<lambda>p. fst p = k) d"

text \<open>\<open>while len(d) > n: d.popitem(last=False)\<close>.\<close>

fun evict_front :: "nat \<Rightarrow> 'a list \<Rightarrow> 'a list" where
  "evict_front n [] = []"
| "evict_front n (p # d) = (if n < length (p # d) then evict_front n d else p # d)"

lemma evict_front_drop: "evict_front n d = drop (length d - n) d"
  by (induction d) (auto simp: Suc_diff_le)

lemma length_evict_front [simp]: "length (evict_front n d) = min n (length d)"
  by (simp add: evict_front_drop)

lemma evict_front_id [simp]: "length d \<le> n \<Longrightarrow> evict_front n d = d"
  by (simp add: evict_front_drop)

lemma set_evict_front: "set (evict_front n d) \<subseteq> set d"
  by (simp add: evict_front_drop set_drop_subset)

lemma dict_wf_Nil [simp, wf_intros]: "dict_wf []"
  by (simp add: dict_wf_def)

lemma dict_wf_update [wf_intros]: "dict_wf d \<Longrightarrow> dict_wf (AList.update k v d)"
  by (simp add: dict_wf_def distinct_update)

lemma dict_wf_filter [wf_intros]: "dict_wf d \<Longrightarrow> dict_wf (filter P d)"
  by (simp add: dict_wf_def distinct_map_filter)

lemma dict_wf_delete [wf_intros]: "dict_wf d \<Longrightarrow> dict_wf (AList.delete k d)"
  by (simp add: AList.delete_eq dict_wf_filter)

lemma dict_wf_evict [wf_intros]: "dict_wf d \<Longrightarrow> dict_wf (evict_front n d)"
  by (simp add: dict_wf_def evict_front_drop drop_map [symmetric])

lemma dict_wf_setdefault [wf_intros]: "dict_wf d \<Longrightarrow> dict_wf (setdefault k v d)"
  by (auto simp: dict_wf_def setdefault_def map_of_eq_None_iff split: option.splits)

lemma dict_wf_move_to_end [wf_intros]: "dict_wf d \<Longrightarrow> dict_wf (move_to_end k d)"
  by (auto simp: dict_wf_def move_to_end_def distinct_map_filter)

lemma map_of_filter_keys:
  "map_of (filter (\<lambda>p. P (fst p)) d) k = (if P k then map_of d k else None)"
  by (induction d) auto

lemma map_of_move_to_end [simp]: "map_of (move_to_end k d) j = map_of d j"
  by (simp add: move_to_end_def map_add_def map_of_filter_keys [where P = "\<lambda>i. i \<noteq> k"]
      map_of_filter_keys [where P = "\<lambda>i. i = k"] split: option.splits)

lemma map_of_setdefault:
  "map_of (setdefault k v d) j =
     (if j = k then Some (case map_of d k of None \<Rightarrow> v | Some w \<Rightarrow> w) else map_of d j)"
  by (auto simp: setdefault_def map_add_def split: option.splits)

lemma map_of_update [simp]: "map_of (AList.update k v d) j = (if j = k then Some v else map_of d j)"
  by (simp add: update_conv)

lemma map_of_filter_dict:
  "dict_wf d \<Longrightarrow> map_of (filter P d) k =
     (case map_of d k of None \<Rightarrow> None | Some v \<Rightarrow> if P (k, v) then Some v else None)"
proof (induction d)
  case (Cons p d)
  obtain j w where p: "p = (j, w)" by (cases p)
  have wf: "dict_wf d" and new: "j \<notin> fst ` set d" using Cons.prems by (auto simp: dict_wf_def p)
  have "map_of d j = None" using new by (simp add: map_of_eq_None_iff)
  with Cons.IH [OF wf] show ?case by (auto simp: p split: option.splits)
qed simp

lemma set_dict_update: "set (AList.update k v d) \<subseteq> insert (k, v) (set d)"
  by (induction d) auto

lemma length_update:
  "length (AList.update k v d) = (if k \<in> set (keys d) then length d else Suc (length d))"
  by (induction d) auto

lemma map_of_in_dict: "map_of d k = Some v \<Longrightarrow> (k, v) \<in> set d"
  by (rule map_of_SomeD)

lemma in_dict_map_of: "dict_wf d \<Longrightarrow> (k, v) \<in> set d \<Longrightarrow> map_of d k = Some v"
  by (simp add: dict_wf_def map_of_is_SomeI)

lemma filter_key_eq:
  "dict_wf d \<Longrightarrow> filter (\<lambda>p. fst p = k) d =
     (case map_of d k of None \<Rightarrow> [] | Some v \<Rightarrow> [(k, v)])"
proof (induction d)
  case (Cons p d)
  have wf: "dict_wf d" and new: "fst p \<notin> fst ` set d" using Cons.prems by (auto simp: dict_wf_def)
  show ?case
  proof (cases "fst p = k")
    case True
    then have "map_of d k = None" using new by (simp add: map_of_eq_None_iff)
    with Cons.IH [OF wf] True show ?thesis by (cases p) simp
  next
    case False
    with Cons.IH [OF wf] show ?thesis by (cases p) simp
  qed
qed simp

lemma update_append_new:
  "k \<notin> fst ` set d \<Longrightarrow> AList.update k v (d @ e) = d @ AList.update k v e"
  by (induction d) auto

lemma update_moved_to_end:
  assumes "dict_wf d" and "k \<in> set (keys d)"
  shows "AList.update k v (move_to_end k d) = filter (\<lambda>p. fst p \<noteq> k) d @ [(k, v)]"
proof -
  from assms(2) obtain w where "map_of d k = Some w"
    by (metis map_of_eq_None_iff not_None_eq list.set_map)
  with assms(1) have "filter (\<lambda>p. fst p = k) d = [(k, w)]" by (simp add: filter_key_eq)
  then show ?thesis by (simp add: move_to_end_def) (subst update_append_new, auto)
qed

lemma map_of_evict_SomeD:
  assumes "dict_wf d" and "map_of (evict_front n d) k = Some v"
  shows "map_of d k = Some v"
  using assms set_evict_front [of n d] by (meson in_dict_map_of map_of_SomeD subsetD)

lemma map_of_evict_snoc:
  "0 < n \<Longrightarrow> dict_wf (d @ [(k, v)]) \<Longrightarrow> map_of (evict_front n (d @ [(k, v)])) k = Some v"
proof (rule in_dict_map_of)
  assume "0 < n"
  then show "(k, v) \<in> set (evict_front n (d @ [(k, v)]))"
    by (simp add: evict_front_drop)
qed (rule dict_wf_evict)

section \<open>Bounded stores\<close>

text \<open>
  The contract of the program's bounded in-memory tables (the rate limiter's buckets, the
  in-memory response cache): a write is readable, other entries are kept or evicted but never
  invented or changed, and the number of entries stays under the bound.
\<close>

locale bounded_store =
  fixes put :: "'k \<Rightarrow> 'v \<Rightarrow> 's \<Rightarrow> 's"
    and lookup :: "'s \<Rightarrow> 'k \<Rightarrow> 'v option"
    and entries :: "'s \<Rightarrow> nat"
    and inv :: "'s \<Rightarrow> bool"
    and cap :: nat
  assumes lookup_put: "inv s \<Longrightarrow> lookup (put k v s) k = Some v"
    and lookup_put_other: "inv s \<Longrightarrow> lookup (put k v s) j = Some w \<Longrightarrow> j \<noteq> k \<Longrightarrow> lookup s j = Some w"
    and lookup_put_room: "inv s \<Longrightarrow> entries s < cap \<Longrightarrow> lookup s j = Some w \<Longrightarrow> j \<noteq> k \<Longrightarrow>
           lookup (put k v s) j = Some w"
    and inv_put: "inv s \<Longrightarrow> inv (put k v s)"
    and inv_bound: "inv s \<Longrightarrow> entries s \<le> cap"
begin

lemma inv_puts: "inv s \<Longrightarrow> inv (fold (\<lambda>(k, v). put k v) kvs s)"
  by (induction kvs arbitrary: s) (auto intro: inv_put)

lemma entries_puts: "inv s \<Longrightarrow> entries (fold (\<lambda>(k, v). put k v) kvs s) \<le> cap"
  by (rule inv_bound [OF inv_puts])

lemma lookup_put_frame:
  assumes "inv s" and "entries s < cap" and "j \<noteq> k"
  shows "lookup (put k v s) j = lookup s j"
proof (cases "lookup s j")
  case (Some w)
  with assms show ?thesis by (simp add: lookup_put_room)
next
  case None
  with assms show ?thesis by (metis lookup_put_other not_None_eq)
qed

lemma lookup_puts_source:
  "inv s \<Longrightarrow> lookup (fold (\<lambda>(k, v). put k v) kvs s) j = Some w \<Longrightarrow>
     lookup s j = Some w \<or> (j, w) \<in> set kvs"
proof (induction kvs arbitrary: s)
  case (Cons p kvs)
  obtain k v where p: "p = (k, v)" by (cases p)
  have "lookup (put k v s) j = Some w \<or> (j, w) \<in> set kvs"
    using Cons.IH [OF inv_put] Cons.prems by (simp add: p)
  then show ?case
    using Cons.prems(1) lookup_put lookup_put_other by (cases "j = k") (fastforce simp: p)+
qed simp

end

end
