(* ===== verification/RateLimit.thy ===== *)
theory RateLimit
  imports Prelude
begin

text \<open>
  The login rate limiter, \<open>backend/app/rate_limit.py\<close>: the counters, the two ordered tables
  (per address, per address and account), \<open>check\<close>, \<open>record_failure\<close>, \<open>record_success\<close> and
  \<open>status\<close> of \<open>LoginRateLimiter\<close>.  A call holds the limiter's lock from start to end, so each
  operation is one step on the state; the clock is read once at the start of a call and is the
  argument \<open>now\<close>.
\<close>

section \<open>State\<close>

definition MAX_FAILURES_PAIR :: nat where "MAX_FAILURES_PAIR = 5"
definition MAX_FAILURES_IP :: nat where "MAX_FAILURES_IP = 20"
definition WINDOW_SECONDS :: rat where "WINDOW_SECONDS = 600"
definition LOCK_SECONDS :: rat where "LOCK_SECONDS = 600"
definition MAX_BUCKETS :: nat where "MAX_BUCKETS = 4096"

lemmas limit_consts = MAX_FAILURES_PAIR_def MAX_FAILURES_IP_def WINDOW_SECONDS_def
  LOCK_SECONDS_def MAX_BUCKETS_def

record counter =
  failures :: "rat list"
  locked_until :: rat

definition new_counter :: counter where
  "new_counter = \<lparr>failures = [], locked_until = 0\<rparr>"

record limiter =
  by_ip :: "(string, counter) dict"
  by_pair :: "(string, counter) dict"

definition new_limiter :: limiter where
  "new_limiter = \<lparr>by_ip = [], by_pair = []\<rparr>"

text \<open>\<open>str.casefold\<close> on the ASCII letters; every other character stands for itself.\<close>

definition casefold_char :: "char \<Rightarrow> char" where
  "casefold_char c =
     (let n = (of_char c :: nat) in if 65 \<le> n \<and> n \<le> 90 then char_of (n + 32) else c)"

definition casefold :: "string \<Rightarrow> string" where
  "casefold s = map casefold_char s"

definition ip_key :: "string \<Rightarrow> string" where
  "ip_key ip = ''ip:'' @ ip"

definition pair_key :: "string \<Rightarrow> string \<Rightarrow> string" where
  "pair_key ip user = ''pair:'' @ ip @ [CHR 0x00] @ casefold user"

section \<open>Operations\<close>

definition prune :: "counter \<Rightarrow> rat \<Rightarrow> counter" where
  "prune c now = c\<lparr>failures := filter (\<lambda>t. now - t < WINDOW_SECONDS) (failures c)\<rparr>"

definition stale :: "counter \<Rightarrow> rat \<Rightarrow> bool" where
  "stale c now \<longleftrightarrow> failures c = [] \<and> locked_until c \<le> now"

text \<open>One turn of the loop of \<open>check\<close>: \<open>Some\<close> is the early return.  \<open>int()\<close> of a positive
  float is the floor.\<close>

definition locked_for :: "(string, counter) dict \<Rightarrow> string \<Rightarrow> rat \<Rightarrow> int option" where
  "locked_for tab key now =
     (case map_of tab key of
        None \<Rightarrow> None
      | Some c \<Rightarrow> if locked_until c > now then Some \<lfloor>locked_until c - now\<rfloor> else None)"

definition check :: "limiter \<Rightarrow> rat \<Rightarrow> string \<Rightarrow> string \<Rightarrow> bool \<times> int" where
  "check l now ip user =
     (case locked_for (by_ip l) (ip_key ip) now of
        Some r \<Rightarrow> (False, r)
      | None \<Rightarrow>
          (case locked_for (by_pair l) (pair_key ip user) now of
             Some r \<Rightarrow> (False, r)
           | None \<Rightarrow> (True, 0)))"

text \<open>The counter's update in \<open>record_failure\<close>: prune, append, lock at the threshold.\<close>

definition fail_counter :: "nat \<Rightarrow> rat \<Rightarrow> counter \<Rightarrow> counter" where
  "fail_counter threshold now c =
     (let c1 = prune c now;
          c2 = c1\<lparr>failures := failures c1 @ [now]\<rparr>
      in if length (failures c2) \<ge> threshold
         then c2\<lparr>locked_until := now + LOCK_SECONDS, failures := []\<rparr>
         else c2)"

definition bounded :: "(string, counter) dict \<Rightarrow> (string, counter) dict" where
  "bounded tab = evict_front MAX_BUCKETS tab"

text \<open>One turn of the first loop of \<open>record_failure\<close>; the counter is a shared object, so its
  update is an assignment to the entry that was moved to the end.\<close>

definition fail_table :: "nat \<Rightarrow> rat \<Rightarrow> string \<Rightarrow> (string, counter) dict \<Rightarrow> (string, counter) dict" where
  "fail_table threshold now key tab =
     (let t1 = setdefault key new_counter tab;
          t2 = move_to_end key t1;
          c = (case map_of t2 key of None \<Rightarrow> new_counter | Some c \<Rightarrow> c)
      in bounded (AList.update key (fail_counter threshold now c) t2))"

text \<open>The same turn with the counter's new value given.\<close>

definition store_counter :: "string \<Rightarrow> counter \<Rightarrow> (string, counter) dict \<Rightarrow> (string, counter) dict" where
  "store_counter key c tab =
     bounded (AList.update key c (move_to_end key (setdefault key new_counter tab)))"

definition drop_stale :: "rat \<Rightarrow> (string, counter) dict \<Rightarrow> (string, counter) dict" where
  "drop_stale now tab = filter (\<lambda>(k, c). \<not> stale c now) tab"

definition record_failure :: "rat \<Rightarrow> string \<Rightarrow> string \<Rightarrow> limiter \<Rightarrow> limiter" where
  "record_failure now ip user l =
     (let ips = fail_table MAX_FAILURES_IP now (ip_key ip) (by_ip l);
          pairs = fail_table MAX_FAILURES_PAIR now (pair_key ip user) (by_pair l)
      in \<lparr>by_ip = drop_stale now ips, by_pair = drop_stale now pairs\<rparr>)"

definition record_success :: "string \<Rightarrow> string \<Rightarrow> limiter \<Rightarrow> limiter" where
  "record_success ip user l = l\<lparr>by_pair := AList.delete (pair_key ip user) (by_pair l)\<rparr>"

record limiter_status =
  locked_ip_count :: nat
  locked_pair_count :: nat
  tracked_bucket_count :: nat

definition rl_status :: "limiter \<Rightarrow> rat \<Rightarrow> limiter_status" where
  "rl_status l now =
     \<lparr>locked_ip_count = length (filter (\<lambda>(k, c). locked_until c > now) (by_ip l)),
      locked_pair_count = length (filter (\<lambda>(k, c). locked_until c > now) (by_pair l)),
      tracked_bucket_count = length (by_ip l) + length (by_pair l)\<rparr>"

section \<open>The tables\<close>

definition counter_of :: "(string, counter) dict \<Rightarrow> string \<Rightarrow> counter" where
  "counter_of tab key = (case map_of tab key of None \<Rightarrow> new_counter | Some c \<Rightarrow> c)"

lemma fail_table_store:
  "fail_table threshold now key tab = store_counter key (fail_counter threshold now (counter_of tab key)) tab"
  by (simp add: fail_table_def store_counter_def counter_of_def map_of_setdefault Let_def)

lemma store_counter_eq:
  assumes "dict_wf tab"
  shows "store_counter key c tab =
    evict_front MAX_BUCKETS (filter (\<lambda>p. fst p \<noteq> key) tab @ [(key, c)])"
proof -
  have in_keys: "key \<in> set (keys (setdefault key new_counter tab))"
    by (auto simp: setdefault_def map_of_eq_None_iff split: option.splits dest: map_of_in_dict)
       (metis image_eqI fst_conv map_of_in_dict)
  have "filter (\<lambda>p. fst p \<noteq> key) (setdefault key new_counter tab) = filter (\<lambda>p. fst p \<noteq> key) tab"
    by (simp add: setdefault_def split: option.splits)
  with update_moved_to_end [OF dict_wf_setdefault [OF assms] in_keys] show ?thesis
    by (simp add: store_counter_def bounded_def)
qed

definition table_inv :: "(string, counter) dict \<Rightarrow> bool" where
  "table_inv tab \<longleftrightarrow> dict_wf tab \<and> length tab \<le> MAX_BUCKETS"

lemma dict_wf_stored: "dict_wf tab \<Longrightarrow> dict_wf (filter (\<lambda>p. fst p \<noteq> key) tab @ [(key, c)])"
  by (auto simp: dict_wf_def distinct_map_filter)

interpretation buckets: bounded_store store_counter map_of length table_inv MAX_BUCKETS
proof
  fix tab :: "(string, counter) dict" and key j :: string and c w :: counter
  assume inv: "table_inv tab"
  then have wf: "dict_wf tab" and len: "length tab \<le> MAX_BUCKETS" by (auto simp: table_inv_def)
  note eq = store_counter_eq [OF wf] and wf' = dict_wf_stored [OF wf]
  show "map_of (store_counter key c tab) key = Some c"
    by (simp add: eq map_of_evict_snoc wf' MAX_BUCKETS_def)
  show "table_inv (store_counter key c tab)"
    by (simp add: table_inv_def eq dict_wf_evict wf')
  show "length tab \<le> MAX_BUCKETS" by (rule len)
  show "map_of tab j = Some w"
    if "map_of (store_counter key c tab) j = Some w" and "j \<noteq> key"
    using map_of_evict_SomeD [OF wf'] that
    by (fastforce simp: eq map_add_def map_of_filter_keys [where P = "\<lambda>i. i \<noteq> key"] split: option.splits)
  show "map_of (store_counter key c tab) j = Some w"
    if "length tab < MAX_BUCKETS" and "map_of tab j = Some w" and "j \<noteq> key"
  proof -
    have "length (filter (\<lambda>p. fst p \<noteq> key) tab) < MAX_BUCKETS"
      using that(1) length_filter_le [of "\<lambda>p. fst p \<noteq> key" tab] by linarith
    with that(2,3) show ?thesis
      by (simp add: eq map_add_def map_of_filter_keys [where P = "\<lambda>i. i \<noteq> key"])
  qed
qed

section \<open>Counters\<close>

definition table_ok :: "nat \<Rightarrow> (string, counter) dict \<Rightarrow> bool" where
  "table_ok threshold tab \<longleftrightarrow>
     table_inv tab \<and> (\<forall>(k, c) \<in> set tab. length (failures c) < threshold)"

definition limiter_inv :: "limiter \<Rightarrow> bool" where
  "limiter_inv l \<longleftrightarrow> table_ok MAX_FAILURES_IP (by_ip l) \<and> table_ok MAX_FAILURES_PAIR (by_pair l)"

lemma table_ok_inv: "table_ok n tab \<Longrightarrow> table_inv tab"
  by (simp add: table_ok_def)

lemma table_inv_filter: "table_inv tab \<Longrightarrow> table_inv (filter P tab)"
  by (auto simp: table_inv_def dict_wf_filter intro: le_trans [OF length_filter_le])

lemma table_ok_filter [wf_intros]: "table_ok n tab \<Longrightarrow> table_ok n (filter P tab)"
  by (auto simp: table_ok_def table_inv_filter)

lemma table_ok_delete [wf_intros]: "table_ok n tab \<Longrightarrow> table_ok n (AList.delete k tab)"
  by (simp add: AList.delete_eq table_ok_filter)

lemma table_ok_drop_stale [wf_intros]: "table_ok n tab \<Longrightarrow> table_ok n (drop_stale now tab)"
  by (simp add: drop_stale_def table_ok_filter)

lemma failures_fail_counter_lt: "0 < n \<Longrightarrow> length (failures (fail_counter n now c)) < n"
  by (simp add: fail_counter_def Let_def)

lemma failures_fail_counter:
  "Suc (length (filter (\<lambda>t. now - t < WINDOW_SECONDS) (failures c))) < n \<Longrightarrow>
   failures (fail_counter n now c) = filter (\<lambda>t. now - t < WINDOW_SECONDS) (failures c) @ [now]"
  by (simp add: fail_counter_def prune_def Let_def)

lemma locked_fail_counter:
  "n \<le> Suc (length (filter (\<lambda>t. now - t < WINDOW_SECONDS) (failures c))) \<Longrightarrow>
   locked_until (fail_counter n now c) = now + LOCK_SECONDS"
  by (simp add: fail_counter_def prune_def Let_def)

lemma fail_counter_not_stale: "\<not> stale (fail_counter n now c) now"
  by (auto simp: fail_counter_def stale_def Let_def LOCK_SECONDS_def)

lemma table_ok_fail_table [wf_intros]:
  assumes "table_ok n tab" and "0 < n"
  shows "table_ok n (fail_table n now key tab)"
proof -
  have inv: "table_inv tab" and wf: "dict_wf tab" and small: "\<forall>(k, c) \<in> set tab. length (failures c) < n"
    using assms by (auto simp: table_ok_def table_inv_def)
  let ?c = "fail_counter n now (counter_of tab key)"
  have "set (fail_table n now key tab) \<subseteq> insert (key, ?c) (set tab)"
    using set_evict_front [of MAX_BUCKETS "filter (\<lambda>p. fst p \<noteq> key) tab @ [(key, ?c)]"]
    by (auto simp: fail_table_store store_counter_eq [OF wf])
  then show ?thesis
    using small assms(2) buckets.inv_put [OF inv]
    by (auto simp: table_ok_def fail_table_store failures_fail_counter_lt)
qed

lemma limiter_inv_new [simp]: "limiter_inv new_limiter"
  by (simp add: limiter_inv_def table_ok_def table_inv_def new_limiter_def)

lemma limiter_inv_failure [wf_intros]: "limiter_inv l \<Longrightarrow> limiter_inv (record_failure now ip user l)"
  by (simp add: limiter_inv_def record_failure_def Let_def wf_intros MAX_FAILURES_IP_def
      MAX_FAILURES_PAIR_def)

lemma limiter_inv_success [wf_intros]: "limiter_inv l \<Longrightarrow> limiter_inv (record_success ip user l)"
  by (simp add: limiter_inv_def record_success_def wf_intros)

section \<open>What an operation does to a bucket\<close>

lemma counter_after_failure:
  assumes "table_inv tab"
  shows "map_of (drop_stale now (fail_table n now key tab)) key =
     Some (fail_counter n now (counter_of tab key))"
proof -
  have "dict_wf (fail_table n now key tab)"
    using buckets.inv_put [OF assms] by (simp add: fail_table_store table_inv_def)
  then show ?thesis
    by (simp add: drop_stale_def map_of_filter_dict fail_table_store buckets.lookup_put [OF assms]
        fail_counter_not_stale)
qed

lemma other_counter_after_failure:
  assumes "table_inv tab" and "j \<noteq> key" and "map_of (drop_stale now (fail_table n now key tab)) j = Some c"
  shows "map_of tab j = Some c"
proof -
  have "dict_wf (fail_table n now key tab)"
    using buckets.inv_put [OF assms(1)] by (simp add: fail_table_store table_inv_def)
  then have "map_of (fail_table n now key tab) j = Some c"
    using assms(3) by (auto simp: drop_stale_def map_of_filter_dict split: option.splits if_splits)
  then show ?thesis
    using buckets.lookup_put_other [OF assms(1)] assms(2) by (simp add: fail_table_store)
qed

lemma kept_counter_after_failure:
  assumes "table_inv tab" and "length tab < MAX_BUCKETS" and "j \<noteq> key"
    and "map_of tab j = Some c" and "\<not> stale c now"
  shows "map_of (drop_stale now (fail_table n now key tab)) j = Some c"
proof -
  have "dict_wf (fail_table n now key tab)"
    using buckets.inv_put [OF assms(1)] by (simp add: fail_table_store table_inv_def)
  then show ?thesis
    using buckets.lookup_put_room [OF assms(1,2)] assms(3-5)
    by (simp add: drop_stale_def map_of_filter_dict fail_table_store)
qed

lemma append_sep_inj:
  "sep \<notin> set xs \<Longrightarrow> sep \<notin> set ys \<Longrightarrow> xs @ sep # us = ys @ sep # vs \<longleftrightarrow> xs = ys \<and> us = vs"
proof (induction xs arbitrary: ys)
  case Nil
  then show ?case by (cases ys) auto
next
  case (Cons x xs)
  then show ?case by (cases ys) auto
qed

lemma pair_key_eq:
  "CHR 0x00 \<notin> set a \<Longrightarrow> CHR 0x00 \<notin> set b \<Longrightarrow>
   pair_key a u = pair_key b v \<longleftrightarrow> a = b \<and> casefold u = casefold v"
  by (simp add: pair_key_def append_sep_inj)

lemma ip_key_eq [simp]: "ip_key a = ip_key b \<longleftrightarrow> a = b"
  by (simp add: ip_key_def)

lemma check_allowed:
  "fst (check l t ip user) \<longleftrightarrow>
     (\<forall>c. map_of (by_ip l) (ip_key ip) = Some c \<longrightarrow> locked_until c \<le> t) \<and>
     (\<forall>c. map_of (by_pair l) (pair_key ip user) = Some c \<longrightarrow> locked_until c \<le> t)"
  by (auto simp: check_def locked_for_def split: option.splits)

section \<open>Properties\<close>

datatype limiter_op = Failure rat string string | Success string string

fun limiter_step :: "limiter_op \<Rightarrow> limiter \<Rightarrow> limiter" where
  "limiter_step (Failure now ip user) l = record_failure now ip user l"
| "limiter_step (Success ip user) l = record_success ip user l"

lemma limiter_inv_fold: "limiter_inv l \<Longrightarrow> limiter_inv (fold limiter_step ops l)"
proof (induction ops arbitrary: l)
  case (Cons p ops)
  then show ?case by (cases p) (auto intro: wf_intros)
qed simp

text \<open>
  Whatever sequence of failures and successes the limiter has seen since start-up, each of
  its two tables holds distinct keys, at most \<open>MAX_BUCKETS\<close> of them, and every counter holds
  fewer failures than its lock threshold: the memory an unauthenticated client can make the
  process use is bounded.
\<close>

theorem limiter_memory_bounded:
  "limiter_inv (fold limiter_step ops new_limiter) \<and>
   tracked_bucket_count (rl_status (fold limiter_step ops new_limiter) now) \<le> 2 * MAX_BUCKETS"
proof -
  have inv: "limiter_inv (fold limiter_step ops new_limiter)"
    by (simp add: limiter_inv_fold)
  then have "length (by_ip (fold limiter_step ops new_limiter)) \<le> MAX_BUCKETS"
    and "length (by_pair (fold limiter_step ops new_limiter)) \<le> MAX_BUCKETS"
    by (auto simp: limiter_inv_def table_ok_def table_inv_def)
  with inv show ?thesis by (simp add: rl_status_def)
qed

lemma by_pair_record_failure:
  "by_pair (record_failure now ip user l) =
     drop_stale now (fail_table MAX_FAILURES_PAIR now (pair_key ip user) (by_pair l))"
  by (simp add: record_failure_def Let_def)

lemma by_ip_record_failure:
  "by_ip (record_failure now ip user l) =
     drop_stale now (fail_table MAX_FAILURES_IP now (ip_key ip) (by_ip l))"
  by (simp add: record_failure_def Let_def)

lemma pair_counter_after_failure:
  assumes "limiter_inv l"
  shows "map_of (by_pair (record_failure now ip user l)) (pair_key ip user) =
    Some (fail_counter MAX_FAILURES_PAIR now (counter_of (by_pair l) (pair_key ip user)))"
  using assms
  by (auto simp: by_pair_record_failure limiter_inv_def intro!: counter_after_failure table_ok_inv)

lemma pair_failures_collect:
  assumes "limiter_inv l" and "failures (counter_of (by_pair l) (pair_key ip user)) = ts"
    and "length ts < 4" and "\<forall>t \<in> set ts. now - t < WINDOW_SECONDS"
  shows "failures (counter_of (by_pair (record_failure now ip user l)) (pair_key ip user)) = ts @ [now]"
proof -
  have f: "filter (\<lambda>t. now - t < WINDOW_SECONDS) ts = ts" using assms(4) by simp
  then show ?thesis
    using assms(2,3)
    by (simp add: counter_of_def [of "by_pair (record_failure now ip user l)"]
        pair_counter_after_failure [OF assms(1)] failures_fail_counter MAX_FAILURES_PAIR_def)
qed

lemma pair_fifth_failure_locks:
  assumes "limiter_inv l" and "failures (counter_of (by_pair l) (pair_key ip user)) = ts"
    and "length ts = 4" and "\<forall>t \<in> set ts. now - t < WINDOW_SECONDS"
  shows "\<exists>c. map_of (by_pair (record_failure now ip user l)) (pair_key ip user) = Some c \<and>
     locked_until c = now + LOCK_SECONDS"
  using assms locked_fail_counter [of MAX_FAILURES_PAIR now "counter_of (by_pair l) (pair_key ip user)"]
  by (simp add: pair_counter_after_failure MAX_FAILURES_PAIR_def)

text \<open>
  C12.  Five failures of one address and account within the window, starting with an account
  that has no failure on record, make \<open>check\<close> deny that address and account from the fifth
  failure on for \<open>LOCK_SECONDS\<close>.
\<close>

theorem five_failures_lock_pair:
  assumes "limiter_inv l" and "failures (counter_of (by_pair l) (pair_key ip user)) = []"
    and "t1 \<le> t2" "t2 \<le> t3" "t3 \<le> t4" "t4 \<le> t5" and "t5 - t1 < WINDOW_SECONDS"
    and "t < t5 + LOCK_SECONDS"
  shows "\<not> fst (check (fold (\<lambda>t. record_failure t ip user) [t1, t2, t3, t4, t5] l) t ip user)"
proof -
  let ?k = "pair_key ip user"
  let ?l1 = "record_failure t1 ip user l"
  let ?l2 = "record_failure t2 ip user ?l1"
  let ?l3 = "record_failure t3 ip user ?l2"
  let ?l4 = "record_failure t4 ip user ?l3"
  have inv: "limiter_inv ?l1" "limiter_inv ?l2" "limiter_inv ?l3" "limiter_inv ?l4"
    using assms(1) by (auto intro: wf_intros)
  have 1: "failures (counter_of (by_pair ?l1) ?k) = [t1]"
    using pair_failures_collect [OF assms(1,2), of t1] by simp
  have 2: "failures (counter_of (by_pair ?l2) ?k) = [t1, t2]"
    using pair_failures_collect [OF inv(1) 1, of t2] assms(3-7) by simp
  have 3: "failures (counter_of (by_pair ?l3) ?k) = [t1, t2, t3]"
    using pair_failures_collect [OF inv(2) 2, of t3] assms(3-7) by simp
  have 4: "failures (counter_of (by_pair ?l4) ?k) = [t1, t2, t3, t4]"
    using pair_failures_collect [OF inv(3) 3, of t4] assms(3-7) by simp
  obtain c where "map_of (by_pair (record_failure t5 ip user ?l4)) ?k = Some c"
    and "locked_until c = t5 + LOCK_SECONDS"
    using pair_fifth_failure_locks [OF inv(4) 4, of t5] assms(3-7) by auto
  with assms(8) show ?thesis by (auto simp: check_allowed)
qed

theorem five_failures_lock_pair_witness:
  "\<not> fst (check (fold (\<lambda>t. record_failure t ''10.0.0.1'' ''Admin'') [0, 10, 20, 30, 40] new_limiter)
       639 ''10.0.0.1'' ''admin'')"
proof -
  have "\<not> fst (check (fold (\<lambda>t. record_failure t ''10.0.0.1'' ''Admin'') [0, 10, 20, 30, 40] new_limiter)
       639 ''10.0.0.1'' ''Admin'')"
    by (rule five_failures_lock_pair)
      (simp_all add: counter_of_def new_limiter_def new_counter_def limit_consts
         limiter_inv_new [unfolded new_limiter_def])
  moreover have "pair_key ''10.0.0.1'' ''admin'' = pair_key ''10.0.0.1'' ''Admin''"
    by code_simp
  ultimately show ?thesis by (simp only: check_allowed not_False_eq_True)
qed

lemma allowed_after_failure:
  assumes "limiter_inv l" and "CHR 0x00 \<notin> set a" "CHR 0x00 \<notin> set b" and "a \<noteq> b"
    and "fst (check l t b v)"
  shows "fst (check (record_failure now a u l) t b v)"
proof -
  have ok: "table_inv (by_ip l)" "table_inv (by_pair l)"
    using assms(1) by (auto simp: limiter_inv_def table_ok_inv)
  have ne: "ip_key b \<noteq> ip_key a" "pair_key b v \<noteq> pair_key a u"
    using assms(2-4) by (auto simp: pair_key_eq)
  note kept = other_counter_after_failure [OF ok(1) ne(1)] other_counter_after_failure [OF ok(2) ne(2)]
  show ?thesis
    using assms(5)
    unfolding check_allowed by_ip_record_failure by_pair_record_failure by (blast dest: kept)
qed

text \<open>
  There is no global account lock: however many failures an address \<open>a\<close> records, for
  whatever account names and at whatever times, a login from another address \<open>b\<close> that the
  limiter allowed is still allowed.  (An address holds no NUL character, the separator of the
  table's keys.)
\<close>

theorem no_lock_from_other_address:
  assumes "limiter_inv l" and "CHR 0x00 \<notin> set a" and "CHR 0x00 \<notin> set b" and "a \<noteq> b"
    and "fst (check l t b v)"
  shows "fst (check (fold (\<lambda>(now, u). record_failure now a u) fs l) t b v)"
  using assms
proof (induction fs arbitrary: l)
  case (Cons f fs)
  then show ?case
    by (cases f) (auto intro!: Cons.IH allowed_after_failure limiter_inv_failure)
qed simp

theorem no_lock_from_other_address_witness:
  "fst (check (fold (\<lambda>(now, u). record_failure now ''203.0.113.9'' u)
      [(0, ''admin''), (1, ''admin''), (2, ''admin''), (3, ''admin''), (4, ''admin''), (5, ''admin'')]
      new_limiter) 6 ''10.0.0.1'' ''admin'')"
  by (rule no_lock_from_other_address) (simp_all add: check_allowed new_limiter_def
      limiter_inv_new [unfolded new_limiter_def])

text \<open>
  A successful login clears the failures of its own address and account, and nothing else:
  the address's own lock and every other pair keep their counters.
\<close>

theorem success_clears_only_its_pair:
  "counter_of (by_pair (record_success ip user l)) (pair_key ip user) = new_counter \<and>
   by_ip (record_success ip user l) = by_ip l \<and>
   (fst (check (record_success ip user l) t ip user) \<longleftrightarrow> locked_for (by_ip l) (ip_key ip) t = None) \<and>
   (k = pair_key ip user \<or> map_of (by_pair (record_success ip user l)) k = map_of (by_pair l) k)"
  by (auto simp: record_success_def counter_of_def delete_conv' check_def locked_for_def
      split: option.splits)

end
