(* ===== verification/Cache.thy ===== *)
theory Cache
  imports Prelude "HOL-Library.Sublist"
begin

text \<open>
  The response cache, \<open>backend/app/cache.py\<close>: the in-memory backend (\<open>get\<close>, \<open>set\<close>,
  \<open>clear\<close>), the bounded Redis backend over the client's commands, \<open>invalidate_prefix\<close>, and
  the single-flight protocol of \<open>cached\<close> as a step relation over any number of threads.
  \<open>time.monotonic()\<close> is the argument \<open>now\<close>; cached values are of any type \<open>'v\<close>.
\<close>

section \<open>The in-memory backend\<close>

definition MAX_MEMORY_CACHE_ENTRIES :: nat where "MAX_MEMORY_CACHE_ENTRIES = 1024"
definition MAX_CACHE_VALUE_BYTES :: nat where "MAX_CACHE_VALUE_BYTES = 32 * 1024 * 1024"

record 'v mem_backend =
  mdata :: "(string, rat \<times> 'v) dict"
  next_sweep :: rat

definition new_mem :: "'v mem_backend" where
  "new_mem = \<lparr>mdata = [], next_sweep = 0\<rparr>"

definition mem_get :: "rat \<Rightarrow> string \<Rightarrow> 'v mem_backend \<Rightarrow> 'v option \<times> 'v mem_backend" where
  "mem_get now key m =
     (case map_of (mdata m) key of
        None \<Rightarrow> (None, m)
      | Some (expires, value) \<Rightarrow>
          if expires < now then (None, m\<lparr>mdata := AList.delete key (mdata m)\<rparr>)
          else (Some value, m))"

definition mem_set :: "rat \<Rightarrow> string \<Rightarrow> 'v \<Rightarrow> rat \<Rightarrow> 'v mem_backend \<Rightarrow> 'v mem_backend" where
  "mem_set now key value ttl m =
     (let d = AList.update key (now + ttl, value) (mdata m)
      in if now \<ge> next_sweep m \<or> length d > MAX_MEMORY_CACHE_ENTRIES
         then \<lparr>mdata = evict_front MAX_MEMORY_CACHE_ENTRIES (filter (\<lambda>(k, e, v). \<not> e < now) d),
               next_sweep = now + 60\<rparr>
         else m\<lparr>mdata := d\<rparr>)"

definition mem_clear :: "'v mem_backend \<Rightarrow> 'v mem_backend" where
  "mem_clear m = \<lparr>mdata = [], next_sweep = 0\<rparr>"

definition mem_invalidate_prefix :: "string \<Rightarrow> 'v mem_backend \<Rightarrow> 'v mem_backend" where
  "mem_invalidate_prefix pre m = m\<lparr>mdata := filter (\<lambda>(k, w). \<not> prefix pre k) (mdata m)\<rparr>"

definition mem_inv :: "'v mem_backend \<Rightarrow> bool" where
  "mem_inv m \<longleftrightarrow> dict_wf (mdata m) \<and> length (mdata m) \<le> MAX_MEMORY_CACHE_ENTRIES"

section \<open>The Redis backend\<close>

text \<open>
  The Redis server and client are not part of the repository: \<open>getrange\<close> and \<open>store\<close> are the
  client's commands on an abstract server state, \<open>loads\<close> and \<open>dumps\<close> are the JSON codec on
  bytes.
\<close>

definition KEY_PREFIX :: string where "KEY_PREFIX = ''gpumon:cache:''"

datatype cache_error = ValueError

definition redis_get ::
    "('s \<Rightarrow> string \<Rightarrow> nat \<Rightarrow> nat \<Rightarrow> string option) \<Rightarrow> (string \<Rightarrow> 'v) \<Rightarrow> string \<Rightarrow> 's \<Rightarrow>
     cache_error + 'v option" where
  "redis_get getrange loads key s =
     (case getrange s (KEY_PREFIX @ key) 0 MAX_CACHE_VALUE_BYTES of
        None \<Rightarrow> Inr None
      | Some raw \<Rightarrow>
          if length raw > MAX_CACHE_VALUE_BYTES then Inl ValueError
          else if raw = [] then Inr None
          else Inr (Some (loads raw)))"

definition redis_set ::
    "('s \<Rightarrow> string \<Rightarrow> string \<Rightarrow> int \<Rightarrow> 's) \<Rightarrow> ('v \<Rightarrow> string) \<Rightarrow> string \<Rightarrow> 'v \<Rightarrow> rat \<Rightarrow> 's \<Rightarrow> 's" where
  "redis_set store dumps key value ttl s =
     (let payload = dumps value
      in if length payload > MAX_CACHE_VALUE_BYTES then s
         else store s (KEY_PREFIX @ key) payload
                (max 1 (if 0 \<le> ttl then \<lfloor>ttl\<rfloor> else \<lceil>ttl\<rceil>)))"

section \<open>Single flight\<close>

text \<open>
  One thread in \<open>cached(key, ttl, fn)\<close>.  Its program counter names the next action: the first
  lookup, the registration under \<open>_inflight_lock\<close>, waiting for the leader's event, the second
  lookup, a computation whose value is not stored, and the leader's computation, store, removal
  of the in-flight entry and signal.  \<open>None\<close> as a result stands for an exception raised by
  \<open>fn\<close>.
\<close>

datatype 'v pc =
    Start
  | Missed
  | Waiting nat
  | Recheck
  | Direct
  | Leading nat
  | Storing nat 'v
  | Releasing nat "'v option"
  | Signalling nat "'v option"
  | Finished "'v option"

record 'v flight =
  pcs :: "nat \<Rightarrow> 'v pc"
  backend :: "'v mem_backend"
  inflight :: "string \<Rightarrow> nat option"
  signalled :: "nat \<Rightarrow> bool"
  next_event :: nat

abbreviation move :: "nat \<Rightarrow> 'v pc \<Rightarrow> 'v flight \<Rightarrow> 'v flight" where
  "move i p s \<equiv> s\<lparr>pcs := (pcs s)(i := p)\<rparr>"

definition init_flight :: "'v mem_backend \<Rightarrow> 'v flight" where
  "init_flight m = \<lparr>pcs = (\<lambda>_. Start), backend = m, inflight = (\<lambda>_. None),
     signalled = (\<lambda>_. False), next_event = 0\<rparr>"

text \<open>
  \<open>key i\<close> and \<open>ttl i\<close> are the arguments of thread \<open>i\<close>.  A lookup that raises leads to a direct
  computation; a failing store is ignored; \<open>ev.wait(15)\<close> returns when the event is set or after
  its timeout.
\<close>

inductive flight_step :: "(nat \<Rightarrow> string) \<Rightarrow> (nat \<Rightarrow> rat) \<Rightarrow> 'v flight \<Rightarrow> 'v flight \<Rightarrow> bool"
  for key :: "nat \<Rightarrow> string" and ttl :: "nat \<Rightarrow> rat" where
  hit: "pcs s i = Start \<Longrightarrow> mem_get now (key i) (backend s) = (Some v, m) \<Longrightarrow>
    flight_step key ttl s (move i (Finished (Some v)) (s\<lparr>backend := m\<rparr>))"
| miss: "pcs s i = Start \<Longrightarrow> mem_get now (key i) (backend s) = (None, m) \<Longrightarrow>
    flight_step key ttl s (move i Missed (s\<lparr>backend := m\<rparr>))"
| get_fails: "pcs s i = Start \<Longrightarrow> flight_step key ttl s (move i Direct s)"
| lead: "pcs s i = Missed \<Longrightarrow> inflight s (key i) = None \<Longrightarrow>
    flight_step key ttl s (move i (Leading (next_event s))
      (s\<lparr>inflight := (inflight s)(key i := Some (next_event s)), next_event := Suc (next_event s)\<rparr>))"
| follow: "pcs s i = Missed \<Longrightarrow> inflight s (key i) = Some e \<Longrightarrow>
    flight_step key ttl s (move i (Waiting e) s)"
| woken: "pcs s i = Waiting e \<Longrightarrow> signalled s e \<Longrightarrow> flight_step key ttl s (move i Recheck s)"
| timed_out: "pcs s i = Waiting e \<Longrightarrow> flight_step key ttl s (move i Recheck s)"
| recheck_hit: "pcs s i = Recheck \<Longrightarrow> mem_get now (key i) (backend s) = (Some v, m) \<Longrightarrow>
    flight_step key ttl s (move i (Finished (Some v)) (s\<lparr>backend := m\<rparr>))"
| recheck_miss: "pcs s i = Recheck \<Longrightarrow> mem_get now (key i) (backend s) = (None, m) \<Longrightarrow>
    flight_step key ttl s (move i Direct (s\<lparr>backend := m\<rparr>))"
| recheck_fails: "pcs s i = Recheck \<Longrightarrow> flight_step key ttl s (move i Direct s)"
| direct: "pcs s i = Direct \<Longrightarrow> flight_step key ttl s (move i (Finished r) s)"
| compute: "pcs s i = Leading e \<Longrightarrow> flight_step key ttl s (move i (Storing e v) s)"
| compute_raises: "pcs s i = Leading e \<Longrightarrow> flight_step key ttl s (move i (Releasing e None) s)"
| store: "pcs s i = Storing e v \<Longrightarrow>
    flight_step key ttl s (move i (Releasing e (Some v))
      (s\<lparr>backend := mem_set now (key i) v (ttl i) (backend s)\<rparr>))"
| store_fails: "pcs s i = Storing e v \<Longrightarrow> flight_step key ttl s (move i (Releasing e (Some v)) s)"
| release: "pcs s i = Releasing e r \<Longrightarrow>
    flight_step key ttl s (move i (Signalling e r) (s\<lparr>inflight := (inflight s)(key i := None)\<rparr>))"
| signal: "pcs s i = Signalling e r \<Longrightarrow>
    flight_step key ttl s (move i (Finished r) (s\<lparr>signalled := (signalled s)(e := True)\<rparr>))"

inductive flight_reachable :: "(nat \<Rightarrow> string) \<Rightarrow> (nat \<Rightarrow> rat) \<Rightarrow> 'v flight \<Rightarrow> bool"
  for key :: "nat \<Rightarrow> string" and ttl :: "nat \<Rightarrow> rat" where
  start: "mem_inv m \<Longrightarrow> flight_reachable key ttl (init_flight m)"
| step: "flight_reachable key ttl s \<Longrightarrow> flight_step key ttl s t \<Longrightarrow> flight_reachable key ttl t"

inductive_cases flight_stepE: "flight_step key ttl s t"

section \<open>The backend's invariant\<close>

lemma mem_inv_new [simp]: "mem_inv new_mem"
  by (simp add: mem_inv_def new_mem_def)

lemma mem_inv_filter: "mem_inv m \<Longrightarrow> mem_inv (m\<lparr>mdata := filter P (mdata m)\<rparr>)"
  by (auto simp: mem_inv_def dict_wf_filter intro: le_trans [OF length_filter_le])

lemma mem_inv_get [wf_intros]: "mem_inv m \<Longrightarrow> mem_inv (snd (mem_get now k m))"
  by (auto simp: mem_get_def AList.delete_eq mem_inv_filter split: option.splits)

lemma mem_inv_set [wf_intros]: "mem_inv m \<Longrightarrow> mem_inv (mem_set now k v ttl m)"
  by (auto simp: mem_inv_def mem_set_def Let_def wf_intros)

lemma mem_inv_clear [wf_intros]: "mem_inv (mem_clear m)"
  by (simp add: mem_inv_def mem_clear_def)

lemma mem_inv_invalidate [wf_intros]: "mem_inv m \<Longrightarrow> mem_inv (mem_invalidate_prefix p m)"
  by (simp add: mem_invalidate_prefix_def mem_inv_filter)

lemma update_snoc:
  "map_of d k = None \<Longrightarrow> AList.update k v d = d @ [(k, v)]"
  by (induction d) (auto split: if_splits)

text \<open>An entry that is still alive at \<open>now\<close> can be read back right after it is written.\<close>

lemma map_of_mem_set_same:
  assumes "mem_inv m" and "0 \<le> ttl"
  shows "map_of (mdata (mem_set now k v ttl m)) k = Some (now + ttl, v)"
proof -
  let ?d = "AList.update k (now + ttl, v) (mdata m)"
  let ?f = "filter (\<lambda>(k, e, v). \<not> e < now) ?d"
  have wf: "dict_wf ?d" and len: "length (mdata m) \<le> MAX_MEMORY_CACHE_ENTRIES"
    using assms(1) by (auto simp: mem_inv_def wf_intros)
  have "map_of ?f k = Some (now + ttl, v)"
    using assms(2) by (simp add: map_of_filter_dict [OF wf])
  moreover have "map_of (evict_front MAX_MEMORY_CACHE_ENTRIES ?f) k = Some (now + ttl, v)"
  proof (cases "map_of (mdata m) k")
    case None
    then have "?f = filter (\<lambda>(k, e, v). \<not> e < now) (mdata m) @ [(k, now + ttl, v)]"
      using assms(2) by (simp add: update_snoc)
    then show ?thesis
      using dict_wf_filter [OF wf, of "\<lambda>(k, e, v). \<not> e < now"]
      by (simp add: map_of_evict_snoc MAX_MEMORY_CACHE_ENTRIES_def)
  next
    case (Some w)
    then have "k \<in> set (keys (mdata m))" by (force dest: map_of_in_dict)
    then have "length ?d \<le> MAX_MEMORY_CACHE_ENTRIES" using len by (simp add: length_update)
    then have "length ?f \<le> MAX_MEMORY_CACHE_ENTRIES"
      by (rule order.trans [OF length_filter_le])
    with \<open>map_of ?f k = Some (now + ttl, v)\<close> show ?thesis by simp
  qed
  ultimately show ?thesis by (simp add: mem_set_def Let_def)
qed

text \<open>Any other entry read after a write was there, unchanged, before it.\<close>

lemma map_of_mem_set_other:
  assumes "mem_inv m" and "map_of (mdata (mem_set now k v ttl m)) j = Some w" and "j \<noteq> k"
  shows "map_of (mdata m) j = Some w"
proof -
  let ?d = "AList.update k (now + ttl, v) (mdata m)"
  let ?f = "filter (\<lambda>(k, e, v). \<not> e < now) ?d"
  have wf: "dict_wf ?d" using assms(1) by (simp add: mem_inv_def wf_intros)
  have "map_of ?d j = Some w"
  proof (cases "now \<ge> next_sweep m \<or> length ?d > MAX_MEMORY_CACHE_ENTRIES")
    case True
    then have "map_of (evict_front MAX_MEMORY_CACHE_ENTRIES ?f) j = Some w"
      using assms(2) by (simp add: mem_set_def Let_def)
    then have "map_of ?f j = Some w" by (rule map_of_evict_SomeD [OF dict_wf_filter [OF wf]])
    then show ?thesis by (auto simp: map_of_filter_dict [OF wf] split: option.splits if_splits)
  next
    case False
    then show ?thesis using assms(2) by (simp add: mem_set_def Let_def)
  qed
  with assms(3) show ?thesis by simp
qed

interpretation mem: bounded_store "\<lambda>k v. mem_set now k v (max 0 ttl)" "\<lambda>m k. fst (mem_get now k m)"
  "\<lambda>m. length (mdata m)" mem_inv MAX_MEMORY_CACHE_ENTRIES for now ttl
proof
  fix m :: "'a mem_backend" and k j :: string and v w :: 'a
  assume inv: "mem_inv m"
  show "mem_inv (mem_set now k v (max 0 ttl) m)" by (rule mem_inv_set [OF inv])
  show "length (mdata m) \<le> MAX_MEMORY_CACHE_ENTRIES" using inv by (simp add: mem_inv_def)
  show "fst (mem_get now k (mem_set now k v (max 0 ttl) m)) = Some v"
    by (simp add: mem_get_def map_of_mem_set_same [OF inv])
  show "fst (mem_get now j m) = Some w"
    if read: "fst (mem_get now j (mem_set now k v (max 0 ttl) m)) = Some w" and ne: "j \<noteq> k"
    using read by (auto simp: mem_get_def split: option.splits if_splits
        dest!: map_of_mem_set_other [OF inv _ ne])
  show "fst (mem_get now j (mem_set now k v (max 0 ttl) m)) = Some w"
    if room: "length (mdata m) < MAX_MEMORY_CACHE_ENTRIES" and read: "fst (mem_get now j m) = Some w"
      and ne: "j \<noteq> k"
  proof -
    let ?d = "AList.update k (now + max 0 ttl, v) (mdata m)"
    obtain e where e: "map_of (mdata m) j = Some (e, w)" "\<not> e < now"
      using read by (auto simp: mem_get_def split: option.splits if_splits)
    have wf: "dict_wf ?d" using inv by (simp add: mem_inv_def wf_intros)
    have "length (filter (\<lambda>(k, e, v). \<not> e < now) ?d) \<le> MAX_MEMORY_CACHE_ENTRIES"
      using room by (auto simp: length_update intro: order.trans [OF length_filter_le])
    then have "map_of (mdata (mem_set now k v (max 0 ttl) m)) j = Some (e, w)"
      using ne e by (auto simp: mem_set_def Let_def map_of_filter_dict [OF wf])
    with e(2) show ?thesis by (simp add: mem_get_def)
  qed
qed

section \<open>Properties\<close>

text \<open>
  A value written to the in-memory cache is served unchanged until its time to live is
  over, even when the write had to evict entries to stay under the bound.
\<close>

theorem cache_serves_written_value:
  assumes "mem_inv m" and "now \<le> t" and "t \<le> now + ttl"
  shows "fst (mem_get t k (mem_set now k v ttl m)) = Some v"
proof -
  have "0 \<le> ttl" using assms(2,3) by linarith
  with assms show ?thesis by (simp add: mem_get_def map_of_mem_set_same)
qed

theorem cache_serves_written_value_witness:
  "fst (mem_get 115 ''metrics:dashboard'' (mem_set 100 ''metrics:dashboard'' (7 :: int) 15 new_mem)) = Some 7"
  by (rule cache_serves_written_value) simp_all

text \<open>
  The specification: the last value written under each key that no clear or prefix
  invalidation removed since.
\<close>

datatype 'v cache_op =
    Set rat string 'v rat
  | Get rat string
  | Clear
  | Invalidate string

fun cache_step :: "'v cache_op \<Rightarrow> 'v mem_backend \<Rightarrow> 'v mem_backend" where
  "cache_step (Set now k v ttl) m = mem_set now k v ttl m"
| "cache_step (Get now k) m = snd (mem_get now k m)"
| "cache_step Clear m = mem_clear m"
| "cache_step (Invalidate p) m = mem_invalidate_prefix p m"

fun spec_step :: "'v cache_op \<Rightarrow> (string \<rightharpoonup> rat \<times> 'v) \<Rightarrow> (string \<rightharpoonup> rat \<times> 'v)" where
  "spec_step (Set now k v ttl) s = s(k \<mapsto> (now + ttl, v))"
| "spec_step (Get now k) s = s"
| "spec_step Clear s = (\<lambda>_. None)"
| "spec_step (Invalidate p) s = (\<lambda>k. if prefix p k then None else s k)"

definition refines :: "'v mem_backend \<Rightarrow> (string \<rightharpoonup> rat \<times> 'v) \<Rightarrow> bool" where
  "refines m s \<longleftrightarrow> mem_inv m \<and> map_of (mdata m) \<subseteq>\<^sub>m s"

lemma refines_set: "refines m s \<Longrightarrow> refines (mem_set now k v ttl m) (s(k \<mapsto> (now + ttl, v)))"
proof -
  assume r: "refines m s"
  then have inv: "mem_inv m" by (simp add: refines_def)
  have "map_of (mdata (mem_set now k v ttl m)) j = Some w \<Longrightarrow> (s(k \<mapsto> (now + ttl, v))) j = Some w" for j w
  proof (cases "j = k")
    case True
    assume a: "map_of (mdata (mem_set now k v ttl m)) j = Some w"
    have "dict_wf (AList.update k (now + ttl, v) (mdata m))"
      using inv by (simp add: mem_inv_def wf_intros)
    then have "map_of (AList.update k (now + ttl, v) (mdata m)) j = Some w"
      using a by (auto simp: mem_set_def Let_def map_of_filter_dict split: if_splits option.splits
          dest!: map_of_evict_SomeD [rotated] intro: dict_wf_filter)
    with True show ?thesis by simp
  next
    case False
    assume "map_of (mdata (mem_set now k v ttl m)) j = Some w"
    then have "map_of (mdata m) j = Some w" by (rule map_of_mem_set_other [OF inv _ False])
    with r False show ?thesis by (force simp: refines_def map_le_def)
  qed
  then show ?thesis using mem_inv_set [OF inv] by (force simp: refines_def map_le_def dom_def)
qed

lemma map_of_filter_key_Some:
  "map_of (filter (\<lambda>(k, w). P k) d) j = (if P j then map_of d j else None)"
  by (induction d) auto

lemma refines_step: "refines m s \<Longrightarrow> refines (cache_step op m) (spec_step op s)"
proof (cases op)
  case (Get now k)
  assume r: "refines m s"
  have "map_of (mdata (snd (mem_get now k m))) \<subseteq>\<^sub>m map_of (mdata m)"
    by (auto simp: mem_get_def map_le_def delete_conv' split: option.splits)
  with r show ?thesis
    using map_le_trans by (auto simp: Get refines_def mem_inv_get)
next
  case (Invalidate p)
  assume "refines m s"
  then show ?thesis
    by (auto simp: Invalidate refines_def mem_inv_filter mem_invalidate_prefix_def map_le_def
        map_of_filter_key_Some [where P = "\<lambda>k. \<not> prefix p k"])
next
  case Clear
  have "mdata (mem_clear m) = []" by (simp add: mem_clear_def)
  then show ?thesis using mem_inv_clear [of m] by (simp add: Clear refines_def)
qed (simp add: refines_set)

lemma refines_fold: "refines m s \<Longrightarrow> refines (fold cache_step ops m) (fold spec_step ops s)"
  by (induction ops arbitrary: m s) (auto intro: refines_step)

text \<open>
  C25.  After any sequence of reads, writes, clears and prefix invalidations the cache holds at
  most \<open>MAX_MEMORY_CACHE_ENTRIES\<close> entries, and a read returns a value only if it is the last
  one written under that key since the key was cleared or invalidated, and has not expired: an
  entry is never stale, foreign or resurrected.
\<close>

theorem cache_refines_last_write:
  "length (mdata (fold cache_step ops new_mem)) \<le> MAX_MEMORY_CACHE_ENTRIES \<and>
   (fst (mem_get t k (fold cache_step ops new_mem)) = Some v \<longrightarrow>
      (\<exists>expires \<ge> t. fold spec_step ops (\<lambda>_. None) k = Some (expires, v)))"
proof -
  have "refines new_mem (\<lambda>_. None)"
    by (simp add: refines_def) (simp add: new_mem_def)
  then have r: "refines (fold cache_step ops new_mem) (fold spec_step ops (\<lambda>_. None))"
    by (rule refines_fold)
  then have "map_of (mdata (fold cache_step ops new_mem)) k = Some w \<Longrightarrow>
      fold spec_step ops (\<lambda>_. None) k = Some w" for w
    by (force simp: refines_def map_le_def)
  with r show ?thesis
    by (auto simp: refines_def mem_inv_def mem_get_def not_less split: option.splits if_splits)
qed

theorem cache_refines_last_write_witness:
  "\<exists>expires \<ge> 12. fold spec_step [Set 0 ''a'' (1 :: int) 10, Set 5 ''a'' 2 10] (\<lambda>_. None) ''a'' = Some (expires, 2)"
proof -
  have "fst (mem_get 12 ''a'' (fold cache_step [Set 0 ''a'' (1 :: int) 10, Set 5 ''a'' 2 10] new_mem)) = Some 2"
    by (simp add: mem_set_def mem_get_def new_mem_def Let_def MAX_MEMORY_CACHE_ENTRIES_def)
  then show ?thesis
    using cache_refines_last_write [of "[Set 0 ''a'' (1 :: int) 10, Set 5 ''a'' 2 10]" 12 "''a''" 2] by blast
qed

fun owned :: "'v pc \<Rightarrow> nat option" where
  "owned (Leading e) = Some e"
| "owned (Storing e v) = Some e"
| "owned (Releasing e r) = Some e"
| "owned p = None"

fun signalling :: "'v pc \<Rightarrow> nat option" where
  "signalling (Signalling e r) = Some e"
| "signalling p = owned p"

text \<open>
  The in-flight table names exactly the leaders, events are fresh, and an event somebody waits
  for is set or still in the hands of a thread that will set it.
\<close>

definition flight_inv :: "(nat \<Rightarrow> string) \<Rightarrow> 'v flight \<Rightarrow> bool" where
  "flight_inv key s \<longleftrightarrow>
     (\<forall>i e. owned (pcs s i) = Some e \<longrightarrow> inflight s (key i) = Some e) \<and>
     (\<forall>k e. inflight s k = Some e \<longrightarrow> e < next_event s \<and> (\<exists>i. key i = k \<and> owned (pcs s i) = Some e)) \<and>
     (\<forall>i j e. owned (pcs s i) = Some e \<longrightarrow> owned (pcs s j) = Some e \<longrightarrow> i = j) \<and>
     (\<forall>i e. pcs s i = Waiting e \<longrightarrow> signalled s e \<or> (\<exists>j. signalling (pcs s j) = Some e)) \<and>
     mem_inv (backend s)"

lemma flight_inv_init: "mem_inv m \<Longrightarrow> flight_inv key (init_flight m)"
  by (simp add: flight_inv_def init_flight_def)

lemma mem_inv_got: "mem_get now k m = (r, m') \<Longrightarrow> mem_inv m \<Longrightarrow> mem_inv m'"
  by (metis mem_inv_get snd_conv)

text \<open>A step that leaves the in-flight table alone and neither owns nor gives up an event.\<close>

lemma flight_inv_move:
  assumes "flight_inv key s" and "owned p = owned (pcs s i)" and "signalling p = signalling (pcs s i)"
    and "\<And>e. p = Waiting e \<Longrightarrow> signalled s e \<or> (\<exists>j. signalling (pcs s j) = Some e)"
    and "mem_inv m"
  shows "flight_inv key (move i p (s\<lparr>backend := m\<rparr>))"
proof -
  have sig: "(\<exists>j. signalling (((pcs s)(i := p)) j) = Some e) \<longleftrightarrow> (\<exists>j. signalling (pcs s j) = Some e)" for e
    using assms(3) by (metis fun_upd_other fun_upd_same)
  have own: "owned (((pcs s)(i := p)) j) = owned (pcs s j)" for j using assms(2) by simp
  have wait: "signalled s e \<or> (\<exists>j. signalling (pcs s j) = Some e)" if "((pcs s)(i := p)) k = Waiting e" for k e
    using that assms(1,4) by (cases "k = i") (auto simp: flight_inv_def)
  show ?thesis
    using assms(1,5) wait
    unfolding flight_inv_def by (simp add: own sig del: fun_upd_apply)
qed

lemma flight_invI:
  assumes "\<And>i e. owned (pcs s i) = Some e \<Longrightarrow> inflight s (key i) = Some e"
    and "\<And>k e. inflight s k = Some e \<Longrightarrow> e < next_event s"
    and "\<And>k e. inflight s k = Some e \<Longrightarrow> \<exists>i. key i = k \<and> owned (pcs s i) = Some e"
    and "\<And>i j e. owned (pcs s i) = Some e \<Longrightarrow> owned (pcs s j) = Some e \<Longrightarrow> i = j"
    and "\<And>i e. pcs s i = Waiting e \<Longrightarrow> signalled s e \<or> (\<exists>j. signalling (pcs s j) = Some e)"
    and "mem_inv (backend s)"
  shows "flight_inv key s"
  using assms unfolding flight_inv_def by blast

lemma flight_invD:
  assumes "flight_inv key s"
  shows owned_registered: "owned (pcs s i) = Some e \<Longrightarrow> inflight s (key i) = Some e"
    and registered_old: "inflight s k = Some e \<Longrightarrow> e < next_event s"
    and registered_owned: "inflight s k = Some e \<Longrightarrow> \<exists>i. key i = k \<and> owned (pcs s i) = Some e"
    and owner_unique: "owned (pcs s i) = Some e \<Longrightarrow> owned (pcs s j) = Some e \<Longrightarrow> i = j"
    and waiter_served: "pcs s i = Waiting e \<Longrightarrow> signalled s e \<or> (\<exists>j. signalling (pcs s j) = Some e)"
    and flight_mem: "mem_inv (backend s)"
  using assms unfolding flight_inv_def by blast+

lemma flight_inv_lead:
  assumes "flight_inv key s" and "pcs s i = Missed" and "inflight s (key i) = None"
  shows "flight_inv key (move i (Leading (next_event s))
      (s\<lparr>inflight := (inflight s)(key i := Some (next_event s)), next_event := Suc (next_event s)\<rparr>))"
    (is "flight_inv key ?t")
proof (rule flight_invI)
  have fresh: "owned (pcs s j) \<noteq> Some (next_event s)" for j
    using owned_registered [OF assms(1)] registered_old [OF assms(1)] by (metis less_irrefl)
  have apart: "owned (pcs s j) = Some e \<Longrightarrow> key j \<noteq> key i" for j e
    using owned_registered [OF assms(1)] assms(3) by (metis option.distinct(1))
  show "inflight ?t (key j) = Some e" if "owned (pcs ?t j) = Some e" for j e
    using that owned_registered [OF assms(1)] apart by (cases "j = i") auto
  show "e < next_event ?t" if "inflight ?t k = Some e" for k e
    using that registered_old [OF assms(1)] by (auto intro: less_SucI split: if_splits)
  show "\<exists>j. key j = k \<and> owned (pcs ?t j) = Some e" if "inflight ?t k = Some e" for k e
  proof (cases "k = key i")
    case True
    with that show ?thesis by (auto intro: exI [of _ i])
  next
    case False
    with that obtain j where "key j = k" "owned (pcs s j) = Some e"
      using registered_owned [OF assms(1)] by fastforce
    with False show ?thesis by (auto intro: exI [of _ j])
  qed
  show "j = k" if "owned (pcs ?t j) = Some e" "owned (pcs ?t k) = Some e" for j k e
    using that owner_unique [OF assms(1)] fresh by (auto split: if_splits)
  show "signalled ?t e \<or> (\<exists>j. signalling (pcs ?t j) = Some e)" if "pcs ?t k = Waiting e" for k e
  proof -
    have "pcs s k = Waiting e" using that by (auto split: if_splits)
    then consider "signalled s e" | j where "signalling (pcs s j) = Some e" "j \<noteq> i"
      using waiter_served [OF assms(1)] assms(2) by force
    then show ?thesis by cases auto
  qed
  show "mem_inv (backend ?t)" using flight_mem [OF assms(1)] by simp
qed

lemma flight_inv_release:
  assumes "flight_inv key s" and "pcs s i = Releasing e r"
  shows "flight_inv key (move i (Signalling e r) (s\<lparr>inflight := (inflight s)(key i := None)\<rparr>))"
    (is "flight_inv key ?t")
proof (rule flight_invI)
  have mine: "inflight s (key i) = Some e" using assms by (simp add: owned_registered)
  have apart: "key j \<noteq> key i" if "owned (pcs s j) = Some e'" "j \<noteq> i" for j e'
    using that owned_registered [OF assms(1) that(1)] owner_unique [OF assms(1)] mine assms(2)
    by (metis option.inject owned.simps(3))
  show "inflight ?t (key j) = Some e'" if "owned (pcs ?t j) = Some e'" for j e'
    using that owned_registered [OF assms(1)] apart by (auto split: if_splits)
  show "e' < next_event ?t" if "inflight ?t k = Some e'" for k e'
    using that registered_old [OF assms(1)] by (auto split: if_splits)
  show "\<exists>j. key j = k \<and> owned (pcs ?t j) = Some e'" if "inflight ?t k = Some e'" for k e'
  proof -
    have k: "k \<noteq> key i" "inflight s k = Some e'" using that by (auto split: if_splits)
    then obtain j where "key j = k" "owned (pcs s j) = Some e'"
      using registered_owned [OF assms(1)] by blast
    with k(1) show ?thesis by (auto intro: exI [of _ j])
  qed
  show "j = k" if "owned (pcs ?t j) = Some e'" "owned (pcs ?t k) = Some e'" for j k e'
    using that owner_unique [OF assms(1)] by (auto split: if_splits)
  show "signalled ?t e' \<or> (\<exists>j. signalling (pcs ?t j) = Some e')" if "pcs ?t k = Waiting e'" for k e'
  proof -
    have "pcs s k = Waiting e'" using that by (auto split: if_splits)
    then consider "signalled s e'" | "e' = e" | j where "signalling (pcs s j) = Some e'" "j \<noteq> i"
      using waiter_served [OF assms(1)] assms(2) by force
    then show ?thesis by cases (auto intro: exI [of _ i])
  qed
  show "mem_inv (backend ?t)" using flight_mem [OF assms(1)] by simp
qed

lemma flight_inv_signal:
  assumes "flight_inv key s" and "pcs s i = Signalling e r"
  shows "flight_inv key (move i (Finished r) (s\<lparr>signalled := (signalled s)(e := True)\<rparr>))"
    (is "flight_inv key ?t")
proof (rule flight_invI)
  show "inflight ?t (key j) = Some e'" if "owned (pcs ?t j) = Some e'" for j e'
    using that owned_registered [OF assms(1)] by (auto split: if_splits)
  show "e' < next_event ?t" if "inflight ?t k = Some e'" for k e'
    using that registered_old [OF assms(1)] by simp
  show "\<exists>j. key j = k \<and> owned (pcs ?t j) = Some e'" if reg: "inflight ?t k = Some e'" for k e'
  proof -
    obtain j where "key j = k" "owned (pcs s j) = Some e'"
      using registered_owned [OF assms(1)] reg by auto
    then show ?thesis using assms(2) by (auto intro: exI [of _ j])
  qed
  show "j = k" if "owned (pcs ?t j) = Some e'" "owned (pcs ?t k) = Some e'" for j k e'
    using that owner_unique [OF assms(1)] by (auto split: if_splits)
  show "signalled ?t e' \<or> (\<exists>j. signalling (pcs ?t j) = Some e')" if "pcs ?t k = Waiting e'" for k e'
  proof -
    have "pcs s k = Waiting e'" using that by (auto split: if_splits)
    then consider "signalled s e'" | "e' = e" | j where "signalling (pcs s j) = Some e'" "j \<noteq> i"
      using waiter_served [OF assms(1)] assms(2) by force
    then show ?thesis by cases auto
  qed
  show "mem_inv (backend ?t)" using flight_mem [OF assms(1)] by simp
qed

lemma flight_inv_quiet:
  assumes "flight_inv key s" and "owned p = owned (pcs s i)" and "signalling p = signalling (pcs s i)"
    and "\<And>e. p = Waiting e \<Longrightarrow> signalled s e \<or> (\<exists>j. signalling (pcs s j) = Some e)"
  shows "flight_inv key (move i p s)"
  using flight_inv_move [OF assms flight_mem [OF assms(1)]] by simp

lemma owned_signalling: "owned p = Some e \<Longrightarrow> signalling p = Some e"
  by (cases p) auto

lemma flight_step_inv: "flight_step key ttl s t \<Longrightarrow> flight_inv key s \<Longrightarrow> flight_inv key t"
proof (induction rule: flight_step.induct)
  case (follow s i e)
  then obtain j where "owned (pcs s j) = Some e"
    using registered_owned by blast
  then have "signalling (pcs s j) = Some e" by (rule owned_signalling)
  with follow show ?case by (auto intro: flight_inv_quiet)
next
  case (lead s i)
  then show ?case by (intro flight_inv_lead)
next
  case (release s i e r)
  then show ?case by (intro flight_inv_release)
next
  case (signal s i e r)
  then show ?case by (intro flight_inv_signal)
qed (((rule flight_inv_move | rule flight_inv_quiet), assumption,
    (fastforce intro: mem_inv_got mem_inv_set flight_mem)+)+)

lemma flight_reachable_inv: "flight_reachable key ttl s \<Longrightarrow> flight_inv key s"
  by (induction rule: flight_reachable.induct) (auto intro: flight_inv_init flight_step_inv)

text \<open>
  C26.  Single flight: in every reachable state at most one thread per key is the leader that
  computes, stores or withdraws a value, however the threads, their lookups, failures and
  timeouts interleave.
\<close>

theorem single_leader_per_key:
  assumes "flight_reachable key ttl s" and "key i = key j"
    and "owned (pcs s i) = Some e" and "owned (pcs s j) = Some e'"
  shows "i = j"
proof -
  have inv: "flight_inv key s" using assms(1) by (rule flight_reachable_inv)
  have "e = e'" using owned_registered [OF inv] assms(2-4) by (metis option.inject)
  with assms(3,4) show ?thesis by (simp add: owner_unique [OF inv])
qed

text \<open>
  No lost wake-up: while a follower waits for an event, the event is set already or a
  thread holds it that has yet to reach its \<open>finally\<close> block; the wait never depends on its
  timeout.
\<close>

theorem follower_will_be_woken:
  assumes "flight_reachable key ttl s" and "pcs s i = Waiting e"
  shows "signalled s e \<or> (\<exists>j. signalling (pcs s j) = Some e)"
  using waiter_served [OF flight_reachable_inv [OF assms(1)] assms(2)] .

text \<open>A concrete run for the two properties: thread 0 leads, thread 1 follows it.\<close>

definition demo_flight :: "int flight" where
  "demo_flight = \<lparr>pcs = ((\<lambda>_. Start)(0 := Leading 0, 1 := Waiting 0)), backend = new_mem,
     inflight = ((\<lambda>_. None)(''k'' := Some 0)), signalled = (\<lambda>_. False), next_event = 1\<rparr>"

lemma demo_flight_reachable: "flight_reachable (\<lambda>_. ''k'') (\<lambda>_. 15) demo_flight"
proof -
  have get: "mem_get 0 ''k'' (new_mem :: int mem_backend) = (None, new_mem)"
    by (simp add: mem_get_def new_mem_def)
  let ?R = "flight_reachable (\<lambda>_. ''k'') (\<lambda>_. 15 :: rat)"
  let ?s0 = "init_flight new_mem :: int flight"
  let ?s1 = "move 0 Missed ?s0"
  let ?s2 = "move 1 Missed ?s1"
  let ?s3 = "move 0 (Leading 0) (?s2\<lparr>inflight := (inflight ?s2)(''k'' := Some 0), next_event := 1\<rparr>)"
  have "?R ?s0" by (rule flight_reachable.start) simp
  moreover have "flight_step (\<lambda>_. ''k'') (\<lambda>_. 15 :: rat) ?s0 ?s1"
    using flight_step.miss [where s = ?s0 and i = 0 and m = new_mem and now = 0] get
    by (simp add: init_flight_def)
  moreover have "flight_step (\<lambda>_. ''k'') (\<lambda>_. 15 :: rat) ?s1 ?s2"
    using flight_step.miss [where s = ?s1 and i = 1 and m = new_mem and now = 0] get
    by (simp add: init_flight_def)
  moreover have "flight_step (\<lambda>_. ''k'') (\<lambda>_. 15 :: rat) ?s2 ?s3"
    using flight_step.lead [where s = ?s2 and i = 0] by (simp add: init_flight_def)
  moreover have "flight_step (\<lambda>_. ''k'') (\<lambda>_. 15 :: rat) ?s3 (move 1 (Waiting 0) ?s3)"
    using flight_step.follow [where s = ?s3 and i = 1 and e = 0] by (simp add: init_flight_def)
  ultimately have "?R (move 1 (Waiting 0) ?s3)" by (blast intro: flight_reachable.step)
  moreover have "move 1 (Waiting 0) ?s3 = demo_flight"
    by (simp add: demo_flight_def init_flight_def fun_upd_twist)
  ultimately show ?thesis by simp
qed

theorem single_leader_per_key_witness: "{j. owned (pcs demo_flight j) = Some 0} = {0}"
proof -
  have lead: "owned (pcs demo_flight 0) = Some 0" by (simp add: demo_flight_def)
  then have "owned (pcs demo_flight j) = Some 0 \<Longrightarrow> j = 0" for j
    using single_leader_per_key [OF demo_flight_reachable refl _ lead] by blast
  with lead show ?thesis by blast
qed

theorem follower_will_be_woken_witness:
  "signalled demo_flight 0 \<or> (\<exists>j. signalling (pcs demo_flight j) = Some 0)"
  by (rule follower_will_be_woken [OF demo_flight_reachable, of 1]) (simp add: demo_flight_def)

end
