(* ===== verification/PyText.thy ===== *)
theory PyText
  imports Prelude
begin

text \<open>
  The string and number primitives of Python that the source uses: white space, \<open>strip\<close>,
  \<open>splitlines\<close>, \<open>split\<close>, \<open>int\<close> and \<open>float\<close> of a text, \<open>round\<close>, and the texts of numbers
  in f-strings.  Case folding is on the ASCII letters.  \<open>float\<close> reads decimal notation; the
  texts of infinities and NaN count as not numeric.
\<close>

text \<open>\<open>d.get(k, v)\<close> and \<open>x if x is not None else v\<close>.\<close>

definition the_default :: "'a \<Rightarrow> 'a option \<Rightarrow> 'a" where
  "the_default v r = (case r of None \<Rightarrow> v | Some x \<Rightarrow> x)"

section \<open>Characters\<close>

definition code :: "char \<Rightarrow> nat" where
  "code c = of_char c"

definition utf8 :: "nat list \<Rightarrow> string" where
  "utf8 bs = map char_of bs"

definition is_space :: "char \<Rightarrow> bool" where
  "is_space c = (let n = code c in (9 \<le> n \<and> n \<le> 13) \<or> (28 \<le> n \<and> n \<le> 32) \<or> n = 0x85 \<or> n = 0xA0)"

definition is_digit :: "char \<Rightarrow> bool" where
  "is_digit c = (48 \<le> code c \<and> code c \<le> 57)"

definition is_upper :: "char \<Rightarrow> bool" where
  "is_upper c = (65 \<le> code c \<and> code c \<le> 90)"

definition lower_char :: "char \<Rightarrow> char" where
  "lower_char c = (if is_upper c then char_of (code c + 32) else c)"

definition lower :: "string \<Rightarrow> string" where
  "lower s = map lower_char s"

definition digit_val :: "char \<Rightarrow> nat" where
  "digit_val c = code c - 48"

definition nl :: char where "nl = char_of (10 :: nat)"

section \<open>Stripping and splitting\<close>

definition lstrip :: "string \<Rightarrow> string" where
  "lstrip s = dropWhile is_space s"

definition rstrip :: "string \<Rightarrow> string" where
  "rstrip s = rev (dropWhile is_space (rev s))"

definition strip :: "string \<Rightarrow> string" where
  "strip s = rstrip (lstrip s)"

definition is_linebreak :: "char \<Rightarrow> bool" where
  "is_linebreak c = (let n = code c in (10 \<le> n \<and> n \<le> 13) \<or> (28 \<le> n \<and> n \<le> 30) \<or> n = 0x85)"

text \<open>\<open>str.splitlines()\<close>: a carriage return followed by a line feed is one break; a final
  break opens no empty line.\<close>

fun splitlines_aux :: "string \<Rightarrow> bool \<Rightarrow> string \<Rightarrow> string list" where
  "splitlines_aux acc after_cr [] = (if acc = [] then [] else [rev acc])"
| "splitlines_aux acc after_cr (c # cs) =
     (if after_cr \<and> code c = 10 then splitlines_aux acc False cs
      else if is_linebreak c then rev acc # splitlines_aux [] (code c = 13) cs
      else splitlines_aux (c # acc) False cs)"

definition splitlines :: "string \<Rightarrow> string list" where
  "splitlines s = splitlines_aux [] False s"

text \<open>\<open>str.split()\<close> on runs of white space, and with a bound on the number of splits: the rest
  keeps its inner and trailing white space.\<close>

fun split_ws_aux :: "string \<Rightarrow> string \<Rightarrow> string list" where
  "split_ws_aux acc [] = (if acc = [] then [] else [rev acc])"
| "split_ws_aux acc (c # cs) =
     (if is_space c
      then (if acc = [] then split_ws_aux [] cs else rev acc # split_ws_aux [] cs)
      else split_ws_aux (c # acc) cs)"

definition split_ws :: "string \<Rightarrow> string list" where
  "split_ws s = split_ws_aux [] s"

fun split_ws_max :: "nat \<Rightarrow> string \<Rightarrow> string list" where
  "split_ws_max 0 s = (let t = lstrip s in if t = [] then [] else [rstrip t])"
| "split_ws_max (Suc n) s =
     (let t = lstrip s
      in if t = [] then []
         else takeWhile (\<lambda>c. \<not> is_space c) t # split_ws_max n (dropWhile (\<lambda>c. \<not> is_space c) t))"

text \<open>\<open>str.split(sep)\<close> for a one-character separator.\<close>

fun split_on_aux :: "char \<Rightarrow> string \<Rightarrow> string \<Rightarrow> string list" where
  "split_on_aux sep acc [] = [rev acc]"
| "split_on_aux sep acc (c # cs) =
     (if c = sep then rev acc # split_on_aux sep [] cs else split_on_aux sep (c # acc) cs)"

definition split_on :: "char \<Rightarrow> string \<Rightarrow> string list" where
  "split_on sep s = split_on_aux sep [] s"

text \<open>\<open>s.partition(sep)\<close>: the part before the first separator, whether there is one, the rest.\<close>

definition partition_on :: "char \<Rightarrow> string \<Rightarrow> string \<times> bool \<times> string" where
  "partition_on sep s =
     (case dropWhile (\<lambda>c. c \<noteq> sep) s of
        [] \<Rightarrow> (s, False, [])
      | _ # rest \<Rightarrow> (takeWhile (\<lambda>c. c \<noteq> sep) s, True, rest))"

fun is_prefix :: "string \<Rightarrow> string \<Rightarrow> bool" where
  "is_prefix [] s = True"
| "is_prefix (p # ps) [] = False"
| "is_prefix (p # ps) (c # cs) = (p = c \<and> is_prefix ps cs)"

fun contains :: "string \<Rightarrow> string \<Rightarrow> bool" where
  "contains pat [] = (pat = [])"
| "contains pat (c # cs) = (is_prefix pat (c # cs) \<or> contains pat cs)"

fun join :: "string \<Rightarrow> string list \<Rightarrow> string" where
  "join sep [] = []"
| "join sep [x] = x"
| "join sep (x # y # ys) = x @ sep @ join sep (y # ys)"

text \<open>SQL \<open>LIKE\<close>: \<open>%\<close> is any text, \<open>_\<close> any character, letters match in either case (the
  behaviour of SQLite, and of MySQL with its case-insensitive collations).\<close>

fun like :: "string \<Rightarrow> string \<Rightarrow> bool" where
  "like [] s = (s = [])"
| "like (p # ps) s =
     (if p = CHR ''%''
      then like ps s \<or> (case s of [] \<Rightarrow> False | c # cs \<Rightarrow> like (p # ps) cs)
      else (case s of [] \<Rightarrow> False
            | c # cs \<Rightarrow> (p = CHR ''_'' \<or> lower_char p = lower_char c) \<and> like ps cs))"

section \<open>Numbers\<close>

fun digits_aux :: "nat \<Rightarrow> string \<Rightarrow> nat option" where
  "digits_aux acc [] = Some acc"
| "digits_aux acc (c # cs) =
     (if is_digit c then digits_aux (10 * acc + digit_val c) cs
      else if c = CHR ''_'' then
        (case cs of [] \<Rightarrow> None
         | d # ds \<Rightarrow> if is_digit d then digits_aux (10 * acc + digit_val d) ds else None)
      else None)"

definition py_digits :: "string \<Rightarrow> nat option" where
  "py_digits s = (case s of [] \<Rightarrow> None | c # cs \<Rightarrow> if is_digit c then digits_aux 0 s else None)"

definition signed :: "(string \<Rightarrow> 'a::uminus option) \<Rightarrow> string \<Rightarrow> 'a option" where
  "signed f s =
     (case s of
        [] \<Rightarrow> f s
      | c # cs \<Rightarrow> if c = CHR ''-'' then map_option uminus (f cs)
                  else if c = CHR ''+'' then f cs else f s)"

text \<open>\<open>int(s)\<close>; \<open>None\<close> is \<open>ValueError\<close>.\<close>

definition py_int :: "string \<Rightarrow> int option" where
  "py_int s = signed (\<lambda>t. map_option int (py_digits t)) (strip s)"

definition py_nat_digits :: "string \<Rightarrow> nat option" where
  "py_nat_digits s = (if s = [] then Some 0 else py_digits s)"

definition mantissa :: "string \<Rightarrow> rat option" where
  "mantissa s =
     (case partition_on (CHR ''.'') s of
        (whole, _, fr) \<Rightarrow>
          if whole = [] \<and> fr = [] then None
          else case (py_nat_digits whole, py_nat_digits fr) of
              (Some w, Some f) \<Rightarrow>
                Some (of_nat w + of_nat f / 10 ^ length (filter is_digit fr))
            | _ \<Rightarrow> None)"

definition unsigned_float :: "string \<Rightarrow> rat option" where
  "unsigned_float s =
     (case partition_on (CHR ''e'') (lower s) of
        (m, False, _) \<Rightarrow> mantissa m
      | (m, True, e) \<Rightarrow>
          (case (mantissa m, signed (\<lambda>t. map_option int (py_digits t)) e) of
             (Some q, Some n) \<Rightarrow> Some (if 0 \<le> n then q * 10 ^ nat n else q / 10 ^ nat (- n))
           | _ \<Rightarrow> None))"

definition py_float :: "string \<Rightarrow> rat option" where
  "py_float s = signed unsigned_float (strip s)"

text \<open>\<open>int(x)\<close> of a float truncates towards zero; \<open>round(x)\<close> and \<open>round(x, n)\<close> round half
  to even.\<close>

definition py_trunc :: "rat \<Rightarrow> int" where
  "py_trunc q = (if 0 \<le> q then \<lfloor>q\<rfloor> else \<lceil>q\<rceil>)"

definition py_round :: "rat \<Rightarrow> int" where
  "py_round q =
     (let f = \<lfloor>q\<rfloor>; d = q - of_int f
      in if d < 1/2 then f else if d > 1/2 then f + 1 else if even f then f else f + 1)"

definition py_round_to :: "nat \<Rightarrow> rat \<Rightarrow> rat" where
  "py_round_to n q = of_int (py_round (q * 10 ^ n)) / 10 ^ n"

fun show_nat_aux :: "nat \<Rightarrow> nat \<Rightarrow> string" where
  "show_nat_aux 0 n = []"
| "show_nat_aux (Suc fuel) n =
     (if n < 10 then [char_of (48 + n)]
      else show_nat_aux fuel (n div 10) @ [char_of (48 + n mod 10)])"

definition show_nat :: "nat \<Rightarrow> string" where
  "show_nat n = show_nat_aux (Suc n) n"

definition show_int :: "int \<Rightarrow> string" where
  "show_int i = (if i < 0 then CHR ''-'' # show_nat (nat (- i)) else show_nat (nat i))"

fun fraction_digits :: "nat \<Rightarrow> rat \<Rightarrow> string" where
  "fraction_digits 0 q = []"
| "fraction_digits (Suc n) q =
     (if q = 0 then [] else char_of (48 + nat \<lfloor>10 * q\<rfloor>) # fraction_digits n (10 * q - of_int \<lfloor>10 * q\<rfloor>))"

text \<open>\<open>str(x)\<close> of a float: its decimal expansion, cut after 16 places.\<close>

definition show_float :: "rat \<Rightarrow> string" where
  "show_float q =
     (let a = \<bar>q\<bar>; f = fraction_digits 16 (a - of_int \<lfloor>a\<rfloor>)
      in (if q < 0 then ''-'' else []) @ show_nat (nat \<lfloor>a\<rfloor>) @ ''.'' @ (if f = [] then ''0'' else f))"

section \<open>Lemmas\<close>

lemma like_any_prefix: "like (CHR ''%'' # ps) s \<Longrightarrow> like (CHR ''%'' # ps) (t @ s)"
  by (induction t) auto

lemma like_percent_all [simp]: "like ''%'' s"
  by (induction s) auto

lemma like_self_prefix: "like ps s \<Longrightarrow> like (u @ ps) (u @ s)"
proof (induction u)
  case (Cons c u)
  then have "like (u @ ps) (u @ s)" by simp
  then show ?case
    using like_any_prefix [of "u @ ps" "u @ s" "[c]"] by (cases "c = CHR ''%''") auto
qed simp

text \<open>A text that holds the pattern literally matches it, whatever wild cards it holds.\<close>

lemma like_literal: "like (''%'' @ u @ ''%'') (a @ u @ b)"
proof -
  have "like (u @ ''%'') (u @ b)" by (rule like_self_prefix) (rule like_percent_all)
  then have "like (CHR ''%'' # u @ ''%'') (u @ b)" by simp
  then show ?thesis using like_any_prefix by simp
qed

lemma is_prefix_iff: "is_prefix p s \<longleftrightarrow> (\<exists>b. s = p @ b)"
  by (induction p s rule: is_prefix.induct) auto

lemma contains_iff: "contains p s \<longleftrightarrow> (\<exists>a b. s = a @ p @ b)"
proof (induction s)
  case (Cons c s)
  show ?case
  proof
    assume "contains p (c # s)"
    then consider "is_prefix p (c # s)" | "contains p s" by auto
    then show "\<exists>a b. c # s = a @ p @ b"
    proof cases
      case 1
      then obtain b where "c # s = [] @ p @ b" by (auto simp: is_prefix_iff)
      then show ?thesis by blast
    next
      case 2
      then obtain a b where "c # s = (c # a) @ p @ b" using Cons.IH by auto
      then show ?thesis by blast
    qed
  next
    assume "\<exists>a b. c # s = a @ p @ b"
    then obtain a b where ab: "c # s = a @ p @ b" by blast
    show "contains p (c # s)"
    proof (cases a)
      case Nil
      then have "is_prefix p (c # s)" using ab by (simp add: is_prefix_iff)
      then show ?thesis by simp
    next
      case (Cons d t)
      then have "s = t @ p @ b" using ab by simp
      then show ?thesis using Cons.IH by auto
    qed
  qed
qed auto

text \<open>Without wild cards, \<open>LIKE\<close> is containment up to the case of letters.\<close>

lemma like_plain_prefix:
  "CHR ''%'' \<notin> set p \<Longrightarrow> CHR ''_'' \<notin> set p \<Longrightarrow>
   like (p @ ''%'') s \<longleftrightarrow> is_prefix (lower p) (lower s)"
proof (induction p arbitrary: s)
  case (Cons c p)
  then show ?case by (cases s) (auto simp: lower_def)
qed (simp add: lower_def del: like.simps)

lemma like_plain:
  assumes "CHR ''%'' \<notin> set p" and "CHR ''_'' \<notin> set p"
  shows "like (''%'' @ p @ ''%'') s \<longleftrightarrow> contains (lower p) (lower s)"
proof (induction s)
  case Nil
  then show ?case using assms by (cases p) (auto simp: lower_def)
next
  case (Cons c s)
  have "like (''%'' @ p @ ''%'') (c # s) \<longleftrightarrow> like (p @ ''%'') (c # s) \<or> like (''%'' @ p @ ''%'') s"
    by simp
  with Cons.IH show ?case by (simp add: like_plain_prefix [OF assms]) (simp add: lower_def)
qed

lemma py_round_bounds: "\<bar>of_int (py_round q) - q\<bar> \<le> 1/2"
proof -
  have "of_int \<lfloor>q\<rfloor> \<le> q" and "q < of_int \<lfloor>q\<rfloor> + 1" by linarith+
  then show ?thesis by (auto simp: py_round_def Let_def)
qed

lemma py_round_int [simp]: "py_round (of_int n) = n"
  by (simp add: py_round_def)

lemma py_round_mono: "p \<le> q \<Longrightarrow> py_round p \<le> py_round q"
proof -
  assume pq: "p \<le> q"
  have fl: "\<lfloor>p\<rfloor> \<le> \<lfloor>q\<rfloor>" using pq by (rule floor_mono)
  show ?thesis
  proof (cases "\<lfloor>p\<rfloor> = \<lfloor>q\<rfloor>")
    case True
    then show ?thesis using pq by (auto simp: py_round_def Let_def)
  next
    case False
    with fl show ?thesis by (auto simp: py_round_def Let_def)
  qed
qed

lemma py_round_to_mono: "p \<le> q \<Longrightarrow> py_round_to n p \<le> py_round_to n q"
  by (simp add: py_round_to_def divide_right_mono py_round_mono)

lemma py_round_to_of_int [simp]: "py_round_to n (of_int i) = of_int i"
proof -
  have "(of_int i :: rat) * 10 ^ n = of_int (i * 10 ^ n)" by simp
  then show ?thesis unfolding py_round_to_def by (simp only: py_round_int) simp
qed

lemma py_round_to_range:
  "of_int a \<le> q \<Longrightarrow> q \<le> of_int b \<Longrightarrow> of_int a \<le> py_round_to n q \<and> py_round_to n q \<le> of_int b"
  using py_round_to_mono [of "of_int a" q n] py_round_to_mono [of q "of_int b" n] by simp

lemma split_on_aux_join:
  assumes "list_all (\<lambda>x. sep \<notin> set x) (x # xs)"
  shows "split_on_aux sep acc (join [sep] (x # xs)) = (rev acc @ x) # xs"
proof -
  have word: "sep \<notin> set y \<Longrightarrow> split_on_aux sep acc (y @ zs) = split_on_aux sep (rev y @ acc) zs" for y zs acc
    by (induction y arbitrary: acc) auto
  show ?thesis using assms
  proof (induction xs arbitrary: x acc)
    case Nil
    then show ?case using word [of x acc "[]"] by simp
  next
    case (Cons y ys)
    then show ?case using word [of x acc "sep # join [sep] (y # ys)"] by simp
  qed
qed

lemma split_on_join: "list_all (\<lambda>x. sep \<notin> set x) (x # xs) \<Longrightarrow> split_on sep (join [sep] (x # xs)) = x # xs"
  using split_on_aux_join [of sep x xs "[]"] by (simp add: split_on_def)

lemma digit_char:
  assumes "d < 10"
  shows "is_digit (char_of (48 + d))" and "digit_val (char_of (48 + d)) = d"
  using assms by (auto simp: is_digit_def digit_val_def code_def)

lemma show_nat_digits:
  "n < fuel \<Longrightarrow> show_nat_aux fuel n \<noteq> [] \<and> list_all is_digit (show_nat_aux fuel n) \<and>
     (\<forall>acc rest. digits_aux acc (show_nat_aux fuel n @ rest) = digits_aux (acc * 10 ^ length (show_nat_aux fuel n) + n) rest)"
proof (induction fuel arbitrary: n)
  case (Suc fuel)
  show ?case
  proof (cases "n < 10")
    case True
    then show ?thesis using digit_char [of n] by (simp add: algebra_simps)
  next
    case False
    then have "n div 10 < fuel" using Suc.prems by linarith
    moreover have "is_digit (char_of (48 + n mod 10))" "digit_val (char_of (48 + n mod 10)) = n mod 10"
      using digit_char [of "n mod 10"] by simp_all
    ultimately show ?thesis using False Suc.IH [of "n div 10"]
      by (auto simp: algebra_simps)
  qed
qed simp

lemma py_digits_show_nat: "py_digits (show_nat n) = Some n"
proof -
  let ?s = "show_nat_aux (Suc n) n"
  have "digits_aux 0 (?s @ []) = digits_aux (0 * 10 ^ length ?s + n) []" "?s \<noteq> []" "list_all is_digit ?s"
    using show_nat_digits [of n "Suc n"] by blast+
  then have "digits_aux 0 ?s = Some n" "?s \<noteq> []" "list_all is_digit ?s" by (simp_all del: show_nat_aux.simps)
  then show ?thesis unfolding show_nat_def py_digits_def
    by (cases "show_nat_aux (Suc n) n") (simp_all del: show_nat_aux.simps)
qed

lemma show_nat_digits_only: "show_nat n \<noteq> []" "list_all is_digit (show_nat n)"
  using show_nat_digits [of n "Suc n"] by (simp_all add: show_nat_def del: show_nat_aux.simps)

lemma show_nat_length: "n < fuel \<Longrightarrow> n < 10 ^ Suc k \<Longrightarrow> length (show_nat_aux fuel n) \<le> Suc k"
proof (induction fuel arbitrary: n k)
  case (Suc fuel)
  show ?case
  proof (cases "n < 10")
    case False
    then obtain j where k: "k = Suc j" using Suc.prems(2) by (cases k) auto
    have "n div 10 < 10 ^ Suc j" using Suc.prems(2) k by (simp add: less_mult_imp_div_less mult.commute)
    moreover have "n div 10 < fuel" using Suc.prems(1) False by linarith
    ultimately have "length (show_nat_aux fuel (n div 10)) \<le> Suc j" using Suc.IH by blast
    then show ?thesis using False k by simp
  qed simp
qed simp

lemma show_nat_hd: "n < fuel \<Longrightarrow> 0 < n \<Longrightarrow> hd (show_nat_aux fuel n) \<noteq> CHR ''0''"
proof (induction fuel arbitrary: n)
  case (Suc fuel)
  show ?case
  proof (cases "n < 10")
    case True
    have "code (char_of (48 + n)) = 48 + n" "code (CHR ''0'') = 48" using True by (simp_all add: code_def)
    then show ?thesis using True Suc.prems by auto
  next
    case False
    then have "n div 10 < fuel" "0 < n div 10" using Suc.prems(1) by linarith+
    then have "hd (show_nat_aux fuel (n div 10)) \<noteq> CHR ''0''" "show_nat_aux fuel (n div 10) \<noteq> []"
      using Suc.IH show_nat_digits by blast+
    then show ?thesis using False by simp
  qed
qed simp

end
