(* ===== verification/Models.thy ===== *)
theory Models
  imports PyText
begin

text \<open>
  The data model, \<open>backend/app/models.py\<close>, as records, and the database as a record of tables.
  A table is the list of its rows in primary-key order; a query without \<open>ORDER BY\<close> reads rows
  in that order.  Times are instants in UTC, as microseconds since the epoch.  A nullable column
  is an \<open>option\<close>.  The entries of the JSON columns that the program looks into (GPUs, disks,
  interfaces) are records whose fields are \<open>option\<close>s: \<open>None\<close> stands for a missing key or a null
  value, which \<open>.get(k, 0) or 0\<close> reads as zero; other JSON columns are \<open>json\<close> values.
\<close>

section \<open>Time\<close>

type_synonym time = int

definition seconds :: "int \<Rightarrow> time" where "seconds n = n * 1000000"
definition minutes :: "int \<Rightarrow> time" where "minutes n = n * 60000000"
definition hours :: "int \<Rightarrow> time" where "hours n = n * 3600000000"
definition days :: "int \<Rightarrow> time" where "days n = n * 86400000000"

lemmas durations = seconds_def minutes_def hours_def days_def

section \<open>JSON values\<close>

datatype json =
    JNull
  | JBool bool
  | JNum rat
  | JStr string
  | JList "json list"
  | JObj "(string \<times> json) list"

section \<open>Entries of JSON columns\<close>

record gpu_process =
  p_pid :: "int option"
  p_user :: "string option"
  p_mem_mb :: rat
  p_command :: string

record gpu =
  index :: "int option"
  uuid :: "string option"
  gname :: "string option"
  utilization :: "rat option"
  util_memory :: "rat option"
  mem_used_mb :: "rat option"
  mem_total_mb :: "rat option"
  temperature :: "rat option"
  power_draw :: "rat option"
  power_limit :: "rat option"
  fan_speed :: "rat option"
  clock_graphics :: rat
  clock_memory :: rat
  clock_graphics_max :: rat
  clock_memory_max :: rat
  encoder_sessions :: int
  decoder_sessions :: int
  pstate :: string
  compute_mode :: string
  serial :: "string option"
  pci_bus_id :: "string option"
  mem_temperature :: rat
  throttle_mask :: string
  throttle_reasons :: "string list"
  ecc_mode :: string
  ecc_supported :: bool
  ecc_corrected_volatile :: "int option"
  ecc_uncorrected_volatile :: "int option"
  ecc_corrected_total :: "int option"
  ecc_uncorrected_total :: "int option"
  remapped_pending :: int
  remapped_failure :: int
  retired_pending :: int
  pcie_gen_current :: int
  pcie_gen_max :: int
  pcie_width_current :: "int option"
  pcie_width_max :: "int option"
  gpu_processes :: "gpu_process list"

record disk =
  mount :: string
  device :: string
  total_gb :: rat
  used_gb :: rat
  percent :: "rat option"

record inode_use =
  i_mount :: string
  inodes_total :: int
  inodes_used :: int
  inodes_percent :: "rat option"

record disk_rate =
  io_device :: string
  read_bps :: rat
  write_bps :: rat
  read_iops :: rat
  write_iops :: rat
  busy_percent :: "rat option"

record net_rate =
  iface :: string
  rx_bps :: "rat option"
  tx_bps :: "rat option"
  rx_err_rate :: "rat option"
  rx_drop_rate :: "rat option"
  tx_err_rate :: "rat option"
  tx_drop_rate :: "rat option"
  operstate :: string
  speed_mbps :: int

text \<open>A row of the process table, and the entries of the slow and inventory tables.\<close>

record proc =
  pr_pid :: int
  pr_ppid :: int
  pr_cpu :: rat
  pr_mem :: rat
  pr_rss_mb :: rat
  pr_vsz_mb :: rat
  pr_stat :: string
  pr_etimes :: int
  pr_command :: string
  pr_user :: string
  pr_start_ticks :: int

record nfs_mount =
  nfs_server :: string
  nfs_export :: string
  nfs_mount_point :: string
  nfs_type :: string

record ipmi_row =
  ir_name :: string
  ir_value :: string
  ir_unit :: string
  ir_status :: string

record numa_node =
  nn_id :: int
  nn_mem_gb :: rat
  nn_cpus :: string

record pci_device =
  pci_addr :: string
  pci_class :: string
  pci_node :: int
  pci_vendor :: string
  pci_dev :: string

record block_device =
  bd_name :: string
  bd_size :: string
  bd_rota :: string
  bd_type :: string
  bd_serial :: string
  bd_model :: string

record nic =
  nic_name :: string
  nic_mac :: string
  nic_state :: string
  nic_speed :: string

type_synonym adapter = "(string, string) dict"

record inventory =
  iv_machine_id :: string
  iv_dmi :: "(string, string) dict"
  iv_lscpu :: "(string, string) dict"
  iv_numa :: "numa_node list"
  iv_gpu_topology :: string
  iv_pci_numa :: "pci_device list"
  iv_disks :: "block_device list"
  iv_nics :: "nic list"
  iv_ip_addrs :: "string list"
  iv_ib :: "adapter list"
  iv_time :: "(string, string) dict"
  iv_duration :: rat

record bmc_sensor =
  bs_name :: string
  bs_id :: string
  bs_status :: string
  bs_entity :: string
  bs_reading :: string

record sel_entry =
  se_record :: "string option"
  se_date :: string
  se_time :: string
  se_event :: string

text \<open>One out-of-band collection.\<close>

record bmc_data =
  bm_ok :: bool
  bm_error :: string
  bm_mc_info :: "(string, string) dict"
  bm_chassis :: "(string, string) dict"
  bm_power :: "(string, string) dict"
  bm_sensors :: "bmc_sensor list"
  bm_sel :: "sel_entry list"
  bm_sel_info :: "(string, string) dict"
  bm_fru :: "(string, string) dict list"
  bm_lan :: "(string, string) dict"

text \<open>\<open>x.get(k, 0) or 0\<close> and \<open>x.get(k) or ""\<close>.\<close>

definition num0 :: "'a::zero option \<Rightarrow> 'a" where
  "num0 v = (case v of None \<Rightarrow> 0 | Some x \<Rightarrow> x)"

definition str0 :: "string option \<Rightarrow> string" where
  "str0 v = (case v of None \<Rightarrow> [] | Some s \<Rightarrow> s)"

section \<open>Tables\<close>

record user =
  u_id :: int
  u_username :: string
  u_password_hash :: string
  u_display_name :: string
  u_email :: string
  u_role :: string
  u_is_active :: bool
  u_auth_id :: string
  u_token_version :: int
  u_mfa_secret :: string
  u_mfa_confirmed :: bool
  u_mfa_last_counter :: int
  u_created_at :: time

definition mfa_enrolled :: "user \<Rightarrow> bool" where
  "mfa_enrolled u \<longleftrightarrow> u_mfa_secret u \<noteq> [] \<and> u_mfa_confirmed u"

definition is_admin :: "user \<Rightarrow> bool" where
  "is_admin u \<longleftrightarrow> u_role u = ''admin''"

record server =
  s_id :: int
  s_name :: string
  s_host :: string
  s_port :: int
  s_auth_type :: string
  s_username :: string
  s_password :: string
  s_private_key :: string
  s_passphrase :: string
  s_bmc_host :: string
  s_bmc_user :: string
  s_bmc_password :: string
  s_enabled :: bool
  s_server_type :: string
  s_tags :: "string list"
  s_note :: string
  s_expected_gpu_count :: int
  s_status :: "string option"
  s_status_reason :: string
  s_status_until :: "time option"
  s_created_at :: time
  s_updated_at :: time

record metric =
  m_id :: int
  m_server_id :: int
  m_collected_at :: time
  m_sample_interval_seconds :: "int option"
  m_hostname :: string
  m_os :: string
  m_kernel :: string
  m_uptime_seconds :: int
  m_boot_id :: string
  m_cpu_model :: string
  m_cpu_count :: int
  m_cpu_percent :: rat
  m_cpu_iowait :: "rat option"
  m_cpu_freq_avg :: rat
  m_cpu_temp_package :: rat
  m_cores :: "(int \<times> rat \<times> int \<times> rat) list"
  m_load1 :: rat
  m_load5 :: rat
  m_load15 :: rat
  m_mem_total_mb :: rat
  m_mem_used_mb :: rat
  m_mem_available_mb :: rat
  m_mem_cached_mb :: rat
  m_swap_total_mb :: rat
  m_swap_used_mb :: rat
  m_disk_total_gb :: rat
  m_disk_used_gb :: rat
  m_disks :: "disk list"
  m_inodes :: "inode_use list"
  m_disk_io :: "disk_rate list"
  m_net_rx_bytes :: "rat option"
  m_net_tx_bytes :: "rat option"
  m_net_ifaces :: "net_rate list"
  m_users :: "json list"
  m_sock_estab :: int
  m_sock_timewait :: int
  m_fd_allocated :: int
  m_fd_max :: int
  m_gpu_count :: int
  m_gpu_driver :: string
  m_gpus :: "gpu list"
  m_processes :: "json list"
  m_duration :: rat
  m_ssh_latency :: rat
  m_status :: string
  m_error_code :: string
  m_error :: string

record process_snapshot =
  ps_server_id :: int
  ps_collected_at :: time
  ps_processes :: "proc list"

record alert_rule =
  r_id :: int
  r_name :: string
  r_metric :: string
  r_op :: string
  r_threshold :: rat
  r_duration_minutes :: int
  r_server_id :: "int option"
  r_enabled :: bool
  r_created_at :: time

record alert_event =
  e_id :: int
  e_rule_id :: "int option"
  e_rule_name :: string
  e_server_id :: int
  e_server_name :: string
  e_metric :: string
  e_value :: rat
  e_threshold :: rat
  e_message :: string
  e_triggered_at :: time
  e_recovered_at :: "time option"
  e_acked_at :: "time option"
  e_acked_by :: string
  e_assignee :: string
  e_notified :: bool

record audit_log =
  a_ts :: time
  a_username :: string
  a_action :: string
  a_detail :: string

record kernel_event_row =
  k_server_id :: int
  k_collected_at :: time
  k_boot_id :: string
  k_event_type :: string
  k_severity :: string
  k_gpu_uuid :: string
  k_xid :: int
  k_message :: string
  k_raw_message :: string
  k_dedup_hash :: string

record nvme_entry =
  nv_device :: "string option"
  nv_critical_warning :: "int option"
  nv_available_spare :: "int option"
  nv_available_spare_threshold :: "int option"
  nv_media_errors :: "int option"
  nv_percentage_used :: "int option"

record md_array =
  md_name :: "string option"
  md_level :: string
  md_state :: string
  md_active_disks :: "int option"
  md_total_disks :: "int option"

record slow_health =
  sh_server_id :: int
  sh_collected_at :: time
  sh_nvme_smart :: "nvme_entry list"
  sh_md_arrays :: "md_array list"
  sh_nfs_mounts :: "nfs_mount list"
  sh_systemd_failed :: "string list"
  sh_services :: "(string, string) dict"
  sh_mig :: "(int \<times> string) list"
  sh_nvlink :: "(int, string list) dict \<times> string"
  sh_ipmi :: "ipmi_row list"
  sh_duration :: rat

record gpu_baseline =
  b_server_id :: int
  b_gpu_uuid :: string
  b_name :: string
  b_serial :: string
  b_pci_bus_id :: string
  b_first_seen :: time
  b_last_seen :: time
  b_missing_since :: "time option"
  b_ecc_uncorrected_baseline :: "int option"

record server_note =
  n_server_id :: int
  n_ts :: time
  n_username :: string
  n_kind :: string
  n_content :: string

record host_inventory =
  hi_server_id :: int
  hi_collected_at :: time
  hi_inventory :: inventory

record ipmi_snapshot =
  is_server_id :: int
  is_collected_at :: time
  is_data :: bmc_data
  is_power_w :: rat
  is_duration :: rat

record webhook_channel =
  w_id :: int
  w_name :: string
  w_url :: string
  w_template :: string
  w_min_severity :: string
  w_enabled :: bool

record metric_hourly =
  h_server_id :: int
  h_hour :: time
  h_samples :: nat
  h_ok_samples :: nat
  h_cpu_avg :: rat
  h_cpu_max :: rat
  h_mem_avg_pct :: rat
  h_gpu_util_avg :: rat
  h_gpu_util_max :: rat
  h_gpu_mem_pct_avg :: rat
  h_gpu_power_avg :: rat
  h_net_rx_avg_bps :: rat
  h_net_tx_avg_bps :: rat
  h_idle_held_minutes :: int
  h_gpu_sample_minutes :: "rat option"
  h_idle_held_gpu_minutes :: "rat option"
  h_gpu_time_estimated :: bool

text \<open>The two settings of the notification path: what is sent, and what came of it.\<close>

datatype notification =
    Alert string string rat string rat string string
  | Recovery string string string

record db =
  d_servers :: "server list"
  d_metrics :: "metric list"
  d_rules :: "alert_rule list"
  d_events :: "alert_event list"
  d_settings :: "(string, string) dict"
  d_kernel :: "kernel_event_row list"
  d_slow :: "slow_health list"
  d_baselines :: "gpu_baseline list"
  d_notes :: "server_note list"
  d_hourly :: "metric_hourly list"
  d_snapshots :: "process_snapshot list"
  d_inventory :: "host_inventory list"
  d_ipmi :: "ipmi_snapshot list"
  d_users :: "user list"
  d_audit :: "audit_log list"
  d_channels :: "webhook_channel list"
  d_outbox :: "notification list"

definition empty_db :: db where
  "empty_db = \<lparr>d_servers = [], d_metrics = [], d_rules = [], d_events = [], d_settings = [],
     d_kernel = [], d_slow = [], d_baselines = [], d_notes = [], d_hourly = [], d_snapshots = [], d_inventory = [], d_ipmi = [],
     d_users = [], d_audit = [], d_channels = [], d_outbox = []\<rparr>"

text \<open>The next primary key of the event table.\<close>

definition next_event_id :: "db \<Rightarrow> int" where
  "next_event_id d = foldr (\<lambda>e m. max (e_id e) m) (d_events d) 0 + 1"

text \<open>\<open>ORDER BY collected_at DESC\<close> with \<open>first()\<close>: a row with the latest time.\<close>

fun latest_by :: "('a \<Rightarrow> time) \<Rightarrow> 'a list \<Rightarrow> 'a option" where
  "latest_by t [] = None"
| "latest_by t (x # xs) =
     (case latest_by t xs of None \<Rightarrow> Some x | Some y \<Rightarrow> if t x \<ge> t y then Some x else Some y)"

text \<open>A stable sort, as Python's \<open>sorted(key=...)\<close> and \<open>ORDER BY\<close> over rows in key order.\<close>

definition order_by :: "('a \<Rightarrow> 'b::linorder) \<Rightarrow> 'a list \<Rightarrow> 'a list" where
  "order_by f xs = sort_key f xs"

lemma length_order_by [simp]: "length (order_by f xs) = length xs"
  by (simp add: order_by_def)

lemma set_order_by: "set (order_by f xs) = set xs"
  by (simp add: order_by_def)

lemma count_order_by [simp]: "length (filter P (order_by f xs)) = length (filter P xs)"
  by (simp add: order_by_def filter_sort)

lemma order_by_map: "(\<And>x. f (g x) = f x) \<Longrightarrow> order_by f (map g xs) = map g (order_by f xs)"
proof -
  assume key: "\<And>x. f (g x) = f x"
  have "insort_key f (g x) (map g ys) = map g (insort_key f x ys)" for x ys
    by (induction ys) (simp_all add: key)
  then show ?thesis unfolding order_by_def by (induction xs) simp_all
qed

lemma last_order_by:
  "(\<And>x. f (g x) = f x) \<Longrightarrow> xs \<noteq> [] \<Longrightarrow> last (order_by f (map g xs)) = g (last (order_by f xs))"
proof -
  assume "\<And>x. f (g x) = f x" "xs \<noteq> []"
  moreover have "order_by f xs \<noteq> []" using \<open>xs \<noteq> []\<close> by (metis order_by_def set_empty set_sort)
  ultimately show ?thesis by (simp add: order_by_map last_map)
qed

lemma latest_by_None [simp]: "latest_by t xs = None \<longleftrightarrow> xs = []"
  by (cases xs) (auto split: option.splits)

lemma latest_by_in: "latest_by t xs = Some x \<Longrightarrow> x \<in> set xs"
  by (induction xs arbitrary: x) (auto split: option.splits if_splits)

lemma latest_by_max: "latest_by t xs = Some x \<Longrightarrow> y \<in> set xs \<Longrightarrow> t y \<le> t x"
proof (induction xs arbitrary: x)
  case (Cons z xs)
  show ?case
  proof (cases "latest_by t xs")
    case None
    with Cons.prems show ?thesis by auto
  next
    case (Some w)
    with Cons show ?thesis by (fastforce split: if_splits)
  qed
qed simp

end
