(* ===== verification/AlertLog.thy ===== *)
theory AlertLog
  imports Models
begin

text \<open>
  The event log of the built-in detectors, \<open>backend/app/health.py\<close>: \<open>_get_setting\<close>,
  \<open>_notify\<close>, \<open>_open_event\<close>, \<open>_fire\<close>, \<open>_recover\<close> and the expiry of point events.  Sending a
  notification is the parameter \<open>send\<close>: \<open>Some ok\<close> is the result of the notifier, \<open>None\<close> an
  exception, which \<open>_notify\<close> logs and swallows.  The outbox records what was handed to it.  The
  locale states what the detectors and the IPMI tier rely on; it is interpreted on these
  operations below.
\<close>

section \<open>Definitions\<close>

definition POINT_EVENT_TYPES :: "string list" where
  "POINT_EVENT_TYPES = [''GPU_XID'', ''OOM_KILL'', ''MCE_HARDWARE_ERROR'', ''PCIE_AER'']"

definition POINT_EVENT_TTL_MINUTES :: int where "POINT_EVENT_TTL_MINUTES = 60"

definition SEV_BY_DETECTOR :: "(string, string) dict" where
  "SEV_BY_DETECTOR =
    [(''GPU_IDLE_VRAM_HELD'', ''warning''), (''GPU_MISSING'', ''critical''),
     (''GPU_ECC_UNCORRECTED'', ''critical''), (''GPU_XID'', ''critical''),
     (''GPU_THERMAL_THROTTLE'', ''warning''), (''NVME_HEALTH'', ''warning''),
     (''RAID_DEGRADED'', ''critical''), (''HOSTKEY_CHANGED'', ''critical''),
     (''SSH_FAULT'', ''critical''), (''BMC_UNREACHABLE'', ''warning''),
     (''CHASSIS_POWER_OFF'', ''critical''), (''PSU_FAULT'', ''critical''),
     (''SEL_CRITICAL'', ''critical''), (''NFS_STALE'', ''warning''),
     (''SERVICE_FAILED'', ''warning''), (''OOM_KILL'', ''critical''),
     (''STORAGE_BOTTLENECK'', ''info''), (''MCE_HARDWARE_ERROR'', ''critical''),
     (''PCIE_AER'', ''warning'')]"

definition get_setting :: "db \<Rightarrow> string \<Rightarrow> rat \<Rightarrow> rat" where
  "get_setting d key dflt =
     (case map_of (d_settings d) key of
        None \<Rightarrow> dflt
      | Some value \<Rightarrow>
          if value = [] then dflt
          else case py_float value of None \<Rightarrow> dflt | Some x \<Rightarrow> x)"

type_synonym sender = "notification \<Rightarrow> bool option"

definition update_event :: "int \<Rightarrow> (alert_event \<Rightarrow> alert_event) \<Rightarrow> db \<Rightarrow> db" where
  "update_event i f d = d\<lparr>d_events := map (\<lambda>e. if e_id e = i then f e else e) (d_events d)\<rparr>"

datatype level = ALERT | RECOVERY

definition notification_of :: "alert_event \<Rightarrow> string \<Rightarrow> string \<Rightarrow> level \<Rightarrow> notification" where
  "notification_of ev detector server_name lvl =
     (case lvl of
        ALERT \<Rightarrow> Alert server_name detector (e_value ev) [] (e_threshold ev) detector
                   (case map_of SEV_BY_DETECTOR detector of None \<Rightarrow> ''warning'' | Some s \<Rightarrow> s)
      | RECOVERY \<Rightarrow> Recovery server_name detector detector)"

definition notify :: "sender \<Rightarrow> alert_event \<Rightarrow> string \<Rightarrow> string \<Rightarrow> level \<Rightarrow> db \<Rightarrow> db" where
  "notify send ev detector server_name lvl d =
     (let n = notification_of ev detector server_name lvl;
          d1 = d\<lparr>d_outbox := d_outbox d @ [n]\<rparr>
      in case send n of
           None \<Rightarrow> d1
         | Some ok \<Rightarrow>
             if lvl = ALERT then update_event (e_id ev) (\<lambda>e. e\<lparr>e_notified := ok\<rparr>) d1 else d1)"

definition key_pattern :: "string \<Rightarrow> string" where
  "key_pattern key = ''%'' @ (''['' @ key @ '']'') @ ''%''"

definition event_matches :: "string \<Rightarrow> int \<Rightarrow> string \<Rightarrow> alert_event \<Rightarrow> bool" where
  "event_matches detector sid key e \<longleftrightarrow>
     e_rule_id e = None \<and> e_metric e = detector \<and> e_server_id e = sid \<and> e_recovered_at e = None \<and>
     (key = [] \<or> like (key_pattern key) (e_message e))"

definition open_event :: "db \<Rightarrow> string \<Rightarrow> int \<Rightarrow> string \<Rightarrow> alert_event option" where
  "open_event d detector sid key = find (event_matches detector sid key) (d_events d)"

definition new_event ::
    "db \<Rightarrow> time \<Rightarrow> string \<Rightarrow> int \<Rightarrow> string \<Rightarrow> string \<Rightarrow> rat \<Rightarrow> rat \<Rightarrow> alert_event" where
  "new_event d now detector sid server_name message value threshold =
     \<lparr>e_id = next_event_id d, e_rule_id = None, e_rule_name = detector, e_server_id = sid,
      e_server_name = server_name, e_metric = detector, e_value = value, e_threshold = threshold,
      e_message = message, e_triggered_at = now, e_recovered_at = None, e_acked_at = None,
      e_acked_by = [], e_assignee = [], e_notified = False\<rparr>"

definition fire ::
    "sender \<Rightarrow> time \<Rightarrow> string \<Rightarrow> int \<Rightarrow> string \<Rightarrow> string \<Rightarrow> rat \<Rightarrow> rat \<Rightarrow> string \<Rightarrow> db \<Rightarrow> db" where
  "fire send now detector sid server_name message value threshold key d =
     (case open_event d detector sid key of
        Some ev \<Rightarrow> d
      | None \<Rightarrow>
          let msg = (if key \<noteq> [] then ''['' @ key @ ''] '' @ message else message);
              ev = new_event d now detector sid server_name msg value threshold;
              d1 = d\<lparr>d_events := d_events d @ [ev]\<rparr>
          in notify send ev detector server_name ALERT d1)"

definition recover :: "sender \<Rightarrow> time \<Rightarrow> string \<Rightarrow> int \<Rightarrow> string \<Rightarrow> db \<Rightarrow> db" where
  "recover send now detector sid key d =
     (case open_event d detector sid key of
        None \<Rightarrow> d
      | Some ev \<Rightarrow>
          let d1 = update_event (e_id ev) (\<lambda>e. e\<lparr>e_recovered_at := Some now\<rparr>) d
          in if e_notified ev then notify send ev detector (e_server_name ev) RECOVERY d1 else d1)"

definition ttl_recover_point_events :: "time \<Rightarrow> db \<Rightarrow> db" where
  "ttl_recover_point_events now d =
     (let cutoff = now - minutes POINT_EVENT_TTL_MINUTES
      in d\<lparr>d_events := map (\<lambda>e.
           if e_rule_id e = None \<and> e_metric e \<in> set POINT_EVENT_TYPES \<and> e_recovered_at e = None
              \<and> e_triggered_at e \<le> cutoff
           then e\<lparr>e_recovered_at := Some now\<rparr> else e) (d_events d)\<rparr>)"

section \<open>The contract\<close>

text \<open>
  \<open>opened d det sid key\<close>: the log has an open event for a detector, a server and a key.
  \<open>single d det sid key\<close>: it has at most one.  A detector that fires while its condition holds
  and recovers when it does not keeps the log in step with the condition.
\<close>

locale alert_log =
  fixes opened :: "'d \<Rightarrow> string \<Rightarrow> int \<Rightarrow> string \<Rightarrow> bool"
    and single :: "'d \<Rightarrow> string \<Rightarrow> int \<Rightarrow> string \<Rightarrow> bool"
    and raise_event :: "string \<Rightarrow> int \<Rightarrow> string \<Rightarrow> 'c \<Rightarrow> 'd \<Rightarrow> 'd"
    and clear_event :: "string \<Rightarrow> int \<Rightarrow> string \<Rightarrow> 'c \<Rightarrow> 'd \<Rightarrow> 'd"
    and ok :: "'d \<Rightarrow> bool"
  assumes raise_opens: "ok d \<Longrightarrow> opened (raise_event det sid key c d) det sid key"
    and raise_again: "opened d det sid key \<Longrightarrow> raise_event det sid key c d = d"
    and raise_single: "ok d \<Longrightarrow> single d det sid key \<Longrightarrow> single (raise_event det sid key c d) det sid key"
    and raise_frame: "ok d \<Longrightarrow> det' \<noteq> det \<or> sid' \<noteq> sid \<Longrightarrow>
           opened (raise_event det sid key c d) det' sid' key' = opened d det' sid' key'"
    and clear_closes: "ok d \<Longrightarrow> single d det sid key \<Longrightarrow> \<not> opened (clear_event det sid key c d) det sid key"
    and clear_single: "ok d \<Longrightarrow> single d det sid key \<Longrightarrow> single (clear_event det sid key c d) det sid key"
    and clear_frame: "ok d \<Longrightarrow> det' \<noteq> det \<or> sid' \<noteq> sid \<Longrightarrow>
           opened (clear_event det sid key c d) det' sid' key' = opened d det' sid' key'"
    and raise_ok: "ok d \<Longrightarrow> ok (raise_event det sid key c d)"
    and clear_ok: "ok d \<Longrightarrow> ok (clear_event det sid key c d)"
begin

text \<open>One verdict of a detector, and a history of verdicts of the same detector and key.\<close>

lemma verdict:
  assumes "ok d" and "single d det sid key"
  shows "opened (if p then raise_event det sid key c d else clear_event det sid key c d) det sid key \<longleftrightarrow> p"
  using assms by (simp add: raise_opens clear_closes)

lemma verdict_keeps:
  assumes "ok d" and "single d det sid key"
  shows "ok (if p then raise_event det sid key c d else clear_event det sid key c d) \<and>
    single (if p then raise_event det sid key c d else clear_event det sid key c d) det sid key"
  using assms by (simp add: raise_ok clear_ok raise_single clear_single)

lemma verdicts:
  assumes "ok d" and "single d det sid key"
  shows "ok (fold (\<lambda>(p, c). if p then raise_event det sid key c else clear_event det sid key c) vs d) \<and>
    single (fold (\<lambda>(p, c). if p then raise_event det sid key c else clear_event det sid key c) vs d)
      det sid key \<and>
    (vs \<noteq> [] \<longrightarrow>
      (opened (fold (\<lambda>(p, c). if p then raise_event det sid key c else clear_event det sid key c) vs d)
         det sid key \<longleftrightarrow> fst (last vs)))"
  using assms
proof (induction vs rule: rev_induct)
  case (snoc v vs)
  then show ?case
    by (cases v) (auto simp: raise_opens clear_closes raise_ok clear_ok raise_single clear_single)
qed simp

end

section \<open>The contract holds\<close>

definition events_ok :: "db \<Rightarrow> bool" where
  "events_ok d \<longleftrightarrow> distinct (map e_id (d_events d))"

definition single_event :: "db \<Rightarrow> string \<Rightarrow> int \<Rightarrow> string \<Rightarrow> bool" where
  "single_event d detector sid key \<longleftrightarrow> length (filter (event_matches detector sid key) (d_events d)) \<le> 1"

definition is_open :: "db \<Rightarrow> string \<Rightarrow> int \<Rightarrow> string \<Rightarrow> bool" where
  "is_open d detector sid key \<longleftrightarrow> open_event d detector sid key \<noteq> None"

lemma is_open_iff: "is_open d det sid key \<longleftrightarrow> (\<exists>e \<in> set (d_events d). event_matches det sid key e)"
  by (auto simp: is_open_def open_event_def find_None_iff)

lemma open_event_SomeD:
  "open_event d det sid key = Some e \<Longrightarrow> e \<in> set (d_events d) \<and> event_matches det sid key e"
  unfolding open_event_def by (auto simp: find_Some_iff in_set_conv_nth)

lemma next_event_id_fresh: "e \<in> set (d_events d) \<Longrightarrow> e_id e < next_event_id d"
proof -
  have "e \<in> set es \<Longrightarrow> e_id e \<le> foldr (\<lambda>e m. max (e_id e) m) es 0" for es :: "alert_event list"
    by (induction es) auto
  then show "e \<in> set (d_events d) \<Longrightarrow> e_id e < next_event_id d"
    by (fastforce simp: next_event_id_def)
qed

lemma events_update_event [simp]:
  "d_events (update_event i f d) = map (\<lambda>e. if e_id e = i then f e else e) (d_events d)"
  by (simp add: update_event_def)

lemma ids_update_event:
  "(\<And>e. e_id (f e) = e_id e) \<Longrightarrow> events_ok (update_event i f d) = events_ok d"
  by (simp add: events_ok_def comp_def if_distrib cong: if_cong)

text \<open>Delivery flags do not matter to the log.\<close>

lemma matches_notified [simp]: "event_matches det sid key (e\<lparr>e_notified := b\<rparr>) = event_matches det sid key e"
  by (simp add: event_matches_def)

definition same_log :: "db \<Rightarrow> db \<Rightarrow> bool" where
  "same_log d d' \<longleftrightarrow>
     list_all2 (\<lambda>e e'. e_id e' = e_id e \<and> (\<forall>det sid key. event_matches det sid key e' = event_matches det sid key e))
       (d_events d) (d_events d')"

lemma same_log_notify: "same_log d (notify send ev det sname lvl d)"
  by (auto simp: same_log_def notify_def Let_def list_all2_map2 list_all2_same split: option.splits)

lemma list_all2_map_eq: "list_all2 (\<lambda>x y. f y = f x) xs ys \<Longrightarrow> map f ys = map f xs"
  by (induction rule: list_all2_induct) auto

lemma same_log_ids: "same_log d d' \<Longrightarrow> map e_id (d_events d') = map e_id (d_events d)"
  unfolding same_log_def by (rule list_all2_map_eq) (auto elim: list_all2_mono)

lemma list_all2_filter_length:
  "list_all2 (\<lambda>x y. P x = Q y) xs ys \<Longrightarrow> length (filter P xs) = length (filter Q ys)"
  by (induction rule: list_all2_induct) auto

lemma same_log_matches:
  assumes "same_log d d'"
  shows "length (filter (event_matches det sid key) (d_events d')) =
     length (filter (event_matches det sid key) (d_events d))"
  using assms unfolding same_log_def
  by (intro list_all2_filter_length [symmetric]) (auto elim: list_all2_mono)

lemma is_open_count: "is_open d det sid key \<longleftrightarrow> 0 < length (filter (event_matches det sid key) (d_events d))"
  by (auto simp: is_open_iff filter_empty_conv)

lemma same_log_facts:
  assumes "same_log d d'"
  shows "is_open d' det sid key = is_open d det sid key"
    and "single_event d' det sid key = single_event d det sid key"
    and "events_ok d' = events_ok d"
  using same_log_matches [OF assms] same_log_ids [OF assms]
  by (simp_all add: is_open_count single_event_def events_ok_def)

lemma new_event_matches:
  "event_matches det sid key (new_event d now det sid sname
      (if key \<noteq> [] then ''['' @ key @ ''] '' @ message else message) value threshold)"
  using like_literal [of "''['' @ key @ '']''" "[]" "CHR '' '' # message"]
  by (auto simp: event_matches_def new_event_def key_pattern_def)

lemma new_event_matches_other:
  "det' \<noteq> det \<or> sid' \<noteq> sid \<Longrightarrow>
   \<not> event_matches det' sid' key' (new_event d now det sid sname msg value threshold)"
  by (auto simp: event_matches_def new_event_def)

text \<open>Firing appends one event or does nothing.\<close>

lemma fire_log:
  "open_event d det sid key = None \<Longrightarrow>
   same_log (d\<lparr>d_events := d_events d @ [new_event d now det sid sname
      (if key \<noteq> [] then ''['' @ key @ ''] '' @ message else message) value threshold]\<rparr>)
     (fire send now det sid sname message value threshold key d)"
  by (simp add: fire_def Let_def same_log_notify)

lemma recover_log:
  assumes "open_event d det sid key = Some ev"
  shows "same_log (update_event (e_id ev) (\<lambda>e. e\<lparr>e_recovered_at := Some now\<rparr>) d)
     (recover send now det sid key d)"
  using assms same_log_notify
  by (auto simp: recover_def Let_def) (simp add: same_log_def list_all2_same)

type_synonym occasion = "time \<times> string \<times> string \<times> rat \<times> rat"

abbreviation raised :: "sender \<Rightarrow> string \<Rightarrow> int \<Rightarrow> string \<Rightarrow> occasion \<Rightarrow> db \<Rightarrow> db" where
  "raised send det sid key c d \<equiv>
     (case c of (now, sname, message, value, threshold) \<Rightarrow>
        fire send now det sid sname message value threshold key d)"

abbreviation cleared :: "sender \<Rightarrow> string \<Rightarrow> int \<Rightarrow> string \<Rightarrow> occasion \<Rightarrow> db \<Rightarrow> db" where
  "cleared send det sid key c d \<equiv> recover send (fst c) det sid key d"

lemma fire_count:
  assumes "open_event d det sid key = None"
  shows "length (filter (event_matches det' sid' key') (d_events (fire send now det sid sname message value threshold key d))) =
    length (filter (event_matches det' sid' key') (d_events d)) +
      (if event_matches det' sid' key' (new_event d now det sid sname
          (if key \<noteq> [] then ''['' @ key @ ''] '' @ message else message) value threshold) then 1 else 0)"
  by (subst same_log_matches [OF fire_log [OF assms]]) simp

lemma fire_events_ok: "events_ok d \<Longrightarrow> events_ok (fire send now det sid sname message value threshold key d)"
proof (cases "open_event d det sid key")
  case None
  assume "events_ok d"
  then have "events_ok (d\<lparr>d_events := d_events d @ [new_event d now det sid sname
      (if key \<noteq> [] then ''['' @ key @ ''] '' @ message else message) value threshold]\<rparr>)"
    by (auto simp: events_ok_def new_event_def dest: next_event_id_fresh)
  with same_log_facts(3) [OF fire_log [OF None]] show ?thesis by blast
next
  case (Some ev)
  then show "events_ok d \<Longrightarrow> ?thesis" by (simp add: fire_def)
qed

lemma fire_open_same: "is_open d det sid key \<Longrightarrow> fire send now det sid sname message value threshold key d = d"
  by (auto simp: is_open_def fire_def)

lemma fire_is_open: "is_open (fire send now det sid sname message value threshold key d) det sid key"
proof (cases "is_open d det sid key")
  case True
  then show ?thesis by (simp add: fire_open_same)
next
  case False
  then have none: "open_event d det sid key = None" by (simp add: is_open_def)
  show ?thesis using new_event_matches by (simp add: is_open_count fire_count [OF none])
qed

lemma fire_single:
  "single_event d det sid key \<Longrightarrow>
   single_event (fire send now det sid sname message value threshold key d) det sid key"
proof (cases "is_open d det sid key")
  case True
  assume "single_event d det sid key"
  with True show ?thesis by (simp add: fire_open_same)
next
  case False
  then have "open_event d det sid key = None" by (simp add: is_open_def)
  moreover have "length (filter (event_matches det sid key) (d_events d)) = 0"
    using False is_open_count by (metis gr0I)
  ultimately show ?thesis by (simp add: single_event_def fire_count)
qed

lemma fire_frame:
  assumes "det' \<noteq> det \<or> sid' \<noteq> sid"
  shows "is_open (fire send now det sid sname message value threshold key d) det' sid' key' = is_open d det' sid' key'"
proof (cases "is_open d det sid key")
  case True
  then show ?thesis by (simp add: fire_open_same)
next
  case False
  then have none: "open_event d det sid key = None" by (simp add: is_open_def)
  show ?thesis using assms by (simp add: is_open_count fire_count [OF none] new_event_matches_other)
qed

text \<open>Recovering closes exactly the event it finds.\<close>

definition closed_by :: "time \<Rightarrow> int \<Rightarrow> alert_event \<Rightarrow> alert_event" where
  "closed_by now i e = (if e_id e = i then e\<lparr>e_recovered_at := Some now\<rparr> else e)"

lemma closed_by_matches: "event_matches det sid key (closed_by now i e) \<longleftrightarrow> e_id e \<noteq> i \<and> event_matches det sid key e"
  by (auto simp: closed_by_def event_matches_def)

lemma recover_count:
  assumes "open_event d det sid key = Some ev"
  shows "length (filter (event_matches det' sid' key') (d_events (recover send now det sid key d))) =
    length (filter (\<lambda>e. e_id e \<noteq> e_id ev \<and> event_matches det' sid' key' e) (d_events d))"
proof -
  have "filter (event_matches det' sid' key') (d_events (update_event (e_id ev) (\<lambda>e. e\<lparr>e_recovered_at := Some now\<rparr>) d)) =
      map (closed_by now (e_id ev)) (filter (\<lambda>e. e_id e \<noteq> e_id ev \<and> event_matches det' sid' key' e) (d_events d))"
    by (simp add: filter_map comp_def closed_by_matches flip: closed_by_def)
  then show ?thesis by (simp add: same_log_matches [OF recover_log [OF assms]])
qed

lemma recover_events_ok: "events_ok d \<Longrightarrow> events_ok (recover send now det sid key d)"
proof (cases "open_event d det sid key")
  case (Some ev)
  assume "events_ok d"
  then show ?thesis
    using same_log_facts(3) [OF recover_log [OF Some]] by (simp add: ids_update_event)
qed (simp add: recover_def)

lemma single_unique:
  assumes "single_event d det sid key" and "e \<in> set (d_events d)" "event_matches det sid key e"
    and "f \<in> set (d_events d)" "event_matches det sid key f"
  shows "e = f"
proof -
  let ?xs = "filter (event_matches det sid key) (d_events d)"
  have "e \<in> set ?xs" "f \<in> set ?xs" using assms by auto
  moreover have "length ?xs \<le> 1" using assms(1) by (simp add: single_event_def)
  ultimately show ?thesis by (cases ?xs) auto
qed

lemma recover_closes:
  assumes "single_event d det sid key"
  shows "\<not> is_open (recover send now det sid key d) det sid key"
proof (cases "open_event d det sid key")
  case None
  then show ?thesis by (simp add: recover_def is_open_def)
next
  case (Some ev)
  note ev = open_event_SomeD [OF Some]
  have "filter (\<lambda>e. e_id e \<noteq> e_id ev \<and> event_matches det sid key e) (d_events d) = []"
    using single_unique [OF assms _ _ conjunct1 [OF ev] conjunct2 [OF ev]] by (auto simp: filter_empty_conv)
  then show ?thesis by (simp add: is_open_count recover_count [OF Some])
qed

lemma recover_single:
  assumes "single_event d det sid key"
  shows "single_event (recover send now det sid key d) det sid key"
proof -
  have "length (filter (event_matches det sid key) (d_events (recover send now det sid key d))) = 0"
    using recover_closes [OF assms] is_open_count by (metis gr0I)
  then show ?thesis by (simp add: single_event_def)
qed

lemma recover_frame:
  assumes "events_ok d" and "det' \<noteq> det \<or> sid' \<noteq> sid"
  shows "is_open (recover send now det sid key d) det' sid' key' = is_open d det' sid' key'"
proof (cases "open_event d det sid key")
  case None
  then show ?thesis by (simp add: recover_def)
next
  case (Some ev)
  note ev = open_event_SomeD [OF Some]
  have "e_id e \<noteq> e_id ev" if "e \<in> set (d_events d)" "event_matches det' sid' key' e" for e
  proof
    assume "e_id e = e_id ev"
    then have "e = ev" using assms(1) that(1) ev by (auto simp: events_ok_def distinct_map inj_on_def)
    with that(2) ev assms(2) show False by (auto simp: event_matches_def)
  qed
  then have "filter (\<lambda>e. e_id e \<noteq> e_id ev \<and> event_matches det' sid' key' e) (d_events d) =
      filter (event_matches det' sid' key') (d_events d)"
    by (intro filter_cong) auto
  then show ?thesis by (simp add: is_open_count recover_count [OF Some])
qed

interpretation log: alert_log is_open single_event "raised send" "cleared send" events_ok
  for send
  by unfold_locales
    (auto simp: fire_is_open fire_open_same fire_single fire_frame recover_closes recover_single
       recover_frame fire_events_ok recover_events_ok split: prod.splits)

end
