(* ===== verification/Detectors.thy ===== *)
theory Detectors
  imports AlertLog
begin

text \<open>
  The built-in detectors, \<open>backend/app/health.py\<close>: each \<open>_detect_*\<close> function as one step on
  the database, with the texts of its events, \<open>run_detectors\<close>, and the GPU baseline
  (\<open>update_gpu_baseline\<close>).  One call reads the clock once (\<open>now\<close>).  The exception handler of
  \<open>run_detectors\<close> (log and roll back) is not modelled: no step of the model raises.
\<close>

section \<open>Queries\<close>

definition ok_rows_since :: "db \<Rightarrow> int \<Rightarrow> time \<Rightarrow> metric list" where
  "ok_rows_since d sid since =
     order_by m_collected_at (filter (\<lambda>r. m_server_id r = sid \<and> m_collected_at r \<ge> since
       \<and> m_status r = ''ok'') (d_metrics d))"

definition name_or :: "string \<Rightarrow> string \<Rightarrow> string" where
  "name_or a b = (if a \<noteq> [] then a else b)"

definition show_opt_int :: "int option \<Rightarrow> string" where
  "show_opt_int v = (case v of None \<Rightarrow> ''None'' | Some i \<Rightarrow> show_int i)"

definition show_opt_float :: "rat option \<Rightarrow> string" where
  "show_opt_float v = (case v of None \<Rightarrow> ''None'' | Some q \<Rightarrow> show_float q)"

definition show_opt_str :: "string option \<Rightarrow> string" where
  "show_opt_str v = (case v of None \<Rightarrow> ''None'' | Some s \<Rightarrow> s)"

fun show_hex_aux :: "nat \<Rightarrow> nat \<Rightarrow> string" where
  "show_hex_aux 0 n = []"
| "show_hex_aux (Suc fuel) n =
     (let d = n mod 16; c = char_of (if d < 10 then 48 + d else 87 + d)
      in if n < 16 then [c] else show_hex_aux fuel (n div 16) @ [c])"

definition show_hex :: "int \<Rightarrow> string" where
  "show_hex i = (if i < 0 then CHR ''-'' # show_hex_aux (Suc (nat (- i))) (nat (- i))
                 else show_hex_aux (Suc (nat i)) (nat i))"

text \<open>\<open>g.get("uuid") or f"idx{g.get('index')}"\<close>.\<close>

definition gpu_key :: "gpu \<Rightarrow> string" where
  "gpu_key g = name_or (str0 (uuid g)) (''idx'' @ show_opt_int (index g))"

section \<open>GPU memory held while idle\<close>

text \<open>The negation of the first loop's \<open>continue\<close> test.\<close>

definition holds_idle_vram :: "rat \<Rightarrow> gpu \<Rightarrow> bool" where
  "holds_idle_vram vram_pct g \<longleftrightarrow>
     \<not> (num0 (mem_total_mb g) \<le> 0
        \<or> num0 (mem_used_mb g) / num0 (mem_total_mb g) < vram_pct
        \<or> num0 (utilization g) > 5)"

definition recover_busy_gpu :: "sender \<Rightarrow> time \<Rightarrow> rat \<Rightarrow> int \<Rightarrow> gpu \<Rightarrow> db \<Rightarrow> db" where
  "recover_busy_gpu send now vram_pct sid g d =
     (if holds_idle_vram vram_pct g then d
      else recover send now ''GPU_IDLE_VRAM_HELD'' sid (gpu_key g) d)"

text \<open>The inner loop: the sampled GPU with the same UUID exists and is idle in every row.\<close>

fun held_throughout :: "string option \<Rightarrow> metric list \<Rightarrow> bool" where
  "held_throughout u [] = True"
| "held_throughout u (r # rows) =
     (case find (\<lambda>x. uuid x = u) (m_gpus r) of
        None \<Rightarrow> False
      | Some gg \<Rightarrow> if num0 (utilization gg) > 5 then False else held_throughout u rows)"

definition idle_message :: "int \<Rightarrow> gpu \<Rightarrow> string" where
  "idle_message idle_minutes g =
     (let procs = filter (\<lambda>p. p_pid p \<noteq> None \<and> p_pid p \<noteq> Some 0) (gpu_processes g);
          listed = join '', '' (map (\<lambda>p. ''PID '' @ show_opt_int (p_pid p) @ ''('' @
                     (case p_user p of None \<Rightarrow> ''?'' | Some u \<Rightarrow> u) @ '')'') (take 3 procs));
          pinfo = name_or listed (utf8 [230, 151, 160, 232, 191, 155, 231, 168, 139])
      in ''GPU '' @ show_opt_int (index g) @ '' '' @ utf8 [230, 152, 190, 229, 173, 152, 229, 141, 160, 231, 148, 168] @ '' '' @
         show_float (py_round_to 1 (num0 (mem_used_mb g) / 1024)) @ ''GB '' @ utf8 [228, 189, 134, 229, 136, 169, 231, 148, 168, 231, 142, 135, 226, 137, 136] @ ''0 '' @ utf8 [230, 140, 129, 231, 187, 173] @
         show_int idle_minutes @ utf8 [229, 136, 134, 233, 146, 159, 239, 188, 136] @ pinfo @ utf8 [239, 188, 137, 226, 128, 148, 226, 128, 148, 231, 150, 145, 228, 188, 188, 231, 169, 186, 229, 141, 160] @ ''/'' @ utf8 [229, 131, 181, 229, 176, 184, 232, 191, 155, 231, 168, 139])"

definition judge_idle_gpu ::
    "sender \<Rightarrow> time \<Rightarrow> rat \<Rightarrow> int \<Rightarrow> server \<Rightarrow> metric \<Rightarrow> metric list \<Rightarrow> gpu \<Rightarrow> db \<Rightarrow> db" where
  "judge_idle_gpu send now vram_pct idle_minutes s m rows g d =
     (if held_throughout (uuid g) rows \<and> int (length rows) \<ge> max 2 (idle_minutes div 10)
      then fire send now ''GPU_IDLE_VRAM_HELD'' (s_id s) (name_or (m_hostname m) (s_name s))
             (idle_message idle_minutes g)
             (py_round_to 1 (num0 (mem_used_mb g) / num0 (mem_total_mb g) * 100))
             (of_int (py_trunc (vram_pct * 100))) (gpu_key g) d
      else recover send now ''GPU_IDLE_VRAM_HELD'' (s_id s) (gpu_key g) d)"

definition detect_gpu_idle :: "sender \<Rightarrow> time \<Rightarrow> server \<Rightarrow> metric \<Rightarrow> db \<Rightarrow> db" where
  "detect_gpu_idle send now s m d =
     (let vram_pct = get_setting d ''gpu_idle_vram_pct'' 30 / 100;
          idle_minutes = py_trunc (get_setting d ''gpu_idle_minutes'' 30);
          candidates = filter (holds_idle_vram vram_pct) (m_gpus m);
          d1 = fold (recover_busy_gpu send now vram_pct (s_id s)) (m_gpus m) d
      in if candidates = [] then d1
         else let since = m_collected_at m - minutes idle_minutes;
                  rows = ok_rows_since d1 (s_id s) since
              in fold (judge_idle_gpu send now vram_pct idle_minutes s m rows) candidates d1)"

section \<open>Missing GPUs, ECC, throttling\<close>

definition update_baseline :: "int \<Rightarrow> string \<Rightarrow> (gpu_baseline \<Rightarrow> gpu_baseline) \<Rightarrow> db \<Rightarrow> db" where
  "update_baseline sid u f d =
     d\<lparr>d_baselines := map (\<lambda>b. if b_server_id b = sid \<and> b_gpu_uuid b = u then f b else b) (d_baselines d)\<rparr>"

definition judge_missing_gpu ::
    "sender \<Rightarrow> time \<Rightarrow> server \<Rightarrow> metric \<Rightarrow> gpu_baseline \<Rightarrow> db \<Rightarrow> db" where
  "judge_missing_gpu send now s m b d =
     (if Some (b_gpu_uuid b) \<in> set (map uuid (m_gpus m))
      then recover send now ''GPU_MISSING'' (s_id s) (b_gpu_uuid b)
             (update_baseline (s_id s) (b_gpu_uuid b)
               (\<lambda>b. b\<lparr>b_missing_since := None, b_last_seen := now\<rparr>) d)
      else if b_missing_since b = None
      then fire send now ''GPU_MISSING'' (s_id s) (name_or (m_hostname m) (s_name s))
             (''GPU '' @ name_or (b_name b) (b_gpu_uuid b) @ '' ('' @ b_pci_bus_id b @
              '') '' @ utf8 [228, 187, 142, 233, 135, 135, 233, 155, 134, 231, 187, 147, 230, 158, 156, 228, 184, 173, 230, 182, 136, 229, 164, 177, 226, 128, 148, 226, 128, 148, 230, 142, 137, 229, 141, 161] @ ''/'' @ utf8 [232, 162, 171, 231, 167, 187, 233, 153, 164] @ ''/'' @ utf8 [233, 169, 177, 229, 138, 168, 229, 188, 130, 229, 184, 184])
             0 0 (b_gpu_uuid b)
             (update_baseline (s_id s) (b_gpu_uuid b) (\<lambda>b. b\<lparr>b_missing_since := Some now\<rparr>) d)
      else d)"

definition detect_gpu_missing ::
    "sender \<Rightarrow> time \<Rightarrow> server \<Rightarrow> metric \<Rightarrow> gpu_baseline list \<Rightarrow> db \<Rightarrow> db" where
  "detect_gpu_missing send now s m baseline d =
     (if baseline = [] then d else fold (judge_missing_gpu send now s m) baseline d)"

definition baseline_row :: "db \<Rightarrow> int \<Rightarrow> string \<Rightarrow> gpu_baseline option" where
  "baseline_row d sid u = find (\<lambda>b. b_server_id b = sid \<and> b_gpu_uuid b = u) (d_baselines d)"

text \<open>The problems of one GPU's ECC counters, and the baseline's new value.\<close>

definition ecc_problems :: "gpu \<Rightarrow> gpu_baseline option \<Rightarrow> string list \<times> int option" where
  "ecc_problems g b =
     (let volatile = num0 (ecc_uncorrected_volatile g);
          aggregate = num0 (ecc_uncorrected_total g);
          p1 = (if volatile > 0 then [utf8 [230, 156, 172, 230, 172, 161, 229, 144, 175, 229, 138, 168, 230, 150, 176, 229, 162, 158] @ '' '' @ show_int volatile @ '' '' @ utf8 [230, 157, 161]] else [])
      in if str0 (uuid g) = [] then (p1, None)
         else case b of
             None \<Rightarrow> (p1, None)
           | Some row \<Rightarrow>
               (case b_ecc_uncorrected_baseline row of
                  None \<Rightarrow> (p1, Some aggregate)
                | Some base \<Rightarrow>
                    if aggregate > base
                    then (p1 @ [utf8 [231, 180, 175, 232, 174, 161, 230, 150, 176, 229, 162, 158] @ '' '' @ show_int (aggregate - base) @ '' '' @ utf8 [230, 157, 161]], Some aggregate)
                    else (p1, None)))"

definition judge_gpu_ecc :: "sender \<Rightarrow> time \<Rightarrow> server \<Rightarrow> metric \<Rightarrow> gpu \<Rightarrow> db \<Rightarrow> db" where
  "judge_gpu_ecc send now s m g d =
     (if \<not> ecc_supported g then d
      else case ecc_problems g (baseline_row d (s_id s) (str0 (uuid g))) of
          (problems, base) \<Rightarrow>
            let d1 = (case base of
                        None \<Rightarrow> d
                      | Some v \<Rightarrow> update_baseline (s_id s) (str0 (uuid g))
                                    (\<lambda>b. b\<lparr>b_ecc_uncorrected_baseline := Some v\<rparr>) d)
            in if problems \<noteq> []
               then fire send now ''GPU_ECC_UNCORRECTED'' (s_id s) (name_or (m_hostname m) (s_name s))
                      (''GPU '' @ show_opt_int (index g) @ '' '' @ utf8 [228, 184, 141, 229, 143, 175, 231, 186, 160, 230, 173, 163] @ '' ECC '' @ utf8 [233, 148, 153, 232, 175, 175, 239, 188, 136] @
                       join (utf8 [239, 188, 140]) problems @ utf8 [239, 188, 137, 226, 128, 148, 226, 128, 148, 231, 161, 172, 228, 187, 182, 230, 149, 133, 233, 154, 156, 233, 163, 142, 233, 153, 169])
                      (of_int (num0 (ecc_uncorrected_volatile g))) 0 (gpu_key g) d1
               else recover send now ''GPU_ECC_UNCORRECTED'' (s_id s) (gpu_key g) d1)"

definition detect_gpu_ecc :: "sender \<Rightarrow> time \<Rightarrow> server \<Rightarrow> metric \<Rightarrow> db \<Rightarrow> db" where
  "detect_gpu_ecc send now s m d = fold (judge_gpu_ecc send now s m) (m_gpus m) d"

definition is_thermal :: "string \<Rightarrow> bool" where
  "is_thermal r \<longleftrightarrow> contains ''THERMAL'' r \<or> r = ''HW_SLOWDOWN''"

definition judge_gpu_throttle :: "sender \<Rightarrow> time \<Rightarrow> server \<Rightarrow> metric \<Rightarrow> gpu \<Rightarrow> db \<Rightarrow> db" where
  "judge_gpu_throttle send now s m g d =
     (let thermal = filter is_thermal (throttle_reasons g)
      in if thermal \<noteq> []
         then fire send now ''GPU_THERMAL_THROTTLE'' (s_id s) (name_or (m_hostname m) (s_name s))
                (''GPU '' @ show_opt_int (index g) @ '' '' @ utf8 [231, 131, 173, 233, 153, 141, 233, 162, 145, 228, 184, 173, 239, 188, 136] @ join '','' thermal @ utf8 [239, 188, 140] @
                 show_opt_float (temperature g) @ utf8 [194, 176] @ ''C'' @ utf8 [239, 188, 137])
                (num0 (temperature g)) 0 (str0 (uuid g)) d
         else recover send now ''GPU_THERMAL_THROTTLE'' (s_id s) (str0 (uuid g)) d)"

definition detect_gpu_throttle :: "sender \<Rightarrow> time \<Rightarrow> server \<Rightarrow> metric \<Rightarrow> db \<Rightarrow> db" where
  "detect_gpu_throttle send now s m d = fold (judge_gpu_throttle send now s m) (m_gpus m) d"

section \<open>Kernel events\<close>

definition judge_kernel_event :: "sender \<Rightarrow> time \<Rightarrow> server \<Rightarrow> kernel_event_row \<Rightarrow> db \<Rightarrow> db" where
  "judge_kernel_event send now s ev d =
     (if k_event_type ev = ''GPU_XID''
      then fire send now ''GPU_XID'' (s_id s) (s_name s)
             (''GPU '' @ name_or (k_gpu_uuid ev) ''?'' @ '' Xid '' @ show_int (k_xid ev) @ '': '' @
              take 120 (k_message ev))
             (of_int (k_xid ev)) 0 (take 16 (k_dedup_hash ev)) d
      else if k_event_type ev \<in> set [''OOM_KILL'', ''MCE_HARDWARE_ERROR'', ''PCIE_AER'']
      then fire send now (k_event_type ev) (s_id s) (s_name s) (take 160 (k_message ev)) 0 0
             (take 16 (k_dedup_hash ev)) d
      else d)"

definition detect_kernel_events :: "sender \<Rightarrow> time \<Rightarrow> server \<Rightarrow> time \<Rightarrow> db \<Rightarrow> db" where
  "detect_kernel_events send now s since d =
     fold (judge_kernel_event send now s)
       (filter (\<lambda>r. k_server_id r = s_id s \<and> k_collected_at r \<ge> since) (d_kernel d)) d"

section \<open>Disks, services, connectivity\<close>

definition nvme_problems :: "nvme_entry \<Rightarrow> string list" where
  "nvme_problems e =
     (if num0 (nv_critical_warning e) \<noteq> 0
      then [''critical_warning=0x'' @ show_hex (num0 (nv_critical_warning e))] else []) @
     (case (nv_available_spare e, nv_available_spare_threshold e) of
        (Some spare, Some thr) \<Rightarrow>
          if spare \<le> thr
          then [utf8 [229, 143, 175, 231, 148, 168, 229, 164, 135, 231, 148, 168, 231, 169, 186, 233, 151, 180] @ '' '' @ show_int spare @ ''% '' @ utf8 [226, 137, 164] @ '' '' @ utf8 [233, 152, 136, 229, 128, 188] @ '' '' @ show_int thr @ ''%''] else []
      | _ \<Rightarrow> []) @
     (if num0 (nv_media_errors e) \<noteq> 0
      then [utf8 [228, 187, 139, 232, 180, 168, 233, 148, 153, 232, 175, 175] @ '' '' @ show_int (num0 (nv_media_errors e)) @ '' '' @ utf8 [230, 172, 161]] else []) @
     (case nv_percentage_used e of
        None \<Rightarrow> []
      | Some pu \<Rightarrow> if pu \<ge> 90 then [utf8 [229, 175, 191, 229, 145, 189, 229, 183, 178, 231, 148, 168] @ '' '' @ show_int pu @ ''%''] else [])"

definition nvme_dev :: "nvme_entry \<Rightarrow> string" where
  "nvme_dev e = (case nv_device e of None \<Rightarrow> ''?'' | Some s \<Rightarrow> s)"

definition judge_nvme :: "sender \<Rightarrow> time \<Rightarrow> server \<Rightarrow> nvme_entry \<Rightarrow> db \<Rightarrow> db" where
  "judge_nvme send now s e d =
     (if nvme_problems e \<noteq> []
      then fire send now ''NVME_HEALTH'' (s_id s) (s_name s)
             (nvme_dev e @ '': '' @ join ''; '' (nvme_problems e)) 0 0 (nvme_dev e) d
      else recover send now ''NVME_HEALTH'' (s_id s) (nvme_dev e) d)"

definition detect_nvme :: "sender \<Rightarrow> time \<Rightarrow> server \<Rightarrow> slow_health option \<Rightarrow> db \<Rightarrow> db" where
  "detect_nvme send now s latest d =
     (case latest of
        None \<Rightarrow> d
      | Some h \<Rightarrow> fold (judge_nvme send now s) (sh_nvme_smart h) d)"

definition array_degraded :: "md_array \<Rightarrow> bool" where
  "array_degraded a \<longleftrightarrow>
     CHR ''_'' \<in> set (md_state a) \<or>
     (case (md_active_disks a, md_total_disks a) of
        (Some active, Some tot) \<Rightarrow> active < tot
      | _ \<Rightarrow> False)"

definition raid_message :: "md_array \<Rightarrow> string" where
  "raid_message a =
     show_opt_str (md_name a) @ '' '' @ md_level a @ '' '' @ utf8 [231, 138, 182, 230, 128, 129, 233, 153, 141, 231, 186, 167, 239, 188, 136] @
     show_opt_int (md_active_disks a) @ ''/'' @ show_opt_int (md_total_disks a) @ '' '' @ utf8 [229, 156, 168, 231, 186, 191] @ '', '' @
     md_state a @ utf8 [239, 188, 137]"

definition judge_raid :: "sender \<Rightarrow> time \<Rightarrow> server \<Rightarrow> md_array \<Rightarrow> db \<Rightarrow> db" where
  "judge_raid send now s a d =
     (if array_degraded a
      then fire send now ''RAID_DEGRADED'' (s_id s) (s_name s)
             (raid_message a)
             0 0 (str0 (md_name a)) d
      else recover send now ''RAID_DEGRADED'' (s_id s) (str0 (md_name a)) d)"

definition detect_raid :: "sender \<Rightarrow> time \<Rightarrow> server \<Rightarrow> slow_health option \<Rightarrow> db \<Rightarrow> db" where
  "detect_raid send now s latest d =
     (case latest of
        None \<Rightarrow> d
      | Some h \<Rightarrow> fold (judge_raid send now s) (sh_md_arrays h) d)"

definition detect_ssh_fault :: "sender \<Rightarrow> time \<Rightarrow> server \<Rightarrow> metric \<Rightarrow> db \<Rightarrow> db" where
  "detect_ssh_fault send now s m d =
     (if m_status m = ''error''
      then (case latest_by m_collected_at (filter (\<lambda>r. m_server_id r = s_id s
                    \<and> m_collected_at r < m_collected_at m) (d_metrics d)) of
              None \<Rightarrow> d
            | Some prev \<Rightarrow>
                if m_status prev = ''error''
                then fire send now ''SSH_FAULT'' (s_id s) (s_name s)
                       (m_error_code m @ '': '' @ take 120 (m_error m)) 0 0 ''SSH'' d
                else d)
      else d\<lparr>d_events := map (\<lambda>e. if event_matches ''SSH_FAULT'' (s_id s) [] e
                                    then e\<lparr>e_recovered_at := Some now\<rparr> else e) (d_events d)\<rparr>)"

definition services_message :: "string list \<Rightarrow> string" where
  "services_message failed =
     show_nat (length failed) @ '' '' @ utf8 [228, 184, 170] @ '' systemd '' @ utf8 [229, 141, 149, 229, 133, 131, 229, 164, 177, 232, 180, 165] @ '': '' @ join '', '' (take 5 failed)"

definition detect_services :: "sender \<Rightarrow> time \<Rightarrow> server \<Rightarrow> slow_health option \<Rightarrow> db \<Rightarrow> db" where
  "detect_services send now s latest d =
     (case latest of
        None \<Rightarrow> d
      | Some h \<Rightarrow>
          let failed = sh_systemd_failed h; msg = services_message failed
          in if failed \<noteq> []
             then (case open_event d ''SERVICE_FAILED'' (s_id s) [] of
                     Some ev \<Rightarrow> if e_message ev \<noteq> msg
                                then update_event (e_id ev) (\<lambda>e. e\<lparr>e_message := msg\<rparr>) d else d
                   | None \<Rightarrow> fire send now ''SERVICE_FAILED'' (s_id s) (s_name s) msg 0 0 [] d)
             else recover send now ''SERVICE_FAILED'' (s_id s) [] d)"

section \<open>Storage bottleneck\<close>

definition mean :: "rat list \<Rightarrow> rat" where
  "mean vals = (if vals = [] then 0 else sum_list vals / of_nat (length vals))"

definition max0 :: "rat list \<Rightarrow> rat" where
  "max0 vals = (case vals of [] \<Rightarrow> 0 | v # vs \<Rightarrow> foldl max v vs)"

definition row_gpu_util :: "metric \<Rightarrow> rat" where
  "row_gpu_util r = mean (map (\<lambda>g. num0 (utilization g)) (m_gpus r))"

definition row_disk_busy :: "metric \<Rightarrow> rat" where
  "row_disk_busy r = max0 (map (\<lambda>io. num0 (busy_percent io)) (m_disk_io r))"

definition last3 :: "'a list \<Rightarrow> 'a list" where
  "last3 xs = drop (length xs - 3) xs"

definition bottleneck_figures :: "metric list \<Rightarrow> rat \<times> rat \<times> rat \<times> rat" where
  "bottleneck_figures rows =
     (sum_list (map row_gpu_util (take 3 rows)) / 3,
      sum_list (map row_gpu_util (last3 rows)) / 3,
      max0 (map (\<lambda>r. num0 (m_cpu_iowait r)) (last3 rows)),
      max0 (map row_disk_busy (last3 rows)))"

definition detect_storage_bottleneck :: "sender \<Rightarrow> time \<Rightarrow> server \<Rightarrow> metric \<Rightarrow> db \<Rightarrow> db" where
  "detect_storage_bottleneck send now s m d =
     (let rows = ok_rows_since d (s_id s) (m_collected_at m - minutes 20)
      in if length rows < 6 then d
         else case bottleneck_figures rows of
             (first_util, last_util, last_iowait, last_busy) \<Rightarrow>
               if first_util > 60 \<and> last_util < first_util * (1/2) \<and> last_iowait > 10 \<and> last_busy > 70
               then fire send now ''STORAGE_BOTTLENECK'' (s_id s) (name_or (m_hostname m) (s_name s))
                      (utf8 [231, 150, 145, 228, 188, 188, 229, 173, 152, 229, 130, 168, 231, 147, 182, 233, 162, 136, 239, 188, 154] @ ''GPU '' @ utf8 [229, 157, 135, 229, 128, 188] @ '' '' @ show_int (py_round first_util) @ ''%'' @ utf8 [226, 134, 146] @
                       show_int (py_round last_util) @ ''%'' @ utf8 [239, 188, 140] @ ''iowait '' @
                       show_float (py_round_to 1 last_iowait) @ ''%'' @ utf8 [239, 188, 140, 231, 163, 129, 231, 155, 152, 231, 185, 129, 229, 191, 153] @ '' '' @
                       show_int (py_round last_busy) @ ''%'')
                      0 0 [] d
               else recover send now ''STORAGE_BOTTLENECK'' (s_id s) [] d)"

section \<open>Entry points\<close>

definition server_baseline :: "db \<Rightarrow> int \<Rightarrow> gpu_baseline list" where
  "server_baseline d sid = filter (\<lambda>b. b_server_id b = sid) (d_baselines d)"

definition run_ok_detectors :: "sender \<Rightarrow> time \<Rightarrow> server \<Rightarrow> metric \<Rightarrow> db \<Rightarrow> db" where
  "run_ok_detectors send now s m d =
     (if m_status m = ''ok'' then
        let d1 = detect_gpu_idle send now s m d;
            d2 = detect_gpu_missing send now s m (server_baseline d1 (s_id s)) d1;
            d3 = detect_gpu_ecc send now s m d2;
            d4 = detect_gpu_throttle send now s m d3
        in detect_storage_bottleneck send now s m d4
      else d)"

definition in_maintenance :: "server \<Rightarrow> bool" where
  "in_maintenance s \<longleftrightarrow> name_or (str0 (s_status s)) ''active'' = ''maintenance''"

definition detector_passes :: "sender \<Rightarrow> time \<Rightarrow> server \<Rightarrow> metric \<Rightarrow> db \<Rightarrow> db" where
  "detector_passes send now s m d1 =
     (let d2 = detect_ssh_fault send now s m d1;
          d3 = run_ok_detectors send now s m d2;
          d4 = detect_kernel_events send now s (now - minutes 10) d3;
          latest_slow = latest_by sh_collected_at (filter (\<lambda>h. sh_server_id h = s_id s) (d_slow d4));
          d5 = detect_nvme send now s latest_slow d4;
          d6 = detect_raid send now s latest_slow d5
      in detect_services send now s latest_slow d6)"

definition run_detectors :: "sender \<Rightarrow> time \<Rightarrow> int \<Rightarrow> db \<Rightarrow> db" where
  "run_detectors send now sid d =
     (case find (\<lambda>s. s_id s = sid) (d_servers d) of
        None \<Rightarrow> d
      | Some s \<Rightarrow>
          if in_maintenance s then d
          else case latest_by m_collected_at (filter (\<lambda>r. m_server_id r = sid) (d_metrics d)) of
              None \<Rightarrow> d
            | Some m \<Rightarrow> detector_passes send now s m (ttl_recover_point_events now d))"

definition register_gpu :: "time \<Rightarrow> int \<Rightarrow> gpu \<Rightarrow> db \<Rightarrow> db" where
  "register_gpu now sid g d =
     (let u = str0 (uuid g)
      in case baseline_row d sid u of
           None \<Rightarrow> d\<lparr>d_baselines := d_baselines d @
             [\<lparr>b_server_id = sid, b_gpu_uuid = u, b_name = str0 (gname g), b_serial = str0 (serial g),
               b_pci_bus_id = str0 (pci_bus_id g), b_first_seen = now, b_last_seen = now,
               b_missing_since = None, b_ecc_uncorrected_baseline = None\<rparr>]\<rparr>
         | Some row \<Rightarrow> update_baseline sid u (\<lambda>b. b\<lparr>
               b_last_seen := now, b_missing_since := None,
               b_name := name_or (str0 (gname g)) (b_name b),
               b_serial := name_or (str0 (serial g)) (b_serial b),
               b_pci_bus_id := name_or (str0 (pci_bus_id g)) (b_pci_bus_id b)\<rparr>) d)"

definition update_gpu_baseline :: "time \<Rightarrow> int \<Rightarrow> gpu list \<Rightarrow> db \<Rightarrow> db" where
  "update_gpu_baseline now sid gpus d =
     fold (register_gpu now sid) (filter (\<lambda>g. str0 (uuid g) \<noteq> []) gpus) d"

section \<open>What a detector may change\<close>

definition others :: "int \<Rightarrow> db \<Rightarrow> alert_event list" where
  "others sid d = filter (\<lambda>e. e_server_id e \<noteq> sid) (d_events d)"

definition other_baselines :: "int \<Rightarrow> db \<Rightarrow> gpu_baseline list" where
  "other_baselines sid d = filter (\<lambda>b. b_server_id b \<noteq> sid) (d_baselines d)"

text \<open>
  A step confined to server \<open>sid\<close>: it writes only this server's events and baseline rows and
  the outbox, and keeps event identifiers unique.
\<close>

definition confined :: "int \<Rightarrow> db \<Rightarrow> db \<Rightarrow> bool" where
  "confined sid d d' \<longleftrightarrow>
     (events_ok d \<longrightarrow> events_ok d' \<and> others sid d' = others sid d) \<and>
     other_baselines sid d' = other_baselines sid d \<and>
     d_servers d' = d_servers d \<and> d_metrics d' = d_metrics d \<and> d_rules d' = d_rules d \<and>
     d_settings d' = d_settings d \<and> d_kernel d' = d_kernel d \<and> d_slow d' = d_slow d \<and>
     d_notes d' = d_notes d \<and> d_hourly d' = d_hourly d"

named_theorems confined_intros \<open>steps confined to one server\<close>

lemma confined_refl [confined_intros]: "confined sid d d"
  by (simp add: confined_def)

lemma confined_trans: "confined sid d d' \<Longrightarrow> confined sid d' d'' \<Longrightarrow> confined sid d d''"
  by (simp add: confined_def)

lemma confined_fold [confined_intros]:
  assumes "\<And>x d. x \<in> set xs \<Longrightarrow> confined sid d (f x d)"
  shows "confined sid d (fold f xs d)"
  using assms
proof (induction xs arbitrary: d)
  case (Cons x xs)
  have "confined sid d (f x d)" using Cons.prems by simp
  moreover have "confined sid (f x d) (fold f xs (f x d))" using Cons by simp
  ultimately show ?case by (simp add: confined_trans)
qed (simp add: confined_refl)

lemma filter_map_same:
  "(\<And>x. x \<in> set xs \<Longrightarrow> P (f x) = P x) \<Longrightarrow> (\<And>x. x \<in> set xs \<Longrightarrow> P x \<Longrightarrow> f x = x) \<Longrightarrow>
   filter P (map f xs) = filter P xs"
  by (induction xs) auto

lemma confined_update_event:
  assumes "\<And>e. e_id (f e) = e_id e" and "\<And>e. e_server_id (f e) = e_server_id e"
    and "\<And>e. events_ok d \<Longrightarrow> e \<in> set (d_events d) \<Longrightarrow> e_id e = i \<Longrightarrow> e_server_id e = sid"
  shows "confined sid d (update_event i f d)"
proof -
  have "others sid (update_event i f d) = others sid d" if "events_ok d"
    unfolding others_def events_update_event
    by (rule filter_map_same) (use assms that in auto)
  then show ?thesis
    using assms(1) by (simp add: confined_def ids_update_event other_baselines_def) (simp add: update_event_def)
qed

lemma confined_notify:
  assumes "\<And>e. events_ok d \<Longrightarrow> e \<in> set (d_events d) \<Longrightarrow> e_id e = e_id ev \<Longrightarrow> e_server_id e = sid"
  shows "confined sid d (notify send ev det sname lvl d)"
proof -
  let ?d1 = "d\<lparr>d_outbox := d_outbox d @ [notification_of ev det sname lvl]\<rparr>"
  have 1: "confined sid d ?d1" by (simp add: confined_def events_ok_def others_def other_baselines_def)
  have "confined sid ?d1 (update_event (e_id ev) (\<lambda>e. e\<lparr>e_notified := b\<rparr>) ?d1)" for b
    using assms by (intro confined_update_event) (auto simp: events_ok_def)
  with 1 show ?thesis
    by (auto simp: notify_def Let_def split: option.splits intro: confined_trans)
qed

lemma confined_fire [confined_intros]:
  "confined sid d (fire send now det sid sname message value threshold key d)"
proof (cases "open_event d det sid key")
  case None
  let ?ev = "new_event d now det sid sname
      (if key \<noteq> [] then ''['' @ key @ ''] '' @ message else message) value threshold"
  let ?d1 = "d\<lparr>d_events := d_events d @ [?ev]\<rparr>"
  have "confined sid d ?d1"
    by (auto simp: confined_def events_ok_def others_def other_baselines_def new_event_def
        dest: next_event_id_fresh)
  moreover have "confined sid ?d1 (notify send ?ev det sname ALERT ?d1)"
  proof (rule confined_notify)
    fix e
    assume "e \<in> set (d_events ?d1)" and "e_id e = e_id ?ev"
    then show "e_server_id e = sid"
      by (auto simp: new_event_def dest!: next_event_id_fresh)
  qed
  ultimately have "confined sid d (notify send ?ev det sname ALERT ?d1)" by (rule confined_trans)
  then show ?thesis using None by (simp only: fire_def Let_def option.case)
qed (simp add: fire_def confined_refl)

lemma confined_recover [confined_intros]: "confined sid d (recover send now det sid key d)"
proof (cases "open_event d det sid key")
  case (Some ev)
  note ev = open_event_SomeD [OF Some]
  let ?d1 = "update_event (e_id ev) (\<lambda>e. e\<lparr>e_recovered_at := Some now\<rparr>) d"
  have same: "e_server_id e = sid" if "events_ok d" "e \<in> set (d_events d)" "e_id e = e_id ev" for e
  proof -
    have "e = ev" using that ev by (auto simp: events_ok_def distinct_map inj_on_def)
    with ev show ?thesis by (simp add: event_matches_def)
  qed
  have 1: "confined sid d ?d1" by (rule confined_update_event) (auto dest: same)
  have "confined sid ?d1 (notify send ev det (e_server_name ev) RECOVERY ?d1)"
    by (rule confined_notify) (auto simp: ids_update_event dest: same split: if_splits)
  with 1 Some show ?thesis by (auto simp: recover_def Let_def intro: confined_trans)
qed (simp add: recover_def confined_refl)

lemma confined_baseline [confined_intros]:
  "(\<And>b. b_server_id (f b) = b_server_id b) \<Longrightarrow> confined sid d (update_baseline sid u f d)"
  by (auto simp: confined_def update_baseline_def events_ok_def others_def other_baselines_def
      intro!: filter_map_same split: if_splits)

lemma confined_if [confined_intros]:
  "confined sid d a \<Longrightarrow> confined sid d b \<Longrightarrow> confined sid d (if c then a else b)"
  by simp

lemmas confined_after = confined_trans [OF _ confined_fire] confined_trans [OF _ confined_recover]

lemma confined_judges [confined_intros]:
  "confined (s_id s) d (judge_idle_gpu send now vp im s m rows g d)"
  "confined sid d (recover_busy_gpu send now vp sid g d)"
  "confined (s_id s) d (judge_missing_gpu send now s m b d)"
  "confined (s_id s) d (judge_gpu_ecc send now s m g d)"
  "confined (s_id s) d (judge_gpu_throttle send now s m g d)"
  "confined (s_id s) d (judge_kernel_event send now s ev d)"
  "confined (s_id s) d (judge_nvme send now s e d)"
  "confined (s_id s) d (judge_raid send now s a d)"
  unfolding judge_idle_gpu_def recover_busy_gpu_def judge_missing_gpu_def judge_gpu_ecc_def
    judge_gpu_throttle_def judge_kernel_event_def judge_nvme_def judge_raid_def Let_def
  by (auto intro!: confined_intros confined_after split: prod.splits option.splits)

lemma confined_ssh_fault [confined_intros]: "confined (s_id s) d (detect_ssh_fault send now s m d)"
proof -
  have "confined (s_id s) d (d\<lparr>d_events := map (\<lambda>e. if event_matches ''SSH_FAULT'' (s_id s) [] e
      then e\<lparr>e_recovered_at := Some now\<rparr> else e) (d_events d)\<rparr>)"
    by (auto simp: confined_def events_ok_def others_def other_baselines_def event_matches_def comp_def
        if_distrib intro!: filter_map_same cong: if_cong)
  then show ?thesis
    by (auto simp: detect_ssh_fault_def intro!: confined_intros split: option.splits)
qed

lemma confined_services [confined_intros]: "confined (s_id s) d (detect_services send now s h d)"
proof -
  have "confined (s_id s) d (update_event (e_id ev) (\<lambda>e. e\<lparr>e_message := msg\<rparr>) d)"
    if "open_event d det (s_id s) key = Some ev" for ev msg det key
  proof (rule confined_update_event)
    fix e
    assume "events_ok d" "e \<in> set (d_events d)" "e_id e = e_id ev"
    then have "e = ev" using open_event_SomeD [OF that] by (auto simp: events_ok_def distinct_map inj_on_def)
    then show "e_server_id e = s_id s" using open_event_SomeD [OF that] by (simp add: event_matches_def)
  qed simp_all
  then show ?thesis
    by (auto simp: detect_services_def Let_def intro!: confined_intros split: option.splits)
qed

lemma confined_detectors [confined_intros]:
  "confined (s_id s) d (detect_gpu_idle send now s m d)"
  "confined (s_id s) d (detect_gpu_missing send now s m bs d)"
  "confined (s_id s) d (detect_gpu_ecc send now s m d)"
  "confined (s_id s) d (detect_gpu_throttle send now s m d)"
  "confined (s_id s) d (detect_storage_bottleneck send now s m d)"
  "confined (s_id s) d (detect_kernel_events send now s since d)"
  "confined (s_id s) d (detect_nvme send now s h d)"
  "confined (s_id s) d (detect_raid send now s h d)"
  unfolding detect_gpu_idle_def detect_gpu_missing_def detect_gpu_ecc_def detect_gpu_throttle_def
    detect_storage_bottleneck_def detect_kernel_events_def detect_nvme_def detect_raid_def Let_def
  by (auto intro!: confined_intros intro: confined_trans [OF confined_fold confined_fold]
      split: option.splits prod.splits)

lemma run_ok_confined [confined_intros]: "confined (s_id s) d (run_ok_detectors send now s m d)"
proof -
  let ?d1 = "detect_gpu_idle send now s m d"
  let ?d2 = "detect_gpu_missing send now s m (server_baseline ?d1 (s_id s)) ?d1"
  let ?d3 = "detect_gpu_ecc send now s m ?d2"
  let ?d4 = "detect_gpu_throttle send now s m ?d3"
  have "confined (s_id s) d ?d1" "confined (s_id s) ?d1 ?d2" "confined (s_id s) ?d2 ?d3"
    "confined (s_id s) ?d3 ?d4"
    by (rule confined_detectors)+
  then have "confined (s_id s) d ?d4" by (blast intro: confined_trans)
  moreover have "confined (s_id s) ?d4 (detect_storage_bottleneck send now s m ?d4)"
    by (rule confined_detectors)
  ultimately show ?thesis
    by (auto simp: run_ok_detectors_def Let_def confined_refl intro: confined_trans)
qed

lemma events_ok_ttl [simp]: "events_ok (ttl_recover_point_events now d) = events_ok d"
  by (simp add: ttl_recover_point_events_def events_ok_def Let_def comp_def if_distrib cong: if_cong)

lemma ttl_frame:
  "d_metrics (ttl_recover_point_events now d) = d_metrics d"
  "d_settings (ttl_recover_point_events now d) = d_settings d"
  "d_servers (ttl_recover_point_events now d) = d_servers d"
  "other_baselines sid (ttl_recover_point_events now d) = other_baselines sid d"
  by (simp_all add: ttl_recover_point_events_def Let_def other_baselines_def)

lemma confined_passes: "confined (s_id s) d (detector_passes send now s m d)"
proof -
  let ?d2 = "detect_ssh_fault send now s m d"
  let ?d3 = "run_ok_detectors send now s m ?d2"
  let ?d4 = "detect_kernel_events send now s (now - minutes 10) ?d3"
  let ?h = "latest_by sh_collected_at (filter (\<lambda>h. sh_server_id h = s_id s) (d_slow ?d4))"
  let ?d5 = "detect_nvme send now s ?h ?d4"
  let ?d6 = "detect_raid send now s ?h ?d5"
  let ?d7 = "detect_services send now s ?h ?d6"
  have "confined (s_id s) d ?d2" "confined (s_id s) ?d2 ?d3" "confined (s_id s) ?d3 ?d4"
    "confined (s_id s) ?d4 ?d5" "confined (s_id s) ?d5 ?d6" "confined (s_id s) ?d6 ?d7"
    by (intro confined_intros)+
  then have "confined (s_id s) d ?d7" by (blast intro: confined_trans)
  then show ?thesis by (simp only: detector_passes_def Let_def)
qed

section \<open>Properties\<close>

text \<open>
  Isolation: running the detectors for one server leaves every event of every other server
  as it is, except that point events past their time to live are closed, and touches no other
  server's GPU baseline, no metric, no setting and no server row.
\<close>

theorem detectors_touch_one_server:
  assumes "events_ok d"
  shows "events_ok (run_detectors send now sid d) \<and>
    others sid (run_detectors send now sid d) \<in> {others sid d, others sid (ttl_recover_point_events now d)} \<and>
    other_baselines sid (run_detectors send now sid d) = other_baselines sid d \<and>
    d_metrics (run_detectors send now sid d) = d_metrics d \<and>
    d_settings (run_detectors send now sid d) = d_settings d \<and>
    d_servers (run_detectors send now sid d) = d_servers d"
proof (cases "run_detectors send now sid d = d")
  case False
  then obtain s where s: "find (\<lambda>s. s_id s = sid) (d_servers d) = Some s" and run: "\<not> in_maintenance s"
    by (cases "find (\<lambda>s. s_id s = sid) (d_servers d)") (auto simp: run_detectors_def split: if_splits)
  with False obtain m where
    m: "latest_by m_collected_at (filter (\<lambda>r. m_server_id r = sid) (d_metrics d)) = Some m"
    by (cases "latest_by m_collected_at (filter (\<lambda>r. m_server_id r = sid) (d_metrics d))")
       (auto simp: run_detectors_def)
  have "s_id s = sid" using s by (auto simp: find_Some_iff)
  then have "confined sid (ttl_recover_point_events now d) (run_detectors send now sid d)"
    using s run m confined_passes [of s] by (simp add: run_detectors_def)
  then show ?thesis using assms by (simp add: confined_def ttl_frame)
qed (use assms in simp)

text \<open>
  C11.  RAID alerts follow the array: after any history of polls of an array, the
  \<open>RAID_DEGRADED\<close> alert of that array is open exactly if the last poll reported it degraded,
  and there is at most one such alert.  Each poll carries its time and the array's state; the
  array keeps its name.
\<close>

theorem raid_alert_follows_array:
  assumes "events_ok d" and "single_event d ''RAID_DEGRADED'' (s_id s) name" and "polls \<noteq> []"
    and "\<forall>p \<in> set polls. str0 (md_name (snd p)) = name"
  shows "(is_open (fold (\<lambda>(t, a). judge_raid send t s a) polls d) ''RAID_DEGRADED'' (s_id s) name \<longleftrightarrow>
      array_degraded (snd (last polls))) \<and>
    single_event (fold (\<lambda>(t, a). judge_raid send t s a) polls d) ''RAID_DEGRADED'' (s_id s) name"
proof -
  define v where "v = (\<lambda>(t :: time, a). (array_degraded a, (t, s_name s, raid_message a, 0 :: rat, 0 :: rat)))"
  let ?step = "\<lambda>(p, c). if p then raised send ''RAID_DEGRADED'' (s_id s) name c
    else cleared send ''RAID_DEGRADED'' (s_id s) name c"
  have "fold (\<lambda>(t, a). judge_raid send t s a) ps d' = fold ?step (map v ps) d'"
    if "\<forall>p \<in> set ps. str0 (md_name (snd p)) = name" for ps d'
    using that by (induction ps arbitrary: d') (auto simp: v_def judge_raid_def)
  with assms(4) have eq: "fold (\<lambda>(t, a). judge_raid send t s a) polls d = fold ?step (map v polls) d" by blast
  have "fst (last (map v polls)) = array_degraded (snd (last polls))"
    using assms(3) by (simp add: last_map v_def split: prod.split)
  with log.verdicts [OF assms(1,2), of send "map v polls"] assms(3) show ?thesis
    by (simp add: eq)
qed

definition demo_server :: server where
  "demo_server = \<lparr>s_id = 1, s_name = ''gpu01'', s_host = ''10.0.0.2'', s_port = 22, s_auth_type = ''key'',
     s_username = ''gpumon'', s_password = [], s_private_key = [], s_passphrase = [], s_bmc_host = [],
     s_bmc_user = [], s_bmc_password = [], s_enabled = True, s_server_type = ''gpu'', s_tags = [],
     s_note = [], s_expected_gpu_count = 0, s_status = Some ''active'', s_status_reason = [],
     s_status_until = None, s_created_at = 0, s_updated_at = 0\<rparr>"

definition demo_array :: "int \<Rightarrow> md_array" where
  "demo_array active = \<lparr>md_name = Some ''md0'', md_level = ''raid1'', md_state = ''UU'',
     md_active_disks = Some active, md_total_disks = Some 2\<rparr>"

theorem raid_alert_follows_array_witness:
  "is_open (fold (\<lambda>(t, a). judge_raid (\<lambda>_. Some True) t demo_server a)
     [(0, demo_array 1), (60, demo_array 2), (120, demo_array 1)] empty_db) ''RAID_DEGRADED'' 1 ''md0''"
proof -
  let ?polls = "[(0 :: time, demo_array 1), (60, demo_array 2), (120, demo_array 1)]"
  have "str0 (md_name (demo_array n)) = ''md0''" for n by (simp add: demo_array_def str0_def)
  then have named: "\<forall>p \<in> set ?polls. str0 (md_name (snd p)) = ''md0''" by simp
  have empty: "events_ok empty_db" "single_event empty_db ''RAID_DEGRADED'' (s_id demo_server) ''md0''"
    by (simp_all add: events_ok_def single_event_def empty_db_def)
  have "is_open (fold (\<lambda>(t, a). judge_raid (\<lambda>_. Some True) t demo_server a) ?polls empty_db)
      ''RAID_DEGRADED'' (s_id demo_server) ''md0'' \<longleftrightarrow> array_degraded (snd (last ?polls))"
    by (rule conjunct1 [OF raid_alert_follows_array [OF empty _ named]]) simp
  moreover have "array_degraded (demo_array 1)" by (simp add: array_degraded_def demo_array_def)
  moreover have "s_id demo_server = 1" by (simp add: demo_server_def)
  ultimately show ?thesis by simp
qed

theorem detectors_touch_one_server_witness:
  "events_ok (run_detectors (\<lambda>_. None) 0 1 (empty_db\<lparr>d_servers := [demo_server]\<rparr>))"
  using detectors_touch_one_server [of "empty_db\<lparr>d_servers := [demo_server]\<rparr>" "\<lambda>_. None" 0 1]
  by (simp add: events_ok_def empty_db_def)

section \<open>Missing GPUs\<close>

lemma baselines_notify [simp]: "d_baselines (notify send ev det sname lvl d) = d_baselines d"
  by (simp add: notify_def update_event_def Let_def split: option.splits)

lemma baselines_fire [simp]:
  "d_baselines (fire send now det sid sname message value threshold key d) = d_baselines d"
  by (simp add: fire_def Let_def split: option.splits)

lemma baselines_recover [simp]: "d_baselines (recover send now det sid key d) = d_baselines d"
  by (simp add: recover_def update_event_def Let_def split: option.splits)

text \<open>The effect of the loop on one baseline row, in terms of the rows the loop visits.\<close>

definition missing_mark :: "time \<Rightarrow> int \<Rightarrow> string option set \<Rightarrow> gpu_baseline list \<Rightarrow> gpu_baseline \<Rightarrow> gpu_baseline" where
  "missing_mark now sid seen bs b =
     (if b_server_id b = sid \<and> b_gpu_uuid b \<in> b_gpu_uuid ` set bs then
        if Some (b_gpu_uuid b) \<in> seen then b\<lparr>b_missing_since := None, b_last_seen := now\<rparr>
        else if \<exists>b0 \<in> set bs. b_gpu_uuid b0 = b_gpu_uuid b \<and> b_missing_since b0 = None
        then b\<lparr>b_missing_since := Some now\<rparr> else b
      else b)"

lemma missing_mark_ids [simp]:
  "b_server_id (missing_mark now sid seen bs b) = b_server_id b"
  "b_gpu_uuid (missing_mark now sid seen bs b) = b_gpu_uuid b"
  by (simp_all add: missing_mark_def)

lemma missing_mark_single:
  "missing_mark now sid seen [b0] b =
     (if b_server_id b = sid \<and> b_gpu_uuid b = b_gpu_uuid b0 then
        if Some (b_gpu_uuid b0) \<in> seen then b\<lparr>b_missing_since := None, b_last_seen := now\<rparr>
        else if b_missing_since b0 = None then b\<lparr>b_missing_since := Some now\<rparr> else b
      else b)"
  by (simp add: missing_mark_def)

lemma missing_mark_other:
  "\<not> (b_server_id b = sid \<and> b_gpu_uuid b \<in> b_gpu_uuid ` set bs) \<Longrightarrow> missing_mark now sid seen bs b = b"
  by (simp only: missing_mark_def if_False)

lemma missing_mark_seen:
  "b_server_id b = sid \<Longrightarrow> b_gpu_uuid b \<in> b_gpu_uuid ` set bs \<Longrightarrow> Some (b_gpu_uuid b) \<in> seen \<Longrightarrow>
   missing_mark now sid seen bs b = b\<lparr>b_missing_since := None, b_last_seen := now\<rparr>"
  by (simp only: missing_mark_def if_True simp_thms)

lemma missing_mark_lost:
  "b_server_id b = sid \<Longrightarrow> b_gpu_uuid b \<in> b_gpu_uuid ` set bs \<Longrightarrow> Some (b_gpu_uuid b) \<notin> seen \<Longrightarrow>
   missing_mark now sid seen bs b =
     (if \<exists>b0 \<in> set bs. b_gpu_uuid b0 = b_gpu_uuid b \<and> b_missing_since b0 = None
      then b\<lparr>b_missing_since := Some now\<rparr> else b)"
  by (simp only: missing_mark_def if_True if_False simp_thms)

lemma missing_mark_Cons:
  "missing_mark now sid seen (b0 # bs) b = missing_mark now sid seen bs (missing_mark now sid seen [b0] b)"
proof (cases "b_server_id b = sid \<and> b_gpu_uuid b = b_gpu_uuid b0")
  case own: True
  let ?in = "b_gpu_uuid b \<in> b_gpu_uuid ` set bs"
  have listed: "b_gpu_uuid b \<in> b_gpu_uuid ` set (b0 # bs)" using own by simp
  show ?thesis
  proof (cases "Some (b_gpu_uuid b) \<in> seen")
    case True
    with own have "missing_mark now sid seen [b0] b = b\<lparr>b_missing_since := None, b_last_seen := now\<rparr>"
      by (simp add: missing_mark_single)
    then show ?thesis using own True listed
      by (cases ?in) (simp_all add: missing_mark_seen missing_mark_other)
  next
    case False
    then have one: "missing_mark now sid seen [b0] b =
        (if b_missing_since b0 = None then b\<lparr>b_missing_since := Some now\<rparr> else b)"
      using own by (simp add: missing_mark_single)
    show ?thesis
    proof (cases ?in)
      case True
      with own False listed show ?thesis unfolding one by (simp add: missing_mark_lost) auto
    next
      case out: False
      then have "\<forall>b1 \<in> set bs. b_gpu_uuid b1 \<noteq> b_gpu_uuid b" by (metis imageI)
      with own False listed out show ?thesis unfolding one
        by (cases "b_missing_since b0 = None") (auto simp: missing_mark_lost missing_mark_other)
    qed
  qed
next
  case False
  then have "missing_mark now sid seen [b0] b = b" by (simp only: missing_mark_single if_False)
  then show ?thesis
  proof (cases "b_server_id b = sid \<and> b_gpu_uuid b \<in> b_gpu_uuid ` set bs")
    case True
    with False have "b_gpu_uuid b \<noteq> b_gpu_uuid b0" by blast
    with \<open>missing_mark now sid seen [b0] b = b\<close> show ?thesis by (simp add: missing_mark_def)
  next
    case out: False
    with False \<open>missing_mark now sid seen [b0] b = b\<close> show ?thesis
      by (subst (1 2) missing_mark_other) auto
  qed
qed

lemma baselines_update_baseline:
  "d_baselines (update_baseline sid u f d) =
     map (\<lambda>b. if b_server_id b = sid \<and> b_gpu_uuid b = u then f b else b) (d_baselines d)"
  by (simp add: update_baseline_def)

lemma judge_missing_rows:
  "d_baselines (judge_missing_gpu send now s m b0 d) =
     map (missing_mark now (s_id s) (set (map uuid (m_gpus m))) [b0]) (d_baselines d)"
proof (cases "Some (b_gpu_uuid b0) \<in> set (map uuid (m_gpus m))")
  case True
  then show ?thesis
    unfolding judge_missing_gpu_def missing_mark_single
    by (simp only: if_True baselines_recover baselines_update_baseline)
next
  case False
  then show ?thesis
    unfolding judge_missing_gpu_def missing_mark_single
    by (cases "b_missing_since b0 = None")
      (simp_all only: if_False if_True baselines_fire baselines_update_baseline if_cancel list.map_ident simp_thms)
qed

lemma detect_missing_rows:
  "d_baselines (fold (judge_missing_gpu send now s m) bs d) =
     map (missing_mark now (s_id s) (set (map uuid (m_gpus m))) bs) (d_baselines d)"
proof (induction bs arbitrary: d)
  case Nil
  have "missing_mark now (s_id s) (set (map uuid (m_gpus m))) [] = id"
    by (auto simp: missing_mark_def)
  then show ?case by simp
next
  case (Cons b0 bs)
  then show ?case
    by (simp add: judge_missing_rows missing_mark_Cons [of _ _ _ b0 bs] comp_def)
qed

text \<open>
  C32.  After the missing-GPU detector ran on a sample, every baseline row of the server is marked
  missing exactly if its UUID is not among the sample's GPUs: no lost card goes unmarked, and
  no card that came back stays marked.
\<close>

theorem missing_mark_matches_sample:
  assumes "b \<in> set (d_baselines (detect_gpu_missing send now s m (server_baseline d (s_id s)) d))"
    and "b_server_id b = s_id s"
  shows "b_missing_since b = None \<longleftrightarrow> Some (b_gpu_uuid b) \<in> set (map uuid (m_gpus m))"
proof -
  let ?mark = "missing_mark now (s_id s) (set (map uuid (m_gpus m))) (server_baseline d (s_id s))"
  have "d_baselines (detect_gpu_missing send now s m (server_baseline d (s_id s)) d) = map ?mark (d_baselines d)"
    using detect_missing_rows [of send now s m "server_baseline d (s_id s)" d]
      detect_missing_rows [of send now s m "[]" d]
    by (auto simp: detect_gpu_missing_def)
  then obtain b0 where b0: "b0 \<in> set (d_baselines d)" "b = ?mark b0" using assms(1) by auto
  moreover have "b_server_id b0 = s_id s" using b0(2) assms(2) by (auto simp: missing_mark_def split: if_splits)
  ultimately show ?thesis by (force simp: missing_mark_def server_baseline_def)
qed

definition demo_baseline :: "string \<Rightarrow> time option \<Rightarrow> gpu_baseline" where
  "demo_baseline u missing = \<lparr>b_server_id = 1, b_gpu_uuid = u, b_name = [], b_serial = [], b_pci_bus_id = [],
     b_first_seen = 0, b_last_seen = 0, b_missing_since = missing, b_ecc_uncorrected_baseline = None\<rparr>"

definition demo_gpu :: "string \<Rightarrow> gpu" where
  "demo_gpu u = \<lparr>index = Some 0, uuid = Some u, gname = None, utilization = Some 0, util_memory = None,
     mem_used_mb = Some 40960, mem_total_mb = Some 81920, temperature = Some 40, power_draw = None,
     power_limit = None, fan_speed = None, clock_graphics = 0, clock_memory = 0, clock_graphics_max = 0,
     clock_memory_max = 0, encoder_sessions = 0, decoder_sessions = 0, pstate = [], compute_mode = [],
     serial = None, pci_bus_id = None, mem_temperature = 0, throttle_mask = [], throttle_reasons = [],
     ecc_mode = [], ecc_supported = False, ecc_corrected_volatile = None, ecc_uncorrected_volatile = None,
     ecc_corrected_total = None, ecc_uncorrected_total = None, remapped_pending = 0, remapped_failure = 0,
     retired_pending = 0, pcie_gen_current = 0, pcie_gen_max = 0, pcie_width_current = None,
     pcie_width_max = None, gpu_processes = []\<rparr>"

definition demo_metric :: "int \<Rightarrow> time \<Rightarrow> string \<Rightarrow> gpu list \<Rightarrow> metric" where
  "demo_metric i t st gpus = \<lparr>m_id = i, m_server_id = 1, m_collected_at = t,
     m_sample_interval_seconds = Some 60, m_hostname = ''gpu01'', m_os = [], m_kernel = [],
     m_uptime_seconds = 0, m_boot_id = [], m_cpu_model = [], m_cpu_count = 1, m_cpu_percent = 10,
     m_cpu_iowait = None, m_cpu_freq_avg = 0, m_cpu_temp_package = 0, m_cores = [], m_load1 = 0,
     m_load5 = 0, m_load15 = 0, m_mem_total_mb = 1000, m_mem_used_mb = 500, m_mem_available_mb = 500,
     m_mem_cached_mb = 0, m_swap_total_mb = 0, m_swap_used_mb = 0, m_disk_total_gb = 0,
     m_disk_used_gb = 0, m_disks = [], m_inodes = [], m_disk_io = [], m_net_rx_bytes = None,
     m_net_tx_bytes = None, m_net_ifaces = [], m_users = [], m_sock_estab = 0, m_sock_timewait = 0,
     m_fd_allocated = 0, m_fd_max = 0, m_gpu_count = int (length gpus), m_gpu_driver = [], m_gpus = gpus,
     m_processes = [], m_duration = 0, m_ssh_latency = 0, m_status = st, m_error_code = ''OK'',
     m_error = []\<rparr>"

theorem missing_mark_matches_sample_witness:
  "b_missing_since (missing_mark 500 1 {Some ''GPU-a''} [demo_baseline ''GPU-b'' None] (demo_baseline ''GPU-b'' None)) \<noteq> None"
proof -
  let ?d = "empty_db\<lparr>d_baselines := [demo_baseline ''GPU-b'' None]\<rparr>"
  let ?m = "demo_metric 1 500 ''ok'' [demo_gpu ''GPU-a'']"
  let ?b = "missing_mark 500 1 {Some ''GPU-a''} [demo_baseline ''GPU-b'' None] (demo_baseline ''GPU-b'' None)"
  have sid: "s_id demo_server = 1" by (simp add: demo_server_def)
  have base: "server_baseline ?d 1 = [demo_baseline ''GPU-b'' None]"
    by (simp add: server_baseline_def demo_baseline_def)
  have seen: "set (map uuid (m_gpus ?m)) = {Some ''GPU-a''}" by (simp add: demo_metric_def demo_gpu_def)
  have "?b \<in> set (d_baselines (detect_gpu_missing (\<lambda>_. None) 500 demo_server ?m (server_baseline ?d 1) ?d))"
    using detect_missing_rows [of "\<lambda>_. None" 500 demo_server ?m "server_baseline ?d 1" ?d]
    by (simp only: base seen sid detect_gpu_missing_def) simp
  moreover have "b_server_id ?b = s_id demo_server" by (simp add: missing_mark_def demo_baseline_def sid)
  ultimately have "b_missing_since ?b = None \<longleftrightarrow> Some (b_gpu_uuid ?b) \<in> set (map uuid (m_gpus ?m))"
    using missing_mark_matches_sample [of ?b "\<lambda>_. None" 500 demo_server ?m ?d] by (simp only: sid)
  then show ?thesis by (simp only: seen) (simp add: missing_mark_def demo_baseline_def)
qed

section \<open>Connectivity faults\<close>

definition previous_failed :: "db \<Rightarrow> int \<Rightarrow> metric \<Rightarrow> bool" where
  "previous_failed d sid m \<longleftrightarrow>
     (case latest_by m_collected_at (filter (\<lambda>r. m_server_id r = sid \<and> m_collected_at r < m_collected_at m)
        (d_metrics d)) of None \<Rightarrow> False | Some prev \<Rightarrow> m_status prev = ''error'')"

text \<open>
  An \<open>SSH_FAULT\<close> alert is never opened by a single failed poll: it is open after the
  detector ran on a failed poll only if it was open before or the poll before that one failed
  too; and a successful poll leaves none open for the server, whatever its key.
\<close>

theorem ssh_fault_needs_two_failures:
  "if m_status m = ''error''
   then is_open (detect_ssh_fault send now s m d) ''SSH_FAULT'' (s_id s) ''SSH'' \<longleftrightarrow>
          is_open d ''SSH_FAULT'' (s_id s) ''SSH'' \<or> previous_failed d (s_id s) m
   else \<not> is_open (detect_ssh_fault send now s m d) ''SSH_FAULT'' (s_id s) key"
proof (cases "m_status m = ''error''")
  case True
  then show ?thesis
    by (auto simp: detect_ssh_fault_def previous_failed_def fire_is_open fire_open_same split: option.splits)
next
  case False
  then show ?thesis
    by (auto simp: detect_ssh_fault_def is_open_iff event_matches_def)
qed

section \<open>The GPU baseline\<close>

definition baseline_keys :: "db \<Rightarrow> (int \<times> string) list" where
  "baseline_keys d = map (\<lambda>b. (b_server_id b, b_gpu_uuid b)) (d_baselines d)"

lemma baseline_keys_update:
  "(\<And>b. b_server_id (f b) = b_server_id b) \<Longrightarrow> (\<And>b. b_gpu_uuid (f b) = b_gpu_uuid b) \<Longrightarrow>
   baseline_keys (update_baseline sid u f d) = baseline_keys d"
  by (auto simp: baseline_keys_def update_baseline_def)

lemma baseline_row_None: "baseline_row d sid u = None \<longleftrightarrow> (sid, u) \<notin> set (baseline_keys d)"
  by (auto simp: baseline_row_def baseline_keys_def find_None_iff)

lemma register_gpu_keys:
  "baseline_keys (register_gpu now sid g d) =
     (if (sid, str0 (uuid g)) \<in> set (baseline_keys d) then baseline_keys d
      else baseline_keys d @ [(sid, str0 (uuid g))])"
proof (cases "baseline_row d sid (str0 (uuid g))")
  case None
  then have fresh: "(sid, str0 (uuid g)) \<notin> set (baseline_keys d)" by (simp add: baseline_row_None)
  show ?thesis unfolding register_gpu_def Let_def None using fresh
    by (simp add: baseline_keys_def)
next
  case (Some row)
  then have "(sid, str0 (uuid g)) \<in> set (baseline_keys d)"
    by (metis baseline_row_None option.distinct(1))
  with Some show ?thesis by (simp add: register_gpu_def Let_def baseline_keys_update)
qed

text \<open>
  Registering the GPUs of a poll keeps one baseline row per server and UUID, adds a row
  for every reported UUID that had none, and drops no row.
\<close>

theorem baseline_registers_each_gpu_once:
  assumes "distinct (baseline_keys d)"
  shows "distinct (baseline_keys (update_gpu_baseline now sid gpus d)) \<and>
    set (baseline_keys (update_gpu_baseline now sid gpus d)) =
      set (baseline_keys d) \<union> {(sid, u) | g u. g \<in> set gpus \<and> uuid g = Some u \<and> u \<noteq> []}"
proof -
  have "distinct (baseline_keys (fold (register_gpu now sid) gs d')) \<and>
      set (baseline_keys (fold (register_gpu now sid) gs d')) =
        set (baseline_keys d') \<union> {(sid, str0 (uuid g)) | g. g \<in> set gs}"
    if "distinct (baseline_keys d')" for gs d'
    using that
  proof (induction gs arbitrary: d')
    case (Cons g gs)
    then have "distinct (baseline_keys (register_gpu now sid g d'))" by (simp add: register_gpu_keys)
    from Cons.IH [OF this] show ?case by (auto simp: register_gpu_keys)
  qed simp
  from this [OF assms] show ?thesis
    by (force simp: update_gpu_baseline_def str0_def split: option.splits)
qed

theorem baseline_registers_each_gpu_once_witness:
  "set (baseline_keys (update_gpu_baseline 0 1 [demo_gpu ''GPU-a'', demo_gpu ''GPU-a''] empty_db)) = {(1, ''GPU-a'')}"
  using baseline_registers_each_gpu_once [of empty_db 0 1 "[demo_gpu ''GPU-a'', demo_gpu ''GPU-a'']"]
  by (auto simp: baseline_keys_def empty_db_def demo_gpu_def)

end
