(* ===== verification/Risk.thy ===== *)
theory Risk
  imports Detectors
begin

text \<open>
  GPU risk scores and the health tree, the second half of \<open>backend/app/health.py\<close>:
  \<open>gpu_risk_scores\<close> tallies 24 hours of samples and Xid events per server and GPU and grades
  each GPU from 0 to 100; \<open>health_tree\<close> condenses the latest sample, the grades and the kernel
  events of one server into categories with an overall status.
\<close>

section \<open>Risk scores\<close>

record tally =
  t_uuid :: string
  t_index :: "int option"
  t_name :: string
  t_max_temp :: rat
  t_thermal :: int
  t_samples :: int
  t_ecc_uncorrected :: int
  t_ecc_corrected :: int
  t_xids :: int
  t_power_cap :: int
  t_pcie_degraded :: int

definition new_tally :: "string \<Rightarrow> gpu \<Rightarrow> tally" where
  "new_tally u g = \<lparr>t_uuid = u, t_index = index g, t_name = str0 (gname g), t_max_temp = 0,
     t_thermal = 0, t_samples = 0, t_ecc_uncorrected = 0, t_ecc_corrected = 0, t_xids = 0,
     t_power_cap = 0, t_pcie_degraded = 0\<rparr>"

definition pcie_degraded :: "gpu \<Rightarrow> bool" where
  "pcie_degraded g \<longleftrightarrow> num0 (pcie_width_max g) \<noteq> 0 \<and> num0 (pcie_width_current g) \<noteq> 0
     \<and> num0 (pcie_width_current g) < num0 (pcie_width_max g)"

definition add_sample :: "gpu \<Rightarrow> tally \<Rightarrow> tally" where
  "add_sample g t = t\<lparr>
     t_samples := t_samples t + 1,
     t_max_temp := max (t_max_temp t) (num0 (temperature g)),
     t_thermal := t_thermal t + (if \<exists>r \<in> set (throttle_reasons g). is_thermal r then 1 else 0),
     t_power_cap := t_power_cap t + (if ''SW_POWER_CAP'' \<in> set (throttle_reasons g) then 1 else 0),
     t_ecc_uncorrected := max (t_ecc_uncorrected t) (num0 (ecc_uncorrected_volatile g)),
     t_ecc_corrected := max (t_ecc_corrected t) (num0 (ecc_corrected_volatile g)),
     t_pcie_degraded := t_pcie_degraded t + (if pcie_degraded g then 1 else 0)\<rparr>"

definition tally_gpu :: "gpu \<Rightarrow> (string, tally) dict \<Rightarrow> (string, tally) dict" where
  "tally_gpu g uuids =
     (case uuid g of
        None \<Rightarrow> uuids
      | Some u \<Rightarrow>
          if u = [] then uuids
          else let d1 = setdefault u (new_tally u g) uuids
               in case map_of d1 u of
                    None \<Rightarrow> uuids
                  | Some t \<Rightarrow> AList.update u (add_sample g t) d1)"

type_synonym tallies = "(int, (string, tally) dict) dict"

definition tally_row :: "metric \<Rightarrow> tallies \<Rightarrow> tallies" where
  "tally_row r by_server =
     (case map_of by_server (m_server_id r) of
        None \<Rightarrow> by_server
      | Some uuids \<Rightarrow> AList.update (m_server_id r) (fold tally_gpu (m_gpus r) uuids) by_server)"

definition tally_xid :: "kernel_event_row \<Rightarrow> tallies \<Rightarrow> tallies" where
  "tally_xid k by_server =
     (case map_of by_server (k_server_id k) of
        None \<Rightarrow> by_server
      | Some uuids \<Rightarrow>
          (case map_of uuids (k_gpu_uuid k) of
             None \<Rightarrow> by_server
           | Some t \<Rightarrow> AList.update (k_server_id k)
                         (AList.update (k_gpu_uuid k) (t\<lparr>t_xids := t_xids t + 1\<rparr>) uuids) by_server))"

text \<open>The grade of one GPU.\<close>

definition score :: "tally \<Rightarrow> int" where
  "score t =
     min 40 (t_xids t * 20)
     + min 25 (t_ecc_uncorrected t * 5)
     + min 15 (if t_ecc_corrected t > 100 then 10 else if t_ecc_corrected t > 0 then 5 else 0)
     + (if t_thermal t > 0 then min 15 (5 + t_thermal t) else 0)
     + (if t_max_temp t \<ge> 85 then 5 else 0)
     + (if t_pcie_degraded t > max 1 (t_samples t div 10) then 5 else 0)"

record graded =
  g_tally :: tally
  g_risk :: int
  g_label :: string

definition risk_label :: "int \<Rightarrow> string" where
  "risk_label risk =
     (if risk \<ge> 60 then utf8 [233, 171, 152, 229, 141, 177]
      else if risk \<ge> 30 then utf8 [229, 133, 179, 230, 179, 168]
      else utf8 [229, 129, 165, 229, 186, 183])"

definition grade :: "tally \<Rightarrow> graded" where
  "grade t = (let risk = min 100 (score t) in \<lparr>g_tally = t, g_risk = risk, g_label = risk_label risk\<rparr>)"

definition rank_gpus :: "(string, tally) dict \<Rightarrow> graded list" where
  "rank_gpus uuids = order_by (\<lambda>g. - g_risk g) (map (\<lambda>p. grade (snd p)) uuids)"

text \<open>\<open>list(dict.fromkeys(xs))\<close>.\<close>

definition fromkeys :: "'a list \<Rightarrow> 'a list" where
  "fromkeys xs = keys (fold (\<lambda>x. setdefault x ()) xs [])"

definition risk_rows :: "db \<Rightarrow> time \<Rightarrow> int list \<Rightarrow> metric list" where
  "risk_rows d since ids =
     order_by m_server_id (order_by m_collected_at
       (filter (\<lambda>r. m_server_id r \<in> set ids \<and> m_collected_at r \<ge> since \<and> m_status r = ''ok'') (d_metrics d)))"

definition risk_xids :: "db \<Rightarrow> time \<Rightarrow> int list \<Rightarrow> kernel_event_row list" where
  "risk_xids d since ids =
     filter (\<lambda>k. k_server_id k \<in> set ids \<and> k_event_type k = ''GPU_XID'' \<and> k_collected_at k \<ge> since) (d_kernel d)"

definition tally_all :: "db \<Rightarrow> time \<Rightarrow> int list \<Rightarrow> tallies" where
  "tally_all d since ids =
     fold tally_xid (risk_xids d since ids)
       (fold tally_row (risk_rows d since ids) (map (\<lambda>i. (i, [])) ids))"

definition gpu_risk_scores :: "db \<Rightarrow> time \<Rightarrow> int list \<Rightarrow> (int, graded list) dict" where
  "gpu_risk_scores d now server_ids =
     (let ordered_ids = fromkeys server_ids; since = now - hours 24
      in if ordered_ids = [] then []
         else map (\<lambda>(i, uuids). (i, rank_gpus uuids)) (tally_all d since ordered_ids))"

definition gpu_risk_score :: "db \<Rightarrow> time \<Rightarrow> int \<Rightarrow> graded list" where
  "gpu_risk_score d now sid = 
     (case map_of (gpu_risk_scores d now [sid]) sid of Some graded \<Rightarrow> graded | None \<Rightarrow> [])"

section \<open>The health tree\<close>

record tree_node =
  tn_name :: string
  tn_status :: string
  tn_detail :: string

record category = tree_node +
  children :: "tree_node list"

record tree_state =
  categories :: "category list"
  overall :: string

definition cat :: "string \<Rightarrow> string \<Rightarrow> string \<Rightarrow> tree_node list \<Rightarrow> tree_state \<Rightarrow> tree_state" where
  "cat name st detail kids t =
     \<lparr>categories = categories t @ [\<lparr>tn_name = name, tn_status = st, tn_detail = detail, children = kids\<rparr>],
      overall = (if st = ''critical'' then ''critical''
                 else if st = ''warning'' \<and> overall t \<noteq> ''critical'' then ''warning''
                 else overall t)\<rparr>"

definition show_num :: "rat \<Rightarrow> string" where
  "show_num q = (if q = 0 then ''0'' else show_float q)"

definition connectivity :: "metric \<Rightarrow> tree_state \<Rightarrow> tree_state" where
  "connectivity m =
     (if m_status m = ''error''
      then cat (utf8 [232, 191, 158, 233, 128, 154, 230, 128, 167]) ''critical'' (m_error_code m @ '': '' @ take 80 (m_error m)) []
      else cat (utf8 [232, 191, 158, 233, 128, 154, 230, 128, 167]) ''ok''
             (''SSH '' @ show_float (m_ssh_latency m) @ ''s '' @ utf8 [194, 183] @ '' '' @ utf8 [233, 135, 135, 233, 155, 134] @ '' '' @ show_float (m_duration m) @ ''s'') [])"

definition worst_of :: "rat option list \<Rightarrow> rat" where
  "worst_of vals = (if vals = [] then 0 else Max (set (map num0 vals)))"

definition err_ifaces :: "metric \<Rightarrow> net_rate list" where
  "err_ifaces m = filter (\<lambda>i. num0 (rx_err_rate i) + num0 (tx_err_rate i) > 0) (m_net_ifaces m)"

definition ok_or_warning :: "bool \<Rightarrow> string" where
  "ok_or_warning fine = (if fine then ''ok'' else ''warning'')"

definition resources :: "db \<Rightarrow> metric \<Rightarrow> tree_state \<Rightarrow> tree_state" where
  "resources d m t =
     (let cpu_thr = get_setting d ''health_cpu_pct'' 90;
          mem_thr = get_setting d ''health_mem_pct'' 92;
          disk_thr = get_setting d ''health_disk_pct'' 90;
          mem_pct = (if m_mem_total_mb m \<noteq> 0 then m_mem_used_mb m / m_mem_total_mb m * 100 else 0);
          worst_d = worst_of (map percent (m_disks m));
          worst_i = worst_of (map inodes_percent (m_inodes m));
          errs = err_ifaces m;
          t1 = cat ''CPU'' (ok_or_warning (m_cpu_percent m < cpu_thr))
                 (show_float (py_round_to 1 (m_cpu_percent m)) @ ''% '' @ utf8 [194, 183] @ '' iowait '' @
                  (if num0 (m_cpu_iowait m) = 0 then ''0'' else show_float (py_round_to 1 (num0 (m_cpu_iowait m)))) @ ''%'') [] t;
          t2 = cat (utf8 [229, 134, 133, 229, 173, 152]) (ok_or_warning (mem_pct < mem_thr)) ((if m_mem_total_mb m = 0 then ''0'' else show_float (py_round_to 1 mem_pct)) @ ''%'') [] t1;
          t3 = cat (utf8 [230, 150, 135, 228, 187, 182, 231, 179, 187, 231, 187, 159]) (ok_or_warning (worst_d < disk_thr))
                 (utf8 [231, 169, 186, 233, 151, 180] @ '' '' @ (if m_disks m = [] then ''0'' else show_float (py_round_to 1 worst_d)) @ ''%'' @
                  (if worst_i \<noteq> 0 then '' '' @ utf8 [194, 183] @ '' inode '' @ show_float (py_round_to 1 worst_i) @ ''%'' else [])) [] t2
      in cat (utf8 [231, 189, 145, 231, 187, 156]) (ok_or_warning (errs = []))
           (name_or (join '', '' (map (\<lambda>i. iface i @ '' err'') (take 3 errs))) (utf8 [230, 173, 163, 229, 184, 184])) [] t3)"

definition gpu_bits :: "graded \<Rightarrow> string list" where
  "gpu_bits r =
     (if t_xids (g_tally r) \<noteq> 0 then [''Xid'' @ utf8 [195, 151] @ show_int (t_xids (g_tally r))] else []) @
     (if t_ecc_uncorrected (g_tally r) \<noteq> 0 then [''ECC-Unc '' @ show_int (t_ecc_uncorrected (g_tally r))] else []) @
     (if t_thermal (g_tally r) \<noteq> 0 then [utf8 [231, 131, 173, 233, 153, 141, 233, 162, 145]] else [])"

definition gpu_node :: "graded \<Rightarrow> tree_node" where
  "gpu_node r =
     \<lparr>tn_name = ''GPU'' @ show_opt_int (t_index (g_tally r)),
      tn_status = (if g_risk r \<ge> 60 then ''critical'' else if g_risk r \<ge> 30 then ''warning'' else ''ok''),
      tn_detail = t_name (g_tally r) @ '' '' @ utf8 [194, 183] @ '' '' @ utf8 [230, 156, 128, 233, 171, 152] @ '' '' @ show_num (t_max_temp (g_tally r)) @ utf8 [194, 176] @ ''C'' @
        (if gpu_bits r \<noteq> [] then '' '' @ utf8 [194, 183] @ '' '' @ join ''/'' (gpu_bits r) else [])\<rparr>"

definition worst_child :: "tree_node list \<Rightarrow> string" where
  "worst_child nodes =
     fold (\<lambda>c worst. if tn_status c = ''critical'' then ''critical''
                    else if tn_status c = ''warning'' \<and> worst \<noteq> ''critical'' then ''warning''
                    else worst) nodes ''ok''"

definition gpu_category :: "graded list \<Rightarrow> tree_state \<Rightarrow> tree_state" where
  "gpu_category risks t =
     (let gpu_cats = map gpu_node risks
      in if gpu_cats = [] then t
         else cat ''GPU'' (worst_child gpu_cats) (show_nat (length gpu_cats) @ '' '' @ utf8 [229, 141, 161]) gpu_cats t)"

definition kernel_category :: "db \<Rightarrow> time \<Rightarrow> int \<Rightarrow> tree_state \<Rightarrow> tree_state" where
  "kernel_category d now sid =
     (let recent = filter (\<lambda>k. k_server_id k = sid \<and> k_collected_at k \<ge> now - hours 24) (d_kernel d);
          kev = length recent;
          crit = length (filter (\<lambda>k. k_severity k = ''critical'') recent)
      in if kev \<noteq> 0
         then cat (utf8 [229, 134, 133, 230, 160, 184, 228, 186, 139, 228, 187, 182]) (if crit \<noteq> 0 then ''critical'' else ''warning'')
                (''24h '' @ utf8 [229, 134, 133] @ '' '' @ show_nat kev @ '' '' @ utf8 [230, 157, 161, 239, 188, 136] @ show_nat crit @ '' '' @ utf8 [230, 157, 161, 228, 184, 165, 233, 135, 141, 239, 188, 137]) []
         else cat (utf8 [229, 134, 133, 230, 160, 184, 228, 186, 139, 228, 187, 182]) ''ok'' (''24h '' @ utf8 [230, 151, 160, 229, 188, 130, 229, 184, 184]) [])"

datatype tree =
    NoServer
  | NoSample string
  | Tree string time tree_state

definition health_tree :: "db \<Rightarrow> time \<Rightarrow> int \<Rightarrow> graded list option \<Rightarrow> tree" where
  "health_tree d now sid gpu_risks =
     (case find (\<lambda>s. s_id s = sid) (d_servers d) of
        None \<Rightarrow> NoServer
      | Some s \<Rightarrow>
          (case latest_by m_collected_at (filter (\<lambda>r. m_server_id r = sid) (d_metrics d)) of
             None \<Rightarrow> NoSample (s_name s)
           | Some m \<Rightarrow>
               let t1 = connectivity m \<lparr>categories = [], overall = ''ok''\<rparr>;
                   t2 = (if m_status m = ''ok'' then resources d m t1 else t1);
                   risks = (case gpu_risks of
                              Some given \<Rightarrow> given
                            | None \<Rightarrow> if s_server_type s \<noteq> ''cpu'' then gpu_risk_score d now sid else [])
               in Tree (s_name s) (m_collected_at m) (kernel_category d now sid (gpu_category risks t2))))"

section \<open>Grades are bounded and ordered\<close>

definition tally_ok :: "tally \<Rightarrow> bool" where
  "tally_ok t \<longleftrightarrow> 0 \<le> t_xids t \<and> 0 \<le> t_ecc_uncorrected t \<and> 0 \<le> t_thermal t"

definition uuids_ok :: "(string, tally) dict \<Rightarrow> bool" where
  "uuids_ok us \<longleftrightarrow> (\<forall>u t. (u, t) \<in> set us \<longrightarrow> tally_ok t)"

definition tallies_ok :: "tallies \<Rightarrow> bool" where
  "tallies_ok b \<longleftrightarrow> (\<forall>i us. (i, us) \<in> set b \<longrightarrow> uuids_ok us)"

lemma tally_ok_new: "tally_ok (new_tally u g)"
  by (simp add: tally_ok_def new_tally_def)

lemma tally_ok_sample: "tally_ok t \<Longrightarrow> tally_ok (add_sample g t)"
  by (simp add: tally_ok_def add_sample_def max_def)

lemma uuids_okD: "uuids_ok us \<Longrightarrow> map_of us u = Some t \<Longrightarrow> tally_ok t"
  by (auto simp: uuids_ok_def dest: map_of_SomeD)

lemma uuids_ok_update: "uuids_ok us \<Longrightarrow> tally_ok t \<Longrightarrow> uuids_ok (AList.update u t us)"
  using set_dict_update [of u t us] by (auto simp: uuids_ok_def)

lemma uuids_ok_setdefault: "uuids_ok us \<Longrightarrow> tally_ok t \<Longrightarrow> uuids_ok (setdefault u t us)"
  by (auto simp: uuids_ok_def setdefault_def split: option.splits)

lemma tallies_okD: "tallies_ok b \<Longrightarrow> map_of b i = Some us \<Longrightarrow> uuids_ok us"
  by (auto simp: tallies_ok_def dest: map_of_SomeD)

lemma tallies_ok_update: "tallies_ok b \<Longrightarrow> uuids_ok us \<Longrightarrow> tallies_ok (AList.update i us b)"
  using set_dict_update [of i us b] by (auto simp: tallies_ok_def)

lemma uuids_ok_gpu: "uuids_ok us \<Longrightarrow> uuids_ok (tally_gpu g us)"
  using uuids_ok_setdefault [OF _ tally_ok_new [of _ g]]
  by (auto simp: tally_gpu_def Let_def split: option.splits
      intro!: uuids_ok_update tally_ok_sample dest: uuids_okD [rotated])

lemma uuids_ok_gpus: "uuids_ok us \<Longrightarrow> uuids_ok (fold tally_gpu gs us)"
  by (induction gs arbitrary: us) (simp_all add: uuids_ok_gpu del: fold_simps(1))

lemma tallies_ok_row: "tallies_ok b \<Longrightarrow> tallies_ok (tally_row r b)"
  by (auto simp: tally_row_def split: option.splits intro: tallies_ok_update uuids_ok_gpus tallies_okD)

lemma tallies_ok_xid: "tallies_ok b \<Longrightarrow> tallies_ok (tally_xid k b)"
  by (auto simp: tally_xid_def split: option.splits dest!: tallies_okD
      intro!: tallies_ok_update uuids_ok_update)
    (auto simp: tally_ok_def dest!: uuids_okD)

lemma tallies_ok_all: "tallies_ok (tally_all d since ids)"
proof -
  have rows: "tallies_ok b \<Longrightarrow> tallies_ok (fold tally_row rs b)" for rs b
    by (induction rs arbitrary: b) (simp_all add: tallies_ok_row)
  have xids: "tallies_ok b \<Longrightarrow> tallies_ok (fold tally_xid ks b)" for ks b
    by (induction ks arbitrary: b) (simp_all add: tallies_ok_xid)
  have "tallies_ok (map (\<lambda>i. (i, [])) ids)" by (auto simp: tallies_ok_def uuids_ok_def)
  then show ?thesis unfolding tally_all_def by (intro rows xids)
qed

lemma risk_label_eq:
  "risk_label r = (if r < 30 then utf8 [229, 129, 165, 229, 186, 183]
                     else if r < 60 then utf8 [229, 133, 179, 230, 179, 168] else utf8 [233, 171, 152, 229, 141, 177])"
  by (simp add: risk_label_def)

lemma score_range: "tally_ok t \<Longrightarrow> 0 \<le> score t \<and> score t \<le> 100"
  by (auto simp: score_def tally_ok_def min_def max_def)

text \<open>
  Every risk score lies between 0 and 100, is exactly the sum of its parts (the cap at 100
  is never needed), carries the label of its range, and each server's GPUs are listed from the
  highest risk down.
\<close>

theorem risk_scores_graded:
  "list_all (\<lambda>(sid, gs). sorted (map (\<lambda>g. - g_risk g) gs) \<and>
     list_all (\<lambda>g. g_risk g = score (g_tally g) \<and> g_risk g \<in> {0..100} \<and>
        g_label g = (if g_risk g < 30 then utf8 [229, 129, 165, 229, 186, 183]
                     else if g_risk g < 60 then utf8 [229, 133, 179, 230, 179, 168] else utf8 [233, 171, 152, 229, 141, 177])) gs) (gpu_risk_scores d now ids)"
proof -
  have graded: "g_risk g = score (g_tally g) \<and> g_risk g \<in> {0..100} \<and> g_label g = risk_label (g_risk g)"
    if us: "uuids_ok us" and g: "g \<in> set (rank_gpus us)" for us g
  proof -
    obtain u t where "(u, t) \<in> set us" "g = grade t" using g by (auto simp: rank_gpus_def order_by_def)
    then show ?thesis using us score_range [of t] by (auto simp: uuids_ok_def grade_def Let_def)
  qed
  have ordered: "sorted (map (\<lambda>g. - g_risk g) (rank_gpus us))" for us
    by (simp add: rank_gpus_def order_by_def)
  have wf: "uuids_ok us" if "(i, us) \<in> set (tally_all d (now - hours 24) (fromkeys ids))" for i us
    using that tallies_ok_all unfolding tallies_ok_def by blast
  have "sorted (map (\<lambda>g. - g_risk g) gs) \<and>
      (\<forall>g \<in> set gs. g_risk g = score (g_tally g) \<and> g_risk g \<in> {0..100} \<and> g_label g = risk_label (g_risk g))"
    if mem: "(i, gs) \<in> set (gpu_risk_scores d now ids)" for i gs
  proof -
    obtain us where "(i, us) \<in> set (tally_all d (now - hours 24) (fromkeys ids))" "gs = rank_gpus us"
      using mem unfolding gpu_risk_scores_def Let_def by (auto split: if_splits)
    moreover from this have "uuids_ok us" using wf by blast
    ultimately show ?thesis using graded ordered by blast
  qed
  then show ?thesis unfolding risk_label_eq list_all_iff by blast
qed

section \<open>The batch query\<close>

lemma fromkeys_set: "set (fromkeys xs) = set xs"
proof -
  have "set (keys (fold (\<lambda>x. setdefault x ()) xs acc)) = set xs \<union> set (keys acc)" for acc :: "('a, unit) dict"
    by (induction xs arbitrary: acc)
      (auto simp: setdefault_def map_of_eq_None_iff split: option.splits dest!: map_of_SomeD intro: rev_image_eqI)
  from this [of "[]"] show ?thesis by (simp add: fromkeys_def)
qed

lemma fromkeys_distinct: "distinct (fromkeys xs)"
proof -
  have "distinct (keys acc) \<Longrightarrow> distinct (keys (fold (\<lambda>x. setdefault x ()) xs acc))" for acc :: "('a, unit) dict"
  proof (induction xs arbitrary: acc)
    case (Cons x xs)
    show ?case using Cons.IH [of "setdefault x () acc"] dict_wf_setdefault [of acc x "()"] Cons.prems
      by (simp add: dict_wf_def)
  qed simp
  from this [of "[]"] show ?thesis by (simp add: fromkeys_def)
qed

definition bump_xid :: "kernel_event_row \<Rightarrow> (string, tally) dict \<Rightarrow> (string, tally) dict" where
  "bump_xid k uuids =
     (case map_of uuids (k_gpu_uuid k) of
        None \<Rightarrow> uuids
      | Some t \<Rightarrow> AList.update (k_gpu_uuid k) (t\<lparr>t_xids := t_xids t + 1\<rparr>) uuids)"

lemma tally_row_at:
  "map_of (tally_row r b) i =
     (if m_server_id r = i then map_option (fold tally_gpu (m_gpus r)) (map_of b i) else map_of b i)"
  by (auto simp: tally_row_def split: option.splits)

lemma tally_rows_at:
  "map_of (fold tally_row rs b) i =
     map_option (fold (\<lambda>r. fold tally_gpu (m_gpus r)) (filter (\<lambda>r. m_server_id r = i) rs)) (map_of b i)"
  by (induction rs arbitrary: b)
    (auto simp: tally_row_at option.map_comp comp_def option.map_id id_def [symmetric])

lemma tally_xid_at:
  "map_of (tally_xid k b) i = (if k_server_id k = i then map_option (bump_xid k) (map_of b i) else map_of b i)"
  by (auto simp: tally_xid_def bump_xid_def split: option.splits)

lemma tally_xids_at:
  "map_of (fold tally_xid ks b) i =
     map_option (fold bump_xid (filter (\<lambda>k. k_server_id k = i) ks)) (map_of b i)"
  by (induction ks arbitrary: b)
    (auto simp: tally_xid_at option.map_comp comp_def option.map_id id_def [symmetric])

lemma order_by_const: "\<forall>x \<in> set xs. f x = c \<Longrightarrow> order_by f xs = xs"
proof -
  assume "\<forall>x \<in> set xs. f x = c"
  then have "sorted (map f xs)" by (induction xs) auto
  then show ?thesis by (simp add: order_by_def sort_key_id_if_sorted)
qed

lemma own_rows:
  "i \<in> set ids \<Longrightarrow> filter (\<lambda>r. m_server_id r = i) (risk_rows d since ids) = risk_rows d since [i]"
proof -
  assume i: "i \<in> set ids"
  let ?rows = "order_by m_collected_at
    (filter (\<lambda>r. m_server_id r = i \<and> since \<le> m_collected_at r \<and> m_status r = ''ok'') (d_metrics d))"
  have "filter (\<lambda>r. m_server_id r \<in> set ids \<and> since \<le> m_collected_at r \<and> m_status r = ''ok'' \<and> m_server_id r = i) ms
      = filter (\<lambda>r. m_server_id r = i \<and> since \<le> m_collected_at r \<and> m_status r = ''ok'') ms" for ms :: "metric list"
    using i by (auto intro: filter_cong)
  then have "filter (\<lambda>r. m_server_id r = i) (risk_rows d since ids) = order_by m_server_id ?rows"
    by (simp add: risk_rows_def order_by_def filter_sort)
  also have "\<dots> = risk_rows d since [i]" by (simp add: risk_rows_def)
  finally show ?thesis .
qed

lemma own_xids:
  "i \<in> set ids \<Longrightarrow> filter (\<lambda>k. k_server_id k = i) (risk_xids d since ids) = risk_xids d since [i]"
  by (auto simp: risk_xids_def intro: filter_cong)

lemma map_of_empties: "map_of (map (\<lambda>i. (i, [])) js) i = (if i \<in> set js then Some [] else None)"
  by (induction js) auto

lemma tally_at:
  "map_of (tally_all d since js) i =
      (if i \<in> set js then Some (fold bump_xid (risk_xids d since [i])
         (fold (\<lambda>r. fold tally_gpu (m_gpus r)) (risk_rows d since [i]) [])) else None)"
  by (auto simp: tally_all_def tally_xids_at tally_rows_at own_rows own_xids map_of_empties)

lemma risk_scores_at:
  "map_of (gpu_risk_scores d now js) i =
      (if i \<in> set js then map_option rank_gpus (map_of (tally_all d (now - hours 24) (fromkeys js)) i) else None)"
proof -
  have nonempty: "i \<in> set js \<Longrightarrow> fromkeys js \<noteq> []" for js
    using fromkeys_set [of js] by force
  show ?thesis
    using nonempty [of js] tally_at [of d "now - hours 24" "fromkeys js"]
    by (auto simp: gpu_risk_scores_def Let_def map_of_map fromkeys_set)
qed

lemma gpu_risk_score_rank:
  "gpu_risk_score d now i = rank_gpus (fold bump_xid (risk_xids d (now - hours 24) [i])
     (fold (\<lambda>r. fold tally_gpu (m_gpus r)) (risk_rows d (now - hours 24) [i]) []))"
  by (simp add: gpu_risk_score_def risk_scores_at tally_at fromkeys_set)

text \<open>
  The batched score computation is equivalent to scoring each server alone: whatever other
  servers (or repetitions) the batch contains, a server gets the same graded GPUs.
\<close>

theorem batch_risk_equals_single:
  "map_of (gpu_risk_scores d now ids) i = (if i \<in> set ids then Some (gpu_risk_score d now i) else None)"
  by (simp add: risk_scores_at gpu_risk_score_rank tally_at fromkeys_set)

section \<open>The overall status\<close>

definition severity_of :: "string list \<Rightarrow> string" where
  "severity_of sts =
     (if ''critical'' \<in> set sts then ''critical'' else if ''warning'' \<in> set sts then ''warning'' else ''ok'')"

definition tree_ok :: "tree_state \<Rightarrow> bool" where
  "tree_ok t \<longleftrightarrow> overall t = severity_of (map tn_status (categories t)) \<and>
     (\<forall>c \<in> set (categories t). children c \<noteq> [] \<longrightarrow> tn_status c = severity_of (map tn_status (children c)))"

lemma severity_of_snoc:
  "severity_of (sts @ [st]) =
     (if st = ''critical'' then ''critical''
      else if st = ''warning'' \<and> severity_of sts \<noteq> ''critical'' then ''warning'' else severity_of sts)"
  by (simp add: severity_of_def)

lemma worst_child_severity: "worst_child nodes = severity_of (map tn_status nodes)"
proof -
  have "fold (\<lambda>c worst. if tn_status c = ''critical'' then ''critical''
        else if tn_status c = ''warning'' \<and> worst \<noteq> ''critical'' then ''warning'' else worst) nodes (severity_of sts)
      = severity_of (sts @ map tn_status nodes)" for sts
  proof (induction nodes arbitrary: sts)
    case (Cons c nodes)
    from Cons.IH [of "sts @ [tn_status c]"] show ?case by (simp add: severity_of_snoc)
  qed simp
  from this [of "[]"] show ?thesis by (simp add: worst_child_def severity_of_def)
qed

lemma tree_ok_cat:
  assumes "tree_ok t" and "kids = [] \<or> st = severity_of (map tn_status kids)"
  shows "tree_ok (cat name st detail kids t)"
proof -
  have "overall (cat name st detail kids t) = severity_of (map tn_status (categories (cat name st detail kids t)))"
    using assms(1) by (simp add: tree_ok_def cat_def severity_of_snoc)
  moreover have "categories (cat name st detail kids t) =
      categories t @ [\<lparr>tn_name = name, tn_status = st, tn_detail = detail, children = kids\<rparr>]"
    by (simp add: cat_def)
  moreover have "kids \<noteq> [] \<longrightarrow> st = severity_of (map tn_status kids)" using assms(2) by blast
  ultimately show ?thesis using assms(1) unfolding tree_ok_def by (simp add: ball_Un)
qed

lemma tree_ok_connectivity: "tree_ok t \<Longrightarrow> tree_ok (connectivity m t)"
  by (simp add: connectivity_def tree_ok_cat)

lemma tree_ok_resources: "tree_ok t \<Longrightarrow> tree_ok (resources d m t)"
  unfolding resources_def Let_def by (intro tree_ok_cat) simp_all

lemma tree_ok_gpu: "tree_ok t \<Longrightarrow> tree_ok (gpu_category risks t)"
  by (simp add: gpu_category_def Let_def tree_ok_cat worst_child_severity)

lemma tree_ok_kernel: "tree_ok t \<Longrightarrow> tree_ok (kernel_category d now sid t)"
  by (simp add: kernel_category_def Let_def tree_ok_cat)

lemma hd_categories:
  assumes "categories t \<noteq> []"
  shows "hd (categories (resources d m t)) = hd (categories t) \<and> categories (resources d m t) \<noteq> []"
    and "hd (categories (gpu_category risks t)) = hd (categories t) \<and> categories (gpu_category risks t) \<noteq> []"
    and "hd (categories (kernel_category d now sid t)) = hd (categories t)"
  using assms by (simp_all add: resources_def gpu_category_def kernel_category_def cat_def Let_def)

text \<open>
  The overall status of a health tree is the worst status of its categories, the GPU
  category is as bad as its worst card, and the first category, connectivity, is critical exactly
  if the sample shown is a failed poll (so that the whole tree is).
\<close>

theorem health_tree_reflects_worst:
  "case health_tree d now sid gpu_risks of
     Tree name updated t \<Rightarrow>
       overall t = severity_of (map tn_status (categories t)) \<and>
       list_all (\<lambda>c. children c = [] \<or> tn_status c = severity_of (map tn_status (children c))) (categories t) \<and>
       (\<exists>m \<in> set (d_metrics d). m_server_id m = sid \<and> m_collected_at m = updated \<and>
          tn_status (hd (categories t)) = (if m_status m = ''error'' then ''critical'' else ''ok''))
   | _ \<Rightarrow> True"
proof (cases "find (\<lambda>s. s_id s = sid) (d_servers d)")
  case found: (Some s)
  let ?own = "filter (\<lambda>r. m_server_id r = sid) (d_metrics d)"
  show ?thesis
  proof (cases "latest_by m_collected_at ?own")
    case (Some m)
    define t1 where "t1 = connectivity m \<lparr>categories = [], overall = ''ok''\<rparr>"
    define t2 where "t2 = (if m_status m = ''ok'' then resources d m t1 else t1)"
    define t3 where "t3 = gpu_category (case gpu_risks of Some given \<Rightarrow> given
      | None \<Rightarrow> if s_server_type s \<noteq> ''cpu'' then gpu_risk_score d now sid else []) t2"
    define t where "t = kernel_category d now sid t3"
    have tree: "health_tree d now sid gpu_risks = Tree (s_name s) (m_collected_at m) t"
      unfolding t_def t3_def t2_def t1_def by (simp add: health_tree_def found Some Let_def)
    have "tree_ok t1" unfolding t1_def by (rule tree_ok_connectivity) (simp add: tree_ok_def severity_of_def)
    then have ok: "tree_ok t" unfolding t_def t3_def t2_def
      by (simp add: tree_ok_kernel tree_ok_gpu tree_ok_resources)
    have one: "categories t1 \<noteq> []" "tn_status (hd (categories t1)) = (if m_status m = ''error'' then ''critical'' else ''ok'')"
      by (simp_all add: t1_def connectivity_def cat_def)
    then have two: "categories t2 \<noteq> []" "hd (categories t2) = hd (categories t1)"
      by (simp_all add: t2_def hd_categories)
    then have "hd (categories t) = hd (categories t1)"
      by (simp add: t_def t3_def hd_categories)
    moreover have "m \<in> set ?own" using Some by (rule latest_by_in)
    ultimately show ?thesis using ok one(2) by (auto simp: tree tree_ok_def list_all_iff)
  qed (simp add: health_tree_def found)
qed (simp add: health_tree_def)

end
