(* ===== verification/HostParse.thy ===== *)
theory HostParse
  imports Models "HOL-Library.Monad_Syntax" "HOL-Library.List_Lexorder" "HOL-Library.Char_ord"
begin

text \<open>
  The host half of \<open>backend/app/ssh_collector.py\<close>: the parsers of the fast tier's section
  protocol, processor, memory, disks, interfaces, file systems, processes, logins and sockets.
  A parser that may leave with an exception (an index out of range) yields an option, \<open>None\<close> being
  the exception.  Dictionaries keep insertion order; strings sort by their bytes, which for UTF-8
  is the order of code points.
\<close>

section \<open>Sections\<close>

definition is_section_char :: "char \<Rightarrow> bool" where
  "is_section_char c \<longleftrightarrow> is_upper c \<or> is_digit c \<or> c = CHR ''_''"

text \<open>The match of \<open>^==([A-Z0-9_]+)==$\<close> on a stripped line.\<close>

definition section_name :: "string \<Rightarrow> string option" where
  "section_name line =
     (let s = strip line; body = take (length s - 4) (drop 2 s)
      in if length s > 4 \<and> take 2 s = ''=='' \<and> drop (length s - 2) s = ''=='' \<and> list_all is_section_char body
         then Some body else None)"

fun section_lines ::
    "string option \<Rightarrow> (string, string list) dict \<Rightarrow> string list \<Rightarrow> (string, string list) dict" where
  "section_lines current sections [] = sections"
| "section_lines current sections (line # lines) =
     (case section_name line of
        Some name \<Rightarrow> section_lines (Some name) (AList.update name [] sections) lines
      | None \<Rightarrow>
          (case current of
             None \<Rightarrow> section_lines current sections lines
           | Some name \<Rightarrow>
               section_lines current
                 (AList.update name (the_default [] (map_of sections name) @ [line]) sections) lines))"

definition split_sections :: "string \<Rightarrow> (string, string) dict" where
  "split_sections out =
     map (\<lambda>(k, v). (k, join [nl] v)) (section_lines None [] (splitlines out))"

text \<open>\<open>sec.get(name, "")\<close>.\<close>

definition sec_get :: "(string, string) dict \<Rightarrow> string \<Rightarrow> string" where
  "sec_get sec name = the_default [] (map_of sec name)"

definition to_float :: "string \<Rightarrow> rat" where
  "to_float v = the_default 0 (py_float (strip v))"

definition first_line :: "string \<Rightarrow> string" where
  "first_line s = (if strip s \<noteq> [] then (case splitlines (strip s) of [] \<Rightarrow> [] | l # _ \<Rightarrow> strip l) else [])"

section \<open>Processor\<close>

definition parse_cpu_line :: "string \<Rightarrow> (string, rat list) dict \<Rightarrow> (string, rat list) dict" where
  "parse_cpu_line line acc =
     (case split_ws line of
        [] \<Rightarrow> acc
      | name # counters \<Rightarrow> if is_prefix ''cpu'' name then AList.update name (map to_float counters) acc else acc)"

definition parse_cpu_lines :: "string \<Rightarrow> (string, rat list) dict" where
  "parse_cpu_lines text = fold parse_cpu_line (splitlines text) []"

definition clamp_percent :: "rat \<Rightarrow> rat" where
  "clamp_percent x = py_round_to 1 (min 100 (max 0 x))"

text \<open>\<open>f[3]\<close> raises on a line with fewer than four counters.\<close>

definition nth_or_raise :: "'a list \<Rightarrow> nat \<Rightarrow> 'a option" where
  "nth_or_raise xs i = (if i < length xs then Some (xs ! i) else None)"

definition core_util :: "rat list \<Rightarrow> rat list \<Rightarrow> rat option" where
  "core_util f1 f2 =
     (let total_time = sum_list f2 - sum_list f1
      in if total_time \<le> 0 then Some 0
         else do {
           b3 \<leftarrow> nth_or_raise f2 3;
           a3 \<leftarrow> nth_or_raise f1 3;
           let idle = (b3 - a3) + (if length f2 > 4 \<and> length f1 > 4 then f2 ! 4 - f1 ! 4 else 0);
           Some (clamp_percent ((1 - idle / total_time) * 100))
         })"

definition cpu_iowait :: "rat list \<Rightarrow> rat list \<Rightarrow> rat" where
  "cpu_iowait f1 f2 =
     (let total_time = sum_list f2 - sum_list f1
      in if total_time \<le> 0 \<or> length f2 < 5 \<or> length f1 < 5 then 0
         else clamp_percent ((f2 ! 4 - f1 ! 4) / total_time * 100))"

definition cpu_freqs :: "string \<Rightarrow> rat list" where
  "cpu_freqs text =
     filter (\<lambda>v. v > 0) (map (\<lambda>l. to_float (last (split_ws (strip l))))
       (filter (\<lambda>l. strip l \<noteq> []) (splitlines text)))"

text \<open>\<open>^Core\s+(\d+)$\<close> and \<open>^(Package id 0|Tctl|Tdie|CPU)$\<close>, case ignored.\<close>

definition core_number :: "string \<Rightarrow> int option" where
  "core_number name =
     (let rest = drop 4 name; digits = lstrip rest
      in if lower (take 4 name) = ''core'' \<and> rest \<noteq> digits \<and> digits \<noteq> [] \<and> list_all is_digit digits
         then py_int digits else None)"

definition is_package_sensor :: "string \<Rightarrow> bool" where
  "is_package_sensor name \<longleftrightarrow> lower name \<in> {''package id 0'', ''tctl'', ''tdie'', ''cpu''}"

definition read_sensor :: "string \<Rightarrow> (int, rat) dict \<times> rat \<Rightarrow> (int, rat) dict \<times> rat" where
  "read_sensor line acc =
     (case (acc, partition_on (CHR ''='') line) of
        ((core_temps, package), (left, found, val)) \<Rightarrow>
          if \<not> found then acc
          else let name = strip left; v = to_float val / 1000
            in if v \<le> 0 \<or> v > 150 then acc
               else case core_number name of
                 Some i \<Rightarrow> (AList.update i (py_round_to 1 v) core_temps, package)
               | None \<Rightarrow>
                   if is_package_sensor name then (core_temps, max package (py_round_to 1 v)) else acc)"

definition cpu_temps :: "string \<Rightarrow> (int, rat) dict \<times> rat" where
  "cpu_temps text = fold read_sensor (splitlines text) ([], 0)"

type_synonym core = "int \<times> rat \<times> int \<times> rat"

definition read_core ::
    "(string, rat list) dict \<Rightarrow> (string, rat list) dict \<Rightarrow> rat list \<Rightarrow> (int, rat) dict \<Rightarrow> int \<Rightarrow> core option" where
  "read_core c1 c2 freqs temps i =
     (let key = ''cpu'' @ show_int i
      in do {
        util \<leftarrow> (case (map_of c1 key, map_of c2 key) of
                  (Some f1, Some f2) \<Rightarrow> core_util f1 f2
                | _ \<Rightarrow> Some 0);
        Some (i, util, if nat i < length freqs then py_round (freqs ! nat i) else 0,
              the_default 0 (map_of temps i))
      })"

fun all_or_raise :: "('a \<Rightarrow> 'b option) \<Rightarrow> 'a list \<Rightarrow> 'b list option" where
  "all_or_raise f [] = Some []"
| "all_or_raise f (x # xs) = do { y \<leftarrow> f x; ys \<leftarrow> all_or_raise f xs; Some (y # ys) }"

definition parse_cpu ::
    "string \<Rightarrow> string \<Rightarrow> string \<Rightarrow> string \<Rightarrow> int \<Rightarrow> (rat \<times> rat \<times> core list \<times> rat) option" where
  "parse_cpu s1 s2 freq_text temp_text count =
     (let c1 = parse_cpu_lines s1; c2 = parse_cpu_lines s2;
          freqs = cpu_freqs freq_text;
          (temps, package) = cpu_temps temp_text
      in do {
        (overall, iowait) \<leftarrow> (case (map_of c1 ''cpu'', map_of c2 ''cpu'') of
            (Some f1, Some f2) \<Rightarrow> do { u \<leftarrow> core_util f1 f2; Some (u, cpu_iowait f1 f2) }
          | _ \<Rightarrow> Some (0, 0));
        cores \<leftarrow> all_or_raise (read_core c1 c2 freqs temps) (map int [0..<nat count]);
        Some (overall, iowait, cores, package)
      })"

section \<open>Memory\<close>

definition parse_meminfo_line :: "string \<Rightarrow> (string, rat) dict \<Rightarrow> (string, rat) dict" where
  "parse_meminfo_line line info =
     (case partition_on (CHR '':'') line of
        (key, found, val) \<Rightarrow>
          if \<not> found then info
          else AList.update (strip key)
                 (to_float (if strip val \<noteq> [] then hd (split_ws (strip val)) else ''0'')) info)"

definition parse_meminfo :: "string \<Rightarrow> (string, rat) dict" where
  "parse_meminfo text = fold parse_meminfo_line (splitlines text) []"

record memory =
  mem_total :: rat
  mem_used :: rat
  mem_available :: rat
  mem_cached :: rat
  swap_total :: rat
  swap_used :: rat

definition info_get :: "(string, rat) dict \<Rightarrow> string \<Rightarrow> rat" where
  "info_get info key = the_default 0 (map_of info key)"

definition memory_of :: "(string, rat) dict \<Rightarrow> memory" where
  "memory_of info =
     (let tot = info_get info ''MemTotal'';
          available = (case map_of info ''MemAvailable'' of
              Some a \<Rightarrow> a
            | None \<Rightarrow>
                let cached = info_get info ''Cached'' + info_get info ''SReclaimable'' - info_get info ''Shmem''
                in info_get info ''MemFree'' + info_get info ''Buffers'' + max 0 cached);
          used = max 0 (tot - available)
      in \<lparr>mem_total = tot / 1024, mem_used = used / 1024, mem_available = available / 1024,
          mem_cached = (info_get info ''Buffers'' + info_get info ''Cached'' + info_get info ''SReclaimable'') / 1024,
          swap_total = info_get info ''SwapTotal'' / 1024,
          swap_used = max 0 (info_get info ''SwapTotal'' - info_get info ''SwapFree'') / 1024\<rparr>)"

section \<open>Disk and network rates\<close>

definition has_number_after :: "string \<Rightarrow> string \<Rightarrow> bool" where
  "has_number_after pre name \<longleftrightarrow> is_prefix pre name \<and>
     (case drop (length pre) name of [] \<Rightarrow> False | c # _ \<Rightarrow> is_digit c)"

definition skip_disk :: "string \<Rightarrow> bool" where
  "skip_disk name \<longleftrightarrow>
     list_ex (\<lambda>p. is_prefix p name) [''loop'', ''ram'', ''sr'', ''fd'', ''zram'']
     \<or> has_number_after ''dm-'' name \<or> has_number_after ''md'' name"

type_synonym disk_counters = "rat \<times> rat \<times> rat \<times> rat \<times> rat"

definition parse_diskstats_line :: "string \<Rightarrow> (string, disk_counters) dict \<Rightarrow> (string, disk_counters) dict" where
  "parse_diskstats_line line acc =
     (let parts = split_ws line
      in if length parts < 14 then acc
         else AList.update (parts ! 2)
           (to_float (parts ! 3), to_float (parts ! 5), to_float (parts ! 7), to_float (parts ! 9),
            to_float (parts ! 13)) acc)"

definition parse_diskstats :: "string \<Rightarrow> (string, disk_counters) dict" where
  "parse_diskstats text = fold parse_diskstats_line (splitlines text) []"

definition disk_rate_of :: "rat \<Rightarrow> string \<Rightarrow> disk_counters \<Rightarrow> disk_counters \<Rightarrow> disk_rate option" where
  "disk_rate_of window name a b =
     (case (a, b) of
        ((a0, a1, a2, a3, a4), (b0, b1, b2, b3, b4)) \<Rightarrow>
          let rd = max 0 ((b1 - a1) * 512 / window);
              wr = max 0 ((b3 - a3) * 512 / window);
              r_iops = max 0 ((b0 - a0) / window);
              w_iops = max 0 ((b2 - a2) / window);
              busy_ms = max 0 (b4 - a4);
              busy_pct = min 100 (busy_ms / (window * 1000) * 100)
          in if rd < 1 \<and> wr < 1 \<and> busy_pct < 1/2 then None
             else Some \<lparr>io_device = name, read_bps = py_round_to 1 rd, write_bps = py_round_to 1 wr,
                    read_iops = py_round_to 1 r_iops, write_iops = py_round_to 1 w_iops,
                    busy_percent = Some (py_round_to 1 busy_pct)\<rparr>)"

definition disk_rates :: "(string, disk_counters) dict \<Rightarrow> (string, disk_counters) dict \<Rightarrow> rat \<Rightarrow> disk_rate list" where
  "disk_rates d1 d2 window =
     (let devices = sort (filter (\<lambda>n. map_of d1 n \<noteq> None \<and> \<not> skip_disk n) (keys d2))
      in List.map_filter (\<lambda>name.
           case (map_of d1 name, map_of d2 name) of
             (Some a, Some b) \<Rightarrow> disk_rate_of window name a b
           | _ \<Rightarrow> None) (take 16 devices))"

type_synonym net_counters = "rat \<times> rat \<times> rat \<times> rat \<times> rat \<times> rat"

definition parse_netdev_line :: "string \<Rightarrow> (string, net_counters) dict \<Rightarrow> (string, net_counters) dict" where
  "parse_netdev_line line acc =
     (case partition_on (CHR '':'') line of
        (left, found, rest) \<Rightarrow>
          let name = strip left; parts = split_ws rest
          in if \<not> found \<or> name = ''lo'' \<or> length parts < 16 then acc
             else AList.update name
               (to_float (parts ! 0), to_float (parts ! 2), to_float (parts ! 3),
                to_float (parts ! 8), to_float (parts ! 10), to_float (parts ! 11)) acc)"

definition parse_netdev :: "string \<Rightarrow> (string, net_counters) dict" where
  "parse_netdev text = fold parse_netdev_line (splitlines text) []"

definition parse_netlink_line :: "string \<Rightarrow> (string, string \<times> int) dict \<Rightarrow> (string, string \<times> int) dict" where
  "parse_netlink_line line acc =
     (let parts = split_ws line
      in if length parts \<ge> 3
         then AList.update (parts ! 0)
           (parts ! 1,
            if length parts > 3 \<and> list_all is_digit (parts ! 3) then the_default 0 (py_int (parts ! 3)) else 0) acc
         else acc)"

definition parse_netlink :: "string \<Rightarrow> (string, string \<times> int) dict" where
  "parse_netlink text = fold parse_netlink_line (splitlines text) []"

definition net_rate_of ::
    "rat \<Rightarrow> (string, string \<times> int) dict \<Rightarrow> string \<Rightarrow> net_counters \<Rightarrow> net_counters \<Rightarrow> net_rate option" where
  "net_rate_of window link name a b =
     (case (a, b) of
        ((a0, a1, a2, a3, a4, a5), (b0, b1, b2, b3, b4, b5)) \<Rightarrow>
          let rx = (b0 - a0) / window; tx = (b3 - a3) / window;
              rx_err = b1 - a1; rx_drop = b2 - a2; tx_err = b4 - a4; tx_drop = b5 - a5;
              (state, speed) = the_default ([], 0) (map_of link name)
          in if rx < 1 \<and> tx < 1 \<and> \<not> (rx_err \<noteq> 0 \<or> rx_drop \<noteq> 0 \<or> tx_err \<noteq> 0 \<or> tx_drop \<noteq> 0) then None
             else Some \<lparr>iface = name, rx_bps = Some (py_round_to 1 rx), tx_bps = Some (py_round_to 1 tx),
                    rx_err_rate = Some (py_round_to 3 rx_err), rx_drop_rate = Some (py_round_to 3 rx_drop),
                    tx_err_rate = Some (py_round_to 3 tx_err), tx_drop_rate = Some (py_round_to 3 tx_drop),
                    operstate = state, speed_mbps = speed\<rparr>)"

definition net_rates ::
    "(string, net_counters) dict \<Rightarrow> (string, net_counters) dict \<Rightarrow> rat \<Rightarrow> (string, string \<times> int) dict \<Rightarrow> net_rate list" where
  "net_rates n1 n2 window link =
     List.map_filter (\<lambda>name.
       case (map_of n1 name, map_of n2 name) of
         (Some a, Some b) \<Rightarrow> net_rate_of window link name a b
       | _ \<Rightarrow> None) (sort (keys n2))"

section \<open>File systems\<close>

definition pseudo_fs :: "string \<Rightarrow> bool" where
  "pseudo_fs fs \<longleftrightarrow>
     list_ex (\<lambda>p. is_prefix p fs)
       [''tmpfs'', ''devtmpfs'', ''squashfs'', ''udev'', ''none'', ''shm'', ''loop'', ''nsfs'', ''tracefs'',
        ''debugfs'', ''configfs'', ''fusectl'', ''fuse.'', ''hugetlbfs'', ''mqueue'', ''pstore'', ''securityfs'',
        ''bpf'', ''cgroup'', ''autofs'', ''efivarfs'', ''binfmt_misc'', ''rpc_'']"

definition df_rows :: "string \<Rightarrow> string list" where
  "df_rows text = drop 1 (filter (\<lambda>l. strip l \<noteq> []) (splitlines text))"

definition read_df :: "string \<Rightarrow> disk list \<times> string list \<Rightarrow> disk list \<times> string list" where
  "read_df line acc =
     (case (acc, split_ws_max 5 line) of
        ((disks, seen), [fs, total_kb, used_kb, _, _, mnt]) \<Rightarrow>
          if pseudo_fs fs \<or> is_prefix ''/snap'' mnt \<or> mnt \<in> set seen then acc
          else let tot = to_float total_kb / 1024 / 1024; used = to_float used_kb / 1024 / 1024
            in if tot \<le> 0 then (disks, mnt # seen)
               else (disks @ [\<lparr>mount = mnt, device = fs, total_gb = py_round_to 1 tot, used_gb = py_round_to 1 used,
                        percent = Some (py_round_to 1 (used / tot * 100))\<rparr>], mnt # seen)
      | _ \<Rightarrow> acc)"

definition parse_df :: "string \<Rightarrow> disk list" where
  "parse_df text = sort_key mount (fst (fold read_df (df_rows text) ([], [])))"

definition read_dfi :: "string \<Rightarrow> inode_use list \<times> string list \<Rightarrow> inode_use list \<times> string list" where
  "read_dfi line acc =
     (case (acc, split_ws_max 5 line) of
        ((out, seen), [fs, itotal, iused, _, _, mnt]) \<Rightarrow>
          if mnt \<in> set seen \<or> pseudo_fs fs then acc
          else let t = to_float itotal; u = to_float iused
            in if t \<le> 0 then (out, mnt # seen)
               else (out @ [\<lparr>i_mount = mnt, inodes_total = py_trunc t, inodes_used = py_trunc u,
                        inodes_percent = Some (py_round_to 1 (u / t * 100))\<rparr>], mnt # seen)
      | _ \<Rightarrow> acc)"

definition parse_dfi :: "string \<Rightarrow> inode_use list" where
  "parse_dfi text = sort_key i_mount (fst (fold read_dfi (df_rows text) ([], [])))"

section \<open>Processes, logins, sockets\<close>

definition basename :: "string \<Rightarrow> string" where
  "basename path = last (split_on (CHR ''/'') path)"

text \<open>\<open>split(None, 1)[0]\<close> of a blank command raises \<open>IndexError\<close>.\<close>

definition executable_name :: "string \<Rightarrow> string option" where
  "executable_name command =
     (case split_ws_max 1 (strip command) of
        [] \<Rightarrow> None
      | first # _ \<Rightarrow> Some (take 80 (basename first)))"

text \<open>One line of \<open>ps\<close>: \<open>None\<close> is an exception, \<open>Some None\<close> a skipped line.\<close>

definition parse_ps_line :: "bool \<Rightarrow> string \<Rightarrow> proc option option" where
  "parse_ps_line include_sensitive line =
     (case split_ws_max 9 line of
        [p0, p1, p2, p3, p4, p5, p6, p7, p8, p9] \<Rightarrow>
          (case (py_int p0, py_int p1) of
             (Some pid, Some ppid) \<Rightarrow> do {
               command \<leftarrow> (if include_sensitive then Some (strip (take 120 p9)) else executable_name p9);
               Some (Some \<lparr>pr_pid = pid, pr_ppid = ppid, pr_cpu = to_float p3, pr_mem = to_float p4,
                 pr_rss_mb = py_round_to 1 (to_float p5 / 1024), pr_vsz_mb = py_round_to 1 (to_float p6 / 1024),
                 pr_stat = p7, pr_etimes = py_trunc (to_float p8), pr_command = command,
                 pr_user = (if include_sensitive then p2 else []), pr_start_ticks = 0\<rparr>)
             }
           | _ \<Rightarrow> Some None)
      | _ \<Rightarrow> Some None)"

text \<open>The loop breaks once the list has \<open>limit\<close> entries, tested after each append.\<close>

fun ps_loop :: "nat \<Rightarrow> bool \<Rightarrow> string list \<Rightarrow> proc list \<Rightarrow> proc list option" where
  "ps_loop limit sensitive [] procs = Some procs"
| "ps_loop limit sensitive (line # lines) procs =
     (case parse_ps_line sensitive line of
        None \<Rightarrow> None
      | Some None \<Rightarrow> ps_loop limit sensitive lines procs
      | Some (Some p) \<Rightarrow>
          (let procs' = procs @ [p]
           in if length procs' \<ge> limit then Some procs' else ps_loop limit sensitive lines procs'))"

definition parse_ps :: "string \<Rightarrow> nat \<Rightarrow> bool \<Rightarrow> proc list option" where
  "parse_ps text limit include_sensitive =
     ps_loop limit include_sensitive
       (drop 1 (map rstrip (filter (\<lambda>l. strip l \<noteq> []) (splitlines text)))) []"

record login =
  l_user :: string
  l_tty :: string
  l_from :: string
  l_login :: string

definition strip_parens :: "string \<Rightarrow> string" where
  "strip_parens s =
     rev (dropWhile (\<lambda>c. c = CHR ''('' \<or> c = CHR '')'') (rev (dropWhile (\<lambda>c. c = CHR ''('' \<or> c = CHR '')'') s)))"

definition parse_who_line :: "string \<Rightarrow> login option" where
  "parse_who_line line =
     (let parts = split_ws line
      in if length parts < 4 then None
         else Some \<lparr>l_user = parts ! 0, l_tty = parts ! 1,
                l_from = (if length parts \<ge> 7 \<and> is_prefix ''('' (last parts) then strip_parens (last parts) else []),
                l_login = join '' '' [parts ! 2, parts ! 3]\<rparr>)"

definition parse_who :: "string \<Rightarrow> login list" where
  "parse_who text = take 10 (List.map_filter parse_who_line (splitlines text))"

text \<open>\<open>re.search\<close> for \<open>word\s+(\d+)\<close>; with \<open>bound\<close> the character before the word is no word character.\<close>

definition is_word_char :: "char \<Rightarrow> bool" where
  "is_word_char c \<longleftrightarrow> is_digit c \<or> is_upper c \<or> (97 \<le> code c \<and> code c \<le> 122) \<or> c = CHR ''_''"

fun search_number :: "bool \<Rightarrow> string \<Rightarrow> bool \<Rightarrow> string \<Rightarrow> int option" where
  "search_number bound pat after_word [] = None"
| "search_number bound pat after_word (c # cs) =
     (let rest = drop (length pat) (c # cs); num = takeWhile is_digit (lstrip rest)
      in if is_prefix pat (c # cs) \<and> \<not> (bound \<and> after_word) \<and> rest \<noteq> lstrip rest \<and> num \<noteq> []
         then py_int num
         else search_number bound pat (is_word_char c) cs)"

definition read_sock :: "string \<Rightarrow> int \<times> int \<Rightarrow> int \<times> int" where
  "read_sock line acc =
     (case acc of (estab, timewait) \<Rightarrow>
        (the_default estab (search_number False ''ESTAB'' False line),
         the_default timewait (search_number True ''tw'' False line)))"

definition parse_sockstat :: "string \<Rightarrow> int \<times> int" where
  "parse_sockstat text = fold read_sock (splitlines text) (0, 0)"

section \<open>Bounds\<close>

lemma clamp_percent_range: "0 \<le> clamp_percent x \<and> clamp_percent x \<le> 100"
  using py_round_to_range [of 0 "min 100 (max 0 x)" 100 1] by (simp add: clamp_percent_def)

lemma core_util_range: "core_util f1 f2 = Some u \<Longrightarrow> 0 \<le> u \<and> u \<le> 100"
  using clamp_percent_range
  by (auto simp: core_util_def Let_def bind_eq_Some_conv split: if_splits)

lemma cpu_iowait_range: "0 \<le> cpu_iowait f1 f2 \<and> cpu_iowait f1 f2 \<le> 100"
  using clamp_percent_range by (simp add: cpu_iowait_def Let_def)

lemma py_round_to_nonneg: "0 \<le> q \<Longrightarrow> 0 \<le> py_round_to n q"
  using py_round_to_mono [of 0 q n] py_round_to_of_int [of n 0] by simp

lemma py_round_nonneg: "0 \<le> q \<Longrightarrow> 0 \<le> py_round q"
  using py_round_mono [of 0 q] py_round_int [of 0] by simp

definition disk_rate_ok :: "disk_rate \<Rightarrow> bool" where
  "disk_rate_ok r \<longleftrightarrow> 0 \<le> read_bps r \<and> 0 \<le> write_bps r \<and> 0 \<le> read_iops r \<and> 0 \<le> write_iops r
     \<and> (\<exists>b. busy_percent r = Some b \<and> 0 \<le> b \<and> b \<le> 100)"

lemma disk_rate_of_ok: "disk_rate_of 1 name a b = Some r \<Longrightarrow> disk_rate_ok r"
  using py_round_to_range [of 0 _ 100 1]
  by (auto simp: disk_rate_of_def disk_rate_ok_def Let_def py_round_to_nonneg split: prod.splits if_splits)

lemma set_map_filter: "y \<in> set (List.map_filter f xs) \<longleftrightarrow> (\<exists>x \<in> set xs. f x = Some y)"
  by (force simp: List.map_filter_def)

lemma disk_rates_ok:
  assumes "r \<in> set (disk_rates d1 d2 1)" shows "disk_rate_ok r"
proof -
  obtain x where "(case (map_of d1 x, map_of d2 x) of (Some a, Some b) \<Rightarrow> disk_rate_of 1 x a b | _ \<Rightarrow> None) = Some r"
    using assms unfolding disk_rates_def Let_def set_map_filter by blast
  then show ?thesis
    by (cases "map_of d1 x"; cases "map_of d2 x") (simp_all add: disk_rate_of_ok)
qed

lemma length_map_filter: "length (List.map_filter f xs) \<le> length xs"
  by (simp add: List.map_filter_def)

lemma disk_rates_length: "length (disk_rates d1 d2 w) \<le> 16"
  unfolding disk_rates_def Let_def by (rule order_trans [OF length_map_filter]) simp

definition cores_ok :: "core list \<Rightarrow> bool" where
  "cores_ok cores \<longleftrightarrow> (\<forall>(i, util, freq, temp) \<in> set cores. 0 \<le> util \<and> util \<le> 100 \<and> 0 \<le> freq)"

lemma all_or_raise_set: "all_or_raise f xs = Some ys \<Longrightarrow> y \<in> set ys \<Longrightarrow> \<exists>x \<in> set xs. f x = Some y"
  by (induction xs arbitrary: ys) (auto simp: bind_eq_Some_conv)

lemma all_or_raise_length: "all_or_raise f xs = Some ys \<Longrightarrow> length ys = length xs"
  by (induction xs arbitrary: ys) (auto simp: bind_eq_Some_conv)

lemma cpu_freqs_pos: "v \<in> set (cpu_freqs text) \<Longrightarrow> 0 < v"
  by (auto simp: cpu_freqs_def)

lemma read_core_ok:
  assumes "read_core c1 c2 (cpu_freqs text) temps i = Some (j, util, freq, temp)"
  shows "0 \<le> util \<and> util \<le> 100 \<and> 0 \<le> freq"
proof -
  have freq: "0 \<le> py_round (cpu_freqs text ! n)" if "n < length (cpu_freqs text)" for n
    using cpu_freqs_pos [OF nth_mem [OF that]] by (simp add: py_round_nonneg)
  then show ?thesis using assms
    by (auto simp: read_core_def Let_def bind_eq_Some_conv split: option.splits if_splits dest: core_util_range)
qed

lemma read_cores_ok:
  assumes "all_or_raise (read_core c1 c2 (cpu_freqs text) temps) xs = Some cores" shows "cores_ok cores"
  unfolding cores_ok_def
proof (clarify)
  fix i util freq temp assume "(i, util, freq, temp) \<in> set cores"
  then obtain x where "read_core c1 c2 (cpu_freqs text) temps x = Some (i, util, freq, temp)"
    using all_or_raise_set [OF assms] by blast
  then show "0 \<le> util \<and> util \<le> 100 \<and> 0 \<le> freq" by (rule read_core_ok)
qed

lemma parse_cpu_ok:
  assumes "parse_cpu s1 s2 freq_text temp_text count = Some (overall, iowait, cores, package)"
  shows "0 \<le> overall \<and> overall \<le> 100 \<and> 0 \<le> iowait \<and> iowait \<le> 100 \<and> cores_ok cores \<and> length cores = nat count"
proof -
  obtain temps p where temps: "cpu_temps temp_text = (temps, p)" by force
  from assms have cores: "all_or_raise (read_core (parse_cpu_lines s1) (parse_cpu_lines s2) (cpu_freqs freq_text) temps)
      (map int [0..<nat count]) = Some cores"
    by (auto simp: parse_cpu_def Let_def temps bind_eq_Some_conv)
  from assms have "(overall, iowait) = (0, 0) \<or>
      (\<exists>f1 f2. core_util f1 f2 = Some overall \<and> iowait = cpu_iowait f1 f2)"
    by (auto simp: parse_cpu_def Let_def temps bind_eq_Some_conv split: option.splits)
  then show ?thesis using read_cores_ok [OF cores] all_or_raise_length [OF cores] cpu_iowait_range core_util_range
    by auto
qed

section \<open>File systems are listed once, in order\<close>

lemma read_df_seen:
  assumes "distinct (map mount (fst acc))" "mount ` set (fst acc) \<subseteq> set (snd acc)"
  shows "distinct (map mount (fst (read_df l acc))) \<and> mount ` set (fst (read_df l acc)) \<subseteq> set (snd (read_df l acc))"
  using assms
  by (auto simp: read_df_def Let_def image_subset_iff split: prod.splits list.splits)

lemma df_loop:
  "distinct (map mount (fst acc)) \<Longrightarrow> mount ` set (fst acc) \<subseteq> set (snd acc) \<Longrightarrow>
   distinct (map mount (fst (fold read_df ls acc)))"
proof (induction ls arbitrary: acc)
  case (Cons l ls)
  from read_df_seen [OF Cons.prems] show ?case using Cons.IH [of "read_df l acc"] by simp
qed simp

lemma parse_df_mounts: "distinct (map mount (parse_df text)) \<and> sorted (map mount (parse_df text))"
proof -
  let ?rows = "fst (fold read_df (df_rows text) ([], []))"
  have "distinct (map mount ?rows)" using df_loop [of "([], [])"] by simp
  then have "distinct ?rows" "inj_on mount (set ?rows)" by (auto simp: distinct_map)
  then show ?thesis by (simp add: parse_df_def distinct_map)
qed

section \<open>Process rows carry no arguments\<close>

lemma takeWhile_not: "x \<in> set (takeWhile (\<lambda>c. \<not> P c) s) \<Longrightarrow> \<not> P x"
  by (auto dest: set_takeWhileD)

lemma split_on_aux_parts:
  "p \<in> set (split_on_aux sep acc s) \<Longrightarrow> sep \<notin> set acc \<Longrightarrow> sep \<notin> set p \<and> set p \<subseteq> set acc \<union> set s"
  by (induction sep acc s arbitrary: p rule: split_on_aux.induct) (fastforce split: if_splits)+

lemma split_on_ne: "split_on sep s \<noteq> []"
proof -
  have "split_on_aux sep acc s \<noteq> []" for acc by (induction sep acc s rule: split_on_aux.induct) auto
  then show ?thesis by (simp add: split_on_def)
qed

lemma basename_plain: "CHR ''/'' \<notin> set (basename s) \<and> set (basename s) \<subseteq> set s"
  using split_on_aux_parts [of "basename s" "CHR ''/''" "[]" s] last_in_set [OF split_on_ne, of "CHR ''/''" s]
  by (simp add: basename_def split_on_def)

definition bare_name :: "string \<Rightarrow> bool" where
  "bare_name c \<longleftrightarrow> length c \<le> 80 \<and> CHR ''/'' \<notin> set c \<and> list_all (\<lambda>x. \<not> is_space x) c"

lemma executable_name_bare: "executable_name c = Some n \<Longrightarrow> bare_name n"
proof -
  assume n: "executable_name c = Some n"
  then obtain w where w: "n = take 80 (basename w)" "\<forall>x \<in> set w. \<not> is_space x"
    by (auto simp: executable_name_def Let_def split: if_splits dest: takeWhile_not)
  then show ?thesis using basename_plain [of w] set_take_subset [of 80 "basename w"]
    by (auto simp: bare_name_def list_all_iff)
qed

lemma parse_ps_line_private:
  "parse_ps_line False line = Some (Some p) \<Longrightarrow> pr_user p = [] \<and> bare_name (pr_command p)"
  by (auto simp: parse_ps_line_def bind_eq_Some_conv split: list.splits option.splits dest: executable_name_bare)

lemma ps_loop_private:
  "ps_loop limit False lines procs = Some ps \<Longrightarrow> p \<in> set ps \<Longrightarrow>
   p \<in> set procs \<or> pr_user p = [] \<and> bare_name (pr_command p)"
proof (induction lines arbitrary: procs)
  case (Cons l lines)
  then show ?case
    by (fastforce simp: Let_def dest: parse_ps_line_private split: option.splits if_splits)
qed simp

lemma ps_loop_length:
  "ps_loop limit sensitive lines procs = Some ps \<Longrightarrow> length procs < limit \<Longrightarrow> length ps \<le> limit"
  by (induction lines arbitrary: procs) (auto simp: Let_def split: option.splits if_splits)

lemma parse_ps_private:
  "parse_ps text limit False = Some ps \<Longrightarrow> p \<in> set ps \<Longrightarrow> pr_user p = [] \<and> bare_name (pr_command p)"
  by (auto simp: parse_ps_def dest: ps_loop_private)

lemma parse_ps_length: "parse_ps text limit sensitive = Some ps \<Longrightarrow> 0 < limit \<Longrightarrow> length ps \<le> limit"
  by (auto simp: parse_ps_def dest: ps_loop_length)

section \<open>The section protocol round trip\<close>

definition print_sections :: "(string \<times> string list) list \<Rightarrow> string" where
  "print_sections secs =
     concat (map (\<lambda>l. l @ [nl]) (concat (map (\<lambda>(n, ls). (''=='' @ n @ ''=='') # ls) secs)))"

definition section_ok :: "string \<times> string list \<Rightarrow> bool" where
  "section_ok sec \<longleftrightarrow> fst sec \<noteq> [] \<and> list_all is_section_char (fst sec) \<and>
     list_all (\<lambda>l. section_name l = None \<and> list_all (\<lambda>c. \<not> is_linebreak c) l) (snd sec)"

lemma nl_break: "is_linebreak nl" "code nl = 10"
  by (simp_all add: is_linebreak_def code_def nl_def)

lemma splitlines_line:
  "list_all (\<lambda>c. \<not> is_linebreak c) l \<Longrightarrow>
   splitlines_aux acc False (l @ nl # rest) = (rev acc @ l) # splitlines_aux [] False rest"
  by (induction l arbitrary: acc) (simp_all add: nl_break)

lemma splitlines_print:
  "list_all (list_all (\<lambda>c. \<not> is_linebreak c)) ls \<Longrightarrow> splitlines (concat (map (\<lambda>l. l @ [nl]) ls)) = ls"
  unfolding splitlines_def by (induction ls) (simp_all add: splitlines_line)

lemma section_char_plain: "is_section_char c \<Longrightarrow> \<not> is_linebreak c \<and> \<not> is_space c"
  by (auto simp: is_section_char_def is_linebreak_def is_space_def is_upper_def is_digit_def Let_def code_def)

lemma strip_header: "strip (''=='' @ n @ ''=='') = ''=='' @ n @ ''==''"
  by (simp add: strip_def lstrip_def rstrip_def is_space_def code_def)

lemma section_name_header:
  "n \<noteq> [] \<Longrightarrow> list_all is_section_char n \<Longrightarrow> section_name (''=='' @ n @ ''=='') = Some n"
  unfolding section_name_def strip_header by (simp add: Let_def)

lemma update_last:
  "k \<notin> set (keys d) \<Longrightarrow> AList.update k v (d @ [(k, w)]) = d @ [(k, v)]"
  "k \<notin> set (keys d) \<Longrightarrow> AList.update k v d = d @ [(k, v)]"
  by (induction d) auto

lemma section_body:
  "n \<notin> set (keys d) \<Longrightarrow> list_all (\<lambda>l. section_name l = None) ls \<Longrightarrow>
   section_lines (Some n) (d @ [(n, v)]) (ls @ rest) = section_lines (Some n) (d @ [(n, v @ ls)]) rest"
proof (induction ls arbitrary: v)
  case (Cons l ls)
  have "map_of (d @ [(n, v)]) n = Some v" using Cons.prems(1) by (simp add: map_add_def map_of_eq_None_iff [THEN iffD2])
  then show ?case using Cons.prems Cons.IH [of "v @ [l]"] by (simp add: the_default_def update_last)
qed simp

lemma section_lines_print:
  "list_all section_ok secs \<Longrightarrow> distinct (keys d @ keys secs) \<Longrightarrow>
   section_lines cur d (concat (map (\<lambda>(n, ls). (''=='' @ n @ ''=='') # ls) secs)) = d @ secs"
proof (induction secs arbitrary: cur d)
  case (Cons sec secs)
  obtain n ls where sec: "sec = (n, ls)" by (cases sec)
  have ok: "n \<noteq> []" "list_all is_section_char n" "list_all (\<lambda>l. section_name l = None) ls"
    using Cons.prems(1) by (auto simp: section_ok_def sec list_all_iff)
  have fresh: "n \<notin> set (keys d)" using Cons.prems(2) by (simp add: sec)
  let ?rest = "concat (map (\<lambda>(n, ls). (''=='' @ n @ ''=='') # ls) secs)"
  have "section_lines cur d ((''=='' @ n @ ''=='') # ls @ ?rest) = section_lines (Some n) (d @ [(n, [])]) (ls @ ?rest)"
    by (simp only: section_lines.simps section_name_header [OF ok(1,2)] update_last(2) [OF fresh] option.case)
  also have "\<dots> = section_lines (Some n) (d @ [(n, ls)]) ?rest"
    using section_body [OF fresh ok(3), of "[]"] by simp
  also have "\<dots> = d @ sec # secs"
    using Cons.IH [of "d @ [(n, ls)]" "Some n"] Cons.prems by (simp add: sec)
  finally show ?case by (simp add: sec)
qed simp

text \<open>
  The section protocol round-trips: whatever sections the remote script prints (distinct
  names over capitals, digits and underscores, bodies without a line that itself looks like a
  header), splitting the output gives back exactly those sections with their bodies.
\<close>

theorem sections_round_trip:
  assumes "list_all section_ok secs" and "distinct (keys secs)"
  shows "split_sections (print_sections secs) = map (\<lambda>(n, ls). (n, join [nl] ls)) secs"
proof -
  let ?lines = "concat (map (\<lambda>(n, ls). (''=='' @ n @ ''=='') # ls) secs)"
  have "list_all (\<lambda>c. \<not> is_linebreak c) (''=='' @ n @ ''=='')" if "list_all is_section_char n" for n
    using that section_char_plain by (auto simp: list_all_iff is_linebreak_def code_def)
  then have "list_all (list_all (\<lambda>c. \<not> is_linebreak c)) ?lines"
    using assms(1) by (fastforce simp: list_all_iff section_ok_def)
  then have "splitlines (print_sections secs) = ?lines"
    unfolding print_sections_def by (rule splitlines_print)
  then show ?thesis
    using section_lines_print [OF assms(1), of "[]" None] assms(2) by (simp add: split_sections_def)
qed

theorem sections_round_trip_witness:
  "split_sections (print_sections [(''OS'', [''Ubuntu 22.04'', '''']), (''CPUSTAT1'', [''cpu 1 2 3 4''])]) =
     [(''OS'', ''Ubuntu 22.04'' @ [nl]), (''CPUSTAT1'', ''cpu 1 2 3 4'')]"
proof -
  let ?secs = "[(''OS'', [''Ubuntu 22.04'', '''']), (''CPUSTAT1'', [''cpu 1 2 3 4''])]"
  have "list_all section_ok ?secs" by code_simp
  moreover have "distinct (keys ?secs)" by simp
  ultimately have "split_sections (print_sections ?secs) = map (\<lambda>(n, ls). (n, join [nl] ls)) ?secs"
    by (rule sections_round_trip)
  then show ?thesis by simp
qed

end
