(* ===== verification/GpuParse.thy ===== *)
theory GpuParse
  imports HostParse
begin

text \<open>
  The GPU half of \<open>backend/app/ssh_collector.py\<close>: the \<open>nvidia-smi\<close> tables, merged into one list of
  GPU entries.  The dictionaries \<open>by_index\<close> and \<open>uuid_index\<close> of the source hold references to the
  entries of the list; of two entries with the same key the later one is meant, which is
  \<open>update_last\<close> here.
\<close>

section \<open>Values\<close>

definition NA_TEXTS :: "string list" where
  "NA_TEXTS = [''[n/a]'', ''n/a'', ''not supported'', ''[not supported]'', ''na'', ''[n/a] '']"

definition is_na :: "string \<Rightarrow> bool" where
  "is_na v \<longleftrightarrow> lower (strip v) \<in> set NA_TEXTS"

definition gval :: "string \<Rightarrow> rat" where
  "gval v = (if is_na v then 0 else to_float v)"

definition gint :: "string \<Rightarrow> int" where
  "gint v = py_trunc (gval v)"

text \<open>\<open>int(s, 0)\<close>: the base comes from the prefix; a decimal with a leading zero is an error.\<close>

definition digit_of :: "char \<Rightarrow> nat option" where
  "digit_of c =
     (let n = code (lower_char c)
      in if 48 \<le> n \<and> n \<le> 57 then Some (n - 48) else if 97 \<le> n \<and> n \<le> 122 then Some (n - 87) else None)"

fun base_digits :: "nat \<Rightarrow> nat \<Rightarrow> string \<Rightarrow> nat option" where
  "base_digits base acc [] = Some acc"
| "base_digits base acc (c # cs) =
     (case digit_of c of
        Some n \<Rightarrow> if n < base then base_digits base (base * acc + n) cs else None
      | None \<Rightarrow>
          if c = CHR ''_'' \<and> cs \<noteq> [] \<and> hd cs \<noteq> CHR ''_'' then base_digits base acc cs else None)"

definition prefixed_digits :: "nat \<Rightarrow> string \<Rightarrow> nat option" where
  "prefixed_digits base s = (if s = [] then None else base_digits base 0 s)"

definition py_int0_digits :: "string \<Rightarrow> nat option" where
  "py_int0_digits s =
     (if is_prefix ''0x'' (lower s) then prefixed_digits 16 (drop 2 s)
      else if is_prefix ''0o'' (lower s) then prefixed_digits 8 (drop 2 s)
      else if is_prefix ''0b'' (lower s) then prefixed_digits 2 (drop 2 s)
      else case py_digits s of
        None \<Rightarrow> None
      | Some n \<Rightarrow> if n \<noteq> 0 \<and> is_prefix ''0'' s then None else Some n)"

definition py_int0 :: "string \<Rightarrow> int option" where
  "py_int0 s = signed (\<lambda>t. map_option int (py_int0_digits t)) (strip s)"

definition THROTTLE_BITS :: "(int \<times> string) list" where
  "THROTTLE_BITS =
    [(0x01, ''GPU_IDLE''), (0x02, ''APPLICATIONS_CLOCKS''), (0x04, ''SW_POWER_CAP''), (0x08, ''HW_SLOWDOWN''),
     (0x10, ''SYNC_BOOST''), (0x20, ''SW_THERMAL_SLOWDOWN''), (0x40, ''HW_THERMAL_SLOWDOWN''),
     (0x80, ''HW_POWER_BRAKE_SLOWDOWN'')]"

text \<open>\<open>mask & bit\<close> for a power of two is the parity of the floored quotient, negative masks included.\<close>

definition reasons_of_mask :: "int \<Rightarrow> string list" where
  "reasons_of_mask msk = map snd (filter (\<lambda>(b, name). odd (msk div b)) THROTTLE_BITS)"

definition throttle_reasons_of :: "string \<Rightarrow> string list" where
  "throttle_reasons_of text =
     (case py_int0 text of
        None \<Rightarrow> []
      | Some msk \<Rightarrow> if msk = 0 then [] else reasons_of_mask msk)"

section \<open>The main table\<close>

text \<open>The stripped cells of a stripped line.\<close>

definition cells :: "string \<Rightarrow> string list" where
  "cells line = map strip (split_on (CHR '','') (strip line))"

definition new_gpu :: "string list \<Rightarrow> gpu" where
  "new_gpu parts =
     \<lparr>index = Some (gint (parts ! 0)), uuid = Some (parts ! 1), gname = Some (parts ! 2),
      utilization = Some (gval (parts ! 3)), util_memory = Some (gval (parts ! 4)),
      mem_used_mb = Some (gval (parts ! 5)), mem_total_mb = Some (gval (parts ! 6)),
      temperature = Some (gval (parts ! 7)), power_draw = Some (gval (parts ! 8)),
      power_limit = Some (gval (parts ! 9)), fan_speed = Some (gval (parts ! 10)),
      clock_graphics = 0, clock_memory = 0, clock_graphics_max = 0, clock_memory_max = 0,
      encoder_sessions = 0, decoder_sessions = 0, pstate = [], compute_mode = [],
      serial = Some [], pci_bus_id = Some [], mem_temperature = 0, throttle_mask = [], throttle_reasons = [],
      ecc_mode = [], ecc_supported = False,
      ecc_corrected_volatile = Some 0, ecc_uncorrected_volatile = Some 0,
      ecc_corrected_total = Some 0, ecc_uncorrected_total = Some 0,
      remapped_pending = 0, remapped_failure = 0, retired_pending = 0,
      pcie_gen_current = 0, pcie_gen_max = 0, pcie_width_current = Some 0, pcie_width_max = Some 0,
      gpu_processes = []\<rparr>"

definition read_gpu :: "string \<Rightarrow> gpu list \<times> string \<Rightarrow> gpu list \<times> string" where
  "read_gpu line acc =
     (let parts = cells line
      in if strip line = [] \<or> length parts < 12 then acc
         else (fst acc @ [new_gpu parts], parts ! 11))"

definition parse_gpus :: "string \<Rightarrow> gpu list \<times> string" where
  "parse_gpus text =
     (if strip text = [] \<or> contains ''__NO_NVIDIA__'' text then ([], [])
      else fold read_gpu (splitlines text) ([], []))"

section \<open>Merging the other tables\<close>

fun update_first :: "('a \<Rightarrow> bool) \<Rightarrow> ('a \<Rightarrow> 'a) \<Rightarrow> 'a list \<Rightarrow> 'a list" where
  "update_first P f [] = []"
| "update_first P f (x # xs) = (if P x then f x # xs else x # update_first P f xs)"

definition update_last_where :: "('a \<Rightarrow> bool) \<Rightarrow> ('a \<Rightarrow> 'a) \<Rightarrow> 'a list \<Rightarrow> 'a list" where
  "update_last_where P f xs = rev (update_first P f (rev xs))"

definition with_health :: "string list \<Rightarrow> gpu \<Rightarrow> gpu" where
  "with_health parts g = g\<lparr>
     serial := Some (parts ! 1), pci_bus_id := Some (parts ! 2), mem_temperature := gval (parts ! 3),
     throttle_mask := parts ! 4, throttle_reasons := throttle_reasons_of (parts ! 4),
     ecc_mode := (if is_na (parts ! 5) then [] else parts ! 5), ecc_supported := \<not> is_na (parts ! 5),
     ecc_corrected_volatile := Some (gint (parts ! 6)), ecc_uncorrected_volatile := Some (gint (parts ! 7)),
     ecc_corrected_total := Some (gint (parts ! 8)), ecc_uncorrected_total := Some (gint (parts ! 9)),
     remapped_pending := gint (parts ! 10), remapped_failure := gint (parts ! 11),
     retired_pending := gint (parts ! 12), pstate := parts ! 13,
     pcie_gen_current := gint (parts ! 14), pcie_gen_max := gint (parts ! 15),
     pcie_width_current := Some (gint (parts ! 16)), pcie_width_max := Some (gint (parts ! 17))\<rparr>"

definition read_health :: "string \<Rightarrow> gpu list \<Rightarrow> gpu list" where
  "read_health line gpus =
     (let parts = cells line
      in if strip line = [] \<or> length parts < 18 then gpus
         else update_last_where (\<lambda>g. index g = Some (gint (parts ! 0))) (with_health parts) gpus)"

definition merge_gpu_health :: "string \<Rightarrow> gpu list \<Rightarrow> gpu list" where
  "merge_gpu_health text gpus = (if strip text = [] then gpus else fold read_health (splitlines text) gpus)"

definition with_clocks :: "string list \<Rightarrow> gpu \<Rightarrow> gpu" where
  "with_clocks parts g =
     (let g1 = g\<lparr>clock_graphics := gval (parts ! 1), clock_memory := gval (parts ! 2),
               clock_graphics_max := gval (parts ! 3), clock_memory_max := gval (parts ! 4)\<rparr>;
          g2 = (if length parts > 5 then g1\<lparr>encoder_sessions := gint (parts ! 5)\<rparr> else g1)
      in if length parts > 6 then g2\<lparr>compute_mode := parts ! 6\<rparr> else g2)"

definition read_clocks :: "string \<Rightarrow> gpu list \<Rightarrow> gpu list" where
  "read_clocks line gpus =
     (let parts = cells line
      in if strip line = [] \<or> contains ''Field '' (strip line) \<or> length parts < 5 then gpus
         else update_last_where (\<lambda>g. index g = Some (gint (parts ! 0))) (with_clocks parts) gpus)"

definition merge_gpu_clocks :: "string \<Rightarrow> gpu list \<Rightarrow> gpu list" where
  "merge_gpu_clocks text gpus = (if strip text = [] then gpus else fold read_clocks (splitlines text) gpus)"

text \<open>The process names; a blank name leaves with \<open>IndexError\<close>.\<close>

fun app_names :: "string list \<Rightarrow> (int, string) dict \<Rightarrow> (int, string) dict option" where
  "app_names [] names = Some names"
| "app_names (line # lines) names =
     (let parts = cells line
      in if strip line = [] \<or> length parts < 2 then app_names lines names
         else case executable_name (parts ! 1) of
             None \<Rightarrow> None
           | Some name \<Rightarrow> app_names lines (AList.update (py_trunc (to_float (parts ! 0))) name names))"

definition app_entry :: "(int, string) dict \<Rightarrow> (int, proc) dict \<Rightarrow> string list \<Rightarrow> gpu_process" where
  "app_entry names ps_index parts =
     (let pid = py_trunc (to_float (parts ! 1));
          ps_proc = map_of ps_index pid;
          listed = (case ps_proc of Some p \<Rightarrow> pr_command p | None \<Rightarrow> []);
          name = (case map_of names pid of Some n \<Rightarrow> if n \<noteq> [] then n else listed | None \<Rightarrow> listed)
      in \<lparr>p_pid = Some pid, p_user = Some (case ps_proc of Some p \<Rightarrow> pr_user p | None \<Rightarrow> []),
          p_mem_mb = gval (last parts), p_command = take 80 name\<rparr>)"

definition add_process :: "gpu_process \<Rightarrow> gpu \<Rightarrow> gpu" where
  "add_process e g = g\<lparr>gpu_processes := gpu_processes g @ [e]\<rparr>"

definition read_app :: "(int, string) dict \<Rightarrow> (int, proc) dict \<Rightarrow> string \<Rightarrow> gpu list \<Rightarrow> gpu list" where
  "read_app names ps_index line gpus =
     (let parts = cells line; e = app_entry names ps_index parts
      in if strip line = [] \<or> length parts < 3 then gpus
         else if list_ex (\<lambda>g. uuid g = Some (parts ! 0)) gpus
         then update_last_where (\<lambda>g. uuid g = Some (parts ! 0)) (add_process e) gpus
         else (case gpus of [] \<Rightarrow> [] | g # gs \<Rightarrow> add_process e g # gs))"

definition merge_gpu_apps :: "string \<Rightarrow> string \<Rightarrow> (int, proc) dict \<Rightarrow> gpu list \<Rightarrow> gpu list option" where
  "merge_gpu_apps apps_text names_text ps_index gpus =
     do {
       names \<leftarrow> app_names (splitlines names_text) [];
       Some (fold (read_app names ps_index) (splitlines apps_text) gpus)
     }"

section \<open>The merges keep the cards and lose no process\<close>

lemma map_update_first: "(\<And>x. h (f x) = h x) \<Longrightarrow> map h (update_first P f xs) = map h xs"
  by (induction xs) auto

lemma map_update_last: "(\<And>x. h (f x) = h x) \<Longrightarrow> map h (update_last_where P f xs) = map h xs"
  by (simp add: update_last_where_def rev_map [symmetric] map_update_first)

definition identity_of :: "gpu \<Rightarrow> int option \<times> string option \<times> rat option \<times> rat option" where
  "identity_of g = (index g, uuid g, utilization g, temperature g)"

definition process_count :: "gpu list \<Rightarrow> nat" where
  "process_count gpus = sum_list (map (\<lambda>g. length (gpu_processes g)) gpus)"

lemma with_health_keeps: "identity_of (with_health parts g) = identity_of g"
  "length (gpu_processes (with_health parts g)) = length (gpu_processes g)"
  by (simp_all add: with_health_def identity_of_def)

lemma with_clocks_keeps: "identity_of (with_clocks parts g) = identity_of g"
  "length (gpu_processes (with_clocks parts g)) = length (gpu_processes g)"
  by (simp_all add: with_clocks_def identity_of_def Let_def)

lemma fold_keeps: "(\<And>l g. h (f l g) = h g) \<Longrightarrow> h (fold f ls g) = h g"
  by (induction ls arbitrary: g) auto

lemma read_health_keeps: "map identity_of (read_health l gpus) = map identity_of gpus"
  "process_count (read_health l gpus) = process_count gpus"
  by (simp_all add: read_health_def process_count_def Let_def map_update_last with_health_keeps)

lemma merge_gpu_health_keeps: "map identity_of (merge_gpu_health text gpus) = map identity_of gpus"
  "process_count (merge_gpu_health text gpus) = process_count gpus"
  by (simp_all add: merge_gpu_health_def fold_keeps [where h = "map identity_of"] fold_keeps [where h = process_count]
      read_health_keeps)

lemma read_clocks_keeps: "map identity_of (read_clocks l gpus) = map identity_of gpus"
  "process_count (read_clocks l gpus) = process_count gpus"
  by (simp_all add: read_clocks_def process_count_def Let_def map_update_last with_clocks_keeps)

lemma merge_gpu_clocks_keeps: "map identity_of (merge_gpu_clocks text gpus) = map identity_of gpus"
  "process_count (merge_gpu_clocks text gpus) = process_count gpus"
  by (simp_all add: merge_gpu_clocks_def fold_keeps [where h = "map identity_of"] fold_keeps [where h = process_count]
      read_clocks_keeps)

lemma process_count_update:
  "list_ex P gpus \<Longrightarrow> process_count (update_last_where P (add_process e) gpus) = Suc (process_count gpus)"
proof -
  have first: "list_ex P gs \<Longrightarrow> process_count (update_first P (add_process e) gs) = Suc (process_count gs)" for gs
    by (induction gs) (auto simp: process_count_def add_process_def)
  have rev: "process_count (rev gs) = process_count gs" for gs
    by (simp add: process_count_def rev_map [symmetric])
  assume "list_ex P gpus"
  then have "list_ex P (rev gpus)" by (auto simp: list_ex_iff)
  from first [OF this] show ?thesis by (simp add: update_last_where_def rev)
qed

lemma add_process_keeps: "identity_of (add_process e g) = identity_of g"
  by (simp add: add_process_def identity_of_def)

lemma read_app_keeps: "map identity_of (read_app names idx line gpus) = map identity_of gpus"
  by (cases gpus) (simp_all add: read_app_def Let_def map_update_last add_process_keeps)

lemma read_app_count:
  "gpus \<noteq> [] \<Longrightarrow> process_count (read_app names idx line gpus) =
     process_count gpus + (if strip line \<noteq> [] \<and> length (cells line) \<ge> 3 then 1 else 0)"
  by (cases gpus) (auto simp: read_app_def Let_def process_count_update, auto simp: process_count_def add_process_def)

lemma read_apps_count:
  "gpus \<noteq> [] \<Longrightarrow> process_count (fold (read_app names idx) ls gpus) =
     process_count gpus + length (filter (\<lambda>l. strip l \<noteq> [] \<and> length (cells l) \<ge> 3) ls)"
proof (induction ls arbitrary: gpus)
  case (Cons l ls)
  have "read_app names idx l gpus \<noteq> []"
    using Cons.prems read_app_keeps [of names idx l gpus] by (metis map_is_Nil_conv)
  from Cons.IH [OF this] show ?case using read_app_count [OF Cons.prems] by simp
qed simp

lemma parse_gpus_count: "process_count (fst (parse_gpus text)) = 0"
proof -
  have step: "process_count (fst (read_gpu l acc)) = process_count (fst acc)" for l acc
    by (simp add: read_gpu_def Let_def) (simp add: process_count_def new_gpu_def)
  have "process_count (fst (fold read_gpu ls acc)) = process_count (fst acc)" for ls acc
    by (induction ls arbitrary: acc) (simp_all add: step)
  then show ?thesis by (simp add: parse_gpus_def) (simp add: process_count_def)
qed

section \<open>Two ways to lose cards\<close>

text \<open>
  A GPU table with fewer than twelve columns is dropped as a whole, so that the eight-column
  query the remote script falls back to on old drivers yields a host without GPUs.
\<close>

theorem short_gpu_rows_dropped:
  assumes "list_all (\<lambda>l. length (cells l) < 12) (splitlines text)"
  shows "parse_gpus text = ([], [])"
proof -
  have "list_all (\<lambda>l. length (cells l) < 12) ls \<Longrightarrow> fold read_gpu ls acc = acc" for ls acc
    by (induction ls arbitrary: acc) (simp_all add: read_gpu_def Let_def)
  from this [OF assms] show ?thesis by (simp add: parse_gpus_def)
qed

definition minimal_row :: string where
  "minimal_row = ''0, GPU-11aa, Tesla K80, 97, 10240, 11441, 71, 390.157''"

theorem short_gpu_rows_dropped_witness: "parse_gpus minimal_row = ([], [])"
proof (rule short_gpu_rows_dropped)
  show "list_all (\<lambda>l. length (cells l) < 12) (splitlines minimal_row)" by code_simp
qed

text \<open>
  One process without a name in the compute-apps table makes the whole merge raise: the
  error of the empty name is not among those the loop catches.
\<close>

theorem blank_process_name_raises:
  assumes "list_ex (\<lambda>l. 2 \<le> length (cells l) \<and> strip (cells l ! 1) = [] \<and> strip l \<noteq> []) (splitlines names_text)"
  shows "merge_gpu_apps apps_text names_text ps gpus = None"
proof -
  have blank: "executable_name c = None" if "strip c = []" for c
    using that by (simp add: executable_name_def lstrip_def)
  have "list_ex (\<lambda>l. 2 \<le> length (cells l) \<and> strip (cells l ! 1) = [] \<and> strip l \<noteq> []) ls \<Longrightarrow>
      app_names ls names = None" for ls names
    by (induction ls arbitrary: names) (auto simp: Let_def blank split: option.splits)
  from this [OF assms] show ?thesis by (simp add: merge_gpu_apps_def)
qed

theorem blank_process_name_raises_witness:
  "merge_gpu_apps [] ''4242,'' [] [] = None"
  by (rule blank_process_name_raises) code_simp

end
