(* ===== verification/Transport.thy ===== *)
theory Transport
  imports PyText
begin

text \<open>
  \<open>backend/app/ssh_transport.py\<close>: host keys pinned on first use, replacement of a pin against an
  expected fingerprint, the choices \<open>connect_host\<close> makes before it opens a connection, and the
  classification of faults.  The key directory is a dictionary from file names to the parsed
  entries; permissions and \<open>fsync\<close> are not modelled.  The handshake of the SSH library and its
  fingerprint of a key are parameters.
\<close>

section \<open>Key files\<close>

record hostkey =
  key_name :: string
  key_bytes :: "nat list"

type_synonym key_entry = "string \<times> hostkey"
type_synonym key_files = "(string, key_entry list) dict"

definition bad_host_char :: "char \<Rightarrow> bool" where
  "bad_host_char c \<longleftrightarrow> is_space c \<or> code c < 33 \<or> code c = 127"

datatype exn_kind =
    CredentialDecryptionError
  | RootSshDisabledError
  | HostKeyFingerprintMismatch
  | AuthenticationException
  | BadHostKeyException
  | SSHException
  | GaiError
  | ConnectionRefusedError
  | TimeoutError
  | OSError
  | ValueError
  | OtherError

text \<open>An exception is its most specific class and its text.\<close>

type_synonym exn = "exn_kind \<times> string"

definition host_pattern :: "string \<Rightarrow> int \<Rightarrow> string" where
  "host_pattern host port = (if port \<noteq> 22 then ''['' @ host @ '']:'' @ show_int port else host)"

definition tofu_policy :: "string \<Rightarrow> int \<Rightarrow> exn + string" where
  "tofu_policy host port =
     (if host = [] \<or> list_ex bad_host_char host
      then Inl (ValueError, ''SSH host contains whitespace or control characters'')
      else Inr (host_pattern host port))"

text \<open>\<open>HostKeys.lookup(pattern)\<close>: the keys of the entries for that name, by key type.\<close>

definition lookup_keys :: "string \<Rightarrow> key_entry list \<Rightarrow> hostkey list" where
  "lookup_keys pat entries = map snd (filter (\<lambda>e. fst e = pat) entries)"

definition verify_recorded_key :: "key_entry list \<Rightarrow> string \<Rightarrow> hostkey \<Rightarrow> bool" where
  "verify_recorded_key entries pat key \<longleftrightarrow>
     (case find (\<lambda>k. key_name k = key_name key) (lookup_keys pat entries) of
        None \<Rightarrow> False
      | Some expected \<Rightarrow> key_bytes expected = key_bytes key)"

definition bad_key :: "string \<Rightarrow> exn" where
  "bad_key hostname = (BadHostKeyException, ''Host key for server '' @ hostname @ '' does not match'')"

text \<open>
  \<open>missing_host_key\<close>: \<open>files\<close> is the directory when the policy looks for the file, \<open>at_link\<close> when it
  publishes the new one (another process may have been faster); \<open>can_write\<close> tells whether the
  storage could be prepared and written.
\<close>

definition missing_host_key ::
    "bool \<Rightarrow> string \<Rightarrow> string \<Rightarrow> string \<Rightarrow> hostkey \<Rightarrow> key_files \<Rightarrow> key_files \<Rightarrow> exn + key_files" where
  "missing_host_key can_write path pat hostname key files at_link =
     (if \<not> can_write
      then Inl (SSHException, ''refusing SSH connection: cannot persist host key for '' @ hostname)
      else case map_of files path of
        Some entries \<Rightarrow> if verify_recorded_key entries pat key then Inr files else Inl (bad_key hostname)
      | None \<Rightarrow>
          (let fresh = [(pat, key)]
           in if \<not> verify_recorded_key fresh pat key then Inl (bad_key hostname)
              else case map_of at_link path of
                Some entries \<Rightarrow>
                  if verify_recorded_key entries pat key then Inr at_link else Inl (bad_key hostname)
              | None \<Rightarrow> Inr (AList.update path fresh at_link)))"

definition safe_char :: "char \<Rightarrow> bool" where
  "safe_char c \<longleftrightarrow> is_digit c \<or> is_upper c \<or> (97 \<le> code c \<and> code c \<le> 122)
     \<or> c = CHR ''_'' \<or> c = CHR ''.'' \<or> c = CHR ''-''"

definition hostkey_file :: "string \<Rightarrow> string" where
  "hostkey_file server_key = map (\<lambda>c. if safe_char c then c else CHR ''_'') server_key @ ''.keys''"

definition has_recorded_key :: "key_files \<Rightarrow> string \<Rightarrow> bool" where
  "has_recorded_key files server_key \<longleftrightarrow>
     (case map_of files (hostkey_file server_key) of None \<Rightarrow> False | Some entries \<Rightarrow> entries \<noteq> [])"

definition forget_hostkey :: "string \<Rightarrow> key_files \<Rightarrow> bool \<times> key_files" where
  "forget_hostkey server_key files =
     (if map_of files (hostkey_file server_key) = None then (False, files)
      else (True, AList.delete (hostkey_file server_key) files))"

section \<open>Expected fingerprints\<close>

definition rstrip_char :: "char \<Rightarrow> string \<Rightarrow> string" where
  "rstrip_char x s = rev (dropWhile (\<lambda>c. c = x) (rev s))"

definition b64_char :: "char \<Rightarrow> bool" where
  "b64_char c \<longleftrightarrow> is_digit c \<or> is_upper c \<or> (97 \<le> code c \<and> code c \<le> 122) \<or> c = CHR ''+'' \<or> c = CHR ''/''"

text \<open>
  The match of \<open>SHA256:[A-Za-z0-9+/]{43}\<close>.  Forty-three such characters and one pad decode to 32
  bytes, so that the two later checks of the source never fail.
\<close>

definition validate_expected_fingerprint :: "string \<Rightarrow> exn + string" where
  "validate_expected_fingerprint value =
     (let fp = rstrip_char (CHR ''='') (strip value)
      in if take 7 fp = ''SHA256:'' \<and> length fp = 50 \<and> list_all b64_char (drop 7 fp) then Inr fp
         else Inl (ValueError, ''expected fingerprint must use OpenSSH SHA256:... format''))"

text \<open>\<open>fetch\<close> is the key the remote end presents, \<open>fingerprint\<close> the library's fingerprint.\<close>

definition replace_hostkey ::
    "(hostkey \<Rightarrow> string) \<Rightarrow> (exn + hostkey) \<Rightarrow> string \<Rightarrow> int \<Rightarrow> string \<Rightarrow> string \<Rightarrow> key_files \<Rightarrow>
     exn + (string \<times> key_files)" where
  "replace_hostkey fingerprint fetch host port server_key expected_fingerprint files =
     (case validate_expected_fingerprint expected_fingerprint of
        Inl e \<Rightarrow> Inl e
      | Inr expected \<Rightarrow>
          (case tofu_policy host port of
             Inl e \<Rightarrow> Inl e
           | Inr pat \<Rightarrow>
               (case fetch of
                  Inl e \<Rightarrow> Inl e
                | Inr key \<Rightarrow>
                    let actual = rstrip_char (CHR ''='') (fingerprint key)
                    in if actual \<noteq> expected
                       then Inl (HostKeyFingerprintMismatch, ''host key fingerprint mismatch (received '' @ actual @ '')'')
                       else if \<not> verify_recorded_key [(pat, key)] pat key then Inl (bad_key host)
                       else Inr (actual, AList.update (hostkey_file server_key) [(pat, key)] files))))"

section \<open>Connecting\<close>

datatype policy = RejectPolicy | TofuPolicy string string

record plan =
  known_keys :: "key_entry list"
  unknown_key :: policy
  credential :: "string \<times> string"
  socket_address :: "string option"

definition alias_keys :: "string \<Rightarrow> int \<Rightarrow> string \<Rightarrow> key_entry list \<Rightarrow> key_entry list" where
  "alias_keys host port connect_address known =
     (if connect_address \<noteq> [] \<and> connect_address \<noteq> host \<and> lookup_keys (host_pattern host port) known = []
      then known @ map (\<lambda>k. (host_pattern host port, k)) (lookup_keys (host_pattern connect_address port) known)
      else known)"

definition connect_plan ::
    "bool \<Rightarrow> key_files \<Rightarrow> string \<Rightarrow> int \<Rightarrow> string \<Rightarrow> string \<Rightarrow> string \<Rightarrow> string \<Rightarrow> string \<Rightarrow> exn + plan" where
  "connect_plan allow_root files host port username password private_key server_key connect_address =
     (if lower (strip username) = ''root'' \<and> \<not> allow_root
      then Inl (RootSshDisabledError, ''root SSH is disabled; use a dedicated least-privilege gpumon account'')
      else let ident = (if server_key \<noteq> [] then server_key else host @ ''_'' @ show_int port);
               file = hostkey_file ident;
               use = (\<lambda>known pol. \<lparr>known_keys = alias_keys host port connect_address known, unknown_key = pol,
                        credential = (if private_key \<noteq> [] then (''key'', private_key) else (''password'', password)),
                        socket_address = (if connect_address \<noteq> [] then Some connect_address else None)\<rparr>)
           in if has_recorded_key files ident
              then Inr (use (case map_of files file of Some es \<Rightarrow> es | None \<Rightarrow> []) RejectPolicy)
              else case tofu_policy host port of
                Inl e \<Rightarrow> Inl e
              | Inr pat \<Rightarrow> Inr (use [] (TofuPolicy file pat)))"

text \<open>
  What the library's \<open>connect\<close> did with the planned keys: fail, find the host's key among them, or ask
  the policy about a key it does not know.  Authentication comes later and leaves the key files alone.
\<close>

datatype handshake = Failed exn | KnownKey | UnknownKey hostkey

definition connect_host ::
    "bool \<Rightarrow> bool \<Rightarrow> (plan \<Rightarrow> handshake) \<Rightarrow> string \<Rightarrow> int \<Rightarrow> string \<Rightarrow> string \<Rightarrow> string \<Rightarrow> string \<Rightarrow> string \<Rightarrow>
     key_files \<Rightarrow> (exn + unit) \<times> key_files" where
  "connect_host allow_root can_write shake host port username password private_key server_key connect_address files =
     (case connect_plan allow_root files host port username password private_key server_key connect_address of
        Inl e \<Rightarrow> (Inl e, files)
      | Inr plan \<Rightarrow>
          (case shake plan of
             Failed e \<Rightarrow> (Inl e, files)
           | KnownKey \<Rightarrow> (Inr (), files)
           | UnknownKey key \<Rightarrow>
               (case unknown_key plan of
                  RejectPolicy \<Rightarrow> (Inl (SSHException, ''Server not found in known_hosts''), files)
                | TofuPolicy path pat \<Rightarrow>
                    (case missing_host_key can_write path pat (host_pattern host port) key files files of
                       Inl e \<Rightarrow> (Inl e, files)
                     | Inr files' \<Rightarrow> (Inr (), files')))))"

section \<open>Fault classification\<close>

definition CHANGED_TEXT :: string where
  "CHANGED_TEXT = ''SSH '' @ utf8 [228, 184, 187, 230, 156, 186, 229, 175, 134, 233, 146, 165, 229, 143, 145, 231, 148, 159, 229, 143, 152, 229, 140, 150, 239, 188, 136, 229, 143, 175, 232, 131, 189, 232, 162, 171, 228, 184, 173, 233, 151, 180, 228, 186, 186, 230, 148, 187, 229, 135, 187, 230, 136, 150, 230, 156, 141, 229, 138, 161, 229, 153, 168, 233, 135, 141, 232, 163, 133, 239, 188, 140, 233, 156, 128, 228, 186, 186, 229, 183, 165, 231, 161, 174, 232, 174, 164, 229, 144, 142, 233, 135, 141, 231, 189, 174, 239, 188, 137]"

definition classify_ssh_error :: "int \<Rightarrow> exn \<Rightarrow> string \<times> string" where
  "classify_ssh_error connect_timeout e =
     (case e of (kind, msg) \<Rightarrow>
        if kind = CredentialDecryptionError
        then (''CRED_DECRYPT_FAILED'', utf8 [229, 183, 178, 228, 191, 157, 229, 173, 152, 231, 154, 132] @ '' SSH '' @ utf8 [229, 135, 173, 230, 141, 174, 230, 151, 160, 230, 179, 149, 232, 167, 163, 229, 175, 134, 239, 188, 136, 229, 135, 173, 230, 141, 174, 229, 138, 160, 229, 175, 134, 229, 175, 134, 233, 146, 165, 228, 184, 141, 229, 140, 185, 233, 133, 141, 239, 188, 137, 226, 128, 148, 226, 128, 148, 232, 175, 183, 230, 129, 162, 229, 164, 141, 230, 151, 167, 229, 175, 134, 233, 146, 165, 230, 136, 150, 233, 135, 141, 230, 150, 176, 229, 189, 149, 229, 133, 165, 229, 135, 173, 230, 141, 174])
        else if kind = RootSshDisabledError
        then (''SSH_ROOT_DISABLED'', utf8 [229, 183, 178, 231, 166, 129, 230, 173, 162] @ '' root SSH'' @ utf8 [239, 188, 140, 232, 175, 183, 230, 148, 185, 231, 148, 168, 228, 184, 147, 231, 148, 168, 228, 189, 142, 230, 157, 131, 233, 153, 144] @ '' gpumon '' @ utf8 [232, 180, 166, 229, 143, 183])
        else if kind = AuthenticationException
        then (''SSH_AUTH_FAILED'', ''SSH '' @ utf8 [232, 174, 164, 232, 175, 129, 229, 164, 177, 232, 180, 165, 239, 188, 136, 230, 163, 128, 230, 159, 165, 231, 148, 168, 230, 136, 183, 229, 144, 141] @ ''/'' @ utf8 [229, 175, 134, 231, 160, 129] @ ''/'' @ utf8 [229, 175, 134, 233, 146, 165, 239, 188, 137])
        else if kind = BadHostKeyException \<or> contains ''HOSTKEY_CHANGED'' msg
        then (''SSH_HOSTKEY_CHANGED'', CHANGED_TEXT)
        else if kind = GaiError then (''SSH_DNS_FAILED'', ''DNS '' @ utf8 [232, 167, 163, 230, 158, 144, 229, 164, 177, 232, 180, 165])
        else if kind = ConnectionRefusedError then (''SSH_REFUSED'', utf8 [232, 191, 158, 230, 142, 165, 232, 162, 171, 230, 139, 146, 231, 187, 157, 239, 188, 136] @ ''sshd '' @ utf8 [230, 156, 170, 232, 191, 144, 232, 161, 140, 230, 136, 150, 231, 171, 175, 229, 143, 163, 233, 148, 153, 232, 175, 175, 239, 188, 137])
        else if kind = TimeoutError
        then (''COLLECT_TIMEOUT'', utf8 [232, 191, 158, 230, 142, 165, 232, 182, 133, 230, 151, 182, 239, 188, 136] @ show_int connect_timeout @ ''s'' @ utf8 [239, 188, 137])
        else if kind = SSHException then (''SSH_DOWN'', ''SSH '' @ utf8 [229, 141, 143, 232, 174, 174, 233, 148, 153, 232, 175, 175])
        else if kind = OSError then (''SSH_DOWN'', utf8 [231, 189, 145, 231, 187, 156, 232, 191, 158, 230, 142, 165, 229, 164, 177, 232, 180, 165])
        else (''SSH_DOWN'', ''SSH '' @ utf8 [232, 191, 158, 230, 142, 165, 229, 164, 177, 232, 180, 165]))"

section \<open>Pins are never overwritten on connect\<close>

lemma verify_fresh: "verify_recorded_key [(pat, key)] pat key"
  by (simp add: verify_recorded_key_def lookup_keys_def)

text \<open>
  C13.  Trust on first use is sticky: when the policy accepts a key, the key file it leaves holds
  that very key for the host, and a file that was already there, whether before or written by
  another process in between, is neither changed nor removed.
\<close>

theorem tofu_never_overwrites:
  assumes "missing_host_key can_write path pat hostname key files at_link = Inr files'"
  shows "(\<exists>entries. map_of files' path = Some entries \<and> verify_recorded_key entries pat key) \<and>
    (if map_of files path = None then (\<forall>p entries. map_of at_link p = Some entries \<longrightarrow> map_of files' p = Some entries)
     else files' = files)"
  using assms
  by (auto simp: missing_host_key_def verify_fresh split: option.splits if_splits)

definition demo_key :: "nat \<Rightarrow> hostkey" where
  "demo_key b = \<lparr>key_name = ''ssh-ed25519'', key_bytes = [b]\<rparr>"

theorem tofu_never_overwrites_witness:
  "\<exists>entries. map_of [(''server_1.keys'', [(''gpu01'', demo_key 7)])] ''server_1.keys'' = Some entries \<and>
     verify_recorded_key entries ''gpu01'' (demo_key 7)"
proof -
  let ?files = "[(''server_1.keys'', [(''gpu01'', demo_key 7)])]"
  have "missing_host_key True ''server_1.keys'' ''gpu01'' ''gpu01'' (demo_key 7) ?files ?files = Inr ?files"
    by (simp add: missing_host_key_def verify_fresh)
  from tofu_never_overwrites [OF this] show ?thesis by blast
qed

text \<open>
  A pin is replaced only against proof: \<open>replace_hostkey\<close> succeeds only if the key it fetched
  has exactly the fingerprint the operator typed (up to surrounding space and padding), it then
  pins that key for that server, and no other server's file changes.
\<close>

theorem pin_replaced_only_on_match:
  assumes "replace_hostkey fingerprint fetch host port server_key expected files = Inr (actual, files')"
  shows "\<exists>key pat. fetch = Inr key \<and> actual = rstrip_char (CHR ''='') (fingerprint key) \<and>
    actual = rstrip_char (CHR ''='') (strip expected) \<and>
    map_of files' (hostkey_file server_key) = Some [(pat, key)] \<and> verify_recorded_key [(pat, key)] pat key \<and>
    (\<forall>p. p \<noteq> hostkey_file server_key \<longrightarrow> map_of files' p = map_of files p)"
  using assms
  by (auto simp: replace_hostkey_def validate_expected_fingerprint_def Let_def verify_fresh
      split: sum.splits if_splits)

definition demo_fingerprint :: string where
  "demo_fingerprint = ''SHA256:'' @ replicate 43 (CHR ''A'')"

theorem pin_replaced_only_on_match_witness:
  "\<exists>key. Inr (demo_key 9) = (Inr key :: exn + hostkey) \<and>
     demo_fingerprint = rstrip_char (CHR ''='') ((\<lambda>_. demo_fingerprint) key)"
proof -
  have "validate_expected_fingerprint demo_fingerprint = Inr demo_fingerprint" by code_simp
  moreover have "rstrip_char (CHR ''='') demo_fingerprint = demo_fingerprint" by code_simp
  moreover have "tofu_policy ''gpu01'' 22 = Inr ''gpu01''" by code_simp
  ultimately have "replace_hostkey (\<lambda>_. demo_fingerprint) (Inr (demo_key 9)) ''gpu01'' 22 ''server_1'' demo_fingerprint []
      = Inr (demo_fingerprint, [(hostkey_file ''server_1'', [(''gpu01'', demo_key 9)])])"
    by (simp add: replace_hostkey_def verify_fresh)
  from pin_replaced_only_on_match [OF this] show ?thesis by blast
qed

lemma hostkey_file_safe: "list_all safe_char (hostkey_file server_key)"
proof -
  have "list_all safe_char ''_.keys''" by (simp add: safe_char_def is_digit_def is_upper_def code_def)
  then show ?thesis by (auto simp: hostkey_file_def list_all_iff)
qed

lemma alias_keys_known: "snd ` set (alias_keys host port addr known) \<subseteq> snd ` set known"
  by (auto simp: alias_keys_def lookup_keys_def intro: rev_image_eqI)

text \<open>
  With root logins disabled no connection is planned for \<open>root\<close> in any spelling; the key file
  of a host is a plain name inside the key directory (no separator survives); and once a key is
  recorded for a host, unknown keys are rejected and only recorded keys are trusted.
\<close>

theorem connect_plan_is_safe:
  assumes "connect_plan False files host port username password private_key server_key addr = Inr plan"
    and "ident = (if server_key \<noteq> [] then server_key else host @ ''_'' @ show_int port)"
  shows "lower (strip username) \<noteq> ''root'' \<and> CHR ''/'' \<notin> set (hostkey_file ident) \<and>
    (if has_recorded_key files ident
     then unknown_key plan = RejectPolicy \<and>
       (\<exists>entries. map_of files (hostkey_file ident) = Some entries \<and> snd ` set (known_keys plan) \<subseteq> snd ` set entries)
     else unknown_key plan = TofuPolicy (hostkey_file ident) (host_pattern host port) \<and> known_keys plan = [])"
proof -
  have "\<not> safe_char (CHR ''/'')" by (simp add: safe_char_def is_digit_def is_upper_def code_def)
  then have slash: "CHR ''/'' \<notin> set (hostkey_file ident)" using hostkey_file_safe [of ident] by (auto simp: list_all_iff)
  have none: "alias_keys host port addr [] = []" by (simp add: alias_keys_def lookup_keys_def)
  show ?thesis
  proof (cases "has_recorded_key files ident")
    case True
    then obtain es where "map_of files (hostkey_file ident) = Some es" by (auto simp: has_recorded_key_def split: option.splits)
    with True assms have "lower (strip username) \<noteq> ''root''" "unknown_key plan = RejectPolicy"
      "known_keys plan = alias_keys host port addr es"
      by (simp_all add: connect_plan_def Let_def split: if_splits) auto
    then show ?thesis using True slash alias_keys_known [of host port addr es]
      \<open>map_of files (hostkey_file ident) = Some es\<close> by simp
  next
    case False
    with assms slash none show ?thesis
      by (auto simp: connect_plan_def Let_def tofu_policy_def split: if_splits)
  qed
qed

theorem connect_plan_is_safe_witness:
  "lower (strip ''gpumon'') \<noteq> ''root'' \<and> CHR ''/'' \<notin> set (hostkey_file ''server_1'')"
proof -
  have "connect_plan False [] ''gpu01'' 22 ''gpumon'' ''pw'' '''' ''server_1'' '''' = Inr
      \<lparr>known_keys = [], unknown_key = TofuPolicy (hostkey_file ''server_1'') ''gpu01'',
       credential = (''password'', ''pw''), socket_address = None\<rparr>"
    by code_simp
  from connect_plan_is_safe [OF this, of "''server_1''"] show ?thesis by simp
qed

end
