(* ===== verification/Collect.thy ===== *)
theory Collect
  imports GpuParse Transport
begin

text \<open>
  One poll of the fast tier, \<open>MetricResult\<close>, \<open>_parse_fast_output\<close>, \<open>collect\<close>, \<open>test_connection\<close>,
  \<open>live_processes\<close> and \<open>remote_command\<close> of \<open>backend/app/ssh_collector.py\<close>.  The SSH session is a
  parameter: what connecting, and each remote command, returned or raised.  A parse that leaves with
  an exception keeps the fields already set, as the source mutates its result in place: \<open>Inl\<close> is
  that partial result.
\<close>

section \<open>The result of a poll\<close>

record sample =
  c_ok :: bool
  c_error :: string
  c_error_code :: string
  c_duration :: rat
  c_ssh_latency :: rat
  c_hostname :: string
  c_os :: string
  c_kernel :: string
  c_uptime_seconds :: int
  c_boot_id :: string
  c_host_ts :: int
  c_cpu_model :: string
  c_cpu_count :: int
  c_cpu_percent :: rat
  c_cpu_iowait :: rat
  c_cpu_freq_avg :: rat
  c_cpu_temp_package :: rat
  c_cores :: "core list"
  c_load1 :: rat
  c_load5 :: rat
  c_load15 :: rat
  c_memory :: memory
  c_hugepages_total :: int
  c_hugepages_free :: int
  c_disk_io :: "disk_rate list"
  c_net_ifaces :: "net_rate list"
  c_disks :: "disk list"
  c_inodes :: "inode_use list"
  c_sock_estab :: int
  c_sock_timewait :: int
  c_sock_closewait :: int
  c_fd_allocated :: int
  c_fd_max :: int
  c_pid_max :: int
  c_gpu_driver :: string
  c_gpus :: "gpu list"
  c_processes :: "proc list"
  c_users :: "login list"
  c_kernel_log :: string

definition new_sample :: sample where
  "new_sample = \<lparr>c_ok = False, c_error = [], c_error_code = ''OK'', c_duration = 0, c_ssh_latency = 0,
     c_hostname = [], c_os = [], c_kernel = [], c_uptime_seconds = 0, c_boot_id = [], c_host_ts = 0,
     c_cpu_model = [], c_cpu_count = 0, c_cpu_percent = 0, c_cpu_iowait = 0, c_cpu_freq_avg = 0,
     c_cpu_temp_package = 0, c_cores = [], c_load1 = 0, c_load5 = 0, c_load15 = 0,
     c_memory = \<lparr>mem_total = 0, mem_used = 0, mem_available = 0, mem_cached = 0, swap_total = 0, swap_used = 0\<rparr>,
     c_hugepages_total = 0, c_hugepages_free = 0, c_disk_io = [], c_net_ifaces = [], c_disks = [], c_inodes = [],
     c_sock_estab = 0, c_sock_timewait = 0, c_sock_closewait = 0, c_fd_allocated = 0, c_fd_max = 0, c_pid_max = 0,
     c_gpu_driver = [], c_gpus = [], c_processes = [], c_users = [], c_kernel_log = []\<rparr>"

section \<open>Reading the output\<close>

definition read_identity :: "(string, string) dict \<Rightarrow> string \<Rightarrow> sample \<Rightarrow> sample" where
  "read_identity sec host r =
     (let uptime = split_ws (sec_get sec ''UPTIME'');
          load = split_ws (sec_get sec ''LOADAVG'');
          name = first_line (sec_get sec ''HOSTNAME'');
          r1 = r\<lparr>c_hostname := (if name \<noteq> [] then name else host),
            c_os := first_line (sec_get sec ''OS''), c_kernel := first_line (sec_get sec ''KERNEL''),
            c_boot_id := first_line (sec_get sec ''BOOTID''),
            c_host_ts := py_trunc (to_float (first_line (the_default ''0'' (map_of sec ''DATETIME'')))),
            c_uptime_seconds := (case uptime of [] \<Rightarrow> 0 | u # _ \<Rightarrow> py_trunc (to_float u))\<rparr>;
          r2 = (if length load \<ge> 3
                then r1\<lparr>c_load1 := to_float (load ! 0), c_load5 := to_float (load ! 1), c_load15 := to_float (load ! 2)\<rparr>
                else r1)
      in r2\<lparr>c_cpu_model := take 120 (first_line (sec_get sec ''CPUMODEL'')),
            c_cpu_count := py_trunc (to_float (first_line (the_default ''0'' (map_of sec ''CPUCOUNT''))))\<rparr>)"

definition freq_avg :: "core list \<Rightarrow> rat" where
  "freq_avg cores =
     (let freqs = filter (\<lambda>f. f > 0) (map (\<lambda>(i, u, f, t). f) cores)
      in if freqs = [] then 0 else of_int (py_round (of_int (sum_list freqs) / of_nat (length freqs))))"

definition round_memory :: "memory \<Rightarrow> memory" where
  "round_memory m = \<lparr>mem_total = py_round_to 1 (mem_total m), mem_used = py_round_to 1 (mem_used m),
     mem_available = py_round_to 1 (mem_available m), mem_cached = py_round_to 1 (mem_cached m),
     swap_total = py_round_to 1 (swap_total m), swap_used = py_round_to 1 (swap_used m)\<rparr>"

definition MAX_INT64 :: int where "MAX_INT64 = 2 ^ 63 - 1"

definition read_host :: "(string, string) dict \<Rightarrow> rat \<times> rat \<times> core list \<times> rat \<Rightarrow> sample \<Rightarrow> sample" where
  "read_host sec cpu r =
     (case cpu of
        (overall, iowait, cores, package) \<Rightarrow>
          let info = parse_meminfo (sec_get sec ''MEMINFO'');
              sock = parse_sockstat (sec_get sec ''SOCKETS'');
              fd = split_ws (sec_get sec ''FDNR'');
              r1 = r\<lparr>c_cpu_percent := overall, c_cpu_iowait := iowait, c_cpu_freq_avg := freq_avg cores,
                c_cpu_temp_package := package, c_cores := cores,
                c_memory := round_memory (memory_of info),
                c_hugepages_total := py_trunc (info_get info ''HugePages_Total''),
                c_hugepages_free := py_trunc (info_get info ''HugePages_Free''),
                c_disk_io := disk_rates (parse_diskstats (sec_get sec ''DISKSTATS1''))
                               (parse_diskstats (sec_get sec ''DISKSTATS2'')) 1,
                c_net_ifaces := net_rates (parse_netdev (sec_get sec ''NETDEV1''))
                               (parse_netdev (sec_get sec ''NETDEV2'')) 1 (parse_netlink (sec_get sec ''NETLINK2'')),
                c_disks := parse_df (sec_get sec ''DF''), c_inodes := parse_dfi (sec_get sec ''DFI''),
                c_sock_estab := fst sock, c_sock_timewait := snd sock\<rparr>;
              r2 = (if length fd \<ge> 3
                    then r1\<lparr>c_fd_allocated := min (py_trunc (to_float (fd ! 0))) MAX_INT64,
                            c_fd_max := min (py_trunc (to_float (fd ! 2))) MAX_INT64\<rparr>
                    else r1)
          in r2\<lparr>c_pid_max := py_trunc (to_float (first_line (the_default ''0'' (map_of sec ''PIDMAX''))))\<rparr>)"

definition ps_index :: "proc list \<Rightarrow> (int, proc) dict" where
  "ps_index procs = fold (\<lambda>p. AList.update (pr_pid p) p) procs []"

definition read_gpus :: "(string, string) dict \<Rightarrow> proc list \<Rightarrow> (gpu list \<times> string) option" where
  "read_gpus sec procs =
     (case parse_gpus (sec_get sec ''GPU'') of
        (gpus, driver) \<Rightarrow>
          do {
            merged \<leftarrow> merge_gpu_apps (sec_get sec ''GPUAPPS'') (sec_get sec ''GPUAPPNAME'') (ps_index procs)
                       (merge_gpu_clocks (sec_get sec ''GPUCLOCK'')
                         (merge_gpu_health (sec_get sec ''GPUHEALTH'') gpus));
            Some (merged, driver)
          })"

definition parse_fast_output :: "string \<Rightarrow> sample \<Rightarrow> string \<Rightarrow> sample + sample" where
  "parse_fast_output out result host =
     (let sec = split_sections out; r1 = read_identity sec host result
      in case parse_cpu (sec_get sec ''CPUSTAT1'') (sec_get sec ''CPUSTAT2'') (sec_get sec ''CPUFREQ'')
                (sec_get sec ''CPUTEMP'') (c_cpu_count r1) of
           None \<Rightarrow> Inl r1
         | Some cpu \<Rightarrow>
             let r2 = read_host sec cpu r1
             in case parse_ps (sec_get sec ''PS'') 500 False of
                  None \<Rightarrow> Inl r2
                | Some procs \<Rightarrow>
                    let r3 = r2\<lparr>c_processes := procs, c_users := [], c_kernel_log := sec_get sec ''KLOG''\<rparr>
                    in case read_gpus sec procs of
                         None \<Rightarrow> Inl r3
                       | Some (gpus, driver) \<Rightarrow> Inr (r3\<lparr>c_gpus := gpus, c_gpu_driver := driver\<rparr>))"

section \<open>A poll\<close>

text \<open>
  \<open>session\<close> is what the SSH library did: an exception on the way (with the latency measured if
  the connection had been made), or the latency, the exit code and the output of the script.
\<close>

datatype session =
    Raised "rat option" exn
  | Finished rat int string

definition collect :: "int \<Rightarrow> string \<Rightarrow> rat \<Rightarrow> session \<Rightarrow> sample" where
  "collect connect_timeout host elapsed session =
     (case session of
        Raised latency e \<Rightarrow>
          (case classify_ssh_error connect_timeout e of
             (ecode, msg) \<Rightarrow> new_sample\<lparr>c_ssh_latency := the_default 0 latency, c_error_code := ecode, c_error := msg\<rparr>)
      | Finished latency exit_code out \<Rightarrow>
          let r0 = new_sample\<lparr>c_ssh_latency := py_round_to 3 latency\<rparr>
          in if strip out = []
             then r0\<lparr>c_error_code := ''COLLECT_FAILED'',
                     c_error := ''remote collector returned no usable output (exit '' @ show_int exit_code @ '')''\<rparr>
             else case parse_fast_output out r0 host of
                    Inl partial \<Rightarrow> partial\<lparr>c_ok := False, c_error_code := ''COLLECT_FAILED'',
                      c_error := ''remote collector output could not be parsed''\<rparr>
                  | Inr r \<Rightarrow> r\<lparr>c_duration := py_round_to 2 elapsed, c_ok := True\<rparr>)"

section \<open>Connection tests and live views\<close>

type_synonym 'a remote = "exn + 'a"

definition test_connection :: "int \<Rightarrow> (int \<times> string) remote \<Rightarrow> bool \<times> string" where
  "test_connection connect_timeout session =
     (case session of
        Inl e \<Rightarrow> (False, snd (classify_ssh_error connect_timeout e))
      | Inr (exit_code, out) \<Rightarrow>
          if strip out = ''ok'' then (True, ''Connection successful'')
          else (False, ''Connected but command failed (exit '' @ show_int exit_code @ '')''))"

definition read_identity_line :: "string \<Rightarrow> (int, int) dict \<Rightarrow> (int, int) dict" where
  "read_identity_line line ids =
     (case split_ws line of
        [p, t] \<Rightarrow> (case (py_int p, py_int t) of
             (Some pid, Some ticks) \<Rightarrow> AList.update pid ticks ids
           | _ \<Rightarrow> ids)
      | _ \<Rightarrow> ids)"

definition with_ticks :: "string \<Rightarrow> proc list \<Rightarrow> proc list" where
  "with_ticks identity_out procs =
     (let ids = fold read_identity_line (splitlines identity_out) []
      in map (\<lambda>p. p\<lparr>pr_start_ticks := the_default 0 (map_of ids (pr_pid p))\<rparr>) procs)"

text \<open>
  \<open>run\<close> answers the two remote commands in turn: the process table, then, for the listed ids, the
  start ticks.  \<open>limit\<close> 0 stands for 5000.
\<close>

definition live_processes ::
    "int \<Rightarrow> nat \<Rightarrow> string remote \<Rightarrow> (int list \<Rightarrow> string remote) \<Rightarrow> string + proc list" where
  "live_processes connect_timeout limit table ticks =
     (let fail = (\<lambda>e. Inl (snd (classify_ssh_error connect_timeout e)))
      in case table of
           Inl e \<Rightarrow> fail e
         | Inr out \<Rightarrow>
             (case parse_ps out (if limit \<noteq> 0 then limit else 5000) True of
                None \<Rightarrow> fail (OtherError, ''list index out of range'')
              | Some procs \<Rightarrow>
                  let pids = filter (\<lambda>p. p \<noteq> 0) (map pr_pid procs)
                  in if pids = [] then Inr procs
                     else case ticks pids of
                            Inl e \<Rightarrow> fail e
                          | Inr identity_out \<Rightarrow> Inr (with_ticks identity_out procs)))"

definition remote_command :: "int \<Rightarrow> (int \<times> string \<times> string) remote \<Rightarrow> bool \<times> string" where
  "remote_command connect_timeout session =
     (case session of
        Inl e \<Rightarrow> (False, snd (classify_ssh_error connect_timeout e))
      | Inr (exit_code, out, err) \<Rightarrow>
          let msg = take 500 (if strip out \<noteq> [] then strip out else strip err)
          in (exit_code = 0, if msg \<noteq> [] then msg else ''exit '' @ show_int exit_code))"

section \<open>Every sample is within bounds and free of personal data\<close>

definition sample_ok :: "sample \<Rightarrow> bool" where
  "sample_ok r \<longleftrightarrow>
     0 \<le> c_cpu_percent r \<and> c_cpu_percent r \<le> 100 \<and> 0 \<le> c_cpu_iowait r \<and> c_cpu_iowait r \<le> 100 \<and>
     cores_ok (c_cores r) \<and> 0 \<le> c_cpu_freq_avg r \<and>
     length (c_disk_io r) \<le> 16 \<and> list_all disk_rate_ok (c_disk_io r) \<and>
     distinct (map mount (c_disks r)) \<and> c_fd_allocated r \<le> MAX_INT64 \<and> c_fd_max r \<le> MAX_INT64 \<and>
     length (c_processes r) \<le> 500 \<and> list_all (\<lambda>p. pr_user p = [] \<and> bare_name (pr_command p)) (c_processes r) \<and>
     c_users r = []"

lemma sample_ok_new: "sample_ok new_sample"
  by (simp add: sample_ok_def new_sample_def cores_ok_def MAX_INT64_def)

lemma sample_ok_status [simp]:
  "sample_ok (r\<lparr>c_ok := b\<rparr>) = sample_ok r" "sample_ok (r\<lparr>c_error := e\<rparr>) = sample_ok r"
  "sample_ok (r\<lparr>c_error_code := e\<rparr>) = sample_ok r" "sample_ok (r\<lparr>c_duration := q\<rparr>) = sample_ok r"
  "sample_ok (r\<lparr>c_ssh_latency := q\<rparr>) = sample_ok r" "sample_ok (r\<lparr>c_gpus := gs\<rparr>) = sample_ok r"
  "sample_ok (r\<lparr>c_gpu_driver := e\<rparr>) = sample_ok r" "sample_ok (r\<lparr>c_kernel_log := e\<rparr>) = sample_ok r"
  by (simp_all add: sample_ok_def)

lemma sample_ok_identity: "sample_ok r \<Longrightarrow> sample_ok (read_identity sec host r)"
  by (simp add: sample_ok_def read_identity_def Let_def)

lemma freq_avg_nonneg: "0 \<le> freq_avg cores"
proof -
  have "0 \<le> sum_list (filter (\<lambda>f. f > 0) fs)" for fs :: "int list" by (rule sum_list_nonneg) auto
  then show ?thesis by (auto simp: freq_avg_def Let_def intro!: py_round_nonneg)
qed

lemma sample_ok_host:
  assumes "sample_ok r" and "parse_cpu s1 s2 freqs temps n = Some cpu"
  shows "sample_ok (read_host sec cpu r)"
proof -
  obtain overall iowait cores package where cpu: "cpu = (overall, iowait, cores, package)" by (cases cpu)
  note ok = parse_cpu_ok [OF assms(2) [unfolded cpu]]
  have "list_all disk_rate_ok (disk_rates d1 d2 1)" for d1 d2 by (simp add: list_all_iff disk_rates_ok)
  then show ?thesis using assms(1) ok parse_df_mounts [of "sec_get sec ''DF''"]
    by (simp add: cpu read_host_def Let_def sample_ok_def freq_avg_nonneg disk_rates_length)
qed

lemma sample_ok_procs:
  assumes "sample_ok r" and "parse_ps text 500 False = Some procs"
  shows "sample_ok (r\<lparr>c_processes := procs, c_users := []\<rparr>)"
  using assms parse_ps_length [OF assms(2)] parse_ps_private [OF assms(2)]
  by (simp add: sample_ok_def list_all_iff)

lemma parse_fast_output_ok:
  assumes "sample_ok r" shows "case parse_fast_output out r host of Inl r' \<Rightarrow> sample_ok r' | Inr r' \<Rightarrow> sample_ok r'"
proof -
  define sec where "sec = split_sections out"
  define r1 where "r1 = read_identity sec host r"
  have r1: "sample_ok r1" unfolding r1_def by (rule sample_ok_identity) (rule assms)
  show ?thesis
  proof (cases "parse_cpu (sec_get sec ''CPUSTAT1'') (sec_get sec ''CPUSTAT2'') (sec_get sec ''CPUFREQ'')
      (sec_get sec ''CPUTEMP'') (c_cpu_count r1)")
    case None
    then show ?thesis using r1 by (simp add: parse_fast_output_def Let_def sec_def r1_def)
  next
    case (Some cpu)
    define r2 where "r2 = read_host sec cpu r1"
    have r2: "sample_ok r2" unfolding r2_def by (rule sample_ok_host [OF r1 Some])
    show ?thesis
    proof (cases "parse_ps (sec_get sec ''PS'') 500 False")
      case None
      then show ?thesis using r2 Some by (simp add: parse_fast_output_def Let_def sec_def r1_def r2_def)
    next
      case procs: (Some procs)
      have "sample_ok (r2\<lparr>c_processes := procs, c_users := []\<rparr>)" by (rule sample_ok_procs [OF r2 procs])
      then show ?thesis using Some procs
        by (simp add: parse_fast_output_def Let_def sec_def r1_def r2_def split: option.splits)
    qed
  qed
qed

text \<open>
  Whatever the remote host prints, and whatever fails, a poll yields a sample within bounds:
  processor figures in 0..100 per core and overall, at most 16 disks with non-negative rates and
  busy time in 0..100, each mount listed once, handle counts that fit a signed 64-bit column, at
  most 500 processes; and no process row carries a user, an argument or a path, and no logins.
\<close>

theorem samples_bounded_and_private: "sample_ok (collect connect_timeout host elapsed session)"
proof (cases session)
  case (Raised latency e)
  then show ?thesis by (simp add: collect_def sample_ok_new split: prod.splits)
next
  case (Finished latency exit_code out)
  have "sample_ok (new_sample\<lparr>c_ssh_latency := py_round_to 3 latency\<rparr>)" by (simp add: sample_ok_new)
  from parse_fast_output_ok [OF this, of out host] show ?thesis
    by (auto simp: Finished collect_def Let_def sample_ok_new split: sum.splits)
qed

section \<open>Success and error codes\<close>

lemma read_identity_status: "c_error_code (read_identity sec host r) = c_error_code r" "c_ok (read_identity sec host r) = c_ok r"
  by (simp_all add: read_identity_def Let_def)

lemma read_host_status: "c_error_code (read_host sec cpu r) = c_error_code r" "c_ok (read_host sec cpu r) = c_ok r"
  by (simp_all add: read_host_def Let_def split: prod.splits)

lemma parse_fast_output_status:
  "parse_fast_output out r host = Inr r' \<Longrightarrow> c_error_code r' = c_error_code r"
  by (auto simp: parse_fast_output_def Let_def read_identity_status read_host_status split: option.splits)

lemma classified_codes: "fst (classify_ssh_error t e) \<notin> {''OK'', ''COLLECT_FAILED''}"
  by (simp add: classify_ssh_error_def split: prod.splits)

text \<open>
  A poll is successful exactly if its code is \<open>OK\<close>; the code of an SSH fault is never given
  to a session that finished, and a finished session fails only as \<open>COLLECT_FAILED\<close>, so that an
  error of the parser never looks like a fault of the network.
\<close>

theorem error_codes_separate_faults:
  "case session of
     Raised latency e \<Rightarrow>
       \<not> c_ok (collect t host elapsed session) \<and>
       c_error_code (collect t host elapsed session) = fst (classify_ssh_error t e) \<and>
       c_error_code (collect t host elapsed session) \<notin> {''OK'', ''COLLECT_FAILED''}
   | Finished latency exit_code out \<Rightarrow>
       c_error_code (collect t host elapsed session) =
         (if c_ok (collect t host elapsed session) then ''OK'' else ''COLLECT_FAILED'')"
proof (cases session)
  case (Raised latency e)
  then show ?thesis using classified_codes [of t e]
    by (cases "classify_ssh_error t e") (simp add: collect_def new_sample_def)
next
  case (Finished latency exit_code out)
  then show ?thesis
    by (auto simp: collect_def Let_def new_sample_def split: sum.splits dest: parse_fast_output_status)
qed

section \<open>No process of a card is lost\<close>

lemma read_gpus_count:
  assumes "read_gpus sec procs = Some (gpus, driver)"
  shows "map identity_of gpus = map identity_of (fst (parse_gpus (sec_get sec ''GPU''))) \<and>
    (gpus = [] \<or> process_count gpus =
       length (filter (\<lambda>l. strip l \<noteq> [] \<and> length (cells l) \<ge> 3) (splitlines (sec_get sec ''GPUAPPS''))))"
proof -
  obtain gs drv where table: "parse_gpus (sec_get sec ''GPU'') = (gs, drv)" by force
  let ?merged = "merge_gpu_clocks (sec_get sec ''GPUCLOCK'') (merge_gpu_health (sec_get sec ''GPUHEALTH'') gs)"
  obtain names where gpus: "gpus = fold (read_app names (ps_index procs)) (splitlines (sec_get sec ''GPUAPPS'')) ?merged"
    using assms by (auto simp: read_gpus_def table merge_gpu_apps_def bind_eq_Some_conv)
  have ids: "map identity_of gpus = map identity_of gs"
    unfolding gpus
    by (simp add: fold_keeps [where h = "map identity_of"] read_app_keeps merge_gpu_clocks_keeps merge_gpu_health_keeps)
  moreover have "process_count ?merged = 0"
    using parse_gpus_count [of "sec_get sec ''GPU''"] by (simp add: table merge_gpu_clocks_keeps merge_gpu_health_keeps)
  moreover have "?merged = [] \<longleftrightarrow> gpus = []"
    using ids merge_gpu_clocks_keeps(1) merge_gpu_health_keeps(1) by (metis map_is_Nil_conv)
  ultimately show ?thesis using read_apps_count [of ?merged] unfolding gpus table by auto
qed

text \<open>
  Merging the health, clock and process tables neither adds, drops, reorders nor relabels a
  card: index, UUID, utilisation and temperature stay those of the main table; and every
  well-formed row of the compute-apps table is attached to exactly one card.
\<close>

theorem gpu_merges_conserve:
  "case read_gpus sec procs of
     Some (gpus, driver) \<Rightarrow>
       map identity_of gpus = map identity_of (fst (parse_gpus (sec_get sec ''GPU''))) \<and>
       (gpus = [] \<or> process_count gpus =
          length (filter (\<lambda>l. strip l \<noteq> [] \<and> length (cells l) \<ge> 3) (splitlines (sec_get sec ''GPUAPPS''))))
   | None \<Rightarrow> True"
  by (cases "read_gpus sec procs") (auto dest: read_gpus_count)

end
