(* ===== verification/Extra.thy ===== *)
theory Extra
  imports Collect
begin

text \<open>
  The slow, inventory and kernel tiers, \<open>backend/app/collectors_extra.py\<close>.  Regular expressions are
  written as matchers: \<open>first_match\<close> is \<open>re.search\<close>, a matcher returns what its groups hold and the
  rest of the text.  A parser that may raise yields an option.  Patterns that ignore case are
  matched on the lowered line.
\<close>

section \<open>Matching\<close>

fun first_match :: "(string \<Rightarrow> 'a option) \<Rightarrow> string \<Rightarrow> 'a option" where
  "first_match f [] = f []"
| "first_match f (c # cs) = (case f (c # cs) of Some r \<Rightarrow> Some r | None \<Rightarrow> first_match f cs)"

fun last_match :: "(string \<Rightarrow> 'a option) \<Rightarrow> string \<Rightarrow> 'a option" where
  "last_match f [] = f []"
| "last_match f (c # cs) = (case last_match f cs of Some r \<Rightarrow> Some r | None \<Rightarrow> f (c # cs))"

definition lit :: "string \<Rightarrow> string \<Rightarrow> string option" where
  "lit p s = (if is_prefix p s then Some (drop (length p) s) else None)"

definition spaces1 :: "string \<Rightarrow> string option" where
  "spaces1 s = (if lstrip s \<noteq> s then Some (lstrip s) else None)"

definition span_of :: "(char \<Rightarrow> bool) \<Rightarrow> string \<Rightarrow> (string \<times> string) option" where
  "span_of P s = (if takeWhile P s \<noteq> [] then Some (takeWhile P s, dropWhile P s) else None)"

definition number :: "string \<Rightarrow> (int \<times> string) option" where
  "number s = do { (ds, rest) \<leftarrow> span_of is_digit s; n \<leftarrow> py_int ds; Some (n, rest) }"

definition found_at :: "string \<Rightarrow> (string \<Rightarrow> bool) \<Rightarrow> string \<Rightarrow> bool" where
  "found_at p ok s \<longleftrightarrow>
     first_match (\<lambda>t. case lit p t of Some rest \<Rightarrow> if ok rest then Some () else None | None \<Rightarrow> None) s \<noteq> None"

definition contains_any :: "string list \<Rightarrow> string \<Rightarrow> bool" where
  "contains_any ps s \<longleftrightarrow> list_ex (\<lambda>p. contains p s) ps"

section \<open>NVMe SMART\<close>

definition is_key_char :: "char \<Rightarrow> bool" where
  "is_key_char c \<longleftrightarrow> is_word_char c \<or> is_space c \<or> c \<in> set ''%()-''"

text \<open>\<open>^(/dev/\S+)\s+(.*)$\<close>, then \<open>^(key)\s*:\s*(.+)$\<close>; the key in its dictionary form.\<close>

definition smart_line :: "string \<Rightarrow> (string \<times> (string \<times> string) option) option" where
  "smart_line line =
     do {
       rest0 \<leftarrow> lit ''/dev/'' line;
       (name, rest1) \<leftarrow> span_of (\<lambda>c. \<not> is_space c) rest0;
       rest \<leftarrow> spaces1 rest1;
       Some (''/dev/'' @ name,
         (case partition_on (CHR '':'') rest of
            (key, found, val) \<Rightarrow>
              if found \<and> key \<noteq> [] \<and> list_all is_key_char key \<and> lstrip val \<noteq> []
              then Some (map (\<lambda>c. if c = CHR '' '' then CHR ''_'' else c) (lower (strip key)), strip val)
              else None))
     }"

definition PLAIN_KEYS :: "string list" where
  "PLAIN_KEYS = [''temperature'', ''available_spare'', ''available_spare_threshold'', ''percentage_used'',
     ''power_cycles'', ''unsafe_shutdowns'']"

definition COMMA_KEYS :: "string list" where
  "COMMA_KEYS = [''data_units_read'', ''data_units_written'', ''power_on_hours'', ''media_errors'',
     ''num_err_log_entries'']"

type_synonym smart = "(string, int) dict"

text \<open>\<open>None\<close>: the conversion of a text of commas raises.\<close>

definition smart_value :: "string \<Rightarrow> string \<Rightarrow> smart \<Rightarrow> smart option" where
  "smart_value key val d =
     (if key = ''critical_warning'' then
        Some (AList.update key
          (case py_int0 (case split_ws val of w # _ \<Rightarrow> w | [] \<Rightarrow> []) of
             Some n \<Rightarrow> n
           | None \<Rightarrow> (case number val of Some (n, _) \<Rightarrow> n | None \<Rightarrow> 0)) d)
      else if key \<in> set PLAIN_KEYS then
        Some (case number val of Some (n, _) \<Rightarrow> AList.update key n d | None \<Rightarrow> d)
      else if key \<in> set COMMA_KEYS then
        (case span_of (\<lambda>c. is_digit c \<or> c = CHR '','') val of
           None \<Rightarrow> Some d
         | Some (ds, _) \<Rightarrow> map_option (\<lambda>n. AList.update key n d) (py_int (filter (\<lambda>c. c \<noteq> CHR '','') ds)))
      else Some d)"

fun read_smart :: "string list \<Rightarrow> (string, smart) dict \<Rightarrow> (string, smart) dict option" where
  "read_smart [] per_dev = Some per_dev"
| "read_smart (line # lines) per_dev =
     (case smart_line (strip line) of
        None \<Rightarrow> read_smart lines per_dev
      | Some (dev, None) \<Rightarrow> read_smart lines (setdefault dev [] per_dev)
      | Some (dev, Some (key, val)) \<Rightarrow>
          (let d1 = setdefault dev [] per_dev
           in case smart_value key val (the_default [] (map_of d1 dev)) of
                None \<Rightarrow> None
              | Some d \<Rightarrow> read_smart lines (AList.update dev d d1)))"

definition parse_nvme_smart :: "string \<Rightarrow> (string, smart) dict option" where
  "parse_nvme_smart text = read_smart (splitlines text) []"

definition nvme_entry_of :: "string \<times> smart \<Rightarrow> nvme_entry" where
  "nvme_entry_of p =
     \<lparr>nv_device = Some (fst p), nv_critical_warning = map_of (snd p) ''critical_warning'',
      nv_available_spare = map_of (snd p) ''available_spare'',
      nv_available_spare_threshold = map_of (snd p) ''available_spare_threshold'',
      nv_media_errors = map_of (snd p) ''media_errors'',
      nv_percentage_used = map_of (snd p) ''percentage_used''\<rparr>"

section \<open>Software RAID\<close>

record md_parsed = md_array +
  md_degraded :: bool
  md_recovery :: "rat option"

definition level_at :: "string \<Rightarrow> string option" where
  "level_at s =
     (case lit ''raid'' s of
        Some rest \<Rightarrow> (case span_of is_digit rest of Some (ds, _) \<Rightarrow> Some (''raid'' @ ds) | None \<Rightarrow> None)
      | None \<Rightarrow> find (\<lambda>w. is_prefix w s) [''linear'', ''multipath'', ''faulty''])"

definition status_at :: "string \<Rightarrow> (int \<times> int \<times> string) option" where
  "status_at s =
     do {
       r1 \<leftarrow> lit ''['' s;
       (a, r2) \<leftarrow> number r1;
       r3 \<leftarrow> lit ''/'' r2;
       (b, r4) \<leftarrow> number r3;
       r5 \<leftarrow> lit '']'' r4;
       r6 \<leftarrow> spaces1 r5;
       r7 \<leftarrow> lit ''['' r6;
       (st, r8) \<leftarrow> span_of (\<lambda>c. c = CHR ''U'' \<or> c = CHR ''_'') r7;
       r9 \<leftarrow> lit '']'' r8;
       Some (a, b, st)
     }"

definition recovery_at :: "string \<Rightarrow> rat option" where
  "recovery_at s =
     do {
       r1 \<leftarrow> lit ''recovery'' s;
       r2 \<leftarrow> lit ''='' (lstrip r1);
       (whole, r3) \<leftarrow> span_of is_digit (lstrip r2);
       case do { r4 \<leftarrow> lit ''.'' r3; (fr, r5) \<leftarrow> span_of is_digit r4; r6 \<leftarrow> lit ''%'' r5; py_float (whole @ ''.'' @ fr) } of
         Some q \<Rightarrow> Some q
       | None \<Rightarrow> do { r4 \<leftarrow> lit ''%'' r3; py_float whole }
     }"

definition md_line :: "string \<Rightarrow> (string \<times> string) option" where
  "md_line line =
     do {
       r1 \<leftarrow> lit ''md'' line;
       (ds, r2) \<leftarrow> span_of is_digit r1;
       r3 \<leftarrow> lit '':'' (lstrip r2);
       Some (''md'' @ ds, lstrip r3)
     }"

definition read_array :: "string \<Rightarrow> string \<Rightarrow> md_parsed" where
  "read_array name rest =
     (let level = the_default [] (first_match level_at rest);
          recov = first_match recovery_at rest
      in case first_match status_at rest of
           None \<Rightarrow> \<lparr>md_name = Some name, md_level = level, md_state = [], md_active_disks = None,
                    md_total_disks = None, md_degraded = False, md_recovery = recov\<rparr>
         | Some (a, b, st) \<Rightarrow>
             \<lparr>md_name = Some name, md_level = level, md_state = st, md_active_disks = Some a,
              md_total_disks = Some b, md_degraded = (CHR ''_'' \<in> set st), md_recovery = recov\<rparr>)"

definition personality_at :: "string \<Rightarrow> (string \<times> string) option" where
  "personality_at s = (case level_at s of Some w \<Rightarrow> Some (w, drop (length w) s) | None \<Rightarrow> None)"

text \<open>\<open>re.findall\<close>: the matches from left to right, none overlapping another.\<close>

function find_all :: "(string \<Rightarrow> ('a \<times> string) option) \<Rightarrow> string \<Rightarrow> 'a list" where
  "find_all f s =
     (case f s of
        Some (x, rest) \<Rightarrow> if length rest < length s then x # find_all f rest else []
      | None \<Rightarrow> (case s of [] \<Rightarrow> [] | c # cs \<Rightarrow> find_all f cs))"
  by auto
termination by (relation "measure (\<lambda>(f, s). length s)") auto

declare find_all.simps [simp del]

text \<open>The text between the first bracket after the colon and the last closing bracket.\<close>

definition personalities_text :: "string \<Rightarrow> string option" where
  "personalities_text line =
     do {
       r1 \<leftarrow> lit ''Personalities'' line;
       r2 \<leftarrow> lit '':'' (lstrip r1);
       r3 \<leftarrow> lit ''['' (lstrip r2);
       (if CHR '']'' \<in> set r3 then Some (rev (drop 1 (dropWhile (\<lambda>c. c \<noteq> CHR '']'') (rev r3)))) else None)
     }"

record mdstat =
  md_personalities :: "string list"
  md_arrays :: "md_parsed list"

definition mdstat_line :: "string \<Rightarrow> mdstat \<Rightarrow> mdstat" where
  "mdstat_line line out =
     (case personalities_text (strip line) of
        Some body \<Rightarrow> out\<lparr>md_personalities := find_all personality_at body\<rparr>
      | None \<Rightarrow>
          (case md_line (strip line) of
             Some (name, rest) \<Rightarrow> out\<lparr>md_arrays := md_arrays out @ [read_array name rest]\<rparr>
           | None \<Rightarrow> out))"

definition parse_mdstat :: "string \<Rightarrow> mdstat" where
  "parse_mdstat text = fold mdstat_line (splitlines text) \<lparr>md_personalities = [], md_arrays = []\<rparr>"

section \<open>The other tables of the slow tier\<close>

definition parse_nfs_line :: "string \<Rightarrow> nfs_mount option" where
  "parse_nfs_line line =
     (case split_ws line of
        fs # mnt # fstype # _ # _ \<Rightarrow>
          if contains_any [''nfs'', ''lustre'', ''ceph'', ''gluster'', ''gpfs'', ''beegfs''] fstype
          then (case partition_on (CHR '':'') fs of
                  (left, found, right) \<Rightarrow>
                    Some \<lparr>nfs_server = (if found then left else []), nfs_export = (if found then right else fs),
                          nfs_mount_point = mnt, nfs_type = fstype\<rparr>)
          else None
      | _ \<Rightarrow> None)"

definition parse_nfs :: "string \<Rightarrow> nfs_mount list" where
  "parse_nfs text = take 20 (List.map_filter parse_nfs_line (splitlines text))"

record unit_row =
  unit_name :: string
  unit_load :: string
  unit_active :: string
  unit_sub :: string
  unit_description :: string

definition ends_with :: "string \<Rightarrow> string \<Rightarrow> bool" where
  "ends_with suffix s \<longleftrightarrow> length suffix \<le> length s \<and> drop (length s - length suffix) s = suffix"

definition parse_failed_line :: "string \<Rightarrow> unit_row option" where
  "parse_failed_line line =
     (let parts = split_ws_max 4 line
      in if length parts \<ge> 4 \<and> ends_with ''.service'' (parts ! 0)
         then Some \<lparr>unit_name = parts ! 0, unit_load = parts ! 1, unit_active = parts ! 2, unit_sub = parts ! 3,
                unit_description = (if length parts > 4 then strip (parts ! 4) else [])\<rparr>
         else None)"

definition parse_systemd_failed :: "string \<Rightarrow> unit_row list" where
  "parse_systemd_failed text = take 20 (List.map_filter parse_failed_line (splitlines text))"

definition parse_service_line :: "string \<Rightarrow> (string, string) dict \<Rightarrow> (string, string) dict" where
  "parse_service_line line acc =
     (case split_ws line of s # st # _ \<Rightarrow> AList.update s st acc | _ \<Rightarrow> acc)"

definition parse_services :: "string \<Rightarrow> (string, string) dict" where
  "parse_services text = fold parse_service_line (splitlines text) []"

definition is_number_text :: "string \<Rightarrow> bool" where
  "is_number_text s \<longleftrightarrow> s \<noteq> [] \<and> list_all is_digit s"

definition comma_parts :: "string \<Rightarrow> string list" where
  "comma_parts line = map strip (split_on (CHR '','') line)"

definition parse_mig_line :: "string \<Rightarrow> (int, string) dict \<Rightarrow> (int, string) dict" where
  "parse_mig_line line modes =
     (case comma_parts line of
        i # mode # _ \<Rightarrow>
          if is_number_text i \<and> mode \<notin> {''[N/A]'', ''N/A'', ''Not Supported'', ''[Not Supported]''}
          then (case py_int i of Some n \<Rightarrow> AList.update n mode modes | None \<Rightarrow> modes) else modes
      | _ \<Rightarrow> modes)"

definition parse_mig :: "string \<Rightarrow> (int \<times> string) list" where
  "parse_mig mode_text = sort_key fst (fold parse_mig_line (splitlines mode_text) [])"

definition parse_nvlink_line :: "string \<Rightarrow> (int, string list) dict \<Rightarrow> (int, string list) dict" where
  "parse_nvlink_line line states =
     (case comma_parts line of
        i # p # ps \<Rightarrow>
          if is_number_text i
          then (case py_int i of Some n \<Rightarrow> AList.update n (filter (\<lambda>x. x \<noteq> []) (p # ps)) states | None \<Rightarrow> states)
          else states
      | _ \<Rightarrow> states)"

definition parse_nvlink :: "string \<Rightarrow> string \<Rightarrow> (int, string list) dict \<times> string" where
  "parse_nvlink sc_text st_text = (fold parse_nvlink_line (splitlines st_text) [], take 1000 sc_text)"

definition parse_ipmi_line :: "string \<Rightarrow> ipmi_row option" where
  "parse_ipmi_line line =
     (let parts = map strip (split_on (CHR ''|'') line)
      in if length parts \<ge> 2 \<and> parts ! 0 \<noteq> []
         then Some \<lparr>ir_name = parts ! 0, ir_value = parts ! 1,
                ir_unit = (if length parts > 2 then parts ! 2 else []),
                ir_status = (if length parts > 3 then parts ! 3 else [])\<rparr>
         else None)"

definition parse_ipmi :: "string \<Rightarrow> ipmi_row list" where
  "parse_ipmi text = take 60 (List.map_filter parse_ipmi_line (splitlines text))"

section \<open>The slow tier\<close>

record slow_result =
  sr_nvme :: "(string, smart) dict"
  sr_mdraid :: mdstat
  sr_nfs :: "nfs_mount list"
  sr_failed :: "unit_row list"
  sr_services :: "(string, string) dict"
  sr_mig :: "(int \<times> string) list"
  sr_nvlink :: "(int, string list) dict \<times> string"
  sr_ipmi :: "ipmi_row list"
  sr_duration :: rat

definition PARSE_FAULT :: exn where
  "PARSE_FAULT = (ValueError, ''invalid literal for int() with base 10'')"

definition no_output :: "int \<Rightarrow> string \<times> string" where
  "no_output exit_code =
     (''COLLECT_FAILED'', ''remote collector returned no usable output (exit '' @ show_int exit_code @ '')'')"

definition parse_slow :: "(string, string) dict \<Rightarrow> rat \<Rightarrow> slow_result option" where
  "parse_slow sec elapsed =
     do {
       nvme \<leftarrow> parse_nvme_smart (sec_get sec ''NVMESMART'');
       Some \<lparr>sr_nvme = nvme, sr_mdraid = parse_mdstat (sec_get sec ''MDSTAT''),
             sr_nfs = parse_nfs (sec_get sec ''MOUNTS''), sr_failed = parse_systemd_failed (sec_get sec ''SDFAILED''),
             sr_services = parse_services (sec_get sec ''SDSTATE''), sr_mig = parse_mig (sec_get sec ''MIGMODE''),
             sr_nvlink = parse_nvlink (sec_get sec ''NVLINK'') (sec_get sec ''NVLINKST''),
             sr_ipmi = parse_ipmi (sec_get sec ''IPMI''), sr_duration = py_round_to 2 elapsed\<rparr>
     }"

text \<open>\<open>Inl\<close> is a result that is not ok, with its code and message; the caller reads nothing else of it.
  An error of a parser is classified with the faults of the connection.\<close>

definition tier_result ::
    "int \<Rightarrow> ((string, string) dict \<Rightarrow> rat \<Rightarrow> 'r option) \<Rightarrow> rat \<Rightarrow> session \<Rightarrow> (string \<times> string) + 'r" where
  "tier_result connect_timeout parse elapsed session =
     (case session of
        Raised latency e \<Rightarrow> Inl (classify_ssh_error connect_timeout e)
      | Finished latency exit_code out \<Rightarrow>
          if strip out = [] then Inl (no_output exit_code)
          else (case parse (split_sections out) elapsed of
                  None \<Rightarrow> Inl (classify_ssh_error connect_timeout PARSE_FAULT)
                | Some r \<Rightarrow> Inr r))"

definition collect_slow :: "int \<Rightarrow> rat \<Rightarrow> session \<Rightarrow> (string \<times> string) + slow_result" where
  "collect_slow connect_timeout elapsed session = tier_result connect_timeout parse_slow elapsed session"

section \<open>The inventory tier\<close>

definition LSCPU_KEEP :: "(string \<times> string) list" where
  "LSCPU_KEEP =
    [(''Model name'', ''model_name''), (''Socket(s)'', ''sockets''), (''Core(s) per socket'', ''cores_per_socket''),
     (''Thread(s) per core'', ''threads_per_core''), (''CPU(s)'', ''cpus''), (''NUMA node(s)'', ''numa_nodes''),
     (''Architecture'', ''arch''), (''L3 cache'', ''l3_cache'')]"

text \<open>One \<open>key: value\<close> line, the key in the form \<open>f\<close> gives it.\<close>

definition read_pair :: "char \<Rightarrow> (string \<Rightarrow> string) \<Rightarrow> string \<Rightarrow> (string, string) dict \<Rightarrow> (string, string) dict" where
  "read_pair sep f line out =
     (case partition_on sep line of
        (key, found, val) \<Rightarrow> if found then AList.update (f (strip key)) (strip val) out else out)"

definition parse_lscpu :: "string \<Rightarrow> (string, string) dict" where
  "parse_lscpu text =
     (let out = fold (read_pair (CHR '':'') id) (splitlines text) []
      in map (\<lambda>(k, v). (v, the_default [] (map_of out k))) LSCPU_KEEP)"

definition parse_dmi :: "string \<Rightarrow> (string, string) dict" where
  "parse_dmi text = fold (read_pair (CHR ''='') id) (splitlines text) []"

definition parse_timedate :: "string \<Rightarrow> (string, string) dict" where
  "parse_timedate text =
     fold (read_pair (CHR '':'') (\<lambda>k. map (\<lambda>c. if c = CHR '' '' then CHR ''_'' else c) (lower k)))
       (splitlines text) []"

definition numa_mem_at :: "string \<Rightarrow> (int \<times> int) option" where
  "numa_mem_at s =
     do {
       r1 \<leftarrow> lit ''node'' s;
       (i, r2) \<leftarrow> number r1;
       r3 \<leftarrow> lit ''/meminfo:'' r2;
       r4 \<leftarrow> spaces1 r3;
       r5 \<leftarrow> lit ''Node'' r4;
       r6 \<leftarrow> spaces1 r5;
       (j, r7) \<leftarrow> number r6;
       r8 \<leftarrow> spaces1 r7;
       r9 \<leftarrow> lit ''MemTotal:'' r8;
       r10 \<leftarrow> spaces1 r9;
       (kb, r11) \<leftarrow> number r10;
       r12 \<leftarrow> spaces1 r11;
       r13 \<leftarrow> lit ''kB'' r12;
       Some (i, kb)
     }"

definition numa_node_of :: "string \<Rightarrow> numa_node option" where
  "numa_node_of line =
     map_option (\<lambda>(i, kb). \<lparr>nn_id = i, nn_mem_gb = py_round_to 1 (of_int kb / 1024 / 1024), nn_cpus = []\<rparr>)
       (last_match numa_mem_at line)"

definition numa_cpus_of :: "string \<Rightarrow> (int \<times> string) option" where
  "numa_cpus_of line =
     do {
       r1 \<leftarrow> lit ''node'' line;
       (i, r2) \<leftarrow> number r1;
       (if lstrip r2 \<noteq> r2 \<and> length r2 \<ge> 2 then Some (i, strip r2) else None)
     }"

definition set_numa_cpus :: "string \<Rightarrow> numa_node list \<Rightarrow> numa_node list" where
  "set_numa_cpus line nodes =
     (case numa_cpus_of line of
        Some (i, cpus) \<Rightarrow> map (\<lambda>n. if nn_id n = i then n\<lparr>nn_cpus := cpus\<rparr> else n) nodes
      | None \<Rightarrow> nodes)"

definition parse_numa :: "string \<Rightarrow> string \<Rightarrow> numa_node list" where
  "parse_numa node_cpu_text mem_text =
     fold set_numa_cpus (splitlines node_cpu_text) (List.map_filter numa_node_of (splitlines mem_text))"

text \<open>A node such as \<open>--1\<close> passes the test for digits and makes \<open>int\<close> raise.\<close>

definition pci_node_of :: "string \<Rightarrow> int option" where
  "pci_node_of s = (if is_number_text (dropWhile (\<lambda>c. c = CHR ''-'') s) then py_int s else Some (-1))"

fun parse_pci_lines :: "string list \<Rightarrow> pci_device list option" where
  "parse_pci_lines [] = Some []"
| "parse_pci_lines (line # lines) =
     (case split_ws line of
        a # c # n # v # d # _ \<Rightarrow>
          do {
            node \<leftarrow> pci_node_of n;
            rest \<leftarrow> parse_pci_lines lines;
            Some (\<lparr>pci_addr = a, pci_class = c, pci_node = node, pci_vendor = v, pci_dev = d\<rparr> # rest)
          }
      | _ \<Rightarrow> parse_pci_lines lines)"

definition parse_pci_numa :: "string \<Rightarrow> pci_device list option" where
  "parse_pci_numa text = parse_pci_lines (splitlines text)"

definition quoted_pair_at :: "string \<Rightarrow> ((string \<times> string) \<times> string) option" where
  "quoted_pair_at s =
     do {
       (key, r1) \<leftarrow> span_of is_word_char s;
       r2 \<leftarrow> lit [CHR ''='', CHR 0x22] r1;
       r3 \<leftarrow> lit [CHR 0x22] (dropWhile (\<lambda>c. c \<noteq> CHR 0x22) r2);
       Some ((key, takeWhile (\<lambda>c. c \<noteq> CHR 0x22) r2), r3)
     }"

definition parse_lsblk_line :: "string \<Rightarrow> block_device option" where
  "parse_lsblk_line line =
     (let kv = fold (\<lambda>(k, v). AList.update k v) (find_all quoted_pair_at line) [];
          field = (\<lambda>k. the_default [] (map_of kv k))
      in if field ''NAME'' = [] then None
         else Some \<lparr>bd_name = field ''NAME'', bd_size = field ''SIZE'', bd_rota = field ''ROTA'',
                bd_type = field ''TYPE'', bd_serial = field ''SERIAL'', bd_model = field ''MODEL''\<rparr>)"

definition parse_lsblk :: "string \<Rightarrow> block_device list" where
  "parse_lsblk text = List.map_filter parse_lsblk_line (splitlines text)"

definition parse_nic_line :: "string \<Rightarrow> nic option" where
  "parse_nic_line line =
     (case split_ws line of
        n # m # st # rest \<Rightarrow>
          Some \<lparr>nic_name = n, nic_mac = m, nic_state = st, nic_speed = (case rest of [] \<Rightarrow> [] | sp # _ \<Rightarrow> sp)\<rparr>
      | _ \<Rightarrow> None)"

definition parse_nics :: "string \<Rightarrow> nic list" where
  "parse_nics text = List.map_filter parse_nic_line (splitlines text)"

text \<open>\<open>CA\<close>, white space, a quoted name.\<close>

definition ca_name :: "string \<Rightarrow> string option" where
  "ca_name line =
     do {
       r1 \<leftarrow> lit ''CA'' line;
       r2 \<leftarrow> spaces1 r1;
       r3 \<leftarrow> lit [CHR 0x27] r2;
       (name, r4) \<leftarrow> span_of (\<lambda>c. c \<noteq> CHR 0x27) r3;
       r5 \<leftarrow> lit [CHR 0x27] r4;
       Some name
     }"

definition read_ib :: "string \<Rightarrow> adapter list \<times> adapter \<Rightarrow> adapter list \<times> adapter" where
  "read_ib line acc =
     (case acc of (adapters, current) \<Rightarrow>
        case ca_name line of
          Some name \<Rightarrow> (if current \<noteq> [] then adapters @ [current] else adapters, [(''name'', name)])
        | None \<Rightarrow> (adapters, if current \<noteq> [] then read_pair (CHR '':'') id line current else current))"

definition parse_ib :: "string \<Rightarrow> adapter list" where
  "parse_ib text =
     (if strip text = [] then []
      else case fold read_ib (splitlines text) ([], []) of
        (adapters, current) \<Rightarrow> take 10 (if current \<noteq> [] then adapters @ [current] else adapters))"

text \<open>\<open>ESC [ digits and semicolons m\<close> is removed.\<close>

definition ansi_at :: "string \<Rightarrow> string option" where
  "ansi_at s =
     do {
       r1 \<leftarrow> lit [CHR 0x1B, CHR ''['' ] s;
       lit ''m'' (dropWhile (\<lambda>c. is_digit c \<or> c = CHR '';'') r1)
     }"

function strip_ansi :: "string \<Rightarrow> string" where
  "strip_ansi s =
     (case s of
        [] \<Rightarrow> []
      | c # cs \<Rightarrow> (case ansi_at s of
            Some rest \<Rightarrow> if length rest < length s then strip_ansi rest else []
          | None \<Rightarrow> c # strip_ansi cs))"
  by auto
termination by (relation "measure length") auto

declare strip_ansi.simps [simp del]

definition parse_inventory :: "(string, string) dict \<Rightarrow> rat \<Rightarrow> inventory option" where
  "parse_inventory sec elapsed =
     do {
       pci \<leftarrow> parse_pci_numa (sec_get sec ''PCINUMA'');
       Some \<lparr>iv_machine_id = first_line (sec_get sec ''MACHINEID''), iv_dmi = parse_dmi (sec_get sec ''DMI''),
             iv_lscpu = parse_lscpu (sec_get sec ''LSCPU''),
             iv_numa = parse_numa (sec_get sec ''NUMA'') (sec_get sec ''NUMAMEM''),
             iv_gpu_topology = take 4000 (strip_ansi (sec_get sec ''GPUTOPO'')), iv_pci_numa = pci,
             iv_disks = parse_lsblk (sec_get sec ''LSBLK''), iv_nics = parse_nics (sec_get sec ''NICLIST''),
             iv_ip_addrs = take 10 (filter (\<lambda>l. l \<noteq> []) (map strip (splitlines (sec_get sec ''IPADDR'')))),
             iv_ib = parse_ib (sec_get sec ''IBSTAT''), iv_time = parse_timedate (sec_get sec ''TIMEDATE''),
             iv_duration = py_round_to 2 elapsed\<rparr>
     }"

definition collect_inventory :: "int \<Rightarrow> rat \<Rightarrow> session \<Rightarrow> (string \<times> string) + inventory" where
  "collect_inventory connect_timeout elapsed session = tier_result connect_timeout parse_inventory elapsed session"

section \<open>Kernel events\<close>

record kernel_event =
  ke_type :: string
  ke_severity :: string
  ke_message :: string
  ke_raw :: string
  ke_uuid :: string
  ke_xid :: int

definition starts_digit :: "string \<Rightarrow> bool" where
  "starts_digit s \<longleftrightarrow> (case s of [] \<Rightarrow> False | c # _ \<Rightarrow> is_digit c)"

definition word_ends :: "string \<Rightarrow> bool" where
  "word_ends s \<longleftrightarrow> (case s of [] \<Rightarrow> True | c # _ \<Rightarrow> \<not> is_word_char c)"

definition KERNEL_PATTERNS :: "(string \<times> string \<times> (string \<Rightarrow> bool)) list" where
  "KERNEL_PATTERNS =
    [(''GPU_XID'', ''critical'', found_at ''nvrm: xid '' starts_digit),
     (''GPU_FALLEN_OFF_BUS'', ''critical'', contains ''gpu has fallen off the bus''),
     (''OOM_KILL'', ''critical'', contains_any [''out of memory'', ''killed process'', ''oom-kill'', ''invoked oom-killer'']),
     (''MCE_HARDWARE_ERROR'', ''critical'', contains_any [''machine check'', ''hardware error'', ''mce:'']),
     (''EDAC_MEMORY_ERROR'', ''warning'', found_at ''edac'' (contains ''error'')),
     (''PCIE_AER'', ''warning'',
        (\<lambda>s. found_at ''pcieport'' (contains ''error'') s \<or> found_at ''aer'' (contains ''error'') s)),
     (''IO_ERROR'', ''warning'',
        (\<lambda>s. contains_any [''i/o error'', ''blk_update_request'', ''ext4-fs error''] s
          \<or> found_at ''xfs '' (contains '' error'') s)),
     (''NVME_ERROR'', ''warning'',
        found_at ''nvme'' (\<lambda>t. starts_digit t
          \<and> contains_any [''timeout'', ''resetting'', ''controller reset'', ''i/o''] t)),
     (''NFS_ERROR'', ''warning'', found_at ''nfs'' (contains_any [''not responding'', ''timed out'', ''stale''])),
     (''NIC_RESET'', ''warning'',
        (\<lambda>s. list_ex (\<lambda>d. found_at d (\<lambda>t. word_ends t
              \<and> contains_any [''reset'', ''link down'', ''nic link is down''] t) s)
           [''igb'', ''ixgbe'', ''mlx'', ''bnxt'', ''e1000e''])),
     (''TCP_REQUESTED'', ''info'', contains ''tcp: request_sock_tcp'')]"

definition xid_of :: "string \<Rightarrow> int" where
  "xid_of line =
     (case first_match (\<lambda>s. do { r \<leftarrow> lit ''Xid '' s; (n, rest) \<leftarrow> number r; Some n }) line of
        Some n \<Rightarrow> n | None \<Rightarrow> 0)"

definition is_uuid_char :: "char \<Rightarrow> bool" where
  "is_uuid_char c \<longleftrightarrow> is_digit c \<or> (97 \<le> code c \<and> code c \<le> 102) \<or> c = CHR ''-''"

definition uuid_at :: "string \<Rightarrow> string option" where
  "uuid_at s =
     (case lit ''GPU'' s of
        Some (c # r) \<Rightarrow>
          if (c = CHR ''-'' \<or> is_space c) \<and> length r \<ge> 36 \<and> list_all is_uuid_char (take 36 r)
          then Some (take 36 r) else None
      | _ \<Rightarrow> None)"

definition kernel_event_of :: "string \<Rightarrow> kernel_event option" where
  "kernel_event_of line =
     (let s = rstrip line
      in if s = [] then None
         else map_option (\<lambda>(etype, sev, p).
                \<lparr>ke_type = etype, ke_severity = sev, ke_message = take 200 s, ke_raw = take 2000 s,
                 ke_uuid = (if etype = ''GPU_XID'' then the_default [] (first_match uuid_at s) else []),
                 ke_xid = (if etype = ''GPU_XID'' then xid_of s else 0)\<rparr>)
              (find (\<lambda>(etype, sev, p). p (lower s)) KERNEL_PATTERNS))"

definition is_oom :: "kernel_event \<Rightarrow> bool" where
  "is_oom e \<longleftrightarrow> ke_type e = ''OOM_KILL''"

definition one_oom :: "kernel_event list \<Rightarrow> kernel_event list" where
  "one_oom events =
     (let oom_idx = filter (\<lambda>i. is_oom (events ! i)) [0..<length events]
      in if length oom_idx > 1
         then let keep = (case find (\<lambda>i. contains ''Killed process'' (ke_message (events ! i))) oom_idx of
                            Some i \<Rightarrow> i | None \<Rightarrow> hd oom_idx)
           in map (\<lambda>i. events ! i) (filter (\<lambda>i. \<not> is_oom (events ! i) \<or> i = keep) [0..<length events])
         else events)"

definition parse_kernel_log :: "string \<Rightarrow> kernel_event list" where
  "parse_kernel_log text = take 100 (one_oom (List.map_filter kernel_event_of (splitlines text)))"

text \<open>The boot id, the events, the code and the duration.\<close>

definition collect_kernel :: "int \<Rightarrow> rat \<Rightarrow> session \<Rightarrow> string \<times> kernel_event list \<times> string \<times> rat" where
  "collect_kernel connect_timeout elapsed session =
     (case session of
        Raised latency e \<Rightarrow> ([], [], fst (classify_ssh_error connect_timeout e), py_round_to 2 elapsed)
      | Finished latency exit_code out \<Rightarrow>
          let sec = split_sections out
          in (first_line (sec_get sec ''BOOTID''), parse_kernel_log (sec_get sec ''KLOG''), ''OK'',
              py_round_to 2 elapsed))"

section \<open>Kernel events are sound, bounded and deduplicated\<close>

definition event_ok :: "string list \<Rightarrow> kernel_event \<Rightarrow> bool" where
  "event_ok ls e \<longleftrightarrow>
     list_ex (\<lambda>(etype, sev, p). ke_type e = etype \<and> ke_severity e = sev \<and>
        list_ex (\<lambda>l. ke_message e = take 200 (rstrip l) \<and> p (lower (rstrip l))) ls) KERNEL_PATTERNS \<and>
     (ke_type e = ''GPU_XID'' \<or> ke_xid e = 0 \<and> ke_uuid e = [])"

lemma kernel_event_of_ok:
  assumes "kernel_event_of l = Some e" and "l \<in> set ls" shows "event_ok ls e"
proof -
  obtain etype sev p where hit: "find (\<lambda>(etype, sev, p). p (lower (rstrip l))) KERNEL_PATTERNS = Some (etype, sev, p)"
    and e: "e = \<lparr>ke_type = etype, ke_severity = sev, ke_message = take 200 (rstrip l), ke_raw = take 2000 (rstrip l),
                 ke_uuid = (if etype = ''GPU_XID'' then the_default [] (first_match uuid_at (rstrip l)) else []),
                 ke_xid = (if etype = ''GPU_XID'' then xid_of (rstrip l) else 0)\<rparr>"
    using assms(1) unfolding kernel_event_of_def Let_def by (auto split: if_splits)
  have found: "find P xs = Some x \<Longrightarrow> x \<in> set xs \<and> P x" for P xs and x :: "string \<times> string \<times> (string \<Rightarrow> bool)"
    by (auto simp: find_Some_iff)
  have pat: "(etype, sev, p) \<in> set KERNEL_PATTERNS" "p (lower (rstrip l))" using found [OF hit] by simp_all
  have line: "list_ex (\<lambda>l. ke_message e = take 200 (rstrip l) \<and> p (lower (rstrip l))) ls"
    unfolding list_ex_iff by (rule bexI [of _ l]) (simp_all add: e pat(2) assms(2))
  have "list_ex (\<lambda>(etype, sev, p). ke_type e = etype \<and> ke_severity e = sev \<and>
        list_ex (\<lambda>l. ke_message e = take 200 (rstrip l) \<and> p (lower (rstrip l))) ls) KERNEL_PATTERNS"
    unfolding list_ex_iff [of _ KERNEL_PATTERNS] by (rule bexI [OF _ pat(1)]) (use line in \<open>simp add: e\<close>)
  moreover have "ke_type e = ''GPU_XID'' \<or> ke_xid e = 0 \<and> ke_uuid e = []" unfolding e by simp
  ultimately show ?thesis unfolding event_ok_def by (rule conjI)
qed

lemma oom_indices: "filter is_oom events = map (\<lambda>i. events ! i) (filter (\<lambda>i. is_oom (events ! i)) [0..<length events])"
  by (rule trans [OF _ filter_map [unfolded comp_def, of is_oom "\<lambda>i. events ! i"]]) (simp add: map_nth)

lemma one_oom_events:
  "filter (\<lambda>e. \<not> is_oom e) (one_oom events) = filter (\<lambda>e. \<not> is_oom e) events"
  "length (filter is_oom (one_oom events)) = min 1 (length (filter is_oom events))"
  "set (one_oom events) \<subseteq> set events"
proof -
  define idx where "idx = filter (\<lambda>i. is_oom (events ! i)) [0..<length events]"
  have rest: "filter (\<lambda>e. \<not> is_oom e) events = map (\<lambda>i. events ! i) (filter (\<lambda>i. \<not> is_oom (events ! i)) [0..<length events])"
    by (rule trans [OF _ filter_map [unfolded comp_def, of "\<lambda>e. \<not> is_oom e" "\<lambda>i. events ! i"]]) (simp add: map_nth)
  have ooms: "filter is_oom events = map (\<lambda>i. events ! i) idx" unfolding idx_def by (rule oom_indices)
  have "filter (\<lambda>e. \<not> is_oom e) (one_oom events) = filter (\<lambda>e. \<not> is_oom e) events \<and>
     length (filter is_oom (one_oom events)) = min 1 (length (filter is_oom events)) \<and>
     set (one_oom events) \<subseteq> set events"
  proof (cases "length idx > 1")
    case False
    then show ?thesis by (auto simp: one_oom_def idx_def [symmetric] ooms)
  next
    case True
    define keep where "keep = (case find (\<lambda>i. contains ''Killed process'' (ke_message (events ! i))) idx of
                            Some i \<Rightarrow> i | None \<Rightarrow> hd idx)"
    have "keep \<in> set idx"
      using True by (cases idx) (auto simp: keep_def find_Some_iff split: option.splits)
    then have k: "keep < length events" "is_oom (events ! keep)" by (auto simp: idx_def)
    have new: "one_oom events = map (\<lambda>i. events ! i) (filter (\<lambda>i. \<not> is_oom (events ! i) \<or> i = keep) [0..<length events])"
      using True by (simp add: one_oom_def idx_def [symmetric] keep_def Let_def)
    have "filter (\<lambda>i. is_oom (events ! i) \<and> (\<not> is_oom (events ! i) \<or> i = keep)) [0..<length events]
        = filter (\<lambda>i. i = keep) [0..<length events]"
      using k by (auto intro!: filter_cong)
    also have "length \<dots> = 1" using k(1) by (simp add: distinct_length_filter distinct_card) 
    finally have "length (filter is_oom (one_oom events)) = 1"
      by (simp add: new filter_map comp_def conj_commute)
    moreover have "filter (\<lambda>e. \<not> is_oom e) (one_oom events) = filter (\<lambda>e. \<not> is_oom e) events"
      by (simp add: new rest filter_map comp_def) (auto intro!: arg_cong [where f = "map _"] filter_cong)
    moreover have "set (one_oom events) \<subseteq> set events" by (auto simp: new)
    ultimately show ?thesis using True by (simp add: ooms)
  qed
  then show "filter (\<lambda>e. \<not> is_oom e) (one_oom events) = filter (\<lambda>e. \<not> is_oom e) events"
    "length (filter is_oom (one_oom events)) = min 1 (length (filter is_oom events))"
    "set (one_oom events) \<subseteq> set events" by blast+
qed

text \<open>
  Reading the kernel log: at most a hundred events and at most one out-of-memory event per
  reading; every event has the type and severity of a pattern that one of the log's lines matches,
  with that line as its message, and only GPU errors carry an Xid or a card.
\<close>

theorem kernel_events_sound:
  "length (parse_kernel_log text) \<le> 100 \<and> length (filter is_oom (parse_kernel_log text)) \<le> 1 \<and>
   list_all (event_ok (splitlines text)) (parse_kernel_log text)"
proof -
  let ?all = "List.map_filter kernel_event_of (splitlines text)"
  have ok: "event_ok (splitlines text) e" if "e \<in> set ?all" for e
    using that kernel_event_of_ok by (auto simp: set_map_filter)
  have "set (parse_kernel_log text) \<subseteq> set ?all"
    using one_oom_events(3) [of ?all] set_take_subset unfolding parse_kernel_log_def by (rule order_trans [rotated])
  then have "list_all (event_ok (splitlines text)) (parse_kernel_log text)" using ok by (auto simp: list_all_iff)
  moreover have "filter is_oom (one_oom ?all) = filter is_oom (take 100 (one_oom ?all)) @ filter is_oom (drop 100 (one_oom ?all))"
    by (simp flip: filter_append)
  then have "length (filter is_oom (take 100 (one_oom ?all))) \<le> 1"
    using one_oom_events(2) [of ?all] by simp
  ultimately show ?thesis by (simp add: parse_kernel_log_def)
qed

section \<open>RAID status is looked for on the wrong line\<close>

text \<open>No status pair on a line that names an array: the format of \<open>/proc/mdstat\<close>, where
  \<open>[n/m] [UU]\<close> stands on the line after it.\<close>

definition status_below :: "string \<Rightarrow> bool" where
  "status_below line \<longleftrightarrow>
     (case md_line (strip line) of Some (name, rest) \<Rightarrow> first_match status_at rest = None | None \<Rightarrow> True)"

text \<open>
  When the kernel prints an array's status on the line below its name, as it does, no array is
  ever read as degraded and none has disk counts, whatever the status says.
\<close>

theorem raid_status_line_unread:
  assumes "list_all status_below (splitlines text)"
  shows "list_all (\<lambda>a. md_state a = [] \<and> \<not> md_degraded a \<and> md_active_disks a = None \<and> md_total_disks a = None)
           (md_arrays (parse_mdstat text))"
proof -
  let ?blind = "\<lambda>a. md_state a = [] \<and> \<not> md_degraded a \<and> md_active_disks a = None \<and> md_total_disks a = None"
  have "list_all ?blind (md_arrays (mdstat_line l out))" if "status_below l" "list_all ?blind (md_arrays out)" for l out
    using that by (auto simp: mdstat_line_def status_below_def read_array_def Let_def split: option.splits)
  then have "list_all ?blind (md_arrays (fold mdstat_line ls out))"
    if "list_all status_below ls" "list_all ?blind (md_arrays out)" for ls out
    using that by (induction ls arbitrary: out) simp_all
  then show ?thesis using assms by (simp add: parse_mdstat_def)
qed

definition degraded_mdstat :: string where
  "degraded_mdstat = ''Personalities : [raid1]'' @ [nl] @ ''md0 : active raid1 sdb1[1] sda1[0](F)'' @ [nl] @
     ''      976630464 blocks super 1.2 [2/1] [_U]'' @ [nl] @ ''unused devices: <none>''"

theorem raid_status_line_unread_witness:
  "map md_name (md_arrays (parse_mdstat degraded_mdstat)) = [Some ''md0''] \<and>
   list_all (\<lambda>a. md_state a = [] \<and> \<not> md_degraded a \<and> md_active_disks a = None \<and> md_total_disks a = None)
     (md_arrays (parse_mdstat degraded_mdstat))"
proof
  show "map md_name (md_arrays (parse_mdstat degraded_mdstat)) = [Some ''md0'']" by code_simp
  have "list_all status_below (splitlines degraded_mdstat)" by code_simp
  then show "list_all (\<lambda>a. md_state a = [] \<and> \<not> md_degraded a \<and> md_active_disks a = None \<and> md_total_disks a = None)
     (md_arrays (parse_mdstat degraded_mdstat))" by (rule raid_status_line_unread)
qed

section \<open>The block device listing round trip\<close>

definition quote :: char where "quote = CHR 0x22"

definition print_pairs :: "(string \<times> string) list \<Rightarrow> string" where
  "print_pairs kvs = concat (map (\<lambda>(k, v). k @ [CHR ''='', quote] @ v @ [quote] @ '' '') kvs)"

definition print_device :: "block_device \<Rightarrow> string" where
  "print_device b = print_pairs
     [(''NAME'', bd_name b), (''SIZE'', bd_size b), (''ROTA'', bd_rota b), (''TYPE'', bd_type b),
      (''SERIAL'', bd_serial b), (''MODEL'', bd_model b)]"

definition quotable :: "string \<Rightarrow> bool" where
  "quotable s \<longleftrightarrow> list_all (\<lambda>c. c \<noteq> quote \<and> \<not> is_linebreak c) s"

definition device_ok :: "block_device \<Rightarrow> bool" where
  "device_ok b \<longleftrightarrow> bd_name b \<noteq> [] \<and>
     list_all quotable [bd_name b, bd_size b, bd_rota b, bd_type b, bd_serial b, bd_model b]"

lemma span_run:
  "k \<noteq> [] \<Longrightarrow> list_all P k \<Longrightarrow> \<not> P c \<Longrightarrow> span_of P (k @ c # rest) = Some (k, c # rest)"
  by (simp add: span_of_def list_all_iff takeWhile_append2 dropWhile_append2)

lemma quoted_pair_printed:
  assumes "k \<noteq> []" "list_all is_word_char k" "quotable v"
  shows "quoted_pair_at (k @ [CHR ''='', quote] @ v @ [quote] @ rest) = Some ((k, v), rest)"
proof -
  have span: "span_of is_word_char (k @ CHR ''='' # quote # v @ quote # rest) = Some (k, CHR ''='' # quote # v @ quote # rest)"
    using assms(1,2) by (rule span_run) (simp add: is_word_char_def is_digit_def is_upper_def code_def)
  have v: "takeWhile (\<lambda>c. c \<noteq> CHR 0x22) (v @ quote # rest) = v" "dropWhile (\<lambda>c. c \<noteq> CHR 0x22) (v @ quote # rest) = quote # rest"
    using assms(3) by (simp_all add: quotable_def list_all_iff quote_def takeWhile_append2 dropWhile_append2)
  show ?thesis using v by (simp add: quoted_pair_at_def span lit_def) (simp add: quote_def)
qed

lemma find_pairs_printed:
  "list_all (\<lambda>(k, v). k \<noteq> [] \<and> list_all is_word_char k \<and> quotable v) kvs \<Longrightarrow>
   find_all quoted_pair_at (print_pairs kvs) = kvs"
proof (induction kvs)
  case Nil
  show ?case by (simp add: print_pairs_def find_all.simps quoted_pair_at_def span_of_def)
next
  case (Cons p kvs)
  obtain k v where p: "p = (k, v)" by (cases p)
  let ?rest = "print_pairs kvs"
  have pr: "print_pairs (p # kvs) = k @ [CHR ''='', quote] @ v @ [quote] @ '' '' @ ?rest" by (simp add: print_pairs_def p)
  have hit: "quoted_pair_at (print_pairs (p # kvs)) = Some ((k, v), '' '' @ ?rest)"
    unfolding pr using Cons.prems by (intro quoted_pair_printed) (simp_all add: p)
  have "\<not> is_word_char (CHR '' '')" by (simp add: is_word_char_def is_digit_def is_upper_def code_def)
  then have blank: "find_all quoted_pair_at (CHR '' '' # ?rest) = find_all quoted_pair_at ?rest"
    by (subst find_all.simps) (simp add: quoted_pair_at_def span_of_def)
  have "find_all quoted_pair_at (print_pairs (p # kvs)) = (k, v) # find_all quoted_pair_at ('' '' @ ?rest)"
    by (subst find_all.simps) (simp add: hit, simp add: pr)
  then show ?case using Cons by (simp add: blank p)
qed

lemma parse_printed_device: "device_ok b \<Longrightarrow> parse_lsblk_line (print_device b) = Some b"
proof -
  assume ok: "device_ok b"
  have words: "list_all is_word_char ''NAME''" "list_all is_word_char ''SIZE''" "list_all is_word_char ''ROTA''"
    "list_all is_word_char ''TYPE''" "list_all is_word_char ''SERIAL''" "list_all is_word_char ''MODEL''" by code_simp+
  have "find_all quoted_pair_at (print_device b) =
     [(''NAME'', bd_name b), (''SIZE'', bd_size b), (''ROTA'', bd_rota b), (''TYPE'', bd_type b),
      (''SERIAL'', bd_serial b), (''MODEL'', bd_model b)]"
    unfolding print_device_def using ok words by (intro find_pairs_printed) (simp add: device_ok_def)
  then show ?thesis using ok by (simp add: parse_lsblk_line_def device_ok_def the_default_def)
qed

lemma print_pairs_line:
  "list_all (\<lambda>(k, v). list_all (\<lambda>c. \<not> is_linebreak c) k \<and> quotable v) kvs \<Longrightarrow>
   list_all (\<lambda>c. \<not> is_linebreak c) (print_pairs kvs)"
proof (induction kvs)
  case (Cons p kvs)
  have "list_all (\<lambda>c. \<not> is_linebreak c) [CHR ''='', quote, CHR '' '']" by code_simp
  moreover have "list_all (\<lambda>c. \<not> is_linebreak c) v" if "quotable v" for v
    using that by (simp add: quotable_def list_all_iff)
  ultimately show ?case using Cons by (cases p) (simp add: print_pairs_def)
qed (simp add: print_pairs_def)

lemma print_device_line: "device_ok b \<Longrightarrow> list_all (\<lambda>c. \<not> is_linebreak c) (print_device b)"
  unfolding print_device_def
proof (rule print_pairs_line)
  assume ok: "device_ok b"
  have "list_all (\<lambda>c. \<not> is_linebreak c) (concat [''NAME'', ''SIZE'', ''ROTA'', ''TYPE'', ''SERIAL'', ''MODEL''])" by code_simp
  with ok show "list_all (\<lambda>(k, v). list_all (\<lambda>c. \<not> is_linebreak c) k \<and> quotable v)
     [(''NAME'', bd_name b), (''SIZE'', bd_size b), (''ROTA'', bd_rota b), (''TYPE'', bd_type b),
      (''SERIAL'', bd_serial b), (''MODEL'', bd_model b)]" by (simp add: device_ok_def)
qed

text \<open>
  What \<open>lsblk -P\<close> prints for block devices is read back exactly: every device, in order, with
  all its fields, blanks and \<open>=\<close> signs inside a value included; only a quote or a line break in a
  value, or an empty name, is excluded.
\<close>

theorem lsblk_round_trip:
  assumes "list_all device_ok devices"
  shows "parse_lsblk (concat (map (\<lambda>b. print_device b @ [nl]) devices)) = devices"
proof -
  have "list_all (list_all (\<lambda>c. \<not> is_linebreak c)) (map print_device devices)"
    using assms by (auto simp: list_all_iff dest!: print_device_line [unfolded list_all_iff])
  from splitlines_print [OF this]
  have "splitlines (concat (map (\<lambda>b. print_device b @ [nl]) devices)) = map print_device devices"
    by (simp add: comp_def)
  moreover have "List.map_filter parse_lsblk_line (map print_device devices) = devices"
    using assms by (induction devices) (simp_all add: parse_printed_device map_filter_simps)
  ultimately show ?thesis by (simp add: parse_lsblk_def)
qed

theorem lsblk_round_trip_witness:
  "parse_lsblk (print_device \<lparr>bd_name = ''sda'', bd_size = ''1.8T'', bd_rota = ''1'', bd_type = ''disk'', bd_serial = [],
       bd_model = ''A=B x''\<rparr> @ [nl]) =
     [\<lparr>bd_name = ''sda'', bd_size = ''1.8T'', bd_rota = ''1'', bd_type = ''disk'', bd_serial = [], bd_model = ''A=B x''\<rparr>]"
proof -
  let ?b = "\<lparr>bd_name = ''sda'', bd_size = ''1.8T'', bd_rota = ''1'', bd_type = ''disk'', bd_serial = [], bd_model = ''A=B x''\<rparr>"
  have "list_all device_ok [?b]" by code_simp
  from lsblk_round_trip [OF this] show ?thesis by simp
qed

end
