(* ===== verification/AlertRules.thy ===== *)
theory AlertRules
  imports Detectors
begin

text \<open>
  The rules users define, \<open>_extract_metric\<close>, \<open>_compare\<close>, \<open>_load_interval\<close> and \<open>_eval_alerts\<close> of
  \<open>backend/app/scheduler.py\<close>.  The evaluation visits every enabled rule and every server the rule
  targets; an exception of the notifier (\<open>send\<close> yields \<open>None\<close>) ends the whole evaluation, with
  what was committed so far kept, which is the \<open>Inl\<close> outcome of a step.
\<close>

section \<open>Loops that an exception may leave\<close>

fun each :: "('a \<Rightarrow> 's \<Rightarrow> 's + 's) \<Rightarrow> 'a list \<Rightarrow> 's \<Rightarrow> 's + 's" where
  "each f [] s = Inr s"
| "each f (x # xs) s = (case f x s of Inl s' \<Rightarrow> Inl s' | Inr s' \<Rightarrow> each f xs s')"

definition outcome :: "'s + 's \<Rightarrow> 's" where
  "outcome r = (case r of Inl s \<Rightarrow> s | Inr s \<Rightarrow> s)"

lemma outcome_simps [simp]: "outcome (Inl s) = s" "outcome (Inr s) = s"
  by (simp_all add: outcome_def)

lemma each_invariant:
  assumes "\<And>x s. x \<in> set xs \<Longrightarrow> P s \<Longrightarrow> P (outcome (f x s))" and "P s"
  shows "P (outcome (each f xs s))"
  using assms
proof (induction xs arbitrary: s)
  case (Cons x xs)
  from Cons.prems(1) [of x s] Cons.prems(2) have "P (outcome (f x s))" by simp
  with Cons show ?case by (cases "f x s") (auto simp: outcome_def)
qed simp

section \<open>Definitions\<close>

definition METRIC_LABELS :: "(string, string) dict" where
  "METRIC_LABELS =
    [(''cpu_percent'', ''CPU '' @ utf8 [228, 189, 191, 231, 148, 168, 231, 142, 135]), (''mem_percent'', utf8 [229, 134, 133, 229, 173, 152, 228, 189, 191, 231, 148, 168, 231, 142, 135]),
     (''gpu_util'', ''GPU '' @ utf8 [229, 136, 169, 231, 148, 168, 231, 142, 135]), (''gpu_temp'', ''GPU '' @ utf8 [230, 184, 169, 229, 186, 166]),
     (''gpu_mem_percent'', ''GPU '' @ utf8 [230, 152, 190, 229, 173, 152]), (''gpu_power'', ''GPU '' @ utf8 [229, 138, 159, 232, 128, 151]),
     (''disk_percent'', utf8 [231, 163, 129, 231, 155, 152, 228, 189, 191, 231, 148, 168, 231, 142, 135]), (''load_per_core'', utf8 [230, 175, 143, 230, 160, 184, 232, 180, 159, 232, 189, 189]),
     (''swap_percent'', ''Swap '' @ utf8 [228, 189, 191, 231, 148, 168, 231, 142, 135])]"

definition max_of :: "rat list \<Rightarrow> rat option" where
  "max_of vals = (if vals = [] then None else Some (Max (set vals)))"

definition gpu_values :: "string \<Rightarrow> gpu \<Rightarrow> rat list" where
  "gpu_values mt g =
     (if mt = ''gpu_util'' then [num0 (utilization g)]
      else if mt = ''gpu_temp'' then [num0 (temperature g)]
      else if mt = ''gpu_power'' then [num0 (power_draw g)]
      else if num0 (mem_total_mb g) > 0 then [num0 (mem_used_mb g) / num0 (mem_total_mb g) * 100]
      else [])"

definition extract_metric :: "metric \<Rightarrow> string \<Rightarrow> rat option" where
  "extract_metric m mt =
     (if mt = ''cpu_percent'' then Some (m_cpu_percent m)
      else if mt = ''mem_percent'' then
        if m_mem_total_mb m \<noteq> 0 then Some (m_mem_used_mb m / m_mem_total_mb m * 100) else None
      else if mt = ''swap_percent'' then
        if m_swap_total_mb m \<noteq> 0 then Some (m_swap_used_mb m / m_swap_total_mb m * 100) else None
      else if mt = ''disk_percent'' then max_of (map (\<lambda>k. num0 (percent k)) (m_disks m))
      else if mt = ''load_per_core'' then
        if m_cpu_count m \<noteq> 0 then Some (m_load1 m / of_int (m_cpu_count m)) else None
      else if mt \<in> {''gpu_util'', ''gpu_temp'', ''gpu_mem_percent'', ''gpu_power''} then
        let vals = concat (map (gpu_values mt) (m_gpus m))
        in if m_gpus m = [] \<or> vals = [] then None
           else if mt = ''gpu_util'' then Some (mean vals)
           else max_of vals
      else None)"

definition compare :: "rat \<Rightarrow> string \<Rightarrow> rat \<Rightarrow> bool" where
  "compare v op_text threshold =
     (if op_text = ''>'' then v > threshold
      else if op_text = ''>='' then v \<ge> threshold
      else if op_text = ''<'' then v < threshold
      else if op_text = ''<='' then v \<le> threshold
      else False)"

definition load_interval :: "int \<Rightarrow> db \<Rightarrow> int" where
  "load_interval poll_seconds d =
     (case map_of (d_settings d) ''poll_interval'' of
        None \<Rightarrow> poll_seconds
      | Some text \<Rightarrow>
          (case py_int text of
             None \<Rightarrow> poll_seconds
           | Some v \<Rightarrow> if v \<ge> 10 then v else poll_seconds))"

definition enabled_servers :: "db \<Rightarrow> server list" where
  "enabled_servers d = filter s_enabled (d_servers d)"

definition latest_ok_rows :: "db \<Rightarrow> (int, metric) dict" where
  "latest_ok_rows d =
     (let ok = filter (\<lambda>r. m_server_id r \<in> set (map s_id (enabled_servers d)) \<and> m_status r = ''ok'') (d_metrics d);
          newest = filter (\<lambda>r. list_all (\<lambda>r'. m_server_id r' = m_server_id r \<longrightarrow> m_collected_at r' \<le> m_collected_at r) ok) ok
      in fold (\<lambda>r. AList.update (m_server_id r) r) (order_by m_server_id (order_by m_id newest)) [])"

definition open_for :: "int \<Rightarrow> int \<Rightarrow> alert_event \<Rightarrow> bool" where
  "open_for rid sid e \<longleftrightarrow> e_rule_id e = Some rid \<and> e_server_id e = sid \<and> e_recovered_at e = None"

definition window_values :: "db \<Rightarrow> int \<Rightarrow> time \<Rightarrow> string \<Rightarrow> rat list" where
  "window_values d sid since mt =
     List.map_filter (\<lambda>r. extract_metric r mt) (ok_rows_since d sid since)"

definition breach_held :: "db \<Rightarrow> int \<Rightarrow> alert_rule \<Rightarrow> int \<Rightarrow> metric \<Rightarrow> bool" where
  "breach_held d interval rule sid m \<longleftrightarrow>
     r_duration_minutes rule \<le> 0 \<or>
     (let vals = window_values d sid (m_collected_at m - minutes (r_duration_minutes rule)) (r_metric rule);
          expected = max 1 (r_duration_minutes rule * 60 div max 10 interval)
      in \<not> int (length vals) < max 2 (expected div 2)
         \<and> list_all (\<lambda>v. compare v (r_op rule) (r_threshold rule)) vals)"

definition show_value :: "string \<Rightarrow> rat \<Rightarrow> string" where
  "show_value mt v =
     (if v = 0 \<and> mt \<in> {''gpu_temp'', ''gpu_power''} then ''0'' else show_float (py_round_to 1 v))"

definition rule_event :: "db \<Rightarrow> time \<Rightarrow> alert_rule \<Rightarrow> int \<Rightarrow> metric \<Rightarrow> rat \<Rightarrow> alert_event" where
  "rule_event d now rule sid m v =
     \<lparr>e_id = next_event_id d, e_rule_id = Some (r_id rule), e_rule_name = r_name rule, e_server_id = sid,
      e_server_name = name_or (m_hostname m) (show_int sid), e_metric = r_metric rule,
      e_value = py_round_to 1 v, e_threshold = r_threshold rule,
      e_message = (case map_of METRIC_LABELS (r_metric rule) of Some l \<Rightarrow> l | None \<Rightarrow> r_metric rule) @ '' '' @
        show_value (r_metric rule) v @ '' '' @ r_op rule @ '' '' @ show_float (r_threshold rule),
      e_triggered_at = now, e_recovered_at = None, e_acked_at = None, e_acked_by = [], e_assignee = [],
      e_notified = False\<rparr>"

definition hand_over :: "notification \<Rightarrow> db \<Rightarrow> db" where
  "hand_over n d = d\<lparr>d_outbox := d_outbox d @ [n]\<rparr>"

definition open_rule_event ::
    "sender \<Rightarrow> time \<Rightarrow> alert_rule \<Rightarrow> int \<Rightarrow> metric \<Rightarrow> rat \<Rightarrow> db \<Rightarrow> db + db" where
  "open_rule_event send now rule sid m v d =
     (let ev = rule_event d now rule sid m v;
          n = Alert (name_or (m_hostname m) (show_int sid)) (r_metric rule) v (r_op rule) (r_threshold rule)
                (r_name rule) ''warning'';
          d1 = hand_over n (d\<lparr>d_events := d_events d @ [ev]\<rparr>)
      in case send n of
           None \<Rightarrow> Inl d1
         | Some ok \<Rightarrow> Inr (if ok then update_event (e_id ev) (\<lambda>e. e\<lparr>e_notified := True\<rparr>) d1 else d1))"

definition close_rule_event ::
    "sender \<Rightarrow> time \<Rightarrow> alert_rule \<Rightarrow> alert_event \<Rightarrow> db \<Rightarrow> db + db" where
  "close_rule_event send now rule ev d =
     (let n = Recovery (e_server_name ev) (e_metric ev) (name_or (e_rule_name ev) (r_name rule));
          d1 = hand_over n (update_event (e_id ev) (\<lambda>e. e\<lparr>e_recovered_at := Some now\<rparr>) d)
      in case send n of None \<Rightarrow> Inl d1 | Some ok \<Rightarrow> Inr d1)"

definition eval_target ::
    "sender \<Rightarrow> time \<Rightarrow> int \<Rightarrow> int list \<Rightarrow> (int, metric) dict \<Rightarrow> alert_rule \<Rightarrow> int \<Rightarrow> db \<Rightarrow> db + db" where
  "eval_target send now interval maintenance latest rule sid d =
     (if sid \<in> set maintenance then Inr d
      else case map_of latest sid of
        None \<Rightarrow> Inr d
      | Some m \<Rightarrow>
          (case extract_metric m (r_metric rule) of
             None \<Rightarrow> Inr d
           | Some v \<Rightarrow>
               let breached = compare v (r_op rule) (r_threshold rule)
               in case find (open_for (r_id rule) sid) (d_events d) of
                    Some ev \<Rightarrow>
                      if e_acked_at ev \<noteq> None then Inr d
                      else if \<not> breached then close_rule_event send now rule ev d
                      else Inr d
                  | None \<Rightarrow>
                      if breached \<and> breach_held d interval rule sid m
                      then open_rule_event send now rule sid m v d
                      else Inr d))"

definition rule_targets :: "(int, metric) dict \<Rightarrow> alert_rule \<Rightarrow> int list" where
  "rule_targets latest rule =
     (case r_server_id rule of
        Some i \<Rightarrow> if i \<noteq> 0 then [i] else keys latest
      | None \<Rightarrow> keys latest)"

definition maintenance_ids :: "db \<Rightarrow> int list" where
  "maintenance_ids d = map s_id (filter in_maintenance (enabled_servers d))"

definition eval_rules :: "sender \<Rightarrow> time \<Rightarrow> int \<Rightarrow> int list \<Rightarrow> (int, metric) dict \<Rightarrow> alert_rule list \<Rightarrow> db \<Rightarrow> db + db" where
  "eval_rules send now interval maintenance latest rules =
     each (\<lambda>rule. each (eval_target send now interval maintenance latest rule) (rule_targets latest rule)) rules"

definition eval_alerts :: "sender \<Rightarrow> int \<Rightarrow> time \<Rightarrow> db \<Rightarrow> db" where
  "eval_alerts send poll_seconds now d =
     (let rules = filter r_enabled (d_rules d)
      in if rules = [] then d
         else outcome (eval_rules send now (load_interval poll_seconds d) (maintenance_ids d)
                (latest_ok_rows d) rules d))"

section \<open>What one evaluation step does\<close>

definition same_tables :: "db \<Rightarrow> db \<Rightarrow> bool" where
  "same_tables d d' \<longleftrightarrow> d_metrics d' = d_metrics d \<and> d_servers d' = d_servers d \<and> d_rules d' = d_rules d
     \<and> d_settings d' = d_settings d"

lemma same_tables_refl [simp]: "same_tables d d"
  by (simp add: same_tables_def)

lemma same_tables_trans: "same_tables d d' \<Longrightarrow> same_tables d' d'' \<Longrightarrow> same_tables d d''"
  by (simp add: same_tables_def)

lemma breach_held_tables: "same_tables d d' \<Longrightarrow> breach_held d' = breach_held d"
  by (intro ext) (simp add: same_tables_def breach_held_def window_values_def ok_rows_since_def)

lemma map_new_event:
  "map (\<lambda>e. if e_id e = next_event_id d then f e else e) (d_events d) = d_events d"
  by (rule map_idI) (auto dest: next_event_id_fresh)

lemma open_rule_event_effect:
  "\<exists>b. d_events (outcome (open_rule_event send now rule sid m v d)) =
       d_events d @ [rule_event d now rule sid m v\<lparr>e_notified := b\<rparr>]"
proof -
  have new: "e_id (rule_event d now rule sid m v) = next_event_id d"
    and same: "rule_event d now rule sid m v = rule_event d now rule sid m v\<lparr>e_notified := False\<rparr>"
    by (simp_all add: rule_event_def)
  show ?thesis
    by (cases "send (Alert (name_or (m_hostname m) (show_int sid)) (r_metric rule) v (r_op rule)
        (r_threshold rule) (r_name rule) ''warning'')")
      (auto simp: open_rule_event_def Let_def hand_over_def update_event_def new map_new_event intro: same)
qed

lemma close_rule_event_effect:
  "d_events (outcome (close_rule_event send now rule ev d)) =
     map (\<lambda>e. if e_id e = e_id ev then e\<lparr>e_recovered_at := Some now\<rparr> else e) (d_events d)"
  by (simp add: close_rule_event_def Let_def hand_over_def update_event_def split: option.splits)

lemma eval_target_tables: "same_tables d (outcome (eval_target send now interval mt latest rule sid d))"
  by (simp add: eval_target_def open_rule_event_def close_rule_event_def Let_def hand_over_def
      update_event_def same_tables_def split: option.splits)

lemma eval_target_cases:
  obtains
    (idle) "outcome (eval_target send now interval mt latest rule sid d) = d"
  | (opened) m v b where "map_of latest sid = Some m" "extract_metric m (r_metric rule) = Some v"
      "compare v (r_op rule) (r_threshold rule)" "breach_held d interval rule sid m" "sid \<notin> set mt"
      "find (open_for (r_id rule) sid) (d_events d) = None"
      "d_events (outcome (eval_target send now interval mt latest rule sid d)) =
         d_events d @ [rule_event d now rule sid m v\<lparr>e_notified := b\<rparr>]"
  | (closed) ev where "sid \<notin> set mt"
      "find (open_for (r_id rule) sid) (d_events d) = Some ev" "e_acked_at ev = None"
      "d_events (outcome (eval_target send now interval mt latest rule sid d)) =
         map (\<lambda>e. if e_id e = e_id ev then e\<lparr>e_recovered_at := Some now\<rparr> else e) (d_events d)"
proof -
  let ?step = "eval_target send now interval mt latest rule sid d"
  consider (skip) "outcome ?step = d"
    | (opens) m v where "?step = open_rule_event send now rule sid m v d" "map_of latest sid = Some m"
        "extract_metric m (r_metric rule) = Some v" "compare v (r_op rule) (r_threshold rule)"
        "breach_held d interval rule sid m" "sid \<notin> set mt" "find (open_for (r_id rule) sid) (d_events d) = None"
    | (closes) ev where "?step = close_rule_event send now rule ev d" "sid \<notin> set mt"
        "find (open_for (r_id rule) sid) (d_events d) = Some ev" "e_acked_at ev = None"
  proof (cases "sid \<in> set mt \<or> map_of latest sid = None")
    case True
    then show thesis by (intro skip) (auto simp: eval_target_def)
  next
    case False
    then obtain m where m: "sid \<notin> set mt" "map_of latest sid = Some m" by blast
    show thesis
    proof (cases "extract_metric m (r_metric rule)")
      case None
      then show thesis by (intro skip) (simp add: eval_target_def m)
    next
      case v: (Some v)
      show thesis
      proof (cases "find (open_for (r_id rule) sid) (d_events d)")
        case None
        show thesis
        proof (cases "compare v (r_op rule) (r_threshold rule) \<and> breach_held d interval rule sid m")
          case True
          then show thesis using m v None by (intro opens) (auto simp: eval_target_def)
        next
          case False
          then show thesis using m v None by (intro skip) (auto simp: eval_target_def)
        qed
      next
        case ev: (Some ev)
        show thesis
        proof (cases "e_acked_at ev = None \<and> \<not> compare v (r_op rule) (r_threshold rule)")
          case True
          then show thesis using m v ev by (intro closes) (auto simp: eval_target_def)
        next
          case False
          then show thesis using m v ev by (intro skip) (auto simp: eval_target_def)
        qed
      qed
    qed
  qed
  then show thesis
  proof cases
    case skip
    then show thesis by (rule idle)
  next
    case (opens m v)
    then obtain b where "d_events (outcome ?step) = d_events d @ [rule_event d now rule sid m v\<lparr>e_notified := b\<rparr>]"
      using open_rule_event_effect by metis
    then show thesis using opens(2-7) by (intro opened)
  next
    case (closes ev)
    then show thesis using close_rule_event_effect by (intro closed) auto
  qed
qed

lemma eval_rules_invariant:
  assumes "\<And>rule sid d. rule \<in> set rules \<Longrightarrow> P d \<Longrightarrow> P (outcome (eval_target send now interval mt latest rule sid d))"
    and "P d"
  shows "P (outcome (eval_rules send now interval mt latest rules d))"
  unfolding eval_rules_def by (rule each_invariant) (rule each_invariant, rule assms(1), use assms(2) in auto)

lemma eval_alerts_invariant:
  assumes "\<And>rule sid d'. rule \<in> set (d_rules d) \<Longrightarrow> r_enabled rule \<Longrightarrow> P d' \<Longrightarrow>
      P (outcome (eval_target send now (load_interval poll d) (maintenance_ids d) (latest_ok_rows d) rule sid d'))"
    and "P d"
  shows "P (eval_alerts send poll now d)"
proof -
  have "P (outcome (eval_rules send now (load_interval poll d) (maintenance_ids d) (latest_ok_rows d)
      (filter r_enabled (d_rules d)) d))"
    by (rule eval_rules_invariant) (use assms in auto)
  then show ?thesis using assms(2) by (simp add: eval_alerts_def Let_def)
qed

lemma eval_target_ids:
  assumes "events_ok d" shows "events_ok (outcome (eval_target send now interval mt latest rule sid d))"
proof (cases rule: eval_target_cases [of send now interval mt latest rule sid d])
  case idle
  then show ?thesis using assms by simp
next
  case (opened m v b)
  have "e_id (rule_event d now rule sid m v) = next_event_id d" by (simp add: rule_event_def)
  with assms opened(7) show ?thesis by (auto simp: events_ok_def dest: next_event_id_fresh)
next
  case (closed ev)
  with assms show ?thesis by (simp add: events_ok_def comp_def if_distrib cong: if_cong)
qed

section \<open>Acknowledged alerts\<close>

lemma found: "find P xs = Some x \<Longrightarrow> x \<in> set xs \<and> P x"
  by (auto simp: find_Some_iff in_set_conv_nth)

lemma events_okD: "events_ok d \<Longrightarrow> e \<in> set (d_events d) \<Longrightarrow> e' \<in> set (d_events d) \<Longrightarrow> e_id e = e_id e' \<Longrightarrow> e = e'"
  by (auto simp: events_ok_def distinct_map inj_on_def)

definition about :: "int \<Rightarrow> int \<Rightarrow> db \<Rightarrow> alert_event list" where
  "about rid sid d = filter (\<lambda>e. e_rule_id e = Some rid \<and> e_server_id e = sid) (d_events d)"

lemma find_about: "find (open_for rid sid) (d_events d) = find (open_for rid sid) (about rid sid d)"
proof -
  have "find (open_for rid sid) es = find (open_for rid sid) (filter (\<lambda>e. e_rule_id e = Some rid \<and> e_server_id e = sid) es)" for es
    by (induction es) (auto simp: open_for_def)
  then show ?thesis by (simp add: about_def)
qed

lemma about_other_step:
  assumes "events_ok d" and "find (open_for rid sid) (d_events d) = Some e" and "e_acked_at e \<noteq> None"
  shows "about rid sid (outcome (eval_target send now interval mt latest rule sid' d)) = about rid sid d"
proof (cases rule: eval_target_cases [of send now interval mt latest rule sid' d])
  case (opened m v b)
  then have "(r_id rule, sid') \<noteq> (rid, sid)" using assms(2) by auto
  then show ?thesis using opened(7) by (auto simp: about_def rule_event_def)
next
  case (closed ev)
  have ev: "ev \<in> set (d_events d)" "open_for (r_id rule) sid' ev" using found [OF closed(2)] by auto
  have "(r_id rule, sid') \<noteq> (rid, sid)" using assms(2,3) closed(2,3) by auto
  then have other: "\<not> (e_rule_id ev = Some rid \<and> e_server_id ev = sid)" using ev(2) by (auto simp: open_for_def)
  have "e \<noteq> ev" if "e_rule_id e = Some rid \<and> e_server_id e = sid" for e using that other by blast
  then have "e_id e \<noteq> e_id ev" if "e \<in> set (d_events d)" "e_rule_id e = Some rid \<and> e_server_id e = sid" for e
    using that events_okD [OF assms(1) _ ev(1)] by blast
  then have "filter (\<lambda>e. e_rule_id e = Some rid \<and> e_server_id e = sid)
      (map (\<lambda>e. if e_id e = e_id ev then e\<lparr>e_recovered_at := Some now\<rparr> else e) (d_events d)) = about rid sid d"
    unfolding about_def by (induction "d_events d") (auto simp: filter_map comp_def intro!: map_idI cong: filter_cong)
  then show ?thesis using closed(4) by (simp add: about_def)
qed simp

text \<open>
  An acknowledged alert is never closed by the evaluation, whatever the samples say: as
  long as the open event of a rule and server is acknowledged, an evaluation leaves all events of
  that rule and server unchanged, so it neither recovers when the metric is back to normal nor
  lets a later breach open a new one.
\<close>

theorem acknowledged_alert_never_recovers:
  assumes "events_ok d" and "find (open_for rid sid) (d_events d) = Some e" and "e_acked_at e \<noteq> None"
  shows "about rid sid (eval_alerts send poll_seconds now d) = about rid sid d"
proof -
  let ?P = "\<lambda>d'. events_ok d' \<and> about rid sid d' = about rid sid d"
  have "?P (eval_alerts send poll_seconds now d)"
  proof (rule eval_alerts_invariant)
    fix rule sid' d' assume "?P d'"
    then have "find (open_for rid sid) (d_events d') = Some e" using assms(2) by (simp add: find_about)
    with \<open>?P d'\<close> assms(3) show "?P (outcome (eval_target send now (load_interval poll_seconds d)
        (maintenance_ids d) (latest_ok_rows d) rule sid' d'))"
      by (simp add: eval_target_ids about_other_step)
  qed (use assms in simp)
  then show ?thesis by simp
qed

section \<open>New alerts\<close>

lemma latest_ok_rows_spec:
  assumes "map_of (latest_ok_rows d) sid = Some m"
  shows "m \<in> set (d_metrics d)" and "m_server_id m = sid" and "m_status m = ''ok''"
    and "\<And>r. r \<in> set (d_metrics d) \<Longrightarrow> m_server_id r = sid \<Longrightarrow> m_status r = ''ok'' \<Longrightarrow> m_collected_at r \<le> m_collected_at m"
proof -
  let ?ok = "filter (\<lambda>r. m_server_id r \<in> set (map s_id (enabled_servers d)) \<and> m_status r = ''ok'') (d_metrics d)"
  let ?newest = "filter (\<lambda>r. list_all (\<lambda>r'. m_server_id r' = m_server_id r \<longrightarrow> m_collected_at r' \<le> m_collected_at r) ?ok) ?ok"
  have gen: "map_of (fold (\<lambda>r. AList.update (m_server_id r) r) rs acc) sid = Some m \<Longrightarrow>
      m \<in> set rs \<and> m_server_id m = sid \<or> map_of acc sid = Some m" for rs and acc :: "(int, metric) dict"
  proof (induction rs arbitrary: acc)
    case (Cons r rs)
    from Cons.IH [of "AList.update (m_server_id r) r acc"] Cons.prems show ?case by (auto split: if_splits)
  qed simp
  have "m \<in> set (order_by m_server_id (order_by m_id ?newest)) \<and> m_server_id m = sid"
    using gen [of "order_by m_server_id (order_by m_id ?newest)" "[]"] assms
    by (simp add: latest_ok_rows_def Let_def)
  then have m: "m \<in> set ?newest" "m_server_id m = sid" by (auto simp: order_by_def)
  then show "m \<in> set (d_metrics d)" "m_server_id m = sid" "m_status m = ''ok''" by auto
  show "m_collected_at r \<le> m_collected_at m"
    if "r \<in> set (d_metrics d)" "m_server_id r = sid" "m_status r = ''ok''" for r
    using m that by (auto simp: list_all_iff)
qed

definition justified :: "db \<Rightarrow> alert_event \<Rightarrow> alert_rule \<Rightarrow> metric \<Rightarrow> rat \<Rightarrow> bool" where
  "justified d e rule m v \<longleftrightarrow>
     rule \<in> set (d_rules d) \<and> r_enabled rule \<and> e_rule_id e = Some (r_id rule) \<and>
     m \<in> set (d_metrics d) \<and> m_server_id m = e_server_id e \<and> m_status m = ''ok'' \<and>
     list_all (\<lambda>r. m_server_id r = e_server_id e \<longrightarrow> m_status r = ''ok'' \<longrightarrow> m_collected_at r \<le> m_collected_at m) (d_metrics d) \<and>
     extract_metric m (r_metric rule) = Some v \<and> compare v (r_op rule) (r_threshold rule) \<and>
     e_server_id e \<notin> set (maintenance_ids d)"

definition sustained :: "db \<Rightarrow> alert_rule \<Rightarrow> metric \<Rightarrow> bool" where
  "sustained d rule m \<longleftrightarrow>
     (let vals = window_values d (m_server_id m) (m_collected_at m - minutes (r_duration_minutes rule)) (r_metric rule)
      in 2 \<le> length vals \<and> list_all (\<lambda>v. compare v (r_op rule) (r_threshold rule)) vals)"

definition one_open_each :: "db \<Rightarrow> bool" where
  "one_open_each d \<longleftrightarrow> (\<forall>rid sid. length (filter (open_for rid sid) (d_events d)) \<le> 1)"

lemma one_open_step:
  assumes "one_open_each d"
  shows "one_open_each (outcome (eval_target send now interval mt latest rule sid d))"
proof (cases rule: eval_target_cases [of send now interval mt latest rule sid d])
  case (opened m v b)
  have none: "filter (open_for (r_id rule) sid) (d_events d) = []"
    using opened(6) by (auto simp: find_None_iff filter_empty_conv)
  have new: "open_for rid i (rule_event d now rule sid m v\<lparr>e_notified := b\<rparr>) \<longleftrightarrow> rid = r_id rule \<and> i = sid" for rid i
    by (auto simp: open_for_def rule_event_def)
  have "length (filter (open_for rid i) (d_events d @ [rule_event d now rule sid m v\<lparr>e_notified := b\<rparr>])) \<le> 1" for rid i
    using assms none by (cases "rid = r_id rule \<and> i = sid") (auto simp: new one_open_each_def)
  then show ?thesis using opened(7) by (simp add: one_open_each_def)
next
  case (closed ev)
  let ?close = "\<lambda>e. if e_id e = e_id ev then e\<lparr>e_recovered_at := Some now\<rparr> else e"
  have "length (filter (open_for rid i) (map ?close es)) \<le> length (filter (open_for rid i) es)" for rid i es
    by (induction es) (simp_all add: open_for_def)
  moreover have "length (filter (open_for rid i) (d_events d)) \<le> 1" for rid i
    using assms by (simp add: one_open_each_def)
  ultimately have "length (filter (open_for rid i) (map ?close (d_events d))) \<le> 1" for rid i
    using order_trans by blast
  then show ?thesis by (simp only: one_open_each_def closed(4) simp_thms)
qed (use assms in simp)

lemma justified_step:
  assumes same: "same_tables d d'" and rule: "rule \<in> set (d_rules d)" "r_enabled rule"
    and old: "\<And>e. e \<in> set (d_events d') \<Longrightarrow> e_id e \<in> set (map e_id (d_events d)) \<or>
      (\<exists>rule m v. justified d e rule m v \<and> (r_duration_minutes rule \<le> 0 \<or> sustained d rule m))"
    and e: "e \<in> set (d_events (outcome (eval_target send now (load_interval poll d) (maintenance_ids d) (latest_ok_rows d) rule sid d')))"
  shows "e_id e \<in> set (map e_id (d_events d)) \<or> (\<exists>rule m v. justified d e rule m v \<and> (r_duration_minutes rule \<le> 0 \<or> sustained d rule m))"
proof (cases rule: eval_target_cases [of send now "load_interval poll d" "maintenance_ids d" "latest_ok_rows d" rule sid d'])
  case idle
  then show ?thesis using e old by simp
next
  case (opened m v b)
  show ?thesis
  proof (cases "e \<in> set (d_events d')")
    case False
    then have new: "e = rule_event d' now rule sid m v\<lparr>e_notified := b\<rparr>" using e opened(7) by auto
    have "justified d e rule m v"
      using latest_ok_rows_spec [OF opened(1)] rule opened(2,3,5)
      by (auto simp: justified_def new rule_event_def list_all_iff)
    moreover have "r_duration_minutes rule \<le> 0 \<or> sustained d rule m"
      using opened(4) latest_ok_rows_spec(2) [OF opened(1)]
      by (auto simp: breach_held_tables [OF same] breach_held_def sustained_def Let_def not_less)
    ultimately show ?thesis by blast
  qed (rule old)
next
  case (closed ev)
  then obtain e0 where "e0 \<in> set (d_events d')" "e = (if e_id e0 = e_id ev then e0\<lparr>e_recovered_at := Some now\<rparr> else e0)"
    using e by auto
  then show ?thesis using old [of e0] by (auto simp: justified_def split: if_splits)
qed

text \<open>
  C10.  The evaluation opens alerts only when they are justified: every event it adds belongs to
  an enabled rule and to a server not in maintenance, the newest successful sample of that server
  breaches the rule's threshold, and if the rule asks for a duration then at least two samples lie
  in that window and all of them breach.  Moreover no rule ever has two open events for a server.
\<close>

theorem new_rule_alerts_justified:
  assumes "one_open_each d"
  shows "one_open_each (eval_alerts send poll_seconds now d) \<and>
    list_all (\<lambda>e. e_id e \<in> set (map e_id (d_events d)) \<or>
        (\<exists>rule m v. justified d e rule m v \<and> (r_duration_minutes rule \<le> 0 \<or> sustained d rule m)))
      (d_events (eval_alerts send poll_seconds now d))"
proof -
  let ?old = "\<lambda>e. e_id e \<in> set (map e_id (d_events d)) \<or>
      (\<exists>rule m v. justified d e rule m v \<and> (r_duration_minutes rule \<le> 0 \<or> sustained d rule m))"
  let ?P = "\<lambda>d'. same_tables d d' \<and> one_open_each d' \<and> (\<forall>e \<in> set (d_events d'). ?old e)"
  have "?P (eval_alerts send poll_seconds now d)"
  proof (rule eval_alerts_invariant)
    fix rule sid d' assume rule: "rule \<in> set (d_rules d)" "r_enabled rule" and P: "?P d'"
    let ?d = "outcome (eval_target send now (load_interval poll_seconds d) (maintenance_ids d) (latest_ok_rows d) rule sid d')"
    have "same_tables d ?d" using P eval_target_tables same_tables_trans by blast
    moreover have "one_open_each ?d" using P one_open_step by blast
    moreover have "?old e" if "e \<in> set (d_events ?d)" for e
      by (rule justified_step [OF _ rule _ that]) (use P in blast)+
    ultimately show "?P ?d" by blast
  qed (use assms in simp)
  then show ?thesis by (simp add: list_all_iff)
qed

section \<open>Examples\<close>

text \<open>A rule \<open>cpu_percent > t\<close>, and an acknowledged alert of it on a host whose load has since dropped to
  10 percent.\<close>

definition cpu_rule :: "rat \<Rightarrow> alert_rule" where
  "cpu_rule t = \<lparr>r_id = 7, r_name = ''cpu'', r_metric = ''cpu_percent'', r_op = ''>'', r_threshold = t,
     r_duration_minutes = 0, r_server_id = None, r_enabled = True, r_created_at = 0\<rparr>"

definition acked_event :: alert_event where
  "acked_event = \<lparr>e_id = 1, e_rule_id = Some 7, e_rule_name = ''cpu'', e_server_id = 1,
     e_server_name = ''gpu01'', e_metric = ''cpu_percent'', e_value = 95, e_threshold = 90, e_message = [],
     e_triggered_at = 0, e_recovered_at = None, e_acked_at = Some 10, e_acked_by = ''ops'', e_assignee = [],
     e_notified = True\<rparr>"

definition idle_host :: db where
  "idle_host = empty_db\<lparr>d_servers := [demo_server], d_metrics := [demo_metric 1 100 ''ok'' []],
     d_rules := [cpu_rule 90], d_events := [acked_event]\<rparr>"

theorem acknowledged_alert_never_recovers_witness:
  "about 7 1 (eval_alerts (\<lambda>_. Some True) 60 200 idle_host) = [acked_event]"
proof -
  have "events_ok idle_host" by (simp add: events_ok_def idle_host_def)
  moreover have "find (open_for 7 1) (d_events idle_host) = Some acked_event"
    by (simp add: idle_host_def open_for_def acked_event_def)
  moreover have "e_acked_at acked_event \<noteq> None" by (simp add: acked_event_def)
  moreover have "about 7 1 idle_host = [acked_event]" by (simp add: about_def idle_host_def acked_event_def)
  ultimately show ?thesis using acknowledged_alert_never_recovers by metis
qed

definition busy_host :: db where
  "busy_host = empty_db\<lparr>d_servers := [demo_server], d_metrics := [demo_metric 1 100 ''ok'' []],
     d_rules := [cpu_rule 5]\<rparr>"

theorem new_rule_alerts_justified_witness:
  "one_open_each (eval_alerts (\<lambda>_. Some True) 60 200 busy_host)"
proof -
  have "one_open_each busy_host" by (simp add: one_open_each_def busy_host_def empty_db_def)
  from new_rule_alerts_justified [OF this] show ?thesis by simp
qed

end
