(* ===== verification/Rollup.thy ===== *)
theory Rollup
  imports AlertRules
begin

text \<open>
  Hourly rollups, \<open>_roll_hour\<close>, \<open>_upgrade_legacy_gpu_card_time\<close> and \<open>_hourly_aggregate\<close> of
  \<open>backend/app/scheduler.py\<close>.  A rollup row is unique per server and hour; card time is integrated
  over the hour from the samples in it and the last sample before it, each of which counts until the
  next sample, its own expiry or the end of the hour.  The legacy rebuild, a thread in the source,
  is a function of the database here, with the number of hours after which it is told to stop.
\<close>

section \<open>One hour of one server\<close>

definition samples_in :: "db \<Rightarrow> int \<Rightarrow> time \<Rightarrow> time \<Rightarrow> metric list" where
  "samples_in d sid hour_start hour_end =
     filter (\<lambda>r. m_server_id r = sid \<and> m_collected_at r \<ge> hour_start \<and> m_collected_at r < hour_end) (d_metrics d)"

text \<open>\<open>ORDER BY collected_at DESC, id DESC LIMIT 1\<close> before the hour, for a registered server.\<close>

definition by_time :: "metric list \<Rightarrow> metric list" where
  "by_time rows = order_by m_collected_at (order_by m_id rows)"

definition carry_in :: "db \<Rightarrow> int \<Rightarrow> time \<Rightarrow> metric list" where
  "carry_in d sid hour_start =
     (let before = by_time (filter (\<lambda>r. m_server_id r = sid \<and> m_collected_at r < hour_start) (d_metrics d))
      in if before = [] \<or> sid \<notin> set (map s_id (d_servers d)) then [] else [last before])"

definition idle_card :: "gpu \<Rightarrow> bool" where
  "idle_card g \<longleftrightarrow> num0 (mem_total_mb g) > 0 \<and> num0 (mem_used_mb g) / num0 (mem_total_mb g) \<ge> 3/10
     \<and> num0 (utilization g) \<le> 5"

text \<open>\<open>row.sample_interval_seconds or interval\<close>.\<close>

definition lifetime :: "int \<Rightarrow> metric \<Rightarrow> time" where
  "lifetime interval r =
     seconds (case m_sample_interval_seconds r of Some n \<Rightarrow> if n \<noteq> 0 then n else interval | None \<Rightarrow> interval)"

definition covered :: "time \<Rightarrow> time \<Rightarrow> int \<Rightarrow> metric \<Rightarrow> time \<Rightarrow> time" where
  "covered begins ends interval r next_time =
     max 0 (min (min next_time (m_collected_at r + lifetime interval r)) ends - max (m_collected_at r) begins)"

record card_time =
  ct_sample :: rat
  ct_idle :: rat
  ct_estimated :: bool

definition to_minutes :: "time \<Rightarrow> rat" where
  "to_minutes t = of_int t / 60000000"

definition add_row :: "time \<Rightarrow> time \<Rightarrow> int \<Rightarrow> metric \<Rightarrow> time \<Rightarrow> card_time \<Rightarrow> card_time" where
  "add_row begins ends interval r next_time acc =
     (let span = covered begins ends interval r next_time; mins = to_minutes span
      in if m_status r \<noteq> ''ok'' \<or> span = 0 then acc
         else \<lparr>ct_sample = ct_sample acc + of_nat (length (m_gpus r)) * mins,
               ct_idle = ct_idle acc + of_nat (length (filter idle_card (m_gpus r))) * mins,
               ct_estimated = ct_estimated acc \<or> m_sample_interval_seconds r = None\<rparr>)"

fun integrate :: "time \<Rightarrow> time \<Rightarrow> int \<Rightarrow> metric list \<Rightarrow> card_time \<Rightarrow> card_time" where
  "integrate begins ends interval [] acc = acc"
| "integrate begins ends interval [r] acc = add_row begins ends interval r ends acc"
| "integrate begins ends interval (r # r' # rows) acc =
     integrate begins ends interval (r' # rows) (add_row begins ends interval r (m_collected_at r') acc)"

definition mean1 :: "rat list \<Rightarrow> rat" where
  "mean1 xs = (if xs = [] then 0 else py_round_to 1 (sum_list xs / of_nat (length xs)))"

definition max1 :: "rat list \<Rightarrow> rat" where
  "max1 xs = (if xs = [] then 0 else py_round_to 1 (Max (set xs)))"

definition mem_percents :: "metric list \<Rightarrow> rat list" where
  "mem_percents rows =
     map (\<lambda>r. m_mem_used_mb r / m_mem_total_mb r * 100) (filter (\<lambda>r. m_mem_total_mb r \<noteq> 0) rows)"

definition all_gpus :: "metric list \<Rightarrow> gpu list" where
  "all_gpus rows = concat (map m_gpus rows)"

definition aggregate :: "time \<Rightarrow> time \<Rightarrow> int \<Rightarrow> int \<Rightarrow> metric list \<Rightarrow> metric list \<Rightarrow> metric_hourly" where
  "aggregate hour_start hour_end interval sid rows carry =
     (let ok = filter (\<lambda>r. m_status r = ''ok'') rows;
          t = integrate hour_start hour_end interval (by_time (rows @ carry))
                \<lparr>ct_sample = 0, ct_idle = 0,
                 ct_estimated = list_ex (\<lambda>r. m_sample_interval_seconds r = None) ok\<rparr>;
          gpus = all_gpus ok;
          sized = filter (\<lambda>g. num0 (mem_total_mb g) > 0) gpus
      in \<lparr>h_server_id = sid, h_hour = hour_start, h_samples = length rows, h_ok_samples = length ok,
          h_cpu_avg = mean1 (map m_cpu_percent ok), h_cpu_max = max1 (map m_cpu_percent ok),
          h_mem_avg_pct = mean1 (mem_percents ok),
          h_gpu_util_avg = mean1 (map (\<lambda>g. num0 (utilization g)) gpus),
          h_gpu_util_max = max1 (map (\<lambda>g. num0 (utilization g)) gpus),
          h_gpu_mem_pct_avg = mean1 (map (\<lambda>g. num0 (mem_used_mb g) / num0 (mem_total_mb g) * 100) sized),
          h_gpu_power_avg = mean1 (filter (\<lambda>p. p \<noteq> 0) (map (\<lambda>g. num0 (power_draw g)) gpus)),
          h_net_rx_avg_bps = mean1 (map (\<lambda>r. num0 (m_net_rx_bytes r)) ok),
          h_net_tx_avg_bps = mean1 (map (\<lambda>r. num0 (m_net_tx_bytes r)) ok),
          h_idle_held_minutes = py_trunc (ct_idle t + 1 / 10 ^ 9),
          h_gpu_sample_minutes = Some (ct_sample t), h_idle_held_gpu_minutes = Some (ct_idle t),
          h_gpu_time_estimated = ct_estimated t\<rparr>)"

section \<open>One hour of all servers\<close>

definition hourly_of :: "db \<Rightarrow> int \<Rightarrow> time \<Rightarrow> metric_hourly option" where
  "hourly_of d sid hour = find (\<lambda>h. h_server_id h = sid \<and> h_hour h = hour) (d_hourly d)"

definition keep_existing :: "metric_hourly \<Rightarrow> metric_hourly" where
  "keep_existing h = (if h_gpu_sample_minutes h = None then h\<lparr>h_gpu_time_estimated := False\<rparr> else h)"

definition retained :: "db \<Rightarrow> time \<Rightarrow> time \<Rightarrow> int \<Rightarrow> bool" where
  "retained d hour_start hour_end sid \<longleftrightarrow>
     samples_in d sid hour_start hour_end = [] \<and> hourly_of d sid hour_start \<noteq> None"

definition roll_hour :: "time \<Rightarrow> time \<Rightarrow> int list \<Rightarrow> int \<Rightarrow> db \<Rightarrow> db" where
  "roll_hour hour_start hour_end server_ids interval d =
     (let old = filter (\<lambda>h. \<not> (h_hour h = hour_start \<and> h_server_id h \<in> set server_ids
                     \<and> \<not> retained d hour_start hour_end (h_server_id h)))
                 (map (\<lambda>h. if h_hour h = hour_start \<and> h_server_id h \<in> set server_ids
                           then keep_existing h else h) (d_hourly d));
          new = map (\<lambda>sid. aggregate hour_start hour_end interval sid
                       (samples_in d sid hour_start hour_end) (carry_in d sid hour_start))
                 (filter (\<lambda>sid. \<not> retained d hour_start hour_end sid) server_ids)
      in d\<lparr>d_hourly := old @ new\<rparr>)"

section \<open>Closing the gap\<close>

definition ROLLUP_BACKFILL_HOURS :: nat where "ROLLUP_BACKFILL_HOURS = 24 * 45"

definition hour_floor :: "time \<Rightarrow> time" where
  "hour_floor t = t - t mod hours 1"

definition max_time :: "time list \<Rightarrow> time option" where
  "max_time ts = (if ts = [] then None else Some (Max (set ts)))"

text \<open>\<open>while hour <= prev_hour and closed < _ROLLUP_BACKFILL_HOURS\<close>: the counter bounds the loop.\<close>

fun close_hours :: "nat \<Rightarrow> time \<Rightarrow> time \<Rightarrow> int list \<Rightarrow> int \<Rightarrow> db \<Rightarrow> db" where
  "close_hours 0 hour prev_hour server_ids interval d = d"
| "close_hours (Suc n) hour prev_hour server_ids interval d =
     (if hour \<le> prev_hour
      then close_hours n (hour + hours 1) prev_hour server_ids interval
             (roll_hour hour (hour + hours 1) server_ids interval d)
      else d)"

definition first_hour :: "db \<Rightarrow> time \<Rightarrow> time" where
  "first_hour d prev_hour =
     (case max_time (map h_hour (d_hourly d)) of
        None \<Rightarrow> prev_hour - hours (int ROLLUP_BACKFILL_HOURS - 1)
      | Some last_hour \<Rightarrow> if last_hour < prev_hour then last_hour + hours 1 else prev_hour)"

definition is_legacy :: "int list \<Rightarrow> metric_hourly \<Rightarrow> bool" where
  "is_legacy server_ids h \<longleftrightarrow>
     h_gpu_sample_minutes h = None \<and> h_gpu_time_estimated h \<and> h_server_id h \<in> set server_ids"

definition hourly_aggregate :: "int \<Rightarrow> time \<Rightarrow> db \<Rightarrow> db \<times> (int list \<times> int \<times> time) option" where
  "hourly_aggregate poll_seconds now d =
     (let prev_hour = hour_floor now - hours 1;
          server_ids = map s_id (enabled_servers d);
          interval = load_interval poll_seconds d;
          d1 = close_hours ROLLUP_BACKFILL_HOURS (first_hour d prev_hour) prev_hour server_ids interval d
      in if server_ids = [] then (d, None)
         else (d1, if list_ex (\<lambda>h. is_legacy server_ids h \<and> h_hour h < prev_hour) (d_hourly d1)
                   then Some (server_ids, interval, prev_hour) else None))"

definition full_raw_hour :: "time \<Rightarrow> time" where
  "full_raw_hour first_raw =
     (if hour_floor first_raw \<noteq> first_raw then hour_floor first_raw + hours 1 else hour_floor first_raw)"

definition legacy_hours :: "db \<Rightarrow> int list \<Rightarrow> time \<Rightarrow> time list" where
  "legacy_hours d server_ids before_hour =
     (if d_metrics d = [] then []
      else let from_hour = full_raw_hour (Min (set (map m_collected_at (d_metrics d))));
               hs = map h_hour (filter (\<lambda>h. is_legacy server_ids h \<and> h_hour h \<ge> from_hour
                      \<and> h_hour h < before_hour) (d_hourly d))
           in take 96 (rev (sort (remdups hs))))"

text \<open>\<open>stop_after\<close> is the number of hours after which the stop event is seen.\<close>

definition upgrade_legacy_gpu_card_time :: "nat \<Rightarrow> int list \<Rightarrow> int \<Rightarrow> time \<Rightarrow> db \<Rightarrow> db" where
  "upgrade_legacy_gpu_card_time stop_after server_ids interval before_hour d =
     fold (\<lambda>h. roll_hour h (h + hours 1) server_ids interval)
       (take stop_after (legacy_hours d server_ids before_hour)) d"

section \<open>Card time is bounded by the hour\<close>

lemma lifetime_step: "covered b e i r nxt \<ge> 0"
  by (simp add: covered_def)

lemma covered_le: "covered b e i r nxt \<le> max 0 (min nxt e - max (m_collected_at r) b)"
  by (simp add: covered_def)

lemma to_minutes_mono: "s \<le> t \<Longrightarrow> to_minutes s \<le> to_minutes t"
  and to_minutes_add: "to_minutes (s + t) = to_minutes s + to_minutes t"
  and to_minutes_nonneg: "0 \<le> s \<Longrightarrow> 0 \<le> to_minutes s"
  by (simp_all add: to_minutes_def divide_right_mono add_divide_distrib)

lemma add_row_bounds:
  assumes "length (m_gpus r) \<le> G"
  shows "ct_sample acc \<le> ct_sample (add_row b e i r nxt acc)"
    and "ct_idle acc \<le> ct_idle (add_row b e i r nxt acc)"
    and "ct_idle (add_row b e i r nxt acc) - ct_idle acc \<le> ct_sample (add_row b e i r nxt acc) - ct_sample acc"
    and "ct_sample (add_row b e i r nxt acc) \<le> ct_sample acc + of_nat G * to_minutes (covered b e i r nxt)"
proof -
  let ?m = "to_minutes (covered b e i r nxt)"
  have m: "0 \<le> ?m" by (rule to_minutes_nonneg) (rule lifetime_step)
  have "length (filter idle_card (m_gpus r)) \<le> length (m_gpus r)" by simp
  then have "of_nat (length (filter idle_card (m_gpus r))) * ?m \<le> of_nat (length (m_gpus r)) * ?m"
    using m by (intro mult_right_mono) simp_all
  moreover have "of_nat (length (m_gpus r)) * ?m \<le> of_nat G * ?m"
    using m assms by (intro mult_right_mono) simp_all
  ultimately show "ct_sample acc \<le> ct_sample (add_row b e i r nxt acc)"
    "ct_idle acc \<le> ct_idle (add_row b e i r nxt acc)"
    "ct_idle (add_row b e i r nxt acc) - ct_idle acc \<le> ct_sample (add_row b e i r nxt acc) - ct_sample acc"
    "ct_sample (add_row b e i r nxt acc) \<le> ct_sample acc + of_nat G * ?m"
    using m by (simp_all add: add_row_def Let_def)
qed

lemma integrate_bounds:
  "sorted (map m_collected_at rows) \<Longrightarrow> list_all (\<lambda>r. length (m_gpus r) \<le> G) rows \<Longrightarrow>
   ct_sample acc \<le> ct_sample (integrate b e i rows acc) \<and> ct_idle acc \<le> ct_idle (integrate b e i rows acc) \<and>
   ct_idle (integrate b e i rows acc) - ct_idle acc \<le> ct_sample (integrate b e i rows acc) - ct_sample acc \<and>
   ct_sample (integrate b e i rows acc) \<le> ct_sample acc +
     of_nat G * to_minutes (case rows of [] \<Rightarrow> 0 | r # _ \<Rightarrow> max 0 (e - max (m_collected_at r) b))"
proof (induction b e i rows acc rule: integrate.induct)
  case (1 b e i acc)
  then show ?case by (simp add: to_minutes_def)
next
  case (2 b e i r acc)
  have "to_minutes (covered b e i r e) \<le> to_minutes (max 0 (e - max (m_collected_at r) b))"
    by (rule to_minutes_mono) (use covered_le [of b e i r e] in simp)
  then have "of_nat G * to_minutes (covered b e i r e) \<le> of_nat G * to_minutes (max 0 (e - max (m_collected_at r) b))"
    by (rule mult_left_mono) simp
  then show ?case using add_row_bounds [where r = r and G = G and acc = acc and b = b and e = e and i = i and nxt = e] 2 by simp
next
  case (3 b e i r r' rows acc)
  let ?acc = "add_row b e i r (m_collected_at r') acc"
  let ?rest = "max 0 (e - max (m_collected_at r') b)"
  have le: "m_collected_at r \<le> m_collected_at r'" using "3.prems"(1) by simp
  have "covered b e i r (m_collected_at r') + ?rest \<le> max 0 (e - max (m_collected_at r) b)"
    using covered_le [of b e i r "m_collected_at r'"] le by (auto simp: max_def min_def split: if_splits)
  then have "to_minutes (covered b e i r (m_collected_at r')) + to_minutes ?rest
      \<le> to_minutes (max 0 (e - max (m_collected_at r) b))"
    using to_minutes_mono by (simp add: to_minutes_add [symmetric])
  then have "of_nat G * (to_minutes (covered b e i r (m_collected_at r')) + to_minutes ?rest)
      \<le> of_nat G * to_minutes (max 0 (e - max (m_collected_at r) b))"
    by (rule mult_left_mono) simp
  moreover have "length (m_gpus r) \<le> G" using "3.prems"(2) by simp
  ultimately show ?case
    using "3.IH" "3.prems" add_row_bounds [where r = r and G = G and acc = acc and b = b and e = e and i = i and nxt = "m_collected_at r'"] by (simp add: distrib_left)
qed

lemma sorted_by_time: "sorted (map m_collected_at (by_time rows))"
  by (simp add: by_time_def order_by_def)

lemma set_by_time: "set (by_time rows) = set rows"
  by (simp add: by_time_def order_by_def)

lemma mean1_le_max1: "mean1 xs \<le> max1 xs"
proof (cases "xs = []")
  case False
  have "sum_list xs \<le> of_nat (length xs) * Max (set xs)"
  proof -
    have "(\<And>x. x \<in> set ys \<Longrightarrow> x \<le> m) \<Longrightarrow> sum_list ys \<le> of_nat (length ys) * m" for ys and m :: rat
      by (induction ys) (auto simp: algebra_simps intro: add_mono)
    then show ?thesis by simp
  qed
  then have "sum_list xs / of_nat (length xs) \<le> Max (set xs)"
    using False by (simp add: divide_le_eq mult.commute)
  then show ?thesis using False by (simp add: mean1_def max1_def py_round_to_mono)
qed (simp add: mean1_def max1_def)

text \<open>
  A rollup row is plausible whatever the samples are: with at most \<open>G\<close> cards per sample the
  card time integrated over the hour is at most \<open>G\<close> times the hour, overlapping or late samples
  notwithstanding, the idle card time is part of it, successful samples are at most all samples,
  and averages do not exceed maxima.
\<close>

theorem rollup_row_bounded:
  assumes "list_all (\<lambda>r. length (m_gpus r) \<le> G) (rows @ carry)" and "hour_start \<le> hour_end"
    and "h = aggregate hour_start hour_end interval sid rows carry"
  shows "(\<exists>cards idle. h_gpu_sample_minutes h = Some cards \<and> h_idle_held_gpu_minutes h = Some idle \<and>
      0 \<le> idle \<and> idle \<le> cards \<and> cards \<le> of_nat G * to_minutes (hour_end - hour_start)) \<and>
    h_ok_samples h \<le> h_samples h \<and> h_cpu_avg h \<le> h_cpu_max h \<and> h_gpu_util_avg h \<le> h_gpu_util_max h"
proof -
  let ?zero = "\<lparr>ct_sample = 0, ct_idle = 0, ct_estimated = list_ex (\<lambda>r. m_sample_interval_seconds r = None)
      (filter (\<lambda>r. m_status r = ''ok'') rows)\<rparr>"
  let ?rows = "by_time (rows @ carry)"
  let ?t = "integrate hour_start hour_end interval ?rows ?zero"
  have "list_all (\<lambda>r. length (m_gpus r) \<le> G) ?rows" using assms(1) by (simp add: list_all_iff set_by_time)
  note bounds = integrate_bounds [OF sorted_by_time this, where acc = ?zero and b = hour_start and e = hour_end and i = interval]
  have "(case ?rows of [] \<Rightarrow> 0 | r # _ \<Rightarrow> max 0 (hour_end - max (m_collected_at r) hour_start)) \<le> hour_end - hour_start"
    using assms(2) by (simp split: list.splits)
  then have "of_nat G * to_minutes (case ?rows of [] \<Rightarrow> 0 | r # _ \<Rightarrow> max 0 (hour_end - max (m_collected_at r) hour_start))
      \<le> of_nat G * to_minutes (hour_end - hour_start)"
    by (intro mult_left_mono to_minutes_mono) simp_all
  then have "0 \<le> ct_idle ?t \<and> ct_idle ?t \<le> ct_sample ?t \<and> ct_sample ?t \<le> of_nat G * to_minutes (hour_end - hour_start)"
    using bounds by simp
  then show ?thesis
    by (simp add: assms(3) aggregate_def Let_def mean1_le_max1)
qed

theorem rollup_row_bounded_witness:
  "\<exists>cards. h_gpu_sample_minutes (aggregate 0 (hours 1) 60 1 [demo_metric 1 0 ''ok'' [demo_gpu ''GPU-a'']] []) = Some cards \<and>
     cards \<le> of_nat 1 * to_minutes (hours 1)"
proof -
  let ?rows = "[demo_metric 1 0 ''ok'' [demo_gpu ''GPU-a'']]"
  have "list_all (\<lambda>r. length (m_gpus r) \<le> 1) (?rows @ [])" by (simp add: demo_metric_def)
  moreover have "0 \<le> hours 1 - 0" by (simp add: hours_def)
  ultimately show ?thesis
    using rollup_row_bounded [of 1 ?rows "[]" 0 "hours 1" "aggregate 0 (hours 1) 60 1 ?rows []" 60 1] by auto
qed

section \<open>What rolling an hour does to each row\<close>

lemma find_append: "find P (xs @ ys) = (case find P xs of None \<Rightarrow> find P ys | Some x \<Rightarrow> Some x)"
  by (induction xs) auto

lemma aggregate_key [simp]: "h_server_id (aggregate a b i sid rows carry) = sid" "h_hour (aggregate a b i sid rows carry) = a"
  by (simp_all add: aggregate_def Let_def)

lemma keep_existing_key [simp]: "h_server_id (keep_existing h) = h_server_id h" "h_hour (keep_existing h) = h_hour h"
  by (simp_all add: keep_existing_def)

lemma find_new:
  "find (\<lambda>h. h_server_id h = sid \<and> h_hour h = hour)
     (map (\<lambda>sid. aggregate a b i sid (rows sid) (carry sid)) ids) =
   (if sid \<in> set ids \<and> hour = a then Some (aggregate a b i sid (rows sid) (carry sid)) else None)"
  by (induction ids) auto

lemma hourly_of_roll:
  "hourly_of (roll_hour a b ids i d) sid hour =
     (if hour = a \<and> sid \<in> set ids then
        if retained d a b sid then map_option keep_existing (hourly_of d sid hour)
        else Some (aggregate a b i sid (samples_in d sid a b) (carry_in d sid a))
      else hourly_of d sid hour)"
proof -
  define old where "old = filter (\<lambda>h. \<not> (h_hour h = a \<and> h_server_id h \<in> set ids \<and> \<not> retained d a b (h_server_id h)))
      (map (\<lambda>h. if h_hour h = a \<and> h_server_id h \<in> set ids then keep_existing h else h) (d_hourly d))"
  define new where "new = map (\<lambda>sid. aggregate a b i sid (samples_in d sid a b) (carry_in d sid a))
      (filter (\<lambda>sid. \<not> retained d a b sid) ids)"
  have roll: "hourly_of (roll_hour a b ids i d) sid hour =
      find (\<lambda>h. h_server_id h = sid \<and> h_hour h = hour) (old @ new)"
    by (simp add: hourly_of_def roll_hour_def Let_def old_def new_def)
  have "find (\<lambda>h. h_server_id h = sid \<and> h_hour h = hour) (filter (\<lambda>h. \<not> (h_hour h = a \<and> h_server_id h \<in> set ids \<and> \<not> P (h_server_id h)))
        (map (\<lambda>h. if h_hour h = a \<and> h_server_id h \<in> set ids then keep_existing h else h) hs)) =
      (if hour = a \<and> sid \<in> set ids then
         if P sid then map_option keep_existing (find (\<lambda>h. h_server_id h = sid \<and> h_hour h = hour) hs) else None
       else find (\<lambda>h. h_server_id h = sid \<and> h_hour h = hour) hs)" for P hs
    by (induction hs) auto
  then have "find (\<lambda>h. h_server_id h = sid \<and> h_hour h = hour) old =
      (if hour = a \<and> sid \<in> set ids then
         if retained d a b sid then map_option keep_existing (hourly_of d sid hour) else None
       else hourly_of d sid hour)"
    by (simp add: old_def hourly_of_def)
  moreover have "hourly_of d sid a \<noteq> None" if "retained d a b sid" using that by (simp add: retained_def)
  ultimately show ?thesis unfolding roll find_append new_def find_new
    by (auto split: option.splits)
qed

lemma roll_metrics [simp]:
  "d_metrics (roll_hour a b ids i d) = d_metrics d" "d_servers (roll_hour a b ids i d) = d_servers d"
  by (simp_all add: roll_hour_def Let_def)

lemma samples_roll [simp]: "samples_in (roll_hour a b ids i d) = samples_in d" "carry_in (roll_hour a b ids i d) = carry_in d"
  by (intro ext, simp add: samples_in_def)+ (intro ext, simp add: carry_in_def)

lemma keep_existing_idem: "keep_existing (keep_existing h) = keep_existing h"
  by (simp add: keep_existing_def)

lemma keep_aggregate: "keep_existing (aggregate a b i sid rows carry) = aggregate a b i sid rows carry"
  by (simp add: keep_existing_def aggregate_def Let_def)


section \<open>The gap is closed, and only the gap\<close>

lemma close_hours_servers [simp]: "d_servers (close_hours n h p ids i d) = d_servers d"
  by (induction n h p ids i d rule: close_hours.induct) simp_all

lemma hours_pos: "hours 1 > 0"
  by (simp add: hours_def)

lemma close_hours_keeps:
  "hourly_of d sid t \<noteq> None \<Longrightarrow> hourly_of (close_hours n hour prev ids i d) sid t \<noteq> None"
proof (induction n arbitrary: hour d)
  case (Suc n)
  have "hourly_of (roll_hour hour (hour + hours 1) ids i d) sid t \<noteq> None"
    using Suc.prems by (auto simp: hourly_of_roll)
  then show ?case using Suc by simp
qed simp

lemma close_hours_before:
  "t < hour \<Longrightarrow> hourly_of (close_hours n hour prev ids i d) sid t = hourly_of d sid t"
proof (induction n arbitrary: hour d)
  case (Suc n)
  show ?case
    using Suc.IH [of "hour + hours 1" "roll_hour hour (hour + hours 1) ids i d"] Suc.prems hours_pos
    by (simp add: hourly_of_roll)
qed simp

lemma close_hours_closes:
  "sid \<in> set ids \<Longrightarrow> k < n \<Longrightarrow> hour + int k * hours 1 \<le> prev \<Longrightarrow>
   hourly_of (close_hours n hour prev ids i d) sid (hour + int k * hours 1) \<noteq> None"
proof (induction n arbitrary: hour d k)
  case (Suc n)
  let ?d = "roll_hour hour (hour + hours 1) ids i d"
  have "0 \<le> int k * hours 1" using hours_pos by simp
  then have first: "hour \<le> prev" using Suc.prems(3) by linarith
  show ?case
  proof (cases k)
    case 0
    have "hourly_of ?d sid hour \<noteq> None" using Suc.prems(1) by (auto simp: hourly_of_roll retained_def)
    then show ?thesis using 0 first close_hours_keeps by simp
  next
    case (Suc k')
    then have shift: "hour + hours 1 + int k' * hours 1 = hour + int k * hours 1" by (simp add: distrib_right)
    have "hourly_of (close_hours n (hour + hours 1) prev ids i ?d) sid (hour + hours 1 + int k' * hours 1) \<noteq> None"
      by (rule Suc.IH) (use Suc.prems Suc shift in simp_all)
    then show ?thesis unfolding shift using first by simp
  qed
qed simp


definition rolled_host :: db where
  "rolled_host = empty_db\<lparr>d_servers := [demo_server\<lparr>s_enabled := True\<rparr>]\<rparr>"


end
