(* ===== verification/IdleState.thy ===== *)
theory IdleState
  imports Rollup
begin

text \<open>
  The persistent idle state of GPUs, \<open>_gpu_is_idle_held\<close>, \<open>_load_idle_state\<close>, \<open>_save_idle_state\<close>,
  \<open>_backfill_idle_start\<close> and \<open>update_gpu_idle_state\<close> of \<open>backend/app/scheduler.py\<close>: since when a card
  has been idle with its memory held, under the key \<open>server:uuid\<close>.  The instants stand for their
  ISO texts; the stored setting is \<open>None\<close> when it is missing or not readable as JSON.
\<close>

section \<open>Definitions\<close>

type_synonym idle_state = "(string, time) dict"

record idle_store =
  gpu_idle_mem :: "idle_state option"
  saved_state :: "idle_state option"

definition gpu_is_idle_held :: "gpu \<Rightarrow> bool" where
  "gpu_is_idle_held g \<longleftrightarrow> num0 (utilization g) < 5 \<and> num0 (mem_total_mb g) \<noteq> 0
     \<and> num0 (mem_used_mb g) / num0 (mem_total_mb g) * 100 \<ge> 30"

definition load_idle_state :: "idle_store \<Rightarrow> idle_state \<times> idle_store" where
  "load_idle_state st =
     (case gpu_idle_mem st of
        Some m \<Rightarrow> (m, st)
      | None \<Rightarrow> let s = the_default [] (saved_state st) in (s, st\<lparr>gpu_idle_mem := Some s\<rparr>))"

definition save_idle_state :: "idle_state \<Rightarrow> idle_store \<Rightarrow> idle_store" where
  "save_idle_state s st = st\<lparr>saved_state := Some s, gpu_idle_mem := Some s\<rparr>"

text \<open>\<open>ORDER BY collected_at DESC\<close>.\<close>

definition older_rows :: "db \<Rightarrow> int \<Rightarrow> time \<Rightarrow> metric list" where
  "older_rows d sid cursor =
     rev (order_by m_collected_at
       (filter (\<lambda>r. m_server_id r = sid \<and> m_collected_at r < cursor \<and> m_status r = ''ok'') (d_metrics d)))"

definition idle_in :: "string \<Rightarrow> metric \<Rightarrow> bool" where
  "idle_in u r =
     (case find (\<lambda>x. uuid x = Some u) (m_gpus r) of None \<Rightarrow> False | Some g \<Rightarrow> gpu_is_idle_held g)"

text \<open>The walk over one page: \<open>Inl\<close> is the return out of the loop, \<open>Inr\<close> the end of the page.\<close>

fun walk :: "string \<Rightarrow> metric list \<Rightarrow> time option \<Rightarrow> time option + time option" where
  "walk u [] start = Inr start"
| "walk u (r # rows) start = (if idle_in u r then walk u rows (Some (m_collected_at r)) else Inl start)"

definition older_count :: "db \<Rightarrow> time \<Rightarrow> nat" where
  "older_count d cursor = length (filter (\<lambda>r. m_collected_at r < cursor) (d_metrics d))"

lemma older_count_less:
  assumes "r \<in> set (d_metrics d)" and "m_collected_at r < cursor"
  shows "older_count d (m_collected_at r) < older_count d cursor"
proof -
  have sub: "length (filter (\<lambda>x. m_collected_at x < m_collected_at r) ms) \<le> length (filter (\<lambda>x. m_collected_at x < cursor) ms)" for ms
    using assms(2) by (induction ms) auto
  have "r \<in> set ms \<Longrightarrow> length (filter (\<lambda>x. m_collected_at x < m_collected_at r) ms) <
      length (filter (\<lambda>x. m_collected_at x < cursor) ms)" for ms
  proof (induction ms)
    case (Cons x ms)
    then show ?case using assms(2) sub [of ms] by (cases "x = r") auto
  qed simp
  then show ?thesis using assms(1) by (simp add: older_count_def)
qed

definition PAGE :: nat where "PAGE = 2000"

function backfill_from :: "db \<Rightarrow> int \<Rightarrow> string \<Rightarrow> time \<Rightarrow> time option \<Rightarrow> time option" where
  "backfill_from d sid u cursor start =
     (let rows = take PAGE (older_rows d sid cursor)
      in if rows = [] then start
         else case walk u rows start of
                Inl result \<Rightarrow> result
              | Inr start' \<Rightarrow>
                  if length rows < PAGE then start'
                  else backfill_from d sid u (m_collected_at (last rows)) start')"
  by pat_completeness auto

termination
proof (relation "measure (\<lambda>(d, sid, u, cursor, start). older_count d cursor)")
  fix d sid u cursor start rows start'
  assume "rows = take PAGE (older_rows d sid cursor)" and "rows \<noteq> []"
  then have "last rows \<in> set (older_rows d sid cursor)" using last_in_set in_set_takeD by metis
  then have "last rows \<in> set (d_metrics d)" "m_collected_at (last rows) < cursor"
    by (auto simp: older_rows_def order_by_def)
  then show "((d, sid, u, m_collected_at (last rows), start'), d, sid, u, cursor, start)
      \<in> measure (\<lambda>(d, sid, u, cursor, start). older_count d cursor)"
    by (simp add: older_count_less)
qed simp

definition backfill_idle_start :: "db \<Rightarrow> int \<Rightarrow> string \<Rightarrow> time \<Rightarrow> time option" where
  "backfill_idle_start d sid u before = backfill_from d sid u before None"

definition idle_key :: "int \<Rightarrow> string \<Rightarrow> string" where
  "idle_key sid u = show_int sid @ '':'' @ u"

definition note_gpu :: "db \<Rightarrow> int \<Rightarrow> time \<Rightarrow> gpu \<Rightarrow> idle_state \<times> string list \<Rightarrow> idle_state \<times> string list" where
  "note_gpu d sid collected_at g acc =
     (case acc of
        (state, seen) \<Rightarrow>
          let u = str0 (uuid g); key = idle_key sid u
          in if u = [] then acc
             else (if gpu_is_idle_held g
                   then if map_of state key = None
                        then AList.update key (the_default collected_at (backfill_idle_start d sid u collected_at)) state
                        else state
                   else AList.delete key state,
                   key # seen))"

definition next_idle_state :: "db \<Rightarrow> int \<Rightarrow> time \<Rightarrow> gpu list \<Rightarrow> idle_state \<Rightarrow> idle_state" where
  "next_idle_state d sid collected_at gpus state =
     (case fold (note_gpu d sid collected_at) gpus (state, []) of
        (state', seen) \<Rightarrow>
          filter (\<lambda>p. \<not> (is_prefix (show_int sid @ '':'') (fst p) \<and> fst p \<notin> set seen)) state')"

text \<open>\<open>changed\<close> is set exactly when an entry is added or deleted, so that saving only then is saving
  when the state differs.\<close>

definition update_gpu_idle_state :: "db \<Rightarrow> int \<Rightarrow> time \<Rightarrow> gpu list \<Rightarrow> idle_store \<Rightarrow> idle_store" where
  "update_gpu_idle_state d sid collected_at gpus st =
     (case load_idle_state st of
        (state, st') \<Rightarrow>
          let state' = next_idle_state d sid collected_at gpus state
          in if state' = state then st' else save_idle_state state' st')"

section \<open>Paging does not matter\<close>

definition whole_walk :: "string \<Rightarrow> metric list \<Rightarrow> time option \<Rightarrow> time option" where
  "whole_walk u rows start = (case walk u rows start of Inl t \<Rightarrow> t | Inr t \<Rightarrow> t)"

lemma walk_append:
  "walk u (xs @ ys) start = (case walk u xs start of Inl t \<Rightarrow> Inl t | Inr t \<Rightarrow> walk u ys t)"
  by (induction xs arbitrary: start) auto

definition distinct_times :: "db \<Rightarrow> int \<Rightarrow> bool" where
  "distinct_times d sid \<longleftrightarrow> distinct (map m_collected_at (filter (\<lambda>r. m_server_id r = sid) (d_metrics d)))"

lemma older_rows_strict:
  assumes "distinct_times d sid"
  shows "sorted_wrt (\<lambda>x y. m_collected_at x > m_collected_at y) (older_rows d sid cursor)"
proof -
  let ?rows = "filter (\<lambda>r. m_server_id r = sid \<and> m_collected_at r < cursor \<and> m_status r = ''ok'') (d_metrics d)"
  let ?srt = "order_by m_collected_at ?rows"
  have "?rows = filter (\<lambda>r. m_collected_at r < cursor \<and> m_status r = ''ok'') (filter (\<lambda>r. m_server_id r = sid) (d_metrics d))"
    by simp
  then have "distinct (map m_collected_at ?rows)"
    using distinct_map_filter [OF assms [unfolded distinct_times_def]] by simp
  then have "distinct (map m_collected_at ?srt)" by (simp add: order_by_def distinct_map)
  then have "sorted_wrt (<) (map m_collected_at ?srt)"
    by (simp add: strict_sorted_iff order_by_def)
  then show ?thesis by (simp add: older_rows_def sorted_wrt_map sorted_wrt_rev)
qed

lemma filter_below:
  fixes f :: "'a \<Rightarrow> 'b::linorder"
  shows "sorted_wrt (\<lambda>x y. f x > f y) xs \<Longrightarrow> n < length xs \<Longrightarrow> filter (\<lambda>r. f r < f (xs ! n)) xs = drop (Suc n) xs"
proof (induction xs arbitrary: n)
  case (Cons x xs)
  show ?case
  proof (cases n)
    case 0
    have "filter (\<lambda>r. f r < f x) xs = xs" using Cons.prems(1) by (simp add: filter_id_conv)
    then show ?thesis using 0 by simp
  next
    case (Suc m)
    then have "f (xs ! m) < f x" using Cons.prems by simp
    then have "\<not> f x < f (xs ! m)" by simp
    then show ?thesis using Cons.IH [of m] Cons.prems Suc by simp
  qed
qed simp

lemma older_rows_page:
  assumes "distinct_times d sid" and "n < length (older_rows d sid cursor)"
  shows "older_rows d sid (m_collected_at (older_rows d sid cursor ! n)) = drop (Suc n) (older_rows d sid cursor)"
proof -
  let ?rows = "older_rows d sid cursor" and ?t = "m_collected_at (older_rows d sid cursor ! n)"
  have "?t < cursor" using nth_mem [OF assms(2)] by (auto simp: older_rows_def order_by_def)
  then have same: "filter (\<lambda>r. m_server_id r = sid \<and> m_collected_at r < ?t \<and> m_status r = ''ok'') ms
      = filter (\<lambda>r. m_collected_at r < ?t) (filter (\<lambda>r. m_server_id r = sid \<and> m_collected_at r < cursor \<and> m_status r = ''ok'') ms)"
    for ms by (auto intro!: filter_cong)
  have "older_rows d sid ?t = filter (\<lambda>r. m_collected_at r < ?t) ?rows"
    unfolding older_rows_def [of d sid ?t] same
    by (simp only: older_rows_def [of d sid cursor] order_by_def filter_sort [symmetric] rev_filter)
  also have "\<dots> = drop (Suc n) ?rows"
    by (rule filter_below [OF older_rows_strict [OF assms(1)] assms(2)])
  finally show ?thesis .
qed

declare backfill_from.simps [simp del]

text \<open>
  Reading the history page by page finds the same start of the idle run as one walk over the
  whole history, newest first, as long as no two samples of the server share an instant.
\<close>

theorem backfill_equals_walk:
  assumes "distinct_times d sid"
  shows "backfill_from d sid u cursor start = whole_walk u (older_rows d sid cursor) start"
  using assms
proof (induction d sid u cursor start rule: backfill_from.induct)
  case (1 d sid u cursor start)
  let ?rows = "older_rows d sid cursor"
  let ?page = "take PAGE ?rows"
  have page: "?page = [] \<longleftrightarrow> ?rows = []" by (simp add: PAGE_def)
  have split: "whole_walk u ?rows start = (case walk u ?page start of Inl t \<Rightarrow> t | Inr t \<Rightarrow> whole_walk u (drop PAGE ?rows) t)"
    using walk_append [of u ?page "drop PAGE ?rows" start] by (simp add: whole_walk_def split: sum.splits)
  show ?case
  proof (cases "?rows = []")
    case True
    then show ?thesis by (simp add: backfill_from.simps [of d sid u cursor] whole_walk_def)
  next
    case False
    show ?thesis
    proof (cases "walk u ?page start")
      case (Inl t)
      then show ?thesis using False page split by (simp add: backfill_from.simps [of d sid u cursor] Let_def)
    next
      case (Inr t)
      show ?thesis
      proof (cases "length ?page < PAGE")
        case True
        then have "drop PAGE ?rows = []" by simp
        then show ?thesis using True False page split Inr
          by (simp add: backfill_from.simps [of d sid u cursor] Let_def whole_walk_def)
      next
        case full: False
        then have len: "PAGE \<le> length ?rows" by simp
        have "0 < PAGE" by (simp add: PAGE_def)
        then have "last ?page = ?rows ! (PAGE - 1)" using len False page
          by (subst last_conv_nth) (simp_all add: min_absorb2)
        then have "older_rows d sid (m_collected_at (last ?page)) = drop PAGE ?rows"
          using older_rows_page [OF "1.prems", of "PAGE - 1" cursor] len by (simp add: PAGE_def)
        moreover have "backfill_from d sid u (m_collected_at (last ?page)) t =
            whole_walk u (older_rows d sid (m_collected_at (last ?page))) t"
          by (rule "1.IH" [OF refl _ Inr full "1.prems"]) (use False page in simp)
        ultimately show ?thesis using False page full split Inr
          by (simp add: backfill_from.simps [of d sid u cursor] Let_def)
      qed
    qed
  qed
qed

definition idle_history :: db where
  "idle_history = empty_db\<lparr>d_metrics := [demo_metric 1 60 ''ok'' [], demo_metric 2 120 ''ok'' [demo_gpu ''GPU-a''],
     demo_metric 3 180 ''ok'' [demo_gpu ''GPU-a'']]\<rparr>"

theorem backfill_equals_walk_witness:
  "backfill_from idle_history 1 ''GPU-a'' 240 None = whole_walk ''GPU-a'' (older_rows idle_history 1 240) None"
proof (rule backfill_equals_walk)
  show "distinct_times idle_history 1"
    by (simp add: distinct_times_def idle_history_def demo_metric_def)
qed


section \<open>The state follows the sample\<close>

definition uid :: "gpu \<Rightarrow> string" where "uid g = str0 (uuid g)"

definition sample_keys :: "int \<Rightarrow> gpu list \<Rightarrow> string list" where
  "sample_keys sid gpus = map (idle_key sid) (filter (\<lambda>u. u \<noteq> []) (map uid gpus))"

definition since_of :: "db \<Rightarrow> int \<Rightarrow> time \<Rightarrow> gpu \<Rightarrow> time option \<Rightarrow> time option" where
  "since_of d sid t g old =
     (if gpu_is_idle_held g
      then Some (case old of Some since \<Rightarrow> since
                 | None \<Rightarrow> the_default t (backfill_idle_start d sid (uid g) t))
      else None)"

lemma idle_key_inj [simp]: "idle_key sid u = idle_key sid v \<longleftrightarrow> u = v"
  by (simp add: idle_key_def)

lemma idle_key_prefix: "is_prefix (show_int sid @ '':'') (idle_key sid u)"
  by (auto simp: idle_key_def is_prefix_iff)

lemma note_gpu_at:
  "map_of (fst (note_gpu d sid t g (state, seen))) k =
     (if uid g \<noteq> [] \<and> k = idle_key sid (uid g) then since_of d sid t g (map_of state k) else map_of state k)"
  by (auto simp: note_gpu_def Let_def uid_def since_of_def delete_conv split: option.splits)

lemma note_gpu_seen:
  "snd (note_gpu d sid t g (state, seen)) = (if uid g \<noteq> [] then idle_key sid (uid g) # seen else seen)"
  by (simp add: note_gpu_def Let_def uid_def)

lemma notes_seen:
  "set (snd (fold (note_gpu d sid t) gs acc)) = set (snd acc) \<union> set (sample_keys sid gs)"
proof (induction gs arbitrary: acc)
  case (Cons g gs)
  show ?case using Cons.IH [of "note_gpu d sid t g acc"] note_gpu_seen [of d sid t g "fst acc" "snd acc"]
    by (auto simp: sample_keys_def)
qed (simp add: sample_keys_def)

lemma notes_frame:
  "k \<notin> set (sample_keys sid gs) \<Longrightarrow> map_of (fst (fold (note_gpu d sid t) gs acc)) k = map_of (fst acc) k"
proof (induction gs arbitrary: acc)
  case (Cons g gs)
  have "map_of (fst (note_gpu d sid t g acc)) k = map_of (fst acc) k"
    using Cons.prems note_gpu_at [of d sid t g "fst acc" "snd acc" k] by (auto simp: sample_keys_def)
  then show ?case using Cons by (auto simp: sample_keys_def split: if_splits)
qed simp

lemma notes_at:
  "distinct (sample_keys sid gs) \<Longrightarrow> g \<in> set gs \<Longrightarrow> uid g \<noteq> [] \<Longrightarrow>
   map_of (fst (fold (note_gpu d sid t) gs acc)) (idle_key sid (uid g)) =
     since_of d sid t g (map_of (fst acc) (idle_key sid (uid g)))"
proof (induction gs arbitrary: acc)
  case (Cons x gs)
  have x: "map_of (fst (note_gpu d sid t x acc)) k =
      (if uid x \<noteq> [] \<and> k = idle_key sid (uid x) then since_of d sid t x (map_of (fst acc) k) else map_of (fst acc) k)" for k
    using note_gpu_at [of d sid t x "fst acc" "snd acc" k] by simp
  show ?case
  proof (cases "g = x")
    case True
    then have "idle_key sid (uid g) \<notin> set (sample_keys sid gs)" using Cons.prems by (simp add: sample_keys_def)
    then show ?thesis using x True Cons.prems(3) by (simp add: notes_frame)
  next
    case False
    then have g: "g \<in> set gs" using Cons.prems(2) by simp
    then have "idle_key sid (uid g) \<in> set (sample_keys sid gs)"
      using Cons.prems(3) by (auto simp: sample_keys_def)
    then have "uid x = [] \<or> uid g \<noteq> uid x" using Cons.prems(1) by (auto simp: sample_keys_def)
    then show ?thesis using x Cons.IH [OF _ g Cons.prems(3), of "note_gpu d sid t x acc"] Cons.prems(1,3)
      by (auto simp: sample_keys_def split: if_splits)
  qed
qed simp

text \<open>
  After a poll the idle state of the server is exactly that of its cards: a card of the
  sample has an entry if and only if it holds memory while idle, an entry already there keeps its
  start, a new one starts where the history says, cards that are gone lose theirs, and entries of
  other servers are untouched.
\<close>

theorem idle_state_follows_sample:
  assumes "distinct (sample_keys sid gpus)" and "g \<in> set gpus" and "uid g \<noteq> []"
    and "state' = next_idle_state d sid t gpus state"
  shows "map_of state' (idle_key sid (uid g)) = since_of d sid t g (map_of state (idle_key sid (uid g))) \<and>
    (\<forall>k. map_of state' k =
       (if k \<in> set (sample_keys sid gpus) then map_of state' k
        else if is_prefix (show_int sid @ '':'') k then None else map_of state k))"
proof -
  obtain st seen where st: "fold (note_gpu d sid t) gpus (state, []) = (st, seen)" by force
  have seen: "set seen = set (sample_keys sid gpus)"
    using notes_seen [of d sid t gpus "(state, [])"] by (simp add: st)
  have state': "map_of state' k = (if is_prefix (show_int sid @ '':'') k \<and> k \<notin> set seen then None else map_of st k)" for k
    using map_of_filter_keys [of "\<lambda>k. \<not> (is_prefix (show_int sid @ '':'') k \<and> k \<notin> set seen)" st k]
    by (simp add: assms(4) next_idle_state_def st)
  have "idle_key sid (uid g) \<in> set seen" using assms(2,3) by (auto simp: seen sample_keys_def)
  then show ?thesis
    using state' notes_at [OF assms(1-3), of d t "(state, [])"] notes_frame [of _ sid gpus d t "(state, [])"]
    by (auto simp: st seen)
qed

definition held_gpu :: gpu where
  "held_gpu = demo_gpu ''GPU-a''"

theorem idle_state_follows_sample_witness:
  "map_of (next_idle_state empty_db 1 300 [held_gpu] [(idle_key 1 ''GPU-a'', 60), (idle_key 1 ''GPU-b'', 70)])
     (idle_key 1 ''GPU-a'') = Some 60"
proof -
  have "uid held_gpu = ''GPU-a''" "gpu_is_idle_held held_gpu"
    by (simp_all add: uid_def held_gpu_def demo_gpu_def str0_def gpu_is_idle_held_def num0_def)
  then show ?thesis
    using idle_state_follows_sample [of 1 "[held_gpu]" held_gpu _ empty_db 300
        "[(idle_key 1 ''GPU-a'', 60), (idle_key 1 ''GPU-b'', 70)]"]
    by (simp add: sample_keys_def since_of_def)
qed

end
