(* ===== verification/Privacy.thy ===== *)
theory Privacy
  imports Models "HOL-Library.Monad_Syntax"
begin

text \<open>
  \<open>backend/app/privacy.py\<close>: what leaves the process table and the metric rows before they are
  exported or archived.  A process is an object; the typed entries of a GPU lose everything but
  their process id and memory.
\<close>

section \<open>Definitions\<close>

definition PROCESS_RESOURCE_FIELDS :: "string list" where
  "PROCESS_RESOURCE_FIELDS =
    [''pid'', ''ppid'', ''cpu'', ''mem'', ''rss_mb'', ''vsz_mb'', ''stat'', ''etimes'', ''mem_mb'']"

definition minimize_process :: "(string \<times> json) list \<Rightarrow> (string \<times> json) list" where
  "minimize_process process =
     List.map_filter (\<lambda>key. map_option (Pair key) (map_of process key)) PROCESS_RESOURCE_FIELDS"

definition minimize_processes :: "json list \<Rightarrow> json list" where
  "minimize_processes processes =
     List.map_filter (\<lambda>p. case p of JObj fs \<Rightarrow> Some (JObj (minimize_process fs)) | _ \<Rightarrow> None) processes"

definition minimize_gpu_process :: "gpu_process \<Rightarrow> gpu_process" where
  "minimize_gpu_process p = p\<lparr>p_user := None, p_command := []\<rparr>"

definition minimize_gpus :: "gpu list \<Rightarrow> gpu list" where
  "minimize_gpus gpus = map (\<lambda>g. g\<lparr>gpu_processes := map minimize_gpu_process (gpu_processes g)\<rparr>) gpus"

definition minimize_metric :: "metric \<Rightarrow> metric" where
  "minimize_metric m = m\<lparr>m_processes := minimize_processes (m_processes m), m_gpus := minimize_gpus (m_gpus m), m_users := []\<rparr>"

section \<open>Nothing personal stays, everything else does\<close>

definition private_object :: "json \<Rightarrow> bool" where
  "private_object p \<longleftrightarrow> (case p of JObj fs \<Rightarrow> list_all (\<lambda>(k, v). k \<in> set PROCESS_RESOURCE_FIELDS) fs | _ \<Rightarrow> False)"

definition private_metric :: "metric \<Rightarrow> bool" where
  "private_metric m \<longleftrightarrow> m_users m = [] \<and> list_all private_object (m_processes m) \<and>
     list_all (\<lambda>g. list_all (\<lambda>p. p_user p = None \<and> p_command p = []) (gpu_processes g)) (m_gpus m)"

lemma map_of_pairs:
  "distinct ks \<Longrightarrow> map_of (List.map_filter (\<lambda>k. map_option (Pair k) (map_of f k)) ks) j = (if j \<in> set ks then map_of f j else None)"
proof (induction ks)
  case (Cons k ks)
  then show ?case by (cases "map_of f k") (auto simp: map_filter_simps)
qed (simp add: map_filter_simps)

lemma minimize_process_get:
  "map_of (minimize_process f) k = (if k \<in> set PROCESS_RESOURCE_FIELDS then map_of f k else None)"
  unfolding minimize_process_def by (rule map_of_pairs) (simp add: PROCESS_RESOURCE_FIELDS_def)

lemma minimize_process_keys: "(k, v) \<in> set (minimize_process f) \<Longrightarrow> k \<in> set PROCESS_RESOURCE_FIELDS"
  by (auto simp: minimize_process_def List.map_filter_def)

lemma minimize_process_idem: "minimize_process (minimize_process f) = minimize_process f"
proof -
  have "List.map_filter (\<lambda>k. map_option (Pair k) (map_of (minimize_process f) k)) ks = List.map_filter (\<lambda>k. map_option (Pair k) (map_of f k)) ks"
    if "set ks \<subseteq> set PROCESS_RESOURCE_FIELDS" for ks
    using that by (induction ks) (simp_all add: map_filter_simps minimize_process_get split: option.split)
  then show ?thesis unfolding minimize_process_def by simp
qed

lemma minimize_processes_idem: "minimize_processes (minimize_processes ps) = minimize_processes ps"
  unfolding minimize_processes_def
  by (induction ps) (simp_all add: map_filter_simps minimize_process_idem split: option.split json.split)

lemma minimized_private: "private_metric (minimize_metric m)"
proof -
  have "list_all private_object (minimize_processes ps)" for ps
    unfolding minimize_processes_def
    by (induction ps)
      (auto simp: map_filter_simps private_object_def list_all_iff split: option.split json.split dest: minimize_process_keys)
  then show ?thesis
    by (simp add: private_metric_def minimize_metric_def minimize_gpus_def minimize_gpu_process_def list_all_iff)
qed

lemma minimize_metric_idem: "minimize_metric (minimize_metric m) = minimize_metric m"
  by (simp add: minimize_metric_def minimize_processes_idem minimize_gpus_def minimize_gpu_process_def comp_def)

lemma minimize_metric_keys [simp]:
  "m_id (minimize_metric m) = m_id m" "m_server_id (minimize_metric m) = m_server_id m"
  "m_collected_at (minimize_metric m) = m_collected_at m" "m_status (minimize_metric m) = m_status m"
  by (simp_all add: minimize_metric_def)

end
