(* ===== verification/Store.thy ===== *)
theory Store
  imports Risk Extra IdleState Privacy
begin

text \<open>
  What the scheduler writes, \<open>backend/app/scheduler.py\<close>: kernel events under their digests, the
  sample of a poll with the process snapshot and the work that follows it, slow and inventory rows,
  and retention.  The digest is a parameter.  The commit of a session is the end of the function;
  a database error is outside the model.
\<close>

section \<open>Kernel events\<close>

definition kernel_text :: "string \<Rightarrow> kernel_event \<Rightarrow> string" where
  "kernel_text boot e = boot @ ''|'' @ ke_type e @ ''|'' @ show_int (ke_xid e) @ ''|'' @ take 200 (ke_raw e)"

definition kernel_row :: "time \<Rightarrow> int \<Rightarrow> string \<Rightarrow> string \<Rightarrow> kernel_event \<Rightarrow> kernel_event_row" where
  "kernel_row now sid boot h e = \<lparr>k_server_id = sid, k_collected_at = now, k_boot_id = boot, k_event_type = ke_type e,
     k_severity = ke_severity e, k_gpu_uuid = ke_uuid e, k_xid = ke_xid e, k_message = ke_message e,
     k_raw_message = ke_raw e, k_dedup_hash = h\<rparr>"

definition insert_event ::
    "time \<Rightarrow> int \<Rightarrow> string \<Rightarrow> string \<times> kernel_event \<Rightarrow> string list \<times> kernel_event_row list \<Rightarrow>
     string list \<times> kernel_event_row list" where
  "insert_event now sid boot item acc =
     (case (item, acc) of
        ((h, e), (known, rows)) \<Rightarrow>
          if h \<in> set known then (known, rows) else (h # known, rows @ [kernel_row now sid boot h e]))"

definition store_kernel_events ::
    "(string \<Rightarrow> string) \<Rightarrow> time \<Rightarrow> int \<Rightarrow> string \<Rightarrow> kernel_event list \<Rightarrow> db \<Rightarrow> db" where
  "store_kernel_events digest now sid boot events d =
     (if events = [] then d
      else let pending = map (\<lambda>e. (take 40 (digest (kernel_text boot e)), e)) events;
               known = map k_dedup_hash (filter (\<lambda>r. k_server_id r = sid \<and> k_dedup_hash r \<in> set (map fst pending)) (d_kernel d))
        in d\<lparr>d_kernel := d_kernel d @ snd (fold (insert_event now sid boot) pending (known, []))\<rparr>)"

section \<open>One poll\<close>

definition login_json :: "login \<Rightarrow> json" where
  "login_json l = JObj [(''user'', JStr (l_user l)), (''tty'', JStr (l_tty l)), (''from'', JStr (l_from l)),
     (''login'', JStr (l_login l))]"

definition next_metric_id :: "db \<Rightarrow> int" where
  "next_metric_id d = foldr (\<lambda>m i. max (m_id m) i) (d_metrics d) 0 + 1"

definition metric_of :: "int \<Rightarrow> time \<Rightarrow> int \<Rightarrow> int \<Rightarrow> sample \<Rightarrow> metric" where
  "metric_of i now interval sid res =
     \<lparr>m_id = i, m_server_id = sid, m_collected_at = now, m_sample_interval_seconds = Some interval,
      m_hostname = c_hostname res, m_os = c_os res, m_kernel = c_kernel res, m_uptime_seconds = c_uptime_seconds res,
      m_boot_id = c_boot_id res, m_cpu_model = c_cpu_model res, m_cpu_count = c_cpu_count res,
      m_cpu_percent = c_cpu_percent res, m_cpu_iowait = Some (c_cpu_iowait res), m_cpu_freq_avg = c_cpu_freq_avg res,
      m_cpu_temp_package = c_cpu_temp_package res, m_cores = c_cores res,
      m_load1 = c_load1 res, m_load5 = c_load5 res, m_load15 = c_load15 res,
      m_mem_total_mb = mem_total (c_memory res), m_mem_used_mb = mem_used (c_memory res),
      m_mem_available_mb = mem_available (c_memory res), m_mem_cached_mb = mem_cached (c_memory res),
      m_swap_total_mb = swap_total (c_memory res), m_swap_used_mb = swap_used (c_memory res),
      m_disk_total_gb = sum_list (map total_gb (c_disks res)), m_disk_used_gb = sum_list (map used_gb (c_disks res)),
      m_disks = c_disks res, m_inodes = c_inodes res, m_disk_io = c_disk_io res,
      m_net_rx_bytes = Some (sum_list (map (\<lambda>i. num0 (rx_bps i)) (c_net_ifaces res))),
      m_net_tx_bytes = Some (sum_list (map (\<lambda>i. num0 (tx_bps i)) (c_net_ifaces res))),
      m_net_ifaces = c_net_ifaces res, m_users = map login_json (c_users res),
      m_sock_estab = c_sock_estab res, m_sock_timewait = c_sock_timewait res,
      m_fd_allocated = c_fd_allocated res, m_fd_max = c_fd_max res,
      m_gpu_count = int (length (c_gpus res)), m_gpu_driver = c_gpu_driver res, m_gpus = c_gpus res,
      m_processes = [], m_duration = c_duration res, m_ssh_latency = c_ssh_latency res,
      m_status = (if c_ok res then ''ok'' else ''error''), m_error_code = c_error_code res, m_error = c_error res\<rparr>"

definition save_snapshot :: "time \<Rightarrow> int \<Rightarrow> proc list \<Rightarrow> db \<Rightarrow> db" where
  "save_snapshot now sid procs d =
     (if list_ex (\<lambda>p. ps_server_id p = sid) (d_snapshots d)
      then d\<lparr>d_snapshots := map (\<lambda>p. if ps_server_id p = sid then p\<lparr>ps_collected_at := now, ps_processes := procs\<rparr> else p)
               (d_snapshots d)\<rparr>
      else d\<lparr>d_snapshots := d_snapshots d @ [\<lparr>ps_server_id = sid, ps_collected_at = now, ps_processes = procs\<rparr>]\<rparr>)"

definition store_sample :: "time \<Rightarrow> int \<Rightarrow> int \<Rightarrow> sample \<Rightarrow> db \<Rightarrow> db" where
  "store_sample now interval sid res d =
     save_snapshot now sid (c_processes res)
       (d\<lparr>d_metrics := d_metrics d @ [metric_of (next_metric_id d) now interval sid res]\<rparr>)"

text \<open>The part of \<open>_poll_one\<close> after the collection, on the database and the idle store.\<close>

definition poll_one ::
    "sender \<Rightarrow> (string \<Rightarrow> string) \<Rightarrow> time \<Rightarrow> int \<Rightarrow> int \<Rightarrow> sample \<Rightarrow> db \<times> idle_store \<Rightarrow> db \<times> idle_store" where
  "poll_one send digest now interval sid res st =
     (case st of (d, idle) \<Rightarrow>
        let d1 = (if c_ok res \<and> c_kernel_log res \<noteq> []
                  then store_kernel_events digest now sid (c_boot_id res) (parse_kernel_log (c_kernel_log res)) d else d);
            d2 = store_sample now interval sid res d1;
            d3 = (if c_ok res then update_gpu_baseline now sid (c_gpus res) d2 else d2);
            idle' = (if c_ok res then update_gpu_idle_state d3 sid now (c_gpus res) idle else idle)
        in (run_detectors send now sid d3, idle'))"

section \<open>The slow and inventory tiers\<close>

definition slow_row :: "time \<Rightarrow> int \<Rightarrow> slow_result \<Rightarrow> slow_health" where
  "slow_row now sid r =
     \<lparr>sh_server_id = sid, sh_collected_at = now, sh_nvme_smart = map nvme_entry_of (sr_nvme r),
      sh_md_arrays = map md_array.truncate (md_arrays (sr_mdraid r)), sh_nfs_mounts = sr_nfs r,
      sh_systemd_failed = map unit_name (sr_failed r), sh_services = sr_services r, sh_mig = sr_mig r,
      sh_nvlink = sr_nvlink r, sh_ipmi = sr_ipmi r, sh_duration = sr_duration r\<rparr>"

definition slow_one :: "time \<Rightarrow> int \<Rightarrow> (string \<times> string) + slow_result \<Rightarrow> db \<Rightarrow> db" where
  "slow_one now sid r d =
     (case r of Inl fault \<Rightarrow> d | Inr ok \<Rightarrow> d\<lparr>d_slow := d_slow d @ [slow_row now sid ok]\<rparr>)"

definition day_start :: "time \<Rightarrow> time" where
  "day_start t = t - t mod days 1"

definition inventory_one :: "time \<Rightarrow> int \<Rightarrow> (string \<times> string) + inventory \<Rightarrow> db \<Rightarrow> db" where
  "inventory_one now sid r d =
     (case r of
        Inl fault \<Rightarrow> d
      | Inr snap \<Rightarrow>
          d\<lparr>d_inventory :=
             filter (\<lambda>h. \<not> (hi_server_id h = sid \<and> day_start now \<le> hi_collected_at h)) (d_inventory d) @
             [\<lparr>hi_server_id = sid, hi_collected_at = now, hi_inventory = snap\<rparr>]\<rparr>)"

section \<open>Retention\<close>

record server_stub =
  st_id :: int
  st_name :: string
  st_server_type :: string
  st_tags :: "string list"

record archive =
  ar_metrics :: "metric list"
  ar_servers :: "server_stub list"

definition expired :: "time \<Rightarrow> int \<Rightarrow> metric \<Rightarrow> bool" where
  "expired cutoff max_id m \<longleftrightarrow> m_collected_at m < cutoff \<and> m_id m \<le> max_id"

definition max_expired_id :: "time \<Rightarrow> db \<Rightarrow> int option" where
  "max_expired_id cutoff d =
     (case map m_id (filter (\<lambda>m. m_collected_at m < cutoff) (d_metrics d)) of
        [] \<Rightarrow> None
      | i # is \<Rightarrow> Some (fold max is i))"

text \<open>\<open>None\<close>: nothing may be deleted.  \<open>Some (0, None)\<close>: there is nothing to archive.  The rows are
  counted in \<open>d\<close> and read in \<open>d_read\<close>; \<open>dir_set\<close> and \<open>can_write\<close> say whether the archive directory is
  set and whether the files could be written, encrypted and published.\<close>

definition archive_expired_metrics ::
    "bool \<Rightarrow> bool \<Rightarrow> time \<Rightarrow> db \<Rightarrow> db \<Rightarrow> (int \<times> archive option) option" where
  "archive_expired_metrics dir_set can_write cutoff d d_read =
     (case max_expired_id cutoff d of
        None \<Rightarrow> Some (0, None)
      | Some max_id \<Rightarrow>
          let n = length (filter (expired cutoff max_id) (d_metrics d));
              rows = order_by m_id (filter (expired cutoff max_id) (d_metrics d_read))
          in if \<not> dir_set then None
             else if length rows \<noteq> n then None
             else if \<not> can_write then None
             else Some (max_id, Some \<lparr>ar_metrics = map minimize_metric rows,
                    ar_servers = map (\<lambda>s. \<lparr>st_id = s_id s, st_name = s_name s, st_server_type = s_server_type s,
                        st_tags = s_tags s\<rparr>) (order_by s_id (d_servers d_read))\<rparr>))"

definition BATCH :: nat where "BATCH = 5000"

lemma delete_batch_less:
  assumes "take BATCH (map m_id (filter (expired cutoff max_id) ms)) = ids" and "ids \<noteq> []"
  shows "length (filter (\<lambda>m. m_id m \<notin> set ids) ms) < length ms"
proof -
  from assms obtain i where "i \<in> set ids" by (cases ids) auto
  then obtain m where "m \<in> set ms" "m_id m \<in> set ids"
    using in_set_takeD [of i BATCH "map m_id (filter (expired cutoff max_id) ms)"] assms(1) by auto
  then show ?thesis by (intro length_filter_less [of m]) auto
qed

text \<open>The batches: the rows of at most \<open>BATCH\<close> ids at a time, until none is left.\<close>

function delete_batches :: "time \<Rightarrow> int \<Rightarrow> metric list \<Rightarrow> metric list" where
  "delete_batches cutoff max_id ms =
     (let ids = take BATCH (map m_id (filter (expired cutoff max_id) ms))
      in if ids = [] then ms
         else delete_batches cutoff max_id (filter (\<lambda>m. m_id m \<notin> set ids) ms))"
  by pat_completeness auto

termination
  by (relation "measure (\<lambda>(c, i, ms). length ms)") (auto simp: Let_def intro: delete_batch_less)

declare delete_batches.simps [simp del]

definition retention_days :: "db \<Rightarrow> int" where
  "retention_days d =
     (case map_of (d_settings d) ''retention_days'' of
        None \<Rightarrow> 0
      | Some text \<Rightarrow> if text = [] then 0 else the_default 0 (py_int text))"

text \<open>The day of the last run, the database, and the archive written, if any.  \<open>d_read\<close> is the
  database the archive reads, \<open>d_del\<close> the one the deletion finds.\<close>

definition retention_cleanup ::
    "bool \<Rightarrow> bool \<Rightarrow> time \<Rightarrow> time option \<Rightarrow> db \<Rightarrow> db \<Rightarrow> db \<Rightarrow> time option \<times> db \<times> archive option" where
  "retention_cleanup dir_set can_write now last_day d d_read d_del =
     (if last_day = Some (day_start now) then (last_day, d, None)
      else (Some (day_start now),
        if retention_days d > 0
        then let cutoff = now - days (retention_days d)
          in case archive_expired_metrics dir_set can_write cutoff d d_read of
               None \<Rightarrow> (d_del, None)
             | Some (max_id, ar) \<Rightarrow>
                 if max_id = 0 then (d_del, ar)
                 else (d_del\<lparr>d_metrics := delete_batches cutoff max_id (d_metrics d_del)\<rparr>, ar)
        else (d, None)))"

section \<open>Maintenance windows\<close>

definition expiry_note :: "time \<Rightarrow> int \<Rightarrow> server_note" where
  "expiry_note now sid = \<lparr>n_server_id = sid, n_ts = now, n_username = ''system'', n_kind = ''note'',
     n_content = utf8 [231, 187, 180, 230, 138, 164, 231, 170, 151, 229, 143, 163, 229, 136, 176, 230, 156, 159, 239, 188, 140, 232, 135, 170, 229, 138, 168, 230, 129, 162, 229, 164, 141, 228, 184, 186] @ '' active''\<rparr>"

definition window_over :: "time \<Rightarrow> server \<Rightarrow> bool" where
  "window_over now s \<longleftrightarrow> s_status s = Some ''maintenance'' \<and>
     (case s_status_until s of Some t \<Rightarrow> t \<le> now | None \<Rightarrow> False)"

definition expire_maintenance :: "time \<Rightarrow> db \<Rightarrow> db" where
  "expire_maintenance now d =
     d\<lparr>d_servers := map (\<lambda>s. if window_over now s
           then s\<lparr>s_status := Some ''active'', s_status_reason := [], s_status_until := None, s_updated_at := now\<rparr> else s) (d_servers d),
       d_notes := d_notes d @ map (\<lambda>s. expiry_note now (s_id s)) (filter (window_over now) (d_servers d))\<rparr>"

section \<open>Kernel events are stored once\<close>

definition kernel_key :: "kernel_event_row \<Rightarrow> int \<times> string" where
  "kernel_key r = (k_server_id r, k_dedup_hash r)"

definition kernel_unique :: "db \<Rightarrow> bool" where
  "kernel_unique d \<longleftrightarrow> distinct (map kernel_key (d_kernel d))"

lemma insert_events:
  assumes "fold (insert_event now sid boot) pending (known, rows) = (known', rows')"
  shows "set known' = set known \<union> fst ` set pending \<and> (\<exists>new. rows' = rows @ new \<and>
     map kernel_key new = map (Pair sid) (map k_dedup_hash new) \<and> distinct (map k_dedup_hash new) \<and>
     set (map k_dedup_hash new) = fst ` set pending - set known)"
  using assms
proof (induction pending arbitrary: known rows)
  case (Cons p ps)
  obtain h e where p: "p = (h, e)" by (cases p)
  show ?case
  proof (cases "h \<in> set known")
    case True
    then show ?thesis using Cons.IH [of known rows] Cons.prems by (auto simp: p insert_event_def)
  next
    case False
    let ?row = "kernel_row now sid boot h e"
    have "insert_event now sid boot (h, e) (known, rows) = (h # known, rows @ [?row])"
      using False by (simp add: insert_event_def)
    with Cons.prems have "fold (insert_event now sid boot) ps (h # known, rows @ [?row]) = (known', rows')"
      by (simp add: p)
    from Cons.IH [OF this] obtain new where new: "set known' = insert h (set known) \<union> fst ` set ps"
      "rows' = (rows @ [?row]) @ new" "map kernel_key new = map (Pair sid) (map k_dedup_hash new)"
      "distinct (map k_dedup_hash new)" "set (map k_dedup_hash new) = fst ` set ps - insert h (set known)"
      by auto
    have keys: "kernel_key ?row = (sid, h)" "k_dedup_hash ?row = h" by (simp_all add: kernel_key_def kernel_row_def)
    have "rows' = rows @ (?row # new)" using new(2) by simp
    moreover have "map kernel_key (?row # new) = map (Pair sid) (map k_dedup_hash (?row # new))"
      using new(3) keys by simp
    moreover have "distinct (map k_dedup_hash (?row # new))" using new(4,5) keys by auto
    moreover have "set (map k_dedup_hash (?row # new)) = fst ` set (p # ps) - set known"
      using new(5) keys False by (auto simp: p)
    moreover have "set known' = set known \<union> fst ` set (p # ps)" using new(1) by (auto simp: p)
    ultimately show ?thesis by blast
  qed
qed simp

definition digests :: "(string \<Rightarrow> string) \<Rightarrow> string \<Rightarrow> kernel_event list \<Rightarrow> string set" where
  "digests digest boot events = (\<lambda>e. take 40 (digest (kernel_text boot e))) ` set events"

definition stored_digests :: "int \<Rightarrow> db \<Rightarrow> string set" where
  "stored_digests sid d = k_dedup_hash ` set (filter (\<lambda>r. k_server_id r = sid) (d_kernel d))"

lemma store_kernel_rows:
  obtains new where "store_kernel_events digest now sid boot events d = d\<lparr>d_kernel := d_kernel d @ new\<rparr>"
    "map kernel_key new = map (Pair sid) (map k_dedup_hash new)" "distinct (map k_dedup_hash new)"
    "set (map k_dedup_hash new) = digests digest boot events - stored_digests sid d"
proof (cases "events = []")
  case True
  then show ?thesis by (intro that [of "[]"]) (simp_all add: store_kernel_events_def digests_def)
next
  case False
  define pending where "pending = map (\<lambda>e. (take 40 (digest (kernel_text boot e)), e)) events"
  define known where "known = map k_dedup_hash (filter (\<lambda>r. k_server_id r = sid \<and> k_dedup_hash r \<in> set (map fst pending)) (d_kernel d))"
  obtain known' rows' where run: "fold (insert_event now sid boot) pending (known, []) = (known', rows')" by force
  have "fst ` set pending = digests digest boot events" by (force simp: pending_def digests_def)
  moreover have "set known = stored_digests sid d \<inter> fst ` set pending"
    by (auto simp: known_def stored_digests_def)
  then have "fst ` set pending - set known = fst ` set pending - stored_digests sid d" by blast
  moreover have "store_kernel_events digest now sid boot events d = d\<lparr>d_kernel := d_kernel d @ rows'\<rparr>"
    using False run unfolding store_kernel_events_def Let_def pending_def known_def by simp
  ultimately show ?thesis using insert_events [OF run] by (intro that [of rows']) auto
qed

text \<open>
  Storing kernel events deduplicates: no server has two rows with one digest, rows are only
  appended, afterwards every event's digest is stored, and storing the same events again, at any
  later time, changes nothing.
\<close>

theorem kernel_store_deduplicates:
  assumes "kernel_unique d"
  shows "kernel_unique (store_kernel_events digest now sid boot events d) \<and>
    take (length (d_kernel d)) (d_kernel (store_kernel_events digest now sid boot events d)) = d_kernel d \<and>
    digests digest boot events \<subseteq> stored_digests sid (store_kernel_events digest now sid boot events d) \<and>
    store_kernel_events digest later sid boot events (store_kernel_events digest now sid boot events d) =
      store_kernel_events digest now sid boot events d"
proof -
  obtain new where new: "store_kernel_events digest now sid boot events d = d\<lparr>d_kernel := d_kernel d @ new\<rparr>"
    "map kernel_key new = map (Pair sid) (map k_dedup_hash new)" "distinct (map k_dedup_hash new)"
    "set (map k_dedup_hash new) = digests digest boot events - stored_digests sid d"
    by (rule store_kernel_rows)
  let ?d = "d\<lparr>d_kernel := d_kernel d @ new\<rparr>"
  have own: "k_server_id r = sid" if "r \<in> set new" for r
    using that new(2) by (auto simp: kernel_key_def)
  have fresh: "kernel_key r \<notin> kernel_key ` set (d_kernel d)" if r: "r \<in> set new" for r
  proof
    assume "kernel_key r \<in> kernel_key ` set (d_kernel d)"
    then have "k_dedup_hash r \<in> stored_digests sid d" using own [OF r] by (auto simp: kernel_key_def stored_digests_def)
    with r new(4) show False by auto
  qed
  have "distinct (map kernel_key new)" using new(3) by (simp add: new(2) distinct_map inj_on_def)
  moreover have "kernel_key ` set (d_kernel d) \<inter> kernel_key ` set new = {}"
    unfolding disjoint_iff using fresh by (metis imageE)
  ultimately have uniq: "kernel_unique ?d" using assms by (simp add: kernel_unique_def)
  have stored: "stored_digests sid ?d = stored_digests sid d \<union> k_dedup_hash ` set new"
    using own by (auto simp: stored_digests_def)
  then have all: "digests digest boot events \<subseteq> stored_digests sid ?d" using new(4) by auto
  obtain more where more: "store_kernel_events digest later sid boot events ?d = ?d\<lparr>d_kernel := d_kernel ?d @ more\<rparr>"
    "set (map k_dedup_hash more) = digests digest boot events - stored_digests sid ?d"
    by (rule store_kernel_rows)
  have "more = []" using more(2) all by (cases more) auto
  with more(1) have "store_kernel_events digest later sid boot events ?d = ?d" by simp
  with uniq all show ?thesis unfolding new(1) by simp
qed

definition xid_event :: "string \<Rightarrow> kernel_event" where
  "xid_event u = \<lparr>ke_type = ''GPU_XID'', ke_severity = ''critical'', ke_message = ''NVRM: Xid 79'', ke_raw = ''NVRM: Xid 79'',
     ke_uuid = u, ke_xid = 79\<rparr>"

theorem kernel_store_deduplicates_witness:
  "store_kernel_events id 60 1 ''boot'' [xid_event [], xid_event []] (store_kernel_events id 0 1 ''boot'' [xid_event [], xid_event []] empty_db) =
     store_kernel_events id 0 1 ''boot'' [xid_event [], xid_event []] empty_db"
proof -
  have "kernel_unique empty_db" by (simp add: kernel_unique_def empty_db_def)
  from kernel_store_deduplicates [OF this] show ?thesis by blast
qed

section \<open>Retention loses nothing\<close>

lemma filter_ids: "ids \<subseteq> m_id ` set (filter (expired cutoff i) ms) \<Longrightarrow> distinct (map m_id ms) \<Longrightarrow>
   filter (\<lambda>m. \<not> expired cutoff i m) (filter (\<lambda>m. m_id m \<notin> ids) ms) = filter (\<lambda>m. \<not> expired cutoff i m) ms"
proof -
  assume ids: "ids \<subseteq> m_id ` set (filter (expired cutoff i) ms)" and dist: "distinct (map m_id ms)"
  have "m_id m \<notin> ids" if m: "m \<in> set ms" "\<not> expired cutoff i m" for m
  proof
    assume "m_id m \<in> ids"
    then obtain x where x: "x \<in> set ms" "expired cutoff i x" "m_id x = m_id m" using ids by auto
    then have "x = m" using dist m(1) by (auto simp: distinct_map inj_on_def)
    with x(2) m(2) show False by simp
  qed
  then show ?thesis by (auto intro!: filter_cong)
qed

lemma delete_batches_all:
  "distinct (map m_id ms) \<Longrightarrow> delete_batches cutoff i ms = filter (\<lambda>m. \<not> expired cutoff i m) ms"
proof (induction cutoff i ms rule: delete_batches.induct)
  case (1 cutoff i ms)
  define ids where "ids = take BATCH (map m_id (filter (expired cutoff i) ms))"
  show ?case
  proof (cases "ids = []")
    case True
    then have "filter (expired cutoff i) ms = []" by (cases "filter (expired cutoff i) ms") (auto simp: ids_def BATCH_def)
    then have "filter (\<lambda>m. \<not> expired cutoff i m) ms = ms" by (simp add: filter_empty_conv)
    then show ?thesis using True by (subst delete_batches.simps) (simp add: ids_def)
  next
    case False
    have "set ids \<subseteq> m_id ` set (filter (expired cutoff i) ms)" by (auto simp: ids_def dest!: in_set_takeD)
    note same = filter_ids [OF this "1.prems"]
    have "delete_batches cutoff i ms = delete_batches cutoff i (filter (\<lambda>m. m_id m \<notin> set ids) ms)"
      using False by (subst delete_batches.simps) (simp add: ids_def Let_def)
    also have "\<dots> = filter (\<lambda>m. \<not> expired cutoff i m) (filter (\<lambda>m. m_id m \<notin> set ids) ms)"
      using "1.IH" [OF ids_def] False "1.prems" by (simp add: distinct_map_filter)
    finally show ?thesis using same by simp
  qed
qed

text \<open>
  C1.  Retention never loses a sample: whenever a clean-up removes a row that the database holds at
  that moment, the archive written by that very run contains it (with its personal data removed),
  and the row is older than the retention period.  All it takes is that identifiers are unique and that rows
  inserted after the archive was read get new identifiers.
\<close>

theorem retention_loses_nothing:
  assumes "retention_cleanup dir_set can_write now last_day d d_read d_del = (day, d', ar)"
    and "distinct (map m_id (d_metrics d_del))"
    and "\<And>m x. m \<in> set (d_metrics d_del) \<Longrightarrow> x \<in> set (d_metrics d) \<Longrightarrow> m_id m \<le> m_id x \<Longrightarrow> m \<in> set (d_metrics d_read)"
    and "lost \<in> set (d_metrics d_del)" and "lost \<notin> set (d_metrics d')" and "d' \<noteq> d"
  shows "m_collected_at lost < now - days (retention_days d) \<and>
    (\<exists>a. ar = Some a \<and> minimize_metric lost \<in> set (ar_metrics a))"
proof -
  let ?cut = "now - days (retention_days d)"
  have run: "last_day \<noteq> Some (day_start now)" "retention_days d > 0"
    using assms(1,6) by (auto simp: retention_cleanup_def split: if_splits)
  obtain i where arch: "archive_expired_metrics dir_set can_write ?cut d d_read = Some (i, ar)" "i \<noteq> 0"
    and d': "d' = d_del\<lparr>d_metrics := delete_batches ?cut i (d_metrics d_del)\<rparr>"
    using assms(1,4,5) run by (auto simp: retention_cleanup_def Let_def split: option.splits prod.splits if_splits)
  have lost: "m_collected_at lost < ?cut" "m_id lost \<le> i"
    using assms(4,5) by (auto simp: d' delete_batches_all [OF assms(2)] expired_def)
  from arch obtain a where a: "ar = Some a" "max_expired_id ?cut d = Some i"
    "ar_metrics a = map minimize_metric (order_by m_id (filter (expired ?cut i) (d_metrics d_read)))"
    by (auto simp: archive_expired_metrics_def Let_def split: option.splits if_splits)
  have maxi: "fold max js j \<in> insert j (set js)" for js and j :: int
    by (induction js arbitrary: j) (auto simp: max_def split: if_splits)
  obtain x where "x \<in> set (d_metrics d)" "m_id x = i"
  proof -
    obtain j js where js: "map m_id (filter (\<lambda>m. m_collected_at m < ?cut) (d_metrics d)) = j # js" and i: "i = fold max js j"
      using a(2) by (auto simp: max_expired_id_def split: list.splits)
    have "i \<in> set (map m_id (filter (\<lambda>m. m_collected_at m < ?cut) (d_metrics d)))"
      unfolding js i using maxi [of js j] by simp
    then show thesis using that by auto
  qed
  then have "lost \<in> set (d_metrics d_read)" using assms(3,4) lost(2) by blast
  then have "minimize_metric lost \<in> set (ar_metrics a)"
    using lost by (simp add: a(3) order_by_def expired_def)
  then show ?thesis using lost(1) a(1) by blast
qed

definition two_samples :: db where
  "two_samples = empty_db\<lparr>d_metrics := [demo_metric 1 0 ''ok'' [], demo_metric 2 (days 10) ''ok'' []],
     d_settings := [(''retention_days'', ''5'')]\<rparr>"

theorem retention_loses_nothing_witness:
  "\<exists>a. snd (snd (retention_cleanup True True (days 10) None two_samples two_samples two_samples)) = Some a \<and>
     minimize_metric (demo_metric 1 0 ''ok'' []) \<in> set (ar_metrics a)"
proof -
  let ?old = "demo_metric 1 0 ''ok'' []" and ?new = "demo_metric 2 (days 10) ''ok'' []"
  obtain day d' ar where run: "retention_cleanup True True (days 10) None two_samples two_samples two_samples = (day, d', ar)"
    by (cases "retention_cleanup True True (days 10) None two_samples two_samples two_samples")
  have keep: "retention_days two_samples = 5" by code_simp
  have rows: "d_metrics two_samples = [?old, ?new]" by (simp add: two_samples_def)
  have demo: "m_id (demo_metric i t st gs) = i" "m_collected_at (demo_metric i t st gs) = t" for i t st gs
    by (simp_all add: demo_metric_def)
  have ids: "distinct (map m_id (d_metrics two_samples))" by (simp add: rows demo)
  have cut: "0 < days 10 - days 5" "\<not> days 10 < days 10 - days 5" by (simp_all add: days_def)
  have top: "max_expired_id (days 10 - days 5) two_samples = Some 1" using cut by (simp add: max_expired_id_def rows demo)
  obtain a where "archive_expired_metrics True True (days 10 - days 5) two_samples two_samples = Some (1, Some a)"
    using top by (simp add: archive_expired_metrics_def Let_def order_by_def)
  then have "d' = two_samples\<lparr>d_metrics := delete_batches (days 10 - days 5) 1 (d_metrics two_samples)\<rparr>"
    using run keep by (simp add: retention_cleanup_def Let_def)
  then have gone: "d_metrics d' = [?new]"
    using cut by (simp add: delete_batches_all [OF ids]) (simp add: rows demo expired_def)
  have "?old \<noteq> ?new" using demo(1) by (metis numeral_One numeral_eq_iff semiring_norm(85))
  then have lost: "?old \<in> set (d_metrics two_samples)" "?old \<notin> set (d_metrics d')"
    "d' \<noteq> two_samples" using gone by (auto simp: rows)
  show ?thesis using retention_loses_nothing [OF run ids _ lost] run by simp
qed

section \<open>Xid events never reach a card\<close>

text \<open>The kernel log names a card \<open>GPU-\<close> and a number, of which the parser keeps the number only.\<close>

definition plain_uuids :: "db \<Rightarrow> bool" where
  "plain_uuids d \<longleftrightarrow> list_all (\<lambda>r. list_all is_uuid_char (k_gpu_uuid r)) (d_kernel d)"

definition unblamed :: "tally \<Rightarrow> bool" where
  "unblamed t \<longleftrightarrow> (is_prefix ''GPU-'' (t_uuid t) \<longrightarrow> t_xids t = 0)"

lemma first_match_P: "(\<And>t r. f t = Some r \<Longrightarrow> P r) \<Longrightarrow> first_match f s = Some r \<Longrightarrow> P r"
  by (induction s) (auto split: option.splits)

lemma kernel_event_uuid: "kernel_event_of l = Some e \<Longrightarrow> list_all is_uuid_char (ke_uuid e)"
proof -
  assume e: "kernel_event_of l = Some e"
  have at: "uuid_at s = Some u \<Longrightarrow> list_all is_uuid_char u" for s u
    by (auto simp: uuid_at_def split: option.splits list.splits if_splits)
  have "first_match uuid_at s = Some u \<Longrightarrow> list_all is_uuid_char u" for s u
    by (rule first_match_P [where f = uuid_at, OF at])
  with e show ?thesis
    unfolding kernel_event_of_def Let_def the_default_def by (auto split: if_splits option.splits)
qed

lemma parsed_uuids: "e \<in> set (parse_kernel_log text) \<Longrightarrow> list_all is_uuid_char (ke_uuid e)"
  using one_oom_events(3) set_take_subset kernel_event_uuid
  unfolding parse_kernel_log_def by (metis (no_types, lifting) set_map_filter subsetD)

lemma inserted_uuids:
  "list_all (\<lambda>(h, e). list_all is_uuid_char (ke_uuid e)) pending \<Longrightarrow>
   list_all (\<lambda>r. list_all is_uuid_char (k_gpu_uuid r)) rows \<Longrightarrow>
   list_all (\<lambda>r. list_all is_uuid_char (k_gpu_uuid r)) (snd (fold (insert_event now sid boot) pending (known, rows)))"
proof (induction pending arbitrary: known rows)
  case (Cons p ps)
  then show ?case by (cases p) (simp add: insert_event_def kernel_row_def)
qed simp

lemma store_plain:
  assumes "plain_uuids d" shows "plain_uuids (store_kernel_events digest now sid boot (parse_kernel_log text) d)"
proof -
  have "list_all (\<lambda>(h, e). list_all is_uuid_char (ke_uuid e))
      (map (\<lambda>e. (take 40 (digest (kernel_text boot e)), e)) (parse_kernel_log text))"
    using parsed_uuids by (auto simp: list_all_iff)
  from inserted_uuids [OF this] assms show ?thesis
    unfolding store_kernel_events_def Let_def plain_uuids_def by simp
qed

definition keyed :: "(string, tally) dict \<Rightarrow> bool" where
  "keyed d \<longleftrightarrow> (\<forall>u t. (u, t) \<in> set d \<longrightarrow> t_uuid t = u \<and> unblamed t)"

lemma keyed_empty: "keyed []"
  by (simp add: keyed_def)

lemma keyedD: "keyed d \<Longrightarrow> map_of d u = Some t \<Longrightarrow> t_uuid t = u \<and> unblamed t"
  by (auto simp: keyed_def dest: map_of_SomeD)

lemma keyed_update: "keyed d \<Longrightarrow> t_uuid t = u \<Longrightarrow> unblamed t \<Longrightarrow> keyed (AList.update u t d)"
  using set_dict_update [of u t d] by (auto simp: keyed_def)

lemma keyed_setdefault: "keyed d \<Longrightarrow> keyed (setdefault u (new_tally u g) d)"
  by (auto simp: keyed_def setdefault_def new_tally_def unblamed_def split: option.splits)

lemma keyed_gpu: "keyed d \<Longrightarrow> keyed (tally_gpu g d)"
proof (cases "uuid g")
  case (Some u)
  assume d: "keyed d"
  let ?d1 = "setdefault u (new_tally u g) d"
  have d1: "keyed ?d1" using d by (rule keyed_setdefault)
  show ?thesis
  proof (cases "map_of ?d1 u")
    case t: (Some t)
    have "t_uuid (add_sample g t) = u" "unblamed (add_sample g t)"
      using keyedD [OF d1 t] by (simp_all add: add_sample_def unblamed_def)
    from keyed_update [OF d1 this] show ?thesis using d Some t by (simp add: tally_gpu_def Let_def)
  qed (use d Some in \<open>simp add: tally_gpu_def Let_def\<close>)
qed (simp add: tally_gpu_def)

lemma plain_no_card: "list_all is_uuid_char u \<Longrightarrow> \<not> is_prefix ''GPU-'' u"
  by (cases u) (auto simp: is_uuid_char_def is_digit_def code_def)

lemma keyed_bump: "keyed d \<Longrightarrow> list_all is_uuid_char (k_gpu_uuid k) \<Longrightarrow> keyed (bump_xid k d)"
proof (cases "map_of d (k_gpu_uuid k)")
  case (Some t)
  assume d: "keyed d" and k: "list_all is_uuid_char (k_gpu_uuid k)"
  let ?t = "t\<lparr>t_xids := t_xids t + 1\<rparr>"
  have "t_uuid ?t = k_gpu_uuid k" "unblamed ?t"
    using keyedD [OF d Some] plain_no_card [OF k] by (simp_all add: unblamed_def)
  from keyed_update [OF d this] Some show ?thesis by (simp add: bump_xid_def)
qed (simp add: bump_xid_def)

lemma unblamed_scores:
  assumes "plain_uuids d" shows "list_all (\<lambda>g. unblamed (g_tally g)) (gpu_risk_score d now sid)"
proof -
  let ?rows = "risk_rows d (now - hours 24) [sid]" and ?xids = "risk_xids d (now - hours 24) [sid]"
  have "keyed a \<Longrightarrow> keyed (fold tally_gpu gs a)" for gs a by (induction gs arbitrary: a) (simp_all add: keyed_gpu)
  then have "keyed a \<Longrightarrow> keyed (fold (\<lambda>r. fold tally_gpu (m_gpus r)) rs a)" for rs a
    by (induction rs arbitrary: a) simp_all
  from this [of "[]" ?rows] have samples: "keyed (fold (\<lambda>r. fold tally_gpu (m_gpus r)) ?rows [])"
    by (simp add: keyed_empty)
  have "\<forall>k \<in> set ?xids. list_all is_uuid_char (k_gpu_uuid k)"
    using assms by (auto simp: plain_uuids_def risk_xids_def list_all_iff)
  then have "keyed a \<Longrightarrow> set ks \<subseteq> set ?xids \<Longrightarrow> keyed (fold bump_xid ks a)" for ks a
    by (induction ks arbitrary: a) (simp_all add: keyed_bump)
  from this [OF samples, of ?xids] show ?thesis
    by (auto simp: gpu_risk_score_rank rank_gpus_def order_by_def list_all_iff keyed_def grade_def Let_def)
qed

text \<open>
  Xid events never reach the risk score of a card: the parser stores the identifier of a card
  without its \<open>GPU-\<close> prefix, so that however many Xid events are stored, a card whose UUID starts
  with \<open>GPU-\<close> (as all do) counts none.
\<close>

theorem xids_never_reach_cards:
  assumes "plain_uuids d"
  shows "plain_uuids (store_kernel_events digest now sid boot (parse_kernel_log text) d) \<and>
    list_all (\<lambda>g. if is_prefix ''GPU-'' (t_uuid (g_tally g)) then t_xids (g_tally g) = 0 else True)
      (gpu_risk_score (store_kernel_events digest now sid boot (parse_kernel_log text) d) later sid')"
proof -
  note plain = store_plain [OF assms, of digest now sid boot "text"]
  show ?thesis using plain unblamed_scores [OF plain, of later sid'] by (simp add: unblamed_def list_all_iff)
qed

definition xid_line :: string where
  "xid_line = ''NVRM: Xid 79, GPU-0a1b2c3d-0000-1111-2222-333344445555 has fallen''"

definition demo_card :: string where "demo_card = ''GPU-0a1b2c3d-0000-1111-2222-333344445555''"

definition xid_host :: db where
  "xid_host = empty_db\<lparr>d_metrics := [demo_metric 1 0 ''ok'' [demo_gpu demo_card]]\<rparr>"

theorem xids_never_reach_cards_witness:
  "map (\<lambda>e. (ke_xid e, ke_uuid e)) (parse_kernel_log xid_line) = [(79, ''0a1b2c3d-0000-1111-2222-333344445555'')] \<and>
   list_all (\<lambda>g. if is_prefix ''GPU-'' (t_uuid (g_tally g)) then t_xids (g_tally g) = 0 else True)
     (gpu_risk_score (store_kernel_events id 0 1 ''boot'' (parse_kernel_log xid_line) xid_host) 0 1)"
proof
  show "map (\<lambda>e. (ke_xid e, ke_uuid e)) (parse_kernel_log xid_line) = [(79, ''0a1b2c3d-0000-1111-2222-333344445555'')]"
    by code_simp
  have "plain_uuids xid_host" by (simp add: plain_uuids_def xid_host_def empty_db_def)
  from xids_never_reach_cards [OF this] 
  show "list_all (\<lambda>g. if is_prefix ''GPU-'' (t_uuid (g_tally g)) then t_xids (g_tally g) = 0 else True)
     (gpu_risk_score (store_kernel_events id 0 1 ''boot'' (parse_kernel_log xid_line) xid_host) 0 1)" by blast
qed

section \<open>Samples, inventories, windows\<close>

lemma next_metric_id_fresh: "m \<in> set (d_metrics d) \<Longrightarrow> m_id m < next_metric_id d"
proof -
  have "m \<in> set ms \<Longrightarrow> m_id m \<le> foldr (\<lambda>m i. max (m_id m) i) ms 0" for ms by (induction ms) auto
  then show "m \<in> set (d_metrics d) \<Longrightarrow> m_id m < next_metric_id d" by (fastforce simp: next_metric_id_def)
qed

lemma run_detectors_metrics: "d_metrics (run_detectors send now sid d) = d_metrics d"
proof -
  have "d_metrics (detector_passes send now s m d1) = d_metrics d1" for s m d1
    using confined_passes by (simp add: confined_def)
  then show ?thesis by (auto simp: run_detectors_def ttl_frame split: option.splits)
qed

lemma update_gpu_baseline_metrics: "d_metrics (update_gpu_baseline now sid gpus d) = d_metrics d"
proof -
  have "d_metrics (register_gpu now sid g d) = d_metrics d" for g d
    by (simp add: register_gpu_def Let_def update_baseline_def split: option.splits)
  then show ?thesis unfolding update_gpu_baseline_def by (induction gpus arbitrary: d) simp_all
qed

text \<open>Every poll appends one row, marked by its outcome, with a new identifier, and rewrites no history.\<close>

lemma poll_appends_sample:
  "\<exists>row. d_metrics (fst (poll_one send digest now interval sid res (d, idle))) = d_metrics d @ [row] \<and>
     m_server_id row = sid \<and> m_status row = (if c_ok res then ''ok'' else ''error'') \<and> m_processes row = [] \<and>
     m_id row \<notin> m_id ` set (d_metrics d)"
proof -
  define d1 where "d1 = (if c_ok res \<and> c_kernel_log res \<noteq> []
     then store_kernel_events digest now sid (c_boot_id res) (parse_kernel_log (c_kernel_log res)) d else d)"
  have d1: "d_metrics d1 = d_metrics d" by (simp add: d1_def store_kernel_events_def Let_def)
  let ?row = "metric_of (next_metric_id d1) now interval sid res"
  have "d_metrics (store_sample now interval sid res d1) = d_metrics d1 @ [?row]"
    by (simp add: store_sample_def save_snapshot_def)
  then have "d_metrics (fst (poll_one send digest now interval sid res (d, idle))) = d_metrics d @ [?row]"
    unfolding poll_one_def Let_def prod.case d1_def [symmetric] fst_conv run_detectors_metrics
    by (simp add: update_gpu_baseline_metrics d1)
  moreover have "m_id ?row \<notin> m_id ` set (d_metrics d)"
    using next_metric_id_fresh [of _ d1] by (fastforce simp: metric_of_def d1)
  ultimately show ?thesis by (intro exI [of _ ?row]) (simp add: metric_of_def)
qed

lemma inventory_once_a_day:
  "filter (\<lambda>h. hi_server_id h = sid \<and> day_start now \<le> hi_collected_at h) (d_inventory (inventory_one now sid (Inr snap) d)) =
     [\<lparr>hi_server_id = sid, hi_collected_at = now, hi_inventory = snap\<rparr>]"
proof -
  have "day_start now \<le> now" by (simp add: day_start_def days_def)
  then show ?thesis by (simp add: inventory_one_def filter_empty_conv)
qed

definition reopened :: "time \<Rightarrow> server \<Rightarrow> server" where
  "reopened now s = (if window_over now s
     then s\<lparr>s_status := Some ''active'', s_status_reason := [], s_status_until := None, s_updated_at := now\<rparr> else s)"

lemma reopened_closed: "\<not> window_over now (reopened now s)"
  by (simp add: reopened_def window_over_def)

lemma reopened_again: "reopened now (reopened now s) = reopened now s"
  using reopened_closed [of now s] by (subst reopened_def) simp

lemma windows_expire:
  "list_all (\<lambda>s. \<not> window_over now s) (d_servers (expire_maintenance now d))"
  "expire_maintenance now (expire_maintenance now d) = expire_maintenance now d"
proof -
  have eq: "expire_maintenance now d = d\<lparr>d_servers := map (reopened now) (d_servers d),
      d_notes := d_notes d @ map (\<lambda>s. expiry_note now (s_id s)) (filter (window_over now) (d_servers d))\<rparr>" for d
    unfolding expire_maintenance_def reopened_def by (rule refl)
  show closed: "list_all (\<lambda>s. \<not> window_over now s) (d_servers (expire_maintenance now d))"
    by (simp add: eq list_all_iff reopened_closed)
  then have "filter (window_over now) (d_servers (expire_maintenance now d)) = []"
    by (simp add: filter_empty_conv list_all_iff)
  moreover have "map (reopened now) (d_servers (expire_maintenance now d)) = d_servers (expire_maintenance now d)"
    by (simp add: eq reopened_again)
  ultimately show "expire_maintenance now (expire_maintenance now d) = expire_maintenance now d"
    by (simp add: eq [of "expire_maintenance now d"])
qed

end
