(* ===== verification/Ipmi.thy ===== *)
theory Ipmi
  imports AlertLog HostParse
begin

text \<open>
  The out-of-band tier: \<open>backend/app/ipmi_collector.py\<close>, and \<open>_ipmi_cycle\<close> and \<open>_store_ipmi\<close> of
  \<open>backend/app/scheduler.py\<close>.  Running \<open>ipmitool\<close> with a list of arguments is the parameter
  \<open>run\<close>; an exception out of it is a timeout or another error.  The thread pool of a cycle is a
  fold over the targets.
\<close>

section \<open>Parsers\<close>

datatype run_result =
    Exit int string string
  | TimeoutExpired
  | RunError

definition parse_kv_line :: "string \<Rightarrow> (string, string) dict \<Rightarrow> (string, string) dict" where
  "parse_kv_line line out =
     (case partition_on (CHR '':'') line of
        (k, found, v) \<Rightarrow> if found \<and> strip k \<noteq> [] then AList.update (strip k) (strip v) out else out)"

definition parse_kv :: "string \<Rightarrow> (string, string) dict" where
  "parse_kv text = fold parse_kv_line (splitlines text) []"

definition parse_sdr_line :: "string \<Rightarrow> bmc_sensor option" where
  "parse_sdr_line line =
     (let parts = map strip (split_on (CHR ''|'') line)
      in if length parts \<ge> 4 \<and> parts ! 0 \<noteq> []
         then Some \<lparr>bs_name = parts ! 0, bs_id = parts ! 1, bs_status = parts ! 2, bs_entity = parts ! 3,
                bs_reading = (if length parts > 4 then parts ! 4 else [])\<rparr>
         else None)"

definition parse_sdr :: "string \<Rightarrow> bmc_sensor list" where
  "parse_sdr text = List.map_filter parse_sdr_line (splitlines text)"

text \<open>\<open>s.split(sep, n)\<close>.\<close>

definition split_on_max :: "nat \<Rightarrow> char \<Rightarrow> string \<Rightarrow> string list" where
  "split_on_max n sep s =
     (let ps = split_on sep s in if length ps \<le> n then ps else take n ps @ [join [sep] (drop n ps)])"

definition parse_sel_line :: "string \<Rightarrow> sel_entry option" where
  "parse_sel_line line =
     (if strip line = [] then None
      else let parts = map strip (split_on_max 3 (CHR ''|'') line)
        in if length parts \<ge> 4
           then Some \<lparr>se_record = Some (parts ! 0), se_date = parts ! 1, se_time = parts ! 2, se_event = parts ! 3\<rparr>
           else Some \<lparr>se_record = None, se_date = [], se_time = [], se_event = strip line\<rparr>)"

definition parse_sel :: "string \<Rightarrow> sel_entry list" where
  "parse_sel text = List.map_filter parse_sel_line (splitlines text)"

text \<open>\<open>cur\<close> is the last device of the list.\<close>

definition parse_fru_line :: "string \<Rightarrow> (string, string) dict list \<Rightarrow> (string, string) dict list" where
  "parse_fru_line line devices =
     (case partition_on (CHR '':'') line of
        (k, found, v) \<Rightarrow>
          if \<not> found then devices
          else if contains ''FRU Device Description'' (strip k) then devices @ [[(''description'', strip v)]]
          else if devices = [] then devices
          else butlast devices @ [AList.update (strip k) (strip v) (last devices)])"

definition parse_fru :: "string \<Rightarrow> (string, string) dict list" where
  "parse_fru text = fold parse_fru_line (splitlines text) []"

section \<open>Collection\<close>

definition no_bmc_data :: "string \<Rightarrow> bmc_data" where
  "no_bmc_data err = \<lparr>bm_ok = False, bm_error = err, bm_mc_info = [], bm_chassis = [], bm_power = [],
     bm_sensors = [], bm_sel = [], bm_sel_info = [], bm_fru = [], bm_lan = []\<rparr>"

definition NO_TOOL :: string where "NO_TOOL = utf8 [231, 155, 145, 230, 142, 167, 228, 184, 187, 230, 156, 186, 230, 156, 170, 229, 174, 137, 232, 163, 133] @ '' ipmitool''"
definition NO_BMC :: string where "NO_BMC = ''BMC '' @ utf8 [232, 191, 158, 230, 142, 165, 229, 164, 177, 232, 180, 165]"

text \<open>A section falls back to its empty value when the command fails, times out or raises.\<close>

definition fetch :: "(string list \<Rightarrow> run_result) \<Rightarrow> (string \<Rightarrow> 'a list) \<Rightarrow> string list \<Rightarrow> 'a list" where
  "fetch run parser args = (case run args of Exit rc out err \<Rightarrow> if rc = 0 then parser out else [] | _ \<Rightarrow> [])"

text \<open>\<open>None\<close>: the first command raised, and the exception leaves the collector.\<close>

definition collect_ipmi :: "bool \<Rightarrow> (string list \<Rightarrow> run_result) \<Rightarrow> bmc_data option" where
  "collect_ipmi available run =
     (if \<not> available then Some (no_bmc_data NO_TOOL)
      else case run [''mc'', ''info''] of
          Exit rc out err \<Rightarrow>
            if rc \<noteq> 0
            then let msg = splitlines (strip (if err \<noteq> [] then err else if out \<noteq> [] then out else NO_BMC))
              in Some (no_bmc_data (take 300 (if msg \<noteq> [] then last msg else NO_BMC)))
            else Some \<lparr>bm_ok = True, bm_error = [], bm_mc_info = parse_kv out,
                   bm_chassis = fetch run parse_kv [''chassis'', ''status''],
                   bm_power = fetch run parse_kv [''dcmi'', ''power'', ''reading''],
                   bm_sensors = fetch run parse_sdr [''sdr'', ''elist'', ''full''],
                   bm_sel = fetch run parse_sel [''sel'', ''list'', ''last'', ''100''],
                   bm_sel_info = fetch run parse_kv [''sel'', ''info''],
                   bm_fru = fetch run parse_fru [''fru'', ''list''],
                   bm_lan = fetch run parse_kv [''lan'', ''print'']\<rparr>
        | _ \<Rightarrow> None)"

section \<open>Summary\<close>

record bmc_summary =
  sm_power_w :: int
  sm_power_on :: bool
  sm_psu_bad :: "string list"
  sm_fan_bad :: "string list"
  sm_sel_critical :: "sel_entry list"

definition power_watts :: "(string, string) dict \<Rightarrow> int" where
  "power_watts readings =
     (case find (\<lambda>(k, v). contains ''instantaneous'' (lower k) \<and> contains ''power'' (lower k)) readings of
        Some (k, v) \<Rightarrow> the_default 0 (py_int (filter is_digit (takeWhile (\<lambda>c. c \<noteq> CHR ''W'') v)))
      | None \<Rightarrow> 0)"

definition power_is_on :: "(string, string) dict \<Rightarrow> bool" where
  "power_is_on status =
     fold (\<lambda>(k, v) on. if contains ''system power'' (lower k) then lower (strip v) = ''on'' else on) status False"

definition sensor_bad :: "bmc_sensor \<Rightarrow> bool" where
  "sensor_bad s \<longleftrightarrow> bs_status s \<noteq> ''ok'' \<and> bs_status s \<noteq> []"

definition CRITICAL_WORDS :: "string list" where
  "CRITICAL_WORDS = [''uncorrectable'', ''critical'', ''failure'', ''failed'', ''fatal'', ''non-recoverable'', ''ierr'',
     ''machine check'']"

definition summarize :: "bmc_data \<Rightarrow> bmc_summary" where
  "summarize r =
     \<lparr>sm_power_w = power_watts (bm_power r), sm_power_on = power_is_on (bm_chassis r),
      sm_psu_bad = map bs_name (filter (\<lambda>s. sensor_bad s \<and>
         list_ex (\<lambda>t. contains t (lower (bs_name s))) [''ps'', ''psu'', ''power supply'']) (bm_sensors r)),
      sm_fan_bad = map bs_name (filter (\<lambda>s. sensor_bad s \<and> contains ''fan'' (lower (bs_name s))) (bm_sensors r)),
      sm_sel_critical = filter (\<lambda>e. list_ex (\<lambda>w. contains w (lower (se_event e))) CRITICAL_WORDS) (bm_sel r)\<rparr>"

section \<open>Storing and alerting\<close>

definition psu_message :: "string \<Rightarrow> string" where
  "psu_message psu = utf8 [231, 148, 181, 230, 186, 144, 228, 188, 160, 230, 132, 159, 229, 153, 168, 229, 188, 130, 229, 184, 184, 239, 188, 154] @ psu"

definition sel_key :: "sel_entry \<Rightarrow> string" where
  "sel_key e = str0 (se_record e) @ ''-'' @ take 40 (se_event e)"

definition judge_psu :: "sender \<Rightarrow> time \<Rightarrow> int \<Rightarrow> string \<Rightarrow> string \<Rightarrow> db \<Rightarrow> db" where
  "judge_psu send now sid sname psu = fire send now ''PSU_FAULT'' sid sname (psu_message psu) 0 0 psu"

definition judge_sel :: "sender \<Rightarrow> time \<Rightarrow> int \<Rightarrow> string \<Rightarrow> sel_entry \<Rightarrow> db \<Rightarrow> db" where
  "judge_sel send now sid sname e = fire send now ''SEL_CRITICAL'' sid sname (take 200 (se_event e)) 0 0 (sel_key e)"

definition snapshot_of :: "time \<Rightarrow> int \<Rightarrow> bmc_data \<Rightarrow> rat \<Rightarrow> ipmi_snapshot" where
  "snapshot_of now sid res elapsed = \<lparr>is_server_id = sid, is_collected_at = now, is_data = res,
     is_power_w = of_int (sm_power_w (summarize res)), is_duration = elapsed\<rparr>"

definition judge_power :: "sender \<Rightarrow> time \<Rightarrow> int \<Rightarrow> string \<Rightarrow> bmc_summary \<Rightarrow> db \<Rightarrow> db" where
  "judge_power send now sid sname s =
     (if \<not> sm_power_on s
      then fire send now ''CHASSIS_POWER_OFF'' sid sname (''BMC '' @ utf8 [230, 138, 165, 229, 145, 138, 230, 156, 186, 231, 174, 177, 231, 148, 181, 230, 186, 144, 229, 164, 132, 228, 186, 142, 229, 133, 179, 233, 151, 173, 231, 138, 182, 230, 128, 129]) 0 0 []
      else recover send now ''CHASSIS_POWER_OFF'' sid [])"

definition last_three :: "'a list \<Rightarrow> 'a list" where
  "last_three xs = drop (length xs - 3) xs"

definition store_ipmi :: "sender \<Rightarrow> time \<Rightarrow> int \<Rightarrow> string \<Rightarrow> bmc_data \<Rightarrow> rat \<Rightarrow> db \<Rightarrow> db" where
  "store_ipmi send now sid sname res elapsed d =
     (let s = summarize res;
          d1 = d\<lparr>d_ipmi := d_ipmi d @ [snapshot_of now sid res elapsed]\<rparr>
      in if \<not> bm_ok res
         then fire send now ''BMC_UNREACHABLE'' sid sname (''BMC '' @ utf8 [232, 191, 158, 230, 142, 165, 229, 164, 177, 232, 180, 165, 239, 188, 154] @ take 150 (bm_error res)) 0 0 [] d1
         else let d2 = recover send now ''BMC_UNREACHABLE'' sid [] d1;
                  d3 = judge_power send now sid sname s d2;
                  d4 = fold (judge_psu send now sid sname) (sm_psu_bad s) d3
           in fold (judge_sel send now sid sname) (last_three (sm_sel_critical s)) d4)"

text \<open>The targets of a cycle: enabled servers with a BMC address, with their decrypted password;
  one that cannot be decrypted raises before any target is polled.\<close>

definition ipmi_targets :: "(string \<Rightarrow> string option) \<Rightarrow> db \<Rightarrow> (server \<times> string) list option" where
  "ipmi_targets decrypt d =
     all_or_raise (\<lambda>s. map_option (Pair s) (decrypt (s_bmc_password s)))
       (filter (\<lambda>s. s_enabled s \<and> s_bmc_host s \<noteq> []) (d_servers d))"

definition poll_bmc ::
    "sender \<Rightarrow> time \<Rightarrow> (string \<Rightarrow> string \<Rightarrow> string \<Rightarrow> string list \<Rightarrow> run_result) \<Rightarrow> (string \<Rightarrow> string) \<Rightarrow> rat \<Rightarrow>
     server \<times> string \<Rightarrow> db \<Rightarrow> db" where
  "poll_bmc send now run exn_text elapsed tgt =
     (case tgt of (s, pwd) \<Rightarrow>
        case collect_ipmi True (run (s_bmc_host s) (s_bmc_user s) pwd) of
          Some res \<Rightarrow> store_ipmi send now (s_id s) (s_name s) res elapsed
        | None \<Rightarrow> store_ipmi send now (s_id s) (s_name s) (no_bmc_data (take 300 (exn_text (s_bmc_host s)))) 0)"

definition ipmi_cycle ::
    "sender \<Rightarrow> time \<Rightarrow> bool \<Rightarrow> (string \<Rightarrow> string option) \<Rightarrow>
     (string \<Rightarrow> string \<Rightarrow> string \<Rightarrow> string list \<Rightarrow> run_result) \<Rightarrow> (string \<Rightarrow> string) \<Rightarrow> rat \<Rightarrow> db \<Rightarrow> db" where
  "ipmi_cycle send now available decrypt run exn_text elapsed d =
     (if \<not> available then d
      else case ipmi_targets decrypt d of
          None \<Rightarrow> d
        | Some targets \<Rightarrow> fold (poll_bmc send now run exn_text elapsed) targets d)"

section \<open>Alerts follow the readings\<close>

text \<open>The frame of the two loops of point alerts: other detectors and the identities are untouched,
  and an open event stays open.\<close>

lemma psus_frame:
  "det \<noteq> ''PSU_FAULT'' \<Longrightarrow> is_open (fold (judge_psu send now sid sname) ps d) det sid' key = is_open d det sid' key"
  by (induction ps arbitrary: d) (simp_all add: judge_psu_def fire_frame)

lemma sels_frame:
  "det \<noteq> ''SEL_CRITICAL'' \<Longrightarrow> is_open (fold (judge_sel send now sid sname) es d) det sid' key = is_open d det sid' key"
  by (induction es arbitrary: d) (simp_all add: judge_sel_def fire_frame)

lemma fire_keeps_open: "is_open d det sid key \<Longrightarrow> is_open (fire send now det' sid' sname msg v t key' d) det sid key"
proof (cases "is_open d det' sid' key'")
  case False
  then have none: "open_event d det' sid' key' = None" by (simp add: is_open_def)
  assume "is_open d det sid key"
  then show ?thesis by (simp add: is_open_count fire_count [OF none])
qed (simp add: fire_open_same)

lemma psus_keep_open: "is_open d det sid' key \<Longrightarrow> is_open (fold (judge_psu send now sid sname) ps d) det sid' key"
  by (induction ps arbitrary: d) (simp_all add: judge_psu_def fire_keeps_open)

lemma snapshot_log [simp]:
  "is_open (d\<lparr>d_ipmi := xs\<rparr>) det sid key = is_open d det sid key"
  "single_event (d\<lparr>d_ipmi := xs\<rparr>) det sid key = single_event d det sid key"
  "events_ok (d\<lparr>d_ipmi := xs\<rparr>) = events_ok d"
  by (simp_all add: is_open_def open_event_def single_event_def events_ok_def)

lemma recover_single_any:
  assumes "single_event d det' sid' key'" shows "single_event (recover send now det sid key d) det' sid' key'"
proof (cases "open_event d det sid key")
  case (Some ev)
  have sublen: "length (filter (\<lambda>x. P x \<and> Q x) xs) \<le> length (filter Q xs)" for P Q and xs :: "alert_event list"
    by (induction xs) auto
  have "length (filter (\<lambda>e. e_id e \<noteq> e_id ev \<and> event_matches det' sid' key' e) (d_events d))
      \<le> length (filter (event_matches det' sid' key') (d_events d))"
    by (rule sublen)
  with assms show ?thesis by (simp add: single_event_def recover_count [OF Some])
qed (use assms in \<open>simp add: recover_def\<close>)

lemma power_verdict:
  assumes "events_ok d" and "single_event d ''CHASSIS_POWER_OFF'' sid []"
  shows "is_open (judge_power send now sid sname s d) ''CHASSIS_POWER_OFF'' sid [] \<longleftrightarrow> \<not> sm_power_on s"
  using assms by (simp add: judge_power_def fire_is_open recover_closes)

lemma power_frame:
  "events_ok d \<Longrightarrow> det \<noteq> ''CHASSIS_POWER_OFF'' \<Longrightarrow>
   is_open (judge_power send now sid sname s d) det sid' key = is_open d det sid' key"
  by (simp add: judge_power_def fire_frame recover_frame)

text \<open>
  After an out-of-band poll, the unreachable alert is open exactly if the controller did not
  answer; and when it did answer, the power-off alert is open exactly if the chassis reports no power.
\<close>

theorem bmc_alerts_follow_readings:
  assumes "events_ok d" and "single_event d ''BMC_UNREACHABLE'' sid []" and "single_event d ''CHASSIS_POWER_OFF'' sid []"
  shows "(is_open (store_ipmi send now sid sname res elapsed d) ''BMC_UNREACHABLE'' sid [] \<longleftrightarrow> \<not> bm_ok res) \<and>
     (is_open (store_ipmi send now sid sname res elapsed d) ''CHASSIS_POWER_OFF'' sid [] \<longleftrightarrow>
      (if bm_ok res then \<not> power_is_on (bm_chassis res) else is_open d ''CHASSIS_POWER_OFF'' sid []))"
proof (cases "bm_ok res")
  case False
  then show ?thesis by (simp add: store_ipmi_def Let_def fire_is_open fire_frame)
next
  case True
  define s where "s = summarize res"
  define d2 where "d2 = recover send now ''BMC_UNREACHABLE'' sid []
    (d\<lparr>d_ipmi := d_ipmi d @ [snapshot_of now sid res elapsed]\<rparr>)"
  have stored: "store_ipmi send now sid sname res elapsed d =
      fold (judge_sel send now sid sname) (last_three (sm_sel_critical s))
        (fold (judge_psu send now sid sname) (sm_psu_bad s) (judge_power send now sid sname s d2))"
    using True by (simp add: store_ipmi_def Let_def s_def d2_def)
  have ok2: "events_ok d2" unfolding d2_def by (rule recover_events_ok) (simp add: assms(1))
  have closed: "\<not> is_open d2 ''BMC_UNREACHABLE'' sid []" unfolding d2_def by (rule recover_closes) (simp add: assms(2))
  have single2: "single_event d2 ''CHASSIS_POWER_OFF'' sid []"
    unfolding d2_def by (rule recover_single_any) (simp add: assms(3))
  have on: "sm_power_on s = power_is_on (bm_chassis res)" by (simp add: s_def summarize_def)
  show ?thesis
    using closed power_verdict [OF ok2 single2, of send now sname s] True
    by (simp add: stored sels_frame psus_frame power_frame [OF ok2] on)
qed

definition bmc_answer :: "(string, string) dict \<Rightarrow> bmc_sensor list \<Rightarrow> bmc_data" where
  "bmc_answer status sens = (no_bmc_data [])\<lparr>bm_ok := True, bm_chassis := status, bm_sensors := sens\<rparr>"

theorem bmc_alerts_follow_readings_witness:
  "is_open (store_ipmi (\<lambda>_. Some True) 0 1 ''gpu01'' (bmc_answer [(''System Power'', ''off'')] []) 2 empty_db)
     ''CHASSIS_POWER_OFF'' 1 []"
proof -
  have "events_ok empty_db" "single_event empty_db ''BMC_UNREACHABLE'' 1 []" "single_event empty_db ''CHASSIS_POWER_OFF'' 1 []"
    by (simp_all add: events_ok_def single_event_def empty_db_def)
  note follow = bmc_alerts_follow_readings [OF this]
  have "\<not> power_is_on (bm_chassis (bmc_answer [(''System Power'', ''off'')] []))" by code_simp
  moreover have "bm_ok (bmc_answer [(''System Power'', ''off'')] [])" by (simp add: bmc_answer_def)
  ultimately show ?thesis using follow by simp
qed

text \<open>
  No poll ever closes the alert of a power supply: once open it stays open whatever later
  polls read, also when the supply is fine again, and a second failure raises nothing new.
\<close>

theorem psu_alert_never_recovers:
  assumes "events_ok d" and "is_open d ''PSU_FAULT'' sid psu"
  shows "is_open (store_ipmi send now sid' sname res elapsed d) ''PSU_FAULT'' sid psu"
proof -
  let ?d1 = "d\<lparr>d_ipmi := d_ipmi d @ [snapshot_of now sid' res elapsed]\<rparr>"
  let ?d2 = "recover send now ''BMC_UNREACHABLE'' sid' [] ?d1"
  have ok2: "events_ok ?d2" by (rule recover_events_ok) (simp add: assms(1))
  have open2: "is_open ?d2 ''PSU_FAULT'' sid psu" using assms by (simp add: recover_frame)
  have "is_open (judge_power send now sid' sname (summarize res) ?d2) ''PSU_FAULT'' sid psu"
    using open2 by (simp add: power_frame [OF ok2])
  then show ?thesis using assms
    by (simp add: store_ipmi_def Let_def fire_keeps_open sels_frame psus_keep_open)
qed

theorem psu_alert_never_recovers_witness:
  "is_open (store_ipmi (\<lambda>_. Some True) 300 1 ''gpu01'' (bmc_answer [(''System Power'', ''on'')] []) 2
     (fire (\<lambda>_. Some True) 0 ''PSU_FAULT'' 1 ''gpu01'' (psu_message ''PSU1'') 0 0 ''PSU1'' empty_db)) ''PSU_FAULT'' 1 ''PSU1''"
proof (rule psu_alert_never_recovers)
  show "events_ok (fire (\<lambda>_. Some True) 0 ''PSU_FAULT'' 1 ''gpu01'' (psu_message ''PSU1'') 0 0 ''PSU1'' empty_db)"
    by (rule fire_events_ok) (simp add: events_ok_def empty_db_def)
qed (rule fire_is_open)

lemma ipmi_raises_iff: "collect_ipmi available run = None \<longleftrightarrow> available \<and> run [''mc'', ''info''] \<in> {TimeoutExpired, RunError}"
  by (auto simp: collect_ipmi_def Let_def split: run_result.splits)

text \<open>One password that cannot be decrypted stops the whole cycle.\<close>

lemma undecryptable_bmc_stops_cycle:
  assumes "s \<in> set (d_servers d)" "s_enabled s" "s_bmc_host s \<noteq> []" "decrypt (s_bmc_password s) = None"
  shows "ipmi_cycle send now available decrypt run exn_text elapsed d = d"
proof -
  have "x \<in> set xs \<Longrightarrow> f x = None \<Longrightarrow> all_or_raise f xs = None" for f :: "server \<Rightarrow> (server \<times> string) option" and x xs
    by (induction xs) (auto split: option.splits)
  from this [of s "filter (\<lambda>s. s_enabled s \<and> s_bmc_host s \<noteq> []) (d_servers d)"]
  show ?thesis using assms by (simp add: ipmi_cycle_def ipmi_targets_def)
qed

end
