(* ===== verification/Cycle.thy ===== *)
theory Cycle
  imports Store Ipmi
begin

text \<open>
  The scheduler's cycle, \<open>backend/app/scheduler.py\<close>: the marks that keep one collection per server
  and tier in flight, the lock that keeps one cycle running, the tasks a cycle starts, the joins it
  waits in, one round of the loop, and the reported status.  The threads are a step relation whose
  steps are the atomic sections; a cycle works through the results in the order they are stored.
\<close>

section \<open>Guards\<close>

text \<open>The contract of the two guards: entering fails exactly on a key that is held.\<close>

locale guard =
  fixes enter :: "'k \<Rightarrow> 's \<Rightarrow> bool \<times> 's"
    and leave :: "'k \<Rightarrow> 's \<Rightarrow> 's"
    and held :: "'s \<Rightarrow> 'k set"
  assumes enter_free: "fst (enter k s) \<longleftrightarrow> k \<notin> held s"
    and enter_held: "held (snd (enter k s)) = insert k (held s)"
    and leave_held: "held (leave k s) = held s - {k}"
begin

lemma enter_flight:
  assumes "enter k s = (True, s')" and "distinct ks" and "set ks = held s"
  shows "distinct (k # ks) \<and> set (k # ks) = held s'"
  using assms enter_free [of k s] enter_held [of k s] by simp

lemma enter_refused:
  assumes "enter k s = (False, s')" shows "held s' = held s"
  using assms enter_free [of k s] enter_held [of k s] by (simp add: insert_absorb)

lemma leave_flight:
  assumes "distinct ks" and "set ks = held s"
  shows "distinct (remove1 k ks) \<and> set (remove1 k ks) = held (leave k s)"
  using assms leave_held [of k s] by (simp add: set_remove1_eq)

lemma leave_all: "set ks = held s \<Longrightarrow> held (fold leave ks s) = {}"
proof -
  have "held (fold leave ks s) = held s - set ks" for s
    by (induction ks arbitrary: s) (auto simp: leave_held)
  then show "set ks = held s \<Longrightarrow> ?thesis" by simp
qed

end

type_synonym task = "int \<times> string"

definition server_begin :: "task \<Rightarrow> task set \<Rightarrow> bool \<times> task set" where
  "server_begin key server_busy = (if key \<in> server_busy then (False, server_busy) else (True, insert key server_busy))"

definition server_end :: "task \<Rightarrow> task set \<Rightarrow> task set" where
  "server_end key server_busy = server_busy - {key}"

definition cycle_acquire :: "unit \<Rightarrow> bool \<Rightarrow> bool \<times> bool" where
  "cycle_acquire u locked = (\<not> locked, True)"

definition cycle_release :: "unit \<Rightarrow> bool \<Rightarrow> bool" where
  "cycle_release u locked = False"

definition trigger_poll :: "bool \<Rightarrow> bool" where
  "trigger_poll locked = (\<not> locked)"

interpretation busy: guard server_begin server_end "\<lambda>s. s"
  by unfold_locales (auto simp: server_begin_def server_end_def)

interpretation lock: guard cycle_acquire cycle_release "\<lambda>locked. if locked then {()} else {}"
  by unfold_locales (auto simp: cycle_acquire_def cycle_release_def)

section \<open>The threads\<close>

text \<open>\<open>collecting\<close> lists the threads between their \<open>_server_begin\<close> and the \<open>finally\<close> after the
  collection, \<open>cycles\<close> those inside \<open>_run_cycle\<close>.\<close>

record world =
  server_busy :: "task set"
  collecting :: "task list"
  cycle_lock :: bool
  cycles :: "unit list"

definition idle_world :: world where
  "idle_world = \<lparr>server_busy = {}, collecting = [], cycle_lock = False, cycles = []\<rparr>"

inductive step :: "world \<Rightarrow> world \<Rightarrow> bool" where
  started: "server_begin key (server_busy w) = (True, b) \<Longrightarrow>
     step w (w\<lparr>server_busy := b, collecting := key # collecting w\<rparr>)"
| skipped: "server_begin key (server_busy w) = (False, b) \<Longrightarrow> step w (w\<lparr>server_busy := b\<rparr>)"
| finished: "key \<in> set (collecting w) \<Longrightarrow>
     step w (w\<lparr>server_busy := server_end key (server_busy w), collecting := remove1 key (collecting w)\<rparr>)"
| entered: "cycle_acquire () (cycle_lock w) = (True, l) \<Longrightarrow> step w (w\<lparr>cycle_lock := l, cycles := () # cycles w\<rparr>)"
| turned_away: "cycle_acquire () (cycle_lock w) = (False, l) \<Longrightarrow> step w (w\<lparr>cycle_lock := l\<rparr>)"
| left: "cycles w \<noteq> [] \<Longrightarrow>
     step w (w\<lparr>cycle_lock := cycle_release () (cycle_lock w), cycles := remove1 () (cycles w)\<rparr>)"

inductive_simps step_simps: "step w w'"

inductive reachable :: "world \<Rightarrow> bool" where
  start: "reachable idle_world"
| next_step: "reachable w \<Longrightarrow> step w w' \<Longrightarrow> reachable w'"

definition consistent :: "world \<Rightarrow> bool" where
  "consistent w \<longleftrightarrow> distinct (collecting w) \<and> set (collecting w) = server_busy w \<and>
     distinct (cycles w) \<and> set (cycles w) = (if cycle_lock w then {()} else {})"

lemma step_consistent: "step w w' \<Longrightarrow> consistent w \<Longrightarrow> consistent w'"
proof (induction rule: step.induct)
  case (started key w b)
  then show ?case using busy.enter_flight [OF started.hyps, of "collecting w"] by (simp add: consistent_def)
next
  case (skipped key w b)
  then show ?case using busy.enter_refused [OF skipped.hyps] by (simp add: consistent_def)
next
  case (finished key w)
  then show ?case using busy.leave_flight [of "collecting w" "server_busy w" key] by (simp add: consistent_def)
next
  case (entered w l)
  then show ?case using lock.enter_flight [OF entered.hyps, of "cycles w"] by (simp add: consistent_def)
next
  case (turned_away w l)
  then show ?case using lock.enter_refused [OF turned_away.hyps] by (simp add: consistent_def)
next
  case (left w)
  then show ?case using lock.leave_flight [of "cycles w" "cycle_lock w" "()"] by (simp add: consistent_def)
qed

lemma reachable_consistent: "reachable w \<Longrightarrow> consistent w"
  by (induction rule: reachable.induct) (simp add: consistent_def idle_world_def, rule step_consistent)

lemma finish_all:
  "consistent w \<Longrightarrow> \<exists>w'. step\<^sup>*\<^sup>* w w' \<and> collecting w' = [] \<and> consistent w'"
proof (induction "collecting w" arbitrary: w)
  case Nil
  then show ?case by (intro exI [of _ w]) simp
next
  case (Cons key ks)
  let ?w = "w\<lparr>server_busy := server_end key (server_busy w), collecting := remove1 key (collecting w)\<rparr>"
  have one: "step w ?w" using Cons.hyps(2) by (intro step.finished) (metis list.set_intros(1))
  have "ks = collecting ?w" using Cons.hyps(2) by (metis remove1.simps(2) world.select_convs(2) world.surjective world.update_convs(1,2))
  from Cons.hyps(1) [OF this step_consistent [OF one Cons.prems]] one show ?case
    by (meson converse_rtranclp_into_rtranclp)
qed

text \<open>
  C8.  At every moment at most one collection per server and tier and at most one cycle is in
  flight, the marks are exactly the collections in flight and the lock is held exactly during a
  cycle; and no mark is leaked: once the collections end, every mark is gone.
\<close>

theorem one_collection_per_server_and_tier:
  assumes "reachable w"
  shows "distinct (collecting w) \<and> server_busy w = set (collecting w) \<and> length (cycles w) \<le> 1 \<and>
    (cycle_lock w \<longleftrightarrow> cycles w \<noteq> []) \<and> (\<exists>w'. step\<^sup>*\<^sup>* w w' \<and> collecting w' = [] \<and> server_busy w' = {})"
proof -
  have c: "consistent w" by (rule reachable_consistent [OF assms])
  have "distinct us \<Longrightarrow> length us \<le> 1" for us :: "unit list"
    by (cases us; cases "tl us") auto
  then have "length (cycles w) \<le> 1" using c by (simp add: consistent_def)
  moreover have "cycle_lock w \<longleftrightarrow> cycles w \<noteq> []" using c by (cases "cycles w") (auto simp: consistent_def split: if_splits)
  moreover obtain w' where "step\<^sup>*\<^sup>* w w'" "collecting w' = []" "consistent w'" using finish_all [OF c] by blast
  ultimately show ?thesis using c by (auto simp: consistent_def)
qed

definition busy_world :: world where
  "busy_world = idle_world\<lparr>server_busy := {(1, ''poll'')}, collecting := [(1, ''poll'')]\<rparr>"

theorem one_collection_per_server_and_tier_witness:
  "reachable busy_world \<and> (\<exists>w'. step\<^sup>*\<^sup>* busy_world w' \<and> collecting w' = [] \<and> server_busy w' = {})"
proof -
  have "step idle_world busy_world"
    using step.started [of "(1, ''poll'')" idle_world "{(1, ''poll'')}"]
    by (simp add: server_begin_def busy_world_def idle_world_def)
  then have r: "reachable busy_world" by (rule reachable.next_step [OF reachable.start])
  then show ?thesis using one_collection_per_server_and_tier [OF r] by blast
qed

section \<open>Which tiers are due\<close>

definition SLOW_INTERVAL :: time where "SLOW_INTERVAL = seconds 300"
definition INVENTORY_INTERVAL :: time where "INVENTORY_INTERVAL = seconds 86400"
definition CYCLE_JOIN_TIMEOUT :: time where "CYCLE_JOIN_TIMEOUT = seconds 180"

definition is_due :: "time \<Rightarrow> time \<Rightarrow> time list \<Rightarrow> bool" where
  "is_due now interval collected =
     (case max_time collected of None \<Rightarrow> True | Some last_time \<Rightarrow> now - last_time \<ge> interval)"

definition cycle_tasks :: "time \<Rightarrow> db \<Rightarrow> task list" where
  "cycle_tasks now d =
     (let do_slow = is_due now SLOW_INTERVAL (map sh_collected_at (d_slow d));
          do_inv = is_due now INVENTORY_INTERVAL (map hi_collected_at (d_inventory d))
      in concat (map (\<lambda>s. [(s_id s, ''poll'')] @ (if do_slow then [(s_id s, ''slow'')] else [])
           @ (if do_inv then [(s_id s, ''inventory'')] else [])) (enabled_servers d)))"

text \<open>
  Every enabled server is polled in every cycle; but whether the inventory tier runs is
  decided for all servers at once by the newest row of any of them: a single inventory younger
  than a day keeps every other server, also one that has none at all, from being inventoried.
\<close>

theorem one_inventory_defers_all:
  assumes "h \<in> set (d_inventory d)" and "now - hi_collected_at h < INVENTORY_INTERVAL"
  shows "{t \<in> set (cycle_tasks now d). snd t = ''poll''} = (\<lambda>s. (s_id s, ''poll'')) ` {s \<in> set (d_servers d). s_enabled s} \<and>
    filter (\<lambda>t. snd t = ''inventory'') (cycle_tasks now d) = []"
proof -
  have "hi_collected_at h \<le> Max (set (map hi_collected_at (d_inventory d)))" using assms(1) by (intro Max_ge) auto
  then have "\<not> is_due now INVENTORY_INTERVAL (map hi_collected_at (d_inventory d))"
    using assms by (cases "d_inventory d") (auto simp: is_due_def max_time_def)
  then show ?thesis
    by (auto simp: cycle_tasks_def Let_def enabled_servers_def filter_empty_conv split: if_splits)
qed

definition fresh_server :: db where
  "fresh_server = empty_db\<lparr>d_servers := [demo_server\<lparr>s_id := 1\<rparr>, demo_server\<lparr>s_id := 2\<rparr>],
     d_inventory := [\<lparr>hi_server_id = 1, hi_collected_at = 0, hi_inventory = \<lparr>iv_machine_id = [], iv_dmi = [], iv_lscpu = [],
       iv_numa = [], iv_gpu_topology = [], iv_pci_numa = [], iv_disks = [], iv_nics = [], iv_ip_addrs = [], iv_ib = [],
       iv_time = [], iv_duration = 0\<rparr>\<rparr>]\<rparr>"

theorem one_inventory_defers_all_witness:
  "filter (\<lambda>t. snd t = ''inventory'') (cycle_tasks (hours 23) fresh_server) = []"
proof -
  have inv: "hd (d_inventory fresh_server) \<in> set (d_inventory fresh_server)" by (simp add: fresh_server_def)
  have "hours 23 - hi_collected_at (hd (d_inventory fresh_server)) < INVENTORY_INTERVAL"
    by (simp add: fresh_server_def INVENTORY_INTERVAL_def durations)
  from one_inventory_defers_all [OF inv this] show ?thesis by blast
qed

section \<open>Waiting for the threads\<close>

text \<open>The clock after joining threads that end at the given times (\<open>None\<close>: not in sight), one after
  another, each with its own timeout.\<close>

fun join_all :: "time option list \<Rightarrow> time \<Rightarrow> time" where
  "join_all [] clock = clock"
| "join_all (t # ts) clock =
     join_all ts (case t of None \<Rightarrow> clock + CYCLE_JOIN_TIMEOUT
                          | Some ends \<Rightarrow> max clock (min ends (clock + CYCLE_JOIN_TIMEOUT)))"

record scheduler_state =
  running :: bool
  thread_alive :: bool
  heartbeat :: "time option"
  poll_interval :: int

definition heartbeat_timeout :: "scheduler_state \<Rightarrow> time" where
  "heartbeat_timeout st = max (CYCLE_JOIN_TIMEOUT + seconds 60) (seconds (poll_interval st * 3))"

definition healthy :: "time \<Rightarrow> scheduler_state \<Rightarrow> bool" where
  "healthy now st \<longleftrightarrow> thread_alive st \<and>
     (case heartbeat st of None \<Rightarrow> False | Some t \<Rightarrow> now - t \<le> heartbeat_timeout st)"

text \<open>
  The wait of a cycle is bounded by the join timeout times the number of threads, not by the
  timeout: \<open>n\<close> threads that hang cost exactly \<open>n\<close> timeouts, and two of them are enough for the
  status to call the waiting scheduler unhealthy at the usual poll intervals.
\<close>

theorem cycle_wait_bound:
  "join_all ts start \<le> start + int (length ts) * CYCLE_JOIN_TIMEOUT \<and> start \<le> join_all ts start \<and>
   join_all (replicate n None) start = start + int n * CYCLE_JOIN_TIMEOUT \<and>
   (if poll_interval st \<le> 119 then healthy (join_all (replicate 2 None) start) (st\<lparr>heartbeat := Some start\<rparr>) = False
    else True)"
proof -
  have pos: "0 \<le> CYCLE_JOIN_TIMEOUT" by (simp add: CYCLE_JOIN_TIMEOUT_def seconds_def)
  have "join_all ts clock \<le> clock + int (length ts) * CYCLE_JOIN_TIMEOUT \<and> clock \<le> join_all ts clock" for clock
  proof (induction ts arbitrary: clock)
    case (Cons t ts)
    define c where "c = (case t of None \<Rightarrow> clock + CYCLE_JOIN_TIMEOUT
                          | Some ends \<Rightarrow> max clock (min ends (clock + CYCLE_JOIN_TIMEOUT)))"
    have "clock \<le> c \<and> c \<le> clock + CYCLE_JOIN_TIMEOUT" using pos by (auto simp: c_def split: option.splits)
    with Cons.IH [of c] show ?case by (simp add: c_def [symmetric] algebra_simps)
  qed simp
  moreover have hung: "join_all (replicate n None) clock = clock + int n * CYCLE_JOIN_TIMEOUT" for n clock
    by (induction n arbitrary: clock) (simp_all add: algebra_simps)
  moreover have "poll_interval st \<le> 119 \<Longrightarrow> \<not> healthy (join_all (replicate 2 None) start) (st\<lparr>heartbeat := Some start\<rparr>)"
    by (auto simp: hung healthy_def heartbeat_timeout_def CYCLE_JOIN_TIMEOUT_def seconds_def)
  ultimately show ?thesis by simp
qed

section \<open>A cycle and a round of the loop\<close>

datatype completion =
    PollDone int time sample
  | SlowDone int time "(string \<times> string) + slow_result"
  | InventoryDone int time "(string \<times> string) + inventory"

definition complete ::
    "sender \<Rightarrow> (string \<Rightarrow> string) \<Rightarrow> int \<Rightarrow> completion \<Rightarrow> db \<times> idle_store \<Rightarrow> db \<times> idle_store" where
  "complete send digest interval c st =
     (case c of
        PollDone sid now res \<Rightarrow> poll_one send digest now interval sid res st
      | SlowDone sid now r \<Rightarrow> (slow_one now sid r (fst st), snd st)
      | InventoryDone sid now r \<Rightarrow> (inventory_one now sid r (fst st), snd st))"

definition run_cycle ::
    "sender \<Rightarrow> (string \<Rightarrow> string) \<Rightarrow> int \<Rightarrow> int \<Rightarrow> time \<Rightarrow> completion list \<Rightarrow> db \<times> idle_store \<Rightarrow> db \<times> idle_store" where
  "run_cycle send digest interval poll_seconds now completions st =
     (if enabled_servers (fst st) = [] then st
      else case fold (complete send digest interval) completions st of
        (d, idle) \<Rightarrow> (eval_alerts send poll_seconds now d, idle))"

record loop_state =
  lp_db :: db
  lp_idle :: idle_store
  lp_interval :: int
  lp_retention_day :: "time option"
  lp_hour :: "time option"
  lp_backfill :: "(int list \<times> int \<times> time) option"

text \<open>One round, reading the clock once: \<open>completions\<close> is \<open>None\<close> when the cycle lock is taken.\<close>

definition scheduler_round ::
    "sender \<Rightarrow> (string \<Rightarrow> string) \<Rightarrow> int \<Rightarrow> bool \<Rightarrow> bool \<Rightarrow> time \<Rightarrow> completion list option \<Rightarrow> loop_state \<Rightarrow> loop_state" where
  "scheduler_round send digest poll_seconds dir_set can_write now completions st =
     (let d1 = expire_maintenance now (lp_db st);
          (d2, idle) = (case completions of
              None \<Rightarrow> (d1, lp_idle st)
            | Some cs \<Rightarrow> run_cycle send digest (lp_interval st) poll_seconds now cs (d1, lp_idle st));
          (day, d3, ar) = retention_cleanup dir_set can_write now (lp_retention_day st) d2 d2 d2;
          roll = (lp_hour st \<noteq> Some (hour_floor now) \<and> now mod hours 1 \<ge> minutes 2);
          (d4, backfill) = (if roll then hourly_aggregate poll_seconds now d3 else (d3, None))
      in \<lparr>lp_db = d4, lp_idle = idle, lp_interval = load_interval poll_seconds d4, lp_retention_day = day,
          lp_hour = (if roll then Some (hour_floor now) else lp_hour st), lp_backfill = backfill\<rparr>)"

end
