(* ===== verification/Ipaddr.thy ===== *)
theory Ipaddr
  imports PyText "HOL-Library.Word"
begin

text \<open>
  What the back end uses of Python's \<open>ipaddress\<close>: \<open>ip_address\<close> and \<open>ip_network(strict=False)\<close> on
  texts, membership, \<open>is_loopback\<close> and \<open>str\<close>.  An address is a word of its width; an IPv6 address
  keeps its scope.  \<open>None\<close> is \<open>ValueError\<close>.
\<close>

unbundle bit_operations_syntax

section \<open>Addresses\<close>

datatype ip = IPv4 "32 word" | IPv6 "128 word" "string option"

text \<open>A decimal octet: one to three ASCII digits, no leading zero, at most 255.\<close>

definition octet :: "string \<Rightarrow> nat option" where
  "octet s =
     (if s = [] \<or> \<not> list_all is_digit s \<or> length s > 3 then None
      else if s \<noteq> ''0'' \<and> hd s = CHR ''0'' then None
      else case py_digits s of Some n \<Rightarrow> if n \<le> 255 then Some n else None | None \<Rightarrow> None)"

text \<open>The parts of a number, the most significant first, \<open>k\<close> bits each.\<close>

definition join_parts :: "nat \<Rightarrow> nat list \<Rightarrow> 'a::len word" where
  "join_parts k ns = fold (\<lambda>n w. push_bit k w OR of_nat n) ns 0"

definition parse_ipv4 :: "string \<Rightarrow> 32 word option" where
  "parse_ipv4 s =
     (let octets = split_on (CHR ''.'') s
      in if length octets \<noteq> 4 then None
         else case those (map octet octets) of
             None \<Rightarrow> None
           | Some ns \<Rightarrow> Some (join_parts 8 ns))"

definition is_hex :: "char \<Rightarrow> bool" where
  "is_hex c \<longleftrightarrow> is_digit c \<or> (65 \<le> code c \<and> code c \<le> 70) \<or> (97 \<le> code c \<and> code c \<le> 102)"

definition hex_val :: "char \<Rightarrow> nat" where
  "hex_val c = (if is_digit c then code c - 48 else if is_upper c then code c - 55 else code c - 87)"

definition hextet :: "string \<Rightarrow> nat option" where
  "hextet s =
     (if s = [] \<or> length s > 4 \<or> \<not> list_all is_hex s then None
      else Some (fold (\<lambda>c n. 16 * n + hex_val c) s 0))"

text \<open>The hextets of an address, from the parts between its colons; \<open>Inr\<close> are numbers that stand
  for a dotted quad at the end.\<close>

definition part_value :: "string + nat \<Rightarrow> nat option" where
  "part_value p = (case p of Inl s \<Rightarrow> hextet s | Inr n \<Rightarrow> Some n)"

definition empty_part :: "string + nat \<Rightarrow> bool" where
  "empty_part p \<longleftrightarrow> (case p of Inl s \<Rightarrow> s = [] | Inr n \<Rightarrow> False)"

definition quad_parts :: "string list \<Rightarrow> (string + nat) list option" where
  "quad_parts parts =
     (if CHR ''.'' \<in> set (last parts)
      then case parse_ipv4 (last parts) of
          None \<Rightarrow> None
        | Some w \<Rightarrow> Some (map Inl (butlast parts) @ [Inr (unat (drop_bit 16 w)), Inr (unat (w AND 0xFFFF))])
      else Some (map Inl parts))"

definition hextets_of :: "(string + nat) list \<Rightarrow> nat list option" where
  "hextets_of parts =
     (let skips = filter (\<lambda>i. 1 \<le> i \<and> i < length parts - 1 \<and> empty_part (parts ! i)) [0 ..< length parts]
      in case skips of
          [] \<Rightarrow>
            if length parts \<noteq> 8 \<or> empty_part (hd parts) \<or> empty_part (last parts) then None
            else those (map part_value parts)
        | [i] \<Rightarrow>
            let hi = take i parts; lo = drop (i + 1) parts;
                hi' = (if empty_part (hd hi) then tl hi else hi);
                lo' = (if empty_part (last lo) then butlast lo else lo)
            in if empty_part (hd hi) \<and> hi' \<noteq> [] then None
               else if empty_part (last lo) \<and> lo' \<noteq> [] then None
               else if length hi' + length lo' > 7 then None
               else (case (those (map part_value hi'), those (map part_value lo')) of
                       (Some h, Some l) \<Rightarrow> Some (h @ replicate (8 - (length h + length l)) 0 @ l)
                     | _ \<Rightarrow> None)
        | _ \<Rightarrow> None)"

definition parse_ipv6 :: "string \<Rightarrow> 128 word option" where
  "parse_ipv6 s =
     (let parts = split_on (CHR '':'') s
      in if s = [] \<or> length parts < 3 then None
         else case quad_parts parts of
             None \<Rightarrow> None
           | Some ps \<Rightarrow> if length ps > 9 then None else map_option (join_parts 16) (hextets_of ps))"

definition split_scope :: "string \<Rightarrow> (string \<times> string option) option" where
  "split_scope s =
     (case partition_on (CHR ''%'') s of
        (a, False, _) \<Rightarrow> Some (a, None)
      | (a, True, scope) \<Rightarrow> if scope = [] \<or> CHR ''%'' \<in> set scope then None else Some (a, Some scope))"

definition ip_address :: "string \<Rightarrow> ip option" where
  "ip_address s =
     (case parse_ipv4 s of
        Some w \<Rightarrow> Some (IPv4 w)
      | None \<Rightarrow>
          if CHR ''/'' \<in> set s then None
          else case split_scope s of
              None \<Rightarrow> None
            | Some (a, scope) \<Rightarrow> map_option (\<lambda>w. IPv6 w scope) (parse_ipv6 a))"

section \<open>Texts\<close>

text \<open>The \<open>n\<close> parts of \<open>k\<close> bits, the most significant first.\<close>

fun split_parts :: "nat \<Rightarrow> nat \<Rightarrow> 'a::len word \<Rightarrow> nat list" where
  "split_parts k 0 w = []"
| "split_parts k (Suc n) w = unat (take_bit k (drop_bit (k * n) w)) # split_parts k n w"

definition show_ipv4 :: "32 word \<Rightarrow> string" where
  "show_ipv4 w = join ''.'' (map show_nat (split_parts 8 4 w))"

fun hex_aux :: "nat \<Rightarrow> nat \<Rightarrow> string" where
  "hex_aux 0 n = []"
| "hex_aux (Suc fuel) n =
     (if n < 16 then [] else hex_aux fuel (n div 16)) @
     [char_of (if n mod 16 < 10 then 48 + n mod 16 else 87 + n mod 16)]"

text \<open>The start and the length of the first longest run of zeros, walking the list from index \<open>i\<close>
  with a run of \<open>run\<close> zeros behind.\<close>

fun zero_run :: "nat \<Rightarrow> nat \<Rightarrow> nat \<times> nat \<Rightarrow> nat list \<Rightarrow> nat \<times> nat" where
  "zero_run i run best [] = best"
| "zero_run i run best (n # ns) =
     (if n = 0
      then zero_run (i + 1) (run + 1) (if run + 1 > snd best then (i - run, run + 1) else best) ns
      else zero_run (i + 1) 0 best ns)"

definition show_ipv6 :: "128 word \<Rightarrow> string" where
  "show_ipv6 w =
     (let ns = split_parts 16 8 w; texts = map (hex_aux 4) ns
      in case zero_run 0 0 (0, 0) ns of
          (start, len) \<Rightarrow>
            if len \<le> 1 then join '':'' texts
            else join '':''
              ((if start = 0 then [[]] else []) @ take start texts @ [[]] @ drop (start + len) texts @
               (if start + len = length texts then [[]] else [])))"

definition show_ip :: "ip \<Rightarrow> string" where
  "show_ip a =
     (case a of
        IPv4 w \<Rightarrow> show_ipv4 w
      | IPv6 w scope \<Rightarrow> show_ipv6 w @ (case scope of Some z \<Rightarrow> CHR ''%'' # z | None \<Rightarrow> []))"

section \<open>Networks\<close>

datatype network = Net4 "32 word" nat | Net6 "128 word" nat

definition netmask :: "nat \<Rightarrow> 'a::len word" where
  "netmask n = NOT (mask (LENGTH('a) - n))"

definition prefixlen :: "network \<Rightarrow> nat" where
  "prefixlen n = (case n of Net4 w k \<Rightarrow> k | Net6 w k \<Rightarrow> k)"

definition max_prefixlen :: "network \<Rightarrow> nat" where
  "max_prefixlen n = (case n of Net4 w k \<Rightarrow> 32 | Net6 w k \<Rightarrow> 128)"

definition in_network :: "ip \<Rightarrow> network \<Rightarrow> bool" where
  "in_network a n \<longleftrightarrow>
     (case (a, n) of
        (IPv4 w, Net4 base k) \<Rightarrow> w AND netmask k = base
      | (IPv6 w scope, Net6 base k) \<Rightarrow> w AND netmask k = base
      | _ \<Rightarrow> False)"

definition prefix_text :: "nat \<Rightarrow> string \<Rightarrow> nat option" where
  "prefix_text bound s =
     (if s = [] \<or> \<not> list_all is_digit s then None
      else case py_digits s of Some n \<Rightarrow> if n \<le> bound then Some n else None | None \<Rightarrow> None)"

text \<open>The prefix length of a netmask written as an address: all leading bits one, the rest zero.\<close>

definition mask_prefix :: "32 word \<Rightarrow> nat option" where
  "mask_prefix w = find (\<lambda>n. netmask n = w) [0 ..< 33]"

definition ipv4_mask :: "string \<Rightarrow> nat option" where
  "ipv4_mask s =
     (case prefix_text 32 s of
        Some n \<Rightarrow> Some n
      | None \<Rightarrow>
          (case parse_ipv4 s of
             None \<Rightarrow> None
           | Some w \<Rightarrow> (case mask_prefix w of Some n \<Rightarrow> Some n | None \<Rightarrow> mask_prefix (NOT w))))"

definition network_of :: "string \<Rightarrow> string option \<Rightarrow> network option" where
  "network_of a len =
     (case (parse_ipv4 a, (case len of None \<Rightarrow> Some 32 | Some m \<Rightarrow> ipv4_mask m)) of
        (Some w, Some k) \<Rightarrow> Some (Net4 (w AND netmask k) k)
      | _ \<Rightarrow>
          (case (case split_scope a of Some (b, scope) \<Rightarrow> parse_ipv6 b | None \<Rightarrow> None,
                 case len of None \<Rightarrow> Some 128 | Some m \<Rightarrow> prefix_text 128 m) of
             (Some w, Some k) \<Rightarrow> Some (Net6 (w AND netmask k) k)
           | _ \<Rightarrow> None))"

definition ip_network :: "string \<Rightarrow> network option" where
  "ip_network s =
     (case split_on (CHR ''/'') s of
        [a] \<Rightarrow> network_of a None
      | [a, m] \<Rightarrow> network_of a (Some m)
      | _ \<Rightarrow> None)"

definition is_loopback :: "ip \<Rightarrow> bool" where
  "is_loopback a =
     (case a of
        IPv4 w \<Rightarrow> in_network a (Net4 0x7F000000 8)
      | IPv6 w scope \<Rightarrow> w = 1)"

section \<open>Lemmas\<close>

lemma octet_show: 
  assumes "n < 256" 
  shows "octet (show_nat n) = Some n"
proof -
  have "length (show_nat n) \<le> 3" using show_nat_length [of n "Suc n" 2] assms by (simp add: show_nat_def del: show_nat_aux.simps)
  moreover have "show_nat n = ''0'' \<or> hd (show_nat n) \<noteq> CHR ''0''"
    using show_nat_hd [of n "Suc n"] by (cases n) (simp_all add: show_nat_def del: show_nat_aux.simps, simp)
  ultimately show ?thesis using assms show_nat_digits_only [of n]
    by (auto simp: octet_def py_digits_show_nat)
qed

lemma fold_parts: "fold (\<lambda>n w. push_bit k w OR of_nat n) ns (acc :: 'a::len word) =
  push_bit (k * length ns) acc OR fold (\<lambda>n w. push_bit k w OR of_nat n) ns 0"
proof (induction ns arbitrary: acc)
  case (Cons n ns)
  show ?case
    using Cons.IH [of "push_bit k acc OR of_nat n"] Cons.IH [of "of_nat n"]
    by (simp add: push_bit_or push_bit_push_bit algebra_simps or.assoc)
qed simp

lemma length_split_parts [simp]: "length (split_parts k n w) = n"
  by (induction n) auto

lemma join_split_parts: "join_parts k (split_parts k n (w :: 'a::len word)) = take_bit (k * n) w"
proof (induction n)
  case (Suc n)
  have "join_parts k (split_parts k (Suc n) w) =
      push_bit (k * n) (take_bit k (drop_bit (k * n) w)) OR join_parts k (split_parts k n w)"
    using fold_parts [of k "split_parts k n w"  "take_bit k (drop_bit (k * n) w)"]
    by (simp add: join_parts_def)
  also have "\<dots> = push_bit (k * n) (take_bit k (drop_bit (k * n) w)) OR take_bit (k * n) w" by (simp add: Suc)
  also have "\<dots> = take_bit (k * Suc n) w"
    by (rule bit_word_eqI) (auto simp: bit_simps)
  finally show ?case .
qed (simp add: join_parts_def)

lemma split_parts_small: "m \<in> set (split_parts k n (w :: 'a::len word)) \<Longrightarrow> m < 2 ^ k"
  by (induction n) (auto simp: unsigned_take_bit_eq)

lemma octets_show:
  "list_all (\<lambda>n. n < 256) ns \<Longrightarrow> those (map octet (map show_nat ns)) = Some ns"
  by (induction ns) (auto simp: octet_show)

lemma ipv4_round_trip: "parse_ipv4 (show_ipv4 w) = Some w"
proof -
  have small: "list_all (\<lambda>n. n < 256) (split_parts 8 4 w)"
    using split_parts_small [where k = 8 and n = 4 and w = w] by (auto simp: list_all_iff)
  have parts: "split_on (CHR ''.'') (show_ipv4 w) = map show_nat (split_parts 8 4 w)"
  proof -
    have no_dot: "CHR ''.'' \<notin> set (show_nat n)" for n
      using show_nat_digits_only(2) [of n] by (auto simp: list_all_iff is_digit_def code_def)
    obtain x xs where x: "map show_nat (split_parts 8 4 w) = x # xs" by (simp add: numeral_eq_Suc)
    have "list_all (\<lambda>t. CHR ''.'' \<notin> set t) (map show_nat (split_parts 8 4 w))"
      using no_dot by (simp add: list_all_iff)
    then show ?thesis using split_on_join [of "CHR ''.''" x xs] unfolding show_ipv4_def x by simp
  qed
  have "take_bit 32 w = w" by (rule bit_word_eqI) (simp add: bit_take_bit_iff)
  then show ?thesis using octets_show [OF small] by (simp add: parse_ipv4_def parts join_split_parts)
qed

text \<open>Membership is agreement on the leading bits.\<close>

lemma masked_eq:
  fixes a b :: "'a::len word"
  shows "a AND netmask k = b AND netmask k \<longleftrightarrow> (\<forall>n < LENGTH('a). LENGTH('a) - k \<le> n \<longrightarrow> bit a n = bit b n)"
  by (auto simp: bit_eq_iff bit_simps netmask_def)

lemma dropped_eq:
  fixes a b :: "'a::len word"
  shows "drop_bit j a = drop_bit j b \<longleftrightarrow> (\<forall>n < LENGTH('a). j \<le> n \<longrightarrow> bit a n = bit b n)"
proof
  assume *: "drop_bit j a = drop_bit j b"
  show "\<forall>n < LENGTH('a). j \<le> n \<longrightarrow> bit a n = bit b n"
  proof (intro allI impI)
    fix n assume "j \<le> n"
    then show "bit a n = bit b n" using arg_cong [OF *, of "\<lambda>w. bit w (n - j)"] by (simp add: bit_drop_bit_eq)
  qed
next
  assume "\<forall>n < LENGTH('a). j \<le> n \<longrightarrow> bit a n = bit b n"
  then show "drop_bit j a = drop_bit j b"
    by (intro bit_word_eqI) (metis bit_drop_bit_eq bit_imp_le_length comp_apply le_add1)
qed

lemma in_net4:
  "in_network (IPv4 a) (Net4 (b AND netmask k) k) \<longleftrightarrow> drop_bit (32 - k) a = drop_bit (32 - k) b"
  by (simp add: in_network_def masked_eq dropped_eq)

lemma in_net6:
  "in_network (IPv6 a scope) (Net6 (b AND netmask k) k) \<longleftrightarrow> drop_bit (128 - k) a = drop_bit (128 - k) b"
  by (simp add: in_network_def masked_eq dropped_eq)

lemma join_parts_Cons: "join_parts k (n # ns) = push_bit (k * length ns) (of_nat n) OR join_parts k ns"
  using fold_parts [of k ns "of_nat n"] by (simp add: join_parts_def)

lemma small_bit: "m < 2 ^ k \<Longrightarrow> bit (m :: nat) i \<Longrightarrow> i < k"
  by (metis bit_take_bit_iff take_bit_nat_eq_self)

lemma join_parts_bit:
  "list_all (\<lambda>m. m < 2 ^ k) ns \<Longrightarrow> bit (join_parts k ns :: 'a::len word) i \<Longrightarrow> i < k * length ns"
proof (induction ns)
  case (Cons n ns)
  then show ?case using small_bit [of n k "i - k * length ns"]
    by (auto simp: join_parts_Cons bit_simps)
qed (simp add: join_parts_def)

lemma split_parts_cong:
  fixes v w :: "'a::len word"
  shows "(\<And>i. i < k * n \<Longrightarrow> bit v i = bit w i) \<Longrightarrow> split_parts k n v = split_parts k n w"
proof (induction n)
  case (Suc n)
  have "take_bit k (drop_bit (k * n) v) = take_bit k (drop_bit (k * n) w)"
    by (rule bit_word_eqI) (auto simp: bit_simps Suc.prems)
  then show ?case using Suc by simp
qed simp

lemma split_join_parts:
  "list_all (\<lambda>m. m < 2 ^ k) ns \<Longrightarrow> k * length ns \<le> LENGTH('a) \<Longrightarrow>
     split_parts k (length ns) (join_parts k ns :: 'a::len word) = ns"
proof (induction ns)
  case (Cons n ns)
  let ?w = "join_parts k (n # ns) :: 'a word" and ?l = "k * length ns"
  have lo: "\<not> bit (join_parts k ns :: 'a word) i" if "?l \<le> i" for i
    using join_parts_bit [of k ns i] Cons.prems(1) that by auto
  have "take_bit k (drop_bit ?l ?w) = (of_nat n :: 'a word)"
  proof (rule bit_word_eqI)
    fix i assume i: "i < LENGTH('a)"
    show "bit (take_bit k (drop_bit ?l ?w)) i = bit (of_nat n :: 'a word) i"
      using lo [of "?l + i"] small_bit [of n k i] Cons.prems
      by (auto simp: join_parts_Cons bit_simps)
  qed
  moreover have "split_parts k (length ns) ?w = split_parts k (length ns) (join_parts k ns :: 'a word)"
    by (rule split_parts_cong) (auto simp: join_parts_Cons bit_simps)
  moreover have "n < 2 ^ LENGTH('a)"
    using Cons.prems power_increasing [of k "LENGTH('a)" "2::nat"] by (auto simp: less_le_trans)
  ultimately show ?case using Cons by (simp add: unsigned_of_nat take_bit_nat_eq_self)
qed simp

end
