(* ===== verification/Url.thy ===== *)
theory Url
  imports Ipaddr
begin

text \<open>
  What the back end uses of \<open>urllib.parse\<close> (CPython 3.12): \<open>urlsplit\<close>, \<open>urlparse\<close>, the properties of
  their results, \<open>unquote\<close> and \<open>parse_qsl\<close>, on ASCII texts.
\<close>

section \<open>URLs\<close>

record url =
  scheme :: string
  netloc :: string
  url_path :: string
  url_query :: string
  fragment :: string

definition is_alpha :: "char \<Rightarrow> bool" where
  "is_alpha c \<longleftrightarrow> is_upper c \<or> (97 \<le> code c \<and> code c \<le> 122)"

definition is_scheme_char :: "char \<Rightarrow> bool" where
  "is_scheme_char c \<longleftrightarrow> is_alpha c \<or> is_digit c \<or> c \<in> set ''+-.''"

definition split_scheme :: "string \<Rightarrow> string \<times> string" where
  "split_scheme u =
     (case partition_on (CHR '':'') u of
        (s, found, rest) \<Rightarrow>
          if found \<and> s \<noteq> [] \<and> is_alpha (hd s) \<and> list_all is_scheme_char s then (lower s, rest) else ([], u))"

text \<open>The part before the first of some characters, and the rest.\<close>

definition split_before :: "char set \<Rightarrow> string \<Rightarrow> string \<times> string" where
  "split_before cs s = (takeWhile (\<lambda>c. c \<notin> cs) s, dropWhile (\<lambda>c. c \<notin> cs) s)"

text \<open>Parameters after a semicolon in the last segment are not part of the path.\<close>

definition drop_params :: "string \<Rightarrow> string" where
  "drop_params p =
     (let segment = takeWhile (\<lambda>c. c \<noteq> CHR ''/'') (rev p); front = take (length p - length segment) p
      in front @ takeWhile (\<lambda>c. c \<noteq> CHR '';'') (rev segment))"

definition clean_url :: "string \<Rightarrow> string" where
  "clean_url u = filter (\<lambda>c. code c \<notin> {9, 10, 13}) (dropWhile (\<lambda>c. code c \<le> 32) u)"

text \<open>The text between the brackets of a host is an IPv6 address or a future version's address.\<close>

definition future_address :: "string \<Rightarrow> bool" where
  "future_address h \<longleftrightarrow>
     (case partition_on (CHR ''.'') (drop 1 h) of
        (version, found, rest) \<Rightarrow> version \<noteq> [] \<and> list_all is_hex version \<and> found \<and> rest \<noteq> [] \<and> nl \<notin> set rest)"

definition bracketed_host_ok :: "string \<Rightarrow> bool" where
  "bracketed_host_ok h \<longleftrightarrow>
     (if is_prefix ''v'' h then future_address h
      else case ip_address h of Some (IPv6 w scope) \<Rightarrow> True | _ \<Rightarrow> False)"

definition bracketed_netloc_ok :: "string \<Rightarrow> bool" where
  "bracketed_netloc_ok net \<longleftrightarrow>
     (let host = rev (takeWhile (\<lambda>c. c \<noteq> CHR ''@'') (rev net))
      in case partition_on (CHR ''['') host of
          (before, True, bracketed) \<Rightarrow>
            (case partition_on (CHR '']'') bracketed of
               (h, _, port) \<Rightarrow> before = [] \<and> (port = [] \<or> is_prefix '':'' port) \<and> bracketed_host_ok h)
        | (_, False, _) \<Rightarrow> bracketed_host_ok (fst (partition_on (CHR '':'') host)))"

text \<open>\<open>None\<close> is \<open>ValueError\<close>: the brackets of the host do not match or hold no IPv6 address.\<close>

definition urlsplit :: "string \<Rightarrow> url option" where
  "urlsplit u0 =
     (case split_scheme (clean_url u0) of
        (sch, u1) \<Rightarrow>
          case (if is_prefix ''//'' u1 then split_before (set ''/?#'') (drop 2 u1) else ([], u1)) of
            (net, u2) \<Rightarrow>
              if (CHR ''['' \<in> set net) \<noteq> (CHR '']'' \<in> set net) then None
              else if CHR ''['' \<in> set net \<and> \<not> bracketed_netloc_ok net then None
              else case partition_on (CHR ''#'') u2 of
                (u3, _, frag) \<Rightarrow>
                  case partition_on (CHR ''?'') u3 of
                    (p, _, q) \<Rightarrow> Some \<lparr>scheme = sch, netloc = net, url_path = p, url_query = q, fragment = frag\<rparr>)"

text \<open>For the schemes \<open>http\<close> and \<open>https\<close>, and for no scheme.\<close>

definition urlparse :: "string \<Rightarrow> url option" where
  "urlparse u = map_option (\<lambda>p. p\<lparr>url_path := drop_params (url_path p)\<rparr>) (urlsplit u)"

definition userinfo :: "url \<Rightarrow> string" where
  "userinfo p = rev (drop 1 (snd (split_before {CHR ''@''} (rev (netloc p)))))"

definition hostinfo :: "url \<Rightarrow> string" where
  "hostinfo p = rev (fst (split_before {CHR ''@''} (rev (netloc p))))"

definition has_credentials :: "url \<Rightarrow> bool" where
  "has_credentials p \<longleftrightarrow>
     (case partition_on (CHR '':'') (userinfo p) of (user, _, pwd) \<Rightarrow> user \<noteq> [] \<or> pwd \<noteq> [])"

definition host_port :: "url \<Rightarrow> string \<times> string" where
  "host_port p =
     (case partition_on (CHR ''['') (hostinfo p) of
        (_, True, bracketed) \<Rightarrow>
          (case partition_on (CHR '']'') bracketed of
             (h, _, rest) \<Rightarrow> (h, snd (snd (partition_on (CHR '':'') rest))))
      | (_, False, _) \<Rightarrow>
          (case partition_on (CHR '':'') (hostinfo p) of (h, _, prt) \<Rightarrow> (h, prt)))"

definition hostname :: "url \<Rightarrow> string" where
  "hostname p =
     (case partition_on (CHR ''%'') (fst (host_port p)) of
        (h, found, zone) \<Rightarrow> lower h @ (if found then CHR ''%'' # zone else []))"

text \<open>\<open>None\<close> is \<open>ValueError\<close>, \<open>Some None\<close> no port.\<close>

definition url_port :: "url \<Rightarrow> int option option" where
  "url_port p =
     (let prt = snd (host_port p)
      in if prt = [] then Some None
         else if list_all is_digit prt
         then (case py_int prt of Some n \<Rightarrow> if n \<le> 65535 then Some (Some n) else None | None \<Rightarrow> None)
         else None)"

definition has_username :: "url \<Rightarrow> bool" where
  "has_username p \<longleftrightarrow> fst (partition_on (CHR '':'') (userinfo p)) \<noteq> []"

definition url_password :: "url \<Rightarrow> string" where
  "url_password p = snd (snd (partition_on (CHR '':'') (userinfo p)))"

text \<open>\<open>unquote\<close>: two hexadecimal digits after a percent sign are a byte.\<close>

fun unquote :: "string \<Rightarrow> string" where
  "unquote [] = []"
| "unquote (c # cs) =
     (case cs of
        h # l # rest \<Rightarrow>
          if c = CHR ''%'' \<and> is_hex h \<and> is_hex l then char_of (16 * hex_val h + hex_val l) # unquote rest
          else c # unquote cs
      | _ \<Rightarrow> c # unquote cs)"

text \<open>The names in a query string, blank values kept.\<close>

definition query_names :: "string \<Rightarrow> string list" where
  "query_names q =
     map (\<lambda>field. unquote (map (\<lambda>c. if c = CHR ''+'' then CHR '' '' else c) (fst (partition_on (CHR ''='') field))))
       (filter (\<lambda>field. field \<noteq> []) (split_on (CHR ''&'') q))"

end
