(* ===== verification/Notifier.thy ===== *)
theory Notifier
  imports AlertLog HostParse Url
begin

text \<open>
  \<open>backend/app/notifier.py\<close>: webhook URLs at rest, the template, the choice of the address a
  webhook is sent to, and the routing over channels.  \<open>urlparse\<close> is written out for the parts
  the source reads.  Parameters: encryption and decryption of a text, name resolution, whether an
  address is globally routable (and not site-local), and the HTTPS exchange with one address.
\<close>

text \<open>\<open>p.port or 443\<close>.\<close>

definition port_or_443 :: "int option \<Rightarrow> int" where
  "port_or_443 n = (case n of Some k \<Rightarrow> if k \<noteq> 0 then k else 443 | None \<Rightarrow> 443)"

section \<open>URLs at rest\<close>

definition WEBHOOK_ENCRYPTED_PREFIX :: string where "WEBHOOK_ENCRYPTED_PREFIX = ''fernet:''"

definition protect_webhook_url :: "(string \<Rightarrow> string) \<Rightarrow> string \<Rightarrow> string" where
  "protect_webhook_url encrypt u =
     (if strip u \<noteq> [] then WEBHOOK_ENCRYPTED_PREFIX @ encrypt (strip u) else [])"

text \<open>\<open>None\<close>: the text cannot be decrypted.\<close>

definition reveal_webhook_url :: "(string \<Rightarrow> string option) \<Rightarrow> string \<Rightarrow> string option" where
  "reveal_webhook_url decrypt stored =
     (if stored = [] then Some []
      else if is_prefix WEBHOOK_ENCRYPTED_PREFIX stored then decrypt (drop (length WEBHOOK_ENCRYPTED_PREFIX) stored)
      else Some stored)"

definition redact_webhook_url :: "(string \<Rightarrow> string option) \<Rightarrow> string \<Rightarrow> string option" where
  "redact_webhook_url decrypt stored =
     map_option (\<lambda>u.
       if u = [] then []
       else case urlparse u of
           None \<Rightarrow> ''configured (hidden)''
         | Some p \<Rightarrow>
             (case url_port p of
                None \<Rightarrow> ''configured (hidden)''
              | Some prt \<Rightarrow>
                  ''https://'' @ (if hostname p \<noteq> [] then hostname p else ''configured'') @
                  (if port_or_443 prt \<noteq> 443 then CHR '':'' # show_int (port_or_443 prt) else []) @ ''/'' @ utf8 [226, 128, 166]))
       (reveal_webhook_url decrypt stored)"

definition SETTING_WEBHOOK_URL :: string where "SETTING_WEBHOOK_URL = ''alert_webhook_url''"
definition SETTING_WEBHOOK_TEMPLATE :: string where "SETTING_WEBHOOK_TEMPLATE = ''alert_webhook_template''"

definition is_legacy_url :: "string \<Rightarrow> bool" where
  "is_legacy_url stored \<longleftrightarrow> stored \<noteq> [] \<and> \<not> is_prefix WEBHOOK_ENCRYPTED_PREFIX stored"

definition secure_url :: "(string \<Rightarrow> string) \<Rightarrow> string \<Rightarrow> string" where
  "secure_url encrypt stored = (if is_legacy_url stored then protect_webhook_url encrypt stored else stored)"

definition stored_urls :: "db \<Rightarrow> string list" where
  "stored_urls d = map w_url (d_channels d) @
     (case map_of (d_settings d) SETTING_WEBHOOK_URL of Some v \<Rightarrow> [v] | None \<Rightarrow> [])"

text \<open>\<open>None\<close>: a stored ciphertext cannot be decrypted, which fails the start.\<close>

definition secure_stored_webhook_urls ::
    "(string \<Rightarrow> string) \<Rightarrow> (string \<Rightarrow> string option) \<Rightarrow> time \<Rightarrow> db \<Rightarrow> (nat \<times> db) option" where
  "secure_stored_webhook_urls encrypt decrypt now d =
     (let changed = length (filter is_legacy_url (stored_urls d))
      in if list_ex (\<lambda>u. reveal_webhook_url decrypt u = None) (stored_urls d) then None
         else if changed = 0 then Some (0, d)
         else Some (changed, d\<lparr>
           d_channels := map (\<lambda>w. w\<lparr>w_url := secure_url encrypt (w_url w)\<rparr>) (d_channels d),
           d_settings := map (\<lambda>(k, v). (k, if k = SETTING_WEBHOOK_URL then secure_url encrypt v else v)) (d_settings d),
           d_audit := d_audit d @ [\<lparr>a_ts = now, a_username = ''system:migration'', a_action = ''webhook.encrypt_urls'',
             a_detail = ''encrypted '' @ show_int (int changed) @ '' legacy webhook URL(s)''\<rparr>]\<rparr>))"

section \<open>The template\<close>

definition qt :: char where "qt = CHR 0x22"
definition bslash :: char where "bslash = CHR 0x5C"

definition hex4 :: "nat \<Rightarrow> string" where
  "hex4 n = map (\<lambda>k. char_of (if (n div k) mod 16 < 10 then 48 + (n div k) mod 16 else 87 + (n div k) mod 16))
     [4096, 256, 16, 1]"

text \<open>\<open>json.dumps(s, ensure_ascii=False)\<close> without its outer quotes.\<close>

definition escape_char :: "char \<Rightarrow> string" where
  "escape_char c =
     (if c = qt then [bslash, qt]
      else if c = bslash then [bslash, bslash]
      else if code c = 8 then [bslash, CHR ''b'']
      else if code c = 9 then [bslash, CHR ''t'']
      else if code c = 10 then [bslash, CHR ''n'']
      else if code c = 12 then [bslash, CHR ''f'']
      else if code c = 13 then [bslash, CHR ''r'']
      else if code c < 32 then bslash # CHR ''u'' # hex4 (code c)
      else [c])"

definition json_escape :: "string \<Rightarrow> string" where
  "json_escape s = concat (map escape_char s)"

text \<open>\<open>s.replace(pat, rep)\<close> for a non-empty pattern.\<close>

function replace_all :: "string \<Rightarrow> string \<Rightarrow> string \<Rightarrow> string" where
  "replace_all pat rep s =
     (if pat \<noteq> [] \<and> s \<noteq> [] \<and> is_prefix pat s then rep @ replace_all pat rep (drop (length pat) s)
      else case s of [] \<Rightarrow> [] | c # cs \<Rightarrow> c # replace_all pat rep cs)"
  by auto
termination by (relation "measure (\<lambda>(p, r, s). length s)") auto

declare replace_all.simps [simp del]

definition placeholder :: "string \<Rightarrow> string" where
  "placeholder k = ''{{'' @ k @ ''}}''"

definition render :: "string \<Rightarrow> (string \<times> string) list \<Rightarrow> string" where
  "render template ctx = fold (\<lambda>(k, v) out. replace_all (placeholder k) (json_escape v) out) ctx template"

definition DEFAULT_TEMPLATE :: string where
  "DEFAULT_TEMPLATE = ''{'' @ [qt] @ ''text'' @ [qt] @ '': '' @ [qt] @
     ''[{{level}}] {{server_name}}: {{metric}}={{value}} {{op}} {{threshold}} ({{rule_name}}) at {{time}}'' @ [qt] @ ''}''"

section \<open>The address\<close>

type_synonym resolver = "string \<Rightarrow> int \<Rightarrow> string list option"

definition resolve_webhook_target ::
    "resolver \<Rightarrow> (string \<Rightarrow> bool) \<Rightarrow> string \<Rightarrow> string + url \<times> string" where
  "resolve_webhook_target resolve is_public u =
     (if u = [] then Inl ''no webhook url configured''
      else if length u > 2048 then Inl ''webhook url is too long''
      else case urlparse u of
          None \<Rightarrow> Inl ''invalid url''
        | Some p \<Rightarrow>
            if scheme p \<noteq> ''https'' then Inl ''webhook must use https://''
            else if has_credentials p \<or> fragment p \<noteq> []
            then Inl ''credentials and fragments are not allowed in webhook urls''
            else if hostname p = [] then Inl ''invalid url''
            else case url_port p of
                None \<Rightarrow> Inl ''invalid webhook port''
              | Some prt \<Rightarrow>
                  (case resolve (hostname p) (port_or_443 prt) of
                     None \<Rightarrow> Inl (''cannot resolve host '' @ hostname p)
                   | Some ips \<Rightarrow>
                       (case find (\<lambda>ip. \<not> is_public ip) ips of
                          Some ip \<Rightarrow> Inl (''webhook host resolves to non-public address ('' @ ip @ '')'')
                        | None \<Rightarrow>
                            (case ips of
                               [] \<Rightarrow> Inl ''webhook host has no public address''
                             | ip # _ \<Rightarrow> Inr (p, ip)))))"

definition validate_webhook_url :: "resolver \<Rightarrow> (string \<Rightarrow> bool) \<Rightarrow> string \<Rightarrow> bool \<times> string" where
  "validate_webhook_url resolve is_public u =
     (case resolve_webhook_target resolve is_public u of Inl reason \<Rightarrow> (False, reason) | Inr _ \<Rightarrow> (True, []))"

text \<open>One HTTPS request: the address and port of the socket, the host header, the path, the body;
  the answer is an exception or a status.\<close>

record request =
  out_ip :: string
  out_port :: int
  out_server_name :: string
  out_host_header :: string
  out_path :: string
  out_body :: string

definition webhook_request :: "url \<Rightarrow> string \<Rightarrow> string \<Rightarrow> request" where
  "webhook_request p ip body =
     (let prt = port_or_443 (the_default None (url_port p))
      in \<lparr>out_ip = ip, out_port = prt, out_server_name = hostname p,
          out_host_header = hostname p @ (if prt \<noteq> 443 then CHR '':'' # show_int prt else []),
          out_path = (if url_path p \<noteq> [] then url_path p else ''/'') @
            (if url_query p \<noteq> [] then CHR ''?'' # url_query p else []),
          out_body = body\<rparr>)"

record wire =
  resolve :: resolver
  is_public :: "string \<Rightarrow> bool"
  post :: "request \<Rightarrow> string + int"

text \<open>The outcome, and the request sent, if any.\<close>

definition send_webhook :: "wire \<Rightarrow> string \<Rightarrow> string \<Rightarrow> (string \<times> string) list \<Rightarrow> (bool \<times> string) \<times> request option" where
  "send_webhook w u template ctx =
     (case resolve_webhook_target (resolve w) (is_public w) u of
        Inl reason \<Rightarrow> ((False, reason), None)
      | Inr (p, ip) \<Rightarrow>
          let rq = webhook_request p ip (render template ctx)
          in (case post w rq of
                Inl err \<Rightarrow> (False, err)
              | Inr status \<Rightarrow> (200 \<le> status \<and> status < 300, ''HTTP '' @ show_int status), Some rq))"

section \<open>Routing\<close>

definition SEV_RANK :: "(string, int) dict" where
  "SEV_RANK = [(''info'', 0), (''warning'', 1), (''critical'', 2)]"

definition sev_rank :: "string \<Rightarrow> int" where
  "sev_rank s = the_default 0 (map_of SEV_RANK s)"

type_synonym webhook_target = "string \<times> string \<times> string"

definition channel_target :: "(string \<Rightarrow> string option) \<Rightarrow> webhook_channel \<Rightarrow> webhook_target option" where
  "channel_target decrypt ch =
     map_option (\<lambda>u. (u, if w_template ch \<noteq> [] then w_template ch else DEFAULT_TEMPLATE,
         if w_min_severity ch \<noteq> [] then w_min_severity ch else ''info''))
       (reveal_webhook_url decrypt (w_url ch))"

definition webhook_config :: "(string \<Rightarrow> string option) \<Rightarrow> db \<Rightarrow> (string \<times> string) option" where
  "webhook_config decrypt d =
     (let tpl = the_default [] (map_of (d_settings d) SETTING_WEBHOOK_TEMPLATE)
      in map_option (\<lambda>u. (u, if tpl \<noteq> [] then tpl else DEFAULT_TEMPLATE))
           (reveal_webhook_url decrypt (the_default [] (map_of (d_settings d) SETTING_WEBHOOK_URL))))"

definition active_channels :: "db \<Rightarrow> webhook_channel list" where
  "active_channels d = filter (\<lambda>ch. w_enabled ch \<and> w_url ch \<noteq> []) (d_channels d)"

text \<open>\<open>None\<close>: a URL cannot be decrypted.\<close>

definition channels :: "(string \<Rightarrow> string option) \<Rightarrow> db \<Rightarrow> webhook_target list option" where
  "channels decrypt d =
     do {
       out \<leftarrow> all_or_raise (channel_target decrypt) (active_channels d);
       if out \<noteq> [] then Some out
       else do {
         (u, tpl) \<leftarrow> webhook_config decrypt d;
         Some (if u \<noteq> [] then [(u, tpl, ''info'')] else [])
       }
     }"

definition passes :: "string \<Rightarrow> webhook_target \<Rightarrow> bool" where
  "passes severity tgt \<longleftrightarrow> sev_rank (snd (snd tgt)) \<le> sev_rank severity"

text \<open>The outcome and the requests sent.\<close>

definition dispatch ::
    "(string \<Rightarrow> string option) \<Rightarrow> wire \<Rightarrow> db \<Rightarrow> (string \<times> string) list \<Rightarrow> string \<Rightarrow>
     ((bool \<times> string) \<times> request list) option" where
  "dispatch decrypt w d ctx severity =
     (case channels decrypt d of
        None \<Rightarrow> None
      | Some targets \<Rightarrow>
          if targets = [] then Some ((False, ''webhook not configured''), [])
          else let sent = map (\<lambda>(u, tpl, m). send_webhook w u tpl ctx) (filter (passes severity) targets);
                   results = map fst sent
            in if results = [] then Some ((False, ''all channels below severity threshold''), [])
               else Some ((list_ex fst results, join ''; '' (map snd results)), List.map_filter snd sent))"

definition context_of :: "string \<Rightarrow> notification \<Rightarrow> (string \<times> string) list" where
  "context_of clock n =
     (case n of
        Alert sname metric val op_text threshold rule sev \<Rightarrow>
          [(''level'', ''ALERT''), (''server_name'', sname), (''metric'', metric),
           (''value'', show_float (py_round_to 1 val)), (''op'', op_text), (''threshold'', show_float threshold),
           (''rule_name'', rule), (''time'', clock)]
      | Recovery sname metric rule \<Rightarrow>
          [(''level'', ''RECOVERY''), (''server_name'', sname), (''metric'', metric), (''value'', []), (''op'', []),
           (''threshold'', []), (''rule_name'', rule), (''time'', clock)])"

definition severity_for :: "notification \<Rightarrow> string" where
  "severity_for n = (case n of Alert _ _ _ _ _ _ sev \<Rightarrow> sev | Recovery _ _ _ \<Rightarrow> ''info'')"

text \<open>\<open>notify_alert\<close> and \<open>notify_recovery\<close>.\<close>

definition deliver ::
    "(string \<Rightarrow> string option) \<Rightarrow> wire \<Rightarrow> db \<Rightarrow> string \<Rightarrow> notification \<Rightarrow> ((bool \<times> string) \<times> request list) option" where
  "deliver decrypt w d clock n = dispatch decrypt w d (context_of clock n) (severity_for n)"

text \<open>What the event log uses as its sender.\<close>

definition webhook_sender :: "(string \<Rightarrow> string option) \<Rightarrow> wire \<Rightarrow> db \<Rightarrow> string \<Rightarrow> sender" where
  "webhook_sender decrypt w d clock n = map_option (\<lambda>r. fst (fst r)) (deliver decrypt w d clock n)"

section \<open>A value never leaves its string\<close>

text \<open>
  The skeleton of a JSON text: what stands outside its string literals, with their quotes.  An
  escaped brace, which JSON does not have, shows in it, so that a template with a backslash before
  a placeholder is recognised.
\<close>

datatype json_mode = Outside | Inside | Escaped

fun skeleton :: "json_mode \<Rightarrow> string \<Rightarrow> string" where
  "skeleton m [] = []"
| "skeleton Outside (c # cs) = c # skeleton (if c = qt then Inside else Outside) cs"
| "skeleton Inside (c # cs) =
     (if c = qt then c # skeleton Outside cs
      else if c = bslash then skeleton Escaped cs else skeleton Inside cs)"
| "skeleton Escaped (c # cs) = (if c = CHR ''{'' then [bslash, c] else []) @ skeleton Inside cs"

fun mode_after :: "json_mode \<Rightarrow> string \<Rightarrow> json_mode" where
  "mode_after m [] = m"
| "mode_after Outside (c # cs) = mode_after (if c = qt then Inside else Outside) cs"
| "mode_after Inside (c # cs) = mode_after (if c = qt then Outside else if c = bslash then Escaped else Inside) cs"
| "mode_after Escaped (c # cs) = mode_after Inside cs"

definition plain_char :: "char \<Rightarrow> bool" where
  "plain_char c \<longleftrightarrow> c \<noteq> qt \<and> c \<noteq> bslash"

lemma skeleton_plain: "list_all plain_char s \<Longrightarrow> skeleton Inside (s @ t) = skeleton Inside t"
  by (induction s) (auto simp: plain_char_def)

lemma mode_plain: "list_all plain_char s \<Longrightarrow> mode_after Inside (s @ t) = mode_after Inside t"
  by (induction s) (auto simp: plain_char_def)

lemma hex4_plain: "list_all plain_char (hex4 n)"
proof -
  have "list_all (\<lambda>k. plain_char (char_of (if k < 10 then 48 + k else 87 + k))) [0..<16]" by code_simp
  then have "plain_char (char_of (if k < 10 then 48 + k else 87 + k))" if "k < 16" for k :: nat
    using that by (simp add: list_all_iff)
  from this [of "n div 4096 mod 16"] this [of "n div 256 mod 16"] this [of "n div 16 mod 16"] this [of "n mod 16"]
  show ?thesis by (simp add: hex4_def split: if_splits)
qed

lemma escape_char_inside:
  "skeleton Inside (escape_char c @ t) = skeleton Inside t \<and> mode_after Inside (escape_char c @ t) = mode_after Inside t"
proof -
  have bq: "bslash \<noteq> qt" "CHR ''b'' \<noteq> CHR ''{''" "bslash \<noteq> CHR ''{''" "qt \<noteq> CHR ''{''" by (simp_all add: bslash_def qt_def)
  show ?thesis using bq skeleton_plain [OF hex4_plain] mode_plain [OF hex4_plain]
    by (simp add: escape_char_def)
qed

lemma escape_inside:
  "skeleton Inside (json_escape v @ t) = skeleton Inside t \<and> mode_after Inside (json_escape v @ t) = mode_after Inside t"
  by (induction v) (simp_all add: json_escape_def escape_char_inside)

definition safe_in :: "json_mode \<Rightarrow> string \<Rightarrow> string \<Rightarrow> bool" where
  "safe_in m pat s \<longleftrightarrow> \<not> contains pat (skeleton m s) \<and> \<not> contains [bslash, CHR ''{''] (skeleton m s)"

fun next_mode :: "json_mode \<Rightarrow> char \<Rightarrow> json_mode" where
  "next_mode Outside c = (if c = qt then Inside else Outside)"
| "next_mode Inside c = (if c = qt then Outside else if c = bslash then Escaped else Inside)"
| "next_mode Escaped c = Inside"

lemma skeleton_next: "\<exists>p. skeleton m (c # s) = p @ skeleton (next_mode m c) s"
  by (cases m) auto

lemma mode_next: "mode_after m (c # s) = mode_after (next_mode m c) s"
  by (cases m) auto

lemma contains_suffix: "contains p s \<Longrightarrow> contains p (t @ s)"
  by (metis append.assoc contains_iff)

lemma safe_next: "safe_in m pat (c # s) \<Longrightarrow> safe_in (next_mode m c) pat s"
  using skeleton_next [of m c s] by (auto simp: safe_in_def dest: contains_suffix)

lemma placeholder_plain: "list_all plain_char k \<Longrightarrow> list_all plain_char (placeholder k)"
  by (simp add: placeholder_def plain_char_def qt_def bslash_def)

lemma skeleton_outside: "list_all plain_char s \<Longrightarrow> skeleton Outside (s @ t) = s @ skeleton Outside t"
  by (induction s) (auto simp: plain_char_def)

lemma safe_occurrence:
  assumes "safe_in m (placeholder k) (placeholder k @ s)" and "list_all plain_char k"
  shows "m = Inside"
proof (cases m)
  case Outside
  have "contains (placeholder k) (skeleton Outside (placeholder k @ s))"
    unfolding skeleton_outside [OF placeholder_plain [OF assms(2)]] contains_iff by (metis append_Nil)
  with assms(1) Outside show ?thesis by (simp add: safe_in_def)
next
  case Escaped
  have "skeleton Escaped (placeholder k @ s) = [bslash, CHR ''{''] @ skeleton Inside (CHR ''{'' # k @ ''}}'' @ s)"
    by (simp add: placeholder_def)
  then have "contains [bslash, CHR ''{''] (skeleton Escaped (placeholder k @ s))"
    unfolding contains_iff by (metis append_Nil)
  with assms(1) Escaped show ?thesis by (simp add: safe_in_def)
qed simp

lemma replace_safe:
  assumes "list_all plain_char k" and "pat = placeholder k" and "rep = json_escape v"
  shows "safe_in m pat s \<Longrightarrow>
     skeleton m (replace_all pat rep s) = skeleton m s \<and> mode_after m (replace_all pat rep s) = mode_after m s"
  using assms
proof (induction pat rep s arbitrary: m rule: replace_all.induct)
  case (1 pat rep s)
  note plain = placeholder_plain [OF "1.prems"(2)]
  show ?case
  proof (cases "pat \<noteq> [] \<and> s \<noteq> [] \<and> is_prefix pat s")
    case True
    then obtain t where s: "s = placeholder k @ t" using "1.prems"(3) by (auto simp: is_prefix_iff)
    have m: "m = Inside" using safe_occurrence "1.prems"(1,2,3) s by blast
    have t: "drop (length pat) s = t" by (simp add: s "1.prems"(3))
    have safe: "safe_in Inside pat t"
      using "1.prems"(1) by (simp add: s m safe_in_def skeleton_plain [OF plain])
    have "replace_all pat rep s = rep @ replace_all pat rep t"
      using True by (subst replace_all.simps) (simp add: t)
    then show ?thesis
      using "1.IH"(1) [OF True, of Inside] safe "1.prems"(2,3,4) escape_inside [of v]
      by (simp add: m s t skeleton_plain [OF plain] mode_plain [OF plain])
  next
    case False
    show ?thesis
    proof (cases s)
      case (Cons c cs)
      have step: "replace_all pat rep s = c # replace_all pat rep cs"
        using False by (subst replace_all.simps) (auto simp: Cons)
      have safe: "safe_in (next_mode m c) pat cs" using "1.prems"(1) safe_next by (simp add: Cons)
      have IH: "skeleton (next_mode m c) (replace_all pat rep cs) = skeleton (next_mode m c) cs \<and>
          mode_after (next_mode m c) (replace_all pat rep cs) = mode_after (next_mode m c) cs"
        using "1.IH"(2) [OF False Cons safe "1.prems"(2,3,4)] .
      have "skeleton m (c # replace_all pat rep cs) = skeleton m (c # cs)" using IH by (cases m) auto
      moreover have "mode_after m (c # replace_all pat rep cs) = mode_after m (c # cs)" using IH by (simp add: mode_next)
      ultimately show ?thesis unfolding step by (simp add: Cons)
    next
      case Nil
      have "replace_all pat rep s = []" using False by (subst replace_all.simps) (simp add: Nil)
      then show ?thesis by (simp add: Nil)
    qed
  qed
qed

definition template_ok :: "(string \<times> string) list \<Rightarrow> string \<Rightarrow> bool" where
  "template_ok ctx template \<longleftrightarrow>
     list_all (\<lambda>(k, v). list_all plain_char k \<and> safe_in Outside (placeholder k) template) ctx"

text \<open>
  Rendering a webhook body never changes its JSON structure, whatever the values hold: when
  the placeholders of a template stand inside its string literals, not behind a backslash, the rendered body has
  exactly the template's text outside the literals, and ends inside a literal only if the template did.  Values with quotes,
  backslashes, control characters or further placeholders stay inside the literal they were put in.
\<close>

theorem render_keeps_structure:
  assumes "template_ok ctx template"
  shows "skeleton Outside (render template ctx) = skeleton Outside template \<and>
    mode_after Outside (render template ctx) = mode_after Outside template"
  using assms
proof (induction ctx arbitrary: template)
  case (Cons kv ctx)
  obtain k v where kv: "kv = (k, v)" by (cases kv)
  let ?t = "replace_all (placeholder k) (json_escape v) template"
  have same: "skeleton Outside ?t = skeleton Outside template \<and> mode_after Outside ?t = mode_after Outside template"
    using Cons.prems replace_safe [OF _ refl refl] by (simp add: template_ok_def kv)
  then have "template_ok ctx ?t" using Cons.prems by (auto simp: template_ok_def safe_in_def list_all_iff)
  from Cons.IH [OF this] same show ?case by (simp add: render_def kv)
qed (simp add: render_def)

definition hostile :: "(string \<times> string) list" where
  "hostile = context_of ''now'' (Alert ([qt] @ ''}, {{rule_name}}'') ''cpu'' 97 ''>'' 90 [bslash] ''critical'')"

theorem render_keeps_structure_witness:
  "skeleton Outside (render DEFAULT_TEMPLATE hostile) = ''{'' @ [qt, qt] @ '': '' @ [qt, qt] @ ''}''"
proof -
  have "template_ok hostile DEFAULT_TEMPLATE" by code_simp
  from render_keeps_structure [OF this]
  have "skeleton Outside (render DEFAULT_TEMPLATE hostile) = skeleton Outside DEFAULT_TEMPLATE" by blast
  moreover have "skeleton Outside DEFAULT_TEMPLATE = ''{'' @ [qt, qt] @ '': '' @ [qt, qt] @ ''}''" by code_simp
  ultimately show ?thesis by simp
qed

section \<open>Only public addresses\<close>

text \<open>
  C39.  A webhook is only ever sent over HTTPS to an address that resolution has just returned for its host,
  and only when every address returned is public; the socket goes to that very address and the
  name checked in the certificate is the URL's host.  Otherwise nothing is sent at all.
\<close>

theorem webhook_goes_to_public_address:
  "case send_webhook w u template ctx of
     ((ok, msg), None) \<Rightarrow> \<not> ok
   | ((ok, msg), Some rq) \<Rightarrow>
       (\<exists>p ips. urlparse u = Some p \<and> scheme p = ''https'' \<and> \<not> has_credentials p \<and>
          resolve w (out_server_name rq) (out_port rq) = Some ips \<and> out_ip rq \<in> set ips \<and>
          list_all (is_public w) ips \<and> out_server_name rq = hostname p)"
proof (cases "resolve_webhook_target (resolve w) (is_public w) u")
  case (Inl reason)
  then show ?thesis by (simp add: send_webhook_def)
next
  case (Inr tgt)
  obtain p ip where tgt: "tgt = (p, ip)" by (cases tgt)
  from Inr obtain prt ips where p: "urlparse u = Some p" "scheme p = ''https''" "\<not> has_credentials p"
    "url_port p = Some prt" "resolve w (hostname p) (port_or_443 prt) = Some ips"
    and public: "find (\<lambda>ip. \<not> is_public w ip) ips = None" and ip: "ip \<in> set ips"
    unfolding resolve_webhook_target_def tgt by (auto split: if_splits option.splits list.splits)
  have "list_all (is_public w) ips" using public by (simp add: find_None_iff list_all_iff)
  moreover have "out_server_name (webhook_request p ip body) = hostname p" "out_port (webhook_request p ip body) = port_or_443 prt"
    "out_ip (webhook_request p ip body) = ip" for body
    using p(4) by (simp_all add: webhook_request_def Let_def the_default_def)
  ultimately show ?thesis using Inr p ip by (simp add: send_webhook_def tgt Let_def)
qed

section \<open>Who is told\<close>

lemma channel_severity:
  "channels decrypt d = Some targets \<Longrightarrow> active_channels d \<noteq> [] \<Longrightarrow>
   map (\<lambda>t. snd (snd t)) targets = map (\<lambda>ch. if w_min_severity ch \<noteq> [] then w_min_severity ch else ''info'') (active_channels d)"
proof -
  assume ts: "channels decrypt d = Some targets" and ne: "active_channels d \<noteq> []"
  have mins: "all_or_raise (channel_target decrypt) chs = Some out \<Longrightarrow>
     map (\<lambda>t. snd (snd t)) out = map (\<lambda>ch. if w_min_severity ch \<noteq> [] then w_min_severity ch else ''info'') chs" for chs out
    by (induction chs arbitrary: out) (auto simp: channel_target_def bind_eq_Some_conv)
  from ts obtain out where out: "all_or_raise (channel_target decrypt) (active_channels d) = Some out"
    by (auto simp: channels_def bind_eq_Some_conv)
  have "out \<noteq> []" using ne all_or_raise_length [OF out] by auto
  then have "targets = out" using ts out by (simp add: channels_def)
  with mins [OF out] show ?thesis by simp
qed

text \<open>
  Recoveries are dispatched as informational: once every active channel asks for warnings or worse, alerts of
  that severity reach the channels, but no recovery ever is sent to any.
\<close>

theorem recovery_below_every_threshold:
  assumes "active_channels d \<noteq> []"
    and "list_all (\<lambda>ch. w_min_severity ch \<in> {''warning'', ''critical''}) (active_channels d)"
    and "channels decrypt d = Some targets"
  shows "deliver decrypt w d clock (Recovery sname metric rule) =
      Some ((False, ''all channels below severity threshold''), []) \<and>
    filter (passes (severity_for (Alert sname metric v op_text t rule ''critical''))) targets = targets"
proof -
  have mins: "m \<in> {''warning'', ''critical''}" if "(u, tpl, m) \<in> set targets" for u tpl m
  proof -
    have "m \<in> set (map (\<lambda>t. snd (snd t)) targets)" using that by force
    then show ?thesis using assms(2) unfolding channel_severity [OF assms(3,1)] by (auto simp: list_all_iff)
  qed
  have ranks: "sev_rank ''info'' = 0" "sev_rank ''warning'' = 1" "sev_rank ''critical'' = 2"
    by (simp_all add: sev_rank_def SEV_RANK_def the_default_def)
  have "filter (passes ''info'') targets = []"
    using mins ranks by (fastforce simp: filter_empty_conv passes_def)
  moreover have "filter (passes ''critical'') targets = targets"
    using mins ranks by (intro filter_True) (fastforce simp: passes_def)
  moreover have "targets \<noteq> []" using channel_severity [OF assms(3,1)] assms(1) by auto
  ultimately show ?thesis using assms(3)
    by (simp add: deliver_def dispatch_def severity_for_def Let_def)
qed

definition strict_channel :: db where
  "strict_channel = empty_db\<lparr>d_channels := [\<lparr>w_id = 1, w_name = ''ops'', w_url = ''https://hook.example.org/x'',
     w_template = [], w_min_severity = ''critical'', w_enabled = True\<rparr>]\<rparr>"

theorem recovery_below_every_threshold_witness:
  "deliver Some \<lparr>resolve = (\<lambda>h p. Some [''93.184.216.34'']), is_public = (\<lambda>ip. True), post = (\<lambda>rq. Inr 200)\<rparr> strict_channel
     ''now'' (Recovery ''gpu01'' ''GPU_MISSING'' ''GPU_MISSING'') = Some ((False, ''all channels below severity threshold''), [])"
proof -
  have active: "active_channels strict_channel \<noteq> []"
    "list_all (\<lambda>ch. w_min_severity ch \<in> {''warning'', ''critical''}) (active_channels strict_channel)"
    by (simp_all add: active_channels_def strict_channel_def)
  have "channels Some strict_channel = Some [(''https://hook.example.org/x'', DEFAULT_TEMPLATE, ''critical'')]" by code_simp
  from recovery_below_every_threshold [OF active this] show ?thesis by blast
qed

section \<open>URLs at rest\<close>

lemma reveal_protect: "(\<And>x. decrypt (encrypt x) = Some x) \<Longrightarrow>
   reveal_webhook_url decrypt (protect_webhook_url encrypt u) = Some (strip u)"
  by (simp add: reveal_webhook_url_def protect_webhook_url_def WEBHOOK_ENCRYPTED_PREFIX_def)

lemma secured_not_legacy: "\<not> is_legacy_url (secure_url encrypt u)"
  by (simp add: secure_url_def is_legacy_url_def protect_webhook_url_def WEBHOOK_ENCRYPTED_PREFIX_def)

lemma urls_secured:
  "secure_stored_webhook_urls encrypt decrypt now d = Some (n, d') \<Longrightarrow> filter is_legacy_url (stored_urls d') = []"
proof -
  assume run: "secure_stored_webhook_urls encrypt decrypt now d = Some (n, d')"
  have setting: "map_of (map (\<lambda>(k, v). (k, if k = SETTING_WEBHOOK_URL then secure_url encrypt v else v)) ss) SETTING_WEBHOOK_URL =
     map_option (secure_url encrypt) (map_of ss SETTING_WEBHOOK_URL)" for ss
    by (induction ss) auto
  show ?thesis
  proof (cases "length (filter is_legacy_url (stored_urls d)) = 0")
    case True
    then show ?thesis using run by (auto simp: secure_stored_webhook_urls_def Let_def split: if_splits)
  next
    case False
    then have d': "d_channels d' = map (\<lambda>w. w\<lparr>w_url := secure_url encrypt (w_url w)\<rparr>) (d_channels d)"
      "d_settings d' = map (\<lambda>(k, v). (k, if k = SETTING_WEBHOOK_URL then secure_url encrypt v else v)) (d_settings d)"
      using run by (auto simp: secure_stored_webhook_urls_def Let_def split: if_splits)
    show ?thesis
      by (auto simp: stored_urls_def d' setting filter_empty_conv secured_not_legacy split: option.splits)
  qed
qed

end
