(* ===== verification/Config.thy ===== *)
theory Config
  imports PyText
begin

text \<open>
  \<open>backend/app/config.py\<close>: the settings the modelled code reads and the values derived from them.
  Reading them from the environment is pydantic's; the hexadecimal SHA-256 digest is a parameter.
\<close>

record settings =
  APP_NAME :: string
  JWT_SIGNING_KEY :: string
  CREDENTIAL_ENCRYPTION_KEYS :: string
  SECRET_KEY :: string
  JWT_ISSUER :: string
  JWT_AUDIENCE :: string
  ACCESS_TOKEN_EXPIRE_MINUTES :: int
  COOKIE_SECURE :: string
  COOKIE_SAMESITE :: string
  ALLOW_INSECURE_HTTP :: string
  MAX_REQUEST_BODY_BYTES :: int
  REMOTE_PROCESS_CONTROL_ENABLED :: string
  ALLOW_ROOT_SSH :: string
  REQUIRE_ADMIN_MFA :: string
  TRUST_PROXY :: string
  TRUSTED_PROXY_CIDRS :: string
  DATABASE_SSL_CA :: string
  DATABASE_SSL_CERT :: string
  DATABASE_SSL_KEY :: string
  DB_ECHO :: bool
  AUTO_MIGRATE :: string
  REDIS_URL :: string
  REDIS_SSL_CA :: string
  INIT_ADMIN_USERNAME :: string
  INIT_ADMIN_PASSWORD :: string
  POLL_INTERVAL_SECONDS :: int
  ARCHIVE_DIR :: string
  ARCHIVE_ENCRYPTION_KEY :: string
  CORS_ORIGINS :: string

definition default_settings :: settings where
  "default_settings =
     \<lparr>APP_NAME = ''GPU Monitor'', JWT_SIGNING_KEY = [], CREDENTIAL_ENCRYPTION_KEYS = [], SECRET_KEY = [],
      JWT_ISSUER = ''gpu-monitor'', JWT_AUDIENCE = ''gpu-monitor-api'', ACCESS_TOKEN_EXPIRE_MINUTES = 2 * 60,
      COOKIE_SECURE = ''yes'', COOKIE_SAMESITE = ''strict'', ALLOW_INSECURE_HTTP = ''no'',
      MAX_REQUEST_BODY_BYTES = 1024 * 1024, REMOTE_PROCESS_CONTROL_ENABLED = ''no'', ALLOW_ROOT_SSH = ''no'',
      REQUIRE_ADMIN_MFA = ''yes'', TRUST_PROXY = ''no'', TRUSTED_PROXY_CIDRS = ''127.0.0.1/32,::1/128'',
      DATABASE_SSL_CA = [], DATABASE_SSL_CERT = [], DATABASE_SSL_KEY = [],
      DB_ECHO = False, AUTO_MIGRATE = ''no'', REDIS_URL = [], REDIS_SSL_CA = [], INIT_ADMIN_USERNAME = [],
      INIT_ADMIN_PASSWORD = [], POLL_INTERVAL_SECONDS = 60, ARCHIVE_DIR = [], ARCHIVE_ENCRYPTION_KEY = [],
      CORS_ORIGINS = []\<rparr>"

definition PUBLIC_SECRET_PLACEHOLDERS :: "string list" where
  "PUBLIC_SECRET_PLACEHOLDERS =
     [''change-me'', ''change-me-in-production-please'', ''change-me-run-openssl-rand-hex-32'', ''changeme'', ''secret'']"

definition is_on :: "string \<Rightarrow> bool" where
  "is_on v \<longleftrightarrow> lower (strip v) \<in> {''yes'', ''1'', ''true''}"

definition trust_proxy :: "settings \<Rightarrow> bool" where "trust_proxy st \<longleftrightarrow> is_on (TRUST_PROXY st)"
definition cookie_secure :: "settings \<Rightarrow> bool" where "cookie_secure st \<longleftrightarrow> is_on (COOKIE_SECURE st)"
definition allow_insecure_http :: "settings \<Rightarrow> bool" where "allow_insecure_http st \<longleftrightarrow> is_on (ALLOW_INSECURE_HTTP st)"
definition remote_process_control_enabled :: "settings \<Rightarrow> bool" where
  "remote_process_control_enabled st \<longleftrightarrow> is_on (REMOTE_PROCESS_CONTROL_ENABLED st)"
definition allow_root_ssh :: "settings \<Rightarrow> bool" where "allow_root_ssh st \<longleftrightarrow> is_on (ALLOW_ROOT_SSH st)"
definition require_admin_mfa :: "settings \<Rightarrow> bool" where "require_admin_mfa st \<longleftrightarrow> is_on (REQUIRE_ADMIN_MFA st)"
definition auto_migrate :: "settings \<Rightarrow> bool" where "auto_migrate st \<longleftrightarrow> is_on (AUTO_MIGRATE st)"

definition jwt_signing_key :: "(string \<Rightarrow> string) \<Rightarrow> settings \<Rightarrow> string" where
  "jwt_signing_key sha256_hex st =
     (if strip (JWT_SIGNING_KEY st) \<noteq> [] then strip (JWT_SIGNING_KEY st)
      else if strip (SECRET_KEY st) \<noteq> [] then sha256_hex (SECRET_KEY st @ ''|jwt-signing'')
      else [])"

text \<open>The non-empty values of a comma-separated setting, without the space around them.\<close>

definition comma_values :: "string \<Rightarrow> string list" where
  "comma_values s = filter (\<lambda>v. v \<noteq> []) (map strip (split_on (CHR '','') s))"

definition credential_encryption_keys :: "settings \<Rightarrow> string list" where
  "credential_encryption_keys st =
     comma_values (if strip (CREDENTIAL_ENCRYPTION_KEYS st) \<noteq> [] then strip (CREDENTIAL_ENCRYPTION_KEYS st)
                   else strip (SECRET_KEY st))"

end
