(* ===== verification/Security.thy ===== *)
theory Security
  imports Config Url Models RateLimit
begin

text \<open>
  \<open>backend/app/security.py\<close>: the client address, passwords, session revocation, login origins,
  tokens, the credential keyring, cookies and CSRF, one-time codes, and the two dependencies that
  authenticate a request.  Parameters: bcrypt (\<open>passlib\<close>), JWT coding (\<open>PyJWT\<close>), Fernet
  (\<open>cryptography\<close>), SHA-256, HMAC-SHA1 and the random source.
\<close>

section \<open>Requests and errors\<close>

text \<open>Header names are in lower case.  \<open>rq_client\<close> is the peer of the connection.\<close>

record web_request =
  rq_method :: string
  rq_path :: string
  rq_scheme :: string
  rq_headers :: "(string, string) dict"
  rq_cookies :: "(string, string) dict"
  rq_client :: "string option"

definition header :: "web_request \<Rightarrow> string \<Rightarrow> string" where
  "header rq k = the_default [] (map_of (rq_headers rq) k)"

definition cookie :: "web_request \<Rightarrow> string \<Rightarrow> string" where
  "cookie rq k = the_default [] (map_of (rq_cookies rq) k)"

text \<open>Status and detail of an \<open>HTTPException\<close>; \<open>TooMany\<close> is status 429 with its \<open>Retry-After\<close>; a crash
  is the 500 of an exception nobody catches.\<close>

datatype http_error = HTTPException int string | TooMany int string | Crash string

section \<open>The client address\<close>

definition trusted_networks :: "settings \<Rightarrow> network list option" where
  "trusted_networks st = those (map ip_network (comma_values (TRUSTED_PROXY_CIDRS st)))"

text \<open>From the peer through the reversed chain, as long as the address at hand is trusted.\<close>

fun walk_back :: "(ip \<Rightarrow> bool) \<Rightarrow> ip \<Rightarrow> ip list \<Rightarrow> ip" where
  "walk_back trusted current [] = current"
| "walk_back trusted current (candidate # rest) =
     (if \<not> trusted current then current else walk_back trusted candidate rest)"

definition is_trusted :: "network list \<Rightarrow> ip \<Rightarrow> bool" where
  "is_trusted nets a \<longleftrightarrow> list_ex (in_network a) nets"

definition resolve_client_ip :: "settings \<Rightarrow> web_request \<Rightarrow> string" where
  "resolve_client_ip st rq =
     (let peer = the_default ''unknown'' (rq_client rq)
      in case (ip_address peer, trusted_networks st) of
          (Some peer_ip, Some trusted) \<Rightarrow>
            if trust_proxy st \<and> is_trusted trusted peer_ip \<and> header rq ''x-forwarded-for'' \<noteq> []
            then (case those (map (\<lambda>v. ip_address (strip v)) (split_on (CHR '','') (header rq ''x-forwarded-for''))) of
                    None \<Rightarrow> ''invalid-forwarded-address''
                  | Some chain \<Rightarrow> show_ip (walk_back (is_trusted trusted) peer_ip (rev chain)))
            else peer
        | _ \<Rightarrow> peer)"

section \<open>Passwords and sessions\<close>

text \<open>\<open>verify\<close> is \<open>pwd_context.verify\<close>, \<open>None\<close> an exception.  Strings are UTF-8 bytes here.\<close>

definition legacy_hash :: "string \<Rightarrow> bool" where
  "legacy_hash h \<longleftrightarrow> list_ex (\<lambda>p. is_prefix p h) [''$2a$'', ''$2b$'', ''$2x$'', ''$2y$'']"

definition verify_password :: "(string \<Rightarrow> string \<Rightarrow> bool option) \<Rightarrow> string \<Rightarrow> string \<Rightarrow> bool" where
  "verify_password verify password hashed =
     (if legacy_hash hashed \<and> length password > 72 then False
      else the_default False (verify password hashed))"

definition update_user :: "int \<Rightarrow> (user \<Rightarrow> user) \<Rightarrow> db \<Rightarrow> db" where
  "update_user uid f d = d\<lparr>d_users := map (\<lambda>u. if u_id u = uid then f u else u) (d_users d)\<rparr>"

definition user_by_id :: "db \<Rightarrow> int \<Rightarrow> user option" where
  "user_by_id d uid = find (\<lambda>u. u_id u = uid) (d_users d)"

definition increment_token_version :: "int \<Rightarrow> db \<Rightarrow> http_error + db" where
  "increment_token_version uid d =
     (if length (filter (\<lambda>u. u_id u = uid) (d_users d)) \<noteq> 1
      then Inl (Crash ''cannot revoke sessions for a missing user'')
      else Inr (update_user uid (\<lambda>u. u\<lparr>u_token_version := u_token_version u + 1\<rparr>) d))"

section \<open>Login origins\<close>

definition has_bearer_authorization :: "web_request \<Rightarrow> bool" where
  "has_bearer_authorization rq \<longleftrightarrow>
     (case partition_on (CHR '' '') (header rq ''authorization'') of
        (sch, sep, credential) \<Rightarrow> sep \<and> casefold sch = ''bearer'' \<and> strip credential \<noteq> [])"

definition cross_site :: http_error where
  "cross_site = HTTPException 403 ''Cross-site login is not allowed''"

text \<open>\<open>p.port or d\<close>.\<close>

definition port_or :: "int \<Rightarrow> int option \<Rightarrow> int" where
  "port_or d n = (case n of Some k \<Rightarrow> if k \<noteq> 0 then k else d | None \<Rightarrow> d)"

definition origin_mismatch :: "settings \<Rightarrow> url \<Rightarrow> int option \<Rightarrow> url \<Rightarrow> int option \<Rightarrow> bool" where
  "origin_mismatch st origin origin_port target target_port \<longleftrightarrow>
     (let usual = (if scheme origin = ''https'' then 443 else 80)
      in scheme origin \<notin> {''http'', ''https''}
       \<or> has_credentials origin
       \<or> url_path origin \<notin> {[], ''/''} \<or> url_query origin \<noteq> [] \<or> fragment origin \<noteq> []
       \<or> hostname target = [] \<or> has_credentials target
       \<or> url_path target \<noteq> [] \<or> url_query target \<noteq> [] \<or> fragment target \<noteq> []
       \<or> casefold (hostname origin) \<noteq> casefold (hostname target)
       \<or> (target_port \<noteq> None \<and> Some (port_or usual origin_port) \<noteq> target_port)
       \<or> (target_port = None \<and> origin_port \<noteq> None \<and> origin_port \<noteq> Some usual)
       \<or> (scheme origin \<noteq> ''https'' \<and> \<not> allow_insecure_http st))"

definition enforce_login_origin :: "settings \<Rightarrow> web_request \<Rightarrow> http_error + unit" where
  "enforce_login_origin st rq =
     (if casefold (header rq ''sec-fetch-site'') = ''cross-site'' then Inl cross_site
      else let origin = strip (header rq ''origin'')
        in if origin = [] then Inr ()
           else case (urlsplit origin, urlsplit (''//'' @ header rq ''host'')) of
               (Some o_url, Some t_url) \<Rightarrow>
                 (case (url_port o_url, url_port t_url) of
                    (Some o_port, Some t_port) \<Rightarrow>
                      if origin_mismatch st o_url o_port t_url t_port then Inl cross_site else Inr ()
                  | _ \<Rightarrow> Inl (HTTPException 403 ''Invalid login origin''))
             | _ \<Rightarrow> Inl (HTTPException 403 ''Invalid login origin''))"

section \<open>Step-up verification\<close>

text \<open>The limiter of step-up verifications is an instance of its own.\<close>

definition step_up_bucket :: "user \<Rightarrow> string \<Rightarrow> string" where
  "step_up_bucket u purpose = u_username u @ '':'' @ purpose"

definition check_step_up_limit ::
    "settings \<Rightarrow> rat \<Rightarrow> limiter \<Rightarrow> web_request \<Rightarrow> user \<Rightarrow> string \<Rightarrow> http_error + (string \<times> string)" where
  "check_step_up_limit st now step_up rq u purpose =
     (let ip = resolve_client_ip st rq; bucket = step_up_bucket u purpose
      in case check step_up now ip bucket of
          (False, retry) \<Rightarrow> Inl (TooMany (max 1 retry) ''Too many verification failures; retry later'')
        | (True, _) \<Rightarrow> Inr (ip, bucket))"

section \<open>Tokens\<close>

text \<open>The claims of a token.  After decoding a claim may be missing or of another type; both are
  \<open>None\<close>.  Times are in seconds.\<close>

record claims =
  c_sub :: "string option"
  c_uid :: "int option"
  c_aid :: "string option"
  c_ver :: "int option"
  c_mfa :: bool
  c_iat :: int
  c_jti :: string
  c_iss :: string
  c_aud :: string
  c_exp :: int

definition create_access_token ::
    "(string \<Rightarrow> string) \<Rightarrow> (claims \<Rightarrow> string \<Rightarrow> string) \<Rightarrow> settings \<Rightarrow> time \<Rightarrow> string \<Rightarrow> user \<Rightarrow> bool \<Rightarrow> int \<Rightarrow> string" where
  "create_access_token sha256_hex jwt_encode st now jti u mfa_verified version =
     jwt_encode
       \<lparr>c_sub = Some (u_username u), c_uid = Some (u_id u), c_aid = Some (u_auth_id u), c_ver = Some version,
        c_mfa = mfa_verified, c_iat = now div seconds 1, c_jti = jti, c_iss = JWT_ISSUER st,
        c_aud = JWT_AUDIENCE st, c_exp = (now + minutes (ACCESS_TOKEN_EXPIRE_MINUTES st)) div seconds 1\<rparr>
       (jwt_signing_key sha256_hex st)"

text \<open>\<open>jwt_decode now token key issuer audience\<close>: \<open>None\<close> when the signature, the time or a required
  claim is wrong.\<close>

definition decode_token ::
    "(string \<Rightarrow> string) \<Rightarrow> (time \<Rightarrow> string \<Rightarrow> string \<Rightarrow> string \<Rightarrow> string \<Rightarrow> claims option) \<Rightarrow> settings \<Rightarrow>
     time \<Rightarrow> string \<Rightarrow> claims option" where
  "decode_token sha256_hex jwt_decode st now token =
     jwt_decode now token (jwt_signing_key sha256_hex st) (JWT_ISSUER st) (JWT_AUDIENCE st)"

section \<open>The credential keyring\<close>

text \<open>\<open>sha\<close> and \<open>b64\<close> make the Fernet key, \<open>enc\<close> and \<open>dec\<close> are Fernet's.\<close>

record fernet =
  sha256 :: "string \<Rightarrow> string"
  urlsafe_b64 :: "string \<Rightarrow> string"
  fernet_encrypt :: "string \<Rightarrow> string \<Rightarrow> string"
  fernet_decrypt :: "string \<Rightarrow> string \<Rightarrow> string option"

definition derive_key :: "fernet \<Rightarrow> string \<Rightarrow> string" where
  "derive_key fer secret = urlsafe_b64 fer (sha256 fer (secret @ ''|ssh-secret''))"

definition encrypt_text :: "fernet \<Rightarrow> settings \<Rightarrow> string \<Rightarrow> http_error + string" where
  "encrypt_text fer st plain =
     (if plain = [] then Inr []
      else case credential_encryption_keys st of
          [] \<Rightarrow> Inl (Crash ''credential encryption key is not configured'')
        | key # _ \<Rightarrow> Inr (fernet_encrypt fer (derive_key fer key) plain))"

text \<open>\<open>Inl\<close> is \<open>CredentialDecryptionError\<close>.\<close>

fun first_decryption :: "fernet \<Rightarrow> string \<Rightarrow> string list \<Rightarrow> string option" where
  "first_decryption fer token [] = None"
| "first_decryption fer token (key # older) =
     (case fernet_decrypt fer (derive_key fer key) token of
        Some plain \<Rightarrow> Some plain
      | None \<Rightarrow> first_decryption fer token older)"

definition decrypt_text :: "fernet \<Rightarrow> settings \<Rightarrow> string \<Rightarrow> http_error + string" where
  "decrypt_text fer st token =
     (if token = [] then Inr []
      else case first_decryption fer token (credential_encryption_keys st) of
          Some plain \<Rightarrow> Inr plain
        | None \<Rightarrow> Inl (Crash ''CredentialDecryptionError''))"

section \<open>Cookies and CSRF\<close>

record cookie_set =
  ck_name :: string
  ck_value :: string
  ck_max_age :: int
  ck_httponly :: bool
  ck_secure :: bool
  ck_samesite :: string
  ck_path :: string

definition ACCESS_COOKIE :: string where "ACCESS_COOKIE = ''gpumon_access''"
definition CSRF_COOKIE :: string where "CSRF_COOKIE = ''gpumon_csrf''"

definition same_site :: "settings \<Rightarrow> string" where
  "same_site st =
     (let v = lower (COOKIE_SAMESITE st) in if v \<in> {''strict'', ''lax'', ''none''} then v else ''strict'')"

definition set_auth_cookies :: "settings \<Rightarrow> string \<Rightarrow> string \<Rightarrow> cookie_set list" where
  "set_auth_cookies st csrf token =
     (let max_age = ACCESS_TOKEN_EXPIRE_MINUTES st * 60
      in [\<lparr>ck_name = ACCESS_COOKIE, ck_value = token, ck_max_age = max_age, ck_httponly = True,
           ck_secure = cookie_secure st, ck_samesite = same_site st, ck_path = ''/''\<rparr>,
          \<lparr>ck_name = CSRF_COOKIE, ck_value = csrf, ck_max_age = max_age, ck_httponly = False,
           ck_secure = cookie_secure st, ck_samesite = same_site st, ck_path = ''/''\<rparr>])"

text \<open>\<open>delete_cookie\<close> sets an empty value that is already over.\<close>

definition clear_auth_cookies :: "settings \<Rightarrow> cookie_set list" where
  "clear_auth_cookies st =
     [\<lparr>ck_name = ACCESS_COOKIE, ck_value = [], ck_max_age = 0, ck_httponly = True,
       ck_secure = cookie_secure st, ck_samesite = ''lax'', ck_path = ''/''\<rparr>,
      \<lparr>ck_name = CSRF_COOKIE, ck_value = [], ck_max_age = 0, ck_httponly = False,
       ck_secure = cookie_secure st, ck_samesite = ''lax'', ck_path = ''/''\<rparr>]"

definition valid_csrf :: "web_request \<Rightarrow> bool" where
  "valid_csrf rq \<longleftrightarrow> cookie rq CSRF_COOKIE \<noteq> [] \<and> header rq ''x-csrf-token'' \<noteq> [] \<and>
     cookie rq CSRF_COOKIE = header rq ''x-csrf-token''"

section \<open>One-time codes\<close>

text \<open>Base 32 by groups of 40 bits: five bytes are eight letters.\<close>

definition B32_ALPHABET :: string where "B32_ALPHABET = ''ABCDEFGHIJKLMNOPQRSTUVWXYZ234567''"

definition b32_value :: "char \<Rightarrow> nat option" where
  "b32_value c = map_option fst (find (\<lambda>(i, d). d = c) (List.enumerate 0 B32_ALPHABET))"

fun chunks :: "nat \<Rightarrow> nat \<Rightarrow> 'a list \<Rightarrow> 'a list list" where
  "chunks 0 n xs = []"
| "chunks (Suc fuel) n xs = (if xs = [] then [] else take n xs # chunks fuel n (drop n xs))"

definition b32_group :: "nat list \<Rightarrow> string" where
  "b32_group bytes = map ((!) B32_ALPHABET) (split_parts 5 8 (join_parts 8 bytes :: 40 word))"

text \<open>\<open>b32encode(bytes).rstrip("=")\<close> of a whole number of groups.\<close>

definition b32encode :: "nat list \<Rightarrow> string" where
  "b32encode bytes = concat (map b32_group (chunks (length bytes) 5 bytes))"

definition b32_ungroup :: "nat list \<Rightarrow> nat list" where
  "b32_ungroup vals =
     take (length vals * 5 div 8)
       (split_parts 8 5 (join_parts 5 (vals @ replicate (8 - length vals) 0) :: 40 word))"

text \<open>\<open>b32decode(s, casefold=True)\<close>; \<open>None\<close> is \<open>binascii.Error\<close>.\<close>

definition upper_char :: "char \<Rightarrow> char" where
  "upper_char c = (if 97 \<le> code c \<and> code c \<le> 122 then char_of (code c - 32) else c)"

definition b32decode :: "string \<Rightarrow> nat list option" where
  "b32decode s0 =
     (let s = map upper_char s0; body = rev (dropWhile (\<lambda>c. c = CHR ''='') (rev s)); pad = length s - length body
      in if length s mod 8 \<noteq> 0 \<or> pad \<notin> {0, 1, 3, 4, 6} then None
         else map_option (\<lambda>vals. concat (map b32_ungroup (chunks (length vals) 8 vals))) (those (map b32_value body)))"

text \<open>\<open>random\<close> are the 20 bytes of \<open>os.urandom\<close>.\<close>

definition new_totp_secret :: "nat list \<Rightarrow> string" where
  "new_totp_secret random = b32encode random"

text \<open>\<open>struct.pack(">Q", counter)\<close>.\<close>

definition counter_bytes :: "int \<Rightarrow> nat list" where
  "counter_bytes counter = split_parts 8 8 (of_int counter :: 64 word)"

definition padded_secret :: "string \<Rightarrow> string" where
  "padded_secret secret = map upper_char secret @ replicate ((8 - length secret mod 8) mod 8) (CHR ''='')"

fun zero_pad :: "nat \<Rightarrow> nat \<Rightarrow> string" where
  "zero_pad 0 n = []"
| "zero_pad (Suc width) n = zero_pad width (n div 10) @ [char_of (48 + n mod 10)]"

text \<open>Dynamic truncation: four bytes at the offset the last nibble names, without the top bit.\<close>

definition truncated :: "nat list \<Rightarrow> nat" where
  "truncated digest =
     (let offset = last digest mod 16
      in unat ((join_parts 8 (take 4 (drop offset digest)) :: 32 word) AND 0x7FFFFFFF))"

definition totp_at :: "(nat list \<Rightarrow> nat list \<Rightarrow> nat list) \<Rightarrow> string \<Rightarrow> int \<Rightarrow> string option" where
  "totp_at hmac_sha1 secret counter =
     map_option (\<lambda>key. zero_pad 6 (truncated (hmac_sha1 key (counter_bytes counter)) mod 1000000))
       (b32decode (padded_secret secret))"

text \<open>The first counter that fits; the outer \<open>Inl\<close> is the exception of an undecodable secret.\<close>

fun matching_counter :: "(int \<Rightarrow> string option) \<Rightarrow> int \<Rightarrow> string \<Rightarrow> int list \<Rightarrow> http_error + int option" where
  "matching_counter code_at last_counter given [] = Inr None"
| "matching_counter code_at last_counter given (c # cs) =
     (if c > last_counter
      then case code_at c of
          None \<Rightarrow> Inl (Crash ''binascii.Error'')
        | Some expected \<Rightarrow> if expected = given then Inr (Some c) else matching_counter code_at last_counter given cs
      else matching_counter code_at last_counter given cs)"

definition verify_totp ::
    "(nat list \<Rightarrow> nat list \<Rightarrow> nat list) \<Rightarrow> time \<Rightarrow> string \<Rightarrow> string \<Rightarrow> int \<Rightarrow> http_error + int option" where
  "verify_totp hmac_sha1 now secret given last_counter =
     (if length given \<noteq> 6 \<or> \<not> list_all is_digit given then Inr None
      else let current = now div seconds 1 div 30
        in matching_counter (totp_at hmac_sha1 secret) last_counter given [current, current - 1, current + 1])"

text \<open>\<open>quote(s, safe="")\<close> and the provisioning URI.\<close>

definition quote_char :: "char \<Rightarrow> string" where
  "quote_char c =
     (if is_alpha c \<or> is_digit c \<or> c \<in> set ''_.-~'' then [c]
      else CHR ''%'' # map (\<lambda>k. char_of (if k < 10 then 48 + k else 55 + k)) [code c div 16, code c mod 16])"

definition url_quote :: "string \<Rightarrow> string" where
  "url_quote s = concat (map quote_char s)"

definition totp_uri :: "settings \<Rightarrow> string \<Rightarrow> string \<Rightarrow> string" where
  "totp_uri st username secret =
     ''otpauth://totp/'' @ url_quote (APP_NAME st @ '':'' @ username) @ ''?secret='' @ secret @ ''&issuer='' @
     url_quote (APP_NAME st) @ ''&algorithm=SHA1&digits=6&period=30''"

section \<open>Authenticating a request\<close>

definition invalid_token :: http_error where
  "invalid_token = HTTPException 401 ''Invalid or expired token''"

text \<open>\<open>bearer\<close> is what the framework read from the \<open>Authorization\<close> header; \<open>decode\<close> is
  \<open>decode_token\<close> at the moment of the request.  The result is the user and \<open>auth_mfa\<close>.\<close>

definition get_current_user ::
    "(string \<Rightarrow> claims option) \<Rightarrow> web_request \<Rightarrow> string option \<Rightarrow> db \<Rightarrow> http_error + (user \<times> bool)" where
  "get_current_user decode rq bearer d =
     (let bearer_token = the_default [] bearer
      in if strip (header rq ''authorization'') \<noteq> [] \<and> bearer_token = [] then Inl invalid_token
         else let token = (if bearer_token \<noteq> [] then bearer_token else cookie rq ACCESS_COOKIE)
           in if token = [] then Inl invalid_token
              else case decode token of
                  None \<Rightarrow> Inl invalid_token
                | Some payload \<Rightarrow>
                    (case (c_sub payload, c_uid payload) of
                       (Some username, Some uid) \<Rightarrow>
                         (case user_by_id d uid of
                            None \<Rightarrow> Inl invalid_token
                          | Some u \<Rightarrow>
                              if \<not> u_is_active u \<or> u_username u \<noteq> username \<or> c_aid payload \<noteq> Some (u_auth_id u)
                                 \<or> c_ver payload \<noteq> Some (u_token_version u)
                              then Inl invalid_token
                              else Inr (u, c_mfa payload))
                     | _ \<Rightarrow> Inl invalid_token))"

definition require_admin :: "settings \<Rightarrow> user \<times> bool \<Rightarrow> http_error + user" where
  "require_admin st session =
     (case session of (u, auth_mfa) \<Rightarrow>
        if \<not> is_admin u then Inl (HTTPException 403 ''Admin role required'')
        else if require_admin_mfa st \<and> \<not> mfa_enrolled u
        then Inl (HTTPException 403 ''Administrator MFA enrollment required'')
        else if require_admin_mfa st \<and> \<not> auth_mfa
        then Inl (HTTPException 403 ''Administrator MFA verification required'')
        else Inr u)"

section \<open>A forged header does not choose the address\<close>

lemma walk_back_suffix:
  "list_all trusted proxies \<Longrightarrow> trusted peer \<Longrightarrow> \<not> trusted c \<Longrightarrow>
     walk_back trusted peer (proxies @ c # forged) = c"
  by (induction proxies arbitrary: peer) (cases forged; auto)+

lemma those_append: "those (xs @ ys) =
    (case (those xs, those ys) of (Some a, Some b) \<Rightarrow> Some (a @ b) | _ \<Rightarrow> None)"
  by (induction xs) (auto split: option.splits)

lemma those_map_Some [simp]: "those (map Some ys) = Some ys"
  by (induction ys) auto


definition proxied :: settings where
  "proxied = default_settings\<lparr>TRUST_PROXY := ''yes''\<rparr>"

definition forwarded :: "string \<Rightarrow> string \<Rightarrow> web_request" where
  "forwarded peer chain =
     \<lparr>rq_method = ''POST'', rq_path = ''/api/auth/login'', rq_scheme = ''http'',
      rq_headers = [(''x-forwarded-for'', chain)], rq_cookies = [], rq_client = Some peer\<rparr>"


section \<open>The keyring\<close>

lemma first_decryption_found:
  assumes "k \<in> set ks" and "fernet_decrypt fer (derive_key fer k) tok = Some plain"
    and "\<And>s. s \<in> set ks \<Longrightarrow> derive_key fer s \<noteq> derive_key fer k \<Longrightarrow> fernet_decrypt fer (derive_key fer s) tok = None"
  shows "first_decryption fer tok ks = Some plain"
  using assms(1,3)
proof (induction ks)
  case (Cons s ks)
  show ?case
  proof (cases "derive_key fer s = derive_key fer k")
    case True
    then show ?thesis using assms(2) by simp
  next
    case False
    then have "fernet_decrypt fer (derive_key fer s) tok = None" using Cons.prems(2) by simp
    moreover have "k \<in> set ks" using False Cons.prems(1) by auto
    ultimately show ?thesis using Cons by simp
  qed
qed simp

text \<open>
  Keys can be rotated: a text encrypted under the first key of one keyring is read back under every
  keyring that still holds that key, at whatever place, provided Fernet reads what it wrote under a
  key and refuses it under the other keys of the ring.
\<close>

theorem rotated_keyring_decrypts:
  assumes "credential_encryption_keys st = key # others" and "key \<in> set (credential_encryption_keys st')"
    and "fernet_decrypt fer (derive_key fer key) (fernet_encrypt fer (derive_key fer key) plain) = Some plain"
    and "\<And>s. s \<in> set (credential_encryption_keys st') \<Longrightarrow> derive_key fer s \<noteq> derive_key fer key \<Longrightarrow>
      fernet_decrypt fer (derive_key fer s) (fernet_encrypt fer (derive_key fer key) plain) = None"
    and "fernet_encrypt fer (derive_key fer key) plain \<noteq> []"
    and "encrypt_text fer st plain = Inr tok"
  shows "decrypt_text fer st' tok = Inr plain"
proof (cases "plain = []")
  case True
  then show ?thesis using assms(6) by (simp add: encrypt_text_def decrypt_text_def)
next
  case False
  then have tok: "tok = fernet_encrypt fer (derive_key fer key) plain"
    using assms(1,6) by (simp add: encrypt_text_def)
  have "first_decryption fer tok (credential_encryption_keys st') = Some plain"
    unfolding tok using assms(2-4) by (rule first_decryption_found)
  then show ?thesis using assms(5) by (simp add: decrypt_text_def tok)
qed

text \<open>A cipher for the witness: the first letter of the key in front of the text.\<close>

definition tagging :: fernet where
  "tagging = \<lparr>sha256 = (\<lambda>s. s), urlsafe_b64 = (\<lambda>s. s),
     fernet_encrypt = (\<lambda>k p. take 1 k @ p),
     fernet_decrypt = (\<lambda>k t. if t \<noteq> [] \<and> take 1 k = take 1 t then Some (tl t) else None)\<rparr>"

definition ring :: "string \<Rightarrow> settings" where
  "ring values = default_settings\<lparr>CREDENTIAL_ENCRYPTION_KEYS := values\<rparr>"

theorem rotated_keyring_decrypts_witness:
  "decrypt_text tagging (ring ''new, old'') ''opw'' = Inr ''pw''"
proof (rule rotated_keyring_decrypts [of "ring ''old''" "''old''" "[]"])
  show "credential_encryption_keys (ring ''old'') = ''old'' # []" by code_simp
  have new: "credential_encryption_keys (ring ''new, old'') = [''new'', ''old'']" by code_simp
  then show "''old'' \<in> set (credential_encryption_keys (ring ''new, old''))" by simp
  show "fernet_decrypt tagging (derive_key tagging ''old'')
      (fernet_encrypt tagging (derive_key tagging ''old'') ''pw'') = Some ''pw''"
    by (simp add: tagging_def derive_key_def)
  show "fernet_encrypt tagging (derive_key tagging ''old'') ''pw'' \<noteq> []"
    by (simp add: tagging_def derive_key_def)
  show "encrypt_text tagging (ring ''old'') ''pw'' = Inr ''opw''" by code_simp
  show "fernet_decrypt tagging (derive_key tagging s)
      (fernet_encrypt tagging (derive_key tagging ''old'') ''pw'') = None"
    if "s \<in> set (credential_encryption_keys (ring ''new, old''))" "derive_key tagging s \<noteq> derive_key tagging ''old''" for s
    using that by (auto simp: new tagging_def derive_key_def)
qed

section \<open>One-time codes\<close>

lemma matching_counter_Some:
  "matching_counter code_at last_counter given cs = Inr (Some c) \<Longrightarrow>
     c \<in> set cs \<and> last_counter < c \<and> code_at c = Some given"
  by (induction cs) (auto split: if_splits option.splits)

lemma verify_totp_Some:
  assumes "verify_totp hmac_sha1 now secret given last_counter = Inr (Some c)"
  shows "last_counter < c \<and> \<bar>c - now div seconds 1 div 30\<bar> \<le> 1 \<and> totp_at hmac_sha1 secret c = Some given"
proof -
  let ?now = "now div seconds 1 div 30"
  have "matching_counter (totp_at hmac_sha1 secret) last_counter given [?now, ?now - 1, ?now + 1] = Inr (Some c)"
    using assms by (simp add: verify_totp_def Let_def split: if_splits)
  from matching_counter_Some [OF this] show ?thesis by auto
qed

lemma b32_letters: "n < 32 \<Longrightarrow> b32_value (B32_ALPHABET ! n) = Some n \<and>
    upper_char (B32_ALPHABET ! n) = B32_ALPHABET ! n \<and> B32_ALPHABET ! n \<noteq> CHR ''=''"
proof -
  have "list_all (\<lambda>n. b32_value (B32_ALPHABET ! n) = Some n \<and>
    upper_char (B32_ALPHABET ! n) = B32_ALPHABET ! n \<and> B32_ALPHABET ! n \<noteq> CHR ''='') [0 ..< 32]" by code_simp
  then show "n < 32 \<Longrightarrow> ?thesis" by (simp add: list_all_iff)
qed

definition quints :: "nat list \<Rightarrow> nat list" where
  "quints bytes = split_parts 5 8 (join_parts 8 bytes :: 40 word)"

lemma quints_small: "q \<in> set (quints bytes) \<Longrightarrow> q < 32"
  using split_parts_small [where k = 5] by (fastforce simp: quints_def)

lemma length_quints [simp]: "length (quints bytes) = 8"
  by (simp add: quints_def)

lemma ungroup_quints:
  assumes "length bytes = 5" and "list_all (\<lambda>b. b < 256) bytes"
  shows "b32_ungroup (quints bytes) = bytes"
proof -
  have "take_bit 40 (join_parts 8 bytes :: 40 word) = join_parts 8 bytes"
    by (rule bit_word_eqI) (simp add: bit_take_bit_iff)
  then have "(join_parts 5 (quints bytes) :: 40 word) = join_parts 8 bytes"
    by (simp add: quints_def join_split_parts)
  then show ?thesis using split_join_parts [of 8 bytes, where ?'a = 40] assms
    by (simp add: b32_ungroup_def)
qed

lemma chunks_append:
  "length xs = n \<Longrightarrow> 0 < n \<Longrightarrow> chunks (Suc fuel) n (xs @ ys) = xs # chunks fuel n ys"
  by auto

lemma chunks_fuel:
  "0 < n \<Longrightarrow> length xs \<le> f \<Longrightarrow> length xs \<le> g \<Longrightarrow> chunks f n xs = chunks g n xs"
proof (induction f arbitrary: g xs)
  case (Suc f)
  then obtain g' where "xs = [] \<or> g = Suc g'" by (cases g) auto
  moreover have "chunks f n (drop n xs) = chunks g' n (drop n xs)" if "g = Suc g'"
    using Suc.prems that by (intro Suc.IH) auto
  ultimately show ?case by (cases g) auto
next
  case 0
  then show ?case by (cases g) auto
qed

lemma chunks_Cons:
  assumes "length xs = n" and "0 < n"
  shows "chunks (length (xs @ ys)) n (xs @ ys) = xs # chunks (length ys) n ys"
proof -
  obtain f where f: "length (xs @ ys) = Suc f" using assms by (cases "length (xs @ ys)") auto
  have "chunks f n ys = chunks (length ys) n ys" using assms f by (intro chunks_fuel) auto
  then show ?thesis using assms unfolding f by (auto simp: f)
qed

lemma b32_groups:
  assumes "length bytes = 5 * m" and "list_all (\<lambda>b. b < 256) bytes"
  shows "\<exists>vals. b32encode bytes = map ((!) B32_ALPHABET) vals \<and> length vals = 8 * m \<and> list_all (\<lambda>q. q < 32) vals \<and>
    concat (map b32_ungroup (chunks (length vals) 8 vals)) = bytes"
  using assms
proof (induction m arbitrary: bytes)
  case 0
  then show ?case by (simp add: b32encode_def)
next
  case (Suc m)
  define g rest where gr: "g = take 5 bytes" "rest = drop 5 bytes"
  have split: "bytes = g @ rest" "length g = 5" "length rest = 5 * m" using Suc.prems(1) by (simp_all add: gr)
  have small: "list_all (\<lambda>b. b < 256) g" "list_all (\<lambda>b. b < 256) rest" using Suc.prems(2) by (simp_all add: split(1))
  obtain vals where v: "b32encode rest = map ((!) B32_ALPHABET) vals" "length vals = 8 * m"
    "list_all (\<lambda>q. q < 32) vals" "concat (map b32_ungroup (chunks (length vals) 8 vals)) = rest"
    using Suc.IH [OF split(3) small(2)] by blast
  have "b32encode bytes = map ((!) B32_ALPHABET) (quints g @ vals)"
    using chunks_Cons [of g 5 rest] v(1) by (simp add: b32encode_def split b32_group_def quints_def)
  moreover have "concat (map b32_ungroup (chunks (length (quints g @ vals)) 8 (quints g @ vals))) = bytes"
    using chunks_Cons [of "quints g" 8 vals] v(4) ungroup_quints [OF split(2) small(1)] by (simp add: split(1))
  moreover have "list_all (\<lambda>q. q < 32) (quints g @ vals)" using v(3) quints_small by (auto simp: list_all_iff)
  ultimately show ?case using v(2) by (intro exI [of _ "quints g @ vals"]) simp
qed

lemma dropWhile_absent: "c \<notin> set xs \<Longrightarrow> dropWhile (\<lambda>x. x = c) xs = xs"
  by (cases xs) auto

lemma those_b32: "list_all (\<lambda>q. q < 32) vals \<Longrightarrow> those (map b32_value (map ((!) B32_ALPHABET) vals)) = Some vals"
  by (induction vals) (auto simp: b32_letters)

text \<open>
  A new TOTP seed is the 32 letters that the code generator turns back into the 20 random bytes: no
  padding is missing and no byte is changed.
\<close>

theorem totp_secret_round_trip:
  assumes "length random = 20" and "list_all (\<lambda>b. b < 256) random"
  shows "length (new_totp_secret random) = 32 \<and> b32decode (padded_secret (new_totp_secret random)) = Some random"
proof -
  obtain vals where v: "b32encode random = map ((!) B32_ALPHABET) vals" "length vals = 32" "list_all (\<lambda>q. q < 32) vals"
    "concat (map b32_ungroup (chunks (length vals) 8 vals)) = random"
    using b32_groups [of random 4] assms by auto
  let ?s = "map ((!) B32_ALPHABET) vals"
  have up: "map upper_char ?s = ?s" using v(3) b32_letters by (auto simp: list_all_iff)
  have "CHR ''='' \<notin> set ?s"
  proof
    assume "CHR ''='' \<in> set ?s"
    then obtain q where "q \<in> set vals" "B32_ALPHABET ! q = CHR ''=''" by auto
    then show False using v(3) b32_letters [of q] by (auto simp: list_all_iff)
  qed
  then have "dropWhile (\<lambda>c. c = CHR ''='') (rev ?s) = rev ?s"
    using dropWhile_absent [of "CHR ''=''" "rev ?s"] unfolding set_rev by blast
  then have "b32decode ?s = Some random"
    using v(2,4) by (simp add: b32decode_def up Let_def those_b32 [OF v(3)] del: map_map)
  moreover have "padded_secret ?s = ?s" unfolding padded_secret_def up using v(2) by simp
  ultimately show ?thesis using v(2) by (simp add: new_totp_secret_def v(1))
qed

theorem totp_secret_round_trip_witness:
  "b32decode (padded_secret (new_totp_secret (replicate 20 255))) = Some (replicate 20 255)"
proof -
  have "length (replicate 20 (255 :: nat)) = 20" "list_all (\<lambda>b. b < 256) (replicate 20 (255 :: nat))"
    by code_simp+
  from totp_secret_round_trip [OF this] show ?thesis by (rule conjunct2)
qed

end
