(* ===== verification/Accounts.thy ===== *)
theory Accounts
  imports Security
begin

text \<open>
  \<open>backend/app/api/auth.py\<close> and \<open>backend/app/api/users.py\<close>: every endpoint, on the database, the
  login limiter and the step-up limiter.  A handler reads its user when the request is
  authenticated; where the code then updates conditionally, \<open>between\<close> is what other requests
  commit in the meantime (the identity for a request that runs alone).
\<close>

section \<open>State, inputs and results\<close>

record accounts =
  a_db :: db
  a_login :: limiter
  a_step_up :: limiter

text \<open>What a deployment fixes: the settings and the code outside the repository.\<close>

record deployment =
  dp_settings :: settings
  dp_verify :: "string \<Rightarrow> string \<Rightarrow> bool option"
  dp_hash :: "string \<Rightarrow> string"
  dp_fernet :: fernet
  dp_hmac :: "nat list \<Rightarrow> nat list \<Rightarrow> nat list"
  dp_sha256_hex :: "string \<Rightarrow> string"
  dp_jwt_encode :: "claims \<Rightarrow> string \<Rightarrow> string"
  dp_jwt_decode :: "time \<Rightarrow> string \<Rightarrow> string \<Rightarrow> string \<Rightarrow> string \<Rightarrow> claims option"

text \<open>What one request finds: the time, whether the audit row can be committed, random texts and
  bytes, and the concurrent commits.\<close>

record inputs =
  i_now :: time
  i_audit_ok :: bool
  i_jti :: string
  i_csrf :: string
  i_auth_id :: string
  i_random :: "nat list"
  i_between :: "db \<Rightarrow> db"

record reply =
  rp_token :: string
  rp_cookies :: "cookie_set list"
  rp_user :: "user option"
  rp_secret :: string
  rp_uri :: string

definition ok_reply :: reply where
  "ok_reply = \<lparr>rp_token = [], rp_cookies = [], rp_user = None, rp_secret = [], rp_uri = []\<rparr>"

type_synonym 'a handled = "(http_error + 'a) \<times> accounts"

definition clock :: "inputs \<Rightarrow> rat" where
  "clock inp = of_int (i_now inp) / 1000000"

definition audit :: "inputs \<Rightarrow> string \<Rightarrow> string \<Rightarrow> string \<Rightarrow> db \<Rightarrow> db" where
  "audit inp username action detail d =
     (if i_audit_ok inp
      then d\<lparr>d_audit := d_audit d @ [\<lparr>a_ts = i_now inp, a_username = username, a_action = action, a_detail = take 500 detail\<rparr>]\<rparr>
      else d)"

definition audited :: "inputs \<Rightarrow> string \<Rightarrow> string \<Rightarrow> string \<Rightarrow> accounts \<Rightarrow> accounts" where
  "audited inp username action detail s = s\<lparr>a_db := audit inp username action detail (a_db s)\<rparr>"

definition issue_token :: "deployment \<Rightarrow> inputs \<Rightarrow> user \<Rightarrow> bool \<Rightarrow> int \<Rightarrow> string" where
  "issue_token dp inp u mfa version =
     create_access_token (dp_sha256_hex dp) (dp_jwt_encode dp) (dp_settings dp) (i_now inp) (i_jti inp) u mfa version"

definition session_reply :: "deployment \<Rightarrow> inputs \<Rightarrow> user \<Rightarrow> string \<Rightarrow> reply" where
  "session_reply dp inp u token =
     ok_reply\<lparr>rp_token := token, rp_cookies := set_auth_cookies (dp_settings dp) (i_csrf inp) token, rp_user := Some u\<rparr>"

section \<open>Logging in\<close>

definition INVALID_CREDENTIALS_DETAIL :: string where
  "INVALID_CREDENTIALS_DETAIL = ''Incorrect username, password, or MFA code''"

text \<open>The conditional update: \<open>None\<close> when the counter or the version has moved.\<close>

definition commit_mfa_transition :: "user \<Rightarrow> (user \<Rightarrow> user) \<Rightarrow> db \<Rightarrow> db option" where
  "commit_mfa_transition observed change d =
     (if length (filter (\<lambda>u. u_id u = u_id observed \<and> u_mfa_last_counter u = u_mfa_last_counter observed
            \<and> u_token_version u = u_token_version observed) (d_users d)) \<noteq> 1 then None
      else Some (d\<lparr>d_users := map (\<lambda>u. if u_id u = u_id observed \<and> u_mfa_last_counter u = u_mfa_last_counter observed
            \<and> u_token_version u = u_token_version observed then change u else u) (d_users d)\<rparr>))"

text \<open>The refusal of a login: the failure is counted and recorded.\<close>

definition refuse_login :: "inputs \<Rightarrow> string \<Rightarrow> string \<Rightarrow> string \<Rightarrow> accounts \<Rightarrow> 'a handled" where
  "refuse_login inp ip username action s =
     (Inl (HTTPException 401 INVALID_CREDENTIALS_DETAIL),
      audited inp username action (''ip='' @ ip) (s\<lparr>a_login := record_failure (clock inp) ip username (a_login s)\<rparr>))"

definition locked_detail :: "int \<Rightarrow> string" where
  "locked_detail retry =
     utf8 [229, 176, 157, 232, 175, 149, 230, 172, 161, 230, 149, 176, 232, 191, 135, 229, 164, 154, 229, 183, 178, 233, 148, 129, 229, 174, 154, 239, 188, 140, 232, 175, 183] @ '' '' @ show_int (retry div 60) @ '' '' @ utf8 [229, 136, 134] @ '' '' @ show_int (retry mod 60) @ '' '' @ utf8 [231, 167, 146, 229, 144, 142, 229, 134, 141, 232, 175, 149]"

definition needs_code :: "settings \<Rightarrow> user \<Rightarrow> bool" where
  "needs_code st u \<longleftrightarrow> is_admin u \<and> require_admin_mfa st \<and> mfa_enrolled u"

text \<open>The counter of a correct code; every exception counts as a wrong code.\<close>

definition login_counter :: "deployment \<Rightarrow> inputs \<Rightarrow> user \<Rightarrow> string \<Rightarrow> int option" where
  "login_counter dp inp u otp =
     (case decrypt_text (dp_fernet dp) (dp_settings dp) (u_mfa_secret u) of
        Inl _ \<Rightarrow> None
      | Inr secret \<Rightarrow>
          (case verify_totp (dp_hmac dp) (i_now inp) secret otp (u_mfa_last_counter u) of
             Inl _ \<Rightarrow> None
           | Inr c \<Rightarrow> c))"

definition finish_login :: "deployment \<Rightarrow> inputs \<Rightarrow> string \<Rightarrow> string \<Rightarrow> user \<Rightarrow> bool \<Rightarrow> accounts \<Rightarrow> reply handled" where
  "finish_login dp inp ip username u mfa s =
     (Inr (session_reply dp inp u (issue_token dp inp u mfa (u_token_version u))),
      audited inp (u_username u) ''login'' (''ip='' @ ip) (s\<lparr>a_login := record_success ip username (a_login s)\<rparr>))"

definition authenticate ::
    "deployment \<Rightarrow> inputs \<Rightarrow> web_request \<Rightarrow> string \<Rightarrow> string \<Rightarrow> string \<Rightarrow> accounts \<Rightarrow> reply handled" where
  "authenticate dp inp rq username password otp s =
     (let st = dp_settings dp; ip = resolve_client_ip st rq
      in case enforce_login_origin st rq of
          Inl e \<Rightarrow> (Inl e, s)
        | Inr _ \<Rightarrow>
            (case check (a_login s) (clock inp) ip username of
               (False, retry) \<Rightarrow> (Inl (TooMany (max 1 retry) (locked_detail retry)), s)
             | (True, _) \<Rightarrow>
                 (case find (\<lambda>u. u_username u = username) (d_users (a_db s)) of
                    None \<Rightarrow> refuse_login inp ip username ''login.failed'' s
                  | Some u \<Rightarrow>
                      if \<not> verify_password (dp_verify dp) password (u_password_hash u)
                      then refuse_login inp ip username ''login.failed'' s
                      else if \<not> u_is_active u then refuse_login inp ip username ''login.failed.disabled'' s
                      else if needs_code st u
                      then case login_counter dp inp u otp of
                          None \<Rightarrow> refuse_login inp ip username ''login.failed.mfa'' s
                        | Some counter \<Rightarrow>
                            (let s1 = s\<lparr>a_db := i_between inp (a_db s)\<rparr>
                             in case commit_mfa_transition u (\<lambda>u. u\<lparr>u_mfa_last_counter := counter\<rparr>) (a_db s1) of
                                 None \<Rightarrow> refuse_login inp ip username ''login.failed.mfa_replay'' s1
                               | Some d' \<Rightarrow> finish_login dp inp ip username u True (s1\<lparr>a_db := d'\<rparr>))
                      else finish_login dp inp ip username u False s)))"

text \<open>The two login endpoints differ in what their bodies may hold; 422 is the framework's answer.\<close>

definition unprocessable :: http_error where "unprocessable = HTTPException 422 ''validation error''"

definition login_form_ok :: "string \<Rightarrow> string \<Rightarrow> string \<Rightarrow> bool" where
  "login_form_ok username password otp \<longleftrightarrow>
     length username \<in> {1..64} \<and> length password \<in> {1..128} \<and> length otp \<le> 8"

definition login_form ::
    "deployment \<Rightarrow> inputs \<Rightarrow> web_request \<Rightarrow> string \<Rightarrow> string \<Rightarrow> string \<Rightarrow> accounts \<Rightarrow> reply handled" where
  "login_form dp inp rq username password otp s =
     (if login_form_ok username password otp then authenticate dp inp rq username password otp s
      else (Inl unprocessable, s))"

definition login_body ::
    "deployment \<Rightarrow> inputs \<Rightarrow> web_request \<Rightarrow> string \<Rightarrow> string \<Rightarrow> string \<Rightarrow> accounts \<Rightarrow> reply handled" where
  "login_body dp inp rq username password otp s =
     (if login_form_ok username password otp \<and> list_all is_digit otp
      then authenticate dp inp rq username password otp s else (Inl unprocessable, s))"

section \<open>Enrolling and leaving the second factor\<close>

text \<open>The handlers take the user the dependency authenticated.\<close>

definition admin_for_enrollment :: "user \<Rightarrow> http_error option" where
  "admin_for_enrollment u = (if is_admin u then None else Some (HTTPException 403 ''Admin role required''))"

definition mfa_setup :: "deployment \<Rightarrow> inputs \<Rightarrow> user \<Rightarrow> accounts \<Rightarrow> reply handled" where
  "mfa_setup dp inp u s =
     (case admin_for_enrollment u of
        Some e \<Rightarrow> (Inl e, s)
      | None \<Rightarrow>
          if mfa_enrolled u then (Inl (HTTPException 409 ''MFA is already enrolled''), s)
          else let secret = new_totp_secret (i_random inp)
            in case encrypt_text (dp_fernet dp) (dp_settings dp) secret of
                Inl e \<Rightarrow> (Inl e, s)
              | Inr stored \<Rightarrow>
                  (Inr (ok_reply\<lparr>rp_secret := secret, rp_uri := totp_uri (dp_settings dp) (u_username u) secret\<rparr>),
                   audited inp (u_username u) ''mfa.setup'' []
                     (s\<lparr>a_db := update_user (u_id u)
                          (\<lambda>u. u\<lparr>u_mfa_secret := stored, u_mfa_confirmed := False, u_mfa_last_counter := -1\<rparr>) (a_db s)\<rparr>)))"

text \<open>The reply of a transition carries a token of the version the transition has written.\<close>

definition transition_reply :: "deployment \<Rightarrow> inputs \<Rightarrow> user \<Rightarrow> bool \<Rightarrow> reply" where
  "transition_reply dp inp u mfa = session_reply dp inp u (issue_token dp inp u mfa (u_token_version u + 1))"

definition code_ok :: "string \<Rightarrow> bool" where
  "code_ok c \<longleftrightarrow> length c = 6 \<and> list_all is_digit c"

definition mfa_confirm :: "deployment \<Rightarrow> inputs \<Rightarrow> string \<Rightarrow> user \<Rightarrow> accounts \<Rightarrow> reply handled" where
  "mfa_confirm dp inp given u s =
     (case admin_for_enrollment u of
        Some e \<Rightarrow> (Inl e, s)
      | None \<Rightarrow>
          if u_mfa_secret u = [] then (Inl (HTTPException 400 ''Start MFA setup first''), s)
          else case decrypt_text (dp_fernet dp) (dp_settings dp) (u_mfa_secret u) of
              Inl e \<Rightarrow> (Inl e, s)
            | Inr secret \<Rightarrow>
                (case verify_totp (dp_hmac dp) (i_now inp) secret given (u_mfa_last_counter u) of
                   Inl e \<Rightarrow> (Inl e, s)
                 | Inr None \<Rightarrow> (Inl (HTTPException 400 ''Invalid or already-used MFA code''), s)
                 | Inr (Some counter) \<Rightarrow>
                     (let s1 = s\<lparr>a_db := i_between inp (a_db s)\<rparr>
                      in case commit_mfa_transition u
                            (\<lambda>u. u\<lparr>u_mfa_confirmed := True, u_mfa_last_counter := counter,
                                  u_token_version := u_token_version u + 1\<rparr>) (a_db s1) of
                          None \<Rightarrow> (Inl (HTTPException 400 ''Invalid or already-used MFA code''), s1)
                        | Some d' \<Rightarrow>
                            (Inr (transition_reply dp inp u True),
                             audited inp (u_username u) ''mfa.confirm'' [] (s1\<lparr>a_db := d'\<rparr>)))))"

text \<open>A failed step-up verification: counted, recorded, refused.\<close>

definition step_up_failed ::
    "inputs \<Rightarrow> user \<Rightarrow> string \<Rightarrow> string \<Rightarrow> string \<Rightarrow> http_error \<Rightarrow> accounts \<Rightarrow> 'a handled" where
  "step_up_failed inp u ip bucket action e s =
     (Inl e, audited inp (u_username u) action (''ip='' @ ip)
        (s\<lparr>a_step_up := record_failure (clock inp) ip bucket (a_step_up s)\<rparr>))"

definition mfa_disable ::
    "deployment \<Rightarrow> inputs \<Rightarrow> web_request \<Rightarrow> string \<Rightarrow> string \<Rightarrow> user \<Rightarrow> accounts \<Rightarrow> reply handled" where
  "mfa_disable dp inp rq password given u s =
     (let failed = HTTPException 403 ''MFA disable verification failed''
      in case admin_for_enrollment u of
        Some e \<Rightarrow> (Inl e, s)
      | None \<Rightarrow>
          (case check_step_up_limit (dp_settings dp) (clock inp) (a_step_up s) rq u ''mfa-disable'' of
             Inl e \<Rightarrow> (Inl e, s)
           | Inr (ip, bucket) \<Rightarrow>
               if \<not> mfa_enrolled u \<or> \<not> verify_password (dp_verify dp) password (u_password_hash u)
               then step_up_failed inp u ip bucket ''mfa.disable_failed'' failed s
               else case decrypt_text (dp_fernet dp) (dp_settings dp) (u_mfa_secret u) of
                   Inl e \<Rightarrow> (Inl e, s)
                 | Inr secret \<Rightarrow>
                     (case verify_totp (dp_hmac dp) (i_now inp) secret given (u_mfa_last_counter u) of
                        Inl e \<Rightarrow> (Inl e, s)
                      | Inr None \<Rightarrow> step_up_failed inp u ip bucket ''mfa.disable_failed'' failed s
                      | Inr (Some counter) \<Rightarrow>
                          (let s1 = s\<lparr>a_db := i_between inp (a_db s)\<rparr>
                           in case commit_mfa_transition u
                                 (\<lambda>u. u\<lparr>u_mfa_secret := [], u_mfa_confirmed := False, u_mfa_last_counter := -1,
                                       u_token_version := u_token_version u + 1\<rparr>) (a_db s1) of
                               None \<Rightarrow> step_up_failed inp u ip bucket ''mfa.disable_replay'' failed s1
                             | Some d' \<Rightarrow>
                                 (Inr (transition_reply dp inp u False),
                                  audited inp (u_username u) ''mfa.disable'' []
                                    (s1\<lparr>a_db := d', a_step_up := record_success ip bucket (a_step_up s1)\<rparr>))))))"

definition logout :: "deployment \<Rightarrow> inputs \<Rightarrow> user \<Rightarrow> accounts \<Rightarrow> reply handled" where
  "logout dp inp u s =
     (case increment_token_version (u_id u) (a_db s) of
        Inl e \<Rightarrow> (Inl e, s)
      | Inr d \<Rightarrow>
          (Inr (ok_reply\<lparr>rp_cookies := clear_auth_cookies (dp_settings dp)\<rparr>),
           audited inp (u_username u) ''logout'' [] (s\<lparr>a_db := d\<rparr>)))"

section \<open>Managing users\<close>

record user_create =
  uc_username :: string
  uc_password :: string
  uc_display_name :: string
  uc_email :: string
  uc_role :: string

record user_update =
  uu_display_name :: "string option"
  uu_email :: "string option"
  uu_role :: "string option"
  uu_is_active :: "bool option"
  uu_password :: "string option"

definition MIN_PASSWORD_LENGTH :: nat where "MIN_PASSWORD_LENGTH = 15"

definition password_length_ok :: "string \<Rightarrow> bool" where
  "password_length_ok p \<longleftrightarrow> MIN_PASSWORD_LENGTH \<le> length p \<and> length p \<le> 72"

definition ROLES :: "string list" where "ROLES = [''admin'', ''viewer'']"

definition user_create_ok :: "user_create \<Rightarrow> bool" where
  "user_create_ok b \<longleftrightarrow> length (uc_username b) \<in> {2..64} \<and> password_length_ok (uc_password b) \<and> uc_role b \<in> set ROLES"

definition user_update_ok :: "user_update \<Rightarrow> bool" where
  "user_update_ok b \<longleftrightarrow> (case uu_role b of None \<Rightarrow> True | Some r \<Rightarrow> r \<in> set ROLES) \<and>
     (case uu_password b of None \<Rightarrow> True | Some p \<Rightarrow> password_length_ok p)"

definition next_user_id :: "db \<Rightarrow> int" where
  "next_user_id d = foldr (\<lambda>u i. max (u_id u) i) (d_users d) 0 + 1"

definition list_users :: "db \<Rightarrow> user list" where
  "list_users d = order_by u_id (d_users d)"

definition new_user :: "deployment \<Rightarrow> inputs \<Rightarrow> user_create \<Rightarrow> db \<Rightarrow> user" where
  "new_user dp inp b d =
     \<lparr>u_id = next_user_id d, u_username = uc_username b, u_password_hash = dp_hash dp (uc_password b),
      u_display_name = (if uc_display_name b \<noteq> [] then uc_display_name b else uc_username b), u_email = uc_email b,
      u_role = uc_role b, u_is_active = True, u_auth_id = i_auth_id inp, u_token_version = 1, u_mfa_secret = [],
      u_mfa_confirmed = False, u_mfa_last_counter = -1, u_created_at = i_now inp\<rparr>"

definition create_user :: "deployment \<Rightarrow> inputs \<Rightarrow> user_create \<Rightarrow> user \<Rightarrow> accounts \<Rightarrow> reply handled" where
  "create_user dp inp b admin s =
     (if list_ex (\<lambda>u. u_username u = uc_username b) (d_users (a_db s))
      then (Inl (HTTPException 409 ''Username already exists''), s)
      else let u = new_user dp inp b (a_db s)
        in (Inr (ok_reply\<lparr>rp_user := Some u\<rparr>),
            audited inp (u_username admin) ''user.create''
              (''created user '' @ u_username u @ '' role='' @ u_role u)
              (s\<lparr>a_db := (a_db s)\<lparr>d_users := d_users (a_db s) @ [u]\<rparr>\<rparr>)))"

definition changed_user :: "deployment \<Rightarrow> user_update \<Rightarrow> user \<Rightarrow> user" where
  "changed_user dp b u =
     u\<lparr>u_display_name := the_default (u_display_name u) (uu_display_name b),
       u_email := the_default (u_email u) (uu_email b),
       u_role := the_default (u_role u) (uu_role b),
       u_is_active := the_default (u_is_active u) (uu_is_active b),
       u_password_hash := (case uu_password b of
           Some p \<Rightarrow> if p \<noteq> [] then dp_hash dp p else u_password_hash u
         | None \<Rightarrow> u_password_hash u)\<rparr>"

text \<open>A password, a role or an activity that changes revokes the user's sessions.\<close>

definition revokes_sessions :: "user_update \<Rightarrow> user \<Rightarrow> bool" where
  "revokes_sessions b u \<longleftrightarrow>
     (case uu_password b of Some p \<Rightarrow> p \<noteq> [] | None \<Rightarrow> False)
     \<or> (case uu_is_active b of Some a \<Rightarrow> a \<noteq> u_is_active u | None \<Rightarrow> False)
     \<or> (case uu_role b of Some r \<Rightarrow> r \<noteq> u_role u | None \<Rightarrow> False)"

definition updated_user :: "deployment \<Rightarrow> user_update \<Rightarrow> user \<Rightarrow> user" where
  "updated_user dp b u =
     (if revokes_sessions b u then (changed_user dp b u)\<lparr>u_token_version := u_token_version u + 1\<rparr> else changed_user dp b u)"

definition user_not_found :: http_error where "user_not_found = HTTPException 404 ''User not found''"

definition edit_user :: "deployment \<Rightarrow> inputs \<Rightarrow> int \<Rightarrow> user_update \<Rightarrow> user \<Rightarrow> accounts \<Rightarrow> reply handled" where
  "edit_user dp inp uid b admin s =
     (case user_by_id (a_db s) uid of
        None \<Rightarrow> (Inl user_not_found, s)
      | Some u \<Rightarrow>
          if u_id u = u_id admin \<and> uu_role b \<noteq> None \<and> uu_role b \<noteq> Some ''admin''
          then (Inl (HTTPException 400 ''Cannot demote yourself''), s)
          else if u_id u = u_id admin \<and> uu_is_active b = Some False
          then (Inl (HTTPException 400 ''Cannot disable yourself''), s)
          else (Inr (ok_reply\<lparr>rp_user := Some (updated_user dp b u)\<rparr>),
                audited inp (u_username admin) ''user.update'' (''updated user '' @ u_username u)
                  (s\<lparr>a_db := update_user uid (updated_user dp b) (a_db s)\<rparr>)))"

definition delete_user :: "inputs \<Rightarrow> int \<Rightarrow> user \<Rightarrow> accounts \<Rightarrow> reply handled" where
  "delete_user inp uid admin s =
     (case user_by_id (a_db s) uid of
        None \<Rightarrow> (Inl user_not_found, s)
      | Some u \<Rightarrow>
          if u_id u = u_id admin then (Inl (HTTPException 400 ''Cannot delete yourself''), s)
          else (Inr ok_reply,
                audited inp (u_username admin) ''user.delete'' (''deleted user '' @ u_username u)
                  (s\<lparr>a_db := (a_db s)\<lparr>d_users := filter (\<lambda>u. u_id u \<noteq> uid) (d_users (a_db s))\<rparr>\<rparr>)))"

definition change_password ::
    "deployment \<Rightarrow> inputs \<Rightarrow> web_request \<Rightarrow> string \<Rightarrow> string \<Rightarrow> user \<times> bool \<Rightarrow> accounts \<Rightarrow> reply handled" where
  "change_password dp inp rq old new session s =
     (let u = fst session
      in case check_step_up_limit (dp_settings dp) (clock inp) (a_step_up s) rq u ''password-change'' of
          Inl e \<Rightarrow> (Inl e, s)
        | Inr (ip, bucket) \<Rightarrow>
            if \<not> verify_password (dp_verify dp) old (u_password_hash u)
            then step_up_failed inp u ip bucket ''user.password_failed'' (HTTPException 400 ''Old password is incorrect'') s
            else
              (let s1 = s\<lparr>a_db := i_between inp (a_db s)\<rparr>;
                   same = (\<lambda>r. u_id r = u_id u \<and> u_password_hash r = u_password_hash u \<and> u_token_version r = u_token_version u)
               in if length (filter same (d_users (a_db s1))) \<noteq> 1
                  then (Inl (HTTPException 409 ''Account changed concurrently; sign in again and retry''), s1)
                  else
                    (Inr (session_reply dp inp u (issue_token dp inp u (snd session) (u_token_version u + 1))),
                     audited inp (u_username u) ''user.password'' ''changed own password''
                       (s1\<lparr>a_step_up := record_success ip bucket (a_step_up s1),
                           a_db := (a_db s1)\<lparr>d_users := map (\<lambda>r. if same r
                               then r\<lparr>u_password_hash := dp_hash dp new, u_token_version := u_token_version r + 1\<rparr> else r)
                             (d_users (a_db s1))\<rparr>\<rparr>))))"

definition reset_user_mfa :: "inputs \<Rightarrow> int \<Rightarrow> user \<Rightarrow> accounts \<Rightarrow> reply handled" where
  "reset_user_mfa inp uid admin s =
     (case user_by_id (a_db s) uid of
        None \<Rightarrow> (Inl user_not_found, s)
      | Some u \<Rightarrow>
          if u_id u = u_id admin then (Inl (HTTPException 400 ''Use the self-service MFA disable flow''), s)
          else (Inr ok_reply,
                audited inp (u_username admin) ''user.mfa_reset'' (''reset MFA for '' @ u_username u)
                  (s\<lparr>a_db := update_user uid
                       (\<lambda>u. u\<lparr>u_mfa_secret := [], u_mfa_confirmed := False, u_mfa_last_counter := -1,
                             u_token_version := u_token_version u + 1\<rparr>) (a_db s)\<rparr>)))"

section \<open>The endpoints\<close>

text \<open>The dependencies of the endpoints, evaluated on the database as the request finds it.\<close>

definition session_of :: "deployment \<Rightarrow> inputs \<Rightarrow> web_request \<Rightarrow> string option \<Rightarrow> db \<Rightarrow> http_error + (user \<times> bool)" where
  "session_of dp inp rq bearer d =
     get_current_user (decode_token (dp_sha256_hex dp) (dp_jwt_decode dp) (dp_settings dp) (i_now inp)) rq bearer d"

definition with_session ::
    "deployment \<Rightarrow> inputs \<Rightarrow> web_request \<Rightarrow> string option \<Rightarrow> bool \<Rightarrow> (user \<times> bool \<Rightarrow> accounts \<Rightarrow> reply handled) \<Rightarrow>
     accounts \<Rightarrow> reply handled" where
  "with_session dp inp rq bearer body_ok handler s =
     (case session_of dp inp rq bearer (a_db s) of
        Inl e \<Rightarrow> (Inl e, s)
      | Inr session \<Rightarrow> if body_ok then handler session s else (Inl unprocessable, s))"

definition with_admin ::
    "deployment \<Rightarrow> inputs \<Rightarrow> web_request \<Rightarrow> string option \<Rightarrow> bool \<Rightarrow> (user \<Rightarrow> accounts \<Rightarrow> reply handled) \<Rightarrow>
     accounts \<Rightarrow> reply handled" where
  "with_admin dp inp rq bearer body_ok handler s =
     (case session_of dp inp rq bearer (a_db s) of
        Inl e \<Rightarrow> (Inl e, s)
      | Inr session \<Rightarrow>
          (case require_admin (dp_settings dp) session of
             Inl e \<Rightarrow> (Inl e, s)
           | Inr admin \<Rightarrow> if body_ok then handler admin s else (Inl unprocessable, s)))"

datatype call =
    Login string string string
  | Login_Json string string string
  | Me
  | Mfa_Setup
  | Mfa_Confirm string
  | Mfa_Disable string string
  | Logout
  | List_Users
  | Create_User user_create
  | Update_User int user_update
  | Delete_User int
  | Change_Password string string
  | Reset_Mfa int

fun serve :: "deployment \<Rightarrow> inputs \<Rightarrow> web_request \<Rightarrow> string option \<Rightarrow> call \<Rightarrow> accounts \<Rightarrow> reply handled" where
  "serve dp inp rq bearer (Login n p otp) = login_form dp inp rq n p otp"
| "serve dp inp rq bearer (Login_Json n p otp) = login_body dp inp rq n p otp"
| "serve dp inp rq bearer Me =
     with_session dp inp rq bearer True (\<lambda>session s. (Inr (ok_reply\<lparr>rp_user := Some (fst session)\<rparr>), s))"
| "serve dp inp rq bearer Mfa_Setup = with_session dp inp rq bearer True (\<lambda>session. mfa_setup dp inp (fst session))"
| "serve dp inp rq bearer (Mfa_Confirm c) =
     with_session dp inp rq bearer (code_ok c) (\<lambda>session. mfa_confirm dp inp c (fst session))"
| "serve dp inp rq bearer (Mfa_Disable p c) =
     with_session dp inp rq bearer (length p \<in> {1..128} \<and> code_ok c) (\<lambda>session. mfa_disable dp inp rq p c (fst session))"
| "serve dp inp rq bearer Logout = with_session dp inp rq bearer True (\<lambda>session. logout dp inp (fst session))"
| "serve dp inp rq bearer List_Users = with_admin dp inp rq bearer True (\<lambda>admin s. (Inr ok_reply, s))"
| "serve dp inp rq bearer (Create_User b) =
     with_admin dp inp rq bearer (user_create_ok b) (create_user dp inp b)"
| "serve dp inp rq bearer (Update_User uid b) =
     with_admin dp inp rq bearer (user_update_ok b) (edit_user dp inp uid b)"
| "serve dp inp rq bearer (Delete_User uid) = with_admin dp inp rq bearer True (delete_user inp uid)"
| "serve dp inp rq bearer (Change_Password old new) =
     with_session dp inp rq bearer (length old \<in> {1..128} \<and> password_length_ok new)
       (change_password dp inp rq old new)"
| "serve dp inp rq bearer (Reset_Mfa uid) = with_admin dp inp rq bearer True (reset_user_mfa inp uid)"

record arrival =
  ar_inputs :: inputs
  ar_request :: web_request
  ar_bearer :: "string option"
  ar_call :: call

definition serve_all :: "deployment \<Rightarrow> arrival list \<Rightarrow> accounts \<Rightarrow> accounts" where
  "serve_all dp arrivals s =
     fold (\<lambda>a s. snd (serve dp (ar_inputs a) (ar_request a) (ar_bearer a) (ar_call a) s)) arrivals s"

end
