(* ===== verification/Sessions.thy ===== *)
theory Sessions
  imports Accounts
begin

text \<open>
  What the account endpoints guarantee: the steps of the user table, that an administrator remains,
  that ended sessions stay ended, that a one-time code admits one login, and that a refused login
  tells nothing.
\<close>

section \<open>What the endpoints do to the users\<close>

lemma users_audit [simp]: "d_users (audit inp n a t d) = d_users d"
  by (simp add: audit_def)

lemma users_audited [simp]: "d_users (a_db (audited inp n a t s)) = d_users (a_db s)"
  by (simp add: audited_def)

lemma users_refuse [simp]: "d_users (a_db (snd (refuse_login inp ip n a s))) = d_users (a_db s)"
  by (simp add: refuse_login_def)

lemma users_step_up_failed [simp]: "d_users (a_db (snd (step_up_failed inp u ip b a e s))) = d_users (a_db s)"
  by (simp add: step_up_failed_def)

lemma users_finish [simp]: "d_users (a_db (snd (finish_login dp inp ip n u mfa s))) = d_users (a_db s)"
  by (simp add: finish_login_def)

text \<open>An edit of rows keeps identities and names and never takes a version back.\<close>

definition keeps_identity :: "(user \<Rightarrow> user) \<Rightarrow> bool" where
  "keeps_identity f \<longleftrightarrow> (\<forall>u. u_id (f u) = u_id u \<and> u_auth_id (f u) = u_auth_id u \<and> u_username (f u) = u_username u
     \<and> u_token_version u \<le> u_token_version (f u))"

definition keeps_standing :: "(user \<Rightarrow> user) \<Rightarrow> bool" where
  "keeps_standing f \<longleftrightarrow> (\<forall>u. (is_admin u \<longrightarrow> is_admin (f u)) \<and> (u_is_active u \<longrightarrow> u_is_active (f u)))"

text \<open>The steps of the user table; \<open>actor\<close> is the administrator who asked for the step, if one did.\<close>

inductive users_step :: "int option \<Rightarrow> string \<Rightarrow> user list \<Rightarrow> user list \<Rightarrow> bool" for actor auth where
  same: "users_step actor auth us us"
| edit: "keeps_identity f \<Longrightarrow> keeps_standing f \<or> (\<exists>i. actor = Some i \<and> i \<noteq> uid) \<Longrightarrow>
    users_step actor auth us (map (\<lambda>u. if u_id u = uid \<and> P u then f u else u) us)"
| new: "u_auth_id u = auth \<Longrightarrow> u_id u \<notin> u_id ` set us \<Longrightarrow> u_username u \<notin> u_username ` set us \<Longrightarrow>
    users_step actor auth us (us @ [u])"
| gone: "actor = Some i \<Longrightarrow> i \<noteq> uid \<Longrightarrow> users_step actor auth us (filter (\<lambda>u. u_id u \<noteq> uid) us)"

inductive_cases users_stepE: "users_step actor auth us us'"

definition lone :: "inputs \<Rightarrow> bool" where
  "lone inp \<longleftrightarrow> i_between inp = (\<lambda>d. d)"

lemma users_update_user [simp]: "d_users (update_user uid f d) = map (\<lambda>u. if u_id u = uid then f u else u) (d_users d)"
  by (simp add: update_user_def)

lemma step_id: "keeps_identity f \<Longrightarrow> keeps_standing f \<or> (\<exists>i. actor = Some i \<and> i \<noteq> uid) \<Longrightarrow>
    users_step actor auth us (map (\<lambda>u. if u_id u = uid then f u else u) us)"
  using users_step.edit [of f actor uid auth us "\<lambda>_. True"] by simp

lemma commit_users:
  assumes "commit_mfa_transition u f d = Some d'" and "keeps_identity f" and "keeps_standing f"
  shows "users_step None auth (d_users d) (d_users d')"
  using assms users_step.edit [OF assms(2) disjI1 [OF assms(3)], of None auth "d_users d" "u_id u"
      "\<lambda>r. u_mfa_last_counter r = u_mfa_last_counter u \<and> u_token_version r = u_token_version u"]
  by (auto simp: commit_mfa_transition_def split: if_splits)

lemma authenticate_users:
  assumes "lone inp"
  shows "users_step None auth (d_users (a_db s)) (d_users (a_db (snd (authenticate dp inp rq n p otp s))))"
  using assms
  by (auto simp: authenticate_def lone_def Let_def keeps_identity_def keeps_standing_def is_admin_def
      simp: users_step.same intro: commit_users split: sum.splits prod.splits bool.splits option.splits)

lemma confirm_users:
  assumes "lone inp"
  shows "users_step None auth (d_users (a_db s)) (d_users (a_db (snd (mfa_confirm dp inp c u s))))"
  using assms
  by (auto simp: mfa_confirm_def lone_def Let_def keeps_identity_def keeps_standing_def is_admin_def
      simp: users_step.same intro: commit_users split: sum.splits option.splits)

lemma disable_users:
  assumes "lone inp"
  shows "users_step None auth (d_users (a_db s)) (d_users (a_db (snd (mfa_disable dp inp rq p c u s))))"
  using assms
  by (auto simp: mfa_disable_def lone_def Let_def keeps_identity_def keeps_standing_def is_admin_def
      simp: users_step.same intro: commit_users split: sum.splits option.splits)

lemma setup_users: "users_step None auth (d_users (a_db s)) (d_users (a_db (snd (mfa_setup dp inp u s))))"
  by (auto simp: mfa_setup_def Let_def keeps_identity_def keeps_standing_def is_admin_def
      intro: users_step.same intro!: step_id split: sum.splits option.splits)

lemma logout_users: "users_step None auth (d_users (a_db s)) (d_users (a_db (snd (logout dp inp u s))))"
  by (auto simp: logout_def increment_token_version_def keeps_identity_def keeps_standing_def is_admin_def
      intro: users_step.same intro!: step_id split: sum.splits if_splits)

lemma password_users:
  assumes "lone inp"
  shows "users_step None auth (d_users (a_db s)) (d_users (a_db (snd (change_password dp inp rq old new session s))))"
proof -
  let ?u = "fst session"
  let ?f = "\<lambda>r. r\<lparr>u_password_hash := dp_hash dp new, u_token_version := u_token_version r + 1\<rparr>"
  have "users_step None auth (d_users (a_db s)) (map (\<lambda>r. if u_id r = u_id ?u \<and>
      (u_password_hash r = u_password_hash ?u \<and> u_token_version r = u_token_version ?u) then ?f r else r) (d_users (a_db s)))"
    by (rule users_step.edit) (auto simp: keeps_identity_def keeps_standing_def is_admin_def)
  then show ?thesis using assms
    by (auto simp: change_password_def lone_def Let_def intro: users_step.same split: sum.splits)
qed

lemma next_user_id_fresh: "next_user_id d \<notin> u_id ` set (d_users d)"
proof -
  have "u \<in> set us \<Longrightarrow> u_id u \<le> foldr (\<lambda>u i. max (u_id u) i) us 0" for u us by (induction us) auto
  then show ?thesis by (fastforce simp: next_user_id_def)
qed

lemma create_users: "users_step actor (i_auth_id inp) (d_users (a_db s)) (d_users (a_db (snd (create_user dp inp b admin s))))"
  using next_user_id_fresh [of "a_db s"]
  by (auto simp: create_user_def Let_def new_user_def list_ex_iff intro: users_step.same intro!: users_step.new)

lemma user_id_of: "user_by_id d uid = Some u \<Longrightarrow> u_id u = uid \<and> u \<in> set (d_users d)"
  by (auto simp: user_by_id_def find_Some_iff)

lemma edit_users: "users_step (Some (u_id admin)) auth (d_users (a_db s)) (d_users (a_db (snd (edit_user dp inp uid b admin s))))"
proof -
  have ident: "keeps_identity (updated_user dp b)"
    by (simp add: keeps_identity_def updated_user_def changed_user_def)
  have standing: "keeps_standing (updated_user dp b)"
    if "uu_role b \<noteq> None \<longrightarrow> uu_role b = Some ''admin''" "uu_is_active b \<noteq> Some False"
    using that by (auto simp: keeps_standing_def updated_user_def changed_user_def is_admin_def the_default_def
        split: option.splits)
  show ?thesis
  proof (cases "\<exists>u. user_by_id (a_db s) uid = Some u \<and> \<not> (u_id u = u_id admin \<and> uu_role b \<noteq> None \<and> uu_role b \<noteq> Some ''admin'')
      \<and> \<not> (u_id u = u_id admin \<and> uu_is_active b = Some False)")
    case True
    then obtain u where u: "user_by_id (a_db s) uid = Some u" "\<not> (u_id u = u_id admin \<and> uu_role b \<noteq> None \<and> uu_role b \<noteq> Some ''admin'')"
      "\<not> (u_id u = u_id admin \<and> uu_is_active b = Some False)" by blast
    then have "u_id u = uid" by (simp add: user_id_of)
    then have "keeps_standing (updated_user dp b) \<or> (\<exists>i. Some (u_id admin) = Some i \<and> i \<noteq> uid)"
      using u(2,3) standing by auto
    from step_id [OF ident this] show ?thesis using u by (auto simp: edit_user_def users_step.same)
  next
    case False
    then have "snd (edit_user dp inp uid b admin s) = s" by (auto simp: edit_user_def split: option.splits)
    then show ?thesis by (simp add: users_step.same)
  qed
qed

lemma delete_users: "users_step (Some (u_id admin)) auth (d_users (a_db s)) (d_users (a_db (snd (delete_user inp uid admin s))))"
proof (cases "\<exists>u. user_by_id (a_db s) uid = Some u \<and> u_id u \<noteq> u_id admin")
  case True
  then obtain u where u: "user_by_id (a_db s) uid = Some u" "u_id u \<noteq> u_id admin" by blast
  then have "u_id admin \<noteq> uid" by (simp add: user_id_of)
  from users_step.gone [OF refl this] show ?thesis using u by (simp add: delete_user_def)
next
  case False
  then have "snd (delete_user inp uid admin s) = s" by (cases "user_by_id (a_db s) uid") (simp_all add: delete_user_def)
  then show ?thesis by (simp add: users_step.same)
qed

lemma reset_users: "users_step (Some (u_id admin)) auth (d_users (a_db s)) (d_users (a_db (snd (reset_user_mfa inp uid admin s))))"
proof (cases "\<exists>u. user_by_id (a_db s) uid = Some u \<and> u_id u \<noteq> u_id admin")
  case True
  let ?f = "\<lambda>u. u\<lparr>u_mfa_secret := [], u_mfa_confirmed := False, u_mfa_last_counter := -1, u_token_version := u_token_version u + 1\<rparr>"
  have "keeps_identity ?f" "keeps_standing ?f" by (simp_all add: keeps_identity_def keeps_standing_def is_admin_def)
  then have "users_step (Some (u_id admin)) auth us (map (\<lambda>u. if u_id u = uid then ?f u else u) us)" for us
    using step_id [OF _ disjI1] by blast
  moreover obtain u where "user_by_id (a_db s) uid = Some u" "u_id u \<noteq> u_id admin" using True by blast
  ultimately show ?thesis by (simp add: reset_user_mfa_def)
next
  case False
  then have "snd (reset_user_mfa inp uid admin s) = s" by (cases "user_by_id (a_db s) uid") (simp_all add: reset_user_mfa_def)
  then show ?thesis by (simp add: users_step.same)
qed

section \<open>All endpoints\<close>

definition actor_ok :: "int option \<Rightarrow> user list \<Rightarrow> bool" where
  "actor_ok actor us \<longleftrightarrow> (case actor of None \<Rightarrow> True | Some i \<Rightarrow> \<exists>u \<in> set us. u_id u = i \<and> is_admin u \<and> u_is_active u)"

lemma current_user:
  assumes "get_current_user decode rq bearer d = Inr (u, mfa)"
  shows "user_by_id d (u_id u) = Some u" and "u_is_active u" and "u \<in> set (d_users d)"
proof -
  have "\<exists>uid. user_by_id d uid = Some u \<and> u_is_active u"
    using assms unfolding get_current_user_def Let_def invalid_token_def
    by (fastforce split: if_split_asm option.split_asm)
  then show "user_by_id d (u_id u) = Some u" "u_is_active u" "u \<in> set (d_users d)" using user_id_of by metis+
qed

lemma step_actor: "users_step None auth us us' \<Longrightarrow> \<exists>actor. actor_ok actor us \<and> users_step actor auth us us'"
  by (rule exI [of _ None]) (simp add: actor_ok_def)

lemma serve_session:
  assumes "\<And>session. users_step None auth (d_users (a_db s)) (d_users (a_db (snd (handler session s))))"
  shows "\<exists>actor. actor_ok actor (d_users (a_db s)) \<and>
    users_step actor auth (d_users (a_db s)) (d_users (a_db (snd (with_session dp inp rq bearer ok handler s))))"
  using assms by (intro step_actor) (auto simp: with_session_def users_step.same split: sum.splits)

lemma serve_admin:
  assumes "\<And>admin. users_step (Some (u_id admin)) auth (d_users (a_db s)) (d_users (a_db (snd (handler admin s))))"
  shows "\<exists>actor. actor_ok actor (d_users (a_db s)) \<and>
    users_step actor auth (d_users (a_db s)) (d_users (a_db (snd (with_admin dp inp rq bearer ok handler s))))"
proof (cases "\<exists>admin mfa. session_of dp inp rq bearer (a_db s) = Inr (admin, mfa) \<and> is_admin admin \<and>
    snd (with_admin dp inp rq bearer ok handler s) = snd (handler admin s)")
  case True
  then obtain admin mfa where a: "session_of dp inp rq bearer (a_db s) = Inr (admin, mfa)" "is_admin admin"
    "snd (with_admin dp inp rq bearer ok handler s) = snd (handler admin s)" by blast
  then have "actor_ok (Some (u_id admin)) (d_users (a_db s))"
    using current_user [of _ rq bearer "a_db s" admin mfa] by (auto simp: actor_ok_def session_of_def)
  then show ?thesis using assms [of admin] a(3) by auto
next
  case False
  then have "snd (with_admin dp inp rq bearer ok handler s) = s"
    by (auto simp: with_admin_def require_admin_def split: sum.splits if_splits)
  then show ?thesis by (intro step_actor) (simp add: users_step.same)
qed

lemma serve_users:
  assumes "lone inp"
  shows "\<exists>actor. actor_ok actor (d_users (a_db s)) \<and>
    users_step actor (i_auth_id inp) (d_users (a_db s)) (d_users (a_db (snd (serve dp inp rq bearer c s))))"
  using assms step_actor [OF users_step.same]
  by (cases c)
    (auto simp: login_form_def login_body_def users_step.same intro!: serve_session serve_admin authenticate_users
      confirm_users disable_users setup_users logout_users password_users create_users edit_users delete_users
      reset_users intro: step_actor)

section \<open>Invariants of the user table\<close>

definition users_ok :: "user list \<Rightarrow> bool" where
  "users_ok us \<longleftrightarrow> distinct (map u_id us) \<and> distinct (map u_auth_id us) \<and> distinct (map u_username us)"

definition has_admin :: "user list \<Rightarrow> bool" where
  "has_admin us \<longleftrightarrow> list_ex (\<lambda>u. is_admin u \<and> u_is_active u) us"

text \<open>No row carries this identity at this version or below.\<close>

definition dead :: "string \<Rightarrow> int \<Rightarrow> user list \<Rightarrow> bool" where
  "dead aid ver us \<longleftrightarrow> list_all (\<lambda>u. u_auth_id u = aid \<longrightarrow> ver < u_token_version u) us"

lemma edited_rows:
  assumes "keeps_identity f"
  shows "map u_id (map (\<lambda>u. if Q u then f u else u) us) = map u_id us"
    and "map u_auth_id (map (\<lambda>u. if Q u then f u else u) us) = map u_auth_id us"
    and "map u_username (map (\<lambda>u. if Q u then f u else u) us) = map u_username us"
  using assms by (auto simp: keeps_identity_def)

lemma users_ok_step:
  assumes "users_step actor auth us us'" and "users_ok us" and "auth \<notin> u_auth_id ` set us"
  shows "users_ok us'"
  using assms
proof cases
  case (edit f uid P)
  then show ?thesis using assms(2) edited_rows [OF edit(2)] by (simp add: users_ok_def del: map_map)
qed (auto simp: users_ok_def distinct_map_filter)

lemma dead_step:
  assumes "users_step actor auth us us'" and "dead aid ver us" and "auth \<noteq> aid"
  shows "dead aid ver us'"
  using assms(1)
proof cases
  case (edit f uid P)
  have ver: "u_auth_id (f u) = u_auth_id u" "u_token_version u \<le> u_token_version (f u)" for u
    using edit(2) by (simp_all add: keeps_identity_def)
  have "u_auth_id (f u) = aid \<longrightarrow> ver < u_token_version (f u)" if "u \<in> set us" for u
    using that ver [of u] assms(2) by (fastforce simp: dead_def list_all_iff)
  then show ?thesis using assms(2) by (auto simp: edit(1) dead_def list_all_iff)
qed (use assms(2,3) in \<open>auto simp: dead_def list_all_iff\<close>)

lemma has_admin_step:
  assumes "users_step actor auth us us'" and "has_admin us" and "actor_ok actor us" and "users_ok us"
  shows "has_admin us'"
  using assms(1)
proof cases
  case (edit f uid P)
  show ?thesis
  proof (cases "keeps_standing f")
    case True
    obtain u where "u \<in> set us" "is_admin u" "u_is_active u" using assms(2) by (auto simp: has_admin_def list_ex_iff)
    then show ?thesis using True by (auto simp: edit(1) has_admin_def list_ex_iff keeps_standing_def)
  next
    case False
    then obtain i where "actor = Some i" "i \<noteq> uid" using edit(3) by blast
    then obtain u where "u \<in> set us" "u_id u \<noteq> uid" "is_admin u" "u_is_active u" using assms(3) by (auto simp: actor_ok_def)
    then show ?thesis by (auto simp: edit(1) has_admin_def list_ex_iff)
  qed
next
  case (gone i uid)
  then obtain u where "u \<in> set us" "u_id u \<noteq> uid" "is_admin u" "u_is_active u" using assms(3) by (auto simp: actor_ok_def)
  then show ?thesis by (auto simp: gone(1) has_admin_def list_ex_iff)
qed (use assms(2) in \<open>auto simp: has_admin_def list_ex_iff\<close>)


text \<open>Requests that run one after the other, with identities that no row had and that are not \<open>aid\<close>.\<close>

fun one_by_one :: "deployment \<Rightarrow> arrival list \<Rightarrow> accounts \<Rightarrow> bool" where
  "one_by_one dp [] s = True"
| "one_by_one dp (a # as) s =
     (lone (ar_inputs a) \<and> i_auth_id (ar_inputs a) \<notin> u_auth_id ` set (d_users (a_db s)) \<and>
      one_by_one dp as (snd (serve dp (ar_inputs a) (ar_request a) (ar_bearer a) (ar_call a) s)))"

lemma serve_all_users:
  assumes "one_by_one dp as s" and "users_ok (d_users (a_db s))"
  shows "users_ok (d_users (a_db (serve_all dp as s))) \<and>
    (has_admin (d_users (a_db s)) \<longrightarrow> has_admin (d_users (a_db (serve_all dp as s)))) \<and>
    (dead aid ver (d_users (a_db s)) \<longrightarrow> aid \<notin> (i_auth_id \<circ> ar_inputs) ` set as \<longrightarrow>
       dead aid ver (d_users (a_db (serve_all dp as s))))"
  using assms
proof (induction as arbitrary: s)
  case (Cons a as)
  let ?s = "snd (serve dp (ar_inputs a) (ar_request a) (ar_bearer a) (ar_call a) s)"
  have lone: "lone (ar_inputs a)" and fresh: "i_auth_id (ar_inputs a) \<notin> u_auth_id ` set (d_users (a_db s))"
    and rest: "one_by_one dp as ?s" using Cons.prems(1) by simp_all
  obtain actor where "actor_ok actor (d_users (a_db s))"
    and step: "users_step actor (i_auth_id (ar_inputs a)) (d_users (a_db s)) (d_users (a_db ?s))"
    using serve_users [OF lone] by blast
  then have ok: "users_ok (d_users (a_db ?s))" and adm: "has_admin (d_users (a_db s)) \<Longrightarrow> has_admin (d_users (a_db ?s))"
    using users_ok_step [OF step] has_admin_step [OF step] Cons.prems(2) fresh by blast+
  moreover have "dead aid ver (d_users (a_db s)) \<Longrightarrow> i_auth_id (ar_inputs a) \<noteq> aid \<Longrightarrow> dead aid ver (d_users (a_db ?s))"
    using dead_step [OF step] by blast
  ultimately show ?case using Cons.IH [OF rest ok] by (auto simp: serve_all_def)
qed (simp add: serve_all_def)

section \<open>Nobody is locked out\<close>

text \<open>
  C15.  As long as requests run one after the other an active administrator remains, whatever anybody
  asks for: no endpoint can demote, disable or delete the last one.
\<close>

theorem an_administrator_remains:
  assumes "one_by_one dp arrivals s" and "users_ok (d_users (a_db s))" and "has_admin (d_users (a_db s))"
  shows "has_admin (d_users (a_db (serve_all dp arrivals s)))"
  using serve_all_users [OF assms(1,2)] assms(3) by blast

definition demo_user :: "int \<Rightarrow> string \<Rightarrow> string \<Rightarrow> user" where
  "demo_user i name role =
     \<lparr>u_id = i, u_username = name, u_password_hash = ''pw-'' @ name, u_display_name = name, u_email = [], u_role = role,
      u_is_active = True, u_auth_id = ''aid-'' @ name, u_token_version = 1, u_mfa_secret = [], u_mfa_confirmed = False,
      u_mfa_last_counter = -1, u_created_at = 0\<rparr>"

definition demo_deployment :: deployment where
  "demo_deployment =
     \<lparr>dp_settings = default_settings\<lparr>REQUIRE_ADMIN_MFA := ''no'', CREDENTIAL_ENCRYPTION_KEYS := ''k''\<rparr>,
      dp_verify = (\<lambda>p h. Some (h = ''pw-'' @ p)), dp_hash = (\<lambda>p. ''pw-'' @ p), dp_fernet = tagging,
      dp_hmac = (\<lambda>k m. [0, 0, 0, last m] @ replicate 16 0), dp_sha256_hex = (\<lambda>s. s),
      dp_jwt_encode = (\<lambda>c k. the_default [] (c_sub c)),
      dp_jwt_decode = (\<lambda>t tok k i a. Some
        \<lparr>c_sub = Some tok, c_uid = Some (if tok = ''ann'' then 1 else 2), c_aid = Some (''aid-'' @ tok), c_ver = Some 1,
         c_mfa = False, c_iat = 0, c_jti = [], c_iss = i, c_aud = a, c_exp = 0\<rparr>)\<rparr>"

definition demo_inputs :: "time \<Rightarrow> inputs" where
  "demo_inputs t = \<lparr>i_now = t, i_audit_ok = True, i_jti = [], i_csrf = ''csrf'', i_auth_id = ''fresh'',
     i_random = replicate 20 0, i_between = (\<lambda>d. d)\<rparr>"

definition demo_request :: web_request where
  "demo_request = \<lparr>rq_method = ''POST'', rq_path = ''/api/users'', rq_scheme = ''https'', rq_headers = [],
     rq_cookies = [], rq_client = Some ''10.0.0.9''\<rparr>"

definition demo_accounts :: accounts where
  "demo_accounts = \<lparr>a_db = empty_db\<lparr>d_users := [demo_user 1 ''ann'' ''admin'', demo_user 2 ''bob'' ''admin'']\<rparr>,
     a_login = new_limiter, a_step_up = new_limiter\<rparr>"

definition no_change :: user_update where
  "no_change = \<lparr>uu_display_name = None, uu_email = None, uu_role = None, uu_is_active = None, uu_password = None\<rparr>"

definition arrive :: "string \<Rightarrow> call \<Rightarrow> arrival" where
  "arrive tok c = \<lparr>ar_inputs = demo_inputs 0, ar_request = demo_request, ar_bearer = Some tok, ar_call = c\<rparr>"

definition demotions :: "arrival list" where
  "demotions = [arrive ''ann'' (Update_User 2 (no_change\<lparr>uu_role := Some ''viewer''\<rparr>)),
                arrive ''bob'' (Update_User 1 (no_change\<lparr>uu_role := Some ''viewer''\<rparr>))]"

theorem an_administrator_remains_witness:
  "has_admin (d_users (a_db (serve_all demo_deployment demotions demo_accounts)))"
proof (rule an_administrator_remains)
  show "users_ok (d_users (a_db demo_accounts))" "has_admin (d_users (a_db demo_accounts))" by code_simp+
  have lone: "lone (demo_inputs 0)" by (simp add: lone_def demo_inputs_def)
  have "''fresh'' \<notin> u_auth_id ` set (d_users (a_db demo_accounts))" by code_simp
  moreover have "''fresh'' \<notin> u_auth_id ` set (d_users (a_db (snd (serve demo_deployment (demo_inputs 0) demo_request (Some ''ann'')
      (Update_User 2 (no_change\<lparr>uu_role := Some ''viewer''\<rparr>)) demo_accounts))))" by code_simp
  ultimately show "one_by_one demo_deployment demotions demo_accounts"
    using lone by (simp add: demotions_def arrive_def demo_inputs_def del: serve.simps)
qed

text \<open>Two administrators whose requests overlap can demote each other: each request was authenticated
  before the other changed anything, and each handler only refuses to demote its own user.\<close>

lemma mutual_demotion:
  "let demote = no_change\<lparr>uu_role := Some ''viewer''\<rparr>; ann = demo_user 1 ''ann'' ''admin''; bob = demo_user 2 ''bob'' ''admin'';
       s1 = snd (edit_user demo_deployment (demo_inputs 0) 2 demote ann demo_accounts);
       s2 = snd (edit_user demo_deployment (demo_inputs 0) 1 demote bob s1)
   in session_of demo_deployment (demo_inputs 0) demo_request (Some ''ann'') (a_db demo_accounts) = Inr (ann, False) \<and>
      session_of demo_deployment (demo_inputs 0) demo_request (Some ''bob'') (a_db demo_accounts) = Inr (bob, False) \<and>
      \<not> has_admin (d_users (a_db s2))"
  by code_simp

section \<open>Ended sessions stay ended\<close>

lemma dead_edit:
  assumes "users_ok us" and "u \<in> set us" and "P u" and "u_token_version u < u_token_version (f u)"
    and "\<And>r. u_auth_id (f r) = u_auth_id r"
  shows "dead (u_auth_id u) (u_token_version u) (map (\<lambda>r. if u_id r = u_id u \<and> P r then f r else r) us)"
proof -
  have "r = u" if "r \<in> set us" "u_auth_id r = u_auth_id u" for r
    using that assms(1,2) by (auto simp: users_ok_def distinct_map dest: inj_onD)
  then show ?thesis using assms(3-5) by (fastforce simp: dead_def list_all_iff)
qed

lemma dead_edit_id:
  assumes "users_ok us" and "u \<in> set us" and "u_token_version u < u_token_version (f u)"
    and "\<And>r. u_auth_id (f r) = u_auth_id r"
  shows "dead (u_auth_id u) (u_token_version u) (map (\<lambda>r. if u_id r = u_id u then f r else r) us)"
  using dead_edit [of us u "\<lambda>_. True" f] assms by simp

lemma dead_gone:
  assumes "users_ok us" and "u \<in> set us"
  shows "dead (u_auth_id u) (u_token_version u) (filter (\<lambda>r. u_id r \<noteq> u_id u) us)"
proof -
  have "r = u" if "r \<in> set us" "u_auth_id r = u_auth_id u" for r
    using that assms by (auto simp: users_ok_def distinct_map dest: inj_onD)
  then show ?thesis by (auto simp: dead_def list_all_iff)
qed

lemma dead_commit:
  assumes "commit_mfa_transition u f d = Some d'" and "users_ok (d_users d)" and "u \<in> set (d_users d)"
    and "u_token_version u < u_token_version (f u)" and "\<And>r. u_auth_id (f r) = u_auth_id r"
  shows "dead (u_auth_id u) (u_token_version u) (d_users d')"
  using assms dead_edit [OF assms(2,3) _ assms(4,5),
      of "\<lambda>r. u_mfa_last_counter r = u_mfa_last_counter u \<and> u_token_version r = u_token_version u"]
  by (auto simp: commit_mfa_transition_def split: if_splits)

lemma ends_logout:
  assumes "logout dp inp u s = (Inr r, s')" and "users_ok (d_users (a_db s))" and "u \<in> set (d_users (a_db s))"
  shows "dead (u_auth_id u) (u_token_version u) (d_users (a_db s'))"
  using assms dead_edit_id [OF assms(2,3), of "\<lambda>r. r\<lparr>u_token_version := u_token_version r + 1\<rparr>"]
  by (auto simp: logout_def increment_token_version_def split: sum.splits if_splits)

lemma ends_confirm:
  assumes "mfa_confirm dp inp c u s = (Inr r, s')" and "lone inp" and "users_ok (d_users (a_db s))" and "u \<in> set (d_users (a_db s))"
  shows "dead (u_auth_id u) (u_token_version u) (d_users (a_db s'))"
  using assms
  by (auto simp: mfa_confirm_def lone_def Let_def split: sum.splits option.splits if_splits)
    (erule dead_commit; simp)

lemma ends_disable:
  assumes "mfa_disable dp inp rq p c u s = (Inr r, s')" and "lone inp" and "users_ok (d_users (a_db s))" and "u \<in> set (d_users (a_db s))"
  shows "dead (u_auth_id u) (u_token_version u) (d_users (a_db s'))"
  using assms
  by (auto simp: mfa_disable_def lone_def Let_def step_up_failed_def split: sum.splits option.splits if_splits)
    (erule dead_commit; simp)

lemma ends_password:
  assumes "change_password dp inp rq old new (u, m) s = (Inr r, s')" and "lone inp" and "users_ok (d_users (a_db s))"
    and "u \<in> set (d_users (a_db s))"
  shows "dead (u_auth_id u) (u_token_version u) (d_users (a_db s'))"
  using assms dead_edit [OF assms(3,4), of "\<lambda>r. u_password_hash r = u_password_hash u \<and> u_token_version r = u_token_version u"
      "\<lambda>r. r\<lparr>u_password_hash := dp_hash dp new, u_token_version := u_token_version r + 1\<rparr>"]
  by (auto simp: change_password_def lone_def Let_def step_up_failed_def split: sum.splits if_splits)

lemma ends_edit:
  assumes "edit_user dp inp uid b admin s = (Inr r, s')" and "users_ok (d_users (a_db s))"
    and "user_by_id (a_db s) uid = Some v" and "revokes_sessions b v"
  shows "dead (u_auth_id v) (u_token_version v) (d_users (a_db s'))"
proof -
  have v: "u_id v = uid" "v \<in> set (d_users (a_db s))" using user_id_of [OF assms(3)] by auto
  have "u_auth_id (updated_user dp b r) = u_auth_id r" for r by (simp add: updated_user_def changed_user_def)
  then show ?thesis using assms dead_edit_id [OF assms(2) v(2), of "updated_user dp b"] v(1)
    by (auto simp: edit_user_def updated_user_def split: if_splits)
qed

lemma ends_reset:
  assumes "reset_user_mfa inp uid admin s = (Inr r, s')" and "users_ok (d_users (a_db s))"
    and "user_by_id (a_db s) uid = Some v"
  shows "dead (u_auth_id v) (u_token_version v) (d_users (a_db s'))"
proof -
  have v: "u_id v = uid" "v \<in> set (d_users (a_db s))" using user_id_of [OF assms(3)] by auto
  let ?f = "\<lambda>u. u\<lparr>u_mfa_secret := [], u_mfa_confirmed := False, u_mfa_last_counter := -1, u_token_version := u_token_version u + 1\<rparr>"
  show ?thesis using assms(1,3) dead_edit_id [OF assms(2) v(2), of ?f] v(1)
    by (auto simp: reset_user_mfa_def split: if_splits)
qed

lemma ends_delete:
  assumes "delete_user inp uid admin s = (Inr r, s')" and "users_ok (d_users (a_db s))"
    and "user_by_id (a_db s) uid = Some v"
  shows "dead (u_auth_id v) (u_token_version v) (d_users (a_db s'))"
proof -
  have v: "u_id v = uid" "v \<in> set (d_users (a_db s))" using user_id_of [OF assms(3)] by auto
  show ?thesis using assms(1,3) dead_gone [OF assms(2) v(2)] v(1)
    by (auto simp: delete_user_def split: if_splits)
qed

text \<open>The user whose sessions a call ends.\<close>

fun ends :: "call \<Rightarrow> user \<Rightarrow> db \<Rightarrow> user option" where
  "ends Logout u d = Some u"
| "ends (Mfa_Confirm c) u d = Some u"
| "ends (Mfa_Disable p c) u d = Some u"
| "ends (Change_Password old new) u d = Some u"
| "ends (Update_User uid b) u d =
     (case user_by_id d uid of Some v \<Rightarrow> if revokes_sessions b v then Some v else None | None \<Rightarrow> None)"
| "ends (Delete_User uid) u d = user_by_id d uid"
| "ends (Reset_Mfa uid) u d = user_by_id d uid"
| "ends _ u d = None"

lemma with_sessionD:
  assumes "with_session dp inp rq bearer ok handler s = (Inr r, s')"
    and "session_of dp inp rq bearer (a_db s) = Inr session"
  shows "handler session s = (Inr r, s')"
  using assms by (auto simp: with_session_def split: if_splits)

lemma with_adminD:
  assumes "with_admin dp inp rq bearer ok handler s = (Inr r, s')"
    and "session_of dp inp rq bearer (a_db s) = Inr session"
  shows "handler (fst session) s = (Inr r, s')"
  using assms by (cases session) (auto simp: with_admin_def require_admin_def split: sum.splits if_splits)

lemma served_ends:
  assumes "serve dp inp rq bearer c s = (Inr r, s')" and "session_of dp inp rq bearer (a_db s) = Inr (u, mfa)"
    and "ends c u (a_db s) = Some v" and "lone inp" and "users_ok (d_users (a_db s))"
  shows "dead (u_auth_id v) (u_token_version v) (d_users (a_db s'))"
proof -
  have u: "u \<in> set (d_users (a_db s))" using assms(2) current_user(3) by (auto simp: session_of_def)
  note sess = with_sessionD [OF _ assms(2)] and adm = with_adminD [OF _ assms(2)]
  show ?thesis
    using assms(1,3-5) u
    by (cases c) (auto dest!: sess adm split: option.splits if_splits
        intro: ends_logout ends_confirm ends_disable ends_password ends_edit ends_reset ends_delete)
qed

lemma dead_token_refused:
  assumes "dead aid ver (d_users d)" and "\<And>tok p. decode tok = Some p \<Longrightarrow> c_aid p = Some aid \<and> (\<exists>w \<le> ver. c_ver p = Some w)"
  shows "get_current_user decode rq bearer d = Inl invalid_token"
proof (cases "get_current_user decode rq bearer d")
  case (Inr session)
  then obtain u mfa where s: "get_current_user decode rq bearer d = Inr (u, mfa)" by (cases session) simp
  then obtain tok p where p: "decode tok = Some p" "c_aid p = Some (u_auth_id u)" "c_ver p = Some (u_token_version u)"
    unfolding get_current_user_def Let_def by (fastforce split: if_split_asm option.split_asm)
  have "u \<in> set (d_users d)" using current_user(3) [OF s] .
  then show ?thesis using assms(2) [OF p(1)] p assms(1) by (auto simp: dead_def list_all_iff)
next
  case (Inl e)
  then show ?thesis unfolding get_current_user_def Let_def by (auto split: if_split_asm option.split_asm)
qed

text \<open>
  C4.  An ended session never comes back: once a call has ended the sessions of a user (logging out,
  changing the password or the second factor, or an administrator's change of role, activity,
  password or factor, or the deletion), every token of that user issued up to then is refused, after
  whatever requests follow.
\<close>

theorem ended_sessions_never_return:
  assumes "users_ok (d_users (a_db s))" and "lone inp" and "session_of dp inp rq bearer (a_db s) = Inr (u, mfa)"
    and "serve dp inp rq bearer c s = (Inr r, s')" and "ends c u (a_db s) = Some v"
    and "i_auth_id inp \<notin> u_auth_id ` set (d_users (a_db s))"
    and "one_by_one dp later s'" and "u_auth_id v \<notin> (i_auth_id \<circ> ar_inputs) ` set later"
    and "\<And>tok p. decode tok = Some p \<Longrightarrow> c_aid p = Some (u_auth_id v) \<and> (\<exists>w \<le> u_token_version v. c_ver p = Some w)"
  shows "get_current_user decode rq' bearer' (a_db (serve_all dp later s')) = Inl invalid_token"
proof -
  have d: "dead (u_auth_id v) (u_token_version v) (d_users (a_db s'))"
    using served_ends [OF assms(4,3,5,2,1)] .
  have s': "s' = snd (serve dp inp rq bearer c s)" using assms(4) by simp
  obtain actor where "users_step actor (i_auth_id inp) (d_users (a_db s)) (d_users (a_db s'))"
    using serve_users [OF assms(2)] unfolding s' by blast
  then have "users_ok (d_users (a_db s'))" using users_ok_step assms(1,6) by blast
  with assms(7) d assms(8) have "dead (u_auth_id v) (u_token_version v) (d_users (a_db (serve_all dp later s')))"
    using serve_all_users [of dp later s' "u_auth_id v" "u_token_version v"] by blast
  then show ?thesis using assms(9) by (rule dead_token_refused)
qed

definition ann_claims :: claims where
  "ann_claims = \<lparr>c_sub = Some ''ann'', c_uid = Some 1, c_aid = Some ''aid-ann'', c_ver = Some 1, c_mfa = False,
     c_iat = 0, c_jti = [], c_iss = [], c_aud = [], c_exp = 0\<rparr>"

theorem ended_sessions_never_return_witness:
  "get_current_user (\<lambda>_. Some ann_claims) demo_request (Some ''ann'')
     (a_db (serve_all demo_deployment [arrive ''bob'' (Update_User 1 (no_change\<lparr>uu_display_name := Some ''Ann''\<rparr>))]
       (snd (serve demo_deployment (demo_inputs 0) demo_request (Some ''ann'') Logout demo_accounts)))) = Inl invalid_token"
proof -
  let ?s = "snd (serve demo_deployment (demo_inputs 0) demo_request (Some ''ann'') Logout demo_accounts)"
  let ?ann = "demo_user 1 ''ann'' ''admin''"
  have ok: "users_ok (d_users (a_db demo_accounts))" by code_simp
  have lone: "lone (demo_inputs 0)" by (simp add: lone_def demo_inputs_def)
  have sess: "session_of demo_deployment (demo_inputs 0) demo_request (Some ''ann'') (a_db demo_accounts) = Inr (?ann, False)"
    by code_simp
  have "case fst (serve demo_deployment (demo_inputs 0) demo_request (Some ''ann'') Logout demo_accounts) of Inl e \<Rightarrow> False | Inr r \<Rightarrow> True"
    by code_simp
  then obtain r where served: "serve demo_deployment (demo_inputs 0) demo_request (Some ''ann'') Logout demo_accounts = (Inr r, ?s)"
    by (cases "serve demo_deployment (demo_inputs 0) demo_request (Some ''ann'') Logout demo_accounts"; cases "fst (serve demo_deployment (demo_inputs 0) demo_request (Some ''ann'') Logout demo_accounts)") auto
  have fresh: "i_auth_id (demo_inputs 0) \<notin> u_auth_id ` set (d_users (a_db demo_accounts))" by code_simp
  have "''fresh'' \<notin> u_auth_id ` set (d_users (a_db ?s))" by code_simp
  then have later: "one_by_one demo_deployment [arrive ''bob'' (Update_User 1 (no_change\<lparr>uu_display_name := Some ''Ann''\<rparr>))] ?s"
    using lone by (simp add: arrive_def demo_inputs_def del: serve.simps)
  have other: "u_auth_id ?ann \<notin> (i_auth_id \<circ> ar_inputs) ` set [arrive ''bob'' (Update_User 1 (no_change\<lparr>uu_display_name := Some ''Ann''\<rparr>))]"
    by code_simp
  show ?thesis
    by (rule ended_sessions_never_return [OF ok lone sess served _ fresh later other])
      (auto simp: ann_claims_def demo_user_def)
qed

section \<open>A code admits one login\<close>

text \<open>The user with this id has his factor confirmed and his counter is at least \<open>c\<close>.\<close>

definition spent :: "int \<Rightarrow> int \<Rightarrow> user list \<Rightarrow> bool" where
  "spent uid c us \<longleftrightarrow> uid \<in> u_id ` set us \<and>
     list_all (\<lambda>u. u_id u = uid \<longrightarrow> mfa_enrolled u \<and> c \<le> u_mfa_last_counter u) us"

lemma spent_edit:
  assumes "spent uid c us"
    and "\<And>r. u_id (f r) = u_id r"
    and "\<And>r. Q r \<Longrightarrow> u_id r = uid \<Longrightarrow> mfa_enrolled r \<Longrightarrow> c \<le> u_mfa_last_counter r \<Longrightarrow>
      mfa_enrolled (f r) \<and> c \<le> u_mfa_last_counter (f r)"
  shows "spent uid c (map (\<lambda>r. if Q r then f r else r) us)"
proof -
  let ?us = "map (\<lambda>r. if Q r then f r else r) us"
  have "map u_id ?us = map u_id us" using assms(2) by auto
  then have "u_id ` set ?us = u_id ` set us" by (metis set_map)
  moreover have "list_all (\<lambda>u. u_id u = uid \<longrightarrow> mfa_enrolled u \<and> c \<le> u_mfa_last_counter u) ?us"
    using assms by (auto simp: spent_def list_all_iff)
  ultimately show ?thesis using assms(1) unfolding spent_def by simp
qed

lemma verified_counter:
  assumes "login_counter dp inp u otp = Some c"
  shows "u_mfa_last_counter u < c"
  using assms verify_totp_Some by (auto simp: login_counter_def split: sum.splits)

lemma spent_commit:
  assumes "commit_mfa_transition u f d = Some d'" and "spent uid c (d_users d)"
    and "\<And>r. u_id (f r) = u_id r" and "\<And>r. mfa_enrolled r \<Longrightarrow> mfa_enrolled (f r)"
    and "\<And>r. u_mfa_last_counter r = u_mfa_last_counter u \<Longrightarrow> u_mfa_last_counter r \<le> u_mfa_last_counter (f r)"
  shows "spent uid c (d_users d')"
proof -
  have "spent uid c (map (\<lambda>r. if u_id r = u_id u \<and> u_mfa_last_counter r = u_mfa_last_counter u
      \<and> u_token_version r = u_token_version u then f r else r) (d_users d))"
    by (rule spent_edit [OF assms(2,3)]) (use assms(4,5) in \<open>fastforce intro: order.trans\<close>)
  then show ?thesis using assms(1) by (auto simp: commit_mfa_transition_def split: if_splits)
qed

lemma spent_login:
  assumes "lone inp" and "spent uid c (d_users (a_db s))"
  shows "spent uid c (d_users (a_db (snd (authenticate dp inp rq n p otp s))))"
  using assms
  by (auto simp: authenticate_def lone_def Let_def mfa_enrolled_def split: sum.splits prod.splits bool.splits option.splits)
    (erule spent_commit, assumption, auto simp: mfa_enrolled_def dest!: verified_counter)

lemma spent_confirm:
  assumes "lone inp" and "spent uid c (d_users (a_db s))"
  shows "spent uid c (d_users (a_db (snd (mfa_confirm dp inp given u s))))"
  using assms
  by (auto simp: mfa_confirm_def lone_def Let_def split: sum.splits option.splits)
    (erule spent_commit, assumption, auto simp: mfa_enrolled_def dest!: verify_totp_Some)

lemma spent_setup:
  assumes "spent uid c (d_users (a_db s))" and "u \<in> set (d_users (a_db s))"
  shows "spent uid c (d_users (a_db (snd (mfa_setup dp inp u s))))"
proof (cases "mfa_enrolled u")
  case True
  then show ?thesis using assms by (auto simp: mfa_setup_def split: option.splits)
next
  case False
  then have "u_id u \<noteq> uid" using assms by (auto simp: spent_def list_all_iff)
  then show ?thesis using False assms
    by (auto simp: mfa_setup_def Let_def intro!: spent_edit split: option.splits sum.splits)
qed

lemma spent_logout: "spent uid c (d_users (a_db s)) \<Longrightarrow> spent uid c (d_users (a_db (snd (logout dp inp u s))))"
  by (auto simp: logout_def increment_token_version_def mfa_enrolled_def intro!: spent_edit split: sum.splits if_splits)

lemma spent_password:
  assumes "lone inp" and "spent uid c (d_users (a_db s))"
  shows "spent uid c (d_users (a_db (snd (change_password dp inp rq old new session s))))"
  using assms by (auto simp: change_password_def lone_def Let_def mfa_enrolled_def intro!: spent_edit split: sum.splits)

lemma spent_create:
  assumes "spent uid c (d_users (a_db s))"
  shows "spent uid c (d_users (a_db (snd (create_user dp inp b admin s))))"
proof -
  have "next_user_id (a_db s) \<noteq> uid" using assms next_user_id_fresh [of "a_db s"] by (auto simp: spent_def)
  then show ?thesis using assms by (auto simp: create_user_def Let_def new_user_def spent_def)
qed

lemma spent_update:
  assumes "spent uid c (d_users (a_db s))"
  shows "spent uid c (d_users (a_db (snd (edit_user dp inp i b admin s))))"
  using assms
  by (auto simp: edit_user_def updated_user_def changed_user_def mfa_enrolled_def intro!: spent_edit split: option.splits)

text \<open>The calls that take a second factor or a user away.\<close>

fun forgets :: "call \<Rightarrow> bool" where
  "forgets (Mfa_Disable p c) = True"
| "forgets (Delete_User uid) = True"
| "forgets (Reset_Mfa uid) = True"
| "forgets _ = False"

lemma spent_serve:
  assumes "lone inp" and "spent uid c (d_users (a_db s))" and "\<not> forgets k"
  shows "spent uid c (d_users (a_db (snd (serve dp inp rq bearer k s))))"
proof -
  have known: "u \<in> set (d_users (a_db s))" if "session_of dp inp rq bearer (a_db s) = Inr (u, mfa)" for u mfa
    using that current_user(3) by (auto simp: session_of_def)
  show ?thesis using assms
    by (cases k) (auto simp: login_form_def login_body_def with_session_def with_admin_def
        intro: spent_login spent_confirm spent_setup known spent_logout spent_password spent_create spent_update
        split: sum.splits)
qed

lemma spent_serve_all:
  assumes "list_all (\<lambda>a. lone (ar_inputs a) \<and> \<not> forgets (ar_call a)) later" and "spent uid c (d_users (a_db s))"
  shows "spent uid c (d_users (a_db (serve_all dp later s)))"
  using assms
proof (induction later arbitrary: s)
  case (Cons a as)
  then show ?case using spent_serve [of "ar_inputs a" uid c s "ar_call a"] by (simp add: serve_all_def)
qed (simp add: serve_all_def)

text \<open>What a login with a second factor has done when it succeeds.\<close>

lemma factor_login:
  assumes "authenticate dp inp rq n p otp s = (Inr r, s')" and "find (\<lambda>u. u_username u = n) (d_users (a_db s)) = Some u"
    and "needs_code (dp_settings dp) u"
  shows "\<exists>c d'. login_counter dp inp u otp = Some c \<and> d_users (a_db s') = d_users d' \<and>
    commit_mfa_transition u (\<lambda>u. u\<lparr>u_mfa_last_counter := c\<rparr>) (i_between inp (a_db s)) = Some d'"
  using assms
  by (auto simp: authenticate_def Let_def refuse_login_def finish_login_def
      split: sum.splits prod.splits bool.splits option.splits if_splits)

lemma committed_rows:
  assumes "commit_mfa_transition u f d = Some d'"
  shows "\<exists>r \<in> set (d_users d). u_id r = u_id u \<and> u_mfa_last_counter r = u_mfa_last_counter u"
proof -
  have "filter (\<lambda>r. u_id r = u_id u \<and> u_mfa_last_counter r = u_mfa_last_counter u \<and> u_token_version r = u_token_version u)
      (d_users d) \<noteq> []"
    using assms by (auto simp: commit_mfa_transition_def split: if_splits)
  then show ?thesis by (auto simp: filter_empty_conv)
qed

text \<open>
  C5.  A one-time code admits one login: when two logins of an account with a second factor succeed, the
  second one committing on the database that the first one and any later requests have left (that
  do not take the factor or the account away), then the time step of its code is later than the
  step of the first.  The second login may have read the account at any moment, also before the
  first one finished; the same code is never accepted twice.
\<close>

theorem code_admits_one_login:
  assumes "authenticate dp inp rq n p otp s = (Inr r, s1)" and "lone inp" and "users_ok (d_users (a_db s))"
    and "find (\<lambda>u. u_username u = n) (d_users (a_db s)) = Some u" and "needs_code (dp_settings dp) u"
    and "list_all (\<lambda>a. lone (ar_inputs a) \<and> \<not> forgets (ar_call a)) later"
    and "authenticate dp inp' rq' n' p' otp' s2 = (Inr r', s3)"
    and "find (\<lambda>u. u_username u = n') (d_users (a_db s2)) = Some v" and "needs_code (dp_settings dp) v"
    and "u_id v = u_id u" and "i_between inp' (a_db s2) = a_db (serve_all dp later s1)"
  shows "\<exists>c c'. login_counter dp inp u otp = Some c \<and> login_counter dp inp' v otp' = Some c' \<and> c < c'"
proof -
  obtain c d' where c: "login_counter dp inp u otp = Some c" and s1: "d_users (a_db s1) = d_users d'"
    and d': "commit_mfa_transition u (\<lambda>u. u\<lparr>u_mfa_last_counter := c\<rparr>) (a_db s) = Some d'"
    using factor_login [OF assms(1,4,5)] assms(2) by (auto simp: lone_def)
  obtain c' d'' where c': "login_counter dp inp' v otp' = Some c'"
    and d'': "commit_mfa_transition v (\<lambda>u. u\<lparr>u_mfa_last_counter := c'\<rparr>) (a_db (serve_all dp later s1)) = Some d''"
    using factor_login [OF assms(7-9)] assms(11) by auto
  have u: "u \<in> set (d_users (a_db s))" "mfa_enrolled u" using assms(4,5) by (auto simp: find_Some_iff needs_code_def)
  have only: "r = u" if "r \<in> set (d_users (a_db s))" "u_id r = u_id u" for r
    using that u(1) assms(3) by (auto simp: users_ok_def distinct_map dest: inj_onD)
  have "d_users d' = map (\<lambda>r. if u_id r = u_id u \<and> u_mfa_last_counter r = u_mfa_last_counter u
      \<and> u_token_version r = u_token_version u then r\<lparr>u_mfa_last_counter := c\<rparr> else r) (d_users (a_db s))"
    using d' by (auto simp: commit_mfa_transition_def split: if_splits)
  also have "\<dots> = map (\<lambda>r. if u_id r = u_id u then r\<lparr>u_mfa_last_counter := c\<rparr> else r) (d_users (a_db s))"
    by (intro map_cong refl) (metis only)
  finally have "d_users d' = map (\<lambda>r. if u_id r = u_id u then r\<lparr>u_mfa_last_counter := c\<rparr> else r) (d_users (a_db s))" .
  note rows = this
  have counted: "mfa_enrolled x \<and> c \<le> u_mfa_last_counter x" if x: "x \<in> set (d_users d')" "u_id x = u_id u" for x
  proof -
    obtain r where "r \<in> set (d_users (a_db s))" "x = (if u_id r = u_id u then r\<lparr>u_mfa_last_counter := c\<rparr> else r)"
      using x(1) unfolding rows by auto
    moreover from this have "r = u" using only x(2) by (metis (no_types, lifting) user.ext_inject user.surjective user.update_convs(12))
    ultimately show ?thesis using u(2) by (simp add: mfa_enrolled_def)
  qed
  have "map u_id (d_users d') = map u_id (d_users (a_db s))" unfolding rows by simp
  then have "u_id u \<in> u_id ` set (d_users d')" using u(1) by (metis image_eqI list.set_map)
  with counted have "spent (u_id u) c (d_users (a_db s1))" unfolding s1 spent_def list_all_iff by blast
  then have "spent (u_id u) c (d_users (a_db (serve_all dp later s1)))"
    by (rule spent_serve_all [OF assms(6)])
  then have "c \<le> u_mfa_last_counter v"
    using committed_rows [OF d''] assms(10) by (auto simp: spent_def list_all_iff)
  then show ?thesis using c c' verified_counter [OF c'] by auto
qed


definition factor_deployment :: deployment where
  "factor_deployment = demo_deployment\<lparr>dp_settings := default_settings\<lparr>CREDENTIAL_ENCRYPTION_KEYS := ''k''\<rparr>\<rparr>"

definition cat_user :: user where
  "cat_user = (demo_user 3 ''cat'' ''admin'')\<lparr>u_mfa_secret := ''kAAAAAAAA'', u_mfa_confirmed := True\<rparr>"

definition factor_accounts :: accounts where
  "factor_accounts = demo_accounts\<lparr>a_db := empty_db\<lparr>d_users := [cat_user]\<rparr>\<rparr>"

definition cat_login :: "time \<Rightarrow> string \<Rightarrow> accounts \<Rightarrow> reply handled" where
  "cat_login t otp = authenticate factor_deployment (demo_inputs t) demo_request ''cat'' ''cat'' otp"



text \<open>The codes of the demonstration: the digits are those of the time step.\<close>

lemma demo_code:
  assumes "counter_bytes n = [0, 0, 0, 0, 0, 0, 0, b]" and "truncated ([0, 0, 0, b] @ replicate 16 0) = b"
    and "b < 1000000" and "zero_pad 6 b = given"
  shows "totp_at (dp_hmac factor_deployment) (''AAAAAAAA'') n = Some given"
proof -
  have key: "b32decode (padded_secret (''AAAAAAAA'')) = Some (replicate 5 0)" by code_simp
  have "dp_hmac factor_deployment k [0, 0, 0, 0, 0, 0, 0, b] = [0, 0, 0, b] @ replicate 16 0" for k
    by (simp add: factor_deployment_def demo_deployment_def)
  then show ?thesis unfolding totp_at_def key using assms by simp
qed

lemma demo_codes:
  "totp_at (dp_hmac factor_deployment) (''AAAAAAAA'') 10 = Some ''000010''"
  "totp_at (dp_hmac factor_deployment) (''AAAAAAAA'') 11 = Some ''000011''"
  by (rule demo_code [where b = 10], code_simp, code_simp, simp, code_simp)
    (rule demo_code [where b = 11], code_simp, code_simp, simp, code_simp)

lemma demo_secret: "decrypt_text (dp_fernet factor_deployment) (dp_settings factor_deployment) (''kAAAAAAAA'')
    = Inr (''AAAAAAAA'')"
  by code_simp

lemma demo_counters:
  "login_counter factor_deployment (demo_inputs (seconds 300)) cat_user ''000010'' = Some 10"
  "login_counter factor_deployment (demo_inputs (seconds 330)) (cat_user\<lparr>u_mfa_last_counter := 10\<rparr>) ''000011'' = Some 11"
proof -
  have digits: "list_all is_digit ''000010''" "list_all is_digit ''000011''" by code_simp+
  have cat_user: "u_mfa_secret cat_user = ''kAAAAAAAA''" "u_mfa_last_counter cat_user = -1"
    by (simp_all add: cat_user_def demo_user_def)
  show "login_counter factor_deployment (demo_inputs (seconds 300)) cat_user ''000010'' = Some 10"
    using digits(1) demo_codes(1)
    by (simp add: login_counter_def cat_user demo_secret verify_totp_def demo_inputs_def seconds_def)
  show "login_counter factor_deployment (demo_inputs (seconds 330)) (cat_user\<lparr>u_mfa_last_counter := 10\<rparr>) ''000011'' = Some 11"
    using digits(2) demo_codes(2)
    by (simp add: login_counter_def cat_user demo_secret verify_totp_def demo_inputs_def seconds_def)
qed

definition cat_after :: accounts where
  "cat_after = audited (demo_inputs (seconds 300)) ''cat'' ''login'' ''ip=10.0.0.9''
       (factor_accounts\<lparr>a_db := empty_db\<lparr>d_users := [cat_user\<lparr>u_mfa_last_counter := 10\<rparr>]\<rparr>\<rparr>)"

lemma demo_logins:
  "cat_login (seconds 300) ''000010'' factor_accounts =
     (Inr (session_reply factor_deployment (demo_inputs (seconds 300)) cat_user ''cat''), cat_after)"
  "fst (cat_login (seconds 330) ''000011'' cat_after) = Inr (session_reply factor_deployment (demo_inputs (seconds 330))
     (cat_user\<lparr>u_mfa_last_counter := 10\<rparr>) ''cat'')"
proof -
  have origin: "enforce_login_origin (dp_settings factor_deployment) demo_request = Inr ()" by code_simp
  have ip: "resolve_client_ip (dp_settings factor_deployment) demo_request = ''10.0.0.9''" by code_simp
  have free: "check new_limiter t i n = (True, 0)" for t i n by (simp add: check_def locked_for_def new_limiter_def)
  have quiet: "record_success i n new_limiter = new_limiter" for i n by (simp add: record_success_def new_limiter_def)
  have pw: "verify_password (dp_verify factor_deployment) ''cat'' ''pw-cat''" by code_simp
  have need: "needs_code (dp_settings factor_deployment) cat_user"
    "needs_code (dp_settings factor_deployment) (cat_user\<lparr>u_mfa_last_counter := 10\<rparr>)" by code_simp+
  have cat_user: "u_username cat_user = ''cat''" "u_password_hash cat_user = ''pw-cat''" "u_is_active cat_user" "u_id cat_user = 3"
    "u_mfa_last_counter cat_user = -1" "u_token_version cat_user = 1" by (simp_all add: cat_user_def demo_user_def)
  have accounts: "d_users (a_db factor_accounts) = [cat_user]" "a_login factor_accounts = new_limiter"
    by (simp_all add: factor_accounts_def demo_accounts_def)
  have now: "i_between (demo_inputs t) = (\<lambda>d. d)" for t by (simp add: demo_inputs_def)
  have token: "issue_token factor_deployment inp u m v = u_username u" for inp u m v
    by (simp add: issue_token_def create_access_token_def factor_deployment_def demo_deployment_def the_default_def)
  have after: "d_users (a_db cat_after) = [cat_user\<lparr>u_mfa_last_counter := 10\<rparr>]" "a_login cat_after = new_limiter"
    by (simp_all add: cat_after_def audited_def audit_def factor_accounts_def demo_accounts_def)
  show "cat_login (seconds 300) ''000010'' factor_accounts = (Inr (session_reply factor_deployment (demo_inputs (seconds 300)) cat_user ''cat''), cat_after)"
    by (simp add: cat_login_def authenticate_def origin ip accounts free cat_user pw need demo_counters now cat_after_def
        commit_mfa_transition_def finish_login_def token quiet)
      (simp add: factor_accounts_def demo_accounts_def quiet)
  show "fst (cat_login (seconds 330) ''000011'' cat_after) = Inr (session_reply factor_deployment (demo_inputs (seconds 330))
     (cat_user\<lparr>u_mfa_last_counter := 10\<rparr>) ''cat'')"
    by (simp add: cat_login_def authenticate_def origin ip accounts free cat_user pw need demo_counters now after
        commit_mfa_transition_def finish_login_def token Let_def)
qed

theorem code_admits_one_login_witness:
  "\<exists>c c'. login_counter factor_deployment (demo_inputs (seconds 300)) cat_user ''000010'' = Some c \<and>
     login_counter factor_deployment (demo_inputs (seconds 330)) (cat_user\<lparr>u_mfa_last_counter := 10\<rparr>) ''000011'' = Some c' \<and> c < c'"
proof (rule code_admits_one_login [OF demo_logins(1) [unfolded cat_login_def]])
  show "lone (demo_inputs (seconds 300))" by (simp add: lone_def demo_inputs_def)
  show "users_ok (d_users (a_db factor_accounts))" by code_simp
  show "find (\<lambda>u. u_username u = ''cat'') (d_users (a_db factor_accounts)) = Some cat_user"
    by (simp add: factor_accounts_def cat_user_def demo_user_def)
  show "needs_code (dp_settings factor_deployment) cat_user"
    "needs_code (dp_settings factor_deployment) (cat_user\<lparr>u_mfa_last_counter := 10\<rparr>)" by code_simp+
  show "list_all (\<lambda>a. lone (ar_inputs a) \<and> \<not> forgets (ar_call a)) []" by simp
  show "authenticate factor_deployment (demo_inputs (seconds 330)) demo_request ''cat'' ''cat'' ''000011'' cat_after =
      (Inr (session_reply factor_deployment (demo_inputs (seconds 330)) (cat_user\<lparr>u_mfa_last_counter := 10\<rparr>) ''cat''),
       snd (cat_login (seconds 330) ''000011'' cat_after))"
    using demo_logins(2) by (metis cat_login_def prod.collapse)
  show "find (\<lambda>u. u_username u = ''cat'') (d_users (a_db cat_after)) = Some (cat_user\<lparr>u_mfa_last_counter := 10\<rparr>)"
    by (simp add: cat_after_def factor_accounts_def cat_user_def demo_user_def)
  show "u_id (cat_user\<lparr>u_mfa_last_counter := 10\<rparr>) = u_id cat_user" by simp
  show "i_between (demo_inputs (seconds 330)) (a_db cat_after) = a_db (serve_all factor_deployment [] cat_after)"
    by (simp add: demo_inputs_def serve_all_def)
qed

section \<open>A refusal tells nothing\<close>

lemma refused_login:
  assumes "authenticate dp inp rq n p otp s = (Inl e, s')"
  shows "(case enforce_login_origin (dp_settings dp) rq of Inl e' \<Rightarrow> e = e' \<and> a_login s' = a_login s
    | Inr _ \<Rightarrow> (case check (a_login s) (clock inp) (resolve_client_ip (dp_settings dp) rq) n of
        (False, retry) \<Rightarrow> e = TooMany (max 1 retry) (locked_detail retry) \<and> a_login s' = a_login s
      | (True, _) \<Rightarrow> e = HTTPException 401 INVALID_CREDENTIALS_DETAIL \<and>
          a_login s' = record_failure (clock inp) (resolve_client_ip (dp_settings dp) rq) n (a_login s)))"
  using assms
  by (auto simp: authenticate_def Let_def refuse_login_def finish_login_def audited_def
      split: sum.splits prod.splits bool.splits option.splits if_splits)

text \<open>
  C31.  A refused login does not tell why: for the same request at the same time, with the limiter in the
  same state, the answer and what is counted are the same whether the account exists or not, is
  active or not, has another password, or asks for a code.
\<close>

theorem refused_logins_look_alike:
  assumes "authenticate dp inp rq n p otp s = (Inl e, s')" and "authenticate dp inp rq n p otp t = (Inl e', t')"
    and "a_login s = a_login t"
  shows "e = e' \<and> a_login s' = a_login t'"
  using refused_login [OF assms(1)] refused_login [OF assms(2)] assms(3)
  by (auto split: sum.splits prod.splits bool.splits)

lemma stranger_refused:
  "authenticate demo_deployment (demo_inputs 0) demo_request ''eve'' ''guess'' [] demo_accounts =
     (Inl (HTTPException 401 INVALID_CREDENTIALS_DETAIL),
      snd (authenticate demo_deployment (demo_inputs 0) demo_request ''eve'' ''guess'' [] demo_accounts))" (is "?x = _")
proof -
  have "fst ?x = Inl (HTTPException 401 INVALID_CREDENTIALS_DETAIL)" by code_simp
  then show ?thesis by (metis prod.collapse)
qed

text \<open>The witness compares a name nobody has with a wrong password of an existing account.\<close>

definition eve_accounts :: accounts where
  "eve_accounts = demo_accounts\<lparr>a_db := empty_db\<lparr>d_users := [demo_user 7 ''eve'' ''viewer'']\<rparr>\<rparr>"

theorem refused_logins_look_alike_witness:
  "a_login (snd (authenticate demo_deployment (demo_inputs 0) demo_request ''eve'' ''guess'' [] demo_accounts)) =
   a_login (snd (authenticate demo_deployment (demo_inputs 0) demo_request ''eve'' ''guess'' [] eve_accounts))"
proof -
  let ?y = "authenticate demo_deployment (demo_inputs 0) demo_request ''eve'' ''guess'' [] eve_accounts"
  have "fst ?y = Inl (HTTPException 401 INVALID_CREDENTIALS_DETAIL)" by code_simp
  then have "?y = (Inl (HTTPException 401 INVALID_CREDENTIALS_DETAIL), snd ?y)" by (metis prod.collapse)
  moreover have "a_login demo_accounts = a_login eve_accounts" by (simp add: eve_accounts_def)
  ultimately show ?thesis using refused_logins_look_alike [OF stranger_refused] by blast
qed

end
