(* ===== verification/Startup.thy ===== *)
theory Startup
  imports Accounts Notifier
begin

text \<open>
  The checks a process makes before it serves: \<open>backend/app/main.py\<close> (\<open>_validate_runtime_security\<close>,
  \<open>redis_security_errors\<close>, the part of \<open>lifespan\<close> that writes to the database) and
  \<open>database_security_errors\<close> of \<open>backend/app/database.py\<close>.  SQLAlchemy's reading of the database URL
  is a parameter, its result a record.
\<close>

section \<open>Secrets\<close>

definition weak_secret :: "string \<Rightarrow> bool" where
  "weak_secret value \<longleftrightarrow>
     (let normalized = lower (strip value)
      in length (strip value) < 32 \<or> normalized \<in> set PUBLIC_SECRET_PLACEHOLDERS \<or> contains ''change-me'' normalized)"

section \<open>The database URL\<close>

record db_url =
  du_drivername :: string
  du_username :: string
  du_password :: string
  du_host :: string
  du_query :: "(string, string) dict"

text \<open>Is this text the address of the local machine?\<close>

definition loopback_text :: "string \<Rightarrow> bool" where
  "loopback_text host \<longleftrightarrow> (case ip_address host of Some a \<Rightarrow> is_loopback a | None \<Rightarrow> False)"

definition strip_brackets :: "string \<Rightarrow> string" where
  "strip_brackets h = rev (dropWhile (\<lambda>c. c \<in> set ''[]'') (rev (dropWhile (\<lambda>c. c \<in> set ''[]'') h)))"

definition message_if :: "bool \<Rightarrow> string \<Rightarrow> string list" where
  "message_if b m = (if b then [m] else [])"

definition is_tls_option :: "string \<Rightarrow> bool" where
  "is_tls_option key \<longleftrightarrow> casefold key = ''ssl'' \<or> is_prefix ''ssl_'' (casefold key)"

text \<open>\<open>sorted\<close> of texts.\<close>

definition sorted_texts :: "string list \<Rightarrow> string list" where
  "sorted_texts = sort_key (map code)"

definition mysql_errors :: "settings \<Rightarrow> db_url \<Rightarrow> string list" where
  "mysql_errors st u =
     (let tls = sorted_texts (filter is_tls_option (keys (du_query u)));
          unix_socket = the_default [] (map_of (du_query u) ''unix_socket'') \<noteq> [];
          host = strip_brackets (du_host u)
      in message_if (tls \<noteq> [])
           (''DATABASE_URL must not contain TLS query options; use the DATABASE_SSL_* settings only (found: '' @ join '', '' tls @ '')'') @
         message_if (length (du_password u) < 16) ''the MySQL account password must contain at least 16 characters'' @
         message_if (lower (du_username u) \<in> {''root'', ''admin'', ''administrator''}) ''the MySQL account must not be a database administrator'' @
         message_if ((DATABASE_SSL_CERT st \<noteq> []) \<noteq> (DATABASE_SSL_KEY st \<noteq> [])) ''DATABASE_SSL_CERT and DATABASE_SSL_KEY must be configured together'' @
         message_if (DATABASE_SSL_CA st = [] \<and> \<not> (unix_socket \<or> loopback_text host))
           ''non-loopback MySQL requires DATABASE_SSL_CA; plaintext database credentials and traffic are not permitted'')"

definition database_security_errors :: "settings \<Rightarrow> db_url option \<Rightarrow> string list" where
  "database_security_errors st parsed =
     (case parsed of
        None \<Rightarrow> [''DATABASE_URL is invalid'']
      | Some u \<Rightarrow>
          message_if (du_drivername u \<notin> {''sqlite'', ''sqlite+pysqlite'', ''mysql+pymysql''})
            ''unsupported database driver; use sqlite, sqlite+pysqlite, or mysql+pymysql'' @
          message_if (lower (du_password u) \<in> {''admin123'', ''gpumon_pass_2024'', ''password'', ''changeme''})
            ''DATABASE_URL contains a public/default password'' @
          (if du_drivername u = ''mysql+pymysql'' then mysql_errors st u else [])) @
     message_if (DB_ECHO st) ''DB_ECHO must be disabled because SQL parameters may contain secrets''"

section \<open>The Redis URL\<close>

text \<open>The checks after the port; the URL is one of \<open>redis\<close> or \<open>rediss\<close>.\<close>

definition redis_account_errors :: "settings \<Rightarrow> string \<Rightarrow> url \<Rightarrow> string list" where
  "redis_account_errors st sch p =
     (let password = unquote (url_password p)
      in message_if (sch = ''redis'' \<and> \<not> loopback_text (strip_brackets (hostname p))) ''non-loopback Redis requires rediss://'' @
         message_if (sch = ''rediss'' \<and> length password < 16)
           ''rediss:// requires an authentication password of at least 16 characters'' @
         message_if (casefold password \<in> set PUBLIC_SECRET_PLACEHOLDERS) ''REDIS_URL contains a public/default password'' @
         message_if (strip (REDIS_SSL_CA st) \<noteq> [] \<and> sch \<noteq> ''rediss'') ''REDIS_SSL_CA is valid only with rediss://'')"

definition redis_security_errors :: "settings \<Rightarrow> string list" where
  "redis_security_errors st =
     (let raw = strip (REDIS_URL st); ca = strip (REDIS_SSL_CA st)
      in if raw = [] then message_if (ca \<noteq> []) ''REDIS_SSL_CA requires REDIS_URL''
         else case urlsplit raw of
             None \<Rightarrow> [''REDIS_URL is invalid'']
           | Some p \<Rightarrow>
               (let sch = casefold (scheme p);
                    early = message_if (fragment p \<noteq> []) ''REDIS_URL must not contain a fragment'' @
                      message_if (list_ex (\<lambda>k. is_prefix ''ssl_'' (casefold k)) (query_names (url_query p)))
                        ''REDIS_URL must not contain TLS query options; certificate verification is enforced centrally''
                in if sch \<notin> {''redis'', ''rediss'', ''unix''} then [''REDIS_URL must use redis://, rediss://, or unix://'']
                   else if sch = ''unix''
                   then early @ message_if (\<not> is_prefix ''/'' (url_path p)) ''unix REDIS_URL must contain an absolute socket path'' @
                     message_if (ca \<noteq> []) ''REDIS_SSL_CA is valid only with rediss://''
                   else if hostname p = [] then early @ [''REDIS_URL must contain a host'']
                   else if url_port p = None then early @ [''REDIS_URL is invalid'']
                   else early @ redis_account_errors st sch p))"

section \<open>The runtime settings\<close>

text \<open>\<open>repr\<close> of a printable text.\<close>

definition py_repr :: "string \<Rightarrow> string" where
  "py_repr s =
     (let q = (if CHR 0x27 \<in> set s \<and> CHR 0x22 \<notin> set s then CHR 0x22 else CHR 0x27)
      in [q] @ concat (map (\<lambda>c. if c = CHR 0x5C \<or> c = q then [CHR 0x5C, c] else [c]) s) @ [q])"

definition boolean_settings :: "settings \<Rightarrow> (string \<times> string) list" where
  "boolean_settings st =
     [(''AUTO_MIGRATE'', AUTO_MIGRATE st), (''COOKIE_SECURE'', COOKIE_SECURE st), (''ALLOW_INSECURE_HTTP'', ALLOW_INSECURE_HTTP st),
      (''REMOTE_PROCESS_CONTROL_ENABLED'', REMOTE_PROCESS_CONTROL_ENABLED st), (''ALLOW_ROOT_SSH'', ALLOW_ROOT_SSH st),
      (''REQUIRE_ADMIN_MFA'', REQUIRE_ADMIN_MFA st), (''TRUST_PROXY'', TRUST_PROXY st)]"

definition boolean_errors :: "settings \<Rightarrow> string list" where
  "boolean_errors st =
     concat (map (\<lambda>(name, v). message_if (lower (strip v) \<notin> {''yes'', ''no'', ''1'', ''0'', ''true'', ''false''})
       (name @ '' must be an explicit yes/no boolean value'')) (boolean_settings st))"

definition key_errors :: "settings \<Rightarrow> string list" where
  "key_errors st =
     (let jwt = strip (JWT_SIGNING_KEY st); ring = credential_encryption_keys st
      in (if jwt = [] then [''JWT_SIGNING_KEY is required (legacy SECRET_KEY fallback is not accepted at startup)'']
          else message_if (weak_secret (JWT_SIGNING_KEY st)) ''JWT_SIGNING_KEY must be a strong random value of at least 32 characters'') @
         (if strip (CREDENTIAL_ENCRYPTION_KEYS st) = [] then [''CREDENTIAL_ENCRYPTION_KEYS is required'']
          else message_if (list_ex weak_secret ring) ''every CREDENTIAL_ENCRYPTION_KEYS entry must be at least 32 random characters'') @
         message_if (jwt \<in> set ring) ''JWT_SIGNING_KEY must not be reused as a credential encryption key'' @
         message_if (strip (JWT_ISSUER st) = [] \<or> strip (JWT_AUDIENCE st) = []) ''JWT_ISSUER and JWT_AUDIENCE must not be empty'' @
         message_if (\<not> (5 \<le> ACCESS_TOKEN_EXPIRE_MINUTES st \<and> ACCESS_TOKEN_EXPIRE_MINUTES st \<le> 24 * 60))
           ''ACCESS_TOKEN_EXPIRE_MINUTES must be between 5 and 1440'')"

text \<open>\<open>bytes.fromhex\<close> of 64 characters gives 32 bytes only when all of them are hexadecimal digits.\<close>

definition archive_errors :: "settings \<Rightarrow> string list" where
  "archive_errors st =
     (let key = ARCHIVE_ENCRYPTION_KEY st
      in if ARCHIVE_DIR st = [] then []
         else if length key \<noteq> 64 \<or> \<not> list_all is_hex key
         then [''ARCHIVE_DIR requires a separate 64-hex-character ARCHIVE_ENCRYPTION_KEY'']
         else message_if (strip key = strip (JWT_SIGNING_KEY st) \<or> strip key \<in> set (credential_encryption_keys st))
           ''ARCHIVE_ENCRYPTION_KEY must not reuse an authentication or credential key'')"

definition cookie_errors :: "settings \<Rightarrow> string list" where
  "cookie_errors st =
     message_if (lower (COOKIE_SAMESITE st) \<notin> {''strict'', ''lax'', ''none''}) ''COOKIE_SAMESITE must be strict, lax, or none'' @
     message_if (lower (COOKIE_SAMESITE st) = ''none'' \<and> \<not> cookie_secure st) ''COOKIE_SAMESITE=none requires COOKIE_SECURE=yes'' @
     message_if (\<not> cookie_secure st \<and> \<not> allow_insecure_http st)
       ''COOKIE_SECURE=no requires the explicit loopback-development setting ALLOW_INSECURE_HTTP=yes'' @
     message_if (\<not> (16 * 1024 \<le> MAX_REQUEST_BODY_BYTES st \<and> MAX_REQUEST_BODY_BYTES st \<le> 16 * 1024 * 1024))
       ''MAX_REQUEST_BODY_BYTES must be between 16 KiB and 16 MiB''"

definition origin_errors :: "settings \<Rightarrow> string \<Rightarrow> string list" where
  "origin_errors st origin =
     (case urlsplit origin of
        None \<Rightarrow> [''CORS_ORIGINS contains an invalid origin: '' @ py_repr origin]
      | Some p \<Rightarrow>
          if url_port p = None then [''CORS_ORIGINS contains an invalid origin: '' @ py_repr origin]
          else if scheme p \<notin> {''http'', ''https''} \<or> hostname p = [] \<or> has_credentials p \<or> url_path p \<noteq> []
             \<or> url_query p \<noteq> [] \<or> fragment p \<noteq> []
          then [''CORS_ORIGINS must contain exact web origins only: '' @ py_repr origin]
          else message_if (scheme p \<noteq> ''https'' \<and> \<not> allow_insecure_http st)
            ''plain-HTTP CORS origins require ALLOW_INSECURE_HTTP=yes'')"

definition cors_errors :: "settings \<Rightarrow> string list" where
  "cors_errors st =
     (let origins = comma_values (CORS_ORIGINS st)
      in message_if (''*'' \<in> set origins) ''CORS_ORIGINS must not contain a wildcard when credentials are enabled'' @
         concat (map (origin_errors st) origins))"

definition proxy_errors :: "settings \<Rightarrow> string list" where
  "proxy_errors st =
     (case trusted_networks st of
        None \<Rightarrow> [''TRUSTED_PROXY_CIDRS contains an invalid IP network'']
      | Some nets \<Rightarrow>
          message_if (trust_proxy st \<and> nets = []) ''TRUST_PROXY=yes requires at least one TRUSTED_PROXY_CIDRS entry'' @
          message_if (trust_proxy st \<and> list_ex (\<lambda>n. prefixlen n \<noteq> max_prefixlen n) nets)
            ''TRUSTED_PROXY_CIDRS must contain exact /32 or /128 direct proxy peers'') @
     message_if (\<not> allow_insecure_http st \<and> \<not> trust_proxy st)
       (''HTTPS deployments require TRUST_PROXY=yes and an exact direct-proxy address in TRUSTED_PROXY_CIDRS '' @
        ''so login limits cannot collapse all clients into one shared proxy identity'')"

definition runtime_errors :: "settings \<Rightarrow> db_url option \<Rightarrow> bool \<Rightarrow> string list" where
  "runtime_errors st parsed is_mysql =
     boolean_errors st @ key_errors st @ archive_errors st @ cookie_errors st @ cors_errors st @ proxy_errors st @
     database_security_errors st parsed @ redis_security_errors st @
     message_if (is_mysql \<and> auto_migrate st) ''AUTO_MIGRATE must be disabled for MySQL runtime processes''"

text \<open>\<open>Inl\<close> is the \<open>RuntimeError\<close> that keeps the process from starting.\<close>

definition validate_runtime_security :: "settings \<Rightarrow> db_url option \<Rightarrow> bool \<Rightarrow> string + unit" where
  "validate_runtime_security st parsed is_mysql =
     (let errors = runtime_errors st parsed is_mysql
      in if errors \<noteq> [] then Inl (''FATAL security configuration:'' @ [nl] @ ''- '' @ join ([nl] @ ''- '') errors) else Inr ())"

section \<open>The schema\<close>

text \<open>What the database's inspection shows: the tables, the columns of the user table and the applied
  migrations.\<close>

record schema =
  sc_tables :: "string list"
  sc_user_columns :: "string list"
  sc_migrations :: "string list"

definition absent :: "string list \<Rightarrow> string list \<Rightarrow> string list" where
  "absent required present = sorted_texts (filter (\<lambda>t. t \<notin> set present) required)"

definition REQUIRED_TABLES :: "string list" where
  "REQUIRED_TABLES = [''users'', ''servers'', ''server_metrics'', ''server_process_snapshots'', ''schema_migrations'']"

definition REQUIRED_COLUMNS :: "string list" where
  "REQUIRED_COLUMNS = [''auth_id'', ''token_version'', ''mfa_secret'', ''mfa_confirmed'', ''mfa_last_counter'']"

definition REQUIRED_MIGRATIONS :: "bool \<Rightarrow> string list" where
  "REQUIRED_MIGRATIONS is_mysql =
     (let dialect = (if is_mysql then ''mysql'' else ''sqlite'')
      in [''012_auth_sessions.'' @ dialect @ ''.sql'', ''013_admin_mfa.'' @ dialect @ ''.sql''])"

definition check_schema :: "bool \<Rightarrow> schema \<Rightarrow> string + unit" where
  "check_schema is_mysql sc =
     (let tables = absent REQUIRED_TABLES (sc_tables sc); columns = absent REQUIRED_COLUMNS (sc_user_columns sc);
          migrations = absent (REQUIRED_MIGRATIONS is_mysql) (sc_migrations sc)
      in if tables \<noteq> [] then Inl (''FATAL: database schema is not initialized; run scripts/migrate_db.py. Missing tables: '' @ join '', '' tables)
         else if columns \<noteq> [] then Inl (''FATAL: security migration is pending; run scripts/migrate_db.py. Missing users columns: '' @ join '', '' columns)
         else if migrations \<noteq> [] then Inl (''FATAL: security migration records are missing; run scripts/migrate_db.py. Missing migrations: '' @ join '', '' migrations)
         else Inr ())"

section \<open>The first administrator and the first channel\<close>

definition initial_admin_ok :: "settings \<Rightarrow> bool" where
  "initial_admin_ok st \<longleftrightarrow>
     (let password = INIT_ADMIN_PASSWORD st
      in strip (INIT_ADMIN_USERNAME st) \<noteq> [] \<and> 16 \<le> length password \<and> length password \<le> 72
         \<and> lower password \<notin> set PUBLIC_SECRET_PLACEHOLDERS \<and> lower password \<noteq> ''admin123'')"

definition initial_admin :: "deployment \<Rightarrow> inputs \<Rightarrow> db \<Rightarrow> string + db" where
  "initial_admin dp inp d =
     (if list_ex is_admin (d_users d) then Inr d
      else if \<not> initial_admin_ok (dp_settings dp)
      then Inl (''FATAL: no administrator exists; set a non-default INIT_ADMIN_USERNAME and an '' @
                ''INIT_ADMIN_PASSWORD of at least 16 characters'')
      else Inr (d\<lparr>d_users := d_users d @
        [(new_user dp inp \<lparr>uc_username = INIT_ADMIN_USERNAME (dp_settings dp), uc_password = INIT_ADMIN_PASSWORD (dp_settings dp),
            uc_display_name = ''Administrator'', uc_email = [], uc_role = ''admin''\<rparr> d)]\<rparr>))"

definition next_channel_id :: "db \<Rightarrow> int" where
  "next_channel_id d = foldr (\<lambda>w i. max (w_id w) i) (d_channels d) 0 + 1"

definition move_legacy_webhook :: "db \<Rightarrow> db" where
  "move_legacy_webhook d =
     (if d_channels d \<noteq> [] then d
      else case map_of (d_settings d) SETTING_WEBHOOK_URL of
          None \<Rightarrow> d
        | Some u \<Rightarrow>
            if u = [] then d
            else d\<lparr>d_channels := [\<lparr>w_id = next_channel_id d, w_name = utf8 [233, 187, 152, 232, 174, 164, 233, 128, 154, 233, 129, 147], w_url = u,
              w_template = the_default [] (map_of (d_settings d) SETTING_WEBHOOK_TEMPLATE),
              w_min_severity = ''info'', w_enabled = True\<rparr>]\<rparr>)"

text \<open>The encryption of a stored text as the keyring does it; startup fails without keys.\<close>

definition stored_text :: "deployment \<Rightarrow> string \<Rightarrow> string" where
  "stored_text dp plain =
     (case encrypt_text (dp_fernet dp) (dp_settings dp) plain of Inr t \<Rightarrow> t | Inl _ \<Rightarrow> [])"

definition revealed_text :: "deployment \<Rightarrow> string \<Rightarrow> string option" where
  "revealed_text dp t =
     (case decrypt_text (dp_fernet dp) (dp_settings dp) t of Inr plain \<Rightarrow> Some plain | Inl _ \<Rightarrow> None)"

text \<open>\<open>lifespan\<close> up to the start of the scheduler, with the migrations applied beforehand;
  \<open>storage_ok\<close> says whether the key and archive directories could be prepared.\<close>

definition startup ::
    "deployment \<Rightarrow> inputs \<Rightarrow> db_url option \<Rightarrow> bool \<Rightarrow> bool \<Rightarrow> schema \<Rightarrow> db \<Rightarrow> string + db" where
  "startup dp inp parsed is_mysql storage_ok sc d =
     (let st = dp_settings dp
      in case validate_runtime_security st parsed is_mysql of
          Inl e \<Rightarrow> Inl e
        | Inr _ \<Rightarrow>
            if \<not> storage_ok then Inl ''storage''
            else case (if auto_migrate st then Inr () else check_schema is_mysql sc) of
                Inl e \<Rightarrow> Inl e
              | Inr _ \<Rightarrow>
                  (case secure_stored_webhook_urls (stored_text dp) (revealed_text dp) (i_now inp) d of
                     None \<Rightarrow> Inl ''CredentialDecryptionError''
                   | Some (_, d1) \<Rightarrow>
                       (case initial_admin dp inp d1 of
                          Inl e \<Rightarrow> Inl e
                        | Inr d2 \<Rightarrow> Inr (move_legacy_webhook d2))))"

section \<open>What a running process can rely on\<close>

lemma no_message: "message_if b m = [] \<longleftrightarrow> \<not> b"
  by (simp add: message_if_def)

lemma validated:
  assumes "validate_runtime_security st parsed is_mysql = Inr ()"
  shows "key_errors st = []" and "cookie_errors st = []" and "proxy_errors st = []" and "archive_errors st = []"
    and "database_security_errors st parsed = []" and "redis_security_errors st = []"
  using assms by (auto simp: validate_runtime_security_def runtime_errors_def Let_def split: if_splits)

lemma strong_jwt:
  assumes "key_errors st = []"
  shows "32 \<le> length (strip (JWT_SIGNING_KEY st)) \<and> jwt_signing_key sha st = strip (JWT_SIGNING_KEY st) \<and>
    strip (JWT_SIGNING_KEY st) \<notin> set (credential_encryption_keys st)"
  using assms
  by (auto simp: key_errors_def no_message weak_secret_def jwt_signing_key_def Let_def split: if_splits)

lemma urls_after_move: "filter is_legacy_url (stored_urls d) = [] \<Longrightarrow> filter is_legacy_url (stored_urls (move_legacy_webhook d)) = []"
  by (auto simp: move_legacy_webhook_def stored_urls_def filter_empty_conv split: option.splits)

lemma first_admin:
  assumes "initial_admin dp inp d = Inr d'"
  shows "list_ex is_admin (d_users d')" and "d_channels d' = d_channels d" and "d_settings d' = d_settings d"
  using assms by (auto simp: initial_admin_def new_user_def is_admin_def split: if_splits)


definition hardened :: deployment where
  "hardened = \<lparr>dp_settings = default_settings\<lparr>JWT_SIGNING_KEY := replicate 32 (CHR ''j''),
      CREDENTIAL_ENCRYPTION_KEYS := replicate 32 (CHR ''k''), TRUST_PROXY := ''yes'', TRUSTED_PROXY_CIDRS := ''10.0.0.2/32'',
      INIT_ADMIN_USERNAME := ''root'', INIT_ADMIN_PASSWORD := ''correct horse battery''\<rparr>,
    dp_verify = (\<lambda>p h. Some (h = p)), dp_hash = (\<lambda>p. p), dp_fernet = tagging, dp_hmac = (\<lambda>k m. []),
    dp_sha256_hex = (\<lambda>s. s), dp_jwt_encode = (\<lambda>c k. []), dp_jwt_decode = (\<lambda>t tok k i a. None)\<rparr>"

definition boot_inputs :: inputs where
  "boot_inputs = \<lparr>i_now = 0, i_audit_ok = True, i_jti = [], i_csrf = [], i_auth_id = ''fresh'', i_random = [], i_between = (\<lambda>d. d)\<rparr>"

definition clean_db :: db where
  "clean_db = empty_db\<lparr>d_settings := [(SETTING_WEBHOOK_URL, ''https://hook.example/x'')]\<rparr>"

definition local_db :: db_url where
  "local_db = \<lparr>du_drivername = ''sqlite'', du_username = [], du_password = [], du_host = [], du_query = []\<rparr>"

definition full_schema :: schema where
  "full_schema = \<lparr>sc_tables = REQUIRED_TABLES, sc_user_columns = REQUIRED_COLUMNS, sc_migrations = REQUIRED_MIGRATIONS False\<rparr>"

lemma hardened_starts: "case startup hardened boot_inputs (Some local_db) False True full_schema clean_db of Inl e \<Rightarrow> False | Inr d \<Rightarrow> True"
  by code_simp


end
