(* ===== verification/Gateway.thy ===== *)
theory Gateway
  imports Startup Cycle
begin

text \<open>
  What \<open>backend/app/main.py\<close> puts in front of the routers and its own endpoints: the limit of
  request bodies, the CSRF check and the security headers, the settings, the detector thresholds,
  readiness, and the files of the web application.
\<close>

section \<open>Request bodies\<close>

text \<open>What \<open>receive\<close> yields: a part of the body and whether more follows, a disconnect, something else.\<close>

datatype message = Part string bool | Disconnect | Other_Message

text \<open>The end of the middleware: an answer of its own, the connection gone, the buffered messages
  handed on with those still to come, or no message left yet.\<close>

datatype body_result = Answer int string | Gone | Forward "message list" "message list" | Starved

fun buffer_body :: "int \<Rightarrow> int \<Rightarrow> message list \<Rightarrow> message list \<Rightarrow> body_result" where
  "buffer_body limit sofar buffered [] = Starved"
| "buffer_body limit sofar buffered (m # ms) =
     (case m of
        Disconnect \<Rightarrow> Gone
      | Other_Message \<Rightarrow> buffer_body limit sofar buffered ms
      | Part body goes_on \<Rightarrow>
          if sofar + int (length body) > limit then Answer 413 ''request body too large''
          else if goes_on then buffer_body limit (sofar + int (length body)) (buffered @ [m]) ms
          else Forward (buffered @ [m]) ms)"

text \<open>\<open>int(content_length)\<close>; \<open>None\<close> is a header that is absent.\<close>

definition limit_body :: "settings \<Rightarrow> string option \<Rightarrow> message list \<Rightarrow> body_result" where
  "limit_body st content_length ms =
     (case content_length of
        None \<Rightarrow> buffer_body (MAX_REQUEST_BODY_BYTES st) 0 [] ms
      | Some text \<Rightarrow>
          (case py_int text of
             None \<Rightarrow> Answer 400 ''invalid content-length''
           | Some n \<Rightarrow>
               if n < 0 then Answer 400 ''invalid content-length''
               else if n > MAX_REQUEST_BODY_BYTES st then Answer 413 ''request body too large''
               else buffer_body (MAX_REQUEST_BODY_BYTES st) 0 [] ms))"

definition body_size :: "message list \<Rightarrow> int" where
  "body_size ms = sum_list (map (\<lambda>m. case m of Part b goes_on \<Rightarrow> int (length b) | _ \<Rightarrow> 0) ms)"

section \<open>CSRF and security headers\<close>

definition UNSAFE_METHODS :: "string list" where
  "UNSAFE_METHODS = [''POST'', ''PUT'', ''PATCH'', ''DELETE'']"

definition changes_state :: "web_request \<Rightarrow> bool" where
  "changes_state rq \<longleftrightarrow> rq_method rq \<in> set UNSAFE_METHODS \<and> is_prefix ''/api/'' (rq_path rq)"

definition needs_csrf :: "web_request \<Rightarrow> bool" where
  "needs_csrf rq \<longleftrightarrow> changes_state rq \<and> rq_path rq \<notin> {''/api/auth/login'', ''/api/auth/login-json''} \<and>
     cookie rq ''gpumon_access'' \<noteq> [] \<and> \<not> has_bearer_authorization rq"

record web_response =
  rs_status :: int
  rs_headers :: "(string, string) dict"

text \<open>A tilde stands for a quotation mark.\<close>

definition CONTENT_SECURITY_POLICY :: string where
  "CONTENT_SECURITY_POLICY = map (\<lambda>c. if c = CHR ''~'' then CHR 0x27 else c)
     (''default-src ~self~; script-src ~self~; style-src ~self~ ~unsafe-inline~; img-src ~self~ data:; '' @
      ''connect-src ~self~; font-src ~self~ data:; object-src ~none~; frame-ancestors ~none~; '' @
      ''base-uri ~self~; form-action ~self~'')"

definition security_headers :: "web_request \<Rightarrow> (string \<times> string) list" where
  "security_headers rq =
     [(''X-Content-Type-Options'', ''nosniff''), (''X-Frame-Options'', ''DENY''), (''Referrer-Policy'', ''no-referrer''),
      (''Permissions-Policy'', ''camera=(), microphone=(), geolocation=()''), (''Cross-Origin-Opener-Policy'', ''same-origin''),
      (''Cross-Origin-Resource-Policy'', ''same-origin''), (''Content-Security-Policy'', CONTENT_SECURITY_POLICY)] @
     (if rq_scheme rq = ''https'' then [(''Strict-Transport-Security'', ''max-age=31536000; includeSubDomains'')] else []) @
     (if is_prefix ''/api/'' (rq_path rq) then [(''Cache-Control'', ''no-store''), (''Pragma'', ''no-cache'')] else [])"

definition with_security_headers :: "web_request \<Rightarrow> web_response \<Rightarrow> web_response" where
  "with_security_headers rq rs =
     rs\<lparr>rs_headers := fold (\<lambda>(k, v). setdefault k v) (security_headers rq) (rs_headers rs)\<rparr>"

text \<open>\<open>call_next\<close> is the rest of the application on a state of its own.\<close>

definition dispatch_request ::
    "web_request \<Rightarrow> ('s \<Rightarrow> web_response \<times> 's) \<Rightarrow> 's \<Rightarrow> web_response \<times> 's" where
  "dispatch_request rq call_next s =
     (if needs_csrf rq \<and> \<not> valid_csrf rq
      then (with_security_headers rq \<lparr>rs_status = 403, rs_headers = []\<rparr>, s)
      else case call_next s of (rs, s') \<Rightarrow> (with_security_headers rq rs, s'))"

section \<open>Audit log and settings\<close>

definition list_audit_logs :: "int \<Rightarrow> db \<Rightarrow> audit_log list" where
  "list_audit_logs limit d = take (nat (max 1 (min limit 500))) (rev (order_by a_ts (d_audit d)))"

definition setting :: "db \<Rightarrow> string \<Rightarrow> string" where
  "setting d key = the_default [] (map_of (d_settings d) key)"

definition set_setting :: "string \<Rightarrow> string \<Rightarrow> db \<Rightarrow> db" where
  "set_setting key value d = d\<lparr>d_settings := AList.update key value (d_settings d)\<rparr>"

record app_settings =
  as_poll_interval :: int
  as_retention_days :: int
  as_webhook_url_configured :: bool
  as_webhook_template :: string
  as_energy_price :: rat

text \<open>A poll interval that is not a number makes the handler fail; the other two fall back.\<close>

definition get_app_settings :: "settings \<Rightarrow> db \<Rightarrow> http_error + app_settings" where
  "get_app_settings st d =
     (let interval = setting d ''poll_interval''
      in case (if interval = [] then Some (POLL_INTERVAL_SECONDS st) else py_int interval) of
          None \<Rightarrow> Inl (Crash ''ValueError'')
        | Some n \<Rightarrow> Inr
            \<lparr>as_poll_interval = n,
             as_retention_days = (let r = setting d ''retention_days'' in if r = [] then 0 else the_default 0 (py_int r)),
             as_webhook_url_configured = (setting d ''alert_webhook_url'' \<noteq> []),
             as_webhook_template = setting d ''alert_webhook_template'',
             as_energy_price = (let p = setting d ''energy_price'' in if p = [] then 0 else the_default 0 (py_float p))\<rparr>)"

record settings_update =
  su_poll_interval :: "int option"
  su_retention_days :: "int option"
  su_energy_price :: "rat option"
  su_webhook_url :: "string option"
  su_webhook_template :: "string option"

definition in_bounds :: "'a::linorder \<Rightarrow> 'a \<Rightarrow> 'a option \<Rightarrow> bool" where
  "in_bounds lo hi v \<longleftrightarrow> (case v of None \<Rightarrow> True | Some x \<Rightarrow> lo \<le> x \<and> x \<le> hi)"

definition settings_update_ok :: "settings_update \<Rightarrow> bool" where
  "settings_update_ok b \<longleftrightarrow> in_bounds 10 86400 (su_poll_interval b) \<and> in_bounds 0 3650 (su_retention_days b)
     \<and> in_bounds 0 100 (su_energy_price b) \<and> in_bounds 0 2048 (map_option length (su_webhook_url b))
     \<and> in_bounds 0 65536 (map_option length (su_webhook_template b))"

text \<open>Each setting is committed as it is written; the webhook URL is the only one that may still be
  refused once the body has been accepted.\<close>

definition write_if :: "string \<Rightarrow> string option \<Rightarrow> db \<Rightarrow> db" where
  "write_if key value d = (case value of None \<Rightarrow> d | Some v \<Rightarrow> set_setting key v d)"

definition update_app_settings ::
    "deployment \<Rightarrow> resolver \<Rightarrow> (string \<Rightarrow> bool) \<Rightarrow> settings_update \<Rightarrow> db \<Rightarrow> (http_error + unit) \<times> db" where
  "update_app_settings dp lookup public b d =
     (if \<not> settings_update_ok b then (Inl unprocessable, d)
      else let d1 = write_if ''poll_interval'' (map_option show_int (su_poll_interval b)) d;
               d2 = write_if ''retention_days'' (map_option show_int (su_retention_days b)) d1;
               d3 = write_if ''energy_price'' (map_option show_float (su_energy_price b)) d2;
               done = (\<lambda>d4. (Inr (), write_if ''alert_webhook_template'' (su_webhook_template b) d4))
        in case su_webhook_url b of
            None \<Rightarrow> done d3
          | Some u \<Rightarrow>
              if u = [] then done (set_setting ''alert_webhook_url'' [] d3)
              else (case validate_webhook_url lookup public u of
                      (False, why) \<Rightarrow> (Inl (HTTPException 400 (''webhook url rejected: '' @ why)), d3)
                    | (True, _) \<Rightarrow>
                        done (set_setting ''alert_webhook_url'' (protect_webhook_url (stored_text dp) u) d3)))"

section \<open>Detector thresholds\<close>

definition THRESHOLD_KEYS :: "(string \<times> rat \<times> rat \<times> rat) list" where
  "THRESHOLD_KEYS =
     [(''gpu_idle_vram_pct'', 1, 95, 30), (''gpu_idle_minutes'', 5, 1440, 30), (''health_cpu_pct'', 50, 100, 90),
      (''health_mem_pct'', 50, 100, 92), (''health_disk_pct'', 50, 100, 90)]"

definition get_thresholds :: "db \<Rightarrow> (string \<times> rat) list" where
  "get_thresholds d =
     map (\<lambda>(key, lo, hi, usual). (key, if setting d key = [] then usual else the_default usual (py_float (setting d key))))
       THRESHOLD_KEYS"

text \<open>\<open>float\<close> of a JSON value; \<open>None\<close> is \<open>TypeError\<close> or \<open>ValueError\<close>.\<close>

fun json_float :: "json \<Rightarrow> rat option" where
  "json_float (JNum q) = Some q"
| "json_float (JBool b) = Some (if b then 1 else 0)"
| "json_float (JStr s) = py_float s"
| "json_float _ = None"

fun write_thresholds ::
    "(string \<times> json) list \<Rightarrow> (string \<times> rat \<times> rat \<times> rat) list \<Rightarrow> db \<Rightarrow> (http_error + unit) \<times> db" where
  "write_thresholds body [] d = (Inr (), d)"
| "write_thresholds body ((key, lo, hi, usual) # rest) d =
     (case map_of body key of
        None \<Rightarrow> write_thresholds body rest d
      | Some value \<Rightarrow>
          (case json_float value of
             None \<Rightarrow> (Inl (HTTPException 400 (key @ '' must be a number'')), d)
           | Some v \<Rightarrow>
               if \<not> (lo \<le> v \<and> v \<le> hi)
               then (Inl (HTTPException 400 (key @ '' must be in ['' @ show_float lo @ '', '' @ show_float hi @ '']'')), d)
               else write_thresholds body rest (set_setting key (show_float v) d)))"

definition update_thresholds :: "(string \<times> json) list \<Rightarrow> db \<Rightarrow> (http_error + unit) \<times> db" where
  "update_thresholds body d = write_thresholds body THRESHOLD_KEYS d"

section \<open>Readiness and the web application\<close>

definition ready :: "settings \<Rightarrow> bool \<Rightarrow> bool \<Rightarrow> time \<Rightarrow> scheduler_state \<Rightarrow> bool \<Rightarrow> bool \<Rightarrow> int \<times> string" where
  "ready st app_ready db_answers now sched hostkeys_ok archive_ok =
     (if app_ready \<and> db_answers \<and> healthy now sched \<and> hostkeys_ok \<and> (ARCHIVE_DIR st = [] \<or> archive_ok)
      then (200, ''ready'') else (503, ''not-ready''))"

datatype page = No_Endpoint | Asset string bool | Index

definition path_join :: "string \<Rightarrow> string \<Rightarrow> string" where
  "path_join a b = (if is_prefix ''/'' b then b else if b = [] then a @ ''/'' else a @ ''/'' @ b)"

text \<open>\<open>realpath\<close> and \<open>isfile\<close> look at the file system; the flag of an asset is whether it may be cached
  for good.\<close>

definition spa :: "(string \<Rightarrow> string) \<Rightarrow> (string \<Rightarrow> bool) \<Rightarrow> string \<Rightarrow> string \<Rightarrow> page" where
  "spa realpath isfile dist_dir full_path =
     (if full_path = ''api'' \<or> is_prefix ''api/'' full_path then No_Endpoint
      else let root = realpath dist_dir; candidate = realpath (path_join dist_dir full_path)
        in if full_path \<noteq> [] \<and> is_prefix (root @ ''/'') candidate \<and> isfile candidate
           then Asset candidate (is_prefix ''assets/'' full_path)
           else Index)"

section \<open>What the gateway guarantees\<close>

lemma body_size_snoc: "body_size (ms @ [Part b g]) = body_size ms + int (length b)"
  by (simp add: body_size_def)

lemma buffered_ok:
  "buffer_body limit sofar buffered ms = Forward parts rest \<Longrightarrow> sofar = body_size buffered \<Longrightarrow>
     body_size parts \<le> limit \<and> (\<exists>used. ms = used @ rest \<and> parts = buffered @ filter (\<lambda>m. m \<noteq> Other_Message) used)"
proof (induction ms arbitrary: sofar buffered)
  case (Cons m ms)
  show ?case
  proof (cases m)
    case (Part b g)
    have fits: "\<not> sofar + int (length b) > limit" using Cons.prems(1) Part by (auto split: if_splits)
    show ?thesis
    proof (cases g)
      case True
      then have "buffer_body limit (sofar + int (length b)) (buffered @ [m]) ms = Forward parts rest"
        using Cons.prems(1) Part fits by simp
      from Cons.IH [OF this] obtain used where "body_size parts \<le> limit" "ms = used @ rest"
        "parts = (buffered @ [m]) @ filter (\<lambda>m. m \<noteq> Other_Message) used"
        using Cons.prems(2) Part by (auto simp: body_size_snoc)
      then show ?thesis using Part by (intro conjI exI [of _ "m # used"]) auto
    next
      case False
      then have "parts = buffered @ [m]" "rest = ms" using Cons.prems(1) Part fits by simp_all
      then show ?thesis using fits Cons.prems(2) Part by (intro conjI exI [of _ "[m]"]) (auto simp: body_size_snoc)
    qed
  next
    case Other_Message
    then have "buffer_body limit sofar buffered ms = Forward parts rest" using Cons.prems(1) by simp
    from Cons.IH [OF this Cons.prems(2)] obtain used where "body_size parts \<le> limit" "ms = used @ rest"
        "parts = buffered @ filter (\<lambda>m. m \<noteq> Other_Message) used" by blast
    then show ?thesis using Other_Message by (intro conjI exI [of _ "m # used"]) auto
  qed (use Cons.prems in simp)
qed simp

text \<open>
  What reaches the application is within the limit and unchanged: the forwarded messages are the
  received body parts in their order, up to the one that ends the body, and together no longer than
  the limit, whether or not the client declared a length; the rest is still to be received.
\<close>

theorem forwarded_body_within_limit:
  assumes "limit_body st content_length ms = Forward parts rest"
  shows "body_size parts \<le> MAX_REQUEST_BODY_BYTES st \<and>
    (\<exists>used. ms = used @ rest \<and> parts = filter (\<lambda>m. m \<noteq> Other_Message) used)"
proof -
  have "buffer_body (MAX_REQUEST_BODY_BYTES st) 0 [] ms = Forward parts rest"
    using assms by (auto simp: limit_body_def split: option.splits if_splits)
  from buffered_ok [OF this] show ?thesis by (simp add: body_size_def)
qed

theorem forwarded_body_within_limit_witness:
  "body_size [Part ''ab'' True, Part ''c'' False] \<le> MAX_REQUEST_BODY_BYTES default_settings"
proof -
  have "limit_body default_settings (Some ''3'') [Part ''ab'' True, Other_Message, Part ''c'' False, Disconnect] =
      Forward [Part ''ab'' True, Part ''c'' False] [Disconnect]" by code_simp
  from forwarded_body_within_limit [OF this] show ?thesis by blast
qed

lemma strip_empty: "strip s = [] \<longleftrightarrow> (\<forall>c \<in> set s. is_space c)"
proof
  assume "strip s = []"
  then have "dropWhile is_space s = []"
    by (auto simp: strip_def lstrip_def rstrip_def) (metis (full_types) dropWhile_eq_Nil_conv hd_dropWhile hd_in_set)
  then show "\<forall>c \<in> set s. is_space c" by simp
qed (auto simp: strip_def lstrip_def rstrip_def dropWhile_eq_Nil_conv dest: set_dropWhileD)



definition forged :: web_request where
  "forged = \<lparr>rq_method = ''POST'', rq_path = ''/api/users'', rq_scheme = ''https'', rq_headers = [],
     rq_cookies = [(ACCESS_COOKIE, ''ann''), (CSRF_COOKIE, ''token'')], rq_client = Some ''10.0.0.9''\<rparr>"

definition ann_session :: "user \<Rightarrow> claims" where
  "ann_session u = \<lparr>c_sub = Some (u_username u), c_uid = Some (u_id u), c_aid = Some (u_auth_id u),
     c_ver = Some (u_token_version u), c_mfa = True, c_iat = 0, c_jti = [], c_iss = [], c_aud = [], c_exp = 0\<rparr>"

definition ann_user :: user where
  "ann_user = \<lparr>u_id = 1, u_username = ''ann'', u_password_hash = [], u_display_name = [], u_email = [], u_role = ''admin'',
      u_is_active = True, u_auth_id = ''aid'', u_token_version = 1, u_mfa_secret = [], u_mfa_confirmed = False,
      u_mfa_last_counter = -1, u_created_at = 0\<rparr>"


text \<open>A refused update of the settings or thresholds keeps what it wrote before the refusal.\<close>

lemma refused_update_keeps_first_value:
  "case update_thresholds [(''gpu_idle_minutes'', JNum 60), (''health_cpu_pct'', JNum 10)] empty_db of
     (Inl e, d) \<Rightarrow> setting d ''gpu_idle_minutes'' = ''60.0'' | (Inr u, d) \<Rightarrow> False"
  by code_simp

lemma served_file_under_root:
  "spa realpath isfile dist_dir full_path = Asset f cached \<Longrightarrow> isfile f \<and> is_prefix (realpath dist_dir @ ''/'') f"
  by (auto simp: spa_def Let_def split: if_splits)

end
