(* ===== verification/Alerts.thy ===== *)
theory Alerts
  imports Gateway
begin

text \<open>
  \<open>backend/app/api/alerts.py\<close>: the alert rules, the event list with its acknowledgements, resolutions
  and assignments, the webhook channels and the test notification.  Parameters: the cipher of the
  deployment and the wire of the notifier.
\<close>

section \<open>Rules\<close>

definition RULE_METRICS :: "string list" where
  "RULE_METRICS = [''cpu_percent'', ''mem_percent'', ''swap_percent'', ''disk_percent'', ''load_per_core'',
     ''gpu_util'', ''gpu_temp'', ''gpu_mem_percent'', ''gpu_power'']"

definition RULE_OPS :: "string list" where "RULE_OPS = [''>'', ''>='', ''<'', ''<='']"

record rule_create =
  rc_name :: string
  rc_metric :: string
  rc_op :: string
  rc_threshold :: rat
  rc_duration_minutes :: int
  rc_server_id :: "int option"
  rc_enabled :: bool

definition rule_create_ok :: "rule_create \<Rightarrow> bool" where
  "rule_create_ok b \<longleftrightarrow> 1 \<le> length (rc_name b) \<and> length (rc_name b) \<le> 128 \<and> rc_metric b \<in> set RULE_METRICS
     \<and> rc_op b \<in> set RULE_OPS \<and> 0 \<le> rc_duration_minutes b \<and> rc_duration_minutes b \<le> 1440"

text \<open>A field of an update that was not sent is \<open>None\<close>, an explicit null \<open>Some None\<close>.\<close>

record rule_update =
  ru_name :: "string option option"
  ru_metric :: "string option option"
  ru_op :: "string option option"
  ru_threshold :: "rat option option"
  ru_duration_minutes :: "int option option"
  ru_server_id :: "int option option"
  ru_enabled :: "bool option option"

definition given_ok :: "('a \<Rightarrow> bool) \<Rightarrow> 'a option option \<Rightarrow> bool" where
  "given_ok P v \<longleftrightarrow> (case v of Some (Some x) \<Rightarrow> P x | _ \<Rightarrow> True)"

definition rule_update_ok :: "rule_update \<Rightarrow> bool" where
  "rule_update_ok b \<longleftrightarrow> given_ok (\<lambda>n. 1 \<le> length n \<and> length n \<le> 128) (ru_name b) \<and> given_ok (\<lambda>m. m \<in> set RULE_METRICS) (ru_metric b)
     \<and> given_ok (\<lambda>p. p \<in> set RULE_OPS) (ru_op b) \<and> given_ok (\<lambda>n. 0 \<le> n \<and> n \<le> 1440) (ru_duration_minutes b)"

definition server_exists :: "db \<Rightarrow> int \<Rightarrow> bool" where
  "server_exists d sid \<longleftrightarrow> list_ex (\<lambda>s. s_id s = sid) (d_servers d)"

definition no_server :: http_error where "no_server = HTTPException 404 ''Server not found''"
definition no_rule :: http_error where "no_rule = HTTPException 404 ''Rule not found''"
definition no_event :: http_error where "no_event = HTTPException 404 ''Event not found''"

definition next_rule_id :: "db \<Rightarrow> int" where
  "next_rule_id d = foldr (\<lambda>r i. max (r_id r) i) (d_rules d) 0 + 1"

definition list_rules :: "db \<Rightarrow> alert_rule list" where
  "list_rules d = order_by r_id (d_rules d)"

definition create_rule :: "inputs \<Rightarrow> rule_create \<Rightarrow> user \<Rightarrow> db \<Rightarrow> (http_error + alert_rule) \<times> db" where
  "create_rule inp b admin d =
     (if \<not> rule_create_ok b then (Inl unprocessable, d)
      else if (case rc_server_id b of Some sid \<Rightarrow> \<not> server_exists d sid | None \<Rightarrow> False) then (Inl no_server, d)
      else let r = \<lparr>r_id = next_rule_id d, r_name = rc_name b, r_metric = rc_metric b, r_op = rc_op b,
                 r_threshold = rc_threshold b, r_duration_minutes = rc_duration_minutes b, r_server_id = rc_server_id b,
                 r_enabled = rc_enabled b, r_created_at = i_now inp\<rparr>
           in (Inr r, audit inp (u_username admin) ''alert.create'' (''rule '' @ r_name r) (d\<lparr>d_rules := d_rules d @ [r]\<rparr>)))"

text \<open>The column refuses a null, so the commit fails.\<close>

definition null_given :: "'a option option \<Rightarrow> bool" where
  "null_given v \<longleftrightarrow> v = Some None"

definition refused_null :: "rule_update \<Rightarrow> bool" where
  "refused_null b \<longleftrightarrow> null_given (ru_name b) \<or> null_given (ru_metric b) \<or> null_given (ru_op b) \<or> null_given (ru_threshold b)
     \<or> null_given (ru_duration_minutes b) \<or> null_given (ru_enabled b)"

definition given_or :: "'a \<Rightarrow> 'a option option \<Rightarrow> 'a" where
  "given_or old v = (case v of Some (Some x) \<Rightarrow> x | _ \<Rightarrow> old)"

definition changed_rule :: "rule_update \<Rightarrow> alert_rule \<Rightarrow> alert_rule" where
  "changed_rule b r =
     r\<lparr>r_name := given_or (r_name r) (ru_name b), r_metric := given_or (r_metric r) (ru_metric b),
       r_op := given_or (r_op r) (ru_op b), r_threshold := given_or (r_threshold r) (ru_threshold b),
       r_duration_minutes := given_or (r_duration_minutes r) (ru_duration_minutes b),
       r_server_id := the_default (r_server_id r) (ru_server_id b), r_enabled := given_or (r_enabled r) (ru_enabled b)\<rparr>"

definition update_rule :: "inputs \<Rightarrow> int \<Rightarrow> rule_update \<Rightarrow> user \<Rightarrow> db \<Rightarrow> (http_error + alert_rule) \<times> db" where
  "update_rule inp rid b admin d =
     (if \<not> rule_update_ok b then (Inl unprocessable, d)
      else case find (\<lambda>r. r_id r = rid) (d_rules d) of
        None \<Rightarrow> (Inl no_rule, d)
      | Some r \<Rightarrow>
          if (case ru_server_id b of Some (Some sid) \<Rightarrow> \<not> server_exists d sid | _ \<Rightarrow> False) then (Inl no_server, d)
          else if refused_null b then (Inl (Crash ''IntegrityError''), d)
          else let r' = changed_rule b r
               in (Inr r', audit inp (u_username admin) ''alert.update'' (''rule '' @ r_name r')
                    (d\<lparr>d_rules := map (\<lambda>q. if r_id q = rid then r' else q) (d_rules d)\<rparr>)))"

text \<open>The foreign key of the events is set to null.\<close>

definition delete_rule :: "inputs \<Rightarrow> int \<Rightarrow> user \<Rightarrow> db \<Rightarrow> (http_error + unit) \<times> db" where
  "delete_rule inp rid admin d =
     (case find (\<lambda>r. r_id r = rid) (d_rules d) of
        None \<Rightarrow> (Inl no_rule, d)
      | Some r \<Rightarrow>
          (Inr (), audit inp (u_username admin) ''alert.delete'' (''rule '' @ r_name r)
            (d\<lparr>d_rules := filter (\<lambda>q. r_id q \<noteq> rid) (d_rules d),
               d_events := map (\<lambda>e. if e_rule_id e = Some rid then e\<lparr>e_rule_id := None\<rparr> else e) (d_events d)\<rparr>)))"

section \<open>Events\<close>

definition list_events :: "bool \<Rightarrow> int \<Rightarrow> int \<Rightarrow> int option \<Rightarrow> db \<Rightarrow> http_error + alert_event list" where
  "list_events open_only limit offset server d =
     (if limit < 1 \<or> limit > 1000 \<or> offset < 0 then Inl unprocessable
      else Inr (take (nat limit) (drop (nat offset)
        (filter (\<lambda>e. (open_only \<longrightarrow> e_recovered_at e = None) \<and> (case server of None \<Rightarrow> True | Some sid \<Rightarrow> e_server_id e = sid))
          (rev (order_by e_triggered_at (d_events d)))))))"

definition event_by_id :: "db \<Rightarrow> int \<Rightarrow> alert_event option" where
  "event_by_id d eid = find (\<lambda>e. e_id e = eid) (d_events d)"

definition event_text :: "int \<Rightarrow> alert_event \<Rightarrow> string" where
  "event_text eid e = ''event '' @ show_int eid @ '' ('' @ e_rule_name e @ '')''"

definition ack_event :: "inputs \<Rightarrow> int \<Rightarrow> user \<Rightarrow> db \<Rightarrow> (http_error + unit) \<times> db" where
  "ack_event inp eid admin d =
     (case event_by_id d eid of
        None \<Rightarrow> (Inl no_event, d)
      | Some e \<Rightarrow>
          if e_recovered_at e \<noteq> None then (Inl (HTTPException 400 ''Event already recovered''), d)
          else let d1 = (if e_acked_at e = None
                  then update_event eid (\<lambda>e. e\<lparr>e_acked_at := Some (i_now inp), e_acked_by := u_username admin\<rparr>) d else d)
               in (Inr (), audit inp (u_username admin) ''alert.ack'' (event_text eid e) d1))"

definition resolve_event :: "inputs \<Rightarrow> int \<Rightarrow> user \<Rightarrow> db \<Rightarrow> (http_error + unit) \<times> db" where
  "resolve_event inp eid admin d =
     (case event_by_id d eid of
        None \<Rightarrow> (Inl no_event, d)
      | Some e \<Rightarrow>
          let d1 = (if e_recovered_at e = None then update_event eid (\<lambda>e. e\<lparr>e_recovered_at := Some (i_now inp)\<rparr>) d else d)
          in (Inr (), audit inp (u_username admin) ''alert.resolve'' (event_text eid e) d1))"

text \<open>\<open>assignee\<close> is \<open>str(body.get("assignee") or "")\<close>.\<close>

definition assign_event :: "inputs \<Rightarrow> int \<Rightarrow> string \<Rightarrow> user \<Rightarrow> db \<Rightarrow> (http_error + string) \<times> db" where
  "assign_event inp eid assignee u d =
     (case event_by_id d eid of
        None \<Rightarrow> (Inl no_event, d)
      | Some e \<Rightarrow>
          let a = take 64 (strip assignee); who = (if a \<noteq> [] then a else u_username u)
          in (Inr who, audit inp (u_username u) ''alert.assign'' (''event '' @ show_int eid @ '' -> '' @ who)
               (update_event eid (\<lambda>e. e\<lparr>e_assignee := who\<rparr>) d)))"

section \<open>Channels\<close>

record channel_in =
  ci_name :: string
  ci_url :: string
  ci_template :: string
  ci_min_severity :: string
  ci_enabled :: bool

definition channel_in_ok :: "channel_in \<Rightarrow> bool" where
  "channel_in_ok b \<longleftrightarrow> length (ci_name b) \<le> 128 \<and> 1 \<le> length (ci_url b) \<and> length (ci_url b) \<le> 2048 \<and> length (ci_template b) \<le> 65536"

text \<open>\<open>None\<close>: a stored URL cannot be decrypted.  URLs leave only in their redacted form.\<close>

definition list_channels :: "deployment \<Rightarrow> db \<Rightarrow> webhook_channel list option" where
  "list_channels dp d =
     those (map (\<lambda>ch. map_option (\<lambda>u. ch\<lparr>w_url := u\<rparr>) (redact_webhook_url (revealed_text dp) (w_url ch)))
       (order_by w_id (d_channels d)))"

definition create_channel :: "deployment \<Rightarrow> inputs \<Rightarrow> wire \<Rightarrow> channel_in \<Rightarrow> user \<Rightarrow> db \<Rightarrow> (http_error + int) \<times> db" where
  "create_channel dp inp w b admin d =
     (if \<not> channel_in_ok b then (Inl unprocessable, d)
      else if ci_min_severity b \<notin> {''info'', ''warning'', ''critical''}
      then (Inl (HTTPException 400 ''min_severity must be info|warning|critical''), d)
      else case validate_webhook_url (resolve w) (is_public w) (ci_url b) of
          (False, why) \<Rightarrow> (Inl (HTTPException 400 (''webhook url rejected: '' @ why)), d)
        | (True, _) \<Rightarrow>
            let i = next_channel_id d
            in (Inr i, audit inp (u_username admin) ''webhook.create'' (''channel '' @ show_int i)
                 (d\<lparr>d_channels := d_channels d @ [\<lparr>w_id = i, w_name = ci_name b,
                    w_url = protect_webhook_url (stored_text dp) (ci_url b), w_template = ci_template b,
                    w_min_severity = ci_min_severity b, w_enabled = ci_enabled b\<rparr>]\<rparr>)))"

definition delete_channel :: "inputs \<Rightarrow> int \<Rightarrow> user \<Rightarrow> db \<Rightarrow> (http_error + unit) \<times> db" where
  "delete_channel inp cid admin d =
     (if \<not> list_ex (\<lambda>ch. w_id ch = cid) (d_channels d) then (Inl (HTTPException 404 ''Channel not found''), d)
      else (Inr (), audit inp (u_username admin) ''webhook.delete'' (''channel '' @ show_int cid)
             (d\<lparr>d_channels := filter (\<lambda>ch. w_id ch \<noteq> cid) (d_channels d)\<rparr>)))"

definition test_context :: "string \<Rightarrow> (string \<times> string) list" where
  "test_context stamp =
     [(''level'', ''ALERT''), (''server_name'', ''test-server''), (''metric'', ''gpu_temp''), (''value'', ''88.0''),
      (''op'', ''>''), (''threshold'', ''80''), (''rule_name'', utf8 [230, 181, 139, 232, 175, 149, 232, 167, 132, 229, 136, 153]), (''time'', stamp)]"

definition test_body_ok :: "(string \<times> string) option \<Rightarrow> bool" where
  "test_body_ok body \<longleftrightarrow> (case body of None \<Rightarrow> True | Some (u, t) \<Rightarrow> length u \<le> 2048 \<and> length t \<le> 65536)"

text \<open>The body is absent, or a URL and a template; the outcome and the requests sent.\<close>

definition test_webhook ::
    "deployment \<Rightarrow> wire \<Rightarrow> string \<Rightarrow> (string \<times> string) option \<Rightarrow> db \<Rightarrow> (http_error + string) \<times> request list" where
  "test_webhook dp w stamp body d =
     (let template_or = (\<lambda>t. if t \<noteq> [] then t else DEFAULT_TEMPLATE);
          send = (\<lambda>u t. case send_webhook w u (template_or t) (test_context stamp) of
             (r, sent) \<Rightarrow> Inr (r, case sent of Some q \<Rightarrow> [q] | None \<Rightarrow> []));
          tried = (case body of
             Some (u, t) \<Rightarrow>
               if u \<noteq> [] then send u t
               else (case webhook_config (revealed_text dp) d of
                       None \<Rightarrow> Inl (Crash ''CredentialDecryptionError'')
                     | Some (stored_url, _) \<Rightarrow>
                         if stored_url = [] then Inl (HTTPException 400 (utf8 [230, 156, 170, 233, 133, 141, 231, 189, 174, 228, 184, 187] @ '' Webhook URL'')) else send stored_url t)
           | None \<Rightarrow> (case dispatch (revealed_text dp) w d (test_context stamp) ''warning'' of
                       None \<Rightarrow> Inl (Crash ''CredentialDecryptionError'')
                     | Some r \<Rightarrow> Inr r))
      in if \<not> test_body_ok body then (Inl unprocessable, [])
         else case tried of
          Inl e \<Rightarrow> (Inl e, [])
        | Inr ((ok, msg), sent) \<Rightarrow> (if ok then Inr msg else Inl (HTTPException 400 (utf8 [229, 143, 145, 233, 128, 129, 229, 164, 177, 232, 180, 165] @ '': '' @ msg)), sent))"

end
