(* ===== verification/Servers.thy ===== *)
theory Servers
  imports Accounts Transport Store Collect
begin

text \<open>
  \<open>backend/app/api/servers.py\<close> and \<open>backend/app/api/server_test.py\<close>: the server list, creating,
  changing and deleting servers with their write-only credentials and host keys, the connection
  test with its address check, the lifecycle and the notes, and \<open>connect_server\<close> of \<open>ssh_transport.py\<close>.
  What lies outside the program is the record \<open>outside\<close>.
\<close>

section \<open>State and bodies\<close>

text \<open>\<open>fl_sent\<close> records the commands that were sent to a server on a user's behalf.\<close>

record fleet =
  fl_db :: db
  fl_keys :: key_files
  fl_step_up :: limiter
  fl_sent :: "(string \<times> string) list"

text \<open>The outside of one request: the host key directory, \<open>getaddrinfo\<close> (\<open>None\<close> an \<open>OSError\<close>), what
  the library's \<open>connect\<close> did, the probing command, any other command, the host key a remote end
  presents, the fingerprint of a key, the connection timeout, and which commits of the request succeed
  where a failed one matters.\<close>

record outside =
  ou_storage_ok :: bool
  ou_lookup :: "string \<Rightarrow> int \<Rightarrow> string list option"
  ou_handshake :: "plan \<Rightarrow> handshake"
  ou_probe :: "(int \<times> string) remote"
  ou_command :: "string \<Rightarrow> (int \<times> string \<times> string) remote"
  ou_host_key :: "string \<Rightarrow> int \<Rightarrow> exn + hostkey"
  ou_fingerprint :: "hostkey \<Rightarrow> string"
  ou_timeout :: int
  ou_commit :: "nat \<Rightarrow> bool"

definition recorded :: "inputs \<Rightarrow> string \<Rightarrow> string \<Rightarrow> string \<Rightarrow> fleet \<Rightarrow> fleet" where
  "recorded inp username action detail f = f\<lparr>fl_db := audit inp username action detail (fl_db f)\<rparr>"

text \<open>\<open>f\<close> on the value, an error handed on.\<close>

definition and_then :: "'e + 'a \<Rightarrow> ('a \<Rightarrow> 'e + 'b) \<Rightarrow> 'e + 'b" where
  "and_then r f = (case r of Inl e \<Rightarrow> Inl e | Inr x \<Rightarrow> f x)"

text \<open>\<open>None\<close> is \<open>ValueError\<close>, 422 for a request body.\<close>

definition clean_network_host :: "bool \<Rightarrow> string \<Rightarrow> string option" where
  "clean_network_host allow_empty value =
     (let v = strip value
      in if v = [] \<and> allow_empty then Some []
         else if v = [] \<or> list_ex bad_host_char v then None else Some v)"

text \<open>A body of \<open>ServerUpdate\<close>: an outer \<open>None\<close> is a field that was not sent, an inner one a null.  Hosts
  have been cleaned.\<close>

record server_update =
  sv_name :: "string option"
  sv_host :: "string option"
  sv_port :: "int option"
  sv_auth_type :: "string option option"
  sv_username :: "string option"
  sv_password :: "string option option"
  sv_private_key :: "string option option"
  sv_passphrase :: "string option option"
  sv_enabled :: "bool option"
  sv_server_type :: "string option"
  sv_tags :: "string list option"
  sv_note :: "string option"
  sv_bmc_host :: "string option"
  sv_bmc_user :: "string option"
  sv_bmc_password :: "string option"

definition flat :: "'a option option \<Rightarrow> 'a option" where
  "flat v = (case v of Some (Some x) \<Rightarrow> Some x | _ \<Rightarrow> None)"

text \<open>\<open>v or d\<close> for a text that may be null.\<close>

definition text_or :: "string \<Rightarrow> string option \<Rightarrow> string" where
  "text_or d v = (case v of Some t \<Rightarrow> if t \<noteq> [] then t else d | None \<Rightarrow> d)"

section \<open>Connections\<close>

record connection =
  cn_host :: string
  cn_port :: int
  cn_username :: string
  cn_auth_type :: string
  cn_password :: string
  cn_private_key :: string
  cn_passphrase :: string

text \<open>The checks of \<open>ConnectionTestRequest\<close>.\<close>

definition connection_request ::
    "string \<Rightarrow> int \<Rightarrow> string \<Rightarrow> string \<Rightarrow> string \<Rightarrow> string \<Rightarrow> string \<Rightarrow> connection option" where
  "connection_request host port auth username password private_key passphrase =
     (case clean_network_host False host of
        None \<Rightarrow> None
      | Some clean \<Rightarrow>
          if length host \<le> 255 \<and> 1 \<le> port \<and> port \<le> 65535 \<and> (auth = ''password'' \<or> auth = ''key'')
             \<and> username \<noteq> [] \<and> length username \<le> 64
          then Some \<lparr>cn_host = clean, cn_port = port, cn_username = username, cn_auth_type = auth,
                 cn_password = password, cn_private_key = private_key, cn_passphrase = passphrase\<rparr>
          else None)"

definition reject_root_ssh :: "settings \<Rightarrow> string option \<Rightarrow> http_error + unit" where
  "reject_root_ssh st username =
     (case username of
        None \<Rightarrow> Inr ()
      | Some u \<Rightarrow>
          if lower (strip u) = ''root'' \<and> \<not> allow_root_ssh st
          then Inl (HTTPException 400 ''root SSH is disabled; provision a dedicated least-privilege gpumon account'')
          else Inr ())"

text \<open>\<open>new or (decrypt(stored) if kept else "")\<close>.\<close>

definition sealed_or :: "deployment \<Rightarrow> bool \<Rightarrow> string \<Rightarrow> string option \<Rightarrow> http_error + string" where
  "sealed_or dp kept stored new =
     (case new of
        Some t \<Rightarrow> if t \<noteq> [] then Inr t else if kept then decrypt_text (dp_fernet dp) (dp_settings dp) stored else Inr []
      | None \<Rightarrow> if kept then decrypt_text (dp_fernet dp) (dp_settings dp) stored else Inr [])"

definition missing_credentials :: "string \<Rightarrow> http_error" where
  "missing_credentials auth = HTTPException 400 (if auth = ''password'' then utf8 [232, 175, 183, 232, 190, 147, 229, 133, 165] @ '' SSH '' @ utf8 [229, 175, 134, 231, 160, 129] else utf8 [232, 175, 183, 230, 143, 144, 228, 190, 155] @ '' SSH '' @ utf8 [231, 167, 129, 233, 146, 165])"

definition stored :: "server option \<Rightarrow> (server \<Rightarrow> 'a) \<Rightarrow> 'a \<Rightarrow> 'a" where
  "stored server f d = (case server of Some s \<Rightarrow> f s | None \<Rightarrow> d)"

text \<open>\<open>server\<close> is the stored server the draft is merged with, if any.\<close>

definition connection_body :: "deployment \<Rightarrow> server_update \<Rightarrow> server option \<Rightarrow> http_error + connection" where
  "connection_body dp body server =
     (let auth = text_or (stored server s_auth_type ''password'') (flat (sv_auth_type body));
          same = (case server of Some s \<Rightarrow> auth = s_auth_type s | None \<Rightarrow> False);
          new_key = text_or [] (flat (sv_private_key body)) \<noteq> []
      in and_then
           (if auth = ''password''
            then and_then (sealed_or dp same (stored server s_password []) (flat (sv_password body))) (\<lambda>p. Inr (p, [], []))
            else and_then (sealed_or dp same (stored server s_private_key []) (flat (sv_private_key body))) (\<lambda>k.
              and_then (case flat (sv_passphrase body) of
                  Some p \<Rightarrow> Inr p
                | None \<Rightarrow> if same \<and> \<not> new_key then decrypt_text (dp_fernet dp) (dp_settings dp) (stored server s_passphrase []) else Inr [])
                (\<lambda>p. Inr ([], k, p))))
           (\<lambda>(password, private_key, passphrase).
              if (if auth = ''password'' then password else private_key) = [] then Inl (missing_credentials auth)
              else case connection_request (text_or (stored server s_host []) (sv_host body))
                     (the_default (stored server s_port 22) (sv_port body)) auth
                     (text_or (stored server s_username []) (sv_username body)) password private_key passphrase of
                  None \<Rightarrow> Inl (Crash ''ValidationError'')
                | Some c \<Rightarrow> and_then (reject_root_ssh (dp_settings dp) (Some (cn_username c))) (\<lambda>_. Inr c)))"

definition seal :: "deployment \<Rightarrow> string \<Rightarrow> http_error + string" where
  "seal dp plain = encrypt_text (dp_fernet dp) (dp_settings dp) plain"

text \<open>Password, private key and passphrase of a connection, encrypted.\<close>

definition seal_connection :: "deployment \<Rightarrow> connection \<Rightarrow> http_error + (string \<times> string \<times> string)" where
  "seal_connection dp c =
     and_then (seal dp (cn_password c)) (\<lambda>p. and_then (seal dp (cn_private_key c)) (\<lambda>k.
       and_then (seal dp (cn_passphrase c)) (\<lambda>x. Inr (p, k, x))))"

section \<open>Listing, creating, changing\<close>

record server_out =
  so_id :: int
  so_name :: string
  so_host :: string
  so_port :: int
  so_auth_type :: string
  so_enabled :: bool
  so_server_type :: string
  so_status :: "string option"
  so_status_reason :: "string option"
  so_status_until :: "time option"
  so_tags :: "string list"
  so_note :: string
  so_has_password :: bool
  so_has_key :: bool
  so_bmc_host :: string
  so_bmc_user :: string
  so_has_bmc :: bool

definition to_out :: "bool \<Rightarrow> server \<Rightarrow> server_out" where
  "to_out include_management s =
     (let out = \<lparr>so_id = s_id s, so_name = s_name s, so_host = s_host s, so_port = s_port s, so_auth_type = s_auth_type s,
            so_enabled = s_enabled s, so_server_type = s_server_type s, so_status = s_status s,
            so_status_reason = Some (s_status_reason s), so_status_until = s_status_until s, so_tags = s_tags s,
            so_note = s_note s, so_has_password = False, so_has_key = False, so_bmc_host = s_bmc_host s,
            so_bmc_user = s_bmc_user s, so_has_bmc = False\<rparr>
      in if include_management
         then out\<lparr>so_has_password := s_password s \<noteq> [], so_has_key := s_private_key s \<noteq> [], so_has_bmc := s_bmc_host s \<noteq> []\<rparr>
         else out\<lparr>so_host := [], so_port := 0, so_auth_type := [], so_note := [], so_status_reason := None,
                so_bmc_host := [], so_bmc_user := []\<rparr>)"

definition list_servers :: "settings \<Rightarrow> user \<times> bool \<Rightarrow> db \<Rightarrow> server_out list" where
  "list_servers st session d =
     (case session of (u, auth_mfa) \<Rightarrow>
        map (to_out (is_admin u \<and> (\<not> require_admin_mfa st \<or> (mfa_enrolled u \<and> auth_mfa)))) (order_by s_id (d_servers d)))"

definition name_taken :: "db \<Rightarrow> string \<Rightarrow> bool" where
  "name_taken d name \<longleftrightarrow> list_ex (\<lambda>s. s_name s = name) (d_servers d)"

definition taken_error :: "string \<Rightarrow> http_error" where
  "taken_error name = HTTPException 400 (utf8 [230, 156, 141, 229, 138, 161, 229, 153, 168, 229, 144, 141, 231, 167, 176, 229, 183, 178, 229, 173, 152, 229, 156, 168] @ '': '' @ name)"

definition server_by_id :: "db \<Rightarrow> int \<Rightarrow> server option" where
  "server_by_id d sid = find (\<lambda>s. s_id s = sid) (d_servers d)"

definition server_not_found :: http_error where "server_not_found = HTTPException 404 ''Server not found''"

definition next_server_id :: "db \<Rightarrow> int" where
  "next_server_id d = foldr (\<lambda>s i. max (s_id s) i) (d_servers d) 0 + 1"

text \<open>A body of \<open>ServerCreate\<close> has a value for every field that has a default.\<close>

definition create_server :: "deployment \<Rightarrow> inputs \<Rightarrow> server_update \<Rightarrow> user \<Rightarrow> fleet \<Rightarrow> (http_error + server_out) \<times> fleet" where
  "create_server dp inp body admin f =
     (let made = and_then (connection_body dp body None) (\<lambda>c.
          if name_taken (fl_db f) (the_default [] (sv_name body)) then Inl (taken_error (the_default [] (sv_name body)))
          else and_then (seal_connection dp c) (\<lambda>(p, k, x).
            and_then (seal dp (the_default [] (sv_bmc_password body))) (\<lambda>b. Inr
              \<lparr>s_id = next_server_id (fl_db f), s_name = the_default [] (sv_name body), s_host = the_default [] (sv_host body),
               s_port = the_default 22 (sv_port body), s_auth_type = the_default ''password'' (flat (sv_auth_type body)),
               s_username = the_default ''gpumon'' (sv_username body), s_password = p, s_private_key = k, s_passphrase = x,
               s_bmc_host = the_default [] (sv_bmc_host body), s_bmc_user = the_default [] (sv_bmc_user body),
               s_bmc_password = b, s_enabled = the_default True (sv_enabled body),
               s_server_type = the_default ''gpu'' (sv_server_type body), s_tags = the_default [] (sv_tags body),
               s_note = the_default [] (sv_note body), s_expected_gpu_count = 0, s_status = Some ''active'',
               s_status_reason = [], s_status_until = None, s_created_at = i_now inp, s_updated_at = i_now inp\<rparr>)))
      in case made of
          Inl e \<Rightarrow> (Inl e, f)
        | Inr s \<Rightarrow> (Inr (to_out True s),
            recorded inp (u_username admin) ''server.create'' (''added server '' @ s_name s @ '' ('' @ s_host s @ '')'')
              (f\<lparr>fl_db := (fl_db f)\<lparr>d_servers := d_servers (fl_db f) @ [s]\<rparr>\<rparr>)))"

text \<open>The new password, private key and passphrase; \<open>None\<close> leaves the three columns alone.\<close>

definition credential_updates ::
    "deployment \<Rightarrow> server_update \<Rightarrow> server \<Rightarrow> http_error + (string \<times> string \<times> string) option" where
  "credential_updates dp body s =
     (let given = (\<lambda>v. text_or [] (flat v));
          touched = sv_auth_type body \<noteq> None \<or> sv_password body \<noteq> None \<or> sv_private_key body \<noteq> None \<or> sv_passphrase body \<noteq> None;
          keep_or = (\<lambda>new old. if new \<noteq> [] then seal dp new else Inr old)
      in if flat (sv_auth_type body) \<noteq> None \<and> flat (sv_auth_type body) \<noteq> Some (s_auth_type s)
         then and_then (connection_body dp body (Some s)) (\<lambda>c. and_then (seal_connection dp c) (\<lambda>x. Inr (Some x)))
         else if \<not> touched then Inr None
         else if s_auth_type s = ''password''
         then and_then (keep_or (given (sv_password body)) (s_password s)) (\<lambda>p. Inr (Some (p, [], [])))
         else and_then (keep_or (given (sv_private_key body)) (s_private_key s)) (\<lambda>k.
           and_then (if given (sv_private_key body) \<noteq> [] then seal dp (given (sv_passphrase body))
                     else case flat (sv_passphrase body) of Some x \<Rightarrow> seal dp x | None \<Rightarrow> Inr (s_passphrase s))
             (\<lambda>x. Inr (Some ([], k, x)))))"

definition address_changed :: "server_update \<Rightarrow> server \<Rightarrow> bool" where
  "address_changed body s \<longleftrightarrow> the_default (s_host s) (sv_host body) \<noteq> s_host s \<or> the_default (s_port s) (sv_port body) \<noteq> s_port s"

definition edited_server :: "server_update \<Rightarrow> (string \<times> string \<times> string) option \<Rightarrow> string option \<Rightarrow> server \<Rightarrow> server" where
  "edited_server body creds bmc s =
     (let s1 = s\<lparr>s_name := the_default (s_name s) (sv_name body), s_host := the_default (s_host s) (sv_host body),
            s_port := the_default (s_port s) (sv_port body), s_auth_type := the_default (s_auth_type s) (flat (sv_auth_type body)),
            s_username := the_default (s_username s) (sv_username body)\<rparr>;
          s2 = (case creds of None \<Rightarrow> s1 | Some (p, k, x) \<Rightarrow> s1\<lparr>s_password := p, s_private_key := k, s_passphrase := x\<rparr>)
      in s2\<lparr>s_enabled := the_default (s_enabled s) (sv_enabled body), s_server_type := the_default (s_server_type s) (sv_server_type body),
            s_tags := the_default (s_tags s) (sv_tags body), s_note := the_default (s_note s) (sv_note body),
            s_bmc_host := the_default (s_bmc_host s) (sv_bmc_host body), s_bmc_user := the_default (s_bmc_user s) (sv_bmc_user body),
            s_bmc_password := the_default (s_bmc_password s) bmc\<rparr>)"

text \<open>A row that changes gets a new \<open>updated_at\<close>.\<close>

definition touched_row :: "time \<Rightarrow> server \<Rightarrow> server \<Rightarrow> server" where
  "touched_row now old new = (if new = old then old else new\<lparr>s_updated_at := now\<rparr>)"

definition server_key :: "int \<Rightarrow> string" where
  "server_key sid = ''server_'' @ show_int sid"

definition put_server :: "server \<Rightarrow> db \<Rightarrow> db" where
  "put_server s' d = d\<lparr>d_servers := map (\<lambda>s. if s_id s = s_id s' then s' else s) (d_servers d)\<rparr>"

text \<open>The row the handler commits.\<close>

definition updated_row :: "deployment \<Rightarrow> inputs \<Rightarrow> outside \<Rightarrow> server_update \<Rightarrow> db \<Rightarrow> server \<Rightarrow> http_error + server" where
  "updated_row dp inp ou body d s =
     and_then (reject_root_ssh (dp_settings dp) (sv_username body)) (\<lambda>_.
       and_then (credential_updates dp body s) (\<lambda>creds.
         if the_default (s_name s) (sv_name body) \<noteq> s_name s \<and> name_taken d (the_default [] (sv_name body))
         then Inl (taken_error (the_default [] (sv_name body)))
         else if address_changed body s \<and> \<not> ou_storage_ok ou then Inl (Crash ''host key storage'')
         else and_then (case sv_bmc_password body of None \<Rightarrow> Inr None | Some p \<Rightarrow> and_then (seal dp p) (\<lambda>b. Inr (Some b)))
           (\<lambda>bmc. Inr (touched_row (i_now inp) s (edited_server body creds bmc s)))))"

definition update_server ::
    "deployment \<Rightarrow> inputs \<Rightarrow> outside \<Rightarrow> int \<Rightarrow> server_update \<Rightarrow> user \<Rightarrow> fleet \<Rightarrow> (http_error + server_out) \<times> fleet" where
  "update_server dp inp ou sid body admin f =
     (case server_by_id (fl_db f) sid of
        None \<Rightarrow> (Inl server_not_found, f)
      | Some s \<Rightarrow>
          (case updated_row dp inp ou body (fl_db f) s of
             Inl e \<Rightarrow> (Inl e, f)
           | Inr s' \<Rightarrow>
               (let f1 = recorded inp (u_username admin) ''server.update'' (''updated server '' @ s_name s')
                      (f\<lparr>fl_db := put_server s' (fl_db f)\<rparr>)
                in (Inr (to_out True s'),
                    if address_changed body s then f1\<lparr>fl_keys := snd (forget_hostkey (server_key sid) (fl_keys f1))\<rparr> else f1))))"

section \<open>Deleting\<close>

text \<open>The seven tables the handler empties for the server, and what the foreign keys of the samples,
  the process snapshots and the rules take away.\<close>

definition without_server :: "int \<Rightarrow> db \<Rightarrow> db" where
  "without_server sid d =
     (let gone = map r_id (filter (\<lambda>r. r_server_id r = Some sid) (d_rules d))
      in d\<lparr>d_hourly := filter (\<lambda>h. h_server_id h \<noteq> sid) (d_hourly d),
           d_metrics := filter (\<lambda>m. m_server_id m \<noteq> sid) (d_metrics d),
           d_kernel := filter (\<lambda>k. k_server_id k \<noteq> sid) (d_kernel d),
           d_slow := filter (\<lambda>h. sh_server_id h \<noteq> sid) (d_slow d),
           d_inventory := filter (\<lambda>h. hi_server_id h \<noteq> sid) (d_inventory d),
           d_baselines := filter (\<lambda>b. b_server_id b \<noteq> sid) (d_baselines d),
           d_notes := filter (\<lambda>n. n_server_id n \<noteq> sid) (d_notes d),
           d_snapshots := filter (\<lambda>p. ps_server_id p \<noteq> sid) (d_snapshots d),
           d_rules := filter (\<lambda>r. r_server_id r \<noteq> Some sid) (d_rules d),
           d_events := map (\<lambda>e. case e_rule_id e of Some r \<Rightarrow> if r \<in> set gone then e\<lparr>e_rule_id := None\<rparr> else e | None \<Rightarrow> e) (d_events d),
           d_servers := filter (\<lambda>s. s_id s \<noteq> sid) (d_servers d)\<rparr>)"

definition delete_server :: "inputs \<Rightarrow> outside \<Rightarrow> int \<Rightarrow> user \<Rightarrow> fleet \<Rightarrow> (http_error + unit) \<times> fleet" where
  "delete_server inp ou sid admin f =
     (case server_by_id (fl_db f) sid of
        None \<Rightarrow> (Inl server_not_found, f)
      | Some s \<Rightarrow>
          if \<not> ou_storage_ok ou then (Inl (Crash ''host key storage''), f)
          else (let d = without_server sid (fl_db f)
                in (Inr (), f\<lparr>fl_db := d\<lparr>d_audit := d_audit d @ [\<lparr>a_ts = i_now inp, a_username = u_username admin,
                        a_action = ''server.delete'', a_detail = ''deleted server '' @ s_name s\<rparr>]\<rparr>,
                      fl_keys := snd (forget_hostkey (server_key sid) (fl_keys f))\<rparr>)))"

section \<open>Connection tests\<close>

text \<open>The IPv4 address inside an IPv4-mapped IPv6 address.\<close>

definition ipv4_mapped :: "ip \<Rightarrow> ip" where
  "ipv4_mapped a =
     (case a of
        IPv4 w \<Rightarrow> a
      | IPv6 w scope \<Rightarrow> if drop_bit 32 w = 0xFFFF then IPv4 (ucast w) else a)"

text \<open>Loopback, multicast (\<open>224.0.0.0/4\<close>, \<open>ff00::/8\<close>), unspecified or link-local
  (\<open>169.254.0.0/16\<close>, \<open>fe80::/10\<close>).\<close>

definition bad_ip :: "ip \<Rightarrow> bool" where
  "bad_ip a \<longleftrightarrow>
     (let b = ipv4_mapped a
      in is_loopback b \<or>
         (case b of
            IPv4 w \<Rightarrow> in_network b (Net4 0xE0000000 4) \<or> w = 0 \<or> in_network b (Net4 0xA9FE0000 16)
          | IPv6 w scope \<Rightarrow> drop_bit 120 w = 0xFF \<or> w = 0 \<or> drop_bit 118 w = 0x3FA))"

definition illegal_target :: "string \<Rightarrow> bool \<times> string" where
  "illegal_target host = (False, utf8 [233, 157, 158, 230, 179, 149, 231, 155, 174, 230, 160, 135, 229, 156, 176, 229, 157, 128] @ '': '' @ host)"

definition vetted_target :: "(string \<Rightarrow> int \<Rightarrow> string list option) \<Rightarrow> string \<Rightarrow> int \<Rightarrow> http_error + (bool \<times> string) + string" where
  "vetted_target lookup host port =
     (case ip_address host of
        Some literal \<Rightarrow> if bad_ip literal then Inr (Inl (illegal_target host)) else Inr (Inr (show_ip literal))
      | None \<Rightarrow>
          (case lookup host (if port \<noteq> 0 then port else 22) of
             None \<Rightarrow> Inr (Inl (False, ''DNS '' @ utf8 [232, 167, 163, 230, 158, 144, 229, 164, 177, 232, 180, 165] @ '': '' @ host))
           | Some texts \<Rightarrow>
               (case those (map ip_address texts) of
                  None \<Rightarrow> Inl (Crash ''ValueError'')
                | Some answers \<Rightarrow>
                    if answers = [] \<or> list_ex bad_ip answers then Inr (Inl (illegal_target host))
                    else Inr (Inr (show_ip (hd answers))))))"

text \<open>A value that is used for one kind of authentication only.\<close>

definition for_auth :: "string \<Rightarrow> string \<Rightarrow> string \<Rightarrow> string" where
  "for_auth kind auth value = (if auth = kind then value else [])"

definition remote_step :: "(exn + unit) \<Rightarrow> 'a remote \<Rightarrow> 'a remote" where
  "remote_step link answer = (case link of Inl e \<Rightarrow> Inl e | Inr _ \<Rightarrow> answer)"

definition connect_draft :: "settings \<Rightarrow> outside \<Rightarrow> connection \<Rightarrow> string \<Rightarrow> string \<Rightarrow> key_files \<Rightarrow> (exn + unit) \<times> key_files" where
  "connect_draft st ou c key target files =
     connect_host (allow_root_ssh st) (ou_storage_ok ou) (ou_handshake ou) (cn_host c) (cn_port c) (cn_username c)
       (for_auth ''password'' (cn_auth_type c) (cn_password c)) (for_auth ''key'' (cn_auth_type c) (cn_private_key c))
       key target files"

definition run_connection_test ::
    "settings \<Rightarrow> outside \<Rightarrow> connection \<Rightarrow> string \<Rightarrow> key_files \<Rightarrow> (http_error + (bool \<times> string)) \<times> key_files" where
  "run_connection_test st ou c key files =
     (case and_then (reject_root_ssh st (Some (cn_username c))) (\<lambda>_. vetted_target (ou_lookup ou) (cn_host c) (cn_port c)) of
        Inl e \<Rightarrow> (Inl e, files)
      | Inr (Inl refused) \<Rightarrow> (Inr refused, files)
      | Inr (Inr target) \<Rightarrow>
          (case connect_draft st ou c key target files of
             (link, files') \<Rightarrow> (Inr (test_connection (ou_timeout ou) (remote_step link (ou_probe ou))), files')))"

definition target_key :: "connection \<Rightarrow> string" where
  "target_key c = ''target_'' @ cn_host c @ ''_'' @ show_int (cn_port c)"

definition test_server_connection :: "settings \<Rightarrow> outside \<Rightarrow> connection \<Rightarrow> fleet \<Rightarrow> (http_error + (bool \<times> string)) \<times> fleet" where
  "test_server_connection st ou c f =
     (case run_connection_test st ou c (target_key c) (fl_keys f) of (r, files) \<Rightarrow> (r, f\<lparr>fl_keys := files\<rparr>))"

text \<open>An audit row is not shortened here.\<close>

definition audit_in_full :: "inputs \<Rightarrow> string \<Rightarrow> string \<Rightarrow> string \<Rightarrow> fleet \<Rightarrow> fleet" where
  "audit_in_full inp username action detail f =
     (if i_audit_ok inp
      then f\<lparr>fl_db := (fl_db f)\<lparr>d_audit := d_audit (fl_db f) @
             [\<lparr>a_ts = i_now inp, a_username = username, a_action = action, a_detail = detail\<rparr>]\<rparr>\<rparr>
      else f)"

definition test_stored_server ::
    "deployment \<Rightarrow> inputs \<Rightarrow> outside \<Rightarrow> int \<Rightarrow> server_update \<Rightarrow> user \<Rightarrow> fleet \<Rightarrow> (http_error + (bool \<times> string)) \<times> fleet" where
  "test_stored_server dp inp ou sid body admin f =
     (case server_by_id (fl_db f) sid of
        None \<Rightarrow> (Inl server_not_found, f)
      | Some s \<Rightarrow>
          (case connection_body dp body (Some s) of
             Inl e \<Rightarrow> (Inl e, f)
           | Inr c \<Rightarrow>
               (case run_connection_test (dp_settings dp) ou c
                   (if cn_host c = s_host s \<and> cn_port c = s_port s then server_key sid else target_key c) (fl_keys f) of
                  (Inl e, files) \<Rightarrow> (Inl e, f\<lparr>fl_keys := files\<rparr>)
                | (Inr (ok, message), files) \<Rightarrow>
                    (Inr (ok, message),
                     audit_in_full inp (u_username admin) ''server.test''
                       (''test '' @ s_name s @ '': '' @ (if ok then ''ok'' else message)) (f\<lparr>fl_keys := files\<rparr>)))))"

text \<open>\<open>connect_server\<close>, the connection of the scheduler and of every other handler to a stored server.\<close>

definition ssh_port :: "server \<Rightarrow> int" where
  "ssh_port s = (if s_port s \<noteq> 0 then s_port s else 22)"

definition connect_server :: "deployment \<Rightarrow> outside \<Rightarrow> server \<Rightarrow> key_files \<Rightarrow> (exn + unit) \<times> key_files" where
  "connect_server dp ou s files =
     (let open_text = (\<lambda>kind token. if s_auth_type s = kind then decrypt_text (dp_fernet dp) (dp_settings dp) token else Inr [])
      in case and_then (open_text ''password'' (s_password s)) (\<lambda>p. and_then (open_text ''key'' (s_private_key s)) (\<lambda>k.
           and_then (open_text ''key'' (s_passphrase s)) (\<lambda>x. Inr (p, k)))) of
          Inl e \<Rightarrow> (Inl (CredentialDecryptionError, ''stored credential cannot be decrypted''), files)
        | Inr (p, k) \<Rightarrow>
            connect_host (allow_root_ssh (dp_settings dp)) (ou_storage_ok ou) (ou_handshake ou) (s_host s) (ssh_port s)
              (s_username s) p k (server_key (s_id s)) [] files)"

section \<open>Lifecycle and notes\<close>

definition SERVER_STATUSES :: "string list" where
  "SERVER_STATUSES = [''active'', ''maintenance'', ''drained'', ''rma'']"

definition set_server_status ::
    "inputs \<Rightarrow> int \<Rightarrow> string \<Rightarrow> string \<Rightarrow> time option \<Rightarrow> user \<Rightarrow> fleet \<Rightarrow> (http_error + server_out) \<times> fleet" where
  "set_server_status inp sid status reason until admin f =
     (case server_by_id (fl_db f) sid of
        None \<Rightarrow> (Inl server_not_found, f)
      | Some s \<Rightarrow>
          (let s' = touched_row (i_now inp) s (s\<lparr>s_status := Some status, s_status_reason := reason, s_status_until := until\<rparr>);
               note = \<lparr>n_server_id = sid, n_ts = i_now inp, n_username = u_username admin,
                  n_kind = (if status = ''maintenance'' then ''maintenance'' else ''note''),
                  n_content = utf8 [231, 138, 182, 230, 128, 129, 229, 143, 152, 230, 155, 180, 228, 184, 186] @ '' '' @ status @ (if reason \<noteq> [] then utf8 [239, 188, 154] @ reason else [])\<rparr>;
               d = put_server s' (fl_db f)
           in (Inr (to_out True s'),
               recorded inp (u_username admin) ''server.status'' (s_name s @ '' -> '' @ status)
                 (f\<lparr>fl_db := d\<lparr>d_notes := d_notes d @ [note]\<rparr>\<rparr>))))"

definition list_notes :: "int \<Rightarrow> db \<Rightarrow> server_note list" where
  "list_notes sid d = take 200 (rev (order_by n_ts (filter (\<lambda>n. n_server_id n = sid) (d_notes d))))"

definition NOTE_KINDS :: "string list" where "NOTE_KINDS = [''note'', ''maintenance'', ''repair'']"

definition add_note :: "inputs \<Rightarrow> int \<Rightarrow> string \<Rightarrow> string \<Rightarrow> user \<Rightarrow> fleet \<Rightarrow> (http_error + unit) \<times> fleet" where
  "add_note inp sid kind content u f =
     (case server_by_id (fl_db f) sid of
        None \<Rightarrow> (Inl server_not_found, f)
      | Some s \<Rightarrow>
          if kind \<notin> set NOTE_KINDS then (Inl (HTTPException 400 ''invalid kind''), f)
          else if strip content = [] then (Inl (HTTPException 400 ''content required''), f)
          else (Inr (), recorded inp (u_username u) ''server.note'' (s_name s @ '': '' @ kind)
            (f\<lparr>fl_db := (fl_db f)\<lparr>d_notes := d_notes (fl_db f) @ [\<lparr>n_server_id = sid, n_ts = i_now inp,
               n_username = u_username u, n_kind = kind, n_content = take 2000 (strip content)\<rparr>]\<rparr>\<rparr>)))"

end
