(* ===== verification/Actions.thy ===== *)
theory Actions
  imports Servers Sessions
begin

text \<open>
  The two handlers that act on a remote host and ask for the administrator's password once more:
  \<open>process_action\<close> of \<open>backend/app/api/metrics.py\<close> and \<open>reset_hostkey\<close> of
  \<open>backend/app/api/enterprise.py\<close>.
\<close>

section \<open>Asking for the password\<close>

definition audit_row :: "inputs \<Rightarrow> user \<Rightarrow> string \<Rightarrow> string \<Rightarrow> audit_log" where
  "audit_row inp u action detail = \<lparr>a_ts = i_now inp, a_username = u_username u, a_action = action, a_detail = detail\<rparr>"

definition add_audit :: "audit_log \<Rightarrow> fleet \<Rightarrow> fleet" where
  "add_audit row f = f\<lparr>fl_db := (fl_db f)\<lparr>d_audit := d_audit (fl_db f) @ [row]\<rparr>\<rparr>"

definition audit_unavailable :: http_error where
  "audit_unavailable = HTTPException 503 ''security audit unavailable''"

text \<open>The first commit of the request stores the refusal.\<close>

definition reauthenticate ::
    "deployment \<Rightarrow> inputs \<Rightarrow> outside \<Rightarrow> web_request \<Rightarrow> user \<Rightarrow> string \<Rightarrow> string \<Rightarrow> string \<Rightarrow> (string \<Rightarrow> string) \<Rightarrow> fleet \<Rightarrow>
     (http_error + string) \<times> fleet" where
  "reauthenticate dp inp ou rq admin purpose password action detail f =
     (case check_step_up_limit (dp_settings dp) (clock inp) (fl_step_up f) rq admin purpose of
        Inl e \<Rightarrow> (Inl e, f)
      | Inr (ip, bucket) \<Rightarrow>
          if \<not> verify_password (dp_verify dp) password (u_password_hash admin)
          then (let f1 = f\<lparr>fl_step_up := record_failure (clock inp) ip bucket (fl_step_up f)\<rparr>
                in if ou_commit ou 0
                   then (Inl (HTTPException 403 ''administrator re-authentication failed''),
                         add_audit (audit_row inp admin action (detail ip)) f1)
                   else (Inl audit_unavailable, f1))
          else (Inr ip, f\<lparr>fl_step_up := record_success ip bucket (fl_step_up f)\<rparr>))"

section \<open>Acting on a process\<close>

record process_request =
  pa_action :: string
  pa_pid :: int
  pa_start_ticks :: int
  pa_signal :: string
  pa_nice :: int
  pa_password :: string

definition process_request_ok :: "process_request \<Rightarrow> bool" where
  "process_request_ok b \<longleftrightarrow>
     pa_action b \<in> {''kill'', ''renice''} \<and> 1 \<le> pa_pid b \<and> 0 < pa_start_ticks b \<and>
     pa_signal b \<in> {''TERM'', ''KILL'', ''HUP'', ''INT''} \<and> -20 \<le> pa_nice b \<and> pa_nice b \<le> 19 \<and>
     1 \<le> length (pa_password b) \<and> length (pa_password b) \<le> 128"

definition action_command :: "process_request \<Rightarrow> string" where
  "action_command b =
     (if pa_action b = ''kill'' then ''kill -'' @ pa_signal b @ '' '' @ show_int (pa_pid b)
      else ''renice '' @ show_int (pa_nice b) @ '' -p '' @ show_int (pa_pid b))"

text \<open>The command compares the start time of the process before it acts.\<close>

definition guarded_command :: "process_request \<Rightarrow> string" where
  "guarded_command b =
     ''PATH=/usr/sbin:/usr/bin:/sbin:/bin; export PATH; '' @
     ''stat=$(cat /proc/'' @ show_int (pa_pid b) @ ''/stat 2>/dev/null) || exit 75; '' @
     ''rest=${stat##*) }; set -- $rest; current=${20}; '' @
     ''[ \"$current\" = \"'' @ show_int (pa_start_ticks b) @ ''\" ] || '' @
     ''{ echo 'process identity changed'; exit 75; }; '' @
     action_command b"

definition process_refusal :: "int \<Rightarrow> process_request \<Rightarrow> string \<Rightarrow> string" where
  "process_refusal sid b ip = ''server_id='' @ show_int sid @ '' pid='' @ show_int (pa_pid b) @ '' ip='' @ ip"

definition process_intent :: "inputs \<Rightarrow> user \<Rightarrow> process_request \<Rightarrow> server \<Rightarrow> string \<Rightarrow> audit_log" where
  "process_intent inp admin b s ip =
     audit_row inp admin (''process.'' @ pa_action b @ ''.requested'')
       (''server='' @ s_name s @ '' pid='' @ show_int (pa_pid b) @ '' start_ticks='' @ show_int (pa_start_ticks b) @ '' ip='' @ ip)"

definition process_result :: "inputs \<Rightarrow> user \<Rightarrow> process_request \<Rightarrow> server \<Rightarrow> bool \<Rightarrow> audit_log" where
  "process_result inp admin b s ok =
     audit_row inp admin (''process.'' @ pa_action b @ ''.result'')
       (''server='' @ s_name s @ '' action='' @ pa_action b @ '' pid='' @ show_int (pa_pid b) @ '' -> ''
        @ (if ok then ''ok'' else ''failed''))"

text \<open>The part of the handler behind the intent record.\<close>

definition run_action :: "deployment \<Rightarrow> inputs \<Rightarrow> outside \<Rightarrow> process_request \<Rightarrow> user \<Rightarrow> server \<Rightarrow> fleet \<Rightarrow> (http_error + string) \<times> fleet" where
  "run_action dp inp ou b admin s f =
     (case connect_server dp ou s (fl_keys f) of
        (link, files) \<Rightarrow>
          (let f1 = f\<lparr>fl_keys := files,
                 fl_sent := fl_sent f @ (case link of Inl _ \<Rightarrow> [] | Inr _ \<Rightarrow> [(server_key (s_id s), guarded_command b)])\<rparr>;
               (ok, msg) = remote_command (ou_timeout ou) (remote_step link (ou_command ou (guarded_command b)));
               f2 = (if ou_commit ou 1 then add_audit (process_result inp admin b s ok) f1 else f1)
           in (if ok then Inr msg else Inl (HTTPException 502 msg), f2)))"

definition process_action ::
    "deployment \<Rightarrow> inputs \<Rightarrow> outside \<Rightarrow> web_request \<Rightarrow> int \<Rightarrow> process_request \<Rightarrow> user \<Rightarrow> fleet \<Rightarrow> (http_error + string) \<times> fleet" where
  "process_action dp inp ou rq sid b admin f =
     (if \<not> remote_process_control_enabled (dp_settings dp)
      then (Inl (HTTPException 403 ''remote process control is disabled''), f)
      else case reauthenticate dp inp ou rq admin ''process-action'' (pa_password b) ''process.reauth_failed''
          (process_refusal sid b) f of
        (Inl e, f1) \<Rightarrow> (Inl e, f1)
      | (Inr ip, f1) \<Rightarrow>
          (case server_by_id (fl_db f1) sid of
             None \<Rightarrow> (Inl server_not_found, f1)
           | Some s \<Rightarrow>
               if \<not> ou_commit ou 0 then (Inl audit_unavailable, f1)
               else run_action dp inp ou b admin s (add_audit (process_intent inp admin b s ip) f1)))"

section \<open>Replacing a host key\<close>

record hostkey_reset =
  hr_fingerprint :: string
  hr_password :: string

definition hostkey_reset_ok :: "hostkey_reset \<Rightarrow> bool" where
  "hostkey_reset_ok b \<longleftrightarrow>
     50 \<le> length (hr_fingerprint b) \<and> length (hr_fingerprint b) \<le> 60 \<and> take 7 (hr_fingerprint b) = ''SHA256:'' \<and>
     (let rest = drop 7 (hr_fingerprint b)
      in list_all b64_char (take 43 rest) \<and> 43 \<le> length rest \<and> (drop 43 rest = [] \<or> drop 43 rest = ''='')) \<and>
     1 \<le> length (hr_password b) \<and> length (hr_password b) \<le> 128"

definition reset_clears :: "int \<Rightarrow> alert_event \<Rightarrow> bool" where
  "reset_clears sid e \<longleftrightarrow>
     e_server_id e = sid \<and> e_rule_id e = None \<and> e_metric e \<in> {''SSH_FAULT'', ''HOSTKEY_CHANGED''} \<and> e_recovered_at e = None"

definition reset_refusal :: "int \<Rightarrow> string \<Rightarrow> string" where
  "reset_refusal sid ip = ''server_id='' @ show_int sid @ '' ip='' @ ip"

definition reset_intent :: "inputs \<Rightarrow> user \<Rightarrow> int \<Rightarrow> hostkey_reset \<Rightarrow> string \<Rightarrow> audit_log" where
  "reset_intent inp admin sid b ip =
     audit_row inp admin ''server.reset_hostkey.requested''
       (''server_id='' @ show_int sid @ '' fingerprint='' @ rstrip_char (CHR ''='') (hr_fingerprint b) @ '' ip='' @ ip)"

text \<open>The part of the handler behind the intent record.\<close>

definition pin_and_clear :: "inputs \<Rightarrow> outside \<Rightarrow> int \<Rightarrow> hostkey_reset \<Rightarrow> user \<Rightarrow> server \<Rightarrow> fleet \<Rightarrow> (http_error + string) \<times> fleet" where
  "pin_and_clear inp ou sid b admin s f =
     (case replace_hostkey (ou_fingerprint ou) (ou_host_key ou (s_host s) (ssh_port s)) (s_host s) (ssh_port s)
          (server_key sid) (hr_fingerprint b) (fl_keys f) of
        Inl (kind, msg) \<Rightarrow>
          (Inl (if kind = HostKeyFingerprintMismatch then HTTPException 409 msg
                else HTTPException 502 ''unable to verify and pin the SSH host key''), f)
      | Inr (actual, files) \<Rightarrow>
          (let f1 = f\<lparr>fl_keys := files\<rparr>
           in if \<not> ou_commit ou 1 then (Inl audit_unavailable, f1)
              else (Inr actual,
                add_audit (audit_row inp admin ''server.reset_hostkey.completed''
                    (''server_id='' @ show_int sid @ '' fingerprint='' @ actual))
                  (f1\<lparr>fl_db := (fl_db f1)\<lparr>d_events := map
                      (\<lambda>e. if reset_clears sid e then e\<lparr>e_recovered_at := Some (i_now inp)\<rparr> else e)
                      (d_events (fl_db f1))\<rparr>\<rparr>))))"

definition reset_hostkey ::
    "deployment \<Rightarrow> inputs \<Rightarrow> outside \<Rightarrow> web_request \<Rightarrow> int \<Rightarrow> hostkey_reset \<Rightarrow> user \<Rightarrow> fleet \<Rightarrow> (http_error + string) \<times> fleet" where
  "reset_hostkey dp inp ou rq sid b admin f =
     (case server_by_id (fl_db f) sid of
        None \<Rightarrow> (Inl (HTTPException 404 ''server not found''), f)
      | Some s \<Rightarrow>
          (case reauthenticate dp inp ou rq admin ''hostkey-reset'' (hr_password b)
              ''server.reset_hostkey.reauth_failed'' (reset_refusal sid) f of
             (Inl e, f1) \<Rightarrow> (Inl e, f1)
           | (Inr ip, f1) \<Rightarrow>
               if \<not> ou_commit ou 0 then (Inl audit_unavailable, f1)
               else pin_and_clear inp ou sid b admin s (add_audit (reset_intent inp admin sid b ip) f1)))"

section \<open>What leaves the process on a user's behalf\<close>

lemma show_nat_inj: "show_nat m = show_nat n \<Longrightarrow> m = n"
  by (metis option.inject py_digits_show_nat)

lemma show_nat_no_minus: "CHR ''-'' \<notin> set (show_nat n)"
  using show_nat_digits_only(2) [of n] by (auto simp: list_all_iff is_digit_def code_def)

lemma show_int_inj: "show_int i = show_int j \<Longrightarrow> i = j"
proof -
  assume eq: "show_int i = show_int j"
  have "hd (show_nat k) \<noteq> CHR ''-''" for k
    using show_nat_no_minus [of k] show_nat_digits_only(1) [of k] by (metis hd_in_set)
  then have "show_nat k \<noteq> CHR ''-'' # r" for k r by (metis list.sel(1))
  with eq show ?thesis
    by (auto simp: show_int_def split: if_splits dest!: show_nat_inj) (metis)+
qed

definition word_char :: "char \<Rightarrow> bool" where
  "word_char c \<longleftrightarrow> is_digit c \<or> is_upper c \<or> (97 \<le> code c \<and> code c \<le> 122) \<or> c = CHR ''-'' \<or> c = CHR '' ''"

lemma word_chars_show_int: "list_all word_char (show_int i)"
proof -
  have "list_all word_char (show_nat n)" for n
    using show_nat_digits_only(2) [of n] by (auto simp: list_all_iff word_char_def)
  then show ?thesis by (simp add: show_int_def word_char_def)
qed

lemma action_texts_plain:
  "list_all word_char ''kill -''" "list_all word_char '' ''" "list_all word_char ''renice ''" "list_all word_char '' -p ''"
  "list_all word_char ''TERM''" "list_all word_char ''KILL''" "list_all word_char ''HUP''" "list_all word_char ''INT''"
  by code_simp+

lemma action_command_plain:
  assumes "process_request_ok b"
  shows "list_all word_char (action_command b)"
proof -
  have "list_all word_char (pa_signal b)"
  proof -
    from assms have "pa_signal b \<in> {''TERM'', ''KILL'', ''HUP'', ''INT''}" by (simp only: process_request_ok_def)
    then show ?thesis by (elim insertE emptyE) (simp_all only: action_texts_plain)
  qed
  then show ?thesis unfolding action_command_def
    by (simp only: list_all_append action_texts_plain word_chars_show_int simp_thms if_cancel split: if_split)
qed

lemma reauthenticate_passed:
  "reauthenticate dp inp ou rq admin purpose password action detail f = (Inr ip, f1) \<Longrightarrow>
    verify_password (dp_verify dp) password (u_password_hash admin) \<and> ip = resolve_client_ip (dp_settings dp) rq \<and>
    fl_db f1 = fl_db f \<and> fl_keys f1 = fl_keys f \<and> fl_sent f1 = fl_sent f"
  by (auto simp: reauthenticate_def check_step_up_limit_def Let_def split: sum.splits if_splits prod.splits bool.splits)

lemma reauthenticate_refused:
  "reauthenticate dp inp ou rq admin purpose password action detail f = (Inl e, f1) \<Longrightarrow>
    fl_keys f1 = fl_keys f \<and> fl_sent f1 = fl_sent f \<and> d_servers (fl_db f1) = d_servers (fl_db f)"
  by (auto simp: reauthenticate_def add_audit_def Let_def split: sum.splits if_splits)

lemma add_audit_simps [simp]:
  "fl_keys (add_audit row f) = fl_keys f" "fl_sent (add_audit row f) = fl_sent f"
  "d_servers (fl_db (add_audit row f)) = d_servers (fl_db f)" "row \<in> set (d_audit (fl_db (add_audit row f)))"
  "d_audit (fl_db (add_audit row f)) = d_audit (fl_db f) @ [row]"
  by (simp_all add: add_audit_def)

lemma run_action_sent:
  assumes "run_action dp inp ou b admin s f = (r, f')"
  shows "(fl_sent f' = fl_sent f \<or> fl_sent f' = fl_sent f @ [(server_key (s_id s), guarded_command b)]) \<and>
    (\<exists>rows. d_audit (fl_db f') = d_audit (fl_db f) @ rows)"
  using assms by (auto simp: run_action_def Let_def split: prod.splits sum.splits if_splits)

lemma pin_and_clear_keys:
  assumes "pin_and_clear inp ou sid b admin s f = (r, f')"
    and "fl_keys f' \<noteq> fl_keys f"
  shows "(\<exists>key. ou_host_key ou (s_host s) (ssh_port s) = Inr key \<and>
      rstrip_char (CHR ''='') (ou_fingerprint ou key) = rstrip_char (CHR ''='') (strip (hr_fingerprint b)) \<and>
      fl_keys f' = AList.update (hostkey_file (server_key sid)) [(host_pattern (s_host s) (ssh_port s), key)] (fl_keys f)) \<and>
    (\<exists>rows. d_audit (fl_db f') = d_audit (fl_db f) @ rows)"
  using assms
  by (auto simp: pin_and_clear_def replace_hostkey_def validate_expected_fingerprint_def tofu_policy_def Let_def
      split: sum.splits if_splits)

text \<open>
  C16.  A command reaches a host only on the word of an administrator: if anything was sent, remote control
  is switched on, the password was given again, one guarded command went to that server, and the
  record of the request was committed before.  The action part of the command holds letters, digits,
  minus signs and blanks only, so that nothing of the request can be read as shell syntax.
\<close>

theorem remote_actions_are_authorised:
  assumes "process_action dp inp ou rq sid b admin f = (r, f')"
    and "process_request_ok b"
    and "fl_sent f' \<noteq> fl_sent f"
  shows "remote_process_control_enabled (dp_settings dp) \<and>
    verify_password (dp_verify dp) (pa_password b) (u_password_hash admin) \<and>
    fl_sent f' = fl_sent f @ [(server_key sid, guarded_command b)] \<and> list_all word_char (action_command b) \<and>
    ou_commit ou 0 \<and>
    (\<exists>s rows. server_by_id (fl_db f) sid = Some s \<and>
      d_audit (fl_db f') = d_audit (fl_db f) @
        process_intent inp admin b s (resolve_client_ip (dp_settings dp) rq) # rows)"
proof -
  let ?re = "reauthenticate dp inp ou rq admin ''process-action'' (pa_password b) ''process.reauth_failed'' (process_refusal sid b) f"
  have on: "remote_process_control_enabled (dp_settings dp)" using assms(1,3) by (auto simp: process_action_def split: if_splits)
  obtain q f1 where re: "?re = (q, f1)" by (cases ?re)
  show ?thesis
  proof (cases q)
    case (Inl e)
    with re assms(1) on have "f' = f1" by (simp add: process_action_def)
    with reauthenticate_refused [OF re [unfolded Inl]] assms(3) show ?thesis by simp
  next
    case (Inr ip)
    note f1 = reauthenticate_passed [OF re [unfolded Inr]]
    with assms(1,3) on re Inr obtain s where s: "server_by_id (fl_db f) sid = Some s"
      by (simp add: process_action_def split: option.splits)
    with assms(1,3) on re Inr f1 have ok: "ou_commit ou 0" by (simp add: process_action_def split: if_splits)
    with assms(1) on re Inr f1 s
    have run: "run_action dp inp ou b admin s (add_audit (process_intent inp admin b s ip) f1) = (r, f')"
      by (simp add: process_action_def)
    have "s_id s = sid" using s by (auto simp: server_by_id_def find_Some_iff)
    with run_action_sent [OF run] assms(3) f1 on ok s action_command_plain [OF assms(2)] show ?thesis by auto
  qed
qed

text \<open>
  The trust in a host changes only on the word of an administrator: if a reset leaves other key files,
  the password was given again, the record of the request was committed before, the host's key has the
  fingerprint that was asked for, and only that server's file differs.
\<close>

theorem hostkey_reset_is_authorised:
  assumes "reset_hostkey dp inp ou rq sid b admin f = (r, f')"
    and "fl_keys f' \<noteq> fl_keys f"
  shows "verify_password (dp_verify dp) (hr_password b) (u_password_hash admin) \<and> ou_commit ou 0 \<and>
    (\<exists>s key. server_by_id (fl_db f) sid = Some s \<and> ou_host_key ou (s_host s) (ssh_port s) = Inr key \<and>
      rstrip_char (CHR ''='') (ou_fingerprint ou key) = rstrip_char (CHR ''='') (strip (hr_fingerprint b)) \<and>
      fl_keys f' = AList.update (hostkey_file (server_key sid)) [(host_pattern (s_host s) (ssh_port s), key)] (fl_keys f)) \<and>
    (\<exists>rows. d_audit (fl_db f') = d_audit (fl_db f) @
      reset_intent inp admin sid b (resolve_client_ip (dp_settings dp) rq) # rows)"
proof -
  let ?re = "reauthenticate dp inp ou rq admin ''hostkey-reset'' (hr_password b) ''server.reset_hostkey.reauth_failed'' (reset_refusal sid) f"
  obtain s where s: "server_by_id (fl_db f) sid = Some s"
    using assms by (auto simp: reset_hostkey_def split: option.splits)
  obtain q f1 where re: "?re = (q, f1)" by (cases ?re)
  show ?thesis
  proof (cases q)
    case (Inl e)
    with re assms(1) s have "f' = f1" by (simp add: reset_hostkey_def)
    with reauthenticate_refused [OF re [unfolded Inl]] assms(2) show ?thesis by simp
  next
    case (Inr ip)
    note f1 = reauthenticate_passed [OF re [unfolded Inr]]
    with assms s re Inr have ok: "ou_commit ou 0" by (simp add: reset_hostkey_def split: if_splits)
    with assms(1) re Inr f1 s
    have run: "pin_and_clear inp ou sid b admin s (add_audit (reset_intent inp admin sid b ip) f1) = (r, f')"
      by (simp add: reset_hostkey_def)
    with assms(2) f1 have "fl_keys f' \<noteq> fl_keys (add_audit (reset_intent inp admin sid b ip) f1)" by simp
    from pin_and_clear_keys [OF run this] f1 ok s show ?thesis by auto
  qed
qed

section \<open>An example\<close>

definition demo_host :: "int \<Rightarrow> string \<Rightarrow> string \<Rightarrow> server" where
  "demo_host i name host =
     \<lparr>s_id = i, s_name = name, s_host = host, s_port = 22, s_auth_type = ''password'', s_username = ''gpumon'',
      s_password = ''kpw'', s_private_key = [], s_passphrase = [], s_bmc_host = [], s_bmc_user = [], s_bmc_password = [],
      s_enabled = True, s_server_type = ''gpu'', s_tags = [], s_note = [], s_expected_gpu_count = 0, s_status = Some ''active'',
      s_status_reason = [], s_status_until = None, s_created_at = 0, s_updated_at = 0\<rparr>"

definition demo_fleet :: fleet where
  "demo_fleet = \<lparr>fl_db = empty_db\<lparr>d_users := [demo_user 1 ''ann'' ''admin''], d_servers := [demo_host 1 ''a'' ''h'']\<rparr>,
     fl_keys = [], fl_step_up = new_limiter, fl_sent = []\<rparr>"

definition demo_outside :: outside where
  "demo_outside = \<lparr>ou_storage_ok = True, ou_lookup = (\<lambda>h p. None), ou_handshake = (\<lambda>p. UnknownKey (demo_key 7)),
     ou_probe = Inr (0, ''ok''), ou_command = (\<lambda>c. Inr (0, ''done'', [])), ou_host_key = (\<lambda>h p. Inr (demo_key 9)),
     ou_fingerprint = (\<lambda>k. demo_fingerprint), ou_timeout = 10, ou_commit = (\<lambda>n. True)\<rparr>"

definition controlled :: deployment where
  "controlled = demo_deployment\<lparr>dp_settings := (dp_settings demo_deployment)\<lparr>REMOTE_PROCESS_CONTROL_ENABLED := ''yes''\<rparr>\<rparr>"

definition demo_kill :: process_request where
  "demo_kill = \<lparr>pa_action = ''kill'', pa_pid = 12, pa_start_ticks = 5, pa_signal = ''TERM'', pa_nice = 0, pa_password = ''ann''\<rparr>"

lemma demo_kill_sent:
  "fl_sent (snd (process_action controlled (demo_inputs 0) demo_outside demo_request 1 demo_kill (demo_user 1 ''ann'' ''admin'') demo_fleet))
    \<noteq> fl_sent demo_fleet"
  by code_simp

theorem remote_actions_are_authorised_witness:
  "verify_password (dp_verify controlled) ''ann'' (u_password_hash (demo_user 1 ''ann'' ''admin'')) \<and>
   fl_sent (snd (process_action controlled (demo_inputs 0) demo_outside demo_request 1 demo_kill (demo_user 1 ''ann'' ''admin'') demo_fleet))
     = [(server_key 1, guarded_command demo_kill)]"
proof -
  have "process_request_ok demo_kill" by code_simp
  moreover have "fl_sent demo_fleet = []" "pa_password demo_kill = ''ann''" by (simp_all add: demo_fleet_def demo_kill_def)
  ultimately show ?thesis
    using remote_actions_are_authorised [OF surjective_pairing _ demo_kill_sent] by simp
qed

definition demo_reset :: hostkey_reset where
  "demo_reset = \<lparr>hr_fingerprint = demo_fingerprint, hr_password = ''ann''\<rparr>"

lemma demo_reset_changes:
  "fl_keys (snd (reset_hostkey controlled (demo_inputs 0) demo_outside demo_request 1 demo_reset (demo_user 1 ''ann'' ''admin'') demo_fleet))
    \<noteq> fl_keys demo_fleet"
  by code_simp

theorem hostkey_reset_is_authorised_witness:
  "\<exists>s key. server_by_id (fl_db demo_fleet) 1 = Some s \<and> ou_host_key demo_outside (s_host s) (ssh_port s) = Inr key \<and>
    rstrip_char (CHR ''='') (ou_fingerprint demo_outside key) = rstrip_char (CHR ''='') (strip (hr_fingerprint demo_reset))"
  using hostkey_reset_is_authorised [OF surjective_pairing demo_reset_changes] by blast

end
