(* ===== verification/Fleet.thy ===== *)
theory Fleet
  imports Actions
begin

text \<open>
  The server endpoints together: the checks of the request bodies (\<open>backend/app/schemas.py\<close>), one
  transition for every request that touches servers, credentials or host keys and for every connection
  the scheduler makes, and what stays true of the stored servers and key files over all sequences.
\<close>

section \<open>Bodies\<close>

definition length_in :: "nat \<Rightarrow> nat \<Rightarrow> string option \<Rightarrow> bool" where
  "length_in lo hi v \<longleftrightarrow> (case v of None \<Rightarrow> True | Some t \<Rightarrow> lo \<le> length t \<and> length t \<le> hi)"

definition cleaned :: "bool \<Rightarrow> string option \<Rightarrow> string option option" where
  "cleaned allow_empty v = (case v of None \<Rightarrow> Some None | Some t \<Rightarrow> map_option Some (clean_network_host allow_empty t))"

definition known_auth :: "string option \<Rightarrow> bool" where
  "known_auth v \<longleftrightarrow> (case v of None \<Rightarrow> True | Some a \<Rightarrow> a \<in> {''password'', ''key''})"

definition server_fields_ok :: "server_update \<Rightarrow> bool" where
  "server_fields_ok b \<longleftrightarrow>
     length_in 1 128 (sv_name b) \<and> length_in 1 255 (sv_host b) \<and> length_in 1 64 (sv_username b) \<and>
     length_in 0 255 (sv_bmc_host b) \<and> length_in 0 64 (sv_bmc_user b) \<and>
     (case sv_port b of None \<Rightarrow> True | Some p \<Rightarrow> 1 \<le> p \<and> p \<le> 65535) \<and> known_auth (flat (sv_auth_type b)) \<and>
     (case sv_server_type b of None \<Rightarrow> True | Some t \<Rightarrow> t \<in> {''gpu'', ''cpu''})"

text \<open>\<open>None\<close> is 422.\<close>

definition checked_update :: "server_update \<Rightarrow> server_update option" where
  "checked_update b =
     (if \<not> server_fields_ok b then None
      else case (cleaned False (sv_host b), cleaned True (sv_bmc_host b)) of
          (Some h, Some m) \<Rightarrow> Some (b\<lparr>sv_host := h, sv_bmc_host := m\<rparr>)
        | _ \<Rightarrow> None)"

definition with_defaults :: "server_update \<Rightarrow> server_update" where
  "with_defaults b = b\<lparr>
     sv_port := Some (the_default 22 (sv_port b)), sv_auth_type := Some (Some (the_default ''password'' (flat (sv_auth_type b)))),
     sv_username := Some (the_default ''gpumon'' (sv_username b)), sv_enabled := Some (the_default True (sv_enabled b)),
     sv_server_type := Some (the_default ''gpu'' (sv_server_type b)), sv_tags := Some (the_default [] (sv_tags b)),
     sv_note := Some (the_default [] (sv_note b)), sv_bmc_host := Some (the_default [] (sv_bmc_host b)),
     sv_bmc_user := Some (the_default [] (sv_bmc_user b))\<rparr>"

definition checked_create :: "server_update \<Rightarrow> server_update option" where
  "checked_create b =
     (if sv_name b = None \<or> sv_host b = None \<or> sv_auth_type b = Some None then None
      else checked_update (with_defaults b))"

definition checked_connection :: "connection \<Rightarrow> connection option" where
  "checked_connection c =
     connection_request (cn_host c) (cn_port c) (cn_auth_type c) (cn_username c) (cn_password c) (cn_private_key c) (cn_passphrase c)"

section \<open>Requests\<close>

datatype fleet_call =
    Create_Server server_update user
  | Update_Server int server_update user
  | Delete_Server int user
  | Test_Draft connection
  | Test_Server int server_update user
  | Set_Status int string string "time option" user
  | Add_Note int string string user
  | Process_Action web_request int process_request user
  | Reset_Hostkey web_request int hostkey_reset user
  | Connect int

definition on_body :: "('a \<Rightarrow> 'a option) \<Rightarrow> 'a \<Rightarrow> ('a \<Rightarrow> 'b \<times> fleet) \<Rightarrow> fleet \<Rightarrow> fleet" where
  "on_body chk body run f = (case chk body of None \<Rightarrow> f | Some b \<Rightarrow> snd (run b))"

fun serve_fleet :: "deployment \<Rightarrow> inputs \<times> outside \<times> fleet_call \<Rightarrow> fleet \<Rightarrow> fleet" where
  "serve_fleet dp (inp, ou, Create_Server b u) f = on_body checked_create b (\<lambda>b. create_server dp inp b u f) f"
| "serve_fleet dp (inp, ou, Update_Server sid b u) f = on_body checked_update b (\<lambda>b. update_server dp inp ou sid b u f) f"
| "serve_fleet dp (inp, ou, Delete_Server sid u) f = snd (delete_server inp ou sid u f)"
| "serve_fleet dp (inp, ou, Test_Draft c) f = on_body checked_connection c (\<lambda>c. test_server_connection (dp_settings dp) ou c f) f"
| "serve_fleet dp (inp, ou, Test_Server sid b u) f = on_body checked_update b (\<lambda>b. test_stored_server dp inp ou sid b u f) f"
| "serve_fleet dp (inp, ou, Set_Status sid st reason til u) f =
     (if st \<in> set SERVER_STATUSES then snd (set_server_status inp sid st reason til u f) else f)"
| "serve_fleet dp (inp, ou, Add_Note sid kind content u) f = snd (add_note inp sid kind content u f)"
| "serve_fleet dp (inp, ou, Process_Action rq sid b u) f =
     (if process_request_ok b then snd (process_action dp inp ou rq sid b u f) else f)"
| "serve_fleet dp (inp, ou, Reset_Hostkey rq sid b u) f =
     (if hostkey_reset_ok b then snd (reset_hostkey dp inp ou rq sid b u f) else f)"
| "serve_fleet dp (inp, ou, Connect sid) f =
     (case server_by_id (fl_db f) sid of
        None \<Rightarrow> f
      | Some s \<Rightarrow> f\<lparr>fl_keys := snd (connect_server dp ou s (fl_keys f))\<rparr>)"

definition serve_fleet_all :: "deployment \<Rightarrow> (inputs \<times> outside \<times> fleet_call) list \<Rightarrow> fleet \<Rightarrow> fleet" where
  "serve_fleet_all dp calls f = fold (serve_fleet dp) calls f"

definition new_fleet :: fleet where
  "new_fleet = \<lparr>fl_db = empty_db, fl_keys = [], fl_step_up = new_limiter, fl_sent = []\<rparr>"

section \<open>Key files of servers\<close>

lemma hostkey_file_server: "hostkey_file (server_key sid) = server_key sid @ ''.keys''"
proof -
  have digits: "list_all safe_char (show_nat n)" for n
    using show_nat_digits_only(2) [of n] by (auto simp: list_all_iff safe_char_def)
  have "list_all safe_char ''server_''" "safe_char (CHR ''-'')" by code_simp+
  then have "list_all safe_char (server_key sid)" using digits by (simp add: server_key_def show_int_def)
  then have "map (\<lambda>c. if safe_char c then c else CHR ''_'') (server_key sid) = server_key sid"
    by (intro map_idI) (auto simp: list_all_iff)
  then show ?thesis by (simp add: hostkey_file_def)
qed

lemma server_key_inj [simp]: "server_key i = server_key j \<longleftrightarrow> i = j"
  by (auto simp: server_key_def dest: show_int_inj)

lemma hostkey_file_server_inj [simp]: "hostkey_file (server_key i) = hostkey_file (server_key j) \<longleftrightarrow> i = j"
  by (simp add: hostkey_file_server)

lemma hostkey_file_target [simp]: "hostkey_file (target_key c) \<noteq> hostkey_file (server_key sid)"
proof -
  have "safe_char (CHR ''t'')" by code_simp
  then show ?thesis unfolding hostkey_file_server
    by (simp add: hostkey_file_def target_key_def server_key_def)
qed

text \<open>The names a key is stored under in a server's file.\<close>

definition pinned_names :: "key_files \<Rightarrow> int \<Rightarrow> string set" where
  "pinned_names files sid = (case map_of files (hostkey_file (server_key sid)) of None \<Rightarrow> {} | Some es \<Rightarrow> fst ` set es)"

definition known_address :: "db \<Rightarrow> int \<Rightarrow> string set" where
  "known_address d sid = (\<lambda>s. host_pattern (s_host s) (s_port s)) ` {s \<in> set (d_servers d). s_id s = sid}"

definition keys_ok :: "db \<Rightarrow> key_files \<Rightarrow> bool" where
  "keys_ok d files \<longleftrightarrow> (\<forall>sid. pinned_names files sid \<subseteq> known_address d sid \<and>
     (map_of files (hostkey_file (server_key sid)) \<noteq> None \<longrightarrow> known_address d sid \<noteq> {}))"

lemma connect_host_files:
  assumes "connect_host allow w shake host port user p k ident addr files = (r, files')" and "ident \<noteq> []"
  shows "files' = files \<or> (\<exists>key. files' = AList.update (hostkey_file ident) [(host_pattern host port, key)] files)"
  using assms
  by (auto simp: connect_host_def connect_plan_def missing_host_key_def tofu_policy_def Let_def
      split: sum.splits handshake.splits policy.splits if_splits option.splits)

lemma identity_nonempty [simp]: "server_key sid \<noteq> []" "target_key c \<noteq> []"
  by (simp_all add: server_key_def target_key_def)

lemma keys_ok_same_servers:
  "d_servers d' = d_servers d \<Longrightarrow> keys_ok d' files \<longleftrightarrow> keys_ok d files"
  by (simp add: keys_ok_def known_address_def)

text \<open>A file may be written for the server it names under the server's present address, or for a target.\<close>

lemma keys_ok_pinned:
  assumes "keys_ok d files" and "s \<in> set (d_servers d)"
  shows "keys_ok d (AList.update (hostkey_file (server_key (s_id s))) [(host_pattern (s_host s) (s_port s), key)] files)"
  using assms by (auto simp: keys_ok_def pinned_names_def known_address_def split: if_splits)

lemma keys_ok_target:
  assumes "keys_ok d files"
  shows "keys_ok d (AList.update (hostkey_file (target_key c)) es files)"
  using assms by (simp add: keys_ok_def pinned_names_def hostkey_file_target [symmetric])

lemma keys_ok_forget:
  assumes "keys_ok d files"
  shows "keys_ok d (snd (forget_hostkey (server_key sid) files))"
  using assms by (auto simp: keys_ok_def pinned_names_def forget_hostkey_def AList.delete_conv' split: option.splits if_splits)

lemma forgotten: "map_of (snd (forget_hostkey (server_key sid) files)) (hostkey_file (server_key sid)) = None"
  by (simp add: forget_hostkey_def AList.delete_conv')

section \<open>What stays true of servers\<close>

text \<open>Nothing is stored for the way of authenticating that is not in use; what is stored is empty or
  was encrypted.\<close>

definition sealed :: "deployment \<Rightarrow> string \<Rightarrow> bool" where
  "sealed dp token \<longleftrightarrow> token = [] \<or> (\<exists>plain. encrypt_text (dp_fernet dp) (dp_settings dp) plain = Inr token)"

definition server_ok :: "deployment \<Rightarrow> server \<Rightarrow> bool" where
  "server_ok dp s \<longleftrightarrow>
     s_auth_type s \<in> {''password'', ''key''} \<and> 1 \<le> s_port s \<and> s_port s \<le> 65535 \<and>
     (s_auth_type s = ''password'' \<longrightarrow> s_private_key s = [] \<and> s_passphrase s = []) \<and>
     (s_auth_type s = ''key'' \<longrightarrow> s_password s = []) \<and>
     sealed dp (s_password s) \<and> sealed dp (s_private_key s) \<and> sealed dp (s_passphrase s) \<and> sealed dp (s_bmc_password s)"

definition fleet_ok :: "deployment \<Rightarrow> fleet \<Rightarrow> bool" where
  "fleet_ok dp f \<longleftrightarrow>
     distinct (map s_id (d_servers (fl_db f))) \<and> distinct (map s_name (d_servers (fl_db f))) \<and>
     list_all (server_ok dp) (d_servers (fl_db f)) \<and> keys_ok (fl_db f) (fl_keys f)"

lemma new_fleet_ok: "fleet_ok dp new_fleet"
  by (simp add: fleet_ok_def new_fleet_def empty_db_def keys_ok_def pinned_names_def)

lemma seal_sealed: "seal dp plain = Inr token \<Longrightarrow> sealed dp token"
  by (auto simp: seal_def sealed_def)

lemma seal_empty [simp]: "seal dp [] = Inr []"
  by (simp add: seal_def encrypt_text_def)

lemma and_then_Inr: "and_then r g = Inr y \<longleftrightarrow> (\<exists>x. r = Inr x \<and> g x = Inr y)"
  by (cases r) (auto simp: and_then_def)

lemma server_by_id_Some: "server_by_id d sid = Some s \<Longrightarrow> s \<in> set (d_servers d) \<and> s_id s = sid"
  by (auto simp: server_by_id_def find_Some_iff)

section \<open>Creating and changing\<close>

definition body_ok :: "server_update \<Rightarrow> bool" where
  "body_ok b \<longleftrightarrow> known_auth (flat (sv_auth_type b)) \<and> (case sv_port b of None \<Rightarrow> True | Some p \<Rightarrow> 1 \<le> p \<and> p \<le> 65535)"

lemma checked_body_ok: "checked_update b = Some b' \<Longrightarrow> body_ok b'"
  by (auto simp: checked_update_def body_ok_def server_fields_ok_def split: if_splits option.splits)

lemma checked_create_ok: "checked_create b = Some b' \<Longrightarrow> body_ok b'"
  by (auto simp: checked_create_def checked_body_ok split: if_splits)

lemma known_auth_text:
  "known_auth v \<Longrightarrow> a \<in> {''password'', ''key''} \<Longrightarrow> text_or a v = the_default a v \<and> the_default a v \<in> {''password'', ''key''}"
  by (auto simp: known_auth_def text_or_def the_default_def split: option.splits)

definition auth_separated :: "string \<Rightarrow> string \<Rightarrow> string \<Rightarrow> string \<Rightarrow> bool" where
  "auth_separated auth p k x \<longleftrightarrow>
     auth \<in> {''password'', ''key''} \<and> (auth = ''password'' \<longrightarrow> k = [] \<and> x = []) \<and> (auth = ''key'' \<longrightarrow> p = [])"

lemma connection_body_separated:
  assumes "connection_body dp body server = Inr c"
  shows "auth_separated (cn_auth_type c) (cn_password c) (cn_private_key c) (cn_passphrase c) \<and>
    cn_auth_type c = text_or (stored server s_auth_type ''password'') (flat (sv_auth_type body)) \<and>
    cn_port c = the_default (stored server s_port 22) (sv_port body) \<and> 1 \<le> cn_port c \<and> cn_port c \<le> 65535"
  using assms
  by (auto simp: connection_body_def connection_request_def and_then_Inr auth_separated_def Let_def
      split: if_splits option.splits)

lemma seal_connection_separated:
  assumes "seal_connection dp c = Inr (p, k, x)"
    and "auth_separated auth (cn_password c) (cn_private_key c) (cn_passphrase c)"
  shows "auth_separated auth p k x \<and> sealed dp p \<and> sealed dp k \<and> sealed dp x"
  using assms by (auto simp: seal_connection_def and_then_Inr auth_separated_def intro: seal_sealed)

lemma create_server_made:
  assumes "create_server dp inp b u f = (Inr out, f')" and "body_ok b"
  shows "\<exists>s. d_servers (fl_db f') = d_servers (fl_db f) @ [s] \<and> fl_keys f' = fl_keys f \<and> server_ok dp s \<and>
    s_id s = next_server_id (fl_db f) \<and> \<not> name_taken (fl_db f) (s_name s)"
proof -
  have auth: "the_default ''password'' (flat (sv_auth_type b)) = text_or ''password'' (flat (sv_auth_type b))"
    using assms(2) known_auth_text [of _ "''password''"] by (simp add: body_ok_def)
  show ?thesis
    using assms
    by (auto simp: create_server_def Let_def and_then_Inr recorded_def audit_def server_ok_def auth_separated_def stored_def auth
        split: sum.splits if_splits
        dest!: connection_body_separated seal_connection_separated [where auth = "text_or ''password'' (flat (sv_auth_type b))"]
        dest: seal_sealed)
qed

lemma create_server_failed: "create_server dp inp b u f = (Inl e, f') \<Longrightarrow> f' = f"
  by (auto simp: create_server_def Let_def split: sum.splits)

lemma credential_updates_ok:
  assumes "credential_updates dp b s = Inr (Some (p, k, x))" and "server_ok dp s" and "body_ok b"
  shows "auth_separated (the_default (s_auth_type s) (flat (sv_auth_type b))) p k x \<and> sealed dp p \<and> sealed dp k \<and> sealed dp x"
proof (cases "flat (sv_auth_type b) \<noteq> None \<and> flat (sv_auth_type b) \<noteq> Some (s_auth_type s)")
  case True
  have "the_default (s_auth_type s) (flat (sv_auth_type b)) = text_or (s_auth_type s) (flat (sv_auth_type b))"
    using assms(2,3) known_auth_text [of _ "s_auth_type s"] by (simp add: body_ok_def server_ok_def)
  then show ?thesis using assms(1) True
    by (auto simp: credential_updates_def Let_def and_then_Inr stored_def
        dest!: connection_body_separated dest: seal_connection_separated)
next
  case False
  then have "the_default (s_auth_type s) (flat (sv_auth_type b)) = s_auth_type s" by (auto simp: the_default_def)
  then show ?thesis using assms(1,2) False
    by (auto simp: credential_updates_def Let_def and_then_Inr server_ok_def auth_separated_def
        split: if_splits option.splits dest: seal_sealed)
qed

lemma edited_server_ok:
  assumes "server_ok dp s" and "body_ok b" and "credential_updates dp b s = Inr creds"
    and "bmc = None \<or> (\<exists>t. bmc = Some t \<and> sealed dp t)"
  shows "server_ok dp (edited_server b creds bmc s)"
proof -
  have auth: "the_default (s_auth_type s) (flat (sv_auth_type b)) \<in> {''password'', ''key''}"
    using assms(1,2) known_auth_text [of _ "s_auth_type s"] by (simp add: body_ok_def server_ok_def)
  have port: "1 \<le> the_default (s_port s) (sv_port b) \<and> the_default (s_port s) (sv_port b) \<le> 65535"
    using assms(1,2) by (simp add: body_ok_def server_ok_def the_default_def split: option.splits)
  have bmc: "sealed dp (the_default (s_bmc_password s) bmc)"
    using assms(1,4) by (auto simp: server_ok_def the_default_def)
  show ?thesis
  proof (cases creds)
    case (Some t)
    obtain p k x where "t = (p, k, x)" by (cases t) auto
    with Some credential_updates_ok [of dp b s p k x] assms auth port bmc show ?thesis
      by (auto simp: edited_server_def Let_def server_ok_def auth_separated_def)
  next
    case None
    with assms(3) have "credential_updates dp b s = Inr None" by simp
    then have "\<not> (flat (sv_auth_type b) \<noteq> None \<and> flat (sv_auth_type b) \<noteq> Some (s_auth_type s))"
    proof (rule contrapos_pn)
      assume "flat (sv_auth_type b) \<noteq> None \<and> flat (sv_auth_type b) \<noteq> Some (s_auth_type s)"
      then have "credential_updates dp b s =
          and_then (connection_body dp b (Some s)) (\<lambda>c. and_then (seal_connection dp c) (\<lambda>x. Inr (Some x)))"
        unfolding credential_updates_def Let_def by (simp only: if_True simp_thms not_False_eq_True)
      then show "credential_updates dp b s \<noteq> Inr None" by (auto simp: and_then_Inr)
    qed
    then have "the_default (s_auth_type s) (flat (sv_auth_type b)) = s_auth_type s" by (auto simp: the_default_def)
    with None assms(1) auth port bmc show ?thesis
      by (simp add: edited_server_def Let_def server_ok_def)
  qed
qed

lemma edited_server_id [simp]:
  "s_id (edited_server b creds bmc s) = s_id s"
  "s_name (edited_server b creds bmc s) = the_default (s_name s) (sv_name b)"
  "s_host (edited_server b creds bmc s) = the_default (s_host s) (sv_host b)"
  "s_port (edited_server b creds bmc s) = the_default (s_port s) (sv_port b)"
  by (simp_all add: edited_server_def Let_def split: option.splits prod.splits)

lemma touched_row_same [simp]:
  "s_id (touched_row t s s') = s_id s'" "s_name (touched_row t s s') = s_name s'"
  "s_host (touched_row t s s') = s_host s'" "s_port (touched_row t s s') = s_port s'"
  "server_ok dp (touched_row t s s') = server_ok dp s'"
  by (simp_all add: touched_row_def server_ok_def)

lemma update_server_failed: "update_server dp inp ou sid b u f = (Inl e, f') \<Longrightarrow> f' = f"
  by (auto simp: update_server_def Let_def split: option.splits sum.splits)

lemma updated_row_ok:
  assumes "updated_row dp inp ou b d s = Inr s'" and "server_ok dp s" and "body_ok b"
  shows "server_ok dp s' \<and> s_id s' = s_id s \<and> (s_name s' = s_name s \<or> \<not> name_taken d (s_name s')) \<and>
    (address_changed b s \<longleftrightarrow> \<not> (s_host s' = s_host s \<and> s_port s' = s_port s))"
proof -
  obtain creds bmc where made: "credential_updates dp b s = Inr creds" "bmc = None \<or> (\<exists>t. bmc = Some t \<and> sealed dp t)"
      "the_default (s_name s) (sv_name b) = s_name s \<or> \<not> name_taken d (the_default [] (sv_name b))"
      "s' = touched_row (i_now inp) s (edited_server b creds bmc s)"
    using assms(1) by (auto simp: updated_row_def and_then_Inr split: if_splits option.splits dest: seal_sealed)
  from made(3) have "the_default (s_name s) (sv_name b) = s_name s \<or> \<not> name_taken d (the_default (s_name s) (sv_name b))"
    by (auto simp: the_default_def split: option.splits)
  with made(4) edited_server_ok [OF assms(2,3) made(1,2)] show ?thesis by (simp add: address_changed_def)
qed

lemma update_server_made:
  assumes "update_server dp inp ou sid b u f = (Inr out, f')" and "body_ok b" and "list_all (server_ok dp) (d_servers (fl_db f))"
  shows "\<exists>s s'. server_by_id (fl_db f) sid = Some s \<and> d_servers (fl_db f') = d_servers (put_server s' (fl_db f)) \<and>
    server_ok dp s' \<and> s_id s' = sid \<and> (s_name s' = s_name s \<or> \<not> name_taken (fl_db f) (s_name s')) \<and>
    (if s_host s' = s_host s \<and> s_port s' = s_port s then fl_keys f' = fl_keys f
     else fl_keys f' = snd (forget_hostkey (server_key sid) (fl_keys f)))"
proof -
  obtain s s' where s: "server_by_id (fl_db f) sid = Some s" and row: "updated_row dp inp ou b (fl_db f) s = Inr s'"
    using assms(1) by (auto simp: update_server_def split: option.splits sum.splits)
  have "server_ok dp s" "s_id s = sid" using server_by_id_Some [OF s] assms(3) by (auto simp: list_all_iff)
  with updated_row_ok [OF row _ assms(2)] assms(1) s row show ?thesis
    by (intro exI [of _ s] exI [of _ s']) (auto simp: update_server_def Let_def recorded_def audit_def split: if_splits)
qed

section \<open>Every request keeps the fleet in order\<close>

lemma fleet_ok_cong:
  assumes "d_servers (fl_db f') = d_servers (fl_db f)" and "fl_keys f' = fl_keys f"
  shows "fleet_ok dp f' \<longleftrightarrow> fleet_ok dp f"
  using keys_ok_same_servers [OF assms(1)] assms by (simp add: fleet_ok_def)

lemma fleet_ok_files:
  assumes "fleet_ok dp f" and "d_servers (fl_db f') = d_servers (fl_db f)" and "keys_ok (fl_db f) (fl_keys f')"
  shows "fleet_ok dp f'"
  using keys_ok_same_servers [OF assms(2)] assms by (simp add: fleet_ok_def)

lemma next_server_id_fresh: "next_server_id d \<notin> s_id ` set (d_servers d)"
proof -
  have "s \<in> set ss \<Longrightarrow> s_id s \<le> foldr (\<lambda>s i. max (s_id s) i) ss 0" for s and ss :: "server list"
    by (induction ss) auto
  then have "s_id s < next_server_id d" if "s \<in> set (d_servers d)" for s
    using that by (fastforce simp: next_server_id_def)
  then show ?thesis by (metis imageE less_irrefl)
qed

lemma name_taken_iff: "name_taken d name \<longleftrightarrow> name \<in> s_name ` set (d_servers d)"
  unfolding name_taken_def list_ex_iff image_iff by metis

lemma create_server_keeps:
  assumes "fleet_ok dp f" and "body_ok b"
  shows "fleet_ok dp (snd (create_server dp inp b u f))"
proof (cases "create_server dp inp b u f")
  case (Pair r f')
  show ?thesis
  proof (cases r)
    case (Inl e)
    then show ?thesis using Pair assms(1) create_server_failed [of dp inp b u f e f'] by simp
  next
    case (Inr out)
    from create_server_made [OF Pair [unfolded Inr] assms(2)] obtain s where
      new: "d_servers (fl_db f') = d_servers (fl_db f) @ [s]" "fl_keys f' = fl_keys f" "server_ok dp s"
        "s_id s = next_server_id (fl_db f)" "\<not> name_taken (fl_db f) (s_name s)" by blast
    have keys: "keys_ok (fl_db f) (fl_keys f)" using assms(1) by (simp add: fleet_ok_def)
    have "keys_ok (fl_db f') (fl_keys f')"
      using keys new(1,2) unfolding keys_ok_def known_address_def by (auto 4 3)
    then show ?thesis using assms(1) new Pair next_server_id_fresh [of "fl_db f"]
      by (auto simp: fleet_ok_def name_taken_iff)
  qed
qed

lemma put_server_names:
  assumes "distinct (map s_name ss)" and "distinct (map s_id ss)" and "s \<in> set ss" and "s_id s' = s_id s"
    and "s_name s' = s_name s \<or> s_name s' \<notin> s_name ` set ss"
  shows "distinct (map s_name (map (\<lambda>r. if s_id r = s_id s' then s' else r) ss))"
  using assms
proof (induction ss)
  case (Cons r rs)
  have away: "map s_name (map (\<lambda>r. if s_id r = s_id s' then s' else r) rs) = map s_name rs" if "s_id s' \<notin> s_id ` set rs"
    using that by (induction rs) auto
  have sub: "set (map s_name (map (\<lambda>r. if s_id r = s_id s' then s' else r) rs)) \<subseteq> insert (s_name s') (set (map s_name rs))"
    by auto
  show ?case
  proof (cases "s_id r = s_id s'")
    case True
    then have "r = s" using Cons.prems by (auto simp: image_iff)
    with Cons.prems(2,4) away have eq: "map s_name (map (\<lambda>r. if s_id r = s_id s' then s' else r) (r # rs)) = s_name s' # map s_name rs"
      using True \<open>r = s\<close> by (simp del: map_map)
    have "s_name s' \<notin> set (map s_name rs)" using Cons.prems(1,5) \<open>r = s\<close> by auto
    then show ?thesis unfolding eq using Cons.prems(1) by simp
  next
    case False
    then have "s \<in> set rs" using Cons.prems by auto
    then have "s_name r \<noteq> s_name s'" using Cons.prems by (auto simp: image_iff)
    moreover have "distinct (map s_name (map (\<lambda>r. if s_id r = s_id s' then s' else r) rs))"
      using Cons \<open>s \<in> set rs\<close> by auto
    ultimately show ?thesis using False Cons.prems(1) sub by auto
  qed
qed simp

lemma put_server_ids: "s_id s' = sid \<Longrightarrow> map s_id (map (\<lambda>r. if s_id r = sid then s' else r) ss) = map s_id ss"
  by (induction ss) auto

lemma known_address_put:
  assumes "s_id s' = s_id s" and "server_by_id d (s_id s) = Some s" and "distinct (map s_id (d_servers d))"
  shows "known_address (put_server s' d) sid =
    (if sid = s_id s then {host_pattern (s_host s') (s_port s')} else known_address d sid)"
proof -
  have s: "s \<in> set (d_servers d)" using server_by_id_Some [OF assms(2)] by simp
  show ?thesis
  proof (cases "sid = s_id s")
    case True
    then have "{r \<in> set (d_servers (put_server s' d)). s_id r = sid} = {s'}"
      using s assms(1) by (auto simp: put_server_def)
    then show ?thesis using True by (simp add: known_address_def)
  next
    case False
    then have "{r \<in> set (d_servers (put_server s' d)). s_id r = sid} = {r \<in> set (d_servers d). s_id r = sid}"
      using assms(1) by (auto simp: put_server_def image_iff split: if_splits)
    then show ?thesis using False by (simp add: known_address_def)
  qed
qed

lemma known_address_own:
  assumes "server_by_id d sid = Some s" and "distinct (map s_id (d_servers d))"
  shows "known_address d sid = {host_pattern (s_host s) (s_port s)}"
proof -
  have "s \<in> set (d_servers d)" "s_id s = sid" using server_by_id_Some [OF assms(1)] by simp_all
  then have "{r \<in> set (d_servers d). s_id r = sid} = {s}"
    using assms(2) by (auto simp: distinct_map dest: inj_onD)
  then show ?thesis by (simp add: known_address_def)
qed

lemma put_server_keeps:
  assumes "fleet_ok dp f" and "server_by_id (fl_db f) sid = Some s" and "s_id s' = sid" and "server_ok dp s'"
    and "s_name s' = s_name s \<or> \<not> name_taken (fl_db f) (s_name s')"
    and "d_servers (fl_db f') = d_servers (put_server s' (fl_db f))"
    and "if s_host s' = s_host s \<and> s_port s' = s_port s then fl_keys f' = fl_keys f
     else fl_keys f' = snd (forget_hostkey (server_key sid) (fl_keys f))"
  shows "fleet_ok dp f'"
proof -
  let ?d = "fl_db f" and ?ss = "d_servers (fl_db f)"
  have s: "s \<in> set ?ss" "s_id s = sid" using server_by_id_Some [OF assms(2)] by simp_all
  have ok: "distinct (map s_id ?ss)" "distinct (map s_name ?ss)" "list_all (server_ok dp) ?ss" "keys_ok ?d (fl_keys f)"
    using assms(1) by (simp_all add: fleet_ok_def)
  have servers: "d_servers (fl_db f') = map (\<lambda>r. if s_id r = s_id s' then s' else r) ?ss"
    using assms(6) by (simp add: put_server_def)
  have names: "distinct (map s_name (d_servers (fl_db f')))"
    unfolding servers using put_server_names [OF ok(2,1) s(1)] assms(3,5) s(2) by (simp add: name_taken_iff)
  have ids: "distinct (map s_id (d_servers (fl_db f')))"
    unfolding servers using put_server_ids [OF assms(3), of ?ss] ok(1) by (simp only: assms(3))
  have all: "list_all (server_ok dp) (d_servers (fl_db f'))"
    using ok(3) assms(4) by (auto simp: servers list_all_iff)
  have addr: "known_address (fl_db f') i = (if i = sid then {host_pattern (s_host s') (s_port s')} else known_address ?d i)" for i
    using known_address_put [of s' s ?d i] assms(2,3,6) s(2) ok(1) by (simp add: known_address_def)
  have "keys_ok (fl_db f') (fl_keys f')"
  proof (cases "s_host s' = s_host s \<and> s_port s' = s_port s")
    case True
    then have "known_address (fl_db f') = known_address ?d"
      using addr known_address_own [OF assms(2) ok(1)] by (intro ext) simp
    then show ?thesis using ok(4) True assms(7) by (simp add: keys_ok_def)
  next
    case False
    then have files: "fl_keys f' = snd (forget_hostkey (server_key sid) (fl_keys f))" using assms(7) by simp
    have "keys_ok ?d (fl_keys f')" unfolding files using ok(4) by (rule keys_ok_forget)
    moreover have "map_of (fl_keys f') (hostkey_file (server_key sid)) = None" unfolding files by (rule forgotten)
    ultimately show ?thesis by (simp add: keys_ok_def addr pinned_names_def)
  qed
  with names ids all show ?thesis by (simp add: fleet_ok_def)
qed

lemma update_server_keeps:
  assumes "fleet_ok dp f" and "body_ok b"
  shows "fleet_ok dp (snd (update_server dp inp ou sid b u f))"
proof (cases "update_server dp inp ou sid b u f")
  case (Pair r f')
  show ?thesis
  proof (cases r)
    case (Inl e)
    then show ?thesis using Pair assms(1) update_server_failed [of dp inp ou sid b u f e f'] by simp
  next
    case (Inr out)
    have "list_all (server_ok dp) (d_servers (fl_db f))" using assms(1) by (simp add: fleet_ok_def)
    from update_server_made [OF Pair [unfolded Inr] assms(2) this] show ?thesis
      using put_server_keeps [OF assms(1)] Pair by auto
  qed
qed

lemma delete_server_keeps:
  assumes "fleet_ok dp f"
  shows "fleet_ok dp (snd (delete_server inp ou sid u f))"
proof (cases "server_by_id (fl_db f) sid = None \<or> \<not> ou_storage_ok ou")
  case True
  then show ?thesis using assms by (auto simp: delete_server_def split: option.splits)
next
  case False
  then obtain s where s: "server_by_id (fl_db f) sid = Some s" and ok: "ou_storage_ok ou" by auto
  let ?f = "snd (delete_server inp ou sid u f)"
  have servers: "d_servers (fl_db ?f) = filter (\<lambda>s. s_id s \<noteq> sid) (d_servers (fl_db f))"
    and files: "fl_keys ?f = snd (forget_hostkey (server_key sid) (fl_keys f))"
    using s ok by (simp_all add: delete_server_def without_server_def Let_def)
  have others: "known_address (fl_db ?f) i = known_address (fl_db f) i" if "i \<noteq> sid" for i
    using that by (auto simp: known_address_def servers)
  have "keys_ok (fl_db f) (fl_keys ?f)"
    unfolding files using assms by (simp add: fleet_ok_def keys_ok_forget)
  moreover have "map_of (fl_keys ?f) (hostkey_file (server_key sid)) = None" unfolding files by (rule forgotten)
  ultimately have "keys_ok (fl_db ?f) (fl_keys ?f)"
    unfolding keys_ok_def using others by (metis empty_subsetI option.simps(4) pinned_names_def)
  then show ?thesis using assms
    by (auto simp: fleet_ok_def servers distinct_map_filter list_all_iff)
qed

text \<open>Connections write a file only under the address they were made to.\<close>

lemma connect_host_target_keeps:
  assumes "keys_ok d files" and "connect_host allow w shake host port user p k (target_key c) addr files = (r, files')"
  shows "keys_ok d files'"
  using connect_host_files [OF assms(2)] assms(1) keys_ok_target by auto

lemma connect_host_server_keeps:
  assumes "keys_ok d files" and "s \<in> set (d_servers d)"
    and "connect_host allow w shake (s_host s) (s_port s) user p k (server_key (s_id s)) addr files = (r, files')"
  shows "keys_ok d files'"
  using connect_host_files [OF assms(3)] assms(1,2) keys_ok_pinned by auto

lemma connect_server_keeps:
  assumes "keys_ok d files" and "s \<in> set (d_servers d)" and "server_ok dp s"
  shows "keys_ok d (snd (connect_server dp ou s files))"
proof -
  have "ssh_port s = s_port s" using assms(3) by (simp add: ssh_port_def server_ok_def)
  then show ?thesis using assms(1)
    by (auto simp: connect_server_def Let_def split: sum.splits
        intro: connect_host_server_keeps [OF assms(1,2)] surjective_pairing)
qed

lemma run_connection_test_keeps:
  assumes "keys_ok d files"
    and "key = target_key c \<or> (\<exists>s. s \<in> set (d_servers d) \<and> key = server_key (s_id s) \<and> cn_host c = s_host s \<and> cn_port c = s_port s)"
  shows "keys_ok d (snd (run_connection_test st ou c key files))"
proof -
  have "keys_ok d (snd (connect_draft st ou c key target files))" for target
  proof (cases "connect_draft st ou c key target files")
    case (Pair r files')
    then show ?thesis using assms
      by (auto simp: connect_draft_def intro: connect_host_target_keeps connect_host_server_keeps)
  qed
  then show ?thesis using assms(1)
    by (simp add: run_connection_test_def split: sum.splits prod.splits) (metis snd_conv)
qed

lemma test_stored_server_keeps:
  assumes "fleet_ok dp f"
  shows "fleet_ok dp (snd (test_stored_server dp inp ou sid b u f))"
proof (cases "server_by_id (fl_db f) sid")
  case None
  then show ?thesis using assms by (simp add: test_stored_server_def)
next
  case (Some s)
  from server_by_id_Some [OF Some] have s: "s \<in> set (d_servers (fl_db f))" "s_id s = sid" by simp_all
  have keys: "keys_ok (fl_db f) (fl_keys f)" using assms by (simp add: fleet_ok_def)
  show ?thesis
  proof (cases "connection_body dp b (Some s)")
    case (Inl e)
    then show ?thesis using Some assms by (simp add: test_stored_server_def)
  next
    case (Inr c)
    let ?key = "if cn_host c = s_host s \<and> cn_port c = s_port s then server_key sid else target_key c"
    obtain r files where run: "run_connection_test (dp_settings dp) ou c ?key (fl_keys f) = (r, files)"
      by (cases "run_connection_test (dp_settings dp) ou c ?key (fl_keys f)") auto
    have "keys_ok (fl_db f) (snd (run_connection_test (dp_settings dp) ou c ?key (fl_keys f)))"
      by (rule run_connection_test_keeps [OF keys]) (use s in auto)
    then have "keys_ok (fl_db f) files" by (simp only: run snd_conv)
    moreover have "fl_keys (snd (test_stored_server dp inp ou sid b u f)) = files \<and>
        d_servers (fl_db (snd (test_stored_server dp inp ou sid b u f))) = d_servers (fl_db f)"
      unfolding test_stored_server_def Some Inr option.case sum.case run prod.case
      by (simp add: audit_in_full_def split: sum.splits prod.splits)
    ultimately show ?thesis by (intro fleet_ok_files [OF assms]) simp_all
  qed
qed

lemma reauthenticate_same:
  "d_servers (fl_db (snd (reauthenticate dp inp ou rq u purpose pw action detail f))) = d_servers (fl_db f)"
  "fl_keys (snd (reauthenticate dp inp ou rq u purpose pw action detail f)) = fl_keys f"
  by (simp_all add: reauthenticate_def Let_def split: sum.splits)

lemma run_action_keeps:
  assumes "fleet_ok dp f" and "s \<in> set (d_servers (fl_db f))"
  shows "fleet_ok dp (snd (run_action dp inp ou b u s f))"
proof -
  have "keys_ok (fl_db f) (snd (connect_server dp ou s (fl_keys f)))"
    using assms by (intro connect_server_keeps) (auto simp: fleet_ok_def list_all_iff)
  then show ?thesis
    by (cases "connect_server dp ou s (fl_keys f)")
      (auto simp: run_action_def Let_def intro!: fleet_ok_files [OF assms(1)] split: prod.splits)
qed

lemma add_audit_keeps [simp]: "fleet_ok dp (add_audit row f) \<longleftrightarrow> fleet_ok dp f"
  by (rule fleet_ok_cong) simp_all

lemma process_action_keeps:
  assumes "fleet_ok dp f"
  shows "fleet_ok dp (snd (process_action dp inp ou rq sid b u f))"
proof -
  obtain r f1 where re: "reauthenticate dp inp ou rq u ''process-action'' (pa_password b) ''process.reauth_failed''
      (process_refusal sid b) f = (r, f1)" by fastforce
  have f1: "fleet_ok dp f1" using fleet_ok_cong [of f1 f] reauthenticate_same assms by (metis re snd_conv)
  show ?thesis
  proof (cases "server_by_id (fl_db f1) sid")
    case None
    then show ?thesis using assms f1 by (simp add: process_action_def re split: sum.splits)
  next
    case (Some s)
    then show ?thesis using assms f1 server_by_id_Some [OF Some]
      by (simp add: process_action_def re run_action_keeps split: sum.splits)
  qed
qed

lemma pin_and_clear_keeps:
  assumes "fleet_ok dp f" and "server_by_id (fl_db f) sid = Some s"
  shows "fleet_ok dp (snd (pin_and_clear inp ou sid b u s f))"
proof -
  from server_by_id_Some [OF assms(2)] have s: "s \<in> set (d_servers (fl_db f))" "s_id s = sid" by simp_all
  then have "ssh_port s = s_port s" using assms(1) by (auto simp: ssh_port_def fleet_ok_def list_all_iff server_ok_def)
  moreover have keys: "keys_ok (fl_db f) (fl_keys f)" using assms(1) by (simp add: fleet_ok_def)
  ultimately have files: "keys_ok (fl_db f) files"
    if "replace_hostkey fp fetch (s_host s) (ssh_port s) (server_key sid) expected (fl_keys f) = Inr (actual, files)" for fp fetch expected actual files
    using that keys_ok_pinned [OF keys s(1)] s(2)
    by (auto simp: replace_hostkey_def tofu_policy_def Let_def split: sum.splits if_splits)
  show ?thesis
    using assms(1) keys files
    by (intro fleet_ok_files [OF assms(1)]) (auto simp: pin_and_clear_def Let_def split: sum.splits)
qed

lemma reset_hostkey_keeps:
  assumes "fleet_ok dp f"
  shows "fleet_ok dp (snd (reset_hostkey dp inp ou rq sid b u f))"
proof (cases "server_by_id (fl_db f) sid")
  case None
  then show ?thesis using assms by (simp add: reset_hostkey_def)
next
  case (Some s)
  obtain r f1 where re: "reauthenticate dp inp ou rq u ''hostkey-reset'' (hr_password b)
      ''server.reset_hostkey.reauth_failed'' (reset_refusal sid) f = (r, f1)" by fastforce
  have f1: "fleet_ok dp f1" "server_by_id (fl_db f1) sid = Some s"
    using fleet_ok_cong [of f1 f] reauthenticate_same assms Some by (metis re snd_conv server_by_id_def)+
  then have "server_by_id (fl_db (add_audit row f1)) sid = Some s" for row by (simp add: server_by_id_def)
  with f1 Some re show ?thesis by (simp add: reset_hostkey_def pin_and_clear_keeps split: sum.splits)
qed

lemma set_server_status_keeps:
  assumes "fleet_ok dp f"
  shows "fleet_ok dp (snd (set_server_status inp sid st reason til u f))"
proof (cases "server_by_id (fl_db f) sid")
  case None
  then show ?thesis using assms by (simp add: set_server_status_def)
next
  case (Some s)
  from server_by_id_Some [OF Some] assms have s: "s_id s = sid" "server_ok dp s" by (auto simp: fleet_ok_def list_all_iff)
  let ?s' = "touched_row (i_now inp) s (s\<lparr>s_status := Some st, s_status_reason := reason, s_status_until := til\<rparr>)"
  have ok: "server_ok dp ?s'" unfolding touched_row_same using s(2) by (simp add: server_ok_def)
  show ?thesis
    by (rule put_server_keeps [OF assms Some, of ?s'])
      (use s ok in \<open>simp_all add: set_server_status_def Some Let_def recorded_def audit_def put_server_def\<close>)
qed

lemma serve_fleet_keeps: "fleet_ok dp f \<Longrightarrow> fleet_ok dp (serve_fleet dp c f)"
proof -
  assume ok: "fleet_ok dp f"
  obtain inp ou call where c: "c = (inp, ou, call)" by (cases c) auto
  have keys: "keys_ok (fl_db f) (fl_keys f)" using ok by (simp add: fleet_ok_def)
  show ?thesis
  proof (cases call)
    case (Create_Server b u)
    then show ?thesis using ok c create_server_keeps checked_create_ok by (auto simp: on_body_def split: option.splits)
  next
    case (Update_Server sid b u)
    then show ?thesis using ok c update_server_keeps checked_body_ok by (auto simp: on_body_def split: option.splits)
  next
    case (Test_Draft conn)
    have "fleet_ok dp (snd (test_server_connection (dp_settings dp) ou d f))" for d
      using run_connection_test_keeps [OF keys, of "target_key d" d "dp_settings dp" ou]
      by (cases "run_connection_test (dp_settings dp) ou d (target_key d) (fl_keys f)")
        (auto simp: test_server_connection_def intro!: fleet_ok_files [OF ok])
    then show ?thesis using ok Test_Draft c by (auto simp: on_body_def split: option.splits)
  next
    case (Test_Server sid b u)
    then show ?thesis using ok c test_stored_server_keeps by (auto simp: on_body_def split: option.splits)
  next
    case (Add_Note sid kind content u)
    have "d_servers (fl_db (serve_fleet dp c f)) = d_servers (fl_db f)" "fl_keys (serve_fleet dp c f) = fl_keys f"
      using Add_Note c by (simp_all add: add_note_def recorded_def audit_def split: option.splits)
    then show ?thesis using ok fleet_ok_cong by blast
  next
    case (Connect sid)
    then show ?thesis using ok c keys
      by (auto simp: fleet_ok_def list_all_iff dest!: server_by_id_Some split: option.splits
          intro!: connect_server_keeps [of "fl_db f"] fleet_ok_files [OF ok])
  qed (use ok c in \<open>simp_all add: delete_server_keeps set_server_status_keeps process_action_keeps reset_hostkey_keeps\<close>)
qed

lemma serve_fleet_all_keeps: "fleet_ok dp f \<Longrightarrow> fleet_ok dp (serve_fleet_all dp calls f)"
  by (induction calls arbitrary: f) (simp_all add: serve_fleet_all_def serve_fleet_keeps)

text \<open>
  C7.  Whatever is asked of the server endpoints, in any order and with whatever answers from the network:
  a key on file for a server was stored under that server's present address.  No address inherits the
  trust of an earlier one, neither after a change of the address nor when a deleted server's id is
  given out again.
\<close>

theorem host_keys_follow_addresses:
  assumes "map_of (fl_keys (serve_fleet_all dp calls new_fleet)) (hostkey_file (server_key sid)) = Some entries"
  shows "\<exists>s. server_by_id (fl_db (serve_fleet_all dp calls new_fleet)) sid = Some s \<and>
    (\<forall>e \<in> set entries. fst e = host_pattern (s_host s) (s_port s))"
proof -
  let ?f = "serve_fleet_all dp calls new_fleet"
  have ok: "fleet_ok dp ?f" using serve_fleet_all_keeps [OF new_fleet_ok] .
  then have "pinned_names (fl_keys ?f) sid \<subseteq> known_address (fl_db ?f) sid" and "known_address (fl_db ?f) sid \<noteq> {}"
    using assms by (simp_all add: fleet_ok_def keys_ok_def)
  moreover have "pinned_names (fl_keys ?f) sid = fst ` set entries" using assms by (simp add: pinned_names_def)
  ultimately have sub: "fst ` set entries \<subseteq> known_address (fl_db ?f) sid" and "known_address (fl_db ?f) sid \<noteq> {}" by simp_all
  then have "server_by_id (fl_db ?f) sid \<noteq> None"
    by (auto simp: known_address_def server_by_id_def find_None_iff)
  then obtain s where s: "server_by_id (fl_db ?f) sid = Some s" by blast
  then have "known_address (fl_db ?f) sid = {host_pattern (s_host s) (s_port s)}"
    using known_address_own ok by (simp add: fleet_ok_def)
  with s sub show ?thesis by auto
qed

text \<open>
  C17.  Every stored server is well typed: ids and names are unique, the port is a port, the way of
  authenticating is one of the two, nothing is stored for the other way, and every credential column
  is empty or was encrypted.
\<close>

theorem stored_servers_well_typed:
  "let ss = d_servers (fl_db (serve_fleet_all dp calls new_fleet))
   in distinct (map s_id ss) \<and> distinct (map s_name ss) \<and> list_all (server_ok dp) ss"
  using serve_fleet_all_keeps [OF new_fleet_ok, of dp calls] by (simp add: fleet_ok_def Let_def)

section \<open>An example\<close>

definition no_fields :: server_update where
  "no_fields = \<lparr>sv_name = None, sv_host = None, sv_port = None, sv_auth_type = None, sv_username = None, sv_password = None,
     sv_private_key = None, sv_passphrase = None, sv_enabled = None, sv_server_type = None, sv_tags = None, sv_note = None,
     sv_bmc_host = None, sv_bmc_user = None, sv_bmc_password = None\<rparr>"

definition demo_body :: server_update where
  "demo_body = no_fields\<lparr>sv_name := Some ''a'', sv_host := Some ''h'', sv_password := Some (Some ''pw'')\<rparr>"

definition demo_calls :: "(inputs \<times> outside \<times> fleet_call) list" where
  "demo_calls = [(demo_inputs 0, demo_outside, Create_Server demo_body (demo_user 1 ''ann'' ''admin'')),
     (demo_inputs 1, demo_outside, Connect 1)]"

theorem host_keys_follow_addresses_witness:
  "\<exists>s. server_by_id (fl_db (serve_fleet_all demo_deployment demo_calls new_fleet)) 1 = Some s \<and>
    fst (''h'', demo_key 7) = host_pattern (s_host s) (s_port s)"
proof -
  have "map_of (fl_keys (serve_fleet_all demo_deployment demo_calls new_fleet)) (hostkey_file (server_key 1))
      = Some [(''h'', demo_key 7)]" by code_simp
  from host_keys_follow_addresses [OF this] show ?thesis by simp
qed

text \<open>Deleting a server leaves its alerts behind, and the id of the newest server is given out again
  (SQLite reuses it): a new server inherits the open alerts of a deleted one.\<close>

definition demo_alert :: alert_event where
  "demo_alert = \<lparr>e_id = 1, e_rule_id = None, e_rule_name = [], e_server_id = 1, e_server_name = ''a'', e_metric = ''SSH_FAULT'',
     e_value = 0, e_threshold = 0, e_message = [], e_triggered_at = 0, e_recovered_at = None, e_acked_at = None,
     e_acked_by = [], e_assignee = [], e_notified = False\<rparr>"

lemma alerts_outlive_servers:
  "let ann = demo_user 1 ''ann'' ''admin'';
       f = demo_fleet\<lparr>fl_db := (fl_db demo_fleet)\<lparr>d_events := [demo_alert]\<rparr>\<rparr>;
       f' = serve_fleet_all demo_deployment
         [(demo_inputs 0, demo_outside, Delete_Server 1 ann),
          (demo_inputs 1, demo_outside, Create_Server (demo_body\<lparr>sv_name := Some ''b'', sv_host := Some ''other''\<rparr>) ann)] f
   in map s_name (d_servers (fl_db f')) = [''b''] \<and> map s_id (d_servers (fl_db f')) = [1] \<and>
      map e_server_id (d_events (fl_db f')) = [1] \<and> map e_recovered_at (d_events (fl_db f')) = [None]"
  by code_simp

section \<open>Where a connection test connects\<close>

text \<open>The plans that lead to an address the check lets pass.\<close>

definition vetted :: "plan \<Rightarrow> bool" where
  "vetted p \<longleftrightarrow> (\<exists>a. socket_address p = Some (show_ip a) \<and> \<not> bad_ip a)"

lemma vetted_target_good:
  assumes "vetted_target lookup host port = Inr (Inr target)"
  shows "\<exists>a. target = show_ip a \<and> \<not> bad_ip a"
proof (cases "ip_address host")
  case (Some a)
  then show ?thesis using assms by (auto simp: vetted_target_def split: if_splits)
next
  case None
  then show ?thesis using assms
    by (auto simp: vetted_target_def list_ex_iff split: if_splits option.splits)
qed

lemma connect_host_vetted:
  assumes "\<And>p. socket_address p = Some addr \<Longrightarrow> shake p = shake' p" and "addr \<noteq> []"
  shows "connect_host allow w shake host port user pw k ident addr files =
    connect_host allow w shake' host port user pw k ident addr files"
  using assms
  by (auto simp: connect_host_def connect_plan_def Let_def split: sum.splits option.splits)

lemma join_nonempty: "2 \<le> length xs \<Longrightarrow> sep \<noteq> [] \<Longrightarrow> join sep xs \<noteq> []"
  by (cases "(sep, xs)" rule: join.cases) auto

lemma show_ip_nonempty: "show_ip a \<noteq> []"
proof (cases a)
  case (IPv4 w)
  have "show_ipv4 w \<noteq> []" unfolding show_ipv4_def by (rule join_nonempty) (simp_all add: length_split_parts del: split_parts.simps)
  then show ?thesis by (simp add: show_ip_def IPv4)
next
  case (IPv6 w scope)
  obtain start len where run: "zero_run 0 0 (0, 0) (split_parts 16 8 w) = (start, len)" by fastforce
  have "show_ipv6 w \<noteq> []"
    unfolding show_ipv6_def Let_def run prod.case
    by (auto simp: join_nonempty length_split_parts simp del: split_parts.simps append_Cons append_Nil)
  then show ?thesis by (simp add: show_ip_def IPv6)
qed

lemma connect_draft_vetted:
  assumes "\<forall>p. vetted p \<longrightarrow> h p = ou_handshake ou p" and "\<not> bad_ip a"
  shows "connect_draft st (ou\<lparr>ou_handshake := h\<rparr>) c key (show_ip a) files = connect_draft st ou c key (show_ip a) files"
proof -
  have "h p = ou_handshake ou p" if "socket_address p = Some (show_ip a)" for p
    using assms that by (auto simp: vetted_def)
  then show ?thesis unfolding connect_draft_def by simp (intro connect_host_vetted, simp_all add: show_ip_nonempty)
qed

lemma run_connection_test_vetted:
  assumes "\<forall>p. vetted p \<longrightarrow> h p = ou_handshake ou p"
  shows "run_connection_test st (ou\<lparr>ou_handshake := h\<rparr>) c key files = run_connection_test st ou c key files"
proof (cases "and_then (reject_root_ssh st (Some (cn_username c))) (\<lambda>_. vetted_target (ou_lookup ou) (cn_host c) (cn_port c))")
  case (Inr r)
  show ?thesis
  proof (cases r)
    case (Inr target)
    then have "vetted_target (ou_lookup ou) (cn_host c) (cn_port c) = Inr (Inr target)"
      using \<open>and_then _ _ = Inr r\<close> by (auto simp: and_then_Inr)
    then obtain a where "target = show_ip a" "\<not> bad_ip a" using vetted_target_good by blast
    then show ?thesis using connect_draft_vetted [OF assms]
      by (simp add: run_connection_test_def \<open>and_then _ _ = Inr r\<close> Inr)
  qed (simp add: run_connection_test_def Inr)
qed (simp add: run_connection_test_def)


lemma metadata_refused: "vetted_target (\<lambda>h p. Some [''93.184.216.34'', ''169.254.169.254'']) ''rebind.example'' 22
    = Inr (Inl (illegal_target ''rebind.example''))"
  by code_simp

definition demo_draft :: connection where
  "demo_draft = \<lparr>cn_host = ''10.0.0.5'', cn_port = 22, cn_username = ''gpumon'', cn_auth_type = ''password'', cn_password = ''pw'',
     cn_private_key = [], cn_passphrase = []\<rparr>"


end
