(* ===== verification/History.thy ===== *)
theory History
  imports Alerts Fleet Cycle
begin

text \<open>
  Everything that writes alert events: the scheduler's rounds with the detectors and the rules, the
  IPMI cycle, and the handlers of \<open>api/alerts.py\<close>, \<open>api/servers.py\<close> and \<open>api/enterprise.py\<close>.  The log
  only grows: an event is never removed, its facts stay, and a recovery or an acknowledgement, once
  recorded, stays as it was.  The locale states what a relation on databases needs so that every
  detector stays inside it.
\<close>

section \<open>A relation all detectors respect\<close>

named_theorems effect_intros \<open>steps inside the relation\<close>

locale detector_effect =
  fixes effect :: "db \<Rightarrow> db \<Rightarrow> bool"
  assumes keeps [effect_intros]: "effect d d"
    and follows: "effect d d' \<Longrightarrow> effect d' d'' \<Longrightarrow> effect d d''"
    and fires [effect_intros]: "effect d (fire send now det sid sname message value threshold key d)"
    and recovers [effect_intros]: "effect d (recover send now det sid key d)"
    and closes_matching [effect_intros]: "effect d (d\<lparr>d_events := map (\<lambda>e. if event_matches det sid key e
           then e\<lparr>e_recovered_at := Some now\<rparr> else e) (d_events d)\<rparr>)"
    and expires [effect_intros]: "effect d (ttl_recover_point_events now d)"
    and rewords [effect_intros]: "open_event d ''SERVICE_FAILED'' sid [] = Some ev \<Longrightarrow>
           effect d (update_event (e_id ev) (\<lambda>e. e\<lparr>e_message := msg\<rparr>) d)"
    and other_tables: "d_events d' = d_events d \<Longrightarrow> effect d d'"
begin

lemma loops [effect_intros]: "(\<And>x d. x \<in> set xs \<Longrightarrow> effect d (f x d)) \<Longrightarrow> effect d (fold f xs d)"
proof (induction xs arbitrary: d)
  case (Cons x xs)
  then have "effect d (f x d)" "effect (f x d) (fold f xs (f x d))" by simp_all
  then show ?case by (simp add: follows)
qed (simp add: keeps)

lemma either [effect_intros]: "effect d a \<Longrightarrow> effect d b \<Longrightarrow> effect d (if c then a else b)"
  by simp

lemma baselines [effect_intros]: "effect d (update_baseline sid u f d)"
  by (rule other_tables) (simp add: update_baseline_def)

lemmas then_steps = follows [OF _ fires] follows [OF _ recovers] follows [OF _ baselines]

lemma judges [effect_intros]:
  "effect d (judge_idle_gpu send now vp im s m rows g d)"
  "effect d (recover_busy_gpu send now vp sid g d)"
  "effect d (judge_missing_gpu send now s m b d)"
  "effect d (judge_gpu_ecc send now s m g d)"
  "effect d (judge_gpu_throttle send now s m g d)"
  "effect d (judge_kernel_event send now s ev d)"
  "effect d (judge_nvme send now s e d)"
  "effect d (judge_raid send now s a d)"
  unfolding judge_idle_gpu_def recover_busy_gpu_def judge_missing_gpu_def judge_gpu_ecc_def
    judge_gpu_throttle_def judge_kernel_event_def judge_nvme_def judge_raid_def Let_def
  by (auto intro!: effect_intros then_steps split: prod.splits option.splits)

lemma detectors [effect_intros]:
  "effect d (detect_gpu_idle send now s m d)"
  "effect d (detect_gpu_missing send now s m bs d)"
  "effect d (detect_gpu_ecc send now s m d)"
  "effect d (detect_gpu_throttle send now s m d)"
  "effect d (detect_storage_bottleneck send now s m d)"
  "effect d (detect_kernel_events send now s since d)"
  "effect d (detect_nvme send now s h d)"
  "effect d (detect_raid send now s h d)"
  "effect d (detect_ssh_fault send now s m d)"
  "effect d (detect_services send now s h d)"
  unfolding detect_gpu_idle_def detect_gpu_missing_def detect_gpu_ecc_def detect_gpu_throttle_def
    detect_storage_bottleneck_def detect_kernel_events_def detect_nvme_def detect_raid_def
    detect_ssh_fault_def detect_services_def Let_def
  by (auto intro!: effect_intros intro: follows [OF loops loops] split: option.splits prod.splits)

lemma run_ok [effect_intros]: "effect d (run_ok_detectors send now s m d)"
  unfolding run_ok_detectors_def Let_def
  by (auto intro!: keeps detectors intro: follows [OF detectors(1) follows [OF detectors(2)
        follows [OF detectors(3) follows [OF detectors(4) detectors(5)]]]])

lemma passes [effect_intros]: "effect d (detector_passes send now s m d)"
  unfolding detector_passes_def Let_def
  by (rule follows [OF detectors(9) follows [OF run_ok follows [OF detectors(6)
        follows [OF detectors(7) follows [OF detectors(8) detectors(10)]]]]])

lemma run [effect_intros]: "effect d (run_detectors send now sid d)"
  unfolding run_detectors_def
  by (auto intro!: keeps intro: follows [OF expires passes] split: option.splits)

lemma bmc [effect_intros]: "effect d (store_ipmi send now sid sname res elapsed d)"
proof -
  let ?d1 = "d\<lparr>d_ipmi := d_ipmi d @ [snapshot_of now sid res elapsed]\<rparr>"
  have stored: "effect d ?d1" by (rule other_tables) simp
  have power: "effect d' (judge_power send now sid sname s d')" for s d'
    by (simp add: judge_power_def fires recovers)
  have psus: "effect d' (fold (judge_psu send now sid sname) ps d')" for ps d'
    unfolding judge_psu_def by (intro loops fires)
  have sels: "effect d' (fold (judge_sel send now sid sname) es d')" for es d'
    unfolding judge_sel_def by (intro loops fires)
  show ?thesis
    unfolding store_ipmi_def Let_def
    by (intro either follows [OF stored fires]
        follows [OF follows [OF follows [OF follows [OF stored recovers] power] psus] sels])
qed

lemma bmc_cycle [effect_intros]: "effect d (ipmi_cycle send now available decrypt run exn_text elapsed d)"
proof -
  have "effect d' (poll_bmc send now run exn_text elapsed tgt d')" for tgt d'
    unfolding poll_bmc_def by (auto intro!: effect_intros split: prod.splits option.splits)
  then show ?thesis
    unfolding ipmi_cycle_def by (auto intro!: effect_intros split: option.splits)
qed

end

section \<open>What may happen to an event\<close>

text \<open>The columns that say what was raised where, when and why.  A recovery and an acknowledgement are
  final.  Only the text of a failed-services event is brought up to date, and an event may lose the
  rule it came from, but never gets another one.\<close>

definition advances :: "alert_event \<Rightarrow> alert_event \<Rightarrow> bool" where
  "advances e e' \<longleftrightarrow>
     (e_id e', e_rule_name e', e_server_id e', e_server_name e', e_metric e', e_value e', e_threshold e', e_triggered_at e') =
     (e_id e, e_rule_name e, e_server_id e, e_server_name e, e_metric e, e_value e, e_threshold e, e_triggered_at e) \<and>
     (e_recovered_at e \<noteq> None \<longrightarrow> e_recovered_at e' = e_recovered_at e) \<and>
     (e_acked_at e \<noteq> None \<longrightarrow> e_acked_at e' = e_acked_at e \<and> e_acked_by e' = e_acked_by e) \<and>
     (e_message e' = e_message e \<or> e_metric e = ''SERVICE_FAILED'') \<and>
     (e_rule_id e' = e_rule_id e \<or> e_rule_id e' = None)"

definition grown :: "alert_event list \<Rightarrow> alert_event list \<Rightarrow> bool" where
  "grown es es' \<longleftrightarrow> length es \<le> length es' \<and> list_all2 advances es (take (length es) es')"

definition history :: "db \<Rightarrow> db \<Rightarrow> bool" where
  "history d d' \<longleftrightarrow> (events_ok d \<longrightarrow> events_ok d' \<and> grown (d_events d) (d_events d'))"

lemma advances_refl [simp]: "advances e e"
  by (simp add: advances_def)

lemma advances_trans: "advances e e' \<Longrightarrow> advances e' e'' \<Longrightarrow> advances e e''"
  unfolding advances_def by (clarsimp; metis)

lemma grown_refl [simp]: "grown es es"
  by (simp add: grown_def list_all2_same)

lemma grown_trans:
  assumes "grown a b" and "grown b c" shows "grown a c"
proof -
  have "list_all2 advances (take (length a) b) (take (length a) (take (length b) c))"
    using assms by (intro list_all2_takeI) (simp add: grown_def)
  moreover have "take (length a) (take (length b) c) = take (length a) c"
    using assms by (simp add: grown_def min_absorb1)
  moreover have "list_all2 advances a (take (length a) b)" using assms by (simp add: grown_def)
  ultimately show ?thesis using assms
    by (auto simp: grown_def intro: list_all2_trans [OF advances_trans])
qed

lemma grown_map: "(\<And>e. e \<in> set es \<Longrightarrow> advances e (f e)) \<Longrightarrow> grown es (map f es)"
  by (simp add: grown_def list_all2_map2 list_all2_same)

lemma grown_append: "grown es es' \<Longrightarrow> grown es (es' @ new)"
  by (simp add: grown_def)

lemma history_refl: "history d d"
  by (simp add: history_def)

lemma history_trans: "history d d' \<Longrightarrow> history d' d'' \<Longrightarrow> history d d''"
  by (auto simp: history_def intro: grown_trans)

lemma history_same: "d_events d' = d_events d \<Longrightarrow> history d d'"
  by (simp add: history_def events_ok_def)

text \<open>A change of the events one by one.\<close>

lemma history_map:
  assumes "d_events d' = map f (d_events d)" and "\<And>e. events_ok d \<Longrightarrow> e \<in> set (d_events d) \<Longrightarrow> advances e (f e)"
  shows "history d d'"
proof -
  have "events_ok d' \<and> grown (d_events d) (d_events d')" if ok: "events_ok d"
  proof -
    have "map e_id (d_events d') = map e_id (d_events d)"
      using assms(2) [OF ok] by (auto simp: assms(1) advances_def)
    moreover have "grown (d_events d) (d_events d')" using assms(2) [OF ok] by (simp add: assms(1) grown_map)
    ultimately show ?thesis using ok by (simp add: events_ok_def)
  qed
  then show ?thesis by (simp add: history_def)
qed

lemma history_update:
  assumes "\<And>e. events_ok d \<Longrightarrow> e \<in> set (d_events d) \<Longrightarrow> e_id e = i \<Longrightarrow> advances e (f e)"
  shows "history d (update_event i f d)"
  by (rule history_map [where f = "\<lambda>e. if e_id e = i then f e else e"]) (use assms in auto)

text \<open>Ids are unique: an update by the id of an event found in the log changes that event only.\<close>

lemma history_update_found:
  assumes "ev \<in> set (d_events d)" and "advances ev (f ev)"
  shows "history d (update_event (e_id ev) f d)"
proof (rule history_update)
  fix e assume "events_ok d" "e \<in> set (d_events d)" "e_id e = e_id ev"
  then have "e = ev" using assms(1) by (auto simp: events_ok_def distinct_map inj_on_def)
  with assms(2) show "advances e (f e)" by simp
qed

lemma history_new:
  assumes "d_events d' = d_events d @ [ev]" and "e_id ev = next_event_id d"
  shows "history d d'"
  using assms next_event_id_fresh by (fastforce simp: history_def events_ok_def intro: grown_append)

lemma advances_flags [simp]:
  "advances e (e\<lparr>e_notified := b\<rparr>)" "advances e (e\<lparr>e_assignee := a\<rparr>)" "advances e (e\<lparr>e_rule_id := None\<rparr>)"
  "advances e (e\<lparr>e_recovered_at := t\<rparr>) \<longleftrightarrow> e_recovered_at e = None \<or> t = e_recovered_at e"
  by (auto simp: advances_def)

lemma history_notify: "history d (notify send ev det sname lvl d)"
proof -
  let ?d1 = "d\<lparr>d_outbox := d_outbox d @ [notification_of ev det sname lvl]\<rparr>"
  have "history d ?d1" by (rule history_same) simp
  moreover have "history ?d1 (update_event (e_id ev) (\<lambda>e. e\<lparr>e_notified := b\<rparr>) ?d1)" for b
    by (rule history_update) simp
  ultimately show ?thesis
    by (auto simp: notify_def Let_def split: option.splits intro: history_trans)
qed

text \<open>The contract of the detectors, on this relation.\<close>

lemma history_fire: "history d (fire send now det sid sname message value threshold key d)"
proof (cases "open_event d det sid key")
  case None
  let ?ev = "new_event d now det sid sname (if key \<noteq> [] then ''['' @ key @ ''] '' @ message else message) value threshold"
  have "history d (d\<lparr>d_events := d_events d @ [?ev]\<rparr>)"
    by (rule history_new [where ev = ?ev]) (simp_all add: new_event_def)
  then show ?thesis using None by (auto simp: fire_def Let_def intro: history_trans history_notify)
qed (simp add: fire_def history_refl)

lemma open_is_open: "open_event d det sid key = Some ev \<Longrightarrow> ev \<in> set (d_events d) \<and> e_recovered_at ev = None"
  using open_event_SomeD [of d det sid key ev] by (simp add: event_matches_def)

lemma history_recover: "history d (recover send now det sid key d)"
proof (cases "open_event d det sid key")
  case (Some ev)
  have "history d (update_event (e_id ev) (\<lambda>e. e\<lparr>e_recovered_at := Some now\<rparr>) d)"
    by (rule history_update_found) (use open_is_open [OF Some] in simp_all)
  then show ?thesis using Some by (auto simp: recover_def Let_def intro: history_trans history_notify)
qed (simp add: recover_def history_refl)

lemma history_reword:
  assumes "open_event d ''SERVICE_FAILED'' sid [] = Some ev"
  shows "history d (update_event (e_id ev) (\<lambda>e. e\<lparr>e_message := msg\<rparr>) d)"
proof (rule history_update_found)
  show "ev \<in> set (d_events d)" using open_is_open [OF assms] by simp
  have "e_metric ev = ''SERVICE_FAILED''"
    using open_event_SomeD [OF assms] by (simp add: event_matches_def)
  then show "advances ev (ev\<lparr>e_message := msg\<rparr>)" by (simp add: advances_def)
qed

interpretation events: detector_effect history
proof
  show "history d (d\<lparr>d_events := map (\<lambda>e. if event_matches det sid key e
      then e\<lparr>e_recovered_at := Some now\<rparr> else e) (d_events d)\<rparr>)" for d det sid key now
    by (rule history_map [where f = "\<lambda>e. if event_matches det sid key e then e\<lparr>e_recovered_at := Some now\<rparr> else e"])
      (auto simp: event_matches_def)
  show "history d (ttl_recover_point_events now d)" for now d
    unfolding ttl_recover_point_events_def Let_def
    by (rule history_map [where f = "\<lambda>e. if e_rule_id e = None \<and> e_metric e \<in> set POINT_EVENT_TYPES \<and> e_recovered_at e = None
        \<and> e_triggered_at e \<le> now - minutes POINT_EVENT_TTL_MINUTES then e\<lparr>e_recovered_at := Some now\<rparr> else e"]) auto
qed (fact history_refl history_fire history_recover history_same history_reword | erule history_trans, assumption)+

lemma history_rule: "history d (outcome (eval_target send now interval mt latest rule sid d))"
proof (cases rule: eval_target_cases [of send now interval mt latest rule sid d])
  case idle
  then show ?thesis by (simp add: history_refl)
next
  case (opened m v b)
  show ?thesis by (rule history_new [OF opened(7)]) (simp add: rule_event_def)
next
  case (closed ev)
  let ?d' = "update_event (e_id ev) (\<lambda>e. e\<lparr>e_recovered_at := Some now\<rparr>) d"
  have "ev \<in> set (d_events d)" "e_recovered_at ev = None"
    using closed(2) by (auto simp: find_Some_iff open_for_def)
  then have "history d ?d'" by (intro history_update_found) simp_all
  moreover have "history ?d' (outcome (eval_target send now interval mt latest rule sid d))"
    by (rule history_same) (simp add: closed(4))
  ultimately show ?thesis by (rule history_trans)
qed

lemma history_rules: "history d (eval_alerts send poll now d)"
  by (rule eval_alerts_invariant) (auto intro: history_trans history_rule history_refl)

section \<open>The scheduler\<close>

lemma history_poll: "history (fst st) (fst (poll_one send digest now interval sid res st))"
proof (cases st)
  case (Pair d idle)
  have kernel: "d_events (store_kernel_events digest now sid boot evs d') = d_events d'" for boot evs d'
    by (simp add: store_kernel_events_def Let_def)
  have baseline: "d_events (update_gpu_baseline now sid gs d') = d_events d'" for gs d'
    unfolding update_gpu_baseline_def
    by (rule fold_invariant [where P = "\<lambda>d''. d_events d'' = d_events d'" and Q = "\<lambda>_. True"])
      (auto simp: register_gpu_def Let_def update_baseline_def split: option.splits)
  show ?thesis
    by (auto simp: Pair poll_one_def Let_def kernel baseline store_sample_def save_snapshot_def
        intro!: history_trans [OF history_same events.run])
qed

lemma history_complete: "history (fst st) (fst (complete send digest interval c st))"
proof (cases c)
  case (PollDone sid now res)
  then show ?thesis by (simp add: complete_def history_poll)
qed (auto simp: complete_def slow_one_def inventory_one_def intro!: history_same split: sum.splits)

lemma history_cycle: "history (fst st) (fst (run_cycle send digest interval poll now cs st))"
proof -
  have completions: "history (fst st) (fst (fold (complete send digest interval) cs st))" for st
  proof (induction cs arbitrary: st)
    case (Cons c cs)
    have "history (fst st) (fst (complete send digest interval c st))" by (rule history_complete)
    moreover note Cons.IH [of "complete send digest interval c st"]
    ultimately have "history (fst st) (fst (fold (complete send digest interval) cs (complete send digest interval c st)))"
      by (rule history_trans)
    then show ?case by simp
  qed (simp add: history_refl)
  obtain d idle where "fold (complete send digest interval) cs st = (d, idle)" by (rule prod.exhaust)
  then show ?thesis
    using completions [of st] by (auto simp: run_cycle_def intro: history_refl history_trans history_rules)
qed

lemma events_close [simp]: "d_events (close_hours n hour prev sids interval d) = d_events d"
  by (induction n arbitrary: hour d) (simp_all add: roll_hour_def Let_def)

lemma events_roll: "hourly_aggregate poll now d = (d', b) \<Longrightarrow> d_events d' = d_events d"
  by (auto simp: hourly_aggregate_def Let_def split: if_splits)

lemma events_retention:
  "retention_cleanup dir_set can_write now day d d d = (day', d', ar) \<Longrightarrow> d_events d' = d_events d"
  by (auto simp: retention_cleanup_def Let_def split: option.splits if_splits)

lemma history_round:
  "history (lp_db st) (lp_db (scheduler_round send digest poll dir_set can_write now completions st))"
proof -
  let ?d1 = "expire_maintenance now (lp_db st)"
  obtain d2 idle where c: "(case completions of None \<Rightarrow> (?d1, lp_idle st)
      | Some cs \<Rightarrow> run_cycle send digest (lp_interval st) poll now cs (?d1, lp_idle st)) = (d2, idle)" by (rule prod.exhaust)
  obtain day d3 ar where r: "retention_cleanup dir_set can_write now (lp_retention_day st) d2 d2 d2 = (day, d3, ar)"
    by (rule prod_cases3)
  let ?roll = "lp_hour st \<noteq> Some (hour_floor now) \<and> now mod hours 1 \<ge> minutes 2"
  obtain d4 b where h: "(if ?roll then hourly_aggregate poll now d3 else (d3, None)) = (d4, b)" by (rule prod.exhaust)
  have "d_events ?d1 = d_events (lp_db st)" by (simp add: expire_maintenance_def)
  moreover have "history ?d1 d2"
    using c history_cycle [of "(?d1, lp_idle st)" send digest "lp_interval st" poll now "the completions"]
    by (cases completions) (simp_all add: history_refl)
  moreover have "d_events d4 = d_events d2"
    using h events_roll [of poll now d3 d4 b] events_retention [OF r] by (auto split: if_splits)
  ultimately have "history (lp_db st) d4" by (blast intro: history_same history_trans)
  then show ?thesis by (simp only: scheduler_round_def Let_def c r h prod.case loop_state.simps)
qed

section \<open>The handlers\<close>

lemma events_audit [simp]: "d_events (audit inp who action detail d) = d_events d"
  by (simp add: audit_def)

lemma events_recorded [simp]: "d_events (fl_db (recorded inp who action detail f)) = d_events (fl_db f)"
  by (simp add: recorded_def)

lemma events_audit_in_full [simp]: "d_events (fl_db (audit_in_full inp who action detail f)) = d_events (fl_db f)"
  by (simp add: audit_in_full_def)

lemma events_put_server [simp]: "d_events (put_server s d) = d_events d"
  by (simp add: put_server_def)

lemma events_add_audit [simp]: "d_events (fl_db (add_audit row f)) = d_events (fl_db f)"
  by (simp add: add_audit_def)

lemma events_reauthenticate:
  "reauthenticate dp inp ou rq admin purpose pw action detail f = (r, f') \<Longrightarrow> d_events (fl_db f') = d_events (fl_db f)"
  by (auto simp: reauthenticate_def Let_def split: prod.splits sum.splits if_splits)

lemma events_run_action [simp]:
  "d_events (fl_db (snd (run_action dp inp ou b admin s f))) = d_events (fl_db f)"
  by (auto simp: run_action_def Let_def split: prod.splits)

lemma events_process_action [simp]:
  "d_events (fl_db (snd (process_action dp inp ou rq sid b admin f))) = d_events (fl_db f)"
proof -
  obtain r f1 where re: "reauthenticate dp inp ou rq admin ''process-action'' (pa_password b) ''process.reauth_failed''
      (process_refusal sid b) f = (r, f1)" by (rule prod.exhaust)
  then show ?thesis
    using events_reauthenticate [OF re] by (auto simp: process_action_def split: sum.splits option.splits)
qed

lemma history_reset: "history (fl_db f) (fl_db (snd (reset_hostkey dp inp ou rq sid b admin f)))"
proof -
  have clear: "history (fl_db g) (fl_db (snd (pin_and_clear inp ou sid b admin s g)))" for s g
    by (rule history_map [where f = "if d_events (fl_db (snd (pin_and_clear inp ou sid b admin s g))) = d_events (fl_db g) then id
        else (\<lambda>e. if reset_clears sid e then e\<lparr>e_recovered_at := Some (i_now inp)\<rparr> else e)"])
      (auto simp: pin_and_clear_def reset_clears_def Let_def split: sum.splits if_splits)
  obtain r f1 where re: "reauthenticate dp inp ou rq admin ''hostkey-reset'' (hr_password b)
      ''server.reset_hostkey.reauth_failed'' (reset_refusal sid) f = (r, f1)" by (rule prod.exhaust)
  have "history (fl_db f) (fl_db f1)" using events_reauthenticate [OF re] by (rule history_same)
  moreover have "history (fl_db f1) (fl_db (snd (pin_and_clear inp ou sid b admin s (add_audit row f1))))" for s row
    by (rule history_trans [OF history_same clear]) simp
  ultimately show ?thesis
    by (auto simp: reset_hostkey_def re history_refl intro: history_trans split: option.splits sum.splits)
qed

lemma history_delete_server: "history (fl_db f) (fl_db (snd (delete_server inp ou sid admin f)))"
proof -
  have "history d (without_server sid d)" for d
    unfolding without_server_def Let_def
    by (rule history_map [where f = "\<lambda>e. case e_rule_id e of Some r \<Rightarrow> if r \<in> set (map r_id
        (filter (\<lambda>r. r_server_id r = Some sid) (d_rules d))) then e\<lparr>e_rule_id := None\<rparr> else e | None \<Rightarrow> e"])
      (auto split: option.splits)
  then have "history d (without_server sid d\<lparr>d_audit := a\<rparr>)" for d a
    by (rule history_trans) (rule history_same, simp)
  then show ?thesis by (auto simp: delete_server_def Let_def history_refl split: option.splits)
qed

lemma history_fleet: "history (fl_db f) (fl_db (serve_fleet dp (inp, ou, c) f))"
proof (cases c)
  case (Create_Server b u)
  then show ?thesis
    by (auto simp: on_body_def create_server_def Let_def intro!: history_same split: option.splits sum.splits)
next
  case (Update_Server sid b u)
  then show ?thesis
    by (auto simp: on_body_def update_server_def Let_def intro!: history_same split: option.splits sum.splits)
next
  case (Delete_Server sid u)
  then show ?thesis by (simp add: history_delete_server)
next
  case (Test_Draft x)
  then show ?thesis
    by (auto simp: on_body_def test_server_connection_def intro!: history_same split: option.splits prod.splits)
next
  case (Test_Server sid b u)
  then show ?thesis
    by (auto simp: on_body_def test_stored_server_def Let_def intro!: history_same split: option.splits prod.splits sum.splits)
next
  case (Set_Status sid st reason til u)
  then show ?thesis
    by (auto simp: set_server_status_def Let_def intro!: history_same split: option.splits)
next
  case (Add_Note sid kind content u)
  then show ?thesis by (auto simp: add_note_def Let_def intro!: history_same split: option.splits)
next
  case (Process_Action rq sid b u)
  then show ?thesis by (auto intro!: history_same)
next
  case (Reset_Hostkey rq sid b u)
  then show ?thesis by (simp add: history_reset history_refl)
next
  case (Connect sid)
  then show ?thesis by (auto intro!: history_same split: option.splits)
qed

section \<open>Everything that happens\<close>

text \<open>A call of the alert API by a signed-in user, or of its administrator routes.\<close>

datatype alert_call =
    Create_Rule rule_create user
  | Update_Rule int rule_update user
  | Delete_Rule int user
  | Ack_Event int user
  | Resolve_Event int user
  | Assign_Event int string user
  | Create_Channel wire channel_in user
  | Delete_Channel int user

fun serve_alerts :: "deployment \<Rightarrow> inputs \<Rightarrow> alert_call \<Rightarrow> db \<Rightarrow> db" where
  "serve_alerts dp inp (Create_Rule b u) d = snd (create_rule inp b u d)"
| "serve_alerts dp inp (Update_Rule rid b u) d = snd (update_rule inp rid b u d)"
| "serve_alerts dp inp (Delete_Rule rid u) d = snd (delete_rule inp rid u d)"
| "serve_alerts dp inp (Ack_Event eid u) d = snd (ack_event inp eid u d)"
| "serve_alerts dp inp (Resolve_Event eid u) d = snd (resolve_event inp eid u d)"
| "serve_alerts dp inp (Assign_Event eid who u) d = snd (assign_event inp eid who u d)"
| "serve_alerts dp inp (Create_Channel w b u) d = snd (create_channel dp inp w b u d)"
| "serve_alerts dp inp (Delete_Channel cid u) d = snd (delete_channel inp cid u d)"

datatype happening =
    Scheduler sender "string \<Rightarrow> string" int bool bool time "completion list option"
  | Bmc sender time bool "string \<Rightarrow> string option" "string \<Rightarrow> string \<Rightarrow> string \<Rightarrow> string list \<Rightarrow> run_result" "string \<Rightarrow> string" rat
  | Web inputs outside fleet_call
  | Alert_Api inputs alert_call

record monitor =
  mo_fleet :: fleet
  mo_loop :: loop_state

abbreviation mo_db :: "monitor \<Rightarrow> db" where "mo_db m \<equiv> fl_db (mo_fleet m)"

definition with_db :: "db \<Rightarrow> monitor \<Rightarrow> monitor" where
  "with_db d m = m\<lparr>mo_fleet := (mo_fleet m)\<lparr>fl_db := d\<rparr>\<rparr>"

text \<open>The database is shared: the loop starts from what the handlers left.\<close>

fun happens :: "deployment \<Rightarrow> happening \<Rightarrow> monitor \<Rightarrow> monitor" where
  "happens dp (Scheduler send digest poll dir_set can_write now cs) m =
     (let st = scheduler_round send digest poll dir_set can_write now cs ((mo_loop m)\<lparr>lp_db := mo_db m\<rparr>)
      in with_db (lp_db st) (m\<lparr>mo_loop := st\<rparr>))"
| "happens dp (Bmc send now available decrypt run exn_text elapsed) m =
     with_db (ipmi_cycle send now available decrypt run exn_text elapsed (mo_db m)) m"
| "happens dp (Web inp ou c) m = m\<lparr>mo_fleet := serve_fleet dp (inp, ou, c) (mo_fleet m)\<rparr>"
| "happens dp (Alert_Api inp c) m = with_db (serve_alerts dp inp c (mo_db m)) m"

lemma event_by_idD: "event_by_id d i = Some e \<Longrightarrow> e \<in> set (d_events d) \<and> e_id e = i"
  by (auto simp: event_by_id_def find_Some_iff)

lemma history_audit: "history d d' \<Longrightarrow> history d (audit inp who action detail d')"
  by (erule history_trans) (rule history_same, simp)

lemma history_alerts: "history d (serve_alerts dp inp c d)"
proof (cases c)
  case (Create_Rule b u)
  then show ?thesis by (auto simp: create_rule_def Let_def intro!: history_same)
next
  case (Update_Rule rid b u)
  then show ?thesis by (auto simp: update_rule_def Let_def intro!: history_same split: option.splits)
next
  case (Delete_Rule rid u)
  have "history d (d\<lparr>d_rules := rs, d_events := map (\<lambda>e. if e_rule_id e = Some rid then e\<lparr>e_rule_id := None\<rparr> else e) (d_events d)\<rparr>)" for rs
    by (rule history_map [where f = "\<lambda>e. if e_rule_id e = Some rid then e\<lparr>e_rule_id := None\<rparr> else e"]) auto
  then show ?thesis
    by (auto simp: Delete_Rule delete_rule_def history_refl intro!: history_audit split: option.splits)
next
  case (Ack_Event eid u)
  have "history d (update_event eid (\<lambda>e. e\<lparr>e_acked_at := t, e_acked_by := who\<rparr>) d)"
    if "event_by_id d eid = Some e" "e_acked_at e = None" for e t who
    using history_update_found [of e d "\<lambda>e. e\<lparr>e_acked_at := t, e_acked_by := who\<rparr>"] event_by_idD [OF that(1)] that(2)
    by (auto simp: advances_def)
  then show ?thesis
    by (auto simp: Ack_Event ack_event_def Let_def history_refl intro!: history_audit split: option.splits)
next
  case (Resolve_Event eid u)
  have "history d (update_event eid (\<lambda>e. e\<lparr>e_recovered_at := t\<rparr>) d)"
    if "event_by_id d eid = Some e" "e_recovered_at e = None" for e t
    using history_update_found [of e d "\<lambda>e. e\<lparr>e_recovered_at := t\<rparr>"] event_by_idD [OF that(1)] that(2) by auto
  then show ?thesis
    by (auto simp: Resolve_Event resolve_event_def Let_def history_refl intro!: history_audit split: option.splits)
next
  case (Assign_Event eid who u)
  have "history d (update_event eid (\<lambda>e. e\<lparr>e_assignee := a\<rparr>) d)" for a by (rule history_update) simp
  then show ?thesis
    by (auto simp: Assign_Event assign_event_def Let_def history_refl intro!: history_audit split: option.splits)
next
  case (Create_Channel w b u)
  then show ?thesis by (auto simp: create_channel_def Let_def intro!: history_same split: prod.splits bool.splits)
next
  case (Delete_Channel cid u)
  then show ?thesis by (auto simp: delete_channel_def intro!: history_same)
qed

lemma history_happens: "history (mo_db m) (mo_db (happens dp h m))"
proof (cases h)
  case (Scheduler send digest poll dir_set can_write now cs)
  then show ?thesis using history_round [of "(mo_loop m)\<lparr>lp_db := mo_db m\<rparr>"] by (simp add: with_db_def Let_def)
next
  case (Bmc send now available decrypt run exn_text elapsed)
  then show ?thesis by (simp add: with_db_def events.bmc_cycle)
next
  case (Web inp ou c)
  then show ?thesis using history_fleet by simp
next
  case (Alert_Api inp c)
  then show ?thesis by (simp add: with_db_def history_alerts)
qed


text \<open>An acknowledged alert, acknowledged again, resolved twice, its server deleted.\<close>

definition acked_alert :: alert_event where
  "acked_alert = demo_alert\<lparr>e_id := 1, e_acked_at := Some 5, e_acked_by := ''bob''\<rparr>"

definition watched :: monitor where
  "watched = \<lparr>mo_fleet = demo_fleet\<lparr>fl_db := (fl_db demo_fleet)\<lparr>d_events := [acked_alert]\<rparr>\<rparr>,
     mo_loop = \<lparr>lp_db = empty_db, lp_idle = \<lparr>gpu_idle_mem = None, saved_state = None\<rparr>, lp_interval = 60, lp_retention_day = None, lp_hour = None,
       lp_backfill = None\<rparr>\<rparr>"

definition some_day :: "happening list" where
  "some_day = [Alert_Api (demo_inputs 9) (Ack_Event 1 (demo_user 1 ''ann'' ''admin'')),
     Alert_Api (demo_inputs 20) (Resolve_Event 1 (demo_user 1 ''ann'' ''admin'')),
     Alert_Api (demo_inputs 30) (Resolve_Event 1 (demo_user 1 ''ann'' ''admin'')),
     Web (demo_inputs 40) demo_outside (Delete_Server 1 (demo_user 1 ''ann'' ''admin''))]"


end
