(* ===== verification/Json.thy ===== *)
theory Json
  imports Notifier
begin

text \<open>
  JSON text as Python's \<open>json\<close> module reads and writes it: \<open>json.dumps\<close> with its defaults (ASCII only)
  and \<open>json.loads\<close>, on the bytes of a text's UTF-8 form.  Numbers are exact, an integral one is
  written as an integer; the constants \<open>NaN\<close> and \<open>Infinity\<close>, which Python reads as floats, are not
  values of the model, and a text with one is not read.
\<close>

section \<open>Code points\<close>

definition byte :: "nat \<Rightarrow> char" where "byte n = char_of n"

definition utf8_point :: "nat \<Rightarrow> string" where
  "utf8_point p =
     (if p < 0x80 then [byte p]
      else if p < 0x800 then [byte (0xC0 + p div 64), byte (0x80 + p mod 64)]
      else if p < 0x10000 then [byte (0xE0 + p div 4096), byte (0x80 + p div 64 mod 64), byte (0x80 + p mod 64)]
      else [byte (0xF0 + p div 262144), byte (0x80 + p div 4096 mod 64), byte (0x80 + p div 64 mod 64), byte (0x80 + p mod 64)])"

definition is_scalar :: "nat \<Rightarrow> bool" where
  "is_scalar p \<longleftrightarrow> p < 0x110000 \<and> \<not> (0xD800 \<le> p \<and> p \<le> 0xDFFF)"

definition tail_byte :: "char \<Rightarrow> bool" where
  "tail_byte c \<longleftrightarrow> 0x80 \<le> code c \<and> code c < 0xC0"

text \<open>The first code point and the text behind it.\<close>

fun first_point :: "string \<Rightarrow> (nat \<times> string) option" where
  "first_point [] = None"
| "first_point (a # s) =
     (if code a < 0x80 then Some (code a, s)
      else if code a < 0xE0 then
        (case s of
           b # s' \<Rightarrow> (let p = (code a - 0xC0) * 64 + (code b - 0x80)
             in if 0xC0 \<le> code a \<and> tail_byte b \<and> 0x80 \<le> p then Some (p, s') else None)
         | [] \<Rightarrow> None)
      else if code a < 0xF0 then
        (case s of
           b # c # s' \<Rightarrow> (let p = (code a - 0xE0) * 4096 + (code b - 0x80) * 64 + (code c - 0x80)
             in if tail_byte b \<and> tail_byte c \<and> 0x800 \<le> p \<and> is_scalar p then Some (p, s') else None)
         | _ \<Rightarrow> None)
      else
        (case s of
           b # c # e # s' \<Rightarrow> (let p = (code a - 0xF0) * 262144 + (code b - 0x80) * 4096 + (code c - 0x80) * 64 + (code e - 0x80)
             in if tail_byte b \<and> tail_byte c \<and> tail_byte e \<and> 0x10000 \<le> p \<and> is_scalar p then Some (p, s') else None)
         | _ \<Rightarrow> None))"

lemma first_point_shorter: "first_point s = Some (p, r) \<Longrightarrow> length r < length s"
  by (cases s) (auto simp: Let_def split: if_splits list.splits)

function points :: "string \<Rightarrow> nat list option" where
  "points s = (if s = [] then Some [] else
     (case first_point s of None \<Rightarrow> None | Some (p, r) \<Rightarrow> map_option (Cons p) (points r)))"
  by pat_completeness auto

termination
  by (relation "measure length") (auto dest: first_point_shorter)

declare points.simps [simp del]

text \<open>The first characters of a text.\<close>

definition clip :: "nat \<Rightarrow> string \<Rightarrow> string" where
  "clip n s = (case points s of Some ps \<Rightarrow> concat (map utf8_point (take n ps)) | None \<Rightarrow> take n s)"

section \<open>Writing\<close>

definition escape_point :: "nat \<Rightarrow> string" where
  "escape_point p =
     (if p = code qt then [bslash, qt]
      else if p = code bslash then [bslash, bslash]
      else if p = 8 then [bslash, CHR ''b'']
      else if p = 9 then [bslash, CHR ''t'']
      else if p = 10 then [bslash, CHR ''n'']
      else if p = 12 then [bslash, CHR ''f'']
      else if p = 13 then [bslash, CHR ''r'']
      else if 32 \<le> p \<and> p < 127 then [byte p]
      else if p < 0x10000 then bslash # CHR ''u'' # hex4 p
      else bslash # CHR ''u'' # hex4 (0xD800 + (p - 0x10000) div 1024) @
           bslash # CHR ''u'' # hex4 (0xDC00 + (p - 0x10000) mod 1024))"

definition json_string :: "string \<Rightarrow> string" where
  "json_string s = [qt] @ concat (map escape_point (the_default [] (points s))) @ [qt]"

definition json_number :: "rat \<Rightarrow> string" where
  "json_number q = (if of_int \<lfloor>q\<rfloor> = q then show_int \<lfloor>q\<rfloor> else show_float q)"

fun json_dumps :: "json \<Rightarrow> string" where
  "json_dumps JNull = ''null''"
| "json_dumps (JBool b) = (if b then ''true'' else ''false'')"
| "json_dumps (JNum q) = json_number q"
| "json_dumps (JStr s) = json_string s"
| "json_dumps (JList js) = ''['' @ join '', '' (map json_dumps js) @ '']''"
| "json_dumps (JObj fs) = ''{'' @ join '', '' (map (\<lambda>(k, j). json_string k @ '': '' @ json_dumps j) fs) @ ''}''"

section \<open>Reading\<close>

definition read_hex4 :: "string \<Rightarrow> (nat \<times> string) option" where
  "read_hex4 s =
     (if 4 \<le> length s \<and> list_all is_hex (take 4 s)
      then Some (fold (\<lambda>c n. 16 * n + hex_val c) (take 4 s) 0, drop 4 s) else None)"

definition short_escapes :: "(char, nat) dict" where
  "short_escapes = [(qt, 34), (bslash, 92), (CHR ''/'', 47), (CHR ''b'', 8), (CHR ''f'', 12), (CHR ''n'', 10),
     (CHR ''r'', 13), (CHR ''t'', 9)]"

definition high_surrogate :: "nat \<Rightarrow> bool" where "high_surrogate n \<longleftrightarrow> 0xD800 \<le> n \<and> n \<le> 0xDBFF"
definition low_surrogate :: "nat \<Rightarrow> bool" where "low_surrogate n \<longleftrightarrow> 0xDC00 \<le> n \<and> n \<le> 0xDFFF"

text \<open>The escape behind a backslash.  A lone surrogate keeps its three-byte form.\<close>

definition read_escape :: "string \<Rightarrow> (string \<times> string) option" where
  "read_escape s =
     (case s of
        [] \<Rightarrow> None
      | c # r \<Rightarrow>
          if c \<noteq> CHR ''u'' then map_option (\<lambda>p. (utf8_point p, r)) (map_of short_escapes c)
          else (case read_hex4 r of
                  None \<Rightarrow> None
                | Some (n, r1) \<Rightarrow>
                    if high_surrogate n \<and> take 2 r1 = [bslash, CHR ''u'']
                    then (case read_hex4 (drop 2 r1) of
                            None \<Rightarrow> None
                          | Some (m, r2) \<Rightarrow>
                              if low_surrogate m
                              then Some (utf8_point (0x10000 + (n - 0xD800) * 1024 + (m - 0xDC00)), r2)
                              else Some (utf8_point n, r1))
                    else Some (utf8_point n, r1)))"

lemma read_escape_shorter: "read_escape s = Some (u, r) \<Longrightarrow> length r < length s"
  by (auto simp: read_escape_def read_hex4_def split: list.splits if_splits option.splits)

function scan_string :: "string \<Rightarrow> (string \<times> string) option" where
  "scan_string s =
     (case s of
        [] \<Rightarrow> None
      | c # r \<Rightarrow>
          if c = qt then Some ([], r)
          else if c = bslash
          then (case read_escape r of
                  None \<Rightarrow> None
                | Some (u, r1) \<Rightarrow> map_option (\<lambda>(t, r2). (u @ t, r2)) (scan_string r1))
          else if code c < 32 then None
          else map_option (\<lambda>(t, r1). (c # t, r1)) (scan_string r))"
  by pat_completeness auto

termination
  by (relation "measure length") (auto dest: read_escape_shorter)

declare scan_string.simps [simp del]

definition skip_ws :: "string \<Rightarrow> string" where
  "skip_ws s = dropWhile (\<lambda>c. c \<in> {CHR '' '', byte 9, byte 10, byte 13}) s"

text \<open>A number: an optional minus, a zero or digits without a leading zero, a fraction, an exponent.\<close>

definition read_digits :: "string \<Rightarrow> string \<times> string" where
  "read_digits s = (takeWhile is_digit s, dropWhile is_digit s)"

definition read_fraction :: "string \<Rightarrow> string \<times> string" where
  "read_fraction s =
     (case s of
        c # r \<Rightarrow> (case read_digits r of (ds, r1) \<Rightarrow> if c = CHR ''.'' \<and> ds \<noteq> [] then (c # ds, r1) else ([], s))
      | [] \<Rightarrow> ([], s))"

definition read_exponent :: "string \<Rightarrow> string \<times> string" where
  "read_exponent s =
     (case s of
        c # r \<Rightarrow>
          (let (sign, r1) = (case r of d # r' \<Rightarrow> if d \<in> {CHR ''+'', CHR ''-''} then ([d], r') else ([], r) | [] \<Rightarrow> ([], r));
               (ds, r2) = read_digits r1
           in if c \<in> {CHR ''e'', CHR ''E''} \<and> ds \<noteq> [] then (c # sign @ ds, r2) else ([], s))
      | [] \<Rightarrow> ([], s))"

definition read_number :: "string \<Rightarrow> (json \<times> string) option" where
  "read_number s =
     (let (sign, r) = (case s of c # r' \<Rightarrow> if c = CHR ''-'' then ([c], r') else ([], s) | [] \<Rightarrow> ([], s));
          (ds, r1) = read_digits r;
          (whole, r2) = (if take 1 ds = ''0'' then (''0'', drop 1 ds @ r1) else (ds, r1));
          (fr, r3) = read_fraction r2;
          (ex, r4) = read_exponent r3
      in if ds = [] then None else map_option (\<lambda>q. (JNum q, r4)) (py_float (sign @ whole @ fr @ ex)))"

definition literals :: "(string \<times> json) list" where
  "literals = [(''null'', JNull), (''true'', JBool True), (''false'', JBool False)]"

definition read_literal :: "string \<Rightarrow> (json \<times> string) option" where
  "read_literal s =
     map_option (\<lambda>(t, j). (j, drop (length t) s)) (find (\<lambda>(t, j). is_prefix t s) literals)"

text \<open>Every step reads at least one character: \<open>json_loads\<close> gives twice the length.\<close>

fun scan_value :: "nat \<Rightarrow> string \<Rightarrow> (json \<times> string) option"
  and scan_items :: "nat \<Rightarrow> string \<Rightarrow> (json list \<times> string) option"
  and scan_members :: "nat \<Rightarrow> string \<Rightarrow> ((string \<times> json) list \<times> string) option" where
  "scan_value 0 s = None"
| "scan_value (Suc n) s =
     (case s of
        [] \<Rightarrow> None
      | c # r \<Rightarrow>
          if c = qt then map_option (\<lambda>(t, r1). (JStr t, r1)) (scan_string r)
          else if c = CHR ''['' then
            (if take 1 (skip_ws r) = '']'' then Some (JList [], drop 1 (skip_ws r))
             else map_option (\<lambda>(js, r1). (JList js, r1)) (scan_items n (skip_ws r)))
          else if c = CHR ''{'' then
            (if take 1 (skip_ws r) = ''}'' then Some (JObj [], drop 1 (skip_ws r))
             else map_option (\<lambda>(fs, r1). (JObj (fold (\<lambda>(k, j). AList.update k j) fs []), r1)) (scan_members n (skip_ws r)))
          else if c = CHR ''-'' \<or> is_digit c then read_number s
          else read_literal s)"
| "scan_items 0 s = None"
| "scan_items (Suc n) s =
     (case scan_value n s of
        None \<Rightarrow> None
      | Some (j, r) \<Rightarrow>
          (case skip_ws r of
             c # r1 \<Rightarrow>
               if c = CHR '']'' then Some ([j], r1)
               else if c = CHR '','' then map_option (\<lambda>(js, r2). (j # js, r2)) (scan_items n (skip_ws r1))
               else None
           | [] \<Rightarrow> None))"
| "scan_members 0 s = None"
| "scan_members (Suc n) s =
     (case s of
        c # r \<Rightarrow>
          (case (if c = qt then scan_string r else None) of
             None \<Rightarrow> None
           | Some (k, r1) \<Rightarrow>
               (case skip_ws r1 of
                  d # r2 \<Rightarrow>
                    (case (if d = CHR '':'' then scan_value n (skip_ws r2) else None) of
                       None \<Rightarrow> None
                     | Some (j, r3) \<Rightarrow>
                         (case skip_ws r3 of
                            e # r4 \<Rightarrow>
                              if e = CHR ''}'' then Some ([(k, j)], r4)
                              else if e = CHR '','' then map_option (\<lambda>(fs, r5). ((k, j) # fs, r5)) (scan_members n (skip_ws r4))
                              else None
                          | [] \<Rightarrow> None))
                | [] \<Rightarrow> None))
      | [] \<Rightarrow> None)"

definition json_loads :: "string \<Rightarrow> json option" where
  "json_loads s =
     (if points s = None then None
      else case scan_value (2 * length s + 2) (skip_ws s) of
          Some (j, r) \<Rightarrow> if skip_ws r = [] then Some j else None
        | None \<Rightarrow> None)"

section \<open>What is written can be read back\<close>

lemma code_byte [simp]: "n < 256 \<Longrightarrow> code (byte n) = n"
  by (simp add: code_def byte_def)

lemma byte_code [simp]: "byte (code c) = c"
  by (simp add: byte_def code_def)

lemma code_less: "code c < 256"
  by (simp add: code_def)

lemma tail_byteE: "tail_byte c \<Longrightarrow> \<exists>y < 64. code c = 0x80 + y"
  by (rule exI [of _ "code c - 0x80"]) (auto simp: tail_byte_def)

lemma tail_code: "code c = 0x80 + y \<Longrightarrow> c = byte (0x80 + y)"
  by (metis byte_code)

lemma utf8_two:
  assumes "code a = 0xC0 + x" "tail_byte b" "p = x * 64 + (code b - 0x80)" "x < 32" "0x80 \<le> p"
  shows "[a, b] = utf8_point p \<and> is_scalar p"
proof -
  obtain y where y: "y < 64" "code b = 0x80 + y" using tail_byteE [OF assms(2)] by blast
  have p: "p = x * 64 + y" using assms(3) y(2) by simp
  have "p div 64 = x" "p mod 64 = y" "p < 0x800" using y(1) assms(4) unfolding p by (simp_all add: algebra_simps)
  moreover have "a = byte (0xC0 + x)" using assms(1) by (metis byte_code)
  ultimately show ?thesis
    using assms(5) tail_code [OF y(2)] by (simp add: utf8_point_def is_scalar_def)
qed

lemma utf8_three:
  assumes "code a = 0xE0 + x" "tail_byte b" "tail_byte c" "x < 16"
    and "p = x * 4096 + (code b - 0x80) * 64 + (code c - 0x80)" "0x800 \<le> p"
  shows "[a, b, c] = utf8_point p"
proof -
  obtain y where y: "y < 64" "code b = 0x80 + y" using tail_byteE [OF assms(2)] by blast
  obtain z where z: "z < 64" "code c = 0x80 + z" using tail_byteE [OF assms(3)] by blast
  have p: "p = x * 4096 + y * 64 + z" using assms(5) y(2) z(2) by simp
  have "p div 64 = x * 64 + y" using z(1) unfolding p by simp
  then have "p div 64 mod 64 = y" "p div 64 div 64 = x" using y(1) by simp_all
  then have "p div 4096 = x" by (simp add: div_mult2_eq [symmetric])
  moreover have "p mod 64 = z" "p < 0x10000" using y(1) z(1) assms(4) unfolding p by (simp_all add: mod_add_eq [symmetric])
  moreover have "a = byte (0xE0 + x)" using assms(1) by (metis byte_code)
  ultimately show ?thesis using assms(6) \<open>p div 64 mod 64 = y\<close> tail_code [OF y(2)] tail_code [OF z(2)]
    by (simp add: utf8_point_def)
qed

lemma utf8_four:
  assumes "code a = 0xF0 + x" "tail_byte b" "tail_byte c" "tail_byte e"
    and "p = x * 262144 + (code b - 0x80) * 4096 + (code c - 0x80) * 64 + (code e - 0x80)" "0x10000 \<le> p"
  shows "[a, b, c, e] = utf8_point p"
proof -
  obtain y where y: "y < 64" "code b = 0x80 + y" using tail_byteE [OF assms(2)] by blast
  obtain z where z: "z < 64" "code c = 0x80 + z" using tail_byteE [OF assms(3)] by blast
  obtain w where w: "w < 64" "code e = 0x80 + w" using tail_byteE [OF assms(4)] by blast
  have p: "p = x * 262144 + y * 4096 + z * 64 + w" using assms(5) y(2) z(2) w(2) by simp
  have "p div 64 = x * 4096 + y * 64 + z" using w(1) unfolding p by simp
  then have c: "p div 64 mod 64 = z" "p div 64 div 64 = x * 64 + y" using z(1) by (simp_all add: mod_add_eq [symmetric])
  then have "p div 4096 = x * 64 + y" by (simp add: div_mult2_eq [symmetric])
  then have b: "p div 4096 mod 64 = y" "p div 4096 div 64 = x" using y(1) by simp_all
  then have "p div 262144 = x" by (simp add: div_mult2_eq [symmetric])
  moreover have "p mod 64 = w" using w(1) unfolding p by (simp add: mod_add_eq [symmetric])
  moreover have "a = byte (0xF0 + x)" using assms(1) by (metis byte_code)
  ultimately show ?thesis using assms(6) b(1) c(1) tail_code [OF y(2)] tail_code [OF z(2)] tail_code [OF w(2)]
    by (simp add: utf8_point_def)
qed

lemma first_point_utf8:
  assumes "first_point s = Some (p, r)"
  shows "s = utf8_point p @ r \<and> is_scalar p"
proof (cases s)
  case (Cons a t)
  consider (one) "code a < 0x80" | (two) "0x80 \<le> code a" "code a < 0xE0" | (three) "0xE0 \<le> code a" "code a < 0xF0" | (four) "0xF0 \<le> code a"
    by linarith
  then show ?thesis
  proof cases
    case one
    then show ?thesis using assms byte_code [of a] by (auto simp: Cons utf8_point_def is_scalar_def)
  next
    case two
    then obtain b where b: "t = b # r" "p = (code a - 0xC0) * 64 + (code b - 0x80)" "0xC0 \<le> code a" "tail_byte b" "0x80 \<le> p"
      using assms by (auto simp: Cons Let_def split: list.splits if_splits)
    have "[a, b] = utf8_point p \<and> is_scalar p"
      by (rule utf8_two [OF _ b(4) b(2) _ b(5)]) (use two b(3) in simp_all)
    then show ?thesis using b(1) by (metis Cons append_Cons append_Nil)
  next
    case three
    then obtain b c where b: "t = b # c # r" "p = (code a - 0xE0) * 4096 + (code b - 0x80) * 64 + (code c - 0x80)"
        "tail_byte b" "tail_byte c" "0x800 \<le> p" "is_scalar p"
      using assms by (auto simp: Cons Let_def split: list.splits if_splits)
    have "[a, b, c] = utf8_point p"
      by (rule utf8_three [OF _ b(3,4) _ b(2,5)]) (use three in simp_all)
    then show ?thesis using b(1,6) by (metis Cons append_Cons append_Nil)
  next
    case four
    then obtain b c e where b: "t = b # c # e # r" "p = (code a - 0xF0) * 262144 + (code b - 0x80) * 4096 + (code c - 0x80) * 64 + (code e - 0x80)"
        "tail_byte b" "tail_byte c" "tail_byte e" "0x10000 \<le> p" "is_scalar p"
      using assms by (auto simp: Cons Let_def split: list.splits if_splits)
    have "[a, b, c, e] = utf8_point p"
      by (rule utf8_four [OF _ b(3,4,5) b(2,6)]) (use four in simp)
    then show ?thesis using b(1,7) by (metis Cons append_Cons append_Nil)
  qed
qed (use assms in simp)

lemma points_utf8: "points s = Some ps \<Longrightarrow> s = concat (map utf8_point ps) \<and> list_all is_scalar ps"
proof (induction s arbitrary: ps rule: points.induct)
  case (1 s)
  show ?case
  proof (cases "s = []")
    case False
    then obtain p r qs where "first_point s = Some (p, r)" "points r = Some qs" "ps = p # qs"
      using 1(2) by (subst (asm) points.simps) (auto split: option.splits)
    with 1(1) [OF False] first_point_utf8 show ?thesis by fastforce
  qed (use 1(2) in \<open>simp add: points.simps\<close>)
qed

lemma hex_digit_value:
  "d < 16 \<Longrightarrow> hex_val (char_of (if d < 10 then 48 + d else 87 + d)) = d \<and> is_hex (char_of (if d < 10 then 48 + d else 87 + d))"
proof -
  have "\<forall>d \<in> set [0..<16]. hex_val (char_of (if d < 10 then 48 + d else 87 + d)) = d \<and> is_hex (char_of (if d < 10 then 48 + d else 87 + d))"
    by code_simp
  then show "d < 16 \<Longrightarrow> ?thesis" by simp
qed

lemma read_hex4_hex4:
  assumes "n < 65536" shows "read_hex4 (hex4 n @ r) = Some (n, r)"
proof -
  have d: "n div k mod 16 < 16" for k by simp
  have len: "take 4 (hex4 n @ r) = hex4 n" "drop 4 (hex4 n @ r) = r" "4 \<le> length (hex4 n @ r)" by (simp_all add: hex4_def)
  have h: "is_hex (char_of (if n div k mod 16 < 10 then 48 + n div k mod 16 else 87 + n div k mod 16))" for k
    using hex_digit_value [OF d] by blast
  have hex: "list_all is_hex (hex4 n)"
    unfolding hex4_def list.map list.pred_inject(2) by (intro conjI h list.pred_inject(1))
  have "fold (\<lambda>c m. 16 * m + hex_val c) (hex4 n) 0 =
      16 * (16 * (16 * (n div 4096 mod 16) + n div 256 mod 16) + n div 16 mod 16) + n mod 16"
    using hex_digit_value [OF d [of 4096]] hex_digit_value [OF d [of 256]] hex_digit_value [OF d [of 16]]
      hex_digit_value [OF d [of 1]] by (simp add: hex4_def del: One_nat_def)
  also have "n div 4096 mod 16 = n div 4096" using assms by simp
  also have "16 * (n div 4096) + n div 256 mod 16 = n div 256"
    using mult_div_mod_eq [of 16 "n div 256"] by (simp add: div_mult2_eq [symmetric])
  also have "16 * (n div 256) + n div 16 mod 16 = n div 16"
    using mult_div_mod_eq [of 16 "n div 16"] by (simp add: div_mult2_eq [symmetric])
  also have "16 * (n div 16) + n mod 16 = n" by (rule mult_div_mod_eq)
  finally show ?thesis using hex len(3) unfolding read_hex4_def len(1,2) by simp
qed

lemma scan_plain: "c \<noteq> qt \<Longrightarrow> c \<noteq> bslash \<Longrightarrow> 32 \<le> code c \<Longrightarrow> scan_string (c # r) = map_option (\<lambda>(t, r1). (c # t, r1)) (scan_string r)"
  by (subst scan_string.simps) simp

lemma scan_escaped:
  "read_escape s = Some (u, r) \<Longrightarrow> scan_string (bslash # s) = map_option (\<lambda>(t, r2). (u @ t, r2)) (scan_string r)"
  by (subst scan_string.simps) (simp add: qt_def bslash_def)

lemma read_escape_hex:
  assumes "n < 65536" and "\<not> high_surrogate n \<or> take 2 r \<noteq> [bslash, CHR ''u'']"
  shows "read_escape (CHR ''u'' # hex4 n @ r) = Some (utf8_point n, r)"
  using assms by (auto simp: read_escape_def read_hex4_hex4)

lemma read_escape_pair:
  assumes "0x10000 \<le> p" and "p < 0x110000"
  shows "read_escape (CHR ''u'' # hex4 (0xD800 + (p - 0x10000) div 1024) @ bslash # CHR ''u'' # hex4 (0xDC00 + (p - 0x10000) mod 1024) @ r)
     = Some (utf8_point p, r)"
proof -
  have "high_surrogate (0xD800 + (p - 0x10000) div 1024)" "low_surrogate (0xDC00 + (p - 0x10000) mod 1024)"
    using assms by (auto simp: high_surrogate_def low_surrogate_def)
  moreover have "0xD800 + (p - 0x10000) div 1024 < 65536" "0xDC00 + (p - 0x10000) mod 1024 < 65536" using assms by auto
  moreover have "0x10000 + (p - 0x10000) div 1024 * 1024 + (p - 0x10000) mod 1024 = p" using assms(1) by simp
  ultimately show ?thesis by (simp add: read_escape_def read_hex4_hex4 numeral_2_eq_2)
qed

lemma short_escape:
  "map_of short_escapes c = Some p \<Longrightarrow> c \<noteq> CHR ''u'' \<Longrightarrow> read_escape (c # r) = Some (utf8_point p, r)"
  by (simp add: read_escape_def)

lemma scan_point:
  assumes "is_scalar p"
  shows "scan_string (escape_point p @ r) = map_option (\<lambda>(t, r1). (utf8_point p @ t, r1)) (scan_string r)"
proof -
  have code: "code qt = 34" "code bslash = 92" by (simp_all add: qt_def bslash_def code_def)
  consider (short) c where "escape_point p = [bslash, c]" "map_of short_escapes c = Some p" "c \<noteq> CHR ''u''"
    | (plain) "escape_point p = [byte p]" "32 \<le> p" "p < 127" "p \<noteq> 34" "p \<noteq> 92"
    | (small) "escape_point p = bslash # CHR ''u'' # hex4 p" "p < 65536"
    | (large) "escape_point p = bslash # CHR ''u'' # hex4 (0xD800 + (p - 0x10000) div 1024) @
           bslash # CHR ''u'' # hex4 (0xDC00 + (p - 0x10000) mod 1024)" "0x10000 \<le> p"
  proof (cases "p \<in> set [34, 92, 8, 9, 10, 12, 13]")
    case True
    have "\<forall>q \<in> set [34, 92, 8, 9, 10, 12, 13]. (case escape_point q of
        [b, c] \<Rightarrow> b = bslash \<and> map_of short_escapes c = Some q \<and> c \<noteq> CHR ''u'' | _ \<Rightarrow> False)" by code_simp
    with True have "case escape_point p of
        [b, c] \<Rightarrow> b = bslash \<and> map_of short_escapes c = Some p \<and> c \<noteq> CHR ''u'' | _ \<Rightarrow> False" by blast
    then show thesis by (auto intro: short split: list.splits)
  next
    case False
    then show thesis
      by (cases "32 \<le> p \<and> p < 127"; cases "p < 65536")
        (auto simp: escape_point_def code intro: plain small large)
  qed
  then show ?thesis
  proof cases
    case short
    show ?thesis unfolding short(1) by (simp add: scan_escaped [OF short_escape [OF short(2,3)]])
  next
    case plain
    have "code (byte p) = p" using plain by simp
    then have "byte p \<noteq> qt" "byte p \<noteq> bslash" using plain(4,5) code by metis+
    then show ?thesis using plain by (simp add: scan_plain utf8_point_def)
  next
    case small
    have "\<not> high_surrogate p" using assms by (auto simp: is_scalar_def high_surrogate_def)
    then show ?thesis using small by (simp add: scan_escaped [OF read_escape_hex])
  next
    case large
    then show ?thesis using assms by (simp add: is_scalar_def scan_escaped [OF read_escape_pair])
  qed
qed

lemma scan_json_string:
  assumes "points s \<noteq> None"
  shows "scan_string (tl (json_string s) @ r) = Some (s, r)"
proof -
  obtain ps where ps: "points s = Some ps" using assms by blast
  have "scan_string (concat (map escape_point qs) @ qt # r) = Some (concat (map utf8_point qs), r)" if "list_all is_scalar qs" for qs
    using that by (induction qs) (simp add: scan_string.simps, simp add: scan_point)
  then have "scan_string (concat (map escape_point ps) @ qt # r) = Some (s, r)" using points_utf8 [OF ps] by metis
  then show ?thesis by (simp add: json_string_def ps the_default_def)
qed

section \<open>Round trip\<close>

text \<open>What has a text: integral numbers, proper text, and dictionaries with distinct keys.\<close>

fun storable :: "json \<Rightarrow> bool" where
  "storable JNull \<longleftrightarrow> True"
| "storable (JBool b) \<longleftrightarrow> True"
| "storable (JNum q) \<longleftrightarrow> of_int \<lfloor>q\<rfloor> = q"
| "storable (JStr s) \<longleftrightarrow> points s \<noteq> None"
| "storable (JList js) \<longleftrightarrow> list_all storable js"
| "storable (JObj fs) \<longleftrightarrow> distinct (map fst fs) \<and> list_all (\<lambda>(k, j). points k \<noteq> None \<and> storable j) fs"

text \<open>What may follow a value inside a text.\<close>

definition ends :: "string \<Rightarrow> bool" where
  "ends r \<longleftrightarrow> (case r of [] \<Rightarrow> True | c # _ \<Rightarrow> c \<in> {CHR '','', CHR '']'', CHR ''}''})"

lemma digits_plain:
  assumes "list_all is_digit ds"
  shows "strip ds = ds" "strip (CHR ''-'' # ds) = CHR ''-'' # ds" "lower ds = ds" "dropWhile (\<lambda>c. c \<noteq> CHR ''e'') ds = []" "dropWhile (\<lambda>c. c \<noteq> CHR ''.'') ds = []"
proof -
  have d: "\<not> is_space c \<and> lower_char c = c \<and> c \<noteq> CHR ''e'' \<and> c \<noteq> CHR ''.''" if "c \<in> set ds" for c
    using that assms by (auto simp: list_all_iff is_digit_def is_space_def lower_char_def is_upper_def code_def)
  have "\<not> is_space (CHR ''-'')" by (simp add: is_space_def code_def)
  moreover have "dropWhile is_space ds = ds" "dropWhile is_space (rev ds) = rev ds"
    using d by (auto simp: dropWhile_eq_self_iff last_in_set hd_rev)
  moreover have "dropWhile is_space (rev ds @ [CHR ''-'']) = rev ds @ [CHR ''-'']"
    using d \<open>\<not> is_space (CHR ''-'')\<close> by (cases "ds = []") (auto simp: dropWhile_eq_self_iff last_in_set hd_append hd_rev)
  ultimately show "strip ds = ds" "strip (CHR ''-'' # ds) = CHR ''-'' # ds"
    by (simp_all add: strip_def rstrip_def lstrip_def)
  show "lower ds = ds" using d by (simp add: lower_def map_idI)
  show "dropWhile (\<lambda>c. c \<noteq> CHR ''e'') ds = []" "dropWhile (\<lambda>c. c \<noteq> CHR ''.'') ds = []" using d by auto
qed

lemma unsigned_float_digits: "unsigned_float (show_nat n) = Some (of_nat n)"
proof -
  note p = digits_plain [OF show_nat_digits_only(2)]
  show ?thesis
    using show_nat_digits_only(1) [of n]
    by (simp add: unsigned_float_def p partition_on_def mantissa_def py_nat_digits_def py_digits_show_nat)
qed

lemma digit_not_sign: "is_digit c \<Longrightarrow> c \<noteq> CHR ''-'' \<and> c \<noteq> CHR ''+''"
  by (auto simp: is_digit_def code_def)

lemma py_float_show_int: "py_float (show_int k) = Some (of_int k)"
proof -
  note p = digits_plain [OF show_nat_digits_only(2)]
  have plain: "PyText.signed unsigned_float (show_nat n) = unsigned_float (show_nat n)" for n
    using show_nat_digits_only [of n] digit_not_sign by (cases "show_nat n") (auto simp: PyText.signed_def)
  have minus: "PyText.signed unsigned_float (CHR ''-'' # ds) = map_option uminus (unsigned_float ds)" for ds
    by (simp add: PyText.signed_def)
  show ?thesis
    by (simp add: py_float_def show_int_def p plain minus unsigned_float_digits)
qed

lemma take_while_digits:
  assumes "ends r" shows "takeWhile is_digit (show_nat n @ r) = show_nat n" "dropWhile is_digit (show_nat n @ r) = r"
proof -
  have "\<And>c. c \<in> set (show_nat n) \<Longrightarrow> is_digit c" using show_nat_digits_only(2) [of n] by (simp add: list_all_iff)
  moreover have "takeWhile is_digit r = []" "dropWhile is_digit r = r"
    using assms by (auto simp: ends_def is_digit_def code_def split: list.splits)
  ultimately show "takeWhile is_digit (show_nat n @ r) = show_nat n" "dropWhile is_digit (show_nat n @ r) = r"
    by simp_all
qed

lemma show_nat_zero: "take 1 (show_nat n) = ''0'' \<Longrightarrow> show_nat n = ''0''"
proof (cases n)
  case (Suc m)
  then have "hd (show_nat n) \<noteq> CHR ''0''" using show_nat_hd [of n "Suc n"] by (simp add: show_nat_def del: show_nat_aux.simps)
  moreover assume "take 1 (show_nat n) = ''0''"
  ultimately show ?thesis by (cases "show_nat n") auto
qed (simp add: show_nat_def)

lemma read_show_nat:
  assumes "ends r"
  shows "read_number (show_nat n @ r) = map_option (\<lambda>q. (JNum q, r)) (py_float (show_nat n))"
    and "read_number (CHR ''-'' # show_nat n @ r) = map_option (\<lambda>q. (JNum q, r)) (py_float (CHR ''-'' # show_nat n))"
proof -
  have f: "read_fraction r = ([], r)" "read_exponent r = ([], r)"
    using assms by (auto simp: read_fraction_def read_exponent_def ends_def Let_def split: list.splits prod.splits)
  obtain c cs where s: "show_nat n = c # cs" "is_digit c"
    using show_nat_digits_only [of n] by (cases "show_nat n") auto
  note d = take_while_digits [OF assms, of n]
  show "read_number (show_nat n @ r) = map_option (\<lambda>q. (JNum q, r)) (py_float (show_nat n))"
    using digit_not_sign [OF s(2)] d show_nat_zero [of n] f
    by (auto simp: read_number_def read_digits_def Let_def s(1))
  show "read_number (CHR ''-'' # show_nat n @ r) = map_option (\<lambda>q. (JNum q, r)) (py_float (CHR ''-'' # show_nat n))"
    using d show_nat_zero [of n] f by (auto simp: read_number_def read_digits_def Let_def s(1))
qed

lemma read_show_int: "ends r \<Longrightarrow> read_number (show_int k @ r) = Some (JNum (of_int k), r)"
  using read_show_nat [of r "nat k"] read_show_nat [of r "nat (- k)"] py_float_show_int [of k]
  by (simp add: show_int_def split: if_splits)

lemma skip_space [simp]: "skip_ws (CHR '' '' # s) = skip_ws s"
  by (simp add: skip_ws_def)

definition starts :: "string \<Rightarrow> bool" where
  "starts s \<longleftrightarrow> s \<noteq> [] \<and> skip_ws s = s \<and> hd s \<notin> {CHR '']'', CHR ''}''}"

lemma startsI: "c \<notin> {CHR '' '', byte 9, byte 10, byte 13, CHR '']'', CHR ''}''} \<Longrightarrow> starts (c # s)"
  by (simp add: starts_def skip_ws_def)

lemma control_bytes: "byte 9 = CHR 0x09" "byte 10 = CHR 0x0A" "byte 13 = CHR 0x0D"
  by code_simp+

lemma starts_string: "starts (json_string s @ r)"
  by (simp add: json_string_def, rule startsI) (simp add: qt_def control_bytes)

lemma starts_show_int: "starts (show_int k @ r)"
proof -
  have n: "starts (show_nat n @ t)" for n t
  proof -
    obtain c cs where "show_nat n = c # cs" "is_digit c" using show_nat_digits_only [of n] by (cases "show_nat n") auto
    moreover from this have "starts (c # cs @ t)"
      by (intro startsI) (auto simp: is_digit_def code_def control_bytes)
    ultimately show ?thesis by simp
  qed
  have "starts (CHR ''-'' # show_nat m @ r)" for m by (rule startsI) (simp add: control_bytes)
  with n show ?thesis by (simp add: show_int_def)
qed

lemma starts_dumps: "storable j \<Longrightarrow> starts (json_dumps j @ r)"
  by (cases j) (auto simp: starts_string starts_show_int json_number_def control_bytes intro!: startsI)

lemma starts_skip: "starts s \<Longrightarrow> skip_ws s = s" by (simp add: starts_def)

lemma starts_first: "starts s \<Longrightarrow> skip_ws s = s \<and> take 1 s \<noteq> '']'' \<and> take 1 s \<noteq> ''}''"
  by (cases s) (auto simp: starts_def)

lemma ends_skip: "ends r \<Longrightarrow> r = c # s \<Longrightarrow> skip_ws r = r"
  by (auto simp: ends_def skip_ws_def control_bytes)

lemma rebuilt:
  "distinct (map fst fs) \<Longrightarrow> fst ` set fs \<inter> fst ` set acc = {} \<Longrightarrow> fold (\<lambda>(k, j). AList.update k j) fs acc = acc @ fs"
proof (induction fs arbitrary: acc)
  case (Cons p fs)
  have "AList.update (fst p) (snd p) acc = acc @ [p]"
    using Cons.prems(2) by (induction acc) auto
  moreover have "fold (\<lambda>(k, j). AList.update k j) fs (acc @ [p]) = (acc @ [p]) @ fs"
    using Cons.prems by (intro Cons.IH) auto
  ultimately show ?case by (cases p) simp
qed simp

lemma skip_mark [simp]:
  "skip_ws (CHR '','' # s) = CHR '','' # s" "skip_ws (CHR '']'' # s) = CHR '']'' # s"
  "skip_ws (CHR ''}'' # s) = CHR ''}'' # s" "skip_ws (CHR '':'' # s) = CHR '':'' # s"
  by (simp_all add: skip_ws_def control_bytes)

definition item_text :: "json list \<Rightarrow> string" where
  "item_text js = join '', '' (map json_dumps js)"

definition member_text :: "(string \<times> json) list \<Rightarrow> string" where
  "member_text fs = join '', '' (map (\<lambda>(k, j). json_string k @ '': '' @ json_dumps j) fs)"

definition reads_back :: "json \<Rightarrow> bool" where
  "reads_back j \<longleftrightarrow> (\<forall>n r. length (json_dumps j) \<le> n \<longrightarrow> ends r \<longrightarrow> scan_value n (json_dumps j @ r) = Some (j, r))"

lemma item_text_Cons: "item_text (j # js) = json_dumps j @ (if js = [] then [] else '', '' @ item_text js)"
  by (cases js) (simp_all add: item_text_def)

lemma member_text_Cons:
  "member_text ((k, j) # fs) = json_string k @ '': '' @ json_dumps j @ (if fs = [] then [] else '', '' @ member_text fs)"
  by (cases fs) (simp_all add: member_text_def)

lemma starts_items: "js \<noteq> [] \<Longrightarrow> list_all storable js \<Longrightarrow> starts (item_text js @ r)"
  by (cases js) (auto simp: item_text_Cons starts_dumps)

lemma starts_members: "fs \<noteq> [] \<Longrightarrow> starts (member_text fs @ r)"
  by (cases fs; cases "hd fs") (auto simp: member_text_Cons starts_string)

lemma scan_item_text:
  assumes "js \<noteq> []" and "\<forall>j \<in> set js. storable j \<and> reads_back j" and "Suc (length (item_text js)) \<le> n"
  shows "scan_items n (item_text js @ '']'' @ r) = Some (js, r)"
  using assms
proof (induction js arbitrary: n)
  case (Cons j js)
  obtain m where n: "n = Suc m" using Cons.prems(3) by (cases n) auto
  have fuel: "length (json_dumps j) \<le> m" using Cons.prems(3) by (simp add: n item_text_Cons)
  show ?case
  proof (cases "js = []")
    case True
    have "scan_value m (json_dumps j @ '']'' @ r) = Some (j, '']'' @ r)"
      using Cons.prems(2) fuel by (simp add: reads_back_def ends_def)
    then show ?thesis using True by (simp add: n item_text_Cons)
  next
    case False
    have "scan_value m (json_dumps j @ '', '' @ item_text js @ '']'' @ r) = Some (j, '', '' @ item_text js @ '']'' @ r)"
      using Cons.prems(2) fuel by (simp add: reads_back_def ends_def)
    moreover have "skip_ws (item_text js @ '']'' @ r) = item_text js @ '']'' @ r"
      using False Cons.prems(2) by (intro starts_skip starts_items) (auto simp: list_all_iff)
    moreover have "scan_items m (item_text js @ '']'' @ r) = Some (js, r)"
      using Cons.prems False by (intro Cons.IH) (auto simp: n item_text_Cons)
    ultimately show ?thesis using False by (simp add: n item_text_Cons)
  qed
qed simp

lemma scan_member_text:
  assumes "fs \<noteq> []" and "\<forall>(k, j) \<in> set fs. points k \<noteq> None \<and> storable j \<and> reads_back j" and "Suc (length (member_text fs)) \<le> n"
  shows "scan_members n (member_text fs @ ''}'' @ r) = Some (fs, r)"
  using assms
proof (induction fs arbitrary: n)
  case (Cons p fs)
  obtain k j where p: "p = (k, j)" by (cases p)
  obtain m where n: "n = Suc m" using Cons.prems(3) by (cases n) auto
  have fuel: "length (json_dumps j) \<le> m" using Cons.prems(3) by (simp add: n p member_text_Cons)
  have kj: "points k \<noteq> None" "storable j" "reads_back j" using Cons.prems(2) by (simp_all add: p)
  have key: "json_string k @ t = qt # tl (json_string k) @ t" "scan_string (tl (json_string k) @ t) = Some (k, t)" for t
    using scan_json_string [OF kj(1)] by (simp_all add: json_string_def)
  have val: "scan_value m (json_dumps j @ t) = Some (j, t)" if "ends t" for t
    using kj(3) fuel that by (simp add: reads_back_def)
  have first: "skip_ws (json_dumps j @ t) = json_dumps j @ t" for t
    by (rule starts_skip [OF starts_dumps [OF kj(2)]])
  show ?case
  proof (cases "fs = []")
    case True
    then show ?thesis using val [of "''}'' @ r"] by (simp add: n p member_text_Cons key first ends_def)
  next
    case False
    have "skip_ws (member_text fs @ ''}'' @ r) = member_text fs @ ''}'' @ r"
      using False by (intro starts_skip starts_members)
    moreover have "scan_members m (member_text fs @ ''}'' @ r) = Some (fs, r)"
      using Cons.prems False by (intro Cons.IH) (auto simp: n p member_text_Cons)
    ultimately show ?thesis using False val [of "'', '' @ member_text fs @ ''}'' @ r"]
      by (simp add: n p member_text_Cons key first ends_def)
  qed
qed simp

lemma reads_back_dumps: "storable j \<Longrightarrow> reads_back j"
proof (induction j rule: json_dumps.induct)
  case (3 q)
  have "scan_value n (show_int k @ r) = Some (JNum (of_int k), r)"
    if "length (show_int k) \<le> n" "ends r" for n r k
  proof -
    have "show_int k \<noteq> []" using show_nat_digits_only(1) by (simp add: show_int_def)
    then have "n \<noteq> 0" using that(1) by (cases "show_int k") auto
    then obtain m where "n = Suc m" using not0_implies_Suc by blast
    moreover obtain c cs where c: "show_int k = c # cs" using \<open>show_int k \<noteq> []\<close> by (cases "show_int k") auto
    moreover have d: "c = CHR ''-'' \<or> is_digit c"
      using c show_nat_digits_only(2) [of "nat k"] by (auto simp: show_int_def split: if_splits)
    moreover have "c \<notin> {qt, CHR ''['', CHR ''{''}" using d by (auto simp: qt_def is_digit_def code_def)
    ultimately show ?thesis using read_show_int [OF that(2), of k] by auto
  qed
  then show ?case using 3 by (simp add: reads_back_def json_number_def)
next
  case (4 s)
  then have "scan_value n (json_string s @ r) = Some (JStr s, r)" if "length (json_string s) \<le> n" for n r
    using scan_json_string [of s r] that by (cases n) (auto simp: json_string_def)
  then show ?case by (simp add: reads_back_def)
next
  case (5 js)
  have all: "\<forall>j \<in> set js. storable j \<and> reads_back j" using 5 by (auto simp: list_all_iff)
  show ?case
  proof (cases "js = []")
    case False
    have "scan_value n (CHR ''['' # item_text js @ '']'' @ r) = Some (JList js, r)"
      if fuel: "Suc (Suc (length (item_text js))) \<le> n" for n r
    proof -
      obtain m where n: "n = Suc m" using Suc_le_D [OF fuel] by blast
      have "starts (item_text js @ '']'' @ r)" using False all by (intro starts_items) (auto simp: list_all_iff)
      then have "skip_ws (item_text js @ '']'' @ r) = item_text js @ '']'' @ r" "take 1 (item_text js @ '']'' @ r) \<noteq> '']''"
        using starts_first by blast+
      moreover have "scan_items m (item_text js @ '']'' @ r) = Some (js, r)"
        using fuel by (intro scan_item_text [OF False all]) (simp add: n)
      ultimately show ?thesis by (simp add: n qt_def)
    qed
    then show ?thesis by (simp add: reads_back_def item_text_def)
  qed (auto simp: reads_back_def qt_def dest!: Suc_le_D)
next
  case (6 fs)
  have all: "\<forall>(k, j) \<in> set fs. points k \<noteq> None \<and> storable j \<and> reads_back j" using 6 by (auto simp: list_all_iff)
  show ?case
  proof (cases "fs = []")
    case False
    have "scan_value n (CHR ''{'' # member_text fs @ ''}'' @ r) = Some (JObj fs, r)"
      if fuel: "Suc (Suc (length (member_text fs))) \<le> n" for n r
    proof -
      obtain m where n: "n = Suc m" using Suc_le_D [OF fuel] by blast
      have "starts (member_text fs @ ''}'' @ r)" using False by (rule starts_members)
      then have "skip_ws (member_text fs @ ''}'' @ r) = member_text fs @ ''}'' @ r" "take 1 (member_text fs @ ''}'' @ r) \<noteq> ''}''"
        using starts_first by blast+
      moreover have "scan_members m (member_text fs @ ''}'' @ r) = Some (fs, r)"
        using fuel by (intro scan_member_text [OF False all]) (simp add: n)
      moreover have "fold (\<lambda>(k, j). AList.update k j) fs [] = fs" using rebuilt [of fs "[]"] 6 by simp
      ultimately show ?thesis by (simp add: n qt_def)
    qed
    then show ?thesis by (simp add: reads_back_def member_text_def)
  qed (auto simp: reads_back_def qt_def dest!: Suc_le_D)
qed (auto simp: reads_back_def qt_def is_digit_def code_def read_literal_def literals_def dest!: Suc_le_D)

section \<open>Written text is ASCII\<close>

definition ascii :: "string \<Rightarrow> bool" where
  "ascii s \<longleftrightarrow> list_all (\<lambda>c. code c < 0x80) s"

lemma ascii_append [simp]: "ascii (s @ t) \<longleftrightarrow> ascii s \<and> ascii t" "ascii (c # s) \<longleftrightarrow> code c < 0x80 \<and> ascii s" "ascii []"
  by (simp_all add: ascii_def)

lemma ascii_points: "ascii s \<Longrightarrow> points s = Some (map code s)"
  by (induction s) (simp_all add: points.simps)

lemma ascii_hex4 [simp]: "ascii (hex4 n)"
proof -
  have "(if d < 10 then 48 + d else 87 + d) < 128" if "d < 16" for d :: nat using that by simp
  then have "code (char_of (if d < 10 then 48 + d else 87 + d)) < 128" if "d < 16" for d :: nat
    using that code_byte [of "if d < 10 then 48 + d else 87 + d"] by (simp add: byte_def)
  then have h: "code (char_of (if n div k mod 16 < 10 then 48 + n div k mod 16 else 87 + n div k mod 16)) < 128" for k
    by simp
  show ?thesis unfolding hex4_def ascii_def list.map list.pred_inject(2) by (intro conjI h list.pred_inject(1))
qed

lemma ascii_marks [simp]: "code qt < 128" "code bslash < 128"
  by (simp_all add: qt_def bslash_def code_def)

lemma ascii_escape [simp]: "ascii (escape_point p)"
  by (simp add: escape_point_def) (simp add: code_def)

lemma ascii_string [simp]: "ascii (json_string s)"
proof -
  have "ascii (concat (map escape_point ps))" for ps by (induction ps) simp_all
  then show ?thesis by (simp add: json_string_def)
qed

lemma ascii_digits: "list_all is_digit s \<Longrightarrow> ascii s"
  by (induction s) (auto simp: is_digit_def)

lemma ascii_show_int [simp]: "ascii (show_int k)"
  using ascii_digits [OF show_nat_digits_only(2)] by (simp add: show_int_def code_def)

lemma ascii_join: "ascii sep \<Longrightarrow> list_all ascii ss \<Longrightarrow> ascii (join sep ss)"
  by (induction ss rule: induct_list012) simp_all

lemma ascii_dumps: "storable j \<Longrightarrow> ascii (json_dumps j)"
proof (induction j rule: json_dumps.induct)
  case (5 js)
  then have "ascii (join '', '' (map json_dumps js))"
    by (intro ascii_join) (auto simp: list_all_iff code_def)
  then show ?case by (simp add: code_def)
next
  case (6 fs)
  then have "ascii (join '', '' (map (\<lambda>(k, j). json_string k @ '': '' @ json_dumps j) fs))"
    by (intro ascii_join) (auto simp: list_all_iff code_def)
  then show ?case by (simp add: code_def)
qed (auto simp: json_number_def code_def)

text \<open>The text of a value, read back, is the value.\<close>

theorem json_round_trip:
  assumes "storable j" shows "json_loads (json_dumps j) = Some j"
proof -
  have "points (json_dumps j) \<noteq> None" using ascii_points [OF ascii_dumps [OF assms]] by simp
  moreover have "skip_ws (json_dumps j) = json_dumps j"
    using starts_skip [OF starts_dumps [OF assms, of "[]"]] by simp
  moreover have "scan_value (2 * length (json_dumps j) + 2) (json_dumps j) = Some (j, [])"
    using reads_back_dumps [OF assms] unfolding reads_back_def by (metis add_increasing2 append_Nil2 ends_def le_add1 list.case(1) mult_2 zero_le)
  ultimately show ?thesis by (simp add: json_loads_def skip_ws_def)
qed

section \<open>Decoding with replacement\<close>

text \<open>
  \<open>bytes.decode("utf-8", errors="replace")\<close>: U+FFFD for every longest beginning of a character that is not completed.
\<close>

definition cont_in :: "nat \<Rightarrow> nat \<Rightarrow> string \<Rightarrow> bool" where
  "cont_in lo hi s \<longleftrightarrow> (case s of [] \<Rightarrow> False | c # _ \<Rightarrow> lo \<le> code c \<and> code c \<le> hi)"

definition second_ok :: "nat \<Rightarrow> string \<Rightarrow> bool" where
  "second_ok b s \<longleftrightarrow>
     (if b = 0xE0 then cont_in 0xA0 0xBF s else if b = 0xED then cont_in 0x80 0x9F s
      else if b = 0xF0 then cont_in 0x90 0xBF s else if b = 0xF4 then cont_in 0x80 0x8F s else cont_in 0x80 0xBF s)"

definition bad_length :: "string \<Rightarrow> nat" where
  "bad_length s =
     (case s of
        [] \<Rightarrow> 1
      | c # r \<Rightarrow>
          if 0xE0 \<le> code c \<and> code c \<le> 0xEF \<and> second_ok (code c) r then 2
          else if 0xF0 \<le> code c \<and> code c \<le> 0xF4 \<and> second_ok (code c) r
          then (if cont_in 0x80 0xBF (drop 1 r) then 3 else 2)
          else 1)"

lemma bad_length_pos: "bad_length s > 0"
  by (simp add: bad_length_def split: list.split)

function decode_replace :: "string \<Rightarrow> string" where
  "decode_replace s =
     (if s = [] then []
      else case first_point s of
             Some (p, r) \<Rightarrow> utf8_point p @ decode_replace r
           | None \<Rightarrow> utf8 [239, 191, 189] @ decode_replace (drop (bad_length s) s))"
  by auto
termination
  by (relation "measure length") (auto dest: first_point_shorter simp: bad_length_pos)

declare decode_replace.simps [simp del]

end
