(* ===== verification/StatusPage.thy ===== *)
theory StatusPage
  imports Json Gateway
begin

text \<open>
  \<open>backend/app/api/status_page.py\<close>: the configuration of the public status page, kept as one JSON
  text among the settings, and the payload that \<open>/api/status-public\<close> gives to anybody.  A day
  stands as its midnight.  The half-minute cache in front of the payload is the subject of theory Cache.
\<close>

section \<open>Configuration\<close>

definition SETTING_KEY :: string where "SETTING_KEY = ''status_page''"

definition default_title :: string where
  "default_title = utf8 [230, 156, 141, 229, 138, 161, 231, 138, 182, 230, 128, 129]"

definition default_description :: string where
  "default_description = utf8 [229, 174, 158, 233, 170, 140, 229, 174, 164] @ '' GPU '' @
     utf8 [233, 155, 134, 231, 190, 164, 229, 133, 172, 229, 188, 128, 231, 138, 182, 230, 128, 129, 233, 161, 181]"

definition DEFAULT_CONFIG :: "(string, json) dict" where
  "DEFAULT_CONFIG =
     [(''title'', JStr default_title), (''description'', JStr default_description), (''server_ids'', JList []),
      (''show_history_days'', JNum 45), (''show_latency'', JBool True), (''show_gpu'', JBool True),
      (''theme'', JStr ''auto''), (''footer'', JStr ''Powered by lab-gpu-server-monitor''), (''published'', JBool False)]"

record page_config =
  pc_title :: string
  pc_description :: string
  pc_server_ids :: "int list"
  pc_show_history_days :: int
  pc_show_latency :: bool
  pc_show_gpu :: bool
  pc_theme :: string
  pc_footer :: string
  pc_published :: bool

text \<open>Lengths count code points.\<close>

definition at_most :: "nat \<Rightarrow> string \<Rightarrow> bool" where
  "at_most n s \<longleftrightarrow> (case points s of None \<Rightarrow> False | Some ps \<Rightarrow> length ps \<le> n)"

definition page_config_ok :: "page_config \<Rightarrow> bool" where
  "page_config_ok b \<longleftrightarrow> at_most 120 (pc_title b) \<and> at_most 500 (pc_description b) \<and> 1 \<le> pc_show_history_days b
     \<and> pc_show_history_days b \<le> 365 \<and> pc_theme b \<in> {''auto'', ''light'', ''dark''} \<and> at_most 300 (pc_footer b)"

definition dumped :: "page_config \<Rightarrow> (string, json) dict" where
  "dumped b =
     [(''title'', JStr (pc_title b)), (''description'', JStr (pc_description b)),
      (''server_ids'', JList (map (\<lambda>i. JNum (of_int i)) (pc_server_ids b))),
      (''show_history_days'', JNum (of_int (pc_show_history_days b))), (''show_latency'', JBool (pc_show_latency b)),
      (''show_gpu'', JBool (pc_show_gpu b)), (''theme'', JStr (pc_theme b)), (''footer'', JStr (pc_footer b)),
      (''published'', JBool (pc_published b))]"

text \<open>\<open>{**a, **b}\<close>\<close>

definition merged :: "('k, 'v) dict \<Rightarrow> ('k, 'v) dict \<Rightarrow> ('k, 'v) dict" where
  "merged a b = fold (\<lambda>(k, v). AList.update k v) b a"

definition load_config :: "db \<Rightarrow> http_error + (string, json) dict" where
  "load_config d =
     (case map_of (d_settings d) SETTING_KEY of
        None \<Rightarrow> Inr DEFAULT_CONFIG
      | Some value \<Rightarrow>
          if value = [] then Inr DEFAULT_CONFIG
          else case json_loads value of
              None \<Rightarrow> Inr DEFAULT_CONFIG
            | Some (JObj cfg) \<Rightarrow> Inr (merged DEFAULT_CONFIG cfg)
            | Some j \<Rightarrow> Inl (Crash ''TypeError''))"

definition save_config :: "(string, json) dict \<Rightarrow> db \<Rightarrow> db" where
  "save_config cfg d = set_setting SETTING_KEY (json_dumps (JObj cfg)) d"

definition get_config :: "db \<Rightarrow> http_error + (string, json) dict \<times> (int \<times> string \<times> bool \<times> string) list" where
  "get_config d =
     map_sum id (\<lambda>cfg. (cfg, map (\<lambda>s. (s_id s, s_name s, s_enabled s, s_server_type s)) (order_by s_id (d_servers d)))) (load_config d)"

definition put_config :: "page_config \<Rightarrow> db \<Rightarrow> (http_error + unit) \<times> db" where
  "put_config b d = (if page_config_ok b then (Inr (), save_config (dumped b) d) else (Inl unprocessable, d))"

definition freshness_limit :: "int \<Rightarrow> db \<Rightarrow> int" where
  "freshness_limit poll_seconds d =
     (let interval = (case map_of (d_settings d) ''poll_interval'' of
            None \<Rightarrow> poll_seconds
          | Some value \<Rightarrow> if value = [] then poll_seconds
                           else case py_int value of Some v \<Rightarrow> max 10 v | None \<Rightarrow> poll_seconds)
      in max 180 (interval * 3))"

section \<open>What a configuration value counts as\<close>

fun truthy :: "json \<Rightarrow> bool" where
  "truthy JNull = False"
| "truthy (JBool b) = b"
| "truthy (JNum q) = (q \<noteq> 0)"
| "truthy (JStr s) = (s \<noteq> [])"
| "truthy (JList js) = (js \<noteq> [])"
| "truthy (JObj fs) = (fs \<noteq> [])"

definition truthy_at :: "(string, json) dict \<Rightarrow> string \<Rightarrow> bool" where
  "truthy_at cfg key = (case map_of cfg key of None \<Rightarrow> False | Some j \<Rightarrow> truthy j)"

fun json_int :: "json \<Rightarrow> int option" where
  "json_int (JNum q) = Some (py_trunc q)"
| "json_int (JBool b) = Some (if b then 1 else 0)"
| "json_int (JStr s) = py_int s"
| "json_int _ = None"

text \<open>\<open>int(cfg.get("show_history_days", 45))\<close>, and the filter by \<open>cfg.get("server_ids") or []\<close>:
  \<open>None\<close> is an exception, \<open>Some None\<close> no filter.\<close>

definition history_days :: "(string, json) dict \<Rightarrow> int option" where
  "history_days cfg = (case map_of cfg ''show_history_days'' of None \<Rightarrow> Some 45 | Some j \<Rightarrow> json_int j)"

fun listed_id :: "json \<Rightarrow> int option" where
  "listed_id (JNum q) = (if of_int \<lfloor>q\<rfloor> = q then Some \<lfloor>q\<rfloor> else None)"
| "listed_id (JBool b) = Some (if b then 1 else 0)"
| "listed_id _ = None"

definition wanted_ids :: "(string, json) dict \<Rightarrow> int list option option" where
  "wanted_ids cfg =
     (if \<not> truthy_at cfg ''server_ids'' then Some None
      else case map_of cfg ''server_ids'' of
          Some (JList js) \<Rightarrow> Some (Some (List.map_filter listed_id js))
        | _ \<Rightarrow> None)"

section \<open>The payload\<close>

record day_uptime =
  du_date :: time
  du_uptime :: "rat option"
  du_n :: nat

record public_gpu =
  pg_index :: "int option"
  pg_name :: string
  pg_util :: rat
  pg_mem_pct :: rat

record public_server =
  pb_id :: int
  pb_name :: string
  pb_server_type :: string
  pb_online :: bool
  pb_state :: string
  pb_uptime :: "rat option"
  pb_avg_latency_ms :: rat
  pb_last_check :: "time option"
  pb_history :: "day_uptime list"
  pb_gpus :: "public_gpu list"

record public_page =
  pp_title :: json
  pp_description :: json
  pp_footer :: json
  pp_theme :: json
  pp_show_latency :: json
  pp_show_gpu :: json
  pp_all_operational :: bool
  pp_servers_total :: nat
  pp_servers_online :: nat
  pp_servers :: "public_server list"
  pp_generated_at :: time
  pp_freshness_limit :: int

definition bucketize :: "int \<Rightarrow> time \<Rightarrow> time list" where
  "bucketize n now = map (\<lambda>i. day_start now - days i) (rev [0..n - 1])"

definition shown_servers :: "int list option \<Rightarrow> db \<Rightarrow> server list" where
  "shown_servers ids d =
     order_by s_id (filter (\<lambda>s. s_enabled s \<and> (case ids of None \<Rightarrow> True | Some is \<Rightarrow> s_id s \<in> set is)) (d_servers d))"

text \<open>The hourly rows of a server on one day, counted from the oldest day shown.\<close>

definition day_rows :: "db \<Rightarrow> int \<Rightarrow> time \<Rightarrow> metric_hourly list" where
  "day_rows d sid oldest = filter (\<lambda>h. h_server_id h = sid \<and> oldest \<le> h_hour h) (d_hourly d)"

definition day_counts :: "db \<Rightarrow> int \<Rightarrow> time \<Rightarrow> time \<Rightarrow> nat \<times> nat" where
  "day_counts d sid oldest day =
     (let rows = filter (\<lambda>h. day_start (h_hour h) = day) (day_rows d sid oldest)
      in (sum_list (map h_samples rows), sum_list (map h_ok_samples rows)))"

text \<open>Over all days that have samples, also days behind today.\<close>

definition total_counts :: "db \<Rightarrow> int \<Rightarrow> time \<Rightarrow> nat \<times> nat" where
  "total_counts d sid oldest =
     (let counts = filter (\<lambda>(n, ok). 0 < n)
            (map (day_counts d sid oldest) (remdups (map (\<lambda>h. day_start (h_hour h)) (day_rows d sid oldest))))
      in (sum_list (map fst counts), sum_list (map snd counts)))"

definition day_entry :: "db \<Rightarrow> int \<Rightarrow> time \<Rightarrow> time \<Rightarrow> day_uptime" where
  "day_entry d sid oldest day =
     (case day_counts d sid oldest day of
        (n, ok) \<Rightarrow> if n = 0 then \<lparr>du_date = day, du_uptime = None, du_n = 0\<rparr>
                   else \<lparr>du_date = day, du_uptime = Some (py_round_to 1 (of_nat ok / of_nat n * 100)), du_n = n\<rparr>)"

definition latest_row :: "db \<Rightarrow> int \<Rightarrow> metric option" where
  "latest_row d sid =
     (let rows = filter (\<lambda>m. m_server_id m = sid) (d_metrics d)
      in case max_time (map m_collected_at rows) of
           None \<Rightarrow> None
         | Some t \<Rightarrow> Some (last (order_by m_id (filter (\<lambda>m. m_collected_at m = t) rows))))"

definition server_latency :: "db \<Rightarrow> int \<Rightarrow> time \<Rightarrow> rat" where
  "server_latency d sid now =
     (let rows = filter (\<lambda>m. m_server_id m = sid \<and> now - hours 24 \<le> m_collected_at m \<and> m_status m = ''ok'') (d_metrics d)
      in mean (map m_ssh_latency rows))"

definition server_state :: "int \<Rightarrow> time \<Rightarrow> metric option \<Rightarrow> string" where
  "server_state limit now latest =
     (case latest of
        None \<Rightarrow> ''unknown''
      | Some m \<Rightarrow>
          let age = now - m_collected_at m
          in if age > seconds limit \<or> age < - seconds 60 then ''stale''
             else if m_status m = ''ok'' then ''online'' else ''offline'')"

definition public_gpu_of :: "gpu \<Rightarrow> public_gpu" where
  "public_gpu_of g =
     \<lparr>pg_index = index g, pg_name = replace_all ''GeForce '' [] (replace_all ''NVIDIA '' [] (str0 (gname g))),
      pg_util = num0 (utilization g),
      pg_mem_pct = (if num0 (mem_total_mb g) \<noteq> 0 then py_round_to 0 (num0 (mem_used_mb g) / num0 (mem_total_mb g) * 100) else 0)\<rparr>"

definition public_server_of :: "db \<Rightarrow> int \<Rightarrow> time list \<Rightarrow> time \<Rightarrow> server \<Rightarrow> public_server" where
  "public_server_of d limit buckets now s =
     (let oldest = hd buckets;
          latest = latest_row d (s_id s);
          state = server_state limit now latest;
          (n, ok) = total_counts d (s_id s) oldest
      in \<lparr>pb_id = s_id s, pb_name = s_name s, pb_server_type = s_server_type s, pb_online = (state = ''online''),
          pb_state = state,
          pb_uptime = (if n \<noteq> 0 then Some (py_round_to 2 (of_nat ok / of_nat n * 100)) else None),
          pb_avg_latency_ms = py_round_to 0 (server_latency d (s_id s) now * 1000),
          pb_last_check = map_option m_collected_at latest,
          pb_history = map (day_entry d (s_id s) oldest) buckets,
          pb_gpus = (if state = ''online'' \<and> s_server_type s \<noteq> ''cpu''
                     then (case latest of Some m \<Rightarrow> map public_gpu_of (m_gpus m) | None \<Rightarrow> []) else [])\<rparr>)"

definition cfg_or :: "(string, json) dict \<Rightarrow> string \<Rightarrow> json \<Rightarrow> json" where
  "cfg_or cfg key dflt = the_default dflt (map_of cfg key)"

definition page_of :: "(string, json) dict \<Rightarrow> int \<Rightarrow> time \<Rightarrow> public_server list \<Rightarrow> public_page" where
  "page_of cfg limit now result =
     \<lparr>pp_title = cfg_or cfg ''title'' (JStr []), pp_description = cfg_or cfg ''description'' (JStr []),
      pp_footer = cfg_or cfg ''footer'' (JStr []), pp_theme = cfg_or cfg ''theme'' (JStr ''auto''),
      pp_show_latency = cfg_or cfg ''show_latency'' (JBool True), pp_show_gpu = cfg_or cfg ''show_gpu'' (JBool True),
      pp_all_operational = (result \<noteq> [] \<and> list_all pb_online result), pp_servers_total = length result,
      pp_servers_online = length (filter pb_online result), pp_servers = result, pp_generated_at = now,
      pp_freshness_limit = limit\<rparr>"

definition build_public_payload :: "int \<Rightarrow> time \<Rightarrow> (string, json) dict \<Rightarrow> db \<Rightarrow> http_error + public_page" where
  "build_public_payload poll_seconds now cfg d =
     (case history_days cfg of
        None \<Rightarrow> Inl (Crash ''ValueError'')
      | Some n \<Rightarrow>
          (case wanted_ids cfg of
             None \<Rightarrow> Inl (Crash ''ArgumentError'')
           | Some ids \<Rightarrow>
               let limit = freshness_limit poll_seconds d;
                   servers = shown_servers ids d
               in if servers \<noteq> [] \<and> n \<le> 0 then Inl (Crash ''IndexError'')
                  else Inr (page_of cfg limit now (map (public_server_of d limit (bucketize n now) now) servers))))"

text \<open>\<open>None\<close> is \<open>{"published": False}\<close>.\<close>

definition status_public :: "int \<Rightarrow> time \<Rightarrow> db \<Rightarrow> http_error + public_page option" where
  "status_public poll_seconds now d =
     (case load_config d of
        Inl e \<Rightarrow> Inl e
      | Inr cfg \<Rightarrow>
          if \<not> truthy_at cfg ''published'' then Inr None
          else map_sum id Some (build_public_payload poll_seconds now cfg d))"

definition preview_payload :: "int \<Rightarrow> time \<Rightarrow> db \<Rightarrow> http_error + public_page" where
  "preview_payload poll_seconds now d =
     (case load_config d of Inl e \<Rightarrow> Inl e | Inr cfg \<Rightarrow> build_public_payload poll_seconds now cfg d)"

definition preview_draft :: "int \<Rightarrow> time \<Rightarrow> page_config \<Rightarrow> db \<Rightarrow> http_error + public_page" where
  "preview_draft poll_seconds now b d =
     (if page_config_ok b then build_public_payload poll_seconds now (dumped b) d else Inl unprocessable)"

section \<open>The configuration is kept\<close>

lemma dumped_storable: "page_config_ok b \<Longrightarrow> storable (JObj (dumped b))"
proof -
  have key: "points k \<noteq> None" if "ascii k" for k using ascii_points [OF that] by simp
  have "list_all (\<lambda>(k, j). ascii k) (dumped b)" by (simp add: dumped_def code_def)
  then have "list_all (\<lambda>(k, j). points k \<noteq> None) (dumped b)" using key by (fastforce simp: list_all_iff)
  moreover assume "page_config_ok b"
  then have "points (pc_title b) \<noteq> None" "points (pc_description b) \<noteq> None" "points (pc_footer b) \<noteq> None" "ascii (pc_theme b)"
    by (auto simp: page_config_ok_def at_most_def code_def split: option.splits)
  then have "list_all (\<lambda>(k, j). storable j) (dumped b)"
    using key by (simp add: dumped_def list_all_iff)
  ultimately show ?thesis by (auto simp: list_all_iff) (simp add: dumped_def)
qed

lemma merged_dumped: "merged DEFAULT_CONFIG (dumped b) = dumped b"
  by (simp add: merged_def DEFAULT_CONFIG_def dumped_def)

text \<open>
  The configuration of the status page survives storage: what an administrator saves is what every
  later request reads, whatever the settings held before.
\<close>

theorem page_config_round_trip:
  assumes "page_config_ok b"
  shows "load_config (snd (put_config b d)) = Inr (dumped b)"
proof -
  have "json_dumps (JObj (dumped b)) \<noteq> []" by simp
  then show ?thesis
    using json_round_trip [OF dumped_storable [OF assms]] assms
    by (simp add: load_config_def put_config_def save_config_def set_setting_def merged_dumped del: json_dumps.simps)
qed

definition draft_page :: page_config where
  "draft_page = \<lparr>pc_title = ''GPU'', pc_description = ''a'', pc_server_ids = [1, 2], pc_show_history_days = 2,
     pc_show_latency = False, pc_show_gpu = False, pc_theme = ''dark'', pc_footer = [CHR 0x22], pc_published = True\<rparr>"

lemma at_most_ascii: "ascii s \<Longrightarrow> length s \<le> n \<Longrightarrow> at_most n s"
  by (simp add: at_most_def ascii_points)

lemma draft_page_ok: "page_config_ok draft_page"
  by (simp add: page_config_ok_def draft_page_def at_most_ascii code_def)

theorem page_config_round_trip_witness:
  "load_config (snd (put_config draft_page empty_db)) = Inr (dumped draft_page)"
  by (rule page_config_round_trip [OF draft_page_ok])

section \<open>What the page reveals\<close>

text \<open>The columns the page is made of, everything else blank.\<close>

definition bare_server :: "server \<Rightarrow> server" where
  "bare_server s = \<lparr>s_id = s_id s, s_name = s_name s, s_host = [], s_port = 0, s_auth_type = [], s_username = [],
     s_password = [], s_private_key = [], s_passphrase = [], s_bmc_host = [], s_bmc_user = [], s_bmc_password = [],
     s_enabled = s_enabled s, s_server_type = s_server_type s, s_tags = [], s_note = [], s_expected_gpu_count = 0, s_status = None,
     s_status_reason = [], s_status_until = None, s_created_at = 0, s_updated_at = 0\<rparr>"

definition bare_gpu :: "gpu \<Rightarrow> gpu" where
  "bare_gpu g = \<lparr>index = index g, uuid = None, gname = gname g, utilization = utilization g, util_memory = None,
     mem_used_mb = mem_used_mb g, mem_total_mb = mem_total_mb g, temperature = None, power_draw = None, power_limit = None,
     fan_speed = None, clock_graphics = 0, clock_memory = 0, clock_graphics_max = 0, clock_memory_max = 0, encoder_sessions = 0,
     decoder_sessions = 0, pstate = [], compute_mode = [], serial = None, pci_bus_id = None, mem_temperature = 0,
     throttle_mask = [], throttle_reasons = [], ecc_mode = [], ecc_supported = False, ecc_corrected_volatile = None,
     ecc_uncorrected_volatile = None, ecc_corrected_total = None, ecc_uncorrected_total = None, remapped_pending = 0,
     remapped_failure = 0, retired_pending = 0, pcie_gen_current = 0, pcie_gen_max = 0, pcie_width_current = None,
     pcie_width_max = None, gpu_processes = []\<rparr>"

definition bare_metric :: "metric \<Rightarrow> metric" where
  "bare_metric m = \<lparr>m_id = m_id m, m_server_id = m_server_id m, m_collected_at = m_collected_at m,
     m_sample_interval_seconds = None, m_hostname = [], m_os = [], m_kernel = [], m_uptime_seconds = 0, m_boot_id = [],
     m_cpu_model = [], m_cpu_count = 0, m_cpu_percent = 0, m_cpu_iowait = None, m_cpu_freq_avg = 0, m_cpu_temp_package = 0,
     m_cores = [], m_load1 = 0, m_load5 = 0, m_load15 = 0, m_mem_total_mb = 0, m_mem_used_mb = 0, m_mem_available_mb = 0,
     m_mem_cached_mb = 0, m_swap_total_mb = 0, m_swap_used_mb = 0, m_disk_total_gb = 0, m_disk_used_gb = 0, m_disks = [],
     m_inodes = [], m_disk_io = [], m_net_rx_bytes = None, m_net_tx_bytes = None, m_net_ifaces = [], m_users = [],
     m_sock_estab = 0, m_sock_timewait = 0, m_fd_allocated = 0, m_fd_max = 0, m_gpu_count = 0, m_gpu_driver = [],
     m_gpus = map bare_gpu (m_gpus m), m_processes = [], m_duration = 0, m_ssh_latency = m_ssh_latency m,
     m_status = m_status m, m_error_code = [], m_error = []\<rparr>"

definition bare_hour :: "metric_hourly \<Rightarrow> metric_hourly" where
  "bare_hour h = \<lparr>h_server_id = h_server_id h, h_hour = h_hour h, h_samples = h_samples h, h_ok_samples = h_ok_samples h,
     h_cpu_avg = 0, h_cpu_max = 0, h_mem_avg_pct = 0, h_gpu_util_avg = 0, h_gpu_util_max = 0, h_gpu_mem_pct_avg = 0,
     h_gpu_power_avg = 0, h_net_rx_avg_bps = 0, h_net_tx_avg_bps = 0, h_idle_held_minutes = 0, h_gpu_sample_minutes = None,
     h_idle_held_gpu_minutes = None, h_gpu_time_estimated = False\<rparr>"

text \<open>The ids of the servers on the published page; none while it is not published.\<close>

definition published_ids :: "db \<Rightarrow> int list" where
  "published_ids d =
     (case load_config d of
        Inr cfg \<Rightarrow> if truthy_at cfg ''published''
          then (case wanted_ids cfg of Some ids \<Rightarrow> map s_id (shown_servers ids d) | None \<Rightarrow> []) else []
      | Inl e \<Rightarrow> [])"

definition public_view :: "db \<Rightarrow> db" where
  "public_view d =
     (let shown = (\<lambda>i. i \<in> set (published_ids d))
      in empty_db\<lparr>
        d_settings := filter (\<lambda>p. fst p \<in> {SETTING_KEY, ''poll_interval''}) (d_settings d),
        d_servers := map bare_server (filter (\<lambda>s. shown (s_id s)) (d_servers d)),
        d_metrics := map bare_metric (filter (\<lambda>m. shown (m_server_id m)) (d_metrics d)),
        d_hourly := map bare_hour (filter (\<lambda>h. shown (h_server_id h)) (d_hourly d))\<rparr>)"

lemma bare_fields [simp]:
  "s_id (bare_server s) = s_id s" "s_name (bare_server s) = s_name s" "s_enabled (bare_server s) = s_enabled s"
  "s_server_type (bare_server s) = s_server_type s"
  "m_id (bare_metric m) = m_id m" "m_server_id (bare_metric m) = m_server_id m" "m_collected_at (bare_metric m) = m_collected_at m"
  "m_status (bare_metric m) = m_status m" "m_ssh_latency (bare_metric m) = m_ssh_latency m" "m_gpus (bare_metric m) = map bare_gpu (m_gpus m)"
  "h_server_id (bare_hour h) = h_server_id h" "h_hour (bare_hour h) = h_hour h" "h_samples (bare_hour h) = h_samples h"
  "h_ok_samples (bare_hour h) = h_ok_samples h" "public_gpu_of (bare_gpu g) = public_gpu_of g"
  by (simp_all add: bare_server_def bare_metric_def bare_hour_def bare_gpu_def public_gpu_of_def)

lemma filter_view:
  assumes "\<And>x. P (g x) = P x" and "\<And>x. x \<in> set xs \<Longrightarrow> P x \<Longrightarrow> Q x"
  shows "filter P (map g (filter Q xs)) = map g (filter P xs)"
proof -
  have "filter (\<lambda>x. Q x \<and> P x) xs = filter P xs" by (rule filter_cong) (use assms(2) in auto)
  then show ?thesis by (simp add: filter_map comp_def assms(1))
qed

lemma view_settings: "map_of (d_settings (public_view d)) k = (if k \<in> {SETTING_KEY, ''poll_interval''} then map_of (d_settings d) k else None)"
  using map_of_filter_keys [where P = "\<lambda>k. k \<in> {SETTING_KEY, ''poll_interval''}" and d = "d_settings d" and k = k]
  by (simp add: public_view_def Let_def)

lemma view_config: "load_config (public_view d) = load_config d" "freshness_limit poll (public_view d) = freshness_limit poll d"
  by (simp_all add: load_config_def freshness_limit_def view_settings)

lemma view_servers:
  assumes "set (map s_id (shown_servers ids d)) \<subseteq> set (published_ids d)"
  shows "shown_servers ids (public_view d) = map bare_server (shown_servers ids d)"
proof -
  let ?P = "\<lambda>s. s_enabled s \<and> (case ids of None \<Rightarrow> True | Some is \<Rightarrow> s_id s \<in> set is)"
  have "s_id s \<in> set (published_ids d)" if "s \<in> set (d_servers d)" "?P s" for s
    using assms that by (auto simp: shown_servers_def order_by_def)
  then have "filter ?P (map bare_server (filter (\<lambda>s. s_id s \<in> set (published_ids d)) (d_servers d))) = map bare_server (filter ?P (d_servers d))"
    by (intro filter_view) (auto split: option.splits)
  then show ?thesis by (simp add: shown_servers_def public_view_def Let_def order_by_map)
qed

lemma view_rows:
  assumes "sid \<in> set (published_ids d)"
  shows "day_rows (public_view d) sid oldest = map bare_hour (day_rows d sid oldest)"
    and "latest_row (public_view d) sid = map_option bare_metric (latest_row d sid)"
    and "server_latency (public_view d) sid now = server_latency d sid now"
proof -
  have hours: "d_hourly (public_view d) = map bare_hour (filter (\<lambda>h. h_server_id h \<in> set (published_ids d)) (d_hourly d))"
    and metrics: "d_metrics (public_view d) = map bare_metric (filter (\<lambda>m. m_server_id m \<in> set (published_ids d)) (d_metrics d))"
    by (simp_all add: public_view_def Let_def)
  show "day_rows (public_view d) sid oldest = map bare_hour (day_rows d sid oldest)"
    unfolding day_rows_def hours using assms by (intro filter_view) auto
  have of_server: "filter (\<lambda>m. m_server_id m = sid) (d_metrics (public_view d)) = map bare_metric (filter (\<lambda>m. m_server_id m = sid) (d_metrics d))"
    unfolding metrics using assms by (intro filter_view) auto
  show "latest_row (public_view d) sid = map_option bare_metric (latest_row d sid)"
  proof -
    let ?rows = "filter (\<lambda>m. m_server_id m = sid) (d_metrics d)"
    have "filter (\<lambda>m. m_collected_at m = t) ?rows \<noteq> []" if "max_time (map m_collected_at ?rows) = Some t" for t
    proof -
      have "Max (set (map m_collected_at ?rows)) = t" "set (map m_collected_at ?rows) \<noteq> {}"
        using that by (auto simp: max_time_def simp del: set_map split: if_splits)
      then have "t \<in> set (map m_collected_at ?rows)" using Max_in [of "set (map m_collected_at ?rows)"] by blast
      then show ?thesis by (auto simp: filter_empty_conv)
    qed
    then show ?thesis
      by (auto simp: latest_row_def of_server comp_def filter_map Let_def last_order_by filter_empty_conv split: option.splits)
  qed
  show "server_latency (public_view d) sid now = server_latency d sid now"
    unfolding server_latency_def Let_def metrics using assms
    by (subst filter_view) (auto simp: comp_def)
qed

lemma bare_counts: "map h_samples (filter P (map bare_hour rows)) = map h_samples (filter (P \<circ> bare_hour) rows)"
  "map h_ok_samples (filter P (map bare_hour rows)) = map h_ok_samples (filter (P \<circ> bare_hour) rows)"
  by (simp_all add: filter_map comp_def)

lemma view_counts:
  assumes "sid \<in> set (published_ids d)"
  shows "day_counts (public_view d) sid oldest = day_counts d sid oldest"
    and "total_counts (public_view d) sid oldest = total_counts d sid oldest"
    and "day_entry (public_view d) sid oldest = day_entry d sid oldest"
proof -
  show 1: "day_counts (public_view d) sid oldest = day_counts d sid oldest"
    by (intro ext) (simp add: day_counts_def Let_def view_rows [OF assms] bare_counts comp_def)
  show "total_counts (public_view d) sid oldest = total_counts d sid oldest"
    by (simp add: total_counts_def 1 view_rows [OF assms] comp_def)
  show "day_entry (public_view d) sid oldest = day_entry d sid oldest"
    by (intro ext) (simp add: day_entry_def 1)
qed

lemma view_server:
  assumes "s_id s \<in> set (published_ids d)"
  shows "public_server_of (public_view d) limit buckets now (bare_server s) = public_server_of d limit buckets now s"
proof -
  have "server_state limit now (map_option bare_metric m) = server_state limit now m" for m
    by (cases m) (simp_all add: server_state_def)
  moreover have "(case map_option bare_metric m of Some m \<Rightarrow> map public_gpu_of (m_gpus m) | None \<Rightarrow> []) =
      (case m of Some m \<Rightarrow> map public_gpu_of (m_gpus m) | None \<Rightarrow> [])" for m
    by (cases m) simp_all
  moreover have "map_option m_collected_at (map_option bare_metric m) = map_option m_collected_at m" for m
    by (cases m) simp_all
  ultimately show ?thesis
    by (simp add: public_server_of_def view_counts [OF assms] view_rows [OF assms] case_prod_beta Let_def)
qed

text \<open>
  C19.  What anybody can see without logging in depends on nothing but the page's own columns: the
  names, types and ids of the servers on the page, their sample counts, and the time, state, latency and
  the cards' names and load of their samples.  Hosts, credentials, processes, users, serial numbers, other servers,
  disabled servers, accounts, alerts and the audit log have no influence; while the page is not published, no server has.
\<close>

theorem public_page_reveals_nothing_else:
  "status_public poll now (public_view d) = status_public poll now d"
proof (cases "load_config d")
  case (Inr cfg)
  show ?thesis
  proof (cases "truthy_at cfg ''published''")
    case True
    have "build_public_payload poll now cfg (public_view d) = build_public_payload poll now cfg d"
    proof (cases "wanted_ids cfg")
      case (Some ids)
      have ids: "published_ids d = map s_id (shown_servers ids d)" by (simp add: published_ids_def Inr True Some)
      then have servers: "shown_servers ids (public_view d) = map bare_server (shown_servers ids d)" by (simp add: view_servers)
      have "map (public_server_of (public_view d) limit buckets now) (map bare_server (shown_servers ids d)) =
          map (public_server_of d limit buckets now) (shown_servers ids d)" for limit buckets
        using view_server [of _ d] by (auto simp: ids)
      then show ?thesis by (simp add: build_public_payload_def Some Let_def view_config servers del: map_map split: option.splits)
    qed (simp add: build_public_payload_def split: option.splits)
    then show ?thesis by (simp add: status_public_def view_config Inr True)
  qed (simp add: status_public_def view_config Inr)
qed (simp add: status_public_def view_config)

section \<open>The figures\<close>

lemma percent_range:
  assumes "a \<le> b" shows "0 \<le> py_round_to k (of_nat a * 100 / of_nat b) \<and> py_round_to k (of_nat a * 100 / of_nat b) \<le> 100"
proof -
  have "(of_nat a * 100 / of_nat b :: rat) \<le> 100" using assms by (cases "b = 0") (simp_all add: divide_le_eq)
  then show ?thesis using py_round_to_range [of 0 "of_nat a * 100 / of_nat b" 100 k] by simp
qed

lemma counts_ordered:
  assumes "\<forall>h \<in> set (d_hourly d). h_ok_samples h \<le> h_samples h"
  shows "snd (day_counts d sid oldest day) \<le> fst (day_counts d sid oldest day)"
    and "snd (total_counts d sid oldest) \<le> fst (total_counts d sid oldest)"
proof -
  have 1: "snd (day_counts d sid oldest day) \<le> fst (day_counts d sid oldest day)" for day
  proof -
    let ?rows = "filter (\<lambda>h. day_start (h_hour h) = day) (day_rows d sid oldest)"
    have "list_all (\<lambda>h. h_ok_samples h \<le> h_samples h) ?rows"
      using assms by (auto simp: list_all_iff day_rows_def)
    then have "sum_list (map h_ok_samples ?rows) \<le> sum_list (map h_samples ?rows)"
      by (intro sum_list_mono) (auto simp: list_all_iff)
    then show ?thesis by (simp add: day_counts_def Let_def)
  qed
  then show "snd (day_counts d sid oldest day) \<le> fst (day_counts d sid oldest day)" .
  show "snd (total_counts d sid oldest) \<le> fst (total_counts d sid oldest)"
    unfolding total_counts_def Let_def fst_conv snd_conv using 1 by (intro sum_list_mono) auto
qed

text \<open>
  The page's figures are consistent: every server shows exactly the configured number of days, every
  uptime is a percentage, a day without samples has none, the count of servers online is right, and everything is called operational
  exactly if there are servers and all of them are online.
\<close>

theorem page_figures_consistent:
  assumes "build_public_payload poll now cfg d = Inr page" and "history_days cfg = Some n"
    and "\<forall>h \<in> set (d_hourly d). h_ok_samples h \<le> h_samples h" and "pb \<in> set (pp_servers page)"
  shows "length (pb_history pb) = nat n \<and> (case pb_uptime pb of Some u \<Rightarrow> 0 \<le> u \<and> u \<le> 100 | None \<Rightarrow> True) \<and>
    list_all (\<lambda>e. case du_uptime e of Some u \<Rightarrow> 0 \<le> u \<and> u \<le> 100 \<and> 0 < du_n e | None \<Rightarrow> du_n e = 0) (pb_history pb) \<and>
    pp_servers_online page = length (filter (\<lambda>s. pb_state s = ''online'') (pp_servers page)) \<and>
    pp_servers_total page = length (pp_servers page) \<and>
    (pp_all_operational page \<longleftrightarrow> pp_servers_online page = pp_servers_total page)"
proof -
  obtain ids where page: "page = page_of cfg (freshness_limit poll d) now
      (map (public_server_of d (freshness_limit poll d) (bucketize n now) now) (shown_servers ids d))"
    using assms(1,2) by (auto simp: build_public_payload_def Let_def split: option.splits if_splits)
  then obtain s where pb: "pb = public_server_of d (freshness_limit poll d) (bucketize n now) now s"
    using assms(4) by (auto simp: page_of_def)
  have entry: "case du_uptime (day_entry d sid o' day) of Some u \<Rightarrow> 0 \<le> u \<and> u \<le> 100 \<and> 0 < du_n (day_entry d sid o' day)
      | None \<Rightarrow> du_n (day_entry d sid o' day) = 0" for sid o' day
    using counts_ordered(1) [OF assms(3), of sid o' day] by (auto simp: day_entry_def percent_range split: prod.splits)
  have online: "pb_online s \<longleftrightarrow> pb_state s = ''online''" if "s \<in> set (pp_servers page)" for s
    using that by (auto simp: page page_of_def public_server_of_def Let_def split: prod.splits)
  then have all: "filter pb_online (pp_servers page) = filter (\<lambda>s. pb_state s = ''online'') (pp_servers page)"
    by (auto intro: filter_cong)
  have count: "length (filter P xs) = length xs \<longleftrightarrow> list_all P xs" for P :: "public_server \<Rightarrow> bool" and xs
    by (simp add: list_all_iff filter_id_conv) (metis filter_True filter_id_conv length_filter_less less_irrefl)
  have "pp_servers page \<noteq> []" using assms(4) by auto
  then have "pp_all_operational page \<longleftrightarrow> pp_servers_online page = pp_servers_total page"
    using count [of pb_online "pp_servers page"] by (simp add: page page_of_def)
  moreover have "pp_servers_online page = length (filter pb_online (pp_servers page))" "pp_servers_total page = length (pp_servers page)"
    by (simp_all add: page page_of_def)
  moreover have "length (pb_history pb) = nat n"
    by (simp add: pb public_server_of_def bucketize_def Let_def split: prod.splits)
  moreover have "case pb_uptime pb of Some u \<Rightarrow> 0 \<le> u \<and> u \<le> 100 | None \<Rightarrow> True"
    using counts_ordered(2) [OF assms(3), of "s_id s" "hd (bucketize n now)"] by (auto simp: pb public_server_of_def Let_def percent_range split: prod.splits)
  moreover have "list_all (\<lambda>e. case du_uptime e of Some u \<Rightarrow> 0 \<le> u \<and> u \<le> 100 \<and> 0 < du_n e | None \<Rightarrow> du_n e = 0) (pb_history pb)"
    using entry by (auto simp: pb public_server_of_def Let_def list_all_iff split: prod.splits)
  ultimately show ?thesis unfolding all by blast
qed

definition shown_host :: db where
  "shown_host = empty_db\<lparr>d_servers := [demo_server], d_hourly := [(aggregate 0 (hours 1) 60 1 [] [])\<lparr>h_samples := 60, h_ok_samples := 45\<rparr>]\<rparr>"

theorem page_figures_consistent_witness:
  "\<exists>page. build_public_payload 60 (hours 2) (dumped draft_page) shown_host = Inr page \<and>
    (\<forall>pb \<in> set (pp_servers page). length (pb_history pb) = 2) \<and> pp_servers_total page = 1"
proof -
  have ids: "wanted_ids (dumped draft_page) = Some (Some [1, 2])"
    by (simp add: wanted_ids_def dumped_def draft_page_def truthy_at_def List.map_filter_def)
  have n: "history_days (dumped draft_page) = Some 2"
    by (simp add: history_days_def dumped_def draft_page_def py_trunc_def)
  have one: "shown_servers (Some [1, 2]) shown_host = [demo_server]"
    by (simp add: shown_servers_def shown_host_def demo_server_def order_by_def)
  obtain page where page: "build_public_payload 60 (hours 2) (dumped draft_page) shown_host = Inr page"
      "pp_servers_total page = 1"
    by (simp add: build_public_payload_def ids n one page_of_def Let_def)
  have "\<forall>h \<in> set (d_hourly shown_host). h_ok_samples h \<le> h_samples h" by (simp add: shown_host_def)
  then have "\<forall>pb \<in> set (pp_servers page). length (pb_history pb) = 2"
    using page_figures_consistent [OF page(1) n] by auto
  with page show ?thesis by blast
qed

text \<open>The two display options do not reach the payload: cards and latency are sent to anybody also when the
  page hides them.  And \<open>uptime_30d\<close> covers the configured window, not thirty days.\<close>

lemma display_options_hide_nothing:
  assumes "build_public_payload poll now (AList.update ''show_gpu'' v (AList.update ''show_latency'' w cfg)) d = Inr page"
  shows "\<exists>page'. build_public_payload poll now cfg d = Inr page' \<and> pp_servers page' = pp_servers page"
proof -
  let ?cfg = "AList.update ''show_gpu'' v (AList.update ''show_latency'' w cfg)"
  have "history_days ?cfg = history_days cfg" "wanted_ids ?cfg = wanted_ids cfg"
    by (simp_all add: history_days_def wanted_ids_def truthy_at_def)
  with assms show ?thesis
    by (auto simp: build_public_payload_def Let_def page_of_def split: option.splits if_splits)
qed

end
