(* ===== verification/Enterprise.thy ===== *)
theory Enterprise
  imports Alerts Json "HOL-Library.Product_Lexorder"
begin

text \<open>
  The reading endpoints of \<open>backend/app/api/enterprise.py\<close>: health tree and risk of one server, kernel
  events, the slow and inventory tiers, collection health, the utilization report, the GPU analysis, the
  navigation badges and the health summary.  The endpoint that resets a host key is in theory Actions.
  The caches in front of three of them are the subject of theory Cache.
\<close>

section \<open>One server\<close>

definition server_health :: "db \<Rightarrow> time \<Rightarrow> int \<Rightarrow> http_error + tree" where
  "server_health d now sid =
     (case health_tree d now sid None of NoServer \<Rightarrow> Inl (HTTPException 404 ''server not found'') | t \<Rightarrow> Inr t)"

definition the_server :: "db \<Rightarrow> int \<Rightarrow> http_error + server" where
  "the_server d sid =
     (case find (\<lambda>s. s_id s = sid) (d_servers d) of
        None \<Rightarrow> Inl (HTTPException 404 ''server not found'')
      | Some s \<Rightarrow> Inr s)"

definition server_gpu_risk :: "db \<Rightarrow> time \<Rightarrow> int \<Rightarrow> http_error + string \<times> graded list" where
  "server_gpu_risk d now sid = map_sum id (\<lambda>s. (s_name s, gpu_risk_score d now sid)) (the_server d sid)"

definition server_overview :: "db \<Rightarrow> time \<Rightarrow> int \<Rightarrow> http_error + tree \<times> graded list" where
  "server_overview d now sid =
     map_sum id (\<lambda>s. let risks = (if s_server_type s \<noteq> ''cpu'' then gpu_risk_score d now sid else [])
                     in (health_tree d now sid (Some risks), risks)) (the_server d sid)"

definition kernel_window_ok :: "int \<Rightarrow> string \<Rightarrow> bool" where
  "kernel_window_ok n severity \<longleftrightarrow> 1 \<le> n \<and> n \<le> 168 \<and> severity \<in> {[], ''info'', ''warning'', ''critical''}"

text \<open>Newest first.\<close>

definition newest :: "nat \<Rightarrow> ('a \<Rightarrow> time) \<Rightarrow> 'a list \<Rightarrow> 'a list" where
  "newest n t rows = take n (rev (order_by t rows))"

definition server_kernel_events :: "db \<Rightarrow> time \<Rightarrow> int \<Rightarrow> int \<Rightarrow> string \<Rightarrow> http_error + kernel_event_row list" where
  "server_kernel_events d now sid n severity =
     (if \<not> kernel_window_ok n severity then Inl unprocessable
      else Inr (newest 500 k_collected_at (filter (\<lambda>k. k_server_id k = sid \<and> k_collected_at k \<ge> now - hours n
             \<and> (severity \<noteq> [] \<longrightarrow> k_severity k = severity)) (d_kernel d))))"

definition server_name_or_id :: "db \<Rightarrow> int \<Rightarrow> string" where
  "server_name_or_id d sid = (case find (\<lambda>s. s_id s = sid) (d_servers d) of Some s \<Rightarrow> s_name s | None \<Rightarrow> show_int sid)"

definition all_kernel_events ::
    "db \<Rightarrow> time \<Rightarrow> int \<Rightarrow> string \<Rightarrow> string \<Rightarrow> http_error + (string \<times> kernel_event_row) list" where
  "all_kernel_events d now n severity event_type =
     (if \<not> kernel_window_ok n severity then Inl unprocessable
      else Inr (map (\<lambda>k. (server_name_or_id d (k_server_id k), k))
        (newest 1000 k_collected_at (filter (\<lambda>k. k_collected_at k \<ge> now - hours n
           \<and> (severity \<noteq> [] \<longrightarrow> k_severity k = severity) \<and> (event_type \<noteq> [] \<longrightarrow> k_event_type k = event_type)) (d_kernel d)))))"

text \<open>\<open>None\<close>: nothing was collected yet.\<close>

definition server_slow_health :: "db \<Rightarrow> int \<Rightarrow> slow_health option" where
  "server_slow_health d sid = latest_by sh_collected_at (filter (\<lambda>h. sh_server_id h = sid) (d_slow d))"

definition server_inventory :: "db \<Rightarrow> int \<Rightarrow> host_inventory option" where
  "server_inventory d sid = latest_by hi_collected_at (filter (\<lambda>h. hi_server_id h = sid) (d_inventory d))"

section \<open>How reliable collection is\<close>

record collect_health =
  ch_window_hours :: int
  ch_total :: nat
  ch_ok :: nat
  ch_success_rate :: rat
  ch_avg_ssh_latency :: rat
  ch_avg_duration :: rat
  ch_errors :: "(string, nat) dict"

definition code_or_unknown :: "metric \<Rightarrow> string" where
  "code_or_unknown m = (if m_error_code m = [] then ''UNKNOWN'' else m_error_code m)"

definition count_error :: "metric \<Rightarrow> (string, nat) dict \<Rightarrow> (string, nat) dict" where
  "count_error m errs =
     AList.update (code_or_unknown m) (the_default 0 (map_of errs (code_or_unknown m)) + 1) errs"

text \<open>The groups' counts and averages times counts are counts and sums over the samples.\<close>

definition server_collect_health :: "db \<Rightarrow> time \<Rightarrow> int \<Rightarrow> int \<Rightarrow> http_error + collect_health" where
  "server_collect_health d now sid n =
     (if n < 1 \<or> n > 168 then Inl unprocessable
      else let rows = filter (\<lambda>m. m_server_id m = sid \<and> m_collected_at m \<ge> now - hours n) (d_metrics d);
               good = filter (\<lambda>m. m_status m = ''ok'') rows; ok = length good
           in Inr \<lparr>ch_window_hours = n, ch_total = length rows, ch_ok = ok,
                ch_success_rate = (if rows \<noteq> [] then py_round_to 1 (of_nat ok / of_nat (length rows) * 100) else 0),
                ch_avg_ssh_latency = (if ok \<noteq> 0 then py_round_to 3 (sum_list (map m_ssh_latency good) / of_nat ok) else 0),
                ch_avg_duration = (if ok \<noteq> 0 then py_round_to 2 (sum_list (map m_duration good) / of_nat ok) else 0),
                ch_errors = fold count_error (filter (\<lambda>m. m_status m \<noteq> ''ok'') rows) []\<rparr>)"

section \<open>Utilization\<close>

record usage =
  us_server_id :: int
  us_server_name :: string
  us_tags :: "string list"
  us_hours_covered :: nat
  us_success_rate :: rat
  us_gpu_util_avg :: rat
  us_gpu_power_avg_w :: rat
  us_idle_held_minutes :: int
  us_idle_held_gpu_hours :: rat
  us_gpu_hours :: "rat option"
  us_gpu_sample_minutes :: "rat option"
  us_idle_held_gpu_minutes :: rat
  us_idle_ratio_pct :: "rat option"
  us_card_time_available :: bool
  us_card_time_estimated :: bool

record usage_report =
  ur_window_hours :: int
  ur_total_gpu_hours :: "rat option"
  ur_total_idle_gpu_hours :: rat
  ur_idle_ratio_pct :: "rat option"
  ur_card_time_complete :: bool
  ur_card_time_estimated :: bool
  ur_servers :: "usage list"

definition ratio_or_zero :: "nat \<Rightarrow> rat \<Rightarrow> rat \<Rightarrow> rat" where
  "ratio_or_zero k x y = (if y \<noteq> 0 then py_round_to k (x / y) else 0)"

definition precise_idle :: "metric_hourly \<Rightarrow> rat" where
  "precise_idle r = (case h_idle_held_gpu_minutes r of Some m \<Rightarrow> m | None \<Rightarrow> of_int (h_idle_held_minutes r))"

definition idle_ratio :: "bool \<Rightarrow> rat \<Rightarrow> rat \<Rightarrow> rat option" where
  "idle_ratio whole idle mins = (if whole then Some (ratio_or_zero 1 (idle * 100) mins) else None)"

definition usage_of :: "server \<Rightarrow> metric_hourly list \<Rightarrow> usage" where
  "usage_of s rows =
     (let samples = sum_list (map h_samples rows); ok = sum_list (map h_ok_samples rows);
          weighted = sum_list (map (\<lambda>r. h_gpu_util_avg r * of_nat (h_ok_samples r)) rows);
          power_w = sum_list (map (\<lambda>r. h_gpu_power_avg r * of_nat (h_ok_samples r)) rows);
          idle_min = sum_list (map h_idle_held_minutes rows);
          available = list_all (\<lambda>r. h_gpu_sample_minutes r \<noteq> None) rows;
          gpu_minutes = sum_list (map (\<lambda>r. num0 (h_gpu_sample_minutes r)) rows);
          idle = sum_list (map precise_idle rows)
      in \<lparr>us_server_id = s_id s, us_server_name = s_name s, us_tags = s_tags s, us_hours_covered = length rows,
          us_success_rate = ratio_or_zero 1 (of_nat ok * 100) (of_nat samples),
          us_gpu_util_avg = ratio_or_zero 1 weighted (of_nat ok), us_gpu_power_avg_w = ratio_or_zero 1 power_w (of_nat ok),
          us_idle_held_minutes = idle_min, us_idle_held_gpu_hours = py_round_to 4 (idle / 60),
          us_gpu_hours = (if available then Some (py_round_to 4 (gpu_minutes / 60)) else None),
          us_gpu_sample_minutes = (if available then Some gpu_minutes else None), us_idle_held_gpu_minutes = idle,
          us_idle_ratio_pct = idle_ratio available idle gpu_minutes, us_card_time_available = available,
          us_card_time_estimated = list_ex h_gpu_time_estimated rows\<rparr>)"

definition usage_rows :: "db \<Rightarrow> time \<Rightarrow> int \<Rightarrow> metric_hourly list" where
  "usage_rows d since sid = filter (\<lambda>h. h_server_id h = sid \<and> h_hour h \<ge> since) (d_hourly d)"

definition report_servers :: "db \<Rightarrow> string \<Rightarrow> server list" where
  "report_servers d tag =
     filter (\<lambda>s. s_enabled s \<and> s_server_type s \<noteq> ''cpu'' \<and> (tag \<noteq> [] \<longrightarrow> tag \<in> set (s_tags s))) (d_servers d)"

definition utilization_report :: "db \<Rightarrow> time \<Rightarrow> int \<Rightarrow> string \<Rightarrow> http_error + usage_report" where
  "utilization_report d now n tag =
     (if n < 1 \<or> n > 168 then Inl unprocessable
      else let rows = usage_rows d (now - hours n);
               out = order_by (\<lambda>u. - us_idle_held_minutes u)
                 (map (\<lambda>s. usage_of s (rows (s_id s))) (filter (\<lambda>s. rows (s_id s) \<noteq> []) (report_servers d tag)));
               whole = list_all us_card_time_available out;
               total_minutes = sum_list (map (\<lambda>u. num0 (us_gpu_sample_minutes u)) out);
               total_idle = sum_list (map us_idle_held_gpu_minutes out)
           in Inr \<lparr>ur_window_hours = n,
                ur_total_gpu_hours = (if whole then Some (py_round_to 4 (total_minutes / 60)) else None),
                ur_total_idle_gpu_hours = py_round_to 4 (total_idle / 60),
                ur_idle_ratio_pct = idle_ratio whole total_idle total_minutes, ur_card_time_complete = whole,
                ur_card_time_estimated = list_ex us_card_time_estimated out, ur_servers = out\<rparr>)"

section \<open>The cluster's cards\<close>

record analysed_gpu =
  ag_server_id :: int
  ag_server_name :: string
  ag_uuid :: string
  ag_gpu_index :: "int option"
  ag_name :: string
  ag_util :: rat
  ag_mem_pct :: rat
  ag_mem_used_gb :: rat
  ag_idle_held :: bool
  ag_idle_minutes :: rat
  ag_risk :: int
  ag_risk_label :: string
  ag_xid_events :: int
  ag_ecc_uncorrected :: int
  ag_thermal_throttle :: int
  ag_max_temp :: rat
  ag_processes :: "json list"

record analysis =
  an_total_gpus :: nat
  an_idle_held_count :: nat
  an_high_risk_count :: nat
  an_gpus :: "analysed_gpu list"

definition process_json :: "gpu_process \<Rightarrow> json" where
  "process_json p =
     JObj [(''pid'', case p_pid p of Some i \<Rightarrow> JNum (of_int i) | None \<Rightarrow> JNull), (''user'', JStr (str0 (p_user p))),
       (''command'', JStr (clip 60 (p_command p)))]"

definition HEALTHY :: string where "HEALTHY = utf8 [229, 129, 165, 229, 186, 183]"

definition held_minutes :: "idle_state \<Rightarrow> metric \<Rightarrow> int \<Rightarrow> string \<Rightarrow> rat" where
  "held_minutes idle m sid u =
     (case map_of idle (idle_key sid u) of
        None \<Rightarrow> 0
      | Some since \<Rightarrow> max 0 (of_int (m_collected_at m - since) / of_int (minutes 1)))"

definition analysed :: "idle_state \<Rightarrow> graded list \<Rightarrow> server \<Rightarrow> metric \<Rightarrow> gpu \<Rightarrow> analysed_gpu option" where
  "analysed idle risks s m g =
     (let u = str0 (uuid g); tot = num0 (mem_total_mb g); util = num0 (utilization g); mem = num0 (mem_used_mb g);
          mem_pct = (if tot \<noteq> 0 then mem / tot * 100 else 0);
          mins = (if util < 5 \<and> tot \<noteq> 0 \<and> mem_pct \<ge> 30 then held_minutes idle m (s_id s) u else 0);
          r = find (\<lambda>r. t_uuid (g_tally r) = u) (rev risks)
      in if u = [] then None
         else Some \<lparr>ag_server_id = s_id s, ag_server_name = s_name s, ag_uuid = u, ag_gpu_index = index g,
           ag_name = (case r of Some r \<Rightarrow> t_name (g_tally r) | None \<Rightarrow> []), ag_util = util, ag_mem_pct = py_round_to 1 mem_pct,
           ag_mem_used_gb = py_round_to 1 (mem / 1024), ag_idle_held = (mins \<ge> 25), ag_idle_minutes = py_round_to 0 mins,
           ag_risk = (case r of Some r \<Rightarrow> g_risk r | None \<Rightarrow> 0), ag_risk_label = (case r of Some r \<Rightarrow> g_label r | None \<Rightarrow> HEALTHY),
           ag_xid_events = (case r of Some r \<Rightarrow> t_xids (g_tally r) | None \<Rightarrow> 0),
           ag_ecc_uncorrected = (case r of Some r \<Rightarrow> t_ecc_uncorrected (g_tally r) | None \<Rightarrow> 0),
           ag_thermal_throttle = (case r of Some r \<Rightarrow> t_thermal (g_tally r) | None \<Rightarrow> 0),
           ag_max_temp = (case r of Some r \<Rightarrow> t_max_temp (g_tally r) | None \<Rightarrow> 0),
           ag_processes = map process_json (take 5 (gpu_processes g))\<rparr>)"

definition latest_of :: "db \<Rightarrow> int \<Rightarrow> metric option" where
  "latest_of d sid = latest_by m_collected_at (filter (\<lambda>m. m_server_id m = sid) (d_metrics d))"

text \<open>The servers with a sample, and the grades of all of them from one scan.\<close>

definition sampled_ids :: "db \<Rightarrow> server list \<Rightarrow> int list" where
  "sampled_ids d servers = filter (\<lambda>i. latest_of d i \<noteq> None) (map s_id servers)"

definition gpu_analysis :: "idle_state \<Rightarrow> time \<Rightarrow> db \<Rightarrow> analysis" where
  "gpu_analysis idle now d =
     (let servers = report_servers d [];
          scores = gpu_risk_scores d now (sampled_ids d servers);
          out = order_by (\<lambda>x. (\<not> ag_idle_held x, - ag_risk x))
            (concat (map (\<lambda>s. case latest_of d (s_id s) of
                None \<Rightarrow> []
              | Some m \<Rightarrow> List.map_filter (analysed idle (the_default [] (map_of scores (s_id s))) s m) (m_gpus m)) servers))
      in \<lparr>an_total_gpus = length out, an_idle_held_count = length (filter ag_idle_held out),
          an_high_risk_count = length (filter (\<lambda>x. ag_risk x \<ge> 30) out), an_gpus = out\<rparr>)"

definition cluster_gpu_analysis :: "idle_state \<Rightarrow> time \<Rightarrow> db \<Rightarrow> analysis" where
  "cluster_gpu_analysis idle now d =
     (let payload = gpu_analysis idle now d
      in payload\<lparr>an_gpus := map (\<lambda>x. x\<lparr>ag_processes := minimize_processes (ag_processes x)\<rparr>) (an_gpus payload)\<rparr>)"

text \<open>The navigation's badges: open alerts, at most a hundred, and cards held idle.\<close>

definition nav_summary :: "idle_state \<Rightarrow> time \<Rightarrow> db \<Rightarrow> nat \<times> nat" where
  "nav_summary idle now d =
     (min (length (filter (\<lambda>e. e_recovered_at e = None) (d_events d))) 100, an_idle_held_count (gpu_analysis idle now d))"

section \<open>The cluster's health\<close>

definition CRITICAL_EVENTS :: "string list" where
  "CRITICAL_EVENTS = [''GPU_MISSING'', ''GPU_ECC_UNCORRECTED'', ''RAID_DEGRADED'', ''OOM_KILL'', ''MCE_HARDWARE_ERROR'',
     ''SSH_FAULT'', ''HOSTKEY_CHANGED'']"

definition WARNING_EVENTS :: "string list" where
  "WARNING_EVENTS = [''GPU_THERMAL_THROTTLE'', ''NVME_HEALTH'', ''NFS_STALE'', ''SERVICE_FAILED'', ''PCIE_AER'',
     ''GPU_IDLE_VRAM_HELD'', ''STORAGE_BOTTLENECK'']"

definition is_critical :: "string \<Rightarrow> bool" where
  "is_critical e \<longleftrightarrow> contains ''XID'' e \<or> e \<in> set CRITICAL_EVENTS"

record summary_line =
  sl_server_id :: int
  sl_name :: string
  sl_hostname :: "string option"
  sl_overall :: string
  sl_connectivity :: string
  sl_critical :: nat
  sl_warning :: nat
  sl_status :: string
  sl_tags :: "string list"
  sl_error_code :: "string option"

definition open_metrics :: "db \<Rightarrow> int \<Rightarrow> string list" where
  "open_metrics d sid =
     map e_metric (filter (\<lambda>e. e_server_id e = sid \<and> e_recovered_at e = None \<and> e_rule_id e = None) (d_events d))"

definition summary_of :: "db \<Rightarrow> server \<Rightarrow> summary_line" where
  "summary_of d s =
     (let status = name_or (str0 (s_status s)) ''active''
      in case latest_of d (s_id s) of
           None \<Rightarrow> \<lparr>sl_server_id = s_id s, sl_name = s_name s, sl_hostname = None, sl_overall = ''unknown'', sl_connectivity = ''unknown'',
             sl_critical = 0, sl_warning = 0, sl_status = status, sl_tags = s_tags s, sl_error_code = None\<rparr>
         | Some m \<Rightarrow>
             let sev = open_metrics d (s_id s);
                 crit = length (filter is_critical sev);
                 warn = length (filter (\<lambda>e. e \<in> set WARNING_EVENTS) sev)
             in \<lparr>sl_server_id = s_id s, sl_name = s_name s, sl_hostname = Some (m_hostname m),
                 sl_overall = (if s_status s = Some ''maintenance'' then ''maintenance''
                   else if crit \<noteq> 0 \<or> m_status m \<noteq> ''ok'' then ''critical'' else if warn \<noteq> 0 then ''warning'' else ''ok''),
                 sl_connectivity = (if m_status m = ''ok'' then ''ok'' else ''critical''), sl_critical = crit, sl_warning = warn,
                 sl_status = status, sl_tags = s_tags s,
                 sl_error_code = Some (if m_status m \<noteq> ''ok'' then m_error_code m else ''OK'')\<rparr>)"

definition health_summary :: "db \<Rightarrow> summary_line list" where
  "health_summary d = map (summary_of d) (enabled_servers d)"

section \<open>The badges\<close>

text \<open>
  The navigation's two badges show what the full endpoints would: the number of open alerts is the number of rows the
  event list returns for open alerts with its usual limit of a hundred, and the number of cards held idle is the number of cards
  marked so in the GPU analysis.
\<close>

theorem badges_equal_the_lists:
  "(case list_events True 100 0 None d of Inr es \<Rightarrow> fst (nav_summary idle now d) = length es | Inl e \<Rightarrow> False) \<and>
   snd (nav_summary idle now d) = length (filter ag_idle_held (an_gpus (cluster_gpu_analysis idle now d)))"
proof -
  have "length (filter P (rev (order_by e_triggered_at es))) = length (filter P es)" for P and es :: "alert_event list"
    by (simp add: rev_filter [symmetric])
  then have "length (take 100 (filter (\<lambda>e. e_recovered_at e = None) (rev (order_by e_triggered_at (d_events d))))) =
      min (length (filter (\<lambda>e. e_recovered_at e = None) (d_events d))) 100" by simp
  moreover have "ag_idle_held \<circ> (\<lambda>x. x\<lparr>ag_processes := h x\<rparr>) = ag_idle_held" for h :: "analysed_gpu \<Rightarrow> json list"
    by (simp add: comp_def)
  ultimately show ?thesis
    by (simp add: list_events_def nav_summary_def rev_filter filter_map cluster_gpu_analysis_def gpu_analysis_def Let_def)
qed

section \<open>The analysis\<close>

lemma minimized_process: "minimize_process [(''pid'', i), (''user'', u), (''command'', c)] = [(''pid'', i)]"
  by (simp add: minimize_process_def PROCESS_RESOURCE_FIELDS_def map_filter_simps)

lemma minimized_processes:
  "minimize_processes (map process_json ps) = map (\<lambda>p. JObj [(''pid'', case p_pid p of Some i \<Rightarrow> JNum (of_int i) | None \<Rightarrow> JNull)]) ps"
  by (induction ps) (simp_all add: minimize_processes_def map_filter_simps process_json_def minimized_process)

definition anonymous :: "gpu_process \<Rightarrow> gpu_process" where
  "anonymous p = p\<lparr>p_user := None, p_command := []\<rparr>"

lemma minimized_anonymous: "minimize_processes (map process_json (map anonymous ps)) = minimize_processes (map process_json ps)"
  by (simp add: minimized_processes del: map_map) (simp add: anonymous_def)

definition anonymous_gpu :: "gpu \<Rightarrow> gpu" where
  "anonymous_gpu g = g\<lparr>gpu_processes := map anonymous (gpu_processes g)\<rparr>"

definition anonymous_metric :: "metric \<Rightarrow> metric" where
  "anonymous_metric m = m\<lparr>m_gpus := map anonymous_gpu (m_gpus m)\<rparr>"

definition anonymized :: "db \<Rightarrow> db" where
  "anonymized d = d\<lparr>d_metrics := map anonymous_metric (d_metrics d)\<rparr>"

lemma anonymous_fields [simp]:
  "m_server_id (anonymous_metric m) = m_server_id m" "m_collected_at (anonymous_metric m) = m_collected_at m"
  "m_status (anonymous_metric m) = m_status m" "m_gpus (anonymous_metric m) = map anonymous_gpu (m_gpus m)"
  by (simp_all add: anonymous_metric_def)

lemma tally_anonymous: "tally_gpu (anonymous_gpu g) = tally_gpu g"
proof -
  have "new_tally u (anonymous_gpu g) = new_tally u g" "add_sample (anonymous_gpu g) = add_sample g" "uuid (anonymous_gpu g) = uuid g" for u
    by (simp_all add: new_tally_def add_sample_def [abs_def] pcie_degraded_def anonymous_gpu_def)
  then show ?thesis by (intro ext) (simp add: tally_gpu_def Let_def split: option.splits)
qed

lemma tally_row_anonymous: "tally_row (anonymous_metric m) = tally_row m"
proof -
  have "fold tally_gpu (map anonymous_gpu gs) = fold tally_gpu gs" for gs
    by (induction gs) (simp_all add: tally_anonymous)
  then show ?thesis by (intro ext) (simp add: tally_row_def split: option.splits)
qed

lemma scores_anonymized: "gpu_risk_scores (anonymized d) now ids = gpu_risk_scores d now ids"
proof -
  have "risk_rows (anonymized d) since is = map anonymous_metric (risk_rows d since is)" for since "is"
    by (simp add: risk_rows_def anonymized_def filter_map comp_def order_by_map)
  moreover have "fold tally_row (map anonymous_metric rows) = fold tally_row rows" for rows
    by (induction rows) (simp_all add: tally_row_anonymous)
  moreover have "risk_xids (anonymized d) = risk_xids d" by (intro ext) (simp add: risk_xids_def anonymized_def)
  ultimately show ?thesis by (simp add: gpu_risk_scores_def tally_all_def Let_def)
qed

lemma latest_by_map: "(\<And>x. t (f x) = t x) \<Longrightarrow> latest_by t (map f xs) = map_option f (latest_by t xs)"
  by (induction xs) (auto split: option.splits)

lemma latest_anonymized: "latest_of (anonymized d) sid = map_option anonymous_metric (latest_of d sid)"
  by (simp add: latest_of_def anonymized_def filter_map comp_def latest_by_map)

definition public_card :: "analysed_gpu \<Rightarrow> analysed_gpu" where
  "public_card x = x\<lparr>ag_processes := minimize_processes (ag_processes x)\<rparr>"

lemma analysed_anonymous:
  "map_option public_card (analysed idle risks s (anonymous_metric m) (anonymous_gpu g)) = map_option public_card (analysed idle risks s m g)"
proof -
  have "held_minutes idle (anonymous_metric m) = held_minutes idle m"
    by (intro ext) (simp add: held_minutes_def split: option.splits)
  then show ?thesis
    by (simp add: analysed_def anonymous_gpu_def Let_def public_card_def take_map minimized_anonymous del: map_map)
qed

text \<open>
  The cluster's GPU analysis, which every signed-in viewer may read, does not depend on who runs what: with
  the users and commands of all processes taken out of the database the answer is the same.  It lists cards held idle first, then by
  falling risk, and its three counts are right.
\<close>

theorem analysis_hides_users:
  "cluster_gpu_analysis idle now (anonymized d) = cluster_gpu_analysis idle now d \<and>
   sorted_wrt (\<lambda>x y. ag_idle_held y \<longrightarrow> ag_idle_held x) (an_gpus (cluster_gpu_analysis idle now d)) \<and>
   sorted_wrt (\<lambda>x y. ag_idle_held x = ag_idle_held y \<longrightarrow> ag_risk y \<le> ag_risk x) (an_gpus (cluster_gpu_analysis idle now d)) \<and>
   an_total_gpus (cluster_gpu_analysis idle now d) = length (an_gpus (cluster_gpu_analysis idle now d)) \<and>
   an_high_risk_count (cluster_gpu_analysis idle now d) = length (filter (\<lambda>x. 30 \<le> ag_risk x) (an_gpus (cluster_gpu_analysis idle now d)))"
proof -
  define cards where "cards d = concat (map (\<lambda>s. case latest_of d (s_id s) of None \<Rightarrow> []
      | Some m \<Rightarrow> List.map_filter (analysed idle (the_default [] (map_of (gpu_risk_scores d now (sampled_ids d (report_servers d []))) (s_id s))) s m) (m_gpus m))
      (report_servers d []))" for d
  define key where "key x = (\<not> ag_idle_held x, - ag_risk x)" for x :: analysed_gpu
  define out where "out d = map public_card (order_by key (cards d))" for d
  have view: "cluster_gpu_analysis idle now d = \<lparr>an_total_gpus = length (out d), an_idle_held_count = length (filter ag_idle_held (out d)),
      an_high_risk_count = length (filter (\<lambda>x. 30 \<le> ag_risk x) (out d)), an_gpus = out d\<rparr>" for d
    by (simp add: cluster_gpu_analysis_def gpu_analysis_def Let_def out_def cards_def key_def [abs_def] public_card_def [abs_def] filter_map comp_def)
  have keyed: "key (public_card x) = key x" for x by (simp add: key_def public_card_def)
  have "report_servers (anonymized d) [] = report_servers d []" by (simp add: report_servers_def anonymized_def)
  moreover have "sampled_ids (anonymized d) ss = sampled_ids d ss" for ss by (simp add: sampled_ids_def latest_anonymized)
  moreover have "map public_card (List.map_filter (analysed idle r s (anonymous_metric m)) (map anonymous_gpu gs)) =
      map public_card (List.map_filter (analysed idle r s m) gs)" for r s m gs
  proof (induction gs)
    case (Cons g gs)
    then show ?case using analysed_anonymous [of idle r s m g]
      by (cases "analysed idle r s m g"; cases "analysed idle r s (anonymous_metric m) (anonymous_gpu g)") (simp_all add: map_filter_simps)
  qed (simp add: map_filter_simps)
  ultimately have "map public_card (cards (anonymized d)) = map public_card (cards d)"
    unfolding cards_def map_concat map_map comp_def
    by - (rule arg_cong [where f = concat], rule map_cong, simp, simp add: scores_anonymized latest_anonymized split: option.splits)
  then have same: "out (anonymized d) = out d" unfolding out_def by (metis keyed order_by_map)
  have "sorted (map key (out d))" unfolding out_def by (simp add: order_by_map [symmetric] keyed) (simp add: order_by_def)
  then have "sorted_wrt (\<lambda>x y. key x \<le> key y) (out d)" by (simp add: sorted_map)
  then have "sorted_wrt (\<lambda>x y. ag_idle_held y \<longrightarrow> ag_idle_held x) (out d)"
      "sorted_wrt (\<lambda>x y. ag_idle_held x = ag_idle_held y \<longrightarrow> ag_risk y \<le> ag_risk x) (out d)"
    by (auto simp: key_def less_eq_prod_def elim!: sorted_wrt_mono_rel [rotated])
  with same show ?thesis by (simp add: view)
qed

section \<open>The report\<close>

lemma sum_by_key:
  fixes f :: "'a \<Rightarrow> rat"
  assumes "distinct ids"
  shows "sum_list (map (\<lambda>i. sum_list (map f (filter (\<lambda>h. k h = i) hs))) ids) = sum_list (map f (filter (\<lambda>h. k h \<in> set ids) hs))"
proof (induction hs)
  case (Cons h hs)
  have one: "sum_list (map (\<lambda>i. if k h = i then c else 0) ids) = (if k h \<in> set ids then c else 0)" for c :: rat
    using assms by (induction ids) auto
  have "sum_list (map (\<lambda>i. sum_list (map f (filter (\<lambda>x. k x = i) (h # hs)))) ids) =
      sum_list (map (\<lambda>i. (if k h = i then f h else 0) + sum_list (map f (filter (\<lambda>x. k x = i) hs))) ids)"
    by (rule arg_cong [where f = sum_list], rule map_cong) auto
  then show ?case using Cons one by (simp add: sum_list_addf)
qed simp

lemma sum_order_by: "sum_list (map f (order_by g xs)) = sum_list (map (f :: 'a \<Rightarrow> rat) xs)"
proof -
  have "sum_list (map f (insort_key g x ys)) = f x + sum_list (map f ys)" for x ys by (induction ys) simp_all
  then show ?thesis unfolding order_by_def by (induction xs) simp_all
qed

lemma sum_filter_zero: "(\<And>x. \<not> P x \<Longrightarrow> f x = (0 :: rat)) \<Longrightarrow> sum_list (map f (filter P xs)) = sum_list (map f xs)"
  by (induction xs) auto

text \<open>The hourly rows the report is about.\<close>

definition reported_rows :: "db \<Rightarrow> time \<Rightarrow> int \<Rightarrow> string \<Rightarrow> metric_hourly list" where
  "reported_rows d now n tag =
     filter (\<lambda>h. h_hour h \<ge> now - hours n \<and> h_server_id h \<in> set (map s_id (report_servers d tag))) (d_hourly d)"

lemma report_sum:
  fixes f :: "metric_hourly \<Rightarrow> rat"
  assumes "distinct (map s_id (d_servers d))"
  shows "sum_list (map (\<lambda>s. sum_list (map f (usage_rows d since (s_id s)))) (report_servers d tag)) =
    sum_list (map f (filter (\<lambda>h. h_hour h \<ge> since \<and> h_server_id h \<in> set (map s_id (report_servers d tag))) (d_hourly d)))"
proof -
  have "distinct (map s_id (report_servers d tag))"
    using assms by (simp add: report_servers_def distinct_map_filter)
  from sum_by_key [OF this, of f h_server_id "filter (\<lambda>h. h_hour h \<ge> since) (d_hourly d)"] show ?thesis
    by (simp add: usage_rows_def comp_def conj_commute)
qed

lemma reported_ids:
  "s_id ` {s \<in> set (report_servers d tag). usage_rows d (now - hours n) (s_id s) \<noteq> []} = h_server_id ` set (reported_rows d now n tag)"
proof (rule set_eqI)
  fix i
  have "i \<in> s_id ` {s \<in> set (report_servers d tag). usage_rows d (now - hours n) (s_id s) \<noteq> []} \<longleftrightarrow>
      (\<exists>s \<in> set (report_servers d tag). s_id s = i) \<and> (\<exists>h \<in> set (d_hourly d). h_server_id h = i \<and> now - hours n \<le> h_hour h)"
    by (auto simp: usage_rows_def filter_empty_conv)
  also have "\<dots> \<longleftrightarrow> i \<in> h_server_id ` set (reported_rows d now n tag)"
    by (auto simp: reported_rows_def image_iff)
  finally show "i \<in> s_id ` {s \<in> set (report_servers d tag). usage_rows d (now - hours n) (s_id s) \<noteq> []} \<longleftrightarrow>
      i \<in> h_server_id ` set (reported_rows d now n tag)" .
qed

lemma usage_line_bounded:
  assumes "us_card_time_available (usage_of s rows)"
    and "\<forall>h \<in> set rows. 0 \<le> precise_idle h \<and> (\<forall>m. h_gpu_sample_minutes h = Some m \<longrightarrow> precise_idle h \<le> m)"
  shows "us_idle_held_gpu_minutes (usage_of s rows) \<le> num0 (us_gpu_sample_minutes (usage_of s rows)) \<and>
    0 \<le> us_idle_held_gpu_minutes (usage_of s rows)"
proof -
  have "precise_idle h \<le> num0 (h_gpu_sample_minutes h) \<and> 0 \<le> precise_idle h" if "h \<in> set rows" for h
  proof -
    have "h_gpu_sample_minutes h \<noteq> None" using assms(1) that by (simp add: usage_of_def Let_def list_all_iff)
    then show ?thesis using assms(2) that by (auto simp: num0_def)
  qed
  then have "sum_list (map precise_idle rows) \<le> sum_list (map (\<lambda>h. num0 (h_gpu_sample_minutes h)) rows)"
      "0 \<le> sum_list (map precise_idle rows)"
    by (auto intro!: sum_list_mono sum_list_nonneg)
  then show ?thesis using assms(1) by (simp add: usage_of_def Let_def num0_def)
qed

text \<open>
  C35.  The utilization report accounts for every hourly row exactly once: its idle total is the sum over all rows in the
  window of the servers it is about, it has a line for exactly the servers with a row, longest idle first, and as long as no row
  holds more idle than sampled card time the overall idle ratio is a percentage.
\<close>

theorem report_accounts_for_every_row:
  assumes "utilization_report d now n tag = Inr r" and "distinct (map s_id (d_servers d))"
    and "\<forall>h \<in> set (d_hourly d). 0 \<le> precise_idle h \<and> (\<forall>m. h_gpu_sample_minutes h = Some m \<longrightarrow> precise_idle h \<le> m)"
  shows "ur_total_idle_gpu_hours r = py_round_to 4 (sum_list (map precise_idle (reported_rows d now n tag)) / 60) \<and>
    us_server_id ` set (ur_servers r) = h_server_id ` set (reported_rows d now n tag) \<and>
    sorted_wrt (\<lambda>x y. us_idle_held_minutes y \<le> us_idle_held_minutes x) (ur_servers r) \<and>
    (case ur_idle_ratio_pct r of Some q \<Rightarrow> 0 \<le> q \<and> q \<le> 100 | None \<Rightarrow> \<not> ur_card_time_complete r)"
proof -
  define rows where "rows s = usage_rows d (now - hours n) (s_id s)" for s :: server
  define lines where "lines = map (\<lambda>s. usage_of s (rows s)) (filter (\<lambda>s. rows s \<noteq> []) (report_servers d tag))"
  define out where "out = order_by (\<lambda>u. - us_idle_held_minutes u) lines"
  define idle where "idle = sum_list (map us_idle_held_gpu_minutes out)"
  define total_minutes where "total_minutes = sum_list (map (\<lambda>u. num0 (us_gpu_sample_minutes u)) out)"
  have r: "ur_servers r = out" "ur_total_idle_gpu_hours r = py_round_to 4 (idle / 60)" "ur_card_time_complete r = list_all us_card_time_available out"
      "ur_idle_ratio_pct r = idle_ratio (list_all us_card_time_available out) idle total_minutes"
    using assms(1) by (auto simp: utilization_report_def Let_def out_def lines_def rows_def idle_def total_minutes_def split: if_splits)
  have idle: "idle = sum_list (map precise_idle (reported_rows d now n tag))"
  proof -
    have "idle = sum_list (map (\<lambda>s. sum_list (map precise_idle (rows s))) (report_servers d tag))"
      by (simp add: idle_def out_def sum_order_by lines_def comp_def usage_of_def Let_def) (rule sum_filter_zero, simp)
    then show ?thesis unfolding rows_def report_sum [OF assms(2)] reported_rows_def .
  qed
  have lines_of: "u \<in> set out \<longleftrightarrow> (\<exists>s \<in> set (report_servers d tag). rows s \<noteq> [] \<and> u = usage_of s (rows s))" for u
    by (auto simp: out_def lines_def set_order_by)
  have "us_server_id (usage_of s rs) = s_id s" for s rs by (simp add: usage_of_def Let_def)
  moreover have "set out = (\<lambda>s. usage_of s (rows s)) ` {s \<in> set (report_servers d tag). rows s \<noteq> []}"
    by (simp add: out_def lines_def set_order_by)
  ultimately have "us_server_id ` set out = s_id ` {s \<in> set (report_servers d tag). rows s \<noteq> []}"
    by (simp add: image_image)
  also have "\<dots> = h_server_id ` set (reported_rows d now n tag)" unfolding rows_def by (rule reported_ids)
  finally have ids: "us_server_id ` set out = h_server_id ` set (reported_rows d now n tag)" .
  have "sorted (map (\<lambda>u. - us_idle_held_minutes u) out)" by (simp add: out_def order_by_def)
  then have sorted: "sorted_wrt (\<lambda>x y. us_idle_held_minutes y \<le> us_idle_held_minutes x) out" by (simp add: sorted_map)
  have one: "us_idle_held_gpu_minutes u \<le> num0 (us_gpu_sample_minutes u) \<and> 0 \<le> us_idle_held_gpu_minutes u"
    if u: "u \<in> set out" "us_card_time_available u" for u
  proof -
    obtain s where s: "u = usage_of s (rows s)" using lines_of u(1) by blast
    have "set (rows s) \<subseteq> set (d_hourly d)" by (auto simp: rows_def usage_rows_def)
    then show ?thesis using usage_line_bounded [of s "rows s"] assms(3) u(2) unfolding s by blast
  qed
  have "0 \<le> q \<and> q \<le> 100" if "idle_ratio (list_all us_card_time_available out) idle total_minutes = Some q" for q
  proof -
    have all: "list_all us_card_time_available out" and q: "q = ratio_or_zero 1 (idle * 100) total_minutes"
      using that by (auto simp: idle_ratio_def split: if_splits)
    have "idle \<le> total_minutes" "0 \<le> idle"
      using one all unfolding idle_def total_minutes_def by (auto simp: list_all_iff intro!: sum_list_mono sum_list_nonneg)
    then have "0 \<le> idle * 100 / total_minutes" "idle * 100 / total_minutes \<le> 100"
      by (auto simp: divide_le_eq)
    then show ?thesis using py_round_to_range [of 0 "idle * 100 / total_minutes" 100 1] by (simp add: q ratio_or_zero_def)
  qed
  then show ?thesis using idle ids sorted
    by (auto simp: r idle_ratio_def split: option.splits if_splits)
qed

definition rolled_hour :: metric_hourly where
  "rolled_hour = (aggregate 0 (hours 1) 60 1 [] [])\<lparr>h_samples := 60, h_ok_samples := 45, h_gpu_sample_minutes := Some 120,
     h_idle_held_gpu_minutes := Some 30, h_hour := 0, h_server_id := 1\<rparr>"

definition report_host :: db where
  "report_host = empty_db\<lparr>d_servers := [demo_server], d_hourly := [rolled_hour]\<rparr>"

theorem report_accounts_for_every_row_witness:
  "\<exists>r. utilization_report report_host (hours 2) 24 [] = Inr r \<and> ur_total_idle_gpu_hours r = py_round_to 4 (1/2)"
proof -
  obtain r where r: "utilization_report report_host (hours 2) 24 [] = Inr r"
    by (simp add: utilization_report_def Let_def)
  have fields: "h_server_id rolled_hour = 1" "h_hour rolled_hour = 0" "precise_idle rolled_hour = 30" "h_gpu_sample_minutes rolled_hour = Some 120"
    by (simp_all add: rolled_hour_def precise_idle_def)
  have "\<forall>h \<in> set (d_hourly report_host). 0 \<le> precise_idle h \<and> (\<forall>m. h_gpu_sample_minutes h = Some m \<longrightarrow> precise_idle h \<le> m)"
    by (simp add: report_host_def fields)
  moreover have "distinct (map s_id (d_servers report_host))" by (simp add: report_host_def)
  moreover have "reported_rows report_host (hours 2) 24 [] = [rolled_hour]"
    by (simp add: reported_rows_def report_host_def fields report_servers_def demo_server_def hours_def)
  ultimately show ?thesis using report_accounts_for_every_row [OF r] r by (auto simp: fields)
qed

section \<open>What the health summary does not see\<close>

text \<open>A failed power supply, a chassis that is off and a critical BMC event are raised as critical alerts, but
  the summary counts none of them: with the host itself answering, it is reported healthy.\<close>

lemma summary_ignores_bmc_alerts:
  "list_all (\<lambda>det. map_of SEV_BY_DETECTOR det = Some ''critical'' \<and> \<not> is_critical det \<and> det \<notin> set WARNING_EVENTS)
     [''PSU_FAULT'', ''CHASSIS_POWER_OFF'', ''SEL_CRITICAL'']"
  by code_simp

lemma healthy_with_bmc_alerts:
  assumes "latest_of d (s_id s) = Some m" and "m_status m = ''ok''" and "s_status s = Some ''active''"
    and "set (open_metrics d (s_id s)) \<subseteq> {''PSU_FAULT'', ''CHASSIS_POWER_OFF'', ''SEL_CRITICAL''}"
  shows "sl_overall (summary_of d s) = ''ok''"
proof -
  have "\<not> is_critical e \<and> e \<notin> set WARNING_EVENTS" if "e \<in> set (open_metrics d (s_id s))" for e
    using that assms(4) summary_ignores_bmc_alerts by auto
  then have "filter is_critical (open_metrics d (s_id s)) = []" "filter (\<lambda>e. e \<in> set WARNING_EVENTS) (open_metrics d (s_id s)) = []"
    by (auto simp: filter_empty_conv)
  then show ?thesis by (simp add: summary_of_def assms Let_def)
qed

end
