(* ===== verification/Metrics.thy ===== *)
theory Metrics
  imports Store Accounts Cycle "HOL-Library.Multiset"
begin

text \<open>
  \<open>backend/app/api/metrics.py\<close>: the dashboard's counts, the newest sample of every server in its full and slim form,
  the downsampled history of one server, the request to poll now and the live process table with its short cache.
  Actions on processes are in theory Actions, the shared response cache in theory Cache.  Numbers of a sample are
  present or \<open>None\<close>: rows written by \<open>_poll_one\<close> always have the keys.
\<close>

section \<open>The newest sample of every server\<close>

text \<open>
  The join of the samples with the newest time of each server, as a dictionary: of several rows with the same time
  the last one read stays.
\<close>

definition newest_rows :: "db \<Rightarrow> metric list" where
  "newest_rows d =
     filter (\<lambda>m. list_all (\<lambda>r. m_server_id r = m_server_id m \<longrightarrow> m_collected_at r \<le> m_collected_at m) (d_metrics d)) (d_metrics d)"

definition latest_by_server :: "db \<Rightarrow> int \<Rightarrow> metric option" where
  "latest_by_server d sid = find (\<lambda>m. m_server_id m = sid) (rev (newest_rows d))"

text \<open>The slim form blanks the four heavy columns.\<close>

definition slim_row :: "metric \<Rightarrow> metric" where
  "slim_row m = m\<lparr>m_processes := [], m_cores := [], m_users := [], m_inodes := []\<rparr>"

definition proc_entry :: "proc \<Rightarrow> json" where
  "proc_entry p =
     JObj [(''pid'', JNum (of_int (pr_pid p))), (''ppid'', JNum (of_int (pr_ppid p))), (''cpu'', JNum (pr_cpu p)),
       (''mem'', JNum (pr_mem p)), (''rss_mb'', JNum (pr_rss_mb p)), (''vsz_mb'', JNum (pr_vsz_mb p)),
       (''stat'', JStr (pr_stat p)), (''etimes'', JNum (of_int (pr_etimes p))), (''command'', JStr (pr_command p)),
       (''user'', JStr (pr_user p))]"

text \<open>The table of processes is stored apart; it is shown only beside the sample it belongs to.\<close>

definition with_processes :: "db \<Rightarrow> metric \<Rightarrow> metric" where
  "with_processes d m =
     (case find (\<lambda>p. ps_server_id p = m_server_id m) (d_snapshots d) of
        None \<Rightarrow> m
      | Some snapshot \<Rightarrow>
          if ps_collected_at snapshot = m_collected_at m then m\<lparr>m_processes := map proc_entry (ps_processes snapshot)\<rparr> else m)"

definition latest_payload :: "bool \<Rightarrow> db \<Rightarrow> metric list" where
  "latest_payload slim d =
     List.map_filter (\<lambda>s. map_option (\<lambda>m. if slim then slim_row m else with_processes d m) (latest_by_server d (s_id s)))
       (order_by s_id (d_servers d))"

definition latest_metrics :: "bool \<Rightarrow> db \<Rightarrow> metric list" where
  "latest_metrics slim d = map minimize_metric (latest_payload slim d)"

definition server_latest :: "db \<Rightarrow> int \<Rightarrow> http_error + metric" where
  "server_latest d sid =
     (case latest_by m_collected_at (filter (\<lambda>m. m_server_id m = sid) (d_metrics d)) of
        None \<Rightarrow> Inl (HTTPException 404 ''No metrics for this server yet'')
      | Some m \<Rightarrow> Inr (minimize_metric (with_processes d m)))"

section \<open>The dashboard\<close>

record dashboard_stats =
  ds_servers_total :: nat
  ds_servers_online :: nat
  ds_servers_error :: nat
  ds_servers_disabled :: nat
  ds_gpus_total :: nat
  ds_gpu_mem_total_mb :: rat
  ds_gpu_mem_used_mb :: rat
  ds_avg_gpu_util :: rat
  ds_avg_cpu_percent :: rat
  ds_mem_total_mb :: rat
  ds_mem_used_mb :: rat
  ds_disk_total_gb :: rat
  ds_disk_used_gb :: rat

definition round_sum :: "rat list \<Rightarrow> rat" where
  "round_sum xs = py_round_to 1 (sum_list xs)"

definition dashboard :: "db \<Rightarrow> dashboard_stats" where
  "dashboard d =
     (let found = List.map_filter (\<lambda>s. latest_by_server d (s_id s)) (d_servers d);
          oks = filter (\<lambda>m. m_status m = ''ok'') found; gpus = all_gpus oks
      in \<lparr>ds_servers_total = length (d_servers d), ds_servers_online = length oks,
          ds_servers_error = length (filter (\<lambda>m. m_status m = ''error'') found),
          ds_servers_disabled = length (filter (\<lambda>s. \<not> s_enabled s) (d_servers d)), ds_gpus_total = length gpus,
          ds_gpu_mem_total_mb = round_sum (map (\<lambda>g. num0 (mem_total_mb g)) gpus),
          ds_gpu_mem_used_mb = round_sum (map (\<lambda>g. num0 (mem_used_mb g)) gpus),
          ds_avg_gpu_util = mean1 (List.map_filter utilization gpus), ds_avg_cpu_percent = mean1 (map m_cpu_percent oks),
          ds_mem_total_mb = round_sum (map m_mem_total_mb oks), ds_mem_used_mb = round_sum (map m_mem_used_mb oks),
          ds_disk_total_gb = round_sum (map m_disk_total_gb oks), ds_disk_used_gb = round_sum (map m_disk_used_gb oks)\<rparr>)"

section \<open>The history of one server\<close>

record point =
  pt_time :: time
  pt_cpu_percent :: rat
  pt_mem_percent :: rat
  pt_swap_percent :: rat
  pt_disk_percent :: rat
  pt_gpu_util :: rat
  pt_gpu_mem_percent :: rat
  pt_gpu_mem_used_mb :: rat
  pt_gpu_temp :: rat
  pt_gpu_power :: rat
  pt_gpu_clock :: rat
  pt_load1 :: rat
  pt_load_per_core :: rat
  pt_net_rx_bps :: rat
  pt_net_tx_bps :: rat
  pt_disk_read_bps :: rat
  pt_disk_write_bps :: rat

definition share :: "rat \<Rightarrow> rat \<Rightarrow> rat" where
  "share used whole = py_round_to 1 (if whole \<noteq> 0 then used / whole * 100 else 0)"

definition nonzero :: "rat list \<Rightarrow> rat list" where
  "nonzero xs = filter (\<lambda>x. x \<noteq> 0) xs"

definition point_of :: "metric \<Rightarrow> point" where
  "point_of m =
     (let gpus = m_gpus m; clocks = nonzero (map clock_graphics gpus)
      in \<lparr>pt_time = m_collected_at m, pt_cpu_percent = m_cpu_percent m, pt_mem_percent = share (m_mem_used_mb m) (m_mem_total_mb m),
          pt_swap_percent = share (m_swap_used_mb m) (m_swap_total_mb m),
          pt_disk_percent = max1 (map (\<lambda>k. num0 (percent k)) (m_disks m)),
          pt_gpu_util = mean1 (map (\<lambda>g. num0 (utilization g)) gpus),
          pt_gpu_mem_percent = mean1 (map (\<lambda>g. num0 (mem_used_mb g) / num0 (mem_total_mb g) * 100)
            (filter (\<lambda>g. num0 (mem_total_mb g) > 0) gpus)),
          pt_gpu_mem_used_mb = round_sum (map (\<lambda>g. num0 (mem_used_mb g)) gpus),
          pt_gpu_temp = max1 (nonzero (map (\<lambda>g. num0 (temperature g)) gpus)),
          pt_gpu_power = round_sum (nonzero (map (\<lambda>g. num0 (power_draw g)) gpus)),
          pt_gpu_clock = (if clocks = [] then 0 else py_round_to 0 (sum_list clocks / of_nat (length clocks))),
          pt_load1 = m_load1 m,
          pt_load_per_core = (if m_cpu_count m \<noteq> 0 then py_round_to 2 (m_load1 m / of_int (m_cpu_count m)) else 0),
          pt_net_rx_bps = round_sum (map (\<lambda>i. num0 (rx_bps i)) (m_net_ifaces m)),
          pt_net_tx_bps = round_sum (map (\<lambda>i. num0 (tx_bps i)) (m_net_ifaces m)),
          pt_disk_read_bps = round_sum (map read_bps (m_disk_io m)),
          pt_disk_write_bps = round_sum (map write_bps (m_disk_io m))\<rparr>)"

definition window :: "db \<Rightarrow> time \<Rightarrow> int \<Rightarrow> int \<Rightarrow> metric list" where
  "window d now sid n =
     order_by m_collected_at (filter (\<lambda>m. m_server_id m = sid \<and> m_collected_at m \<ge> now - hours n) (d_metrics d))"

definition stride :: "nat \<Rightarrow> nat" where
  "stride row_count = max 1 (row_count div 720)"

definition kept :: "metric list \<Rightarrow> metric list" where
  "kept rows = map snd (filter (\<lambda>(i, m). m_status m = ''ok'' \<and> i mod stride (length rows) = 0) (enumerate 0 rows))"

definition server_history :: "db \<Rightarrow> time \<Rightarrow> int \<Rightarrow> int \<Rightarrow> http_error + point list" where
  "server_history d now sid n =
     (if n < 1 \<or> n > 168 then Inl unprocessable else Inr (map point_of (kept (window d now sid n))))"

section \<open>Polling now\<close>

text \<open>The answer, and whether a cycle was started.\<close>

definition refresh_now :: "bool \<Rightarrow> (http_error + unit) \<times> bool" where
  "refresh_now locked = (if trigger_poll locked then (Inr (), True) else (Inl (HTTPException 409 (utf8 [233, 135, 135, 233, 155, 134, 229, 145, 168, 230, 156, 159, 230, 173, 163, 229, 156, 168, 232, 191, 144, 232, 161, 140, 239, 188, 140, 232, 175, 183, 231, 168, 141, 229, 144, 142, 229, 134, 141, 232, 175, 149])), False))"

section \<open>The live process table\<close>

text \<open>The tables fetched last, by server and sort order, with the reading of the monotonic clock.\<close>

type_synonym procs_cache = "(int \<times> string, rat \<times> proc list) dict"

definition PROCS_TTL :: rat where "PROCS_TTL = 10"

definition SORTS :: "string list" where "SORTS = [''cpu'', ''mem'', ''pid'', ''time'']"

definition cached_table :: "rat \<Rightarrow> int \<times> string \<Rightarrow> procs_cache \<Rightarrow> proc list option" where
  "cached_table now key c =
     (case map_of c key of None \<Rightarrow> None | Some (t, procs) \<Rightarrow> if now - t < PROCS_TTL then Some procs else None)"

text \<open>
  \<open>live\<close> is \<open>live_processes\<close> on the server's host with its credentials; \<open>later\<close> is the clock after it returned.
\<close>

definition server_processes ::
    "(server \<Rightarrow> string \<Rightarrow> string + proc list) \<Rightarrow> rat \<Rightarrow> rat \<Rightarrow> db \<Rightarrow> int \<Rightarrow> string \<Rightarrow> procs_cache
      \<Rightarrow> (http_error + proc list) \<times> procs_cache" where
  "server_processes live now later d sid sort_by c =
     (if sort_by \<notin> set SORTS then (Inl unprocessable, c)
      else case cached_table now (sid, sort_by) c of
             Some procs \<Rightarrow> (Inr procs, c)
           | None \<Rightarrow>
               (case find (\<lambda>s. s_id s = sid) (d_servers d) of
                  None \<Rightarrow> (Inl (HTTPException 404 ''Server not found''), c)
                | Some s \<Rightarrow>
                    (case live s sort_by of
                       Inl e \<Rightarrow> (Inl (HTTPException 502 e), c)
                     | Inr procs \<Rightarrow> (Inr procs, AList.update (sid, sort_by) (later, procs) c))))"

section \<open>Downsampling\<close>

lemma stride_pos [simp]: "stride n > 0" by (simp add: stride_def)

lemma multiples_below: "s > 0 \<Longrightarrow> card {i. i < n \<and> i mod s = 0} \<le> (n + s - 1) div s" for s n :: nat
proof -
  assume "s > 0"
  have "{i. i < n \<and> i mod s = 0} \<subseteq> (\<lambda>j. j * s) ` {..<(n + s - 1) div s}"
  proof
    fix i assume "i \<in> {i. i < n \<and> i mod s = 0}"
    then have "i < n" "i = i div s * s" by auto
    then have "(i div s + 1) * s \<le> n + s - 1" using \<open>s > 0\<close> by (simp add: algebra_simps)
    then have "i div s + 1 \<le> (n + s - 1) div s" using \<open>s > 0\<close> by (simp add: less_eq_div_iff_mult_less_eq)
    with \<open>i = _\<close> show "i \<in> (\<lambda>j. j * s) ` {..<(n + s - 1) div s}" by (auto intro!: image_eqI [of _ _ "i div s"])
  qed
  from card_mono [OF _ this] show ?thesis using card_image_le [of "{..<(n + s - 1) div s}" "\<lambda>j. j * s"] by simp
qed

lemma stride_bound: "(n + stride n - 1) div stride n \<le> 1439"
proof (cases "n < 1440")
  case True
  then have "stride n = 1" by (auto simp: stride_def)
  with True show ?thesis by simp
next
  case False
  define k where "k = n div 720"
  have "k \<ge> 2" using False div_le_mono [of 1440 n 720] by (simp add: k_def)
  then have k: "stride n = k" by (simp add: stride_def k_def)
  have "n < 720 * (k + 1)" using dividend_less_div_times [of 720 n] by (simp add: k_def algebra_simps)
  then have "n + k - 1 < 1440 * k" using \<open>k \<ge> 2\<close> by simp
  then show ?thesis unfolding k using \<open>k \<ge> 2\<close> by (simp add: div_less_iff_less_mult order_less_imp_le less_Suc_eq_le [symmetric])
qed

lemma length_kept: "length (kept rows) \<le> 1439"
proof -
  let ?s = "stride (length rows)"
  have "length (kept rows) = card {i. i < length rows \<and> (m_status (rows ! i) = ''ok'' \<and> i mod ?s = 0)}"
    unfolding kept_def length_map length_filter_conv_card by (rule arg_cong [of _ _ card]) (auto simp: nth_enumerate_eq)
  also have "\<dots> \<le> card {i. i < length rows \<and> i mod ?s = 0}" by (rule card_mono) auto
  also have "\<dots> \<le> 1439" using multiples_below [of ?s "length rows"] stride_bound [of "length rows"] by simp
  finally show ?thesis .
qed

lemma enumerate_ok: "map snd (filter (\<lambda>(i, m). P m) (enumerate k rows)) = filter P rows"
  by (induction rows arbitrary: k) auto

lemma kept_short: "length rows < 1440 \<Longrightarrow> kept rows = filter (\<lambda>m. m_status m = ''ok'') rows"
proof -
  assume "length rows < 1440"
  then have "stride (length rows) = 1" by (auto simp: stride_def)
  then show ?thesis by (simp add: kept_def enumerate_ok)
qed

lemma sublist_sorted: "sorted (map f (map snd (enumerate k rows))) \<Longrightarrow> sorted (map f (map snd (filter P (enumerate k rows))))"
  unfolding map_map by (rule sorted_filter)

lemma sorted_window: "sorted (map m_collected_at (window d now sid n))"
  by (simp add: window_def order_by_def)

lemma window_iff: "m \<in> set (window d now sid n) \<longleftrightarrow> m \<in> set (d_metrics d) \<and> m_server_id m = sid \<and> m_collected_at m \<ge> now - hours n"
  by (auto simp: window_def set_order_by)

lemma pt_time [simp]: "pt_time (point_of m) = m_collected_at m" by (simp add: point_of_def Let_def)

text \<open>
  The history of a server never has more than 1439 points, however many samples the window holds; its points are in the
  order of time and each shows one successful sample of this server inside the window.  While the window holds fewer
  than 1440 samples, it has a point for every successful one.
\<close>

theorem history_is_a_bounded_sample:
  assumes "server_history d now sid n = Inr series"
  shows "length series \<le> 1439" and "sorted (map pt_time series)"
    and "\<forall>p\<in>set series. \<exists>m\<in>set (d_metrics d). p = point_of m \<and> m_server_id m = sid \<and> m_status m = ''ok''
           \<and> now - hours n \<le> pt_time p"
    and "length (window d now sid n) < 1440 \<longrightarrow>
           series = map point_of (filter (\<lambda>m. m_status m = ''ok'') (window d now sid n))"
proof -
  let ?w = "window d now sid n"
  have s: "series = map point_of (kept ?w)"
    using assms by (simp add: server_history_def split: if_splits)
  show "length series \<le> 1439" by (simp add: s length_kept)
  have "sorted (map m_collected_at (kept ?w))" unfolding kept_def
    by (rule sublist_sorted) (simp only: map_snd_enumerate sorted_window)
  then show "sorted (map pt_time series)" by (simp add: s comp_def)
  have "\<exists>m\<in>set (d_metrics d). p = point_of m \<and> m_server_id m = sid \<and> m_status m = ''ok'' \<and> now - hours n \<le> pt_time p"
    if "p \<in> set series" for p
  proof -
    from that obtain i m where "(i, m) \<in> set (enumerate 0 ?w)" "m_status m = ''ok''" "p = point_of m"
      by (auto simp: s kept_def)
    moreover from this(1) have "m \<in> set ?w" using imageI [of "(i, m)" "set (enumerate 0 ?w)" snd]
      by (simp only: snd_conv set_map [symmetric] map_snd_enumerate)
    ultimately show ?thesis by (auto simp: window_iff)
  qed
  then show "\<forall>p\<in>set series. \<exists>m\<in>set (d_metrics d). p = point_of m \<and> m_server_id m = sid \<and> m_status m = ''ok''
           \<and> now - hours n \<le> pt_time p" by blast
  show "length ?w < 1440 \<longrightarrow> series = map point_of (filter (\<lambda>m. m_status m = ''ok'') ?w)"
    by (simp add: s kept_short)
qed

definition LONE_METRIC :: db where
  "LONE_METRIC = empty_db\<lparr>d_servers := [demo_server], d_metrics := [demo_metric 1 100 ''ok'' []]\<rparr>"

theorem history_is_a_bounded_sample_witness:
  "\<exists>series. server_history LONE_METRIC 0 1 3 = Inr series \<and> length series \<le> 1439"
proof -
  have "server_history LONE_METRIC 0 1 3 = Inr (map point_of (kept (window LONE_METRIC 0 1 3)))"
    by (simp add: server_history_def)
  from this history_is_a_bounded_sample(1) [OF this] show ?thesis by blast
qed

section \<open>One sample, three views\<close>

lemma map_filter_map: "map f (List.map_filter g xs) = List.map_filter (map_option f \<circ> g) xs"
  by (induction xs) (simp_all add: map_filter_simps split: option.split)

lemma minimize_slim: "minimize_metric (slim_row m) = slim_row (minimize_metric m)"
  by (simp add: minimize_metric_def slim_row_def minimize_processes_def map_filter_simps)

lemma slim_ignores_processes: "slim_row (minimize_metric (with_processes d m)) = slim_row (minimize_metric m)"
  by (simp add: slim_row_def with_processes_def minimize_metric_def split: option.split)

lemma with_processes_keys [simp]:
  "m_server_id (with_processes d m) = m_server_id m" "m_collected_at (with_processes d m) = m_collected_at m"
  by (simp_all add: with_processes_def split: option.split)

definition one_sample_per_time :: "db \<Rightarrow> bool" where
  "one_sample_per_time d \<longleftrightarrow> distinct (map (\<lambda>m. (m_server_id m, m_collected_at m)) (d_metrics d))"

lemma find_in: "find P xs = Some x \<Longrightarrow> x \<in> set xs \<and> P x"
  by (induction xs) (auto split: if_splits)

lemma latest_by_server_props:
  "latest_by_server d sid = Some m \<Longrightarrow> m \<in> set (d_metrics d) \<and> m_server_id m = sid \<and>
     (\<forall>r\<in>set (d_metrics d). m_server_id r = sid \<longrightarrow> m_collected_at r \<le> m_collected_at m)"
proof -
  assume "latest_by_server d sid = Some m"
  then have "m \<in> set (newest_rows d)" "m_server_id m = sid"
    by (auto simp: latest_by_server_def dest: find_in)
  then show ?thesis by (auto simp: newest_rows_def list_all_iff)
qed

lemma same_sample:
  "one_sample_per_time d \<Longrightarrow> a \<in> set (d_metrics d) \<Longrightarrow> b \<in> set (d_metrics d) \<Longrightarrow> m_server_id a = m_server_id b \<Longrightarrow>
     m_collected_at a = m_collected_at b \<Longrightarrow> a = b"
  unfolding one_sample_per_time_def distinct_map by (blast dest: inj_onD [of _ _ a b] intro: prod_eqI)

lemma latest_agree:
  assumes "one_sample_per_time d"
  shows "latest_by_server d sid = latest_by m_collected_at (filter (\<lambda>m. m_server_id m = sid) (d_metrics d))" (is "?l = latest_by _ ?rows")
proof (cases "latest_by m_collected_at ?rows")
  case None
  then have "?l = None"
    by (auto simp: latest_by_server_def newest_rows_def find_None_iff filter_empty_conv)
  with None show ?thesis by simp
next
  case (Some m)
  have m: "m \<in> set ?rows" "\<forall>r\<in>set ?rows. m_collected_at r \<le> m_collected_at m"
    using latest_by_in [OF Some] latest_by_max [OF Some] by blast+
  then have "m \<in> set (newest_rows d)" by (auto simp: newest_rows_def list_all_iff)
  with m(1) have "?l \<noteq> None" by (auto simp: latest_by_server_def find_None_iff)
  then obtain r where r: "?l = Some r" by blast
  from latest_by_server_props [OF r] m have "r = m"
    by (intro same_sample [OF assms]) (auto intro: order.antisym)
  with r Some show ?thesis by simp
qed

text \<open>
  C36.  The three ways to read the newest sample agree.  The slim list is the full list with its four heavy columns blanked, row
  by row.  When no server has two samples of the same time, the full list has a row for exactly the registered servers
  with a sample, by rising server id, and each row is what the endpoint of that server returns.  None of them
  shows a user name or a command line.
\<close>

theorem latest_views_agree:
  "latest_metrics True d = map slim_row (latest_metrics False d) \<and>
   list_all private_metric (latest_metrics slim d) \<and>
   (one_sample_per_time d \<longrightarrow>
     map Inr (latest_metrics False d) =
       filter (\<lambda>r. \<not> isl r) (map (\<lambda>s. server_latest d (s_id s)) (order_by s_id (d_servers d))))"
proof (intro conjI impI)
  show "latest_metrics True d = map slim_row (latest_metrics False d)"
    by (simp add: latest_metrics_def latest_payload_def map_filter_map comp_def option.map_comp minimize_slim slim_ignores_processes)
  show "list_all private_metric (latest_metrics slim d)"
    by (simp add: latest_metrics_def list_all_iff minimized_private)
  assume "one_sample_per_time d"
  then have view: "server_latest d sid = (case latest_by_server d sid of
      None \<Rightarrow> Inl (HTTPException 404 ''No metrics for this server yet'') | Some m \<Rightarrow> Inr (minimize_metric (with_processes d m)))" for sid
    by (simp add: server_latest_def latest_agree)
  have "map Inr (List.map_filter (\<lambda>s. map_option (\<lambda>m. minimize_metric (with_processes d m)) (latest_by_server d (s_id s))) ss) =
      filter (\<lambda>r. \<not> isl r) (map (\<lambda>s. server_latest d (s_id s)) ss)" for ss
    by (induction ss) (simp_all add: map_filter_simps view split: option.split)
  then show "map Inr (latest_metrics False d) =
      filter (\<lambda>r. \<not> isl r) (map (\<lambda>s. server_latest d (s_id s)) (order_by s_id (d_servers d)))"
    by (simp add: latest_metrics_def latest_payload_def map_filter_map comp_def option.map_comp)
qed

theorem latest_views_agree_witness:
  "one_sample_per_time LONE_METRIC \<and>
   map Inr (latest_metrics False LONE_METRIC) =
     filter (\<lambda>r. \<not> isl r) (map (\<lambda>s. server_latest LONE_METRIC (s_id s)) (order_by s_id (d_servers LONE_METRIC)))"
proof -
  have "one_sample_per_time LONE_METRIC" by (simp add: one_sample_per_time_def LONE_METRIC_def)
  then show ?thesis using latest_views_agree [of LONE_METRIC] by blast
qed

section \<open>The dashboard and the list\<close>

lemma map_filter_order_by: "mset (List.map_filter f (order_by g xs)) = mset (List.map_filter f xs)"
proof -
  have "mset (List.map_filter f ys) = image_mset (\<lambda>x. the (f x)) (filter_mset (\<lambda>x. f x \<noteq> None) (mset ys))" for ys
    by (induction ys) (auto simp: map_filter_simps split: option.split)
  then show ?thesis by (simp add: order_by_def)
qed

lemma count_found: "length (filter P (List.map_filter f (order_by g xs))) = length (filter P (List.map_filter f xs))"
  by (metis map_filter_order_by mset_filter size_mset)

lemma sum_found:
  "sum_list (map h (filter P (List.map_filter f (order_by g xs)))) = sum_list (map h (filter P (List.map_filter f xs)))"
  for h :: "'b \<Rightarrow> nat"
  by (metis map_filter_order_by mset_filter mset_map sum_mset_sum_list)

lemma latest_found:
  "latest_metrics slim d = map (\<lambda>m. minimize_metric (if slim then slim_row m else with_processes d m))
     (List.map_filter (\<lambda>s. latest_by_server d (s_id s)) (order_by s_id (d_servers d)))"
  by (simp add: latest_metrics_def latest_payload_def map_filter_map comp_def option.map_comp if_distrib cong: if_cong)

lemma view_status [simp]: "m_status (slim_row m) = m_status m" "m_status (with_processes d m) = m_status m"
  by (simp_all add: slim_row_def with_processes_def split: option.split)

lemma view_gpus [simp]:
  "length (m_gpus (minimize_metric m)) = length (m_gpus m)" "m_gpus (slim_row m) = m_gpus m"
  "m_gpus (with_processes d m) = m_gpus m"
  by (simp_all add: slim_row_def with_processes_def minimize_metric_def minimize_gpus_def split: option.split)

lemma two_statuses:
  "a \<noteq> b \<Longrightarrow> length (filter (\<lambda>x. f x = a) xs) + length (filter (\<lambda>x. f x = b) xs) \<le> length xs"
  by (induction xs) auto

lemma round_sum_mono: "(\<forall>m\<in>set xs. f m \<le> g m) \<Longrightarrow> round_sum (map f xs) \<le> round_sum (map g xs)"
  unfolding round_sum_def by (intro py_round_to_mono sum_list_mono) blast

text \<open>
  The dashboard agrees with the list of newest samples, in either form: it counts the rows of the list that are
  successful and those that failed, and the cards of the successful ones; no server is counted as both.  Used memory and
  disk never exceed the totals when they do not on any sample, and the mean load is a percentage when each one is.
\<close>

theorem dashboard_counts_the_list:
  "ds_servers_online (dashboard d) = length (filter (\<lambda>m. m_status m = ''ok'') (latest_metrics slim d)) \<and>
   ds_servers_error (dashboard d) = length (filter (\<lambda>m. m_status m = ''error'') (latest_metrics slim d)) \<and>
   ds_gpus_total (dashboard d) =
     sum_list (map (\<lambda>m. length (m_gpus m)) (filter (\<lambda>m. m_status m = ''ok'') (latest_metrics slim d))) \<and>
   ds_servers_online (dashboard d) + ds_servers_error (dashboard d) \<le> ds_servers_total (dashboard d) \<and>
   ((\<forall>m\<in>set (d_metrics d). m_mem_used_mb m \<le> m_mem_total_mb m) \<longrightarrow> ds_mem_used_mb (dashboard d) \<le> ds_mem_total_mb (dashboard d)) \<and>
   ((\<forall>m\<in>set (d_metrics d). m_disk_used_gb m \<le> m_disk_total_gb m) \<longrightarrow> ds_disk_used_gb (dashboard d) \<le> ds_disk_total_gb (dashboard d)) \<and>
   ((\<forall>m\<in>set (d_metrics d). m_cpu_percent m \<le> 100) \<longrightarrow> ds_avg_cpu_percent (dashboard d) \<le> 100)"
proof -
  let ?found = "List.map_filter (\<lambda>s. latest_by_server d (s_id s)) (d_servers d)"
  let ?view = "\<lambda>m. minimize_metric (if slim then slim_row m else with_processes d m)"
  have status: "m_status (?view m) = m_status m" and gpus: "m_gpus (if slim then slim_row m else with_processes d m) = m_gpus m" for m
    by simp_all
  have found: "m \<in> set (d_metrics d)" if "m \<in> set ?found" for m
    using that by (auto simp: set_map_filter dest: latest_by_server_props)
  have counted: "length (filter (\<lambda>m. m_status m = st) (latest_metrics slim d)) = length (filter (\<lambda>m. m_status m = st) ?found)" for st
    by (simp add: latest_found filter_map comp_def status count_found)
  have "ds_gpus_total (dashboard d) = sum_list (map (\<lambda>m. length (m_gpus m)) (filter (\<lambda>m. m_status m = ''ok'') ?found))"
    by (simp add: dashboard_def Let_def all_gpus_def length_concat comp_def)
  also have "\<dots> = sum_list (map (\<lambda>m. length (m_gpus m)) (filter (\<lambda>m. m_status m = ''ok'') (latest_metrics slim d)))"
    by (simp add: latest_found filter_map comp_def status gpus sum_found)
  finally have cards: "ds_gpus_total (dashboard d) = \<dots>" .
  have "length ?found \<le> length (d_servers d)" by (rule length_map_filter)
  then have fits: "ds_servers_online (dashboard d) + ds_servers_error (dashboard d) \<le> ds_servers_total (dashboard d)"
    using two_statuses [of "''ok''" "''error''" m_status ?found] by (simp add: dashboard_def Let_def)
  have rounded: "round_sum (map f (filter P ?found)) \<le> round_sum (map g (filter P ?found))"
    if "\<forall>m\<in>set (d_metrics d). f m \<le> g m" for f g P
    using that found by (intro round_sum_mono) auto
  have "max1 xs \<le> 100" if "\<forall>x\<in>set xs. x \<le> 100" for xs :: "rat list"
  proof (cases "xs = []")
    case False
    then have "Max (set xs) \<le> 100" using that by simp
    then have "py_round_to 1 (Max (set xs)) \<le> py_round_to 1 (of_int 100)" by (intro py_round_to_mono) simp
    then show ?thesis unfolding py_round_to_of_int by (simp add: max1_def)
  qed (simp add: max1_def)
  then have mean: "mean1 xs \<le> 100" if "\<forall>x\<in>set xs. x \<le> 100" for xs :: "rat list"
    using that mean1_le_max1 [of xs] order_trans by blast
  have loads: "(\<forall>m\<in>set (d_metrics d). m_cpu_percent m \<le> 100) \<longrightarrow> ds_avg_cpu_percent (dashboard d) \<le> 100"
    using found by (auto simp: dashboard_def Let_def intro!: mean)
  have fields: "ds_servers_online (dashboard d) = length (filter (\<lambda>m. m_status m = ''ok'') ?found)"
    "ds_servers_error (dashboard d) = length (filter (\<lambda>m. m_status m = ''error'') ?found)"
    "ds_mem_used_mb (dashboard d) = round_sum (map m_mem_used_mb (filter (\<lambda>m. m_status m = ''ok'') ?found))"
    "ds_mem_total_mb (dashboard d) = round_sum (map m_mem_total_mb (filter (\<lambda>m. m_status m = ''ok'') ?found))"
    "ds_disk_used_gb (dashboard d) = round_sum (map m_disk_used_gb (filter (\<lambda>m. m_status m = ''ok'') ?found))"
    "ds_disk_total_gb (dashboard d) = round_sum (map m_disk_total_gb (filter (\<lambda>m. m_status m = ''ok'') ?found))"
    by (simp_all add: dashboard_def Let_def)
  show ?thesis unfolding counted using fields cards fits loads rounded by simp
qed

theorem dashboard_counts_the_list_witness:
  "ds_servers_online (dashboard LONE_METRIC) = length (filter (\<lambda>m. m_status m = ''ok'') (latest_metrics True LONE_METRIC)) \<and>
   ds_mem_used_mb (dashboard LONE_METRIC) \<le> ds_mem_total_mb (dashboard LONE_METRIC)"
proof -
  have "\<forall>m\<in>set (d_metrics LONE_METRIC). m_mem_used_mb m \<le> m_mem_total_mb m" by (simp add: LONE_METRIC_def demo_metric_def)
  then show ?thesis using dashboard_counts_the_list [of LONE_METRIC True] by blast
qed

text \<open>A server that was disabled after a successful sample counts as disabled and as online, for as long as the sample is kept.\<close>

definition RETIRED :: db where
  "RETIRED = empty_db\<lparr>d_servers := [demo_server\<lparr>s_enabled := False\<rparr>], d_metrics := [demo_metric 1 100 ''ok'' []]\<rparr>"

lemma disabled_server_online: "ds_servers_disabled (dashboard RETIRED) = 1 \<and> ds_servers_online (dashboard RETIRED) = 1"
  by (simp add: dashboard_def Let_def RETIRED_def latest_by_server_def newest_rows_def map_filter_simps demo_server_def demo_metric_def)

section \<open>Tables of processes are at most ten seconds old\<close>

record table_call =
  tc_live :: "server \<Rightarrow> string \<Rightarrow> string + proc list"
  tc_now :: rat
  tc_later :: rat
  tc_db :: db
  tc_id :: int
  tc_sort :: string

definition answer_table :: "table_call \<Rightarrow> procs_cache \<Rightarrow> (http_error + proc list) \<times> procs_cache" where
  "answer_table q c = server_processes (tc_live q) (tc_now q) (tc_later q) (tc_db q) (tc_id q) (tc_sort q) c"

definition after_tables :: "table_call list \<Rightarrow> procs_cache" where
  "after_tables qs = fold (\<lambda>q c. snd (answer_table q c)) qs []"

text \<open>The host of the server answered this request with this table.\<close>

definition fetched :: "table_call \<Rightarrow> proc list \<Rightarrow> bool" where
  "fetched q procs \<longleftrightarrow> (\<exists>s. find (\<lambda>s. s_id s = tc_id q) (d_servers (tc_db q)) = Some s \<and> tc_live q s (tc_sort q) = Inr procs)"

lemma server_processes_cases:
  assumes "answer_table q c = (Inr procs, c')"
  obtains (hit) t where "map_of c (tc_id q, tc_sort q) = Some (t, procs)" "tc_now q - t < PROCS_TTL" "c' = c"
    | (miss) "fetched q procs" "c' = AList.update (tc_id q, tc_sort q) (tc_later q, procs) c"
proof (cases "cached_table (tc_now q) (tc_id q, tc_sort q) c")
  case None
  with assms that(2) show ?thesis
    by (simp add: answer_table_def server_processes_def fetched_def split: if_splits option.splits sum.splits)
next
  case (Some t)
  with assms have "t = procs" "c' = c" by (simp_all add: answer_table_def server_processes_def split: if_splits)
  with Some that(1) show ?thesis by (simp add: cached_table_def split: option.splits if_splits prod.splits)
qed

lemma refused_leaves_cache: "answer_table q c = (Inl e, c') \<Longrightarrow> c' = c"
  by (auto simp: answer_table_def server_processes_def split: if_splits option.splits sum.splits)

lemma tables_come_from_calls:
  "map_of (after_tables qs) key = Some (t, procs) \<Longrightarrow>
     \<exists>q\<in>set qs. (tc_id q, tc_sort q) = key \<and> tc_later q = t \<and> fetched q procs"
proof (induction qs rule: rev_induct)
  case (snoc q qs)
  obtain r c' where call: "answer_table q (after_tables qs) = (r, c')" by fastforce
  with snoc.prems have lookup: "map_of c' key = Some (t, procs)" by (simp add: after_tables_def)
  show ?case
  proof (cases r)
    case (Inl e)
    then show ?thesis using refused_leaves_cache call lookup snoc.IH by fastforce
  next
    case (Inr p)
    with call have "answer_table q (after_tables qs) = (Inr p, c')" by simp
    then show ?thesis
    proof (cases rule: server_processes_cases)
      case (hit t')
      with lookup snoc.IH show ?thesis by auto
    next
      case miss
      with lookup snoc.IH show ?thesis by (auto simp: update_conv' split: if_splits)
    qed
  qed
qed (simp add: after_tables_def)

text \<open>
  A process table that is answered was fetched from the host of that server for this very request, or less than ten
  seconds ago for an earlier request with the same server and the same order.
\<close>

theorem process_table_is_fresh:
  assumes "fst (answer_table q (after_tables earlier)) = Inr procs"
  shows "fetched q procs \<or>
    (\<exists>q'\<in>set earlier. tc_id q' = tc_id q \<and> tc_sort q' = tc_sort q \<and> fetched q' procs \<and> tc_now q - tc_later q' < 10)"
proof -
  obtain c' where "answer_table q (after_tables earlier) = (Inr procs, c')" using assms by (metis prod.collapse)
  then show ?thesis
  proof (cases rule: server_processes_cases)
    case (hit t)
    from tables_come_from_calls [OF hit(1)] hit(2) show ?thesis by (auto simp: PROCS_TTL_def)
  qed simp
qed

definition ASK_TABLE :: table_call where
  "ASK_TABLE = \<lparr>tc_live = (\<lambda>s order. Inr []), tc_now = 0, tc_later = 1, tc_db = RETIRED, tc_id = 1, tc_sort = ''cpu''\<rparr>"

theorem process_table_is_fresh_witness:
  "fst (answer_table (ASK_TABLE\<lparr>tc_now := 5\<rparr>) (after_tables [ASK_TABLE])) = Inr [] \<and>
   (fetched (ASK_TABLE\<lparr>tc_now := 5\<rparr>) [] \<or>
    (\<exists>q'\<in>set [ASK_TABLE]. tc_id q' = tc_id (ASK_TABLE\<lparr>tc_now := 5\<rparr>) \<and> tc_sort q' = tc_sort (ASK_TABLE\<lparr>tc_now := 5\<rparr>) \<and>
       fetched q' [] \<and> tc_now (ASK_TABLE\<lparr>tc_now := 5\<rparr>) - tc_later q' < 10))"
proof -
  have "fst (answer_table (ASK_TABLE\<lparr>tc_now := 5\<rparr>) (after_tables [ASK_TABLE])) = Inr []"
    by (simp add: answer_table_def after_tables_def server_processes_def cached_table_def ASK_TABLE_def SORTS_def RETIRED_def
        demo_server_def PROCS_TTL_def)
  from conjI [OF this process_table_is_fresh [OF this]] show ?thesis .
qed

end
