(* ===== verification/Cockpit.thy ===== *)
theory Cockpit
  imports Metrics
begin

text \<open>
  \<open>backend/app/api/cockpit.py\<close>: the cluster's history by minute, its present power draw, its energy by day and the
  matrix of cards.  The caches in front of them are the subject of theory Cache.  Keys that are texts of a minute, an hour
  or a day in the source are the instant they begin at here; their order is the same.
\<close>

section \<open>Grouping\<close>

text \<open>A dictionary that collects a value per key, each item added to its key's value so far.\<close>

definition collect_into :: "('a \<Rightarrow> 'k) \<Rightarrow> ('a \<Rightarrow> 'v \<Rightarrow> 'v) \<Rightarrow> 'v \<Rightarrow> 'a \<Rightarrow> ('k, 'v) dict \<Rightarrow> ('k, 'v) dict" where
  "collect_into key add fresh x groups = AList.update (key x) (add x (the_default fresh (map_of groups (key x)))) groups"

definition grouped :: "('a \<Rightarrow> 'k) \<Rightarrow> ('a \<Rightarrow> 'v \<Rightarrow> 'v) \<Rightarrow> 'v \<Rightarrow> 'a list \<Rightarrow> ('k, 'v) dict" where
  "grouped key add fresh xs = fold (collect_into key add fresh) xs []"

section \<open>History of the cluster\<close>

record bucket =
  bk_cpu_total :: rat
  bk_cpu_count :: nat
  bk_mem_total :: rat
  bk_mem_count :: nat
  bk_gpu_util_total :: rat
  bk_gpu_util_count :: nat
  bk_gpu_mem_total :: rat
  bk_gpu_mem_count :: nat
  bk_gpu_temp_max :: rat
  bk_net_rx_total :: rat
  bk_net_tx_total :: rat
  bk_disk_read_total :: rat
  bk_disk_write_total :: rat
  bk_gpu_power_by_srv :: "(int, rat \<times> nat) dict"

definition new_bucket :: bucket where
  "new_bucket = \<lparr>bk_cpu_total = 0, bk_cpu_count = 0, bk_mem_total = 0, bk_mem_count = 0, bk_gpu_util_total = 0,
     bk_gpu_util_count = 0, bk_gpu_mem_total = 0, bk_gpu_mem_count = 0, bk_gpu_temp_max = 0, bk_net_rx_total = 0,
     bk_net_tx_total = 0, bk_disk_read_total = 0, bk_disk_write_total = 0, bk_gpu_power_by_srv = []\<rparr>"

definition add_gpu :: "gpu \<Rightarrow> bucket \<Rightarrow> bucket" where
  "add_gpu g b =
     (let sized = num0 (mem_total_mb g) \<noteq> 0
      in b\<lparr>bk_gpu_util_total := bk_gpu_util_total b + num0 (utilization g), bk_gpu_util_count := bk_gpu_util_count b + 1,
           bk_gpu_mem_total := bk_gpu_mem_total b + (if sized then num0 (mem_used_mb g) / num0 (mem_total_mb g) * 100 else 0),
           bk_gpu_mem_count := bk_gpu_mem_count b + (if sized then 1 else 0),
           bk_gpu_temp_max := max (bk_gpu_temp_max b) (num0 (temperature g))\<rparr>)"

definition power_of :: "metric \<Rightarrow> rat" where
  "power_of m = sum_list (map (\<lambda>g. num0 (power_draw g)) (m_gpus m))"

definition add_power :: "metric \<Rightarrow> rat \<times> nat \<Rightarrow> rat \<times> nat" where
  "add_power m p = (fst p + power_of m, snd p + 1)"

definition add_metric :: "metric \<Rightarrow> bucket \<Rightarrow> bucket" where
  "add_metric m b =
     (let sized = m_mem_total_mb m \<noteq> 0;
          b1 = b\<lparr>bk_cpu_total := bk_cpu_total b + m_cpu_percent m, bk_cpu_count := bk_cpu_count b + 1,
                 bk_mem_total := bk_mem_total b + (if sized then m_mem_used_mb m / m_mem_total_mb m * 100 else 0),
                 bk_mem_count := bk_mem_count b + (if sized then 1 else 0)\<rparr>;
          b2 = fold add_gpu (m_gpus m) b1
      in b2\<lparr>bk_gpu_power_by_srv := collect_into m_server_id add_power (0, 0) m (bk_gpu_power_by_srv b2),
            bk_net_rx_total := bk_net_rx_total b2 + num0 (m_net_rx_bytes m),
            bk_net_tx_total := bk_net_tx_total b2 + num0 (m_net_tx_bytes m),
            bk_disk_read_total := bk_disk_read_total b2 + sum_list (map read_bps (m_disk_io m)),
            bk_disk_write_total := bk_disk_write_total b2 + sum_list (map write_bps (m_disk_io m))\<rparr>)"

definition minute_of :: "time \<Rightarrow> time" where
  "minute_of t = t - t mod minutes 1"

record cluster_point =
  cp_time :: time
  cp_cpu_percent :: rat
  cp_mem_percent :: rat
  cp_gpu_util :: rat
  cp_gpu_mem_percent :: rat
  cp_gpu_temp :: rat
  cp_gpu_power :: rat
  cp_net_bps :: rat
  cp_net_bps_tx :: rat
  cp_disk_bps :: rat
  cp_disk_bps_write :: rat

definition bucket_mean :: "rat \<Rightarrow> nat \<Rightarrow> rat" where
  "bucket_mean t n = (if n \<noteq> 0 then py_round_to 1 (t / of_nat n) else 0)"

definition cluster_point_of :: "time \<times> bucket \<Rightarrow> cluster_point" where
  "cluster_point_of kb =
     (let b = snd kb
      in \<lparr>cp_time = fst kb, cp_cpu_percent = bucket_mean (bk_cpu_total b) (bk_cpu_count b),
          cp_mem_percent = bucket_mean (bk_mem_total b) (bk_mem_count b),
          cp_gpu_util = bucket_mean (bk_gpu_util_total b) (bk_gpu_util_count b),
          cp_gpu_mem_percent = bucket_mean (bk_gpu_mem_total b) (bk_gpu_mem_count b),
          cp_gpu_temp = py_round_to 1 (bk_gpu_temp_max b),
          cp_gpu_power = round_sum (map (\<lambda>(sid, t, n). t / of_nat n) (bk_gpu_power_by_srv b)),
          cp_net_bps = py_round_to 1 (bk_net_rx_total b), cp_net_bps_tx = py_round_to 1 (bk_net_tx_total b),
          cp_disk_bps = py_round_to 1 (bk_disk_read_total b), cp_disk_bps_write = py_round_to 1 (bk_disk_write_total b)\<rparr>)"

definition cluster_rows :: "db \<Rightarrow> time \<Rightarrow> int \<Rightarrow> metric list" where
  "cluster_rows d now n =
     order_by m_collected_at (filter (\<lambda>m. m_collected_at m \<ge> now - hours n \<and> m_status m = ''ok'') (d_metrics d))"

definition cluster_history :: "db \<Rightarrow> time \<Rightarrow> int \<Rightarrow> http_error + cluster_point list" where
  "cluster_history d now n =
     (if n < 1 \<or> n > 48 then Inl unprocessable
      else Inr (map cluster_point_of
        (order_by fst (grouped (\<lambda>m. minute_of (m_collected_at m)) add_metric new_bucket (cluster_rows d now n)))))"

section \<open>Power now\<close>

definition newest_ok_rows :: "db \<Rightarrow> metric list" where
  "newest_ok_rows d =
     (let good = filter (\<lambda>m. m_status m = ''ok'') (d_metrics d)
      in filter (\<lambda>m. list_ex (\<lambda>r. m_server_id r = m_server_id m \<and> m_collected_at r = m_collected_at m) good
           \<and> list_all (\<lambda>r. m_server_id r = m_server_id m \<longrightarrow> m_collected_at r \<le> m_collected_at m) good) (d_metrics d))"

definition cluster_power_now :: "db \<Rightarrow> rat \<times> nat" where
  "cluster_power_now d =
     (let draws = nonzero (map power_of (newest_ok_rows d)) in (round_sum draws, length draws))"

section \<open>The matrix of cards\<close>

record matrix_gpu =
  mg_index :: "int option"
  mg_name :: "string option"
  mg_utilization :: rat
  mg_mem_used_mb :: rat
  mg_mem_total_mb :: rat
  mg_temperature :: rat
  mg_power_draw :: rat
  mg_power_limit :: rat
  mg_pstate :: string
  mg_processes :: "gpu_process list"

record matrix_row =
  mr_server_id :: int
  mr_server_name :: string
  mr_enabled :: bool
  mr_status :: string
  mr_tags :: "string list"
  mr_online :: bool
  mr_error :: string
  mr_hostname :: string
  mr_gpus :: "matrix_gpu list"

definition matrix_gpu_of :: "gpu \<Rightarrow> matrix_gpu" where
  "matrix_gpu_of g =
     \<lparr>mg_index = index g, mg_name = gname g, mg_utilization = num0 (utilization g), mg_mem_used_mb = num0 (mem_used_mb g),
      mg_mem_total_mb = num0 (mem_total_mb g), mg_temperature = num0 (temperature g), mg_power_draw = num0 (power_draw g),
      mg_power_limit = num0 (power_limit g), mg_pstate = pstate g, mg_processes = gpu_processes g\<rparr>"

definition matrix_row_of :: "db \<Rightarrow> server \<Rightarrow> matrix_row" where
  "matrix_row_of d s =
     (let m = latest_by_server d (s_id s);
          online = (case m of Some m \<Rightarrow> m_status m = ''ok'' | None \<Rightarrow> False)
      in \<lparr>mr_server_id = s_id s, mr_server_name = s_name s, mr_enabled = s_enabled s,
          mr_status = name_or (str0 (s_status s)) ''active'', mr_tags = s_tags s, mr_online = online,
          mr_error = (case m of Some m \<Rightarrow> if m_status m \<noteq> ''ok'' then m_error m else [] | None \<Rightarrow> []),
          mr_hostname = (case m of Some m \<Rightarrow> m_hostname m | None \<Rightarrow> []),
          mr_gpus = (if online then map matrix_gpu_of (m_gpus (the m)) else [])\<rparr>)"

definition gpu_matrix :: "db \<Rightarrow> matrix_row list" where
  "gpu_matrix d = map (matrix_row_of d) (order_by s_id (filter (\<lambda>s. s_server_type s \<noteq> ''cpu'') (d_servers d)))"

definition minimize_matrix :: "matrix_gpu list \<Rightarrow> matrix_gpu list" where
  "minimize_matrix gpus = map (\<lambda>g. g\<lparr>mg_processes := map minimize_gpu_process (mg_processes g)\<rparr>) gpus"

definition cluster_gpus :: "db \<Rightarrow> matrix_row list" where
  "cluster_gpus d = map (\<lambda>r. r\<lparr>mr_gpus := minimize_matrix (mr_gpus r)\<rparr>) (gpu_matrix d)"

section \<open>Energy\<close>

definition day_of :: "time \<Rightarrow> time" where
  "day_of t = t - t mod days 1"

definition rat_mean :: "rat list \<Rightarrow> rat" where
  "rat_mean xs = sum_list xs / of_nat (length xs)"

text \<open>
  The averages per server and hour that the database computes: measured power from the BMCs, and the number of cards
  in the samples.  \<open>None\<close>: no row.
\<close>

definition measured :: "db \<Rightarrow> time \<Rightarrow> int \<times> time \<Rightarrow> rat option" where
  "measured d since key =
     (let ws = map is_power_w (filter (\<lambda>r. (is_server_id r, hour_floor (is_collected_at r)) = key \<and> is_collected_at r \<ge> since
                 \<and> bm_ok (is_data r) \<and> is_power_w r > 0) (d_ipmi d))
      in if ws = [] then None else Some (rat_mean ws))"

definition cards_in_hour :: "db \<Rightarrow> time \<Rightarrow> int \<times> time \<Rightarrow> rat option" where
  "cards_in_hour d since key =
     (let ns = map (\<lambda>m. of_int (m_gpu_count m)) (filter (\<lambda>m. (m_server_id m, hour_floor (m_collected_at m)) = key
                 \<and> m_collected_at m \<ge> since \<and> m_status m = ''ok'' \<and> m_gpu_count m > 0) (d_metrics d))
      in if ns = [] then None else Some (rat_mean ns))"

definition hourly_rows :: "db \<Rightarrow> time \<Rightarrow> metric_hourly list" where
  "hourly_rows d since = filter (\<lambda>h. h_hour h \<ge> since) (d_hourly d)"

definition estimated :: "db \<Rightarrow> time \<Rightarrow> int \<times> time \<Rightarrow> rat option" where
  "estimated d since key =
     (case find (\<lambda>h. (h_server_id h, h_hour h) = key) (rev (hourly_rows d since)) of
        None \<Rightarrow> None
      | Some h \<Rightarrow> map_option (\<lambda>n. h_gpu_power_avg h * n) (cards_in_hour d since key))"

text \<open>The hours of either table, in any order.\<close>

definition energy_hours :: "db \<Rightarrow> time \<Rightarrow> (int \<times> time) list" where
  "energy_hours d since =
     filter (\<lambda>k. measured d since k \<noteq> None \<or> estimated d since k \<noteq> None)
       (remdups (map (\<lambda>r. (is_server_id r, hour_floor (is_collected_at r))) (d_ipmi d) @
                 map (\<lambda>h. (h_server_id h, h_hour h)) (d_hourly d)))"

text \<open>What stands for an hour: the measurement, else the estimate; an hour without watts is left out.\<close>

definition hour_watts :: "db \<Rightarrow> time \<Rightarrow> int \<times> time \<Rightarrow> rat" where
  "hour_watts d since key =
     (case measured d since key of
        Some w \<Rightarrow> if w \<noteq> 0 then w else num0 (estimated d since key)
      | None \<Rightarrow> num0 (estimated d since key))"

text \<open>Readings of a day: the day, the server and the watts.\<close>

type_synonym reading = "time \<times> int \<times> rat"

definition hour_readings :: "db \<Rightarrow> time \<Rightarrow> reading list" where
  "hour_readings d since =
     map (\<lambda>k. (day_of (snd k), fst k, hour_watts d since k)) (filter (\<lambda>k. hour_watts d since k \<noteq> 0) (energy_hours d since))"

definition today_readings :: "db \<Rightarrow> time \<Rightarrow> time \<Rightarrow> reading list" where
  "today_readings d since midnight =
     map (\<lambda>m. (midnight, m_server_id m, power_of m))
       (filter (\<lambda>m. \<not> list_ex (\<lambda>k. fst k = m_server_id m \<and> measured d since k \<noteq> None \<and> day_of (snd k) = midnight) (energy_hours d since))
         (order_by m_collected_at (filter (\<lambda>m. m_collected_at m \<ge> midnight \<and> m_status m = ''ok'') (d_metrics d))))"

record energy_day =
  ed_date :: time
  ed_samples :: nat
  ed_coverage :: rat
  ed_avg_w :: rat
  ed_peak_w :: rat
  ed_kwh :: rat
  ed_cost :: "rat option"

record energy_report =
  er_days :: "energy_day list"
  er_total_kwh :: rat
  er_avg_kwh_per_day :: rat
  er_price :: rat
  er_total_cost :: "rat option"

definition watts_of :: "reading list \<Rightarrow> int \<Rightarrow> rat list" where
  "watts_of rs sid = map (\<lambda>(day, s, w). w) (filter (\<lambda>(day, s, w). s = sid) rs)"

definition cost :: "rat \<Rightarrow> rat \<Rightarrow> rat option" where
  "cost price kwh = (if price \<noteq> 0 then Some (py_round_to 2 (kwh * price)) else None)"

definition energy_day_of :: "rat \<Rightarrow> time \<Rightarrow> reading list \<Rightarrow> energy_day" where
  "energy_day_of price day rs =
     (let servers = remdups (map (\<lambda>(day, s, w). s) rs);
          mean_w = sum_list (map (\<lambda>s. rat_mean (watts_of rs s)) servers);
          kwh = mean_w * 24 / 1000
      in \<lparr>ed_date = day, ed_samples = length rs,
          ed_coverage = py_round_to 2 (min 1 (of_nat (length rs) / of_nat (1440 * max 1 (length servers)))),
          ed_avg_w = py_round_to 1 mean_w, ed_peak_w = py_round_to 1 (Max (set (map (\<lambda>(day, s, w). w) rs))),
          ed_kwh = py_round_to 2 kwh, ed_cost = cost price kwh\<rparr>)"

definition readings :: "db \<Rightarrow> time \<Rightarrow> int \<Rightarrow> reading list" where
  "readings d now n =
     (let since = now - days (n + 1) in hour_readings d since @ today_readings d since (day_of now))"

definition energy_report_of :: "rat \<Rightarrow> reading list \<Rightarrow> energy_report" where
  "energy_report_of price rs =
     (let out = map (\<lambda>day. energy_day_of price day (filter (\<lambda>r. fst r = day) rs)) (order_by id (remdups (map fst rs)));
          total_kwh = py_round_to 1 (sum_list (map ed_kwh out))
      in \<lparr>er_days = out, er_total_kwh = total_kwh,
          er_avg_kwh_per_day = (if out \<noteq> [] then py_round_to 2 (total_kwh / of_nat (length out)) else 0),
          er_price = price, er_total_cost = cost price total_kwh\<rparr>)"

text \<open>A stored price that is no number ends the request with an internal error.\<close>

definition cluster_energy :: "db \<Rightarrow> time \<Rightarrow> int \<Rightarrow> http_error + energy_report" where
  "cluster_energy d now n =
     (if n < 1 \<or> n > 90 then Inl unprocessable
      else let value = the_default [] (map_of (d_settings d) ''energy_price'')
           in case (if value = [] then Some 0 else py_float value) of
                None \<Rightarrow> Inl (Crash ''could not convert string to float'')
              | Some price \<Rightarrow> Inr (energy_report_of price (readings d now n)))"

section \<open>Facts on grouping\<close>

lemma collect_lookup:
  "map_of (collect_into key add fresh x gs) k =
     (if key x = k then Some (add x (the_default fresh (map_of gs k))) else map_of gs k)"
  by (simp add: collect_into_def update_conv')

lemma map_of_collect:
  "map_of (fold (collect_into key add fresh) xs gs) k =
     (if k \<in> key ` set xs then Some (fold add (filter (\<lambda>x. key x = k) xs) (the_default fresh (map_of gs k))) else map_of gs k)"
proof (induction xs arbitrary: gs)
  case (Cons x xs)
  have none: "filter (\<lambda>x. key x = k) xs = []" if "k \<notin> key ` set xs" using that by (auto simp: filter_empty_conv)
  show ?case by (auto simp: Cons.IH collect_lookup the_default_def none)
qed simp

lemma map_of_grouped:
  "map_of (grouped key add fresh xs) k =
     (if k \<in> key ` set xs then Some (fold add (filter (\<lambda>x. key x = k) xs) fresh) else None)"
  by (simp add: grouped_def map_of_collect the_default_def)

lemma distinct_grouped: "distinct (map fst (grouped key add fresh xs))"
proof -
  have "distinct (map fst (fold (collect_into key add fresh) xs gs))" if "distinct (map fst gs)" for gs
    using that by (induction xs arbitrary: gs) (simp_all add: collect_into_def distinct_update)
  then show ?thesis by (simp add: grouped_def)
qed

lemma keys_grouped: "fst ` set (grouped key add fresh xs) = key ` set xs"
proof -
  have "fst ` set (grouped key add fresh xs) = dom (map_of (grouped key add fresh xs))" by (simp add: dom_map_of_conv_image_fst)
  also have "\<dots> = key ` set xs" by (auto simp: map_of_grouped dom_def split: if_splits)
  finally show ?thesis .
qed

lemma grouped_value: "(k, v) \<in> set (grouped key add fresh xs) \<Longrightarrow> v = fold add (filter (\<lambda>x. key x = k) xs) fresh"
proof -
  assume kv: "(k, v) \<in> set (grouped key add fresh xs)"
  then have "k \<in> key ` set xs" using keys_grouped [of key add fresh xs] image_eqI [of k fst "(k, v)"] by auto
  with map_of_is_SomeI [OF distinct_grouped kv] show ?thesis by (simp add: map_of_grouped)
qed

lemma sum_over_groups:
  "sum_list (map (\<lambda>(k, v). f v) (grouped key add fresh xs)) = (\<Sum>k\<in>key ` set xs. f (fold add (filter (\<lambda>x. key x = k) xs) fresh))"
  for f :: "'v \<Rightarrow> rat"
proof -
  let ?g = "grouped key add fresh xs"
  have "(case kv of (k, v) \<Rightarrow> f v) = f (fold add (filter (\<lambda>x. key x = fst kv) xs) fresh)" if "kv \<in> set ?g" for kv
    using that grouped_value [of "fst kv" "snd kv" key add fresh xs] by (simp add: split_beta)
  then have "map (\<lambda>(k, v). f v) ?g = map (\<lambda>k. f (fold add (filter (\<lambda>x. key x = k) xs) fresh)) (map fst ?g)"
    by (simp add: comp_def)
  then have "sum_list (map (\<lambda>(k, v). f v) ?g) = sum_list (map (\<lambda>k. f (fold add (filter (\<lambda>x. key x = k) xs) fresh)) (map fst ?g))"
    by (rule arg_cong)
  also have "\<dots> = (\<Sum>k\<in>set (map fst ?g). f (fold add (filter (\<lambda>x. key x = k) xs) fresh))"
    by (rule sum_list_distinct_conv_sum_set [OF distinct_grouped])
  finally show ?thesis by (simp add: keys_grouped)
qed

text \<open>Sorting the groups by key.\<close>

lemma sorted_keys: "map fst (order_by fst (gs :: ('k::linorder \<times> 'v) list)) = order_by id (map fst gs)"
proof -
  have "map fst (insort_key fst x ys) = insort (fst x) (map fst ys)" for x :: "'k \<times> 'v" and ys
    by (induction ys) simp_all
  then have "map fst (sort_key fst gs) = sort (map fst gs)" by (induction gs) simp_all
  then show ?thesis by (simp add: order_by_def id_def)
qed

lemma order_distinct: "distinct (xs :: 'k::linorder list) \<Longrightarrow> order_by id xs = sorted_list_of_set (set xs)"
  by (simp add: order_by_def id_def sorted_list_of_set_sort_remdups distinct_remdups_id)

lemma groups_in_order:
  "order_by fst (grouped key add fresh xs) =
     map (\<lambda>k. (k, fold add (filter (\<lambda>x. key x = k) xs) fresh)) (sorted_list_of_set (key ` set xs))"
  for key :: "'a \<Rightarrow> 'k::linorder"
proof -
  let ?g = "grouped key add fresh xs"
  have "order_by fst ?g = map (\<lambda>kv. (fst kv, fold add (filter (\<lambda>x. key x = fst kv) xs) fresh)) (order_by fst ?g)"
    by (rule map_idI [symmetric]) (auto simp: set_order_by dest: grouped_value)
  also have "\<dots> = map (\<lambda>k. (k, fold add (filter (\<lambda>x. key x = k) xs) fresh)) (map fst (order_by fst ?g))" by simp
  also have "map fst (order_by fst ?g) = sorted_list_of_set (key ` set xs)"
    by (simp add: sorted_keys order_distinct distinct_grouped keys_grouped)
  finally show ?thesis .
qed

section \<open>The history, minute by minute\<close>

lemma power_by_server: "bk_gpu_power_by_srv (fold add_metric ms b) =
    fold (collect_into m_server_id add_power (0, 0)) ms (bk_gpu_power_by_srv b)"
proof -
  have gpus: "bk_gpu_power_by_srv (fold add_gpu gs b) = bk_gpu_power_by_srv b" for gs b
    by (induction gs arbitrary: b) (simp_all add: add_gpu_def Let_def)
  have "bk_gpu_power_by_srv (add_metric m b) = collect_into m_server_id add_power (0, 0) m (bk_gpu_power_by_srv b)" for m b
    by (simp add: add_metric_def Let_def gpus)
  then show ?thesis by (induction ms arbitrary: b) simp_all
qed

lemma fold_add_power: "fold add_power ms (t, k) = (t + sum_list (map power_of ms), k + length ms)"
  by (induction ms arbitrary: t k) (simp_all add: add_power_def)

definition in_minute :: "time \<Rightarrow> metric list \<Rightarrow> metric list" where
  "in_minute k ms = filter (\<lambda>m. minute_of (m_collected_at m) = k) ms"

definition from_server :: "int \<Rightarrow> metric list \<Rightarrow> metric list" where
  "from_server sid ms = filter (\<lambda>m. m_server_id m = sid) ms"

lemma minute_of_div: "minute_of t = 60000000 * (t div 60000000)"
  by (simp add: minute_of_def durations minus_mod_eq_mult_div)

lemma count_minutes:
  "\<forall>t\<in>T. now - hours n \<le> t \<and> t \<le> now \<Longrightarrow> n \<ge> 0 \<Longrightarrow> finite T \<Longrightarrow> card (minute_of ` T) \<le> nat (60 * n + 1)"
proof -
  assume T: "\<forall>t\<in>T. now - hours n \<le> t \<and> t \<le> now" and "n \<ge> 0" "finite T"
  have low: "(now - hours n) div 60000000 = now div 60000000 - 60 * n"
    using div_mult_self1 [of 60000000 now "- (60 * n)"] by (simp add: durations)
  have "minute_of ` T \<subseteq> (\<lambda>k. 60000000 * k) ` {now div 60000000 - 60 * n .. now div 60000000}"
  proof
    fix k assume "k \<in> minute_of ` T"
    then obtain t where t: "t \<in> T" "k = 60000000 * (t div 60000000)" by (auto simp: minute_of_div)
    have "now div 60000000 - 60 * n \<le> t div 60000000" "t div 60000000 \<le> now div 60000000"
      using T t(1) zdiv_mono1 [of "now - hours n" t 60000000] zdiv_mono1 [of t now 60000000] by (auto simp: low)
    with t(2) show "k \<in> (\<lambda>k. 60000000 * k) ` {now div 60000000 - 60 * n .. now div 60000000}" by auto
  qed
  from card_mono [OF _ this]
  have "card (minute_of ` T) \<le> card ((\<lambda>k. 60000000 * k) ` {now div 60000000 - 60 * n .. now div 60000000})" by simp
  also have "\<dots> \<le> card {now div 60000000 - 60 * n .. now div 60000000}" by (rule card_image_le) simp
  also have "\<dots> = nat (60 * n + 1)" by simp
  finally show ?thesis .
qed

text \<open>
  C33.  The history of the cluster has one point for each minute with a successful sample in the window, by rising time, each
  computed from exactly the samples of that minute.  In it the cards' power is summed over the servers, each server with
  the mean of its samples in that minute, so that a server sampled twice counts once.  With no sample from the future there are at most
  sixty points an hour and one.
\<close>

theorem cluster_history_by_minute:
  assumes "cluster_history d now n = Inr series" and "\<forall>m\<in>set (d_metrics d). m_collected_at m \<le> now"
  shows "map cp_time series = sorted_list_of_set ((\<lambda>m. minute_of (m_collected_at m)) ` set (cluster_rows d now n)) \<and>
    (\<forall>p\<in>set series. p = cluster_point_of (cp_time p, fold add_metric (in_minute (cp_time p) (cluster_rows d now n)) new_bucket)) \<and>
    (\<forall>p\<in>set series. cp_gpu_power p = py_round_to 1
       (\<Sum>sid\<in>m_server_id ` set (in_minute (cp_time p) (cluster_rows d now n)).
          rat_mean (map power_of (from_server sid (in_minute (cp_time p) (cluster_rows d now n)))))) \<and>
    length series \<le> nat (60 * n + 1)"
proof -
  let ?rows = "cluster_rows d now n" and ?key = "\<lambda>m. minute_of (m_collected_at m)"
  let ?ks = "sorted_list_of_set (?key ` set ?rows)"
  from assms(1) have n: "n \<ge> 1" and series: "series = map (\<lambda>k. cluster_point_of (k, fold add_metric (in_minute k ?rows) new_bucket)) ?ks"
    by (auto simp: cluster_history_def groups_in_order in_minute_def comp_def split: if_splits)
  have cp_time [simp]: "cp_time (cluster_point_of kb) = fst kb" for kb by (simp add: cluster_point_of_def Let_def)
  have times: "map cp_time series = ?ks" by (simp add: series comp_def)
  have power: "cp_gpu_power (cluster_point_of (k, fold add_metric ms new_bucket)) =
      py_round_to 1 (\<Sum>sid\<in>m_server_id ` set ms. rat_mean (map power_of (from_server sid ms)))" for k ms
  proof -
    have "bk_gpu_power_by_srv (fold add_metric ms new_bucket) = grouped m_server_id add_power (0, 0) ms"
      by (simp add: power_by_server grouped_def new_bucket_def)
    then show ?thesis
      using sum_over_groups [of "\<lambda>p. fst p / of_nat (snd p)" m_server_id add_power "(0, 0)" ms]
      by (simp add: cluster_point_of_def Let_def round_sum_def case_prod_unfold fold_add_power rat_mean_def from_server_def)
  qed
  have "length series = card (?key ` set ?rows)" by (simp add: series)
  also have "\<dots> = card (minute_of ` (m_collected_at ` set ?rows))" by (simp add: image_image)
  also have "\<dots> \<le> nat (60 * n + 1)"
    using assms(2) n by (intro count_minutes [of _ now]) (auto simp: cluster_rows_def set_order_by)
  finally show ?thesis using times power by (auto simp: series)
qed

theorem cluster_history_by_minute_witness:
  "\<exists>series. cluster_history LONE_METRIC 200 1 = Inr series \<and> length series \<le> nat (60 * 1 + 1)"
proof -
  obtain series where "cluster_history LONE_METRIC 200 1 = Inr series" by (simp add: cluster_history_def)
  moreover have "\<forall>m\<in>set (d_metrics LONE_METRIC). m_collected_at m \<le> 200" by (simp add: LONE_METRIC_def demo_metric_def)
  ultimately show ?thesis using cluster_history_by_minute [of LONE_METRIC 200 1 series] by blast
qed

section \<open>The days of the energy report\<close>

lemma day_of_div: "day_of t = 86400000000 * (t div 86400000000)"
  by (simp add: day_of_def durations minus_mod_eq_mult_div)

lemma hour_floor_div: "hour_floor t = 3600000000 * (t div 3600000000)"
  by (simp add: hour_floor_def durations minus_mod_eq_mult_div)

lemma day_of_hour: "day_of (hour_floor t) = day_of t"
proof -
  have "hour_floor t div 86400000000 = hour_floor t div 3600000000 div 24" by (simp add: zdiv_zmult2_eq [symmetric])
  also have "\<dots> = t div 86400000000" by (simp add: hour_floor_div zdiv_zmult2_eq [symmetric])
  finally show ?thesis by (simp add: day_of_div)
qed

lemma day_of_mono: "s \<le> t \<Longrightarrow> day_of s \<le> day_of t"
  by (simp add: day_of_div zdiv_mono1)

lemma day_of_day [simp]: "day_of (day_of t) = day_of t"
  by (simp add: day_of_div)

lemma measured_SomeD: "measured d since k \<noteq> None \<Longrightarrow> \<exists>r\<in>set (d_ipmi d). k = (is_server_id r, hour_floor (is_collected_at r)) \<and> since \<le> is_collected_at r"
  by (fastforce simp: measured_def Let_def filter_empty_conv split: if_splits)

lemma find_key: "find P xs = Some x \<Longrightarrow> P x \<and> x \<in> set xs" by (drule find_in) simp

lemma estimated_SomeD:
  "estimated d since k \<noteq> None \<Longrightarrow> \<exists>h\<in>set (d_hourly d). k = (h_server_id h, h_hour h) \<and> since \<le> h_hour h"
  by (auto simp: estimated_def hourly_rows_def split: option.splits dest!: find_key)

definition no_future :: "time \<Rightarrow> db \<Rightarrow> bool" where
  "no_future now d \<longleftrightarrow> (\<forall>m\<in>set (d_metrics d). m_collected_at m \<le> now) \<and> (\<forall>h\<in>set (d_hourly d). h_hour h \<le> now)
     \<and> (\<forall>r\<in>set (d_ipmi d). is_collected_at r \<le> now)"

lemma hour_days:
  assumes "no_future now d" and "k \<in> set (energy_hours d since)"
  shows "day_of since \<le> day_of (snd k) \<and> day_of (snd k) \<le> day_of now"
proof -
  from assms(2) consider "measured d since k \<noteq> None" | "estimated d since k \<noteq> None" by (auto simp: energy_hours_def)
  then show ?thesis
  proof cases
    case 1
    from measured_SomeD [OF this] obtain r where
      "r \<in> set (d_ipmi d)" "snd k = hour_floor (is_collected_at r)" "since \<le> is_collected_at r" by auto
    with assms(1) show ?thesis by (simp add: day_of_hour day_of_mono no_future_def)
  next
    case 2
    from estimated_SomeD [OF this] assms(1) show ?thesis by (auto simp: no_future_def intro!: day_of_mono)
  qed
qed

lemma reading_days:
  assumes "no_future now d" and "n \<ge> 0"
  shows "fst ` set (readings d now n) \<subseteq> (\<lambda>k. 86400000000 * k) ` {now div 86400000000 - (n + 1) .. now div 86400000000}"
proof
  fix day assume "day \<in> fst ` set (readings d now n)"
  then have "day = day_of now \<or> (\<exists>k\<in>set (energy_hours d (now - days (n + 1))). day = day_of (snd k))"
    unfolding readings_def Let_def hour_readings_def today_readings_def set_append image_Un set_map image_image fst_conv
    by auto
  moreover have "days (n + 1) \<ge> 0" using assms(2) by (simp add: durations)
  ultimately have range: "day_of (now - days (n + 1)) \<le> day" "day \<le> day_of now" "\<exists>t. day = day_of t"
    using hour_days [OF assms(1)] day_of_mono [of "now - days (n + 1)" now] by auto
  have low: "(now - days (n + 1)) div 86400000000 = now div 86400000000 - (n + 1)"
    using div_mult_self1 [of 86400000000 now "- (n + 1)"] by (simp add: durations algebra_simps)
  from range show "day \<in> (\<lambda>k. 86400000000 * k) ` {now div 86400000000 - (n + 1) .. now div 86400000000}"
    by (auto simp: day_of_div low)
qed

lemma coverage_range: "0 \<le> ed_coverage (energy_day_of price day rs) \<and> ed_coverage (energy_day_of price day rs) \<le> 1"
  using py_round_to_range [of 0 "min 1 (of_nat (length rs) / of_nat (1440 * max 1 (length (remdups (map (\<lambda>(day, s, w). s) rs)))))" 1 2]
  by (simp add: energy_day_of_def Let_def)

text \<open>
  The energy report has distinct days by rising date, each with a reading, and with no data from the future at most two
  days more than were asked for; the coverage of a day is a share between 0 and 1, and each day's average is the sum
  over its servers, each with the mean of its readings of that day.
\<close>

theorem energy_days_bounded:
  assumes "cluster_energy d now n = Inr report" and "no_future now d"
  shows "map ed_date (er_days report) = sorted_list_of_set (fst ` set (readings d now n)) \<and>
    length (er_days report) \<le> nat (n + 2) \<and>
    (\<forall>e\<in>set (er_days report). 0 \<le> ed_coverage e \<and> ed_coverage e \<le> 1 \<and> ed_samples e > 0 \<and>
       ed_avg_w e = py_round_to 1 (\<Sum>sid\<in>{s. \<exists>w. (ed_date e, s, w) \<in> set (readings d now n)}.
          rat_mean (watts_of (filter (\<lambda>r. fst r = ed_date e) (readings d now n)) sid)))"
proof -
  let ?rs = "readings d now n" and ?in = "\<lambda>day. filter (\<lambda>r. fst r = day) (readings d now n)"
  from assms(1) obtain price where n: "n \<ge> 1" and "report = energy_report_of price ?rs"
    by (auto simp: cluster_energy_def Let_def split: if_splits option.splits)
  then have out: "er_days report = map (\<lambda>day. energy_day_of price day (?in day)) (sorted_list_of_set (fst ` set ?rs))"
    by (simp add: energy_report_of_def Let_def order_distinct)
  have date [simp]: "ed_date (energy_day_of price day rs) = day" "ed_samples (energy_day_of price day rs) = length rs" for day rs
    by (simp_all add: energy_day_of_def Let_def)
  have avg: "ed_avg_w (energy_day_of price day (?in day)) =
      py_round_to 1 (\<Sum>sid\<in>{s. \<exists>w. (day, s, w) \<in> set ?rs}. rat_mean (watts_of (?in day) sid))" for day
  proof -
    have "set (map (\<lambda>(day, s, w). s) (?in day)) = {s. \<exists>w. (day, s, w) \<in> set ?rs}" by force
    then show ?thesis by (simp add: energy_day_of_def Let_def sum_list_distinct_conv_sum_set)
  qed
  have "length (er_days report) = card (fst ` set ?rs)" by (simp add: out)
  also have "\<dots> \<le> card ((\<lambda>k. 86400000000 * k) ` {now div 86400000000 - (n + 1) .. now div 86400000000})"
    using reading_days [OF assms(2)] n by (intro card_mono) auto
  also have "\<dots> \<le> card {now div 86400000000 - (n + 1) .. now div 86400000000}" by (rule card_image_le) simp
  also have "\<dots> = nat (n + 2)" by simp
  finally have bound: "length (er_days report) \<le> nat (n + 2)" .
  have "ed_samples (energy_day_of price day (?in day)) > 0" if "day \<in> fst ` set ?rs" for day
    using that by (auto simp: filter_empty_conv)
  then show ?thesis using bound avg coverage_range [of price] by (auto simp: out comp_def)
qed

definition BMC_OK :: bmc_data where
  "BMC_OK = \<lparr>bm_ok = True, bm_error = [], bm_mc_info = [], bm_chassis = [], bm_power = [], bm_sensors = [], bm_sel = [],
     bm_sel_info = [], bm_fru = [], bm_lan = []\<rparr>"

definition draw :: "time \<Rightarrow> ipmi_snapshot" where
  "draw t = \<lparr>is_server_id = 1, is_collected_at = t, is_data = BMC_OK, is_power_w = 400, is_duration = 1\<rparr>"

definition THREE_DAYS :: db where
  "THREE_DAYS = empty_db\<lparr>d_ipmi := [draw (hours 12), draw (hours 30), draw (hours 50)]\<rparr>"

theorem energy_days_bounded_witness:
  "\<exists>report. cluster_energy THREE_DAYS (hours 60) 1 = Inr report \<and> length (er_days report) \<le> nat (1 + 2)"
proof -
  obtain report where "cluster_energy THREE_DAYS (hours 60) 1 = Inr report"
    by (simp add: cluster_energy_def THREE_DAYS_def empty_db_def the_default_def)
  moreover have "no_future (hours 60) THREE_DAYS"
    by (simp add: no_future_def THREE_DAYS_def empty_db_def draw_def durations)
  ultimately show ?thesis using energy_days_bounded [of THREE_DAYS "hours 60" 1 report] by blast
qed

text \<open>Asked for one day, the report of this database has three, and its total is that of three days.\<close>

lemma one_day_is_three: "map_sum id (\<lambda>r. length (er_days r)) (cluster_energy THREE_DAYS (hours 60) 1) = Inr 3"
proof -
  have "readings THREE_DAYS (hours 60) 1 = [(0, 1, 400), (days 1, 1, 400), (days 2, 1, 400)]"
    by (simp add: readings_def hour_readings_def today_readings_def energy_hours_def hour_watts_def measured_def THREE_DAYS_def
        empty_db_def draw_def BMC_OK_def durations hour_floor_def day_of_def rat_mean_def Let_def order_by_def)
  then show ?thesis
    by (simp add: cluster_energy_def THREE_DAYS_def empty_db_def the_default_def energy_report_of_def Let_def durations)
qed

section \<open>Measured power wins\<close>

text \<open>The estimate of one server and hour changed at will, and the cards of one server's samples since a given time.\<close>

definition other_estimate :: "int \<times> time \<Rightarrow> rat \<Rightarrow> db \<Rightarrow> db" where
  "other_estimate k w d =
     d\<lparr>d_hourly := map (\<lambda>h. if (h_server_id h, h_hour h) = k then h\<lparr>h_gpu_power_avg := w\<rparr> else h) (d_hourly d)\<rparr>"

definition other_samples :: "int \<Rightarrow> gpu list \<Rightarrow> time \<Rightarrow> db \<Rightarrow> db" where
  "other_samples sid gs since d =
     d\<lparr>d_metrics := map (\<lambda>m. if m_server_id m = sid \<and> m_collected_at m \<ge> since then m\<lparr>m_gpus := gs\<rparr> else m) (d_metrics d)\<rparr>"

lemma rat_mean_pos: "xs \<noteq> [] \<Longrightarrow> \<forall>x\<in>set xs. x > 0 \<Longrightarrow> rat_mean xs > 0"
proof -
  assume "xs \<noteq> []" "\<forall>x\<in>set xs. x > 0"
  then have "sum_list xs > 0" by (induction xs rule: list_nonempty_induct) (auto intro: add_pos_pos)
  with \<open>xs \<noteq> []\<close> show ?thesis by (simp add: rat_mean_def)
qed

lemma measured_pos: "measured d since k = Some w \<Longrightarrow> w > 0"
  by (auto simp: measured_def Let_def split: if_splits intro!: rat_mean_pos)

lemma find_mapped: "find P (map g xs) = map_option g (find (\<lambda>x. P (g x)) xs)"
  by (induction xs) simp_all

lemma other_estimate_same:
  "measured (other_estimate k w d) = measured d" "cards_in_hour (other_estimate k w d) = cards_in_hour d"
  "k' \<noteq> k \<Longrightarrow> estimated (other_estimate k w d) since k' = estimated d since k'"
proof -
  show "measured (other_estimate k w d) = measured d" by (simp add: measured_def other_estimate_def fun_eq_iff)
  show cards: "cards_in_hour (other_estimate k w d) = cards_in_hour d" by (simp add: cards_in_hour_def other_estimate_def fun_eq_iff)
  let ?g = "\<lambda>h :: metric_hourly. if (h_server_id h, h_hour h) = k then h\<lparr>h_gpu_power_avg := w\<rparr> else h"
  have key: "(h_server_id (?g h), h_hour (?g h)) = (h_server_id h, h_hour h)" and hour: "h_hour (?g h) = h_hour h" for h by simp_all
  have rows: "hourly_rows (other_estimate k w d) since = map ?g (hourly_rows d since)"
    unfolding hourly_rows_def other_estimate_def by (simp add: filter_map comp_def hour del: prod.inject)
  assume "k' \<noteq> k"
  then show "estimated (other_estimate k w d) since k' = estimated d since k'"
    unfolding estimated_def rows rev_map find_mapped key cards
    by (auto split: option.split dest!: find_key)
qed

lemma energy_hour_iff: "k \<in> set (energy_hours d since) \<longleftrightarrow> measured d since k \<noteq> None \<or> estimated d since k \<noteq> None"
  using measured_SomeD [of d since k] estimated_SomeD [of d since k] by (auto simp: energy_hours_def)

lemma other_samples_same:
  "measured (other_samples sid gs t d) = measured d" "cards_in_hour (other_samples sid gs t d) = cards_in_hour d"
  "estimated (other_samples sid gs t d) = estimated d"
proof -
  show "measured (other_samples sid gs t d) = measured d" by (simp add: measured_def other_samples_def fun_eq_iff)
  let ?g = "\<lambda>m :: metric. if m_server_id m = sid \<and> m_collected_at m \<ge> t then m\<lparr>m_gpus := gs\<rparr> else m"
  have same: "m_server_id (?g m) = m_server_id m" "m_collected_at (?g m) = m_collected_at m" "m_status (?g m) = m_status m"
    "m_gpu_count (?g m) = m_gpu_count m" for m by simp_all
  have rows: "d_metrics (other_samples sid gs t d) = map ?g (d_metrics d)" by (simp add: other_samples_def)
  show cards: "cards_in_hour (other_samples sid gs t d) = cards_in_hour d"
    by (intro ext) (simp only: cards_in_hour_def rows filter_map comp_def same map_map)
  show "estimated (other_samples sid gs t d) = estimated d"
    unfolding estimated_def hourly_rows_def cards by (simp add: other_samples_def)
qed

lemma hour_readings_cong:
  "measured d' = measured d \<Longrightarrow> (\<And>k. k \<in> set (energy_hours d since) \<Longrightarrow> hour_watts d' since k = hour_watts d since k) \<Longrightarrow>
     energy_hours d' since = energy_hours d since \<Longrightarrow> hour_readings d' since = hour_readings d since"
  by (simp add: hour_readings_def cong: filter_cong)

lemma estimate_ignored:
  assumes "measured d since k \<noteq> None"
  shows "hour_watts (other_estimate k w d) since k' = hour_watts d since k'"
    and "energy_hours (other_estimate k w d) since = energy_hours d since"
proof -
  show "hour_watts (other_estimate k w d) since k' = hour_watts d since k'"
    using assms measured_pos [of d since k] other_estimate_same(1) [of k w d] other_estimate_same(3) [of k' k w d since]
    by (cases "k' = k") (auto simp: hour_watts_def split: option.split)
  let ?g = "\<lambda>h :: metric_hourly. if (h_server_id h, h_hour h) = k then h\<lparr>h_gpu_power_avg := w\<rparr> else h"
  have key: "(h_server_id (?g h), h_hour (?g h)) = (h_server_id h, h_hour h)" for h by simp
  have keys: "map (\<lambda>h. (h_server_id h, h_hour h)) (d_hourly (other_estimate k w d)) = map (\<lambda>h. (h_server_id h, h_hour h)) (d_hourly d)"
    by (auto simp: other_estimate_def)
  have "measured d since k' \<noteq> None \<or> estimated (other_estimate k w d) since k' \<noteq> None \<longleftrightarrow>
      measured d since k' \<noteq> None \<or> estimated d since k' \<noteq> None" for k'
    using assms other_estimate_same(3) [of k' k w d since] by (cases "k' = k") auto
  moreover have "d_ipmi (other_estimate k w d) = d_ipmi d" by (simp add: other_estimate_def)
  ultimately show "energy_hours (other_estimate k w d) since = energy_hours d since"
    unfolding energy_hours_def keys other_estimate_same(1) by simp
qed

lemma samples_ignored:
  assumes "measured d since k \<noteq> None" and "day_of (snd k) = today"
  shows "today_readings (other_samples (fst k) gs today d) since today = today_readings d since today"
proof -
  let ?g = "\<lambda>m :: metric. if m_server_id m = fst k \<and> m_collected_at m \<ge> today then m\<lparr>m_gpus := gs\<rparr> else m"
  let ?Q = "\<lambda>m. \<not> list_ex (\<lambda>k. fst k = m_server_id m \<and> measured d since k \<noteq> None \<and> day_of (snd k) = today) (energy_hours d since)"
  let ?R = "\<lambda>m. m_collected_at m \<ge> today \<and> m_status m = ''ok''"
  have same: "m_server_id (?g m) = m_server_id m" "m_collected_at (?g m) = m_collected_at m" "m_status (?g m) = m_status m" for m
    by simp_all
  have rows: "d_metrics (other_samples (fst k) gs today d) = map ?g (d_metrics d)" by (simp add: other_samples_def)
  have hours: "energy_hours (other_samples (fst k) gs today d) since = energy_hours d since"
    by (simp add: energy_hours_def other_samples_same) (simp add: other_samples_def)
  have "k \<in> set (energy_hours d since)" using assms(1) by (simp add: energy_hour_iff)
  then have excluded: "m_server_id m \<noteq> fst k" if "?Q m" for m
    using that assms by (auto simp: list_ex_iff)
  have "filter ?R (map ?g ms) = map ?g (filter ?R ms)" for ms by (simp only: filter_map comp_def same)
  moreover have "order_by m_collected_at (map ?g ms) = map ?g (order_by m_collected_at ms)" for ms
    by (rule order_by_map) (rule same)
  moreover have "filter ?Q (map ?g ms) = filter ?Q ms" for ms
  proof -
    have "filter ?Q (map ?g ms) = map ?g (filter ?Q ms)" by (simp only: filter_map comp_def same)
    also have "\<dots> = filter ?Q ms" using excluded by (intro map_idI) auto
    finally show ?thesis .
  qed
  ultimately show ?thesis unfolding today_readings_def rows hours other_samples_same(1) by simp
qed

text \<open>
  C34.  Where the BMC measured a server's power in an hour, the estimate for that hour has no effect on the energy report; and
  where it measured one in an hour of today, the cards' readings of that server today have none.
\<close>

theorem measured_power_wins:
  assumes "measured d (now - days (n + 1)) k \<noteq> None"
  shows "cluster_energy (other_estimate k w d) now n = cluster_energy d now n \<and>
    (day_of (snd k) = day_of now \<longrightarrow> cluster_energy (other_samples (fst k) gs (day_of now) d) now n = cluster_energy d now n)"
proof -
  let ?since = "now - days (n + 1)"
  have same: "cluster_energy d' now n = cluster_energy d now n"
    if "readings d' now n = readings d now n" "d_settings d' = d_settings d" for d'
    unfolding cluster_energy_def that by (rule refl)
  have "hour_readings (other_estimate k w d) ?since = hour_readings d ?since"
    by (rule hour_readings_cong) (simp_all add: estimate_ignored assms other_estimate_same)
  moreover have "today_readings (other_estimate k w d) ?since t = today_readings d ?since t" for t
    unfolding today_readings_def estimate_ignored(2) [OF assms] other_estimate_same(1) by (simp add: other_estimate_def)
  ultimately have "readings (other_estimate k w d) now n = readings d now n" by (simp add: readings_def Let_def)
  then have "cluster_energy (other_estimate k w d) now n = cluster_energy d now n"
    by (rule same) (simp add: other_estimate_def)
  moreover have "cluster_energy (other_samples (fst k) gs (day_of now) d) now n = cluster_energy d now n"
    if "day_of (snd k) = day_of now"
  proof (rule same)
    let ?d = "other_samples (fst k) gs (day_of now) d"
    have "hour_watts ?d = hour_watts d" unfolding hour_watts_def other_samples_same by (rule refl)
    moreover have "energy_hours ?d ?since = energy_hours d ?since"
      by (simp add: energy_hours_def other_samples_same) (simp add: other_samples_def)
    ultimately show "readings ?d now n = readings d now n"
      using samples_ignored [OF assms that] by (simp add: readings_def hour_readings_def Let_def)
  qed (simp add: other_samples_def)
  ultimately show ?thesis by blast
qed

theorem measured_power_wins_witness:
  "cluster_energy (other_estimate (1, hours 50) 9000 THREE_DAYS) (hours 60) 1 = cluster_energy THREE_DAYS (hours 60) 1"
proof -
  have "measured THREE_DAYS (hours 60 - days (1 + 1)) (1, hours 50) \<noteq> None"
    by (simp add: measured_def THREE_DAYS_def empty_db_def draw_def BMC_OK_def durations hour_floor_def)
  from measured_power_wins [OF this] show ?thesis by blast
qed

section \<open>The matrix hides users\<close>

definition without_users :: "db \<Rightarrow> db" where
  "without_users d = d\<lparr>d_metrics := map (\<lambda>m. m\<lparr>m_gpus := minimize_gpus (m_gpus m)\<rparr>) (d_metrics d)\<rparr>"

lemma minimize_gpu_process_idem: "minimize_gpu_process (minimize_gpu_process p) = minimize_gpu_process p"
  by (simp add: minimize_gpu_process_def)

lemma latest_mapped:
  assumes "\<And>m. m_server_id (g m) = m_server_id m" "\<And>m. m_collected_at (g m) = m_collected_at m"
  shows "latest_by_server (d\<lparr>d_metrics := map g (d_metrics d)\<rparr>) sid = map_option g (latest_by_server d sid)"
  by (simp add: latest_by_server_def newest_rows_def list_all_iff filter_map comp_def assms rev_map find_mapped)

text \<open>
  The matrix of cards that every viewer may read has one row for each server that is not a CPU server, by rising id; it
  shows cards only of a server whose newest sample is successful; and it does not depend on the users and
  commands of the processes in the samples.
\<close>

theorem matrix_hides_users:
  "map mr_server_id (cluster_gpus d) = map s_id (order_by s_id (filter (\<lambda>s. s_server_type s \<noteq> ''cpu'') (d_servers d))) \<and>
   list_all (\<lambda>r. mr_online r \<or> mr_gpus r = []) (cluster_gpus d) \<and>
   cluster_gpus (without_users d) = cluster_gpus d"
proof -
  have rows: "latest_by_server (without_users d) sid = map_option (\<lambda>m. m\<lparr>m_gpus := minimize_gpus (m_gpus m)\<rparr>) (latest_by_server d sid)" for sid
    unfolding without_users_def by (rule latest_mapped) simp_all
  have "minimize_matrix (map matrix_gpu_of (minimize_gpus gs)) = minimize_matrix (map matrix_gpu_of gs)" for gs
    by (simp add: minimize_matrix_def minimize_gpus_def matrix_gpu_of_def minimize_gpu_process_idem)
  then have "(matrix_row_of (without_users d) s)\<lparr>mr_gpus := minimize_matrix (mr_gpus (matrix_row_of (without_users d) s))\<rparr> =
      (matrix_row_of d s)\<lparr>mr_gpus := minimize_matrix (mr_gpus (matrix_row_of d s))\<rparr>" for s
    by (cases "latest_by_server d (s_id s)") (simp_all add: matrix_row_of_def Let_def rows)
  then have "cluster_gpus (without_users d) = cluster_gpus d"
    by (simp add: cluster_gpus_def gpu_matrix_def comp_def) (simp add: without_users_def)
  moreover have "list_all (\<lambda>r. mr_online r \<or> mr_gpus r = []) (cluster_gpus d)"
    by (auto simp: list_all_iff cluster_gpus_def gpu_matrix_def matrix_row_of_def minimize_matrix_def Let_def)
  ultimately show ?thesis by (simp add: cluster_gpus_def gpu_matrix_def matrix_row_of_def Let_def comp_def)
qed

section \<open>The power of servers that went away\<close>

definition POWERED :: gpu where
  "POWERED = \<lparr>index = Some 0, uuid = Some ''u'', gname = None, utilization = Some 10, util_memory = None, mem_used_mb = Some 1,
     mem_total_mb = Some 10, temperature = None, power_draw = Some 300, power_limit = None, fan_speed = None,
     clock_graphics = 0, clock_memory = 0, clock_graphics_max = 0, clock_memory_max = 0, encoder_sessions = 0,
     decoder_sessions = 0, pstate = [], compute_mode = [], serial = None, pci_bus_id = None, mem_temperature = 0,
     throttle_mask = [], throttle_reasons = [], ecc_mode = [], ecc_supported = False, ecc_corrected_volatile = None,
     ecc_uncorrected_volatile = None, ecc_corrected_total = None, ecc_uncorrected_total = None, remapped_pending = 0,
     remapped_failure = 0, retired_pending = 0, pcie_gen_current = 0, pcie_gen_max = 0, pcie_width_current = None,
     pcie_width_max = None, gpu_processes = []\<rparr>"

text \<open>A host that has failed ever since its last successful sample still draws that sample's power.\<close>

definition GONE :: db where
  "GONE = empty_db\<lparr>d_servers := [demo_server], d_metrics := [demo_metric 1 0 ''ok'' [POWERED], demo_metric 2 (days 300) ''error'' []]\<rparr>"

lemma gone_host_draws_power: "cluster_power_now GONE = (300, 1)"
proof -
  have "newest_ok_rows GONE = [demo_metric 1 0 ''ok'' [POWERED]]"
    by (simp add: newest_ok_rows_def GONE_def demo_metric_def durations)
  then show ?thesis
    using py_round_to_of_int [of 1 300]
    by (simp add: cluster_power_now_def Let_def power_of_def demo_metric_def POWERED_def num0_def nonzero_def round_sum_def)
qed

end
