(* ===== verification/McpClient.thy ===== *)
theory McpClient
  imports Json
begin

text \<open>
  The client half of \<open>mcp_server/server.py\<close>: the environment, the opaque hardware ids, the checks on the configured
  address and credentials, single requests, the log_in and the authenticated \<open>get\<close> with its one repetition.  The
  network is a function from the requests sent so far to the http_reply, so that an answer may depend on everything before it.
  Requests of one process are taken one after another; the token lock makes no difference then.  Case folding is that of
  ASCII letters, bodies are UTF-8, and numbers are exact.
\<close>

section \<open>The process\<close>

text \<open>
  The environment the process was started with, and what it takes from its surroundings: the addresses \<open>getaddrinfo\<close>
  gives for \<open>localhost\<close> (\<open>None\<close>: it fails), the keyed hash (HMAC-SHA256 in hexadecimal) and Python's text of a list or a dictionary.
\<close>

record environment =
  en_vars :: "(string, string) dict"
  en_localhost :: "string list option"
  en_hmac :: "string \<Rightarrow> string \<Rightarrow> string"
  en_repr :: "json \<Rightarrow> string"

definition getenv :: "environment \<Rightarrow> string \<Rightarrow> string \<Rightarrow> string" where
  "getenv env name usual = the_default usual (map_of (en_vars env) name)"

text \<open>\<open>GpuMonitorApiError\<close> with its message and status, or another exception.\<close>

datatype mcp_error =
    Api_Error string "int option"
  | Py_Error string

definition failed :: "string \<Rightarrow> mcp_error + 'a" where
  "failed msg = Inl (Api_Error msg None)"

definition chain :: "'e + 'a \<Rightarrow> ('a \<Rightarrow> 'e + 'b) \<Rightarrow> 'e + 'b" where
  "chain r f = (case r of Inl e \<Rightarrow> Inl e | Inr v \<Rightarrow> f v)"

lemma chain_simps [simp]: "chain (Inl e) f = Inl e" "chain (Inr v) f = f v"
  by (simp_all add: chain_def)

lemma chain_Inr: "chain r f = Inr y \<longleftrightarrow> (\<exists>x. r = Inr x \<and> f x = Inr y)"
  by (cases r) auto

text \<open>One effect after another.\<close>

definition after :: "('e + 'a) \<times> 's \<Rightarrow> ('a \<Rightarrow> 's \<Rightarrow> ('e + 'b) \<times> 's) \<Rightarrow> ('e + 'b) \<times> 's" where
  "after m f = (case m of (Inl e, s) \<Rightarrow> (Inl e, s) | (Inr v, s) \<Rightarrow> f v s)"

lemma after_simps [simp]: "after (Inl e, s) f = (Inl e, s)" "after (Inr v, s) f = f v s"
  by (simp_all add: after_def)

section \<open>Privacy mode\<close>

definition strict_privacy :: "environment \<Rightarrow> mcp_error + bool" where
  "strict_privacy env =
     (let mode = lower (strip (getenv env ''GPU_MONITOR_MCP_PRIVACY_MODE'' ''strict''))
      in if mode \<notin> {''strict'', ''extended''} then failed ''GPU_MONITOR_MCP_PRIVACY_MODE must be strict or extended''
         else Inr (mode = ''strict''))"

definition text_length :: "string \<Rightarrow> nat" where
  "text_length s = (case points s of Some ps \<Rightarrow> length ps | None \<Rightarrow> length s)"

definition opaque_hardware_id :: "environment \<Rightarrow> string \<Rightarrow> mcp_error + string" where
  "opaque_hardware_id env raw =
     (if raw = [] then Inr []
      else let key = strip (getenv env ''MCP_PRIVACY_HMAC_KEY'' [])
           in if text_length key < 32 \<or> lower key \<in> {''change-me'', ''changeme'', ''secret''}
              then failed ''MCP_PRIVACY_HMAC_KEY must be an independent random value of at least 32 characters''
              else Inr (take 16 (en_hmac env key raw)))"

section \<open>The client\<close>

text \<open>\<open>float()\<close> of a text: also infinities and no number_of.\<close>

datatype timeout = Finite rat | Infinite bool | Not_A_Number

definition unsign :: "string \<Rightarrow> string" where
  "unsign s = (if take 1 s \<in> {''+'', ''-''} then drop 1 s else s)"

definition parse_timeout :: "string \<Rightarrow> timeout option" where
  "parse_timeout s =
     (let t = lower (strip s)
      in if unsign t = ''nan'' then Some Not_A_Number
         else if unsign t \<in> {''inf'', ''infinity''} then Some (Infinite (take 1 t \<noteq> ''-''))
         else map_option Finite (py_float s))"

text \<open>\<open>timeout <= 0 or timeout > 120\<close>: no comparison holds of what is no number_of.\<close>

fun timeout_refused :: "timeout \<Rightarrow> bool" where
  "timeout_refused (Finite q) \<longleftrightarrow> q \<le> 0 \<or> q > 120"
| "timeout_refused (Infinite positive) \<longleftrightarrow> True"
| "timeout_refused Not_A_Number \<longleftrightarrow> False"

definition without_brackets :: "string \<Rightarrow> string" where
  "without_brackets s = rev (dropWhile (\<lambda>c. c \<in> set ''[]'') (rev (dropWhile (\<lambda>c. c \<in> set ''[]'') s)))"

definition loopback_address :: "string \<Rightarrow> bool option" where
  "loopback_address s = map_option is_loopback (ip_address s)"

definition is_loopback_host :: "environment \<Rightarrow> string \<Rightarrow> bool" where
  "is_loopback_host env h =
     (let host = lower (without_brackets h)
      in if host = ''localhost''
         then (case en_localhost env of
                 None \<Rightarrow> False
               | Some addrs \<Rightarrow> addrs \<noteq> [] \<and> list_all (\<lambda>a. loopback_address a = Some True) addrs)
         else loopback_address host = Some True)"

record client =
  cl_base_url :: string
  cl_username :: string
  cl_password :: string
  cl_timeout :: timeout
  cl_token :: string
  cl_no_proxy :: bool

definition rstrip_slashes :: "string \<Rightarrow> string" where
  "rstrip_slashes s = rev (dropWhile (\<lambda>c. c = CHR ''/'') (rev s))"

definition new_client :: "environment \<Rightarrow> string \<Rightarrow> string \<Rightarrow> string \<Rightarrow> timeout \<Rightarrow> mcp_error + client" where
  "new_client env url username password timeout =
     (let base = rstrip_slashes url
      in case urlsplit base of
           None \<Rightarrow> Inl (Py_Error ''ValueError'')
         | Some parsed \<Rightarrow>
             if scheme parsed \<notin> {''http'', ''https''} \<or> netloc parsed = [] then failed ''GPU_MONITOR_URL must be an absolute http:// or https:// URL''
             else if has_username parsed \<or> url_password parsed \<noteq> []
             then failed ''Do not embed credentials in GPU_MONITOR_URL; use the username/password variables''
             else if url_path parsed \<notin> {[], ''/''} \<or> url_query parsed \<noteq> [] \<or> fragment parsed \<noteq> []
             then failed ''GPU_MONITOR_URL must contain only scheme, host, and optional port''
             else if url_port parsed = None then failed ''GPU_MONITOR_URL contains an invalid port''
             else if scheme parsed = ''http'' \<and> \<not> is_loopback_host env (hostname parsed)
             then failed ''Refusing to send credentials over remote plain HTTP; configure HTTPS''
             else if username = [] then failed ''GPU_MONITOR_USERNAME is required''
             else if password = [] then failed ''GPU_MONITOR_PASSWORD is required''
             else if timeout_refused timeout then failed ''GPU_MONITOR_TIMEOUT must be in (0, 120] seconds''
             else Inr \<lparr>cl_base_url = base, cl_username = username, cl_password = password, cl_timeout = timeout, cl_token = [],
                        cl_no_proxy = is_loopback_host env (hostname parsed)\<rparr>)"

definition from_env :: "environment \<Rightarrow> mcp_error + client" where
  "from_env env =
     (case parse_timeout (getenv env ''GPU_MONITOR_TIMEOUT'' ''15'') of
        None \<Rightarrow> failed ''GPU_MONITOR_TIMEOUT must be a number''
      | Some timeout \<Rightarrow>
          new_client env (getenv env ''GPU_MONITOR_URL'' ''http://127.0.0.1:8300'') (strip (getenv env ''GPU_MONITOR_USERNAME'' []))
            (getenv env ''GPU_MONITOR_PASSWORD'' []) timeout)"

section \<open>Requests\<close>

text \<open>\<open>urlencode\<close>: \<open>quote_plus\<close> of names and values.\<close>

definition query_safe :: "char \<Rightarrow> bool" where
  "query_safe c \<longleftrightarrow> is_alpha c \<or> is_digit c \<or> c \<in> set ''_.-~''"

definition HEX :: string where "HEX = ''0123456789ABCDEF''"

definition quote_plus_char :: "char \<Rightarrow> string" where
  "quote_plus_char c =
     (if query_safe c then [c] else if c = CHR '' '' then ''+''
      else [CHR ''%'', HEX ! (code c div 16), HEX ! (code c mod 16)])"

definition urlencode :: "(string \<times> string) list \<Rightarrow> string" where
  "urlencode pairs = join ''&'' (map (\<lambda>(k, v). concat (map quote_plus_char k) @ ''='' @ concat (map quote_plus_char v)) pairs)"

record http_request =
  hq_method :: string
  hq_url :: string
  hq_body :: "string option"
  hq_type :: string
  hq_bearer :: string

text \<open>
  What comes of a request: the body of a successful answer, a status that is none (a redirect is not followed and is one), no
  connection with its reason, a timeout, or another exception.
\<close>

datatype http_reply =
    Answered string
  | Status int string
  | Unreachable string
  | Timed_Out
  | Broken string

text \<open>The answer may depend on all requests so far, the newest first.\<close>

type_synonym peer = "http_request list \<Rightarrow> http_reply"

type_synonym mcp = "client \<times> http_request list"

definition MAX_RESPONSE_BYTES :: nat where "MAX_RESPONSE_BYTES = 16 * 1024 * 1024"

text \<open>\<open>json.dumps(..., ensure_ascii=False)\<close>.\<close>

definition raw_char :: "char \<Rightarrow> string" where
  "raw_char c = (if code c < 32 \<or> c = qt \<or> c = bslash then escape_point (code c) else [c])"

definition raw_string :: "string \<Rightarrow> string" where
  "raw_string s = [qt] @ concat (map raw_char s) @ [qt]"

fun dumps_raw :: "json \<Rightarrow> string" where
  "dumps_raw JNull = ''null''"
| "dumps_raw (JBool b) = (if b then ''true'' else ''false'')"
| "dumps_raw (JNum q) = json_number q"
| "dumps_raw (JStr s) = raw_string s"
| "dumps_raw (JList js) = ''['' @ join '', '' (map dumps_raw js) @ '']''"
| "dumps_raw (JObj fs) = ''{'' @ join '', '' (map (\<lambda>(k, j). raw_string k @ '': '' @ dumps_raw j) fs) @ ''}''"

definition error_detail :: "string \<Rightarrow> string" where
  "error_detail raw =
     (if raw = [] then ''request failed''
      else let t = decode_replace raw
           in case json_loads t of
                None \<Rightarrow> clip 500 t
              | Some payload \<Rightarrow>
                  (case (case payload of JObj fs \<Rightarrow> the_default payload (map_of fs ''detail'') | _ \<Rightarrow> payload) of
                     JStr s \<Rightarrow> clip 500 s
                   | detail \<Rightarrow> clip 500 (dumps_raw detail)))"

definition show_timeout :: "timeout \<Rightarrow> string" where
  "show_timeout t = (case t of Finite q \<Rightarrow> json_number q | Infinite positive \<Rightarrow> (if positive then ''inf'' else ''-inf'') | Not_A_Number \<Rightarrow> ''nan'')"

text \<open>What the caller of \<open>_send\<close> sees of a http_reply.\<close>

definition status_text :: "int \<Rightarrow> string" where
  "status_text n = ''HTTP '' @ show_int n"

definition received :: "environment \<Rightarrow> client \<Rightarrow> http_reply \<Rightarrow> mcp_error + json" where
  "received env c r =
     (case r of
        Answered raw \<Rightarrow>
          if length raw > MAX_RESPONSE_BYTES then failed ''GPU Monitor response exceeded the 16 MiB safety limit''
          else if raw = [] then Inr JNull
          else (case json_loads raw of Some j \<Rightarrow> Inr j | None \<Rightarrow> failed ''GPU Monitor returned a non-JSON response'')
      | Status n raw \<Rightarrow>
          chain (strict_privacy env) (\<lambda>strict.
            Inl (Api_Error (if strict then ''GPU Monitor API request failed ('' @ status_text n @ '')''
                            else ''GPU Monitor API returned '' @ status_text n @ '': '' @ error_detail (take (64 * 1024) raw)) (Some n)))
      | Unreachable reason \<Rightarrow>
          chain (strict_privacy env) (\<lambda>strict.
            failed (if strict then ''Cannot reach the configured GPU Monitor API''
                    else ''Cannot reach GPU Monitor at '' @ cl_base_url c @ '': '' @ clip 300 reason))
      | Timed_Out \<Rightarrow> failed (''GPU Monitor request timed out after '' @ show_timeout (cl_timeout c) @ ''s'')
      | Broken exn \<Rightarrow> Inl (Py_Error exn))"

definition clean_params :: "(string \<times> string) list \<Rightarrow> (string \<times> string) list" where
  "clean_params params = filter (\<lambda>(k, v). v \<noteq> []) params"

definition with_query :: "string \<Rightarrow> (string \<times> string) list \<Rightarrow> string" where
  "with_query url params = (if clean_params params = [] then url else url @ ''?'' @ urlencode (clean_params params))"

text \<open>A timeout that is no number is refused by the socket before anything is sent.\<close>

definition send ::
    "environment \<Rightarrow> peer \<Rightarrow> string \<Rightarrow> string \<Rightarrow> string option \<Rightarrow> string \<Rightarrow> string \<Rightarrow> (string \<times> string) list \<Rightarrow> mcp
      \<Rightarrow> (mcp_error + json) \<times> mcp" where
  "send env net path verb body content_type token params st =
     (case st of (c, sent) \<Rightarrow>
        if \<not> is_prefix ''/'' path then (failed ''API path must start with /'', st)
        else if cl_timeout c = Not_A_Number then (Inl (Py_Error ''ValueError''), st)
        else let req = \<lparr>hq_method = verb, hq_url = with_query (cl_base_url c @ path) params, hq_body = body,
                        hq_type = (if body = None then [] else content_type), hq_bearer = token\<rparr>
             in (received env c (net (req # sent)), (c, req # sent)))"

section \<open>Logging in\<close>

definition LOGIN_PATH :: string where "LOGIN_PATH = ''/api/auth/login''"

definition FORM :: string where "FORM = ''application/x-www-form-urlencoded''"

definition login_form_of :: "client \<Rightarrow> string" where
  "login_form_of c = urlencode [(''username'', cl_username c), (''password'', cl_password c)]"

text \<open>Truth and text of a JSON value.\<close>

fun json_true :: "json \<Rightarrow> bool" where
  "json_true JNull \<longleftrightarrow> False"
| "json_true (JBool b) \<longleftrightarrow> b"
| "json_true (JNum q) \<longleftrightarrow> q \<noteq> 0"
| "json_true (JStr s) \<longleftrightarrow> s \<noteq> []"
| "json_true (JList js) \<longleftrightarrow> js \<noteq> []"
| "json_true (JObj fs) \<longleftrightarrow> fs \<noteq> []"

definition py_str :: "environment \<Rightarrow> json \<Rightarrow> string" where
  "py_str env j =
     (case j of JNull \<Rightarrow> ''None'' | JBool b \<Rightarrow> (if b then ''True'' else ''False'') | JNum q \<Rightarrow> json_number q | JStr s \<Rightarrow> s
      | _ \<Rightarrow> en_repr env j)"

definition field :: "string \<Rightarrow> json \<Rightarrow> json \<Rightarrow> json" where
  "field k usual j = (case j of JObj fs \<Rightarrow> the_default usual (map_of fs k) | _ \<Rightarrow> usual)"

definition is_object :: "json \<Rightarrow> bool" where
  "is_object j \<longleftrightarrow> (case j of JObj fs \<Rightarrow> True | _ \<Rightarrow> False)"

definition log_in :: "environment \<Rightarrow> peer \<Rightarrow> mcp \<Rightarrow> (mcp_error + string) \<times> mcp" where
  "log_in env net st =
     after (send env net LOGIN_PATH ''POST'' (Some (login_form_of (fst st))) FORM [] [] st) (\<lambda>payload st.
       let token = field ''access_token'' (JStr []) payload; user = field ''user'' (JObj []) payload
       in if \<not> json_true token then (failed ''GPU Monitor login succeeded without an access token'', st)
          else if \<not> is_object user \<or> field ''role'' JNull user \<noteq> JStr ''viewer''
          then (failed ''GPU Monitor MCP requires a dedicated viewer account'', st)
          else (Inr (py_str env token), ((fst st)\<lparr>cl_token := py_str env token\<rparr>, snd st)))"

definition access_token :: "environment \<Rightarrow> peer \<Rightarrow> mcp \<Rightarrow> (mcp_error + string) \<times> mcp" where
  "access_token env net st = (if cl_token (fst st) \<noteq> [] then (Inr (cl_token (fst st)), st) else log_in env net st)"

definition forget_token :: "string \<Rightarrow> mcp \<Rightarrow> mcp" where
  "forget_token token st = (if cl_token (fst st) = token then ((fst st)\<lparr>cl_token := []\<rparr>, snd st) else st)"

text \<open>\<open>for attempt in range(2)\<close>: the number_of counts the attempts left.\<close>

fun get_loop ::
    "environment \<Rightarrow> peer \<Rightarrow> string \<Rightarrow> (string \<times> string) list \<Rightarrow> nat \<Rightarrow> mcp \<Rightarrow> (mcp_error + json) \<times> mcp" where
  "get_loop env net path params 0 st = (failed ''GPU Monitor authentication failed'', st)"
| "get_loop env net path params (Suc n) st =
     after (access_token env net st) (\<lambda>token st1.
       case send env net path ''GET'' None [] token params st1 of
         (Inr v, st2) \<Rightarrow> (Inr v, st2)
       | (Inl e, st2) \<Rightarrow>
           if (case e of Api_Error m s \<Rightarrow> s \<noteq> Some 401 | Py_Error m \<Rightarrow> True) \<or> n = 0 then (Inl e, st2)
           else get_loop env net path params n (forget_token token st2))"

definition api_get :: "environment \<Rightarrow> peer \<Rightarrow> string \<Rightarrow> (string \<times> string) list \<Rightarrow> mcp \<Rightarrow> (mcp_error + json) \<times> mcp" where
  "api_get env net path params st =
     (if \<not> is_prefix ''/api/'' path then (failed ''Only GPU Monitor /api/ endpoints are allowed'', st)
      else get_loop env net path params 2 st)"

definition health :: "environment \<Rightarrow> peer \<Rightarrow> mcp \<Rightarrow> (mcp_error + json) \<times> mcp" where
  "health env net st = send env net ''/api/health'' ''GET'' None [] [] [] st"

section \<open>What a client keeps\<close>

text \<open>The two kinds of requests a client makes.\<close>

definition get_request :: "client \<Rightarrow> string \<Rightarrow> (string \<times> string) list \<Rightarrow> string \<Rightarrow> http_request" where
  "get_request c path params token =
     \<lparr>hq_method = ''GET'', hq_url = with_query (cl_base_url c @ path) params, hq_body = None, hq_type = [], hq_bearer = token\<rparr>"

definition login_request :: "client \<Rightarrow> http_request" where
  "login_request c =
     \<lparr>hq_method = ''POST'', hq_url = cl_base_url c @ LOGIN_PATH, hq_body = Some (login_form_of c), hq_type = FORM, hq_bearer = []\<rparr>"

text \<open>The reply to the newest request grants a token: it names a viewer.\<close>

definition grants :: "environment \<Rightarrow> peer \<Rightarrow> http_request list \<Rightarrow> string \<Rightarrow> bool" where
  "grants env net sent token \<longleftrightarrow>
     (\<exists>raw payload. net sent = Answered raw \<and> json_loads raw = Some payload \<and> json_true (field ''access_token'' (JStr []) payload) \<and>
        token = py_str env (field ''access_token'' (JStr []) payload) \<and> field ''role'' JNull (field ''user'' (JObj []) payload) = JStr ''viewer'')"

text \<open>
  A property of the client and its requests that the four elementary steps keep: a request with no token or the
  present one, the login, taking the token a login grants, and forgetting it.
\<close>

locale client_invariant =
  fixes env :: environment and net :: peer and I :: "mcp \<Rightarrow> bool"
  assumes get_step: "I (c, sent) \<Longrightarrow> is_prefix ''/api/'' path \<Longrightarrow> token = [] \<or> token = cl_token c \<Longrightarrow>
      I (c, get_request c path params token # sent)"
    and login_step: "I (c, sent) \<Longrightarrow> I (c, login_request c # sent)"
    and grant_step: "I (c, login_request c # sent) \<Longrightarrow> grants env net (login_request c # sent) token \<Longrightarrow>
      I (c\<lparr>cl_token := token\<rparr>, login_request c # sent)"
    and forget_step: "I (c, sent) \<Longrightarrow> I (c\<lparr>cl_token := []\<rparr>, sent)"
begin

definition keeps :: "(mcp \<Rightarrow> 'r \<times> mcp) \<Rightarrow> bool" where
  "keeps f \<longleftrightarrow> (\<forall>st. I st \<longrightarrow> I (snd (f st)))"

lemma keepsI: "(\<And>st. I st \<Longrightarrow> I (snd (f st))) \<Longrightarrow> keeps f"
  by (simp add: keeps_def)

lemma keepsE: "keeps f \<Longrightarrow> I st \<Longrightarrow> I (snd (f st))"
  unfolding keeps_def by blast

lemma keepsD: "keeps f \<Longrightarrow> I st \<Longrightarrow> f st = (r, st') \<Longrightarrow> I st'"
  unfolding keeps_def by (metis snd_conv)

lemma keeps_done: "keeps (Pair r)"
  by (simp add: keeps_def)

lemma keeps_after: "keeps f \<Longrightarrow> (\<And>v. keeps (g v)) \<Longrightarrow> keeps (\<lambda>st. after (f st) g)"
proof (rule keepsI)
  fix st assume f: "keeps f" and g: "\<And>v. keeps (g v)" and I: "I st"
  obtain r st' where r: "f st = (r, st')" by (cases "f st")
  with f I have "I st'" by (blast dest: keepsD)
  with g show "I (snd (after (f st) g))" by (cases r) (simp_all add: r keepsE)
qed

lemma send_get_keeps:
  "is_prefix ''/api/'' path \<Longrightarrow> I st \<Longrightarrow> token = [] \<or> token = cl_token (fst st) \<Longrightarrow>
     send env net path ''GET'' None type token params st = (r, st') \<Longrightarrow> I st' \<and> fst st' = fst st"
  using get_step [of "fst st" "snd st" path token params]
  by (auto simp: send_def get_request_def Let_def split: prod.splits if_splits)

lemma prefix_slash: "is_prefix ''/'' LOGIN_PATH"
  by (simp add: LOGIN_PATH_def)

lemma login_keeps: "keeps (log_in env net)"
proof (rule keepsI)
  fix st assume "I st"
  obtain c sent where st: "st = (c, sent)" by (cases "st")
  show "I (snd (log_in env net st))"
  proof (cases "cl_timeout c = Not_A_Number")
    case True
    with \<open>I st\<close> show ?thesis by (simp add: st log_in_def send_def prefix_slash)
  next
    case False
    let ?http_reply = "received env c (net (login_request c # sent))"
    have send: "send env net LOGIN_PATH ''POST'' (Some (login_form_of c)) FORM [] [] (c, sent) = (?http_reply, (c, login_request c # sent))"
      using False by (simp add: send_def prefix_slash login_request_def with_query_def clean_params_def Let_def)
    have I: "I (c, login_request c # sent)" using \<open>I st\<close> by (simp add: st login_step)
    show ?thesis
    proof (cases ?http_reply)
      case (Inl e)
      with I show ?thesis by (simp add: st log_in_def send)
    next
      case (Inr payload)
      have "grants env net (login_request c # sent) (py_str env (field ''access_token'' (JStr []) payload))"
        if "json_true (field ''access_token'' (JStr []) payload)" "field ''role'' JNull (field ''user'' (JObj []) payload) = JStr ''viewer''"
      proof -
        from that(1) have "payload \<noteq> JNull" by (auto simp: field_def)
        with Inr obtain raw where "net (login_request c # sent) = Answered raw" "json_loads raw = Some payload"
          by (auto simp: received_def failed_def chain_def split: http_reply.splits if_splits option.splits sum.splits)
        with that show ?thesis unfolding grants_def by blast
      qed
      then show ?thesis using I grant_step [OF I] by (simp add: st log_in_def send Inr Let_def)
    qed
  qed
qed

lemma access_token_keeps: "keeps (access_token env net)"
  using login_keeps unfolding access_token_def keeps_def by simp

lemma access_token_current: "access_token env net st = (Inr token, st') \<Longrightarrow> token = cl_token (fst st')"
  by (auto simp: access_token_def log_in_def after_def failed_def Let_def split: if_splits prod.splits sum.splits)

lemma forget_keeps: "I st \<Longrightarrow> I (forget_token token st)"
  using forget_step [of "fst st" "snd st"] by (simp add: forget_token_def)

lemma get_loop_keeps: "is_prefix ''/api/'' path \<Longrightarrow> keeps (get_loop env net path params n)"
proof (induction n)
  case (Suc n)
  show ?case
  proof (rule keepsI)
    fix st assume "I st"
    obtain r st1 where token: "access_token env net st = (r, st1)" by (cases "access_token env net st")
    with \<open>I st\<close> access_token_keeps have I1: "I st1" by (blast dest: keepsD)
    show "I (snd (get_loop env net path params (Suc n) st))"
    proof (cases r)
      case (Inl e)
      with I1 token show ?thesis by simp
    next
      case (Inr tok)
      obtain v st2 where sent: "send env net path ''GET'' None [] tok params st1 = (v, st2)" by (cases "send env net path ''GET'' None [] tok params st1")
      have "I st2" using send_get_keeps [OF Suc.prems I1 _ sent] access_token_current [of st tok st1] token Inr by simp
      moreover have "I (snd (get_loop env net path params n (forget_token tok st2)))"
        by (rule keepsE [OF Suc.IH [OF Suc.prems] forget_keeps [OF \<open>I st2\<close>]])
      ultimately show ?thesis using token Inr sent by (cases v) simp_all
    qed
  qed
qed (simp add: keeps_def)

lemma api_get_keeps: "keeps (api_get env net path params)"
  using get_loop_keeps [of path params 2] by (simp add: keeps_def api_get_def)

lemma health_keeps: "keeps (health env net)"
proof (rule keepsI)
  fix st assume "I st"
  obtain r st' where "send env net ''/api/health'' ''GET'' None [] [] [] st = (r, st')" by (cases "send env net ''/api/health'' ''GET'' None [] [] [] st")
  with send_get_keeps [of "''/api/health''" st "[]"] \<open>I st\<close> show "I (snd (health env net st))" by (simp add: health_def)
qed

end

section \<open>Requests stay at the monitor\<close>

definition allowed :: "client \<Rightarrow> http_request \<Rightarrow> bool" where
  "allowed c req \<longleftrightarrow> req = login_request c \<or>
     (\<exists>path params token. is_prefix ''/api/'' path \<and> req = get_request c path params token)"

text \<open>A login among the requests so far granted the token.\<close>

fun granted :: "environment \<Rightarrow> peer \<Rightarrow> client \<Rightarrow> http_request list \<Rightarrow> string \<Rightarrow> bool" where
  "granted env net c [] token \<longleftrightarrow> False"
| "granted env net c (req # earlier) token \<longleftrightarrow>
     req = login_request c \<and> grants env net (req # earlier) token \<or> granted env net c earlier token"

fun bearers_granted :: "environment \<Rightarrow> peer \<Rightarrow> client \<Rightarrow> http_request list \<Rightarrow> bool" where
  "bearers_granted env net c [] \<longleftrightarrow> True"
| "bearers_granted env net c (req # earlier) \<longleftrightarrow>
     (hq_bearer req \<noteq> [] \<longrightarrow> granted env net c earlier (hq_bearer req)) \<and> bearers_granted env net c earlier"

definition sound :: "environment \<Rightarrow> peer \<Rightarrow> client \<Rightarrow> mcp \<Rightarrow> bool" where
  "sound env net c0 st \<longleftrightarrow>
     fst st = c0\<lparr>cl_token := cl_token (fst st)\<rparr> \<and> list_all (allowed c0) (snd st) \<and> bearers_granted env net c0 (snd st) \<and>
     (cl_token (fst st) \<noteq> [] \<longrightarrow> granted env net c0 (snd st) (cl_token (fst st)))"

lemma requests_ignore_token [simp]:
  "login_request (c\<lparr>cl_token := t\<rparr>) = login_request c" "get_request (c\<lparr>cl_token := t\<rparr>) = get_request c"
  by (simp_all add: login_request_def login_form_of_def get_request_def fun_eq_iff)

lemma requests_of_sound:
  "sound env net c0 (c, sent) \<Longrightarrow> login_request c = login_request c0 \<and> get_request c = get_request c0"
  unfolding sound_def by (metis fst_conv requests_ignore_token)

lemma client_of_sound: "sound env net c0 (c, sent) \<Longrightarrow> \<exists>t. c = c0\<lparr>cl_token := t\<rparr>"
  by (auto simp: sound_def)

interpretation confined: client_invariant env net "sound env net c0" for env net c0
proof unfold_locales
  fix c sent path token params
  assume s: "sound env net c0 (c, sent)" "is_prefix ''/api/'' path" "token = [] \<or> token = cl_token c"
  have "hq_bearer (get_request c path params token) = token" by (simp add: get_request_def)
  with s requests_of_sound [OF s(1)] show "sound env net c0 (c, get_request c path params token # sent)"
    by (auto simp: sound_def allowed_def)
next
  fix c sent
  assume s: "sound env net c0 (c, sent)"
  have "hq_bearer (login_request c) = []" by (simp add: login_request_def)
  with s requests_of_sound [OF s] show "sound env net c0 (c, login_request c # sent)"
    by (auto simp: sound_def allowed_def)
next
  fix c sent token
  assume s: "sound env net c0 (c, login_request c # sent)" and "grants env net (login_request c # sent) token"
  moreover from client_of_sound [OF s] have "c\<lparr>cl_token := token\<rparr> = c0\<lparr>cl_token := token\<rparr>" by auto
  ultimately show "sound env net c0 (c\<lparr>cl_token := token\<rparr>, login_request c # sent)"
    using requests_of_sound [OF s] by (auto simp: sound_def)
next
  fix c sent
  assume s: "sound env net c0 (c, sent)"
  moreover from client_of_sound [OF s] have "c\<lparr>cl_token := []\<rparr> = c0\<lparr>cl_token := []\<rparr>" by auto
  ultimately show "sound env net c0 (c\<lparr>cl_token := []\<rparr>, sent)" by (auto simp: sound_def)
qed

text \<open>A client that was made has passed the checks, and starts without a token.\<close>

lemma new_client_checked:
  assumes "new_client env url username password timeout = Inr c"
  obtains parsed where "urlsplit (cl_base_url c) = Some parsed" "scheme parsed = ''https'' \<or>
      scheme parsed = ''http'' \<and> is_loopback_host env (hostname parsed)" "\<not> has_username parsed" "url_password parsed = []"
    "cl_token c = []" "cl_username c = username" "cl_password c = password"
  using assms unfolding new_client_def failed_def Let_def
  by (auto split: option.splits if_splits)

section \<open>How often a request is repeated\<close>

definition is_get :: "http_request \<Rightarrow> bool" where
  "is_get req \<longleftrightarrow> hq_method req = ''GET''"

lemma send_sends: "send env net path verb body ctype token params st = (r, st') \<Longrightarrow>
    fst st' = fst st \<and> (snd st' = snd st \<or> (\<exists>req. snd st' = req # snd st \<and> hq_method req = verb))"
  by (auto simp: send_def Let_def split: prod.splits if_splits)

lemma access_token_sends: "access_token env net st = (r, st1) \<Longrightarrow>
    snd st1 = snd st \<or> (\<exists>req. snd st1 = req # snd st \<and> hq_method req = ''POST'')"
proof -
  assume a: "access_token env net st = (r, st1)"
  show ?thesis
  proof (cases "cl_token (fst st) \<noteq> []")
    case True
    with a show ?thesis by (simp add: access_token_def)
  next
    case False
    obtain v st2 where send: "send env net LOGIN_PATH ''POST'' (Some (login_form_of (fst st))) FORM [] [] st = (v, st2)"
      by (cases "send env net LOGIN_PATH ''POST'' (Some (login_form_of (fst st))) FORM [] [] st")
    have "snd st1 = snd st2" using a False send
      by (cases v) (auto simp: access_token_def log_in_def failed_def Let_def split: if_splits)
    with send_sends [OF send] show ?thesis by simp
  qed
qed

lemma unauthorised_only_from_401: "received env c r = Inl (Api_Error m (Some 401)) \<Longrightarrow> \<exists>raw. r = Status 401 raw"
  by (auto simp: received_def failed_def chain_def strict_privacy_def Let_def split: http_reply.splits if_splits option.splits sum.splits)

lemma unauthorised_was_sent:
  "send env net path verb None ctype token params st = (Inl (Api_Error m (Some 401)), st') \<Longrightarrow>
     \<exists>req raw. snd st' = req # snd st \<and> hq_method req = verb \<and> net (req # snd st) = Status 401 raw"
  by (auto simp: send_def Let_def failed_def dest!: unauthorised_only_from_401 split: prod.splits if_splits)

text \<open>New requests: at most so many of either kind, and a second \<open>GET\<close> only after the first was refused with 401.\<close>

definition repeats :: "peer \<Rightarrow> nat \<Rightarrow> http_request list \<Rightarrow> http_request list \<Rightarrow> bool" where
  "repeats net n new before \<longleftrightarrow>
     length (filter is_get new) \<le> n \<and> length (filter (\<lambda>q. \<not> is_get q) new) \<le> n \<and>
     (length (filter is_get new) > 1 \<longrightarrow> (\<exists>later req earlier raw. new = later @ req # earlier \<and> is_get req \<and>
        filter is_get earlier = [] \<and> net (req # earlier @ before) = Status 401 raw))"

lemma get_loop_sends:
  "get_loop env net path params n st = (r, st') \<Longrightarrow> \<exists>new. snd st' = new @ snd st \<and> repeats net n new (snd st)"
proof (induction n arbitrary: st r st')
  case (Suc n)
  obtain t st1 where token: "access_token env net st = (t, st1)" by (cases "access_token env net st")
  from access_token_sends [OF token] obtain new1 where new1: "snd st1 = new1 @ snd st" "filter is_get new1 = []"
    "length (filter (\<lambda>q. \<not> is_get q) new1) \<le> 1"
    by (auto simp: is_get_def)
  show ?case
  proof (cases t)
    case (Inl e)
    with Suc.prems token new1 show ?thesis by (auto simp: repeats_def)
  next
    case (Inr tok)
    obtain v st2 where sent: "send env net path ''GET'' None [] tok params st1 = (v, st2)"
      by (cases "send env net path ''GET'' None [] tok params st1")
    have forget: "snd (forget_token tok st2) = snd st2" by (simp add: forget_token_def)
    show ?thesis
    proof (cases "\<exists>m. v = Inl (Api_Error m (Some 401)) \<and> n \<noteq> 0")
      case False
      with Suc.prems token Inr sent have "st' = st2" by (auto split: sum.splits if_splits mcp_error.splits)
      with send_sends [OF sent] new1 show ?thesis by (auto simp: repeats_def is_get_def)
    next
      case True
      then obtain m where m: "v = Inl (Api_Error m (Some 401))" "n \<noteq> 0" by blast
      with sent obtain req raw where req: "snd st2 = req # snd st1" "is_get req" "net (req # snd st1) = Status 401 raw"
        using unauthorised_was_sent [of env net path "''GET''" "[]" tok params st1 m st2] by (auto simp: is_get_def)
      have "get_loop env net path params n (forget_token tok st2) = (r, st')"
        using Suc.prems token Inr sent m by simp
      from Suc.IH [OF this] obtain new where "snd st' = new @ snd st2" "length (filter is_get new) \<le> n"
        "length (filter (\<lambda>q. \<not> is_get q) new) \<le> n" unfolding forget repeats_def by blast
      then have "snd st' = (new @ req # new1) @ snd st \<and> repeats net (Suc n) (new @ req # new1) (snd st)"
        using req new1 unfolding repeats_def by auto
      then show ?thesis by blast
    qed
  qed
qed (simp add: repeats_def)

text \<open>
  C27.  An authenticated read always ends after at most four requests, two of them reads and two logins; it reads a second time
  only when the first read was refused with status 401.
\<close>

theorem get_repeats_once_after_401:
  assumes "api_get env net path params st = (r, st')"
  shows "\<exists>new. snd st' = new @ snd st \<and> length new \<le> 4 \<and> repeats net 2 new (snd st)"
proof -
  obtain new where new: "snd st' = new @ snd st" "repeats net 2 new (snd st)"
  proof (cases "is_prefix ''/api/'' path")
    case True
    with assms that get_loop_sends [of env net path params 2 st r st'] show ?thesis by (auto simp: api_get_def)
  next
    case False
    with assms that [of "[]"] show ?thesis by (simp add: api_get_def repeats_def)
  qed
  moreover have "length new = length (filter is_get new) + length (filter (\<lambda>q. \<not> is_get q) new)"
    by (rule sum_length_filter_compl [symmetric])
  ultimately show ?thesis by (auto simp: repeats_def)
qed

definition LOCAL_CLIENT :: client where
  "LOCAL_CLIENT = \<lparr>cl_base_url = ''http://127.0.0.1:8300'', cl_username = ''mcp'', cl_password = ''pw'', cl_timeout = Finite 15,
     cl_token = ''t'', cl_no_proxy = True\<rparr>"

definition QUIET_ENV :: environment where
  "QUIET_ENV = \<lparr>en_vars = [], en_localhost = None, en_hmac = (\<lambda>key text. text), en_repr = json_dumps\<rparr>"

theorem get_repeats_once_after_401_witness:
  "\<exists>r st' new. api_get QUIET_ENV (\<lambda>sent. Status 401 []) ''/api/servers'' [] (LOCAL_CLIENT, []) = (r, st') \<and>
     snd st' = new @ [] \<and> length new \<le> 4 \<and> repeats (\<lambda>sent. Status 401 []) 2 new []"
proof -
  obtain r st' where "api_get QUIET_ENV (\<lambda>sent. Status 401 []) ''/api/servers'' [] (LOCAL_CLIENT, []) = (r, st')"
    by (cases "api_get QUIET_ENV (\<lambda>sent. Status 401 []) ''/api/servers'' [] (LOCAL_CLIENT, [])")
  with get_repeats_once_after_401 [OF this] show ?thesis by auto
qed

text \<open>A timeout that is no number passes the check of the range, and every request then fails before it is sent.\<close>

lemma nan_timeout_accepted:
  "\<not> timeout_refused (the (parse_timeout ''nan'')) \<and>
   send env net ''/api/health'' ''GET'' None [] [] [] (LOCAL_CLIENT\<lparr>cl_timeout := the (parse_timeout ''nan'')\<rparr>, sent) =
     (Inl (Py_Error ''ValueError''), (LOCAL_CLIENT\<lparr>cl_timeout := Not_A_Number\<rparr>, sent))"
proof -
  have "parse_timeout ''nan'' = Some Not_A_Number"
    by (simp add: parse_timeout_def unsign_def lower_def lower_char_def strip_def lstrip_def rstrip_def is_space_def is_upper_def code_def)
  then show ?thesis by (simp add: send_def)
qed

end
