(* ===== verification/McpTools.thy ===== *)
theory McpTools
  imports McpClient Metrics
begin

text \<open>
  The tools of \<open>mcp_server/server.py\<close>: what they ask the monitor for, how they shorten and mask the answers, and what the
  privacy mode keeps from the model.  Dictionaries are JSON objects.  The privacy mode is read where a tool first needs
  it; the start of the process has checked that it is valid.
\<close>

section \<open>Reading JSON\<close>

definition as_list :: "json \<Rightarrow> string \<Rightarrow> mcp_error + json list" where
  "as_list v label =
     (case v of JList js \<Rightarrow> Inr (filter is_object js)
      | _ \<Rightarrow> failed (''GPU Monitor returned an invalid '' @ label @ '' payload''))"

text \<open>\<open>float(value or 0)\<close>, 0 for what is no number_of.\<close>

definition number_of :: "json \<Rightarrow> rat" where
  "number_of j =
     (case j of JNum q \<Rightarrow> q | JBool b \<Rightarrow> (if b then 1 else 0) | JStr s \<Rightarrow> the_default 0 (py_float s) | _ \<Rightarrow> 0)"

definition rounded_to :: "nat \<Rightarrow> json \<Rightarrow> json" where
  "rounded_to digits j = JNum (py_round_to digits (number_of j))"

definition rounded :: "json \<Rightarrow> json" where
  "rounded j = rounded_to 1 j"

definition whole_number :: "json \<Rightarrow> json" where
  "whole_number j = JNum (of_int (py_trunc (number_of j)))"

definition memory_percent :: "rat \<Rightarrow> rat \<Rightarrow> rat" where
  "memory_percent used whole = (if whole \<noteq> 0 then py_round_to 1 (used / whole * 100) else 0)"

text \<open>\<open>d.get(k)\<close>, \<open>x or y\<close> and \<open>str(x or "")\<close>.\<close>

definition get_field :: "string \<Rightarrow> json \<Rightarrow> json" where
  "get_field k j = field k JNull j"

definition or_else :: "json \<Rightarrow> json \<Rightarrow> json" where
  "or_else a b = (if json_true a then a else b)"

definition text_or_empty :: "environment \<Rightarrow> json \<Rightarrow> string" where
  "text_or_empty env j = py_str env (or_else j (JStr []))"

text \<open>\<open>list(x or [])\<close> and \<open>for y in x or []\<close>: keys of a dictionary, characters of a text.\<close>

definition items_of :: "json \<Rightarrow> mcp_error + json list" where
  "items_of j =
     (if \<not> json_true j then Inr []
      else case j of
             JList js \<Rightarrow> Inr js
           | JObj fs \<Rightarrow> Inr (map (\<lambda>(k, v). JStr k) fs)
           | JStr s \<Rightarrow> Inr (map (\<lambda>p. JStr (utf8_point p)) (the_default [] (points s)))
           | _ \<Rightarrow> Inl (Py_Error ''TypeError''))"

definition objects_of :: "json \<Rightarrow> mcp_error + json list" where
  "objects_of j = map_sum id (filter is_object) (items_of j)"

fun map_each :: "('a \<Rightarrow> 'e + 'b) \<Rightarrow> 'a list \<Rightarrow> 'e + 'b list" where
  "map_each f [] = Inr []"
| "map_each f (x # xs) = chain (f x) (\<lambda>y. chain (map_each f xs) (\<lambda>ys. Inr (y # ys)))"

definition only_if :: "bool \<Rightarrow> 'a list \<Rightarrow> 'a list" where
  "only_if b xs = (if b then xs else [])"

definition mean_or_zero :: "rat list \<Rightarrow> json" where
  "mean_or_zero xs = JNum (mean1 xs)"

definition max_or_zero :: "rat list \<Rightarrow> json" where
  "max_or_zero xs = JNum (max1 xs)"

definition numbers :: "string \<Rightarrow> json list \<Rightarrow> rat list" where
  "numbers k gs = map (\<lambda>g. number_of (get_field k g)) gs"

section \<open>Records shown to the model\<close>

definition process_record :: "environment \<Rightarrow> bool \<Rightarrow> json \<Rightarrow> json" where
  "process_record env strict p =
     JObj ([(''pid'', get_field ''pid'' p), (''gpu_memory_mb'', rounded (get_field ''mem_mb'' p))] @
       only_if (\<not> strict) [(''user'', field ''user'' (JStr []) p), (''command'', JStr (clip 120 (text_or_empty env (get_field ''command'' p))))])"

definition hashed_field :: "environment \<Rightarrow> string \<Rightarrow> (string \<times> json) list \<Rightarrow> mcp_error + (string \<times> json) list" where
  "hashed_field env key out =
     (case map_of out key of
        None \<Rightarrow> Inr out
      | Some v \<Rightarrow>
          map_sum id (\<lambda>h. filter (\<lambda>(k, v). k \<noteq> key) (AList.update (key @ ''_hash'') (JStr h) out))
            (opaque_hardware_id env (text_or_empty env v)))"

definition analysis_process :: "json \<Rightarrow> json" where
  "analysis_process p =
     JObj [(''pid'', get_field ''pid'' p), (''gpu_memory_mb'', rounded (field ''gpu_memory_mb'' (get_field ''mem_mb'' p) p))]"

definition ID_FIELDS :: "string list" where "ID_FIELDS = [''uuid'', ''serial'', ''pci_bus_id'', ''gpu_uuid'']"

definition privacy_gpu_record :: "environment \<Rightarrow> bool \<Rightarrow> json \<Rightarrow> mcp_error + json" where
  "privacy_gpu_record env strict item =
     (case item of
        JObj fs \<Rightarrow>
          if \<not> strict then Inr item
          else chain (fold (\<lambda>k r. chain r (hashed_field env k)) ID_FIELDS (Inr fs)) (\<lambda>out.
                 case map_of out ''processes'' of
                   None \<Rightarrow> Inr (JObj out)
                 | Some ps \<Rightarrow> chain (case ps of JList js \<Rightarrow> Inr js | JNull \<Rightarrow> Inl (Py_Error ''TypeError'')
                                         | JBool b \<Rightarrow> Inl (Py_Error ''TypeError'') | JNum q \<Rightarrow> Inl (Py_Error ''TypeError'') | _ \<Rightarrow> items_of ps) (\<lambda>js.
                     Inr (JObj (AList.update ''processes'' (JList (map analysis_process (filter is_object js))) out))))
      | _ \<Rightarrow> Inr item)"

definition gpu_fields :: "json \<Rightarrow> json list \<Rightarrow> (string \<times> json) list" where
  "gpu_fields g reasons =
     [(''index'', field ''index'' (JNum 0) g), (''name'', field ''name'' (JStr []) g),
      (''utilization_pct'', rounded (get_field ''utilization'' g)), (''memory_utilization_pct'', rounded (get_field ''util_memory'' g)),
      (''memory_used_mb'', rounded (get_field ''mem_used_mb'' g)), (''memory_total_mb'', rounded (get_field ''mem_total_mb'' g)),
      (''memory_used_pct'', JNum (memory_percent (number_of (get_field ''mem_used_mb'' g)) (number_of (get_field ''mem_total_mb'' g)))),
      (''temperature_c'', rounded (get_field ''temperature'' g)), (''memory_temperature_c'', rounded (get_field ''mem_temperature'' g)),
      (''power_draw_w'', rounded (get_field ''power_draw'' g)), (''power_limit_w'', rounded (get_field ''power_limit'' g)),
      (''fan_speed_pct'', rounded (get_field ''fan_speed'' g)), (''pstate'', field ''pstate'' (JStr []) g),
      (''compute_mode'', field ''compute_mode'' (JStr []) g), (''clock_graphics_mhz'', rounded (get_field ''clock_graphics'' g)),
      (''clock_memory_mhz'', rounded (get_field ''clock_memory'' g)), (''throttle_reasons'', JList reasons),
      (''ecc_supported'', JBool (json_true (field ''ecc_supported'' (JBool False) g))),
      (''ecc_corrected_volatile'', whole_number (get_field ''ecc_corrected_volatile'' g)),
      (''ecc_uncorrected_volatile'', whole_number (get_field ''ecc_uncorrected_volatile'' g)),
      (''ecc_corrected_total'', whole_number (get_field ''ecc_corrected_total'' g)),
      (''ecc_uncorrected_total'', whole_number (get_field ''ecc_uncorrected_total'' g)),
      (''retired_pages_pending'', whole_number (get_field ''retired_pending'' g)),
      (''remapped_rows_pending'', whole_number (get_field ''remapped_pending'' g)),
      (''remapped_rows_failure'', whole_number (get_field ''remapped_failure'' g)),
      (''pcie_generation'', JObj [(''current'', whole_number (get_field ''pcie_gen_current'' g)), (''maximum'', whole_number (get_field ''pcie_gen_max'' g))]),
      (''pcie_width'', JObj [(''current'', whole_number (get_field ''pcie_width_current'' g)), (''maximum'', whole_number (get_field ''pcie_width_max'' g))])]"

definition hardware_fields :: "environment \<Rightarrow> bool \<Rightarrow> json \<Rightarrow> mcp_error + (string \<times> json) list" where
  "hardware_fields env strict g =
     (if strict then map_sum id (\<lambda>h. [(''hardware_id_hash'', JStr h)]) (opaque_hardware_id env (text_or_empty env (get_field ''uuid'' g)))
      else Inr [(''uuid'', field ''uuid'' (JStr []) g), (''serial'', field ''serial'' (JStr []) g),
                (''pci_bus_id'', field ''pci_bus_id'' (JStr []) g)])"

definition count_of :: "'a list \<Rightarrow> json" where
  "count_of xs = JNum (of_nat (length xs))"

definition gpu_snapshot :: "environment \<Rightarrow> bool \<Rightarrow> json \<Rightarrow> mcp_error + (string \<times> json) list" where
  "gpu_snapshot env strict g =
     chain (items_of (get_field ''throttle_reasons'' g)) (\<lambda>reasons.
       chain (hardware_fields env strict g) (\<lambda>hw.
         chain (objects_of (get_field ''processes'' g)) (\<lambda>ps.
           Inr (gpu_fields g reasons @ hw @ [(''process_count'', count_of ps),
             (''processes'', JList (map (process_record env strict) (take 50 ps))),
             (''processes_truncated'', JBool (length ps > 50))]))))"

definition server_public :: "bool \<Rightarrow> json \<Rightarrow> mcp_error + json" where
  "server_public strict s =
     (let shown = [(''id'', get_field ''id'' s), (''name'', field ''name'' (JStr []) s),
                   (''enabled'', JBool (json_true (field ''enabled'' (JBool False) s))),
                   (''server_type'', field ''server_type'' (JStr ''gpu'') s),
                   (''lifecycle_status'', or_else (get_field ''status'' s) (JStr ''active''))]
      in if strict then Inr (JObj shown)
         else map_sum id (\<lambda>tags. JObj (shown @ [(''host'', field ''host'' (JStr []) s), (''port'', field ''port'' (JNum 22) s),
                (''status_reason'', or_else (get_field ''status_reason'' s) (JStr [])),
                (''status_until'', get_field ''status_until'' s), (''tags'', JList tags)]))
              (items_of (get_field ''tags'' s)))"

definition hidden_from_matrix :: "bool \<Rightarrow> json \<Rightarrow> bool" where
  "hidden_from_matrix include_disabled row \<longleftrightarrow> \<not> include_disabled \<and> \<not> json_true (field ''enabled'' (JBool False) row)"

definition matrix_line :: "bool \<Rightarrow> json \<Rightarrow> mcp_error + json" where
  "matrix_line strict row =
     chain (objects_of (get_field ''gpus'' row)) (\<lambda>gpus.
       chain (if strict then Inr [] else items_of (get_field ''tags'' row)) (\<lambda>tags.
         let used = sum_list (numbers ''mem_used_mb'' gpus); whole = sum_list (numbers ''mem_total_mb'' gpus)
         in Inr (JObj ([(''server_id'', get_field ''server_id'' row), (''server_name'', field ''server_name'' (JStr []) row),
              (''enabled'', JBool (json_true (field ''enabled'' (JBool False) row))),
              (''online'', JBool (json_true (field ''online'' (JBool False) row))),
              (''lifecycle_status'', or_else (get_field ''status'' row) (JStr ''active'')), (''gpu_count'', count_of gpus),
              (''average_utilization_pct'', mean_or_zero (numbers ''utilization'' gpus)),
              (''memory_used_mb'', JNum (round_sum (numbers ''mem_used_mb'' gpus))),
              (''memory_total_mb'', JNum (round_sum (numbers ''mem_total_mb'' gpus))),
              (''memory_used_pct'', JNum (memory_percent used whole)),
              (''maximum_temperature_c'', max_or_zero (numbers ''temperature'' gpus)),
              (''power_draw_w'', JNum (round_sum (numbers ''power_draw'' gpus)))] @
              only_if (\<not> strict) [(''hostname'', field ''hostname'' (JStr []) row), (''tags'', JList tags),
                (''error'', field ''error'' (JStr []) row)]))))"

definition summarize_matrix :: "bool \<Rightarrow> bool \<Rightarrow> json list \<Rightarrow> mcp_error + json list" where
  "summarize_matrix strict include_disabled rows = map_each (matrix_line strict) (filter (\<lambda>r. \<not> hidden_from_matrix include_disabled r) rows)"

section \<open>Finding a server\<close>

definition ref_ok :: "string \<Rightarrow> bool" where
  "ref_ok ref \<longleftrightarrow> text_length ref \<le> 128 \<and> list_all (\<lambda>c. 32 \<le> code c \<and> code c \<noteq> 127) ref"

definition equals_int :: "json \<Rightarrow> int \<Rightarrow> bool" where
  "equals_int j i \<longleftrightarrow> (case j of JNum q \<Rightarrow> q = of_int i | JBool b \<Rightarrow> (if b then 1 else 0) = i | _ \<Rightarrow> False)"

definition name_of :: "environment \<Rightarrow> string \<Rightarrow> json \<Rightarrow> string" where
  "name_of env k s = lower (py_str env (field k (JStr []) s))"

definition first_nonempty :: "'a list list \<Rightarrow> 'a list" where
  "first_nonempty xss = (case filter (\<lambda>xs. xs \<noteq> []) xss of [] \<Rightarrow> [] | xs # _ \<Rightarrow> xs)"

definition server_matches :: "environment \<Rightarrow> string \<Rightarrow> json list \<Rightarrow> json list" where
  "server_matches env ref servers =
     first_nonempty
       [if ref \<noteq> [] \<and> list_all is_digit ref
        then filter (\<lambda>s. equals_int (get_field ''id'' s) (the_default 0 (py_int ref))) servers else [],
        filter (\<lambda>s. lower ref \<in> {name_of env ''name'' s, name_of env ''host'' s}) servers,
        filter (\<lambda>s. contains (lower ref) (name_of env ''name'' s)) servers]"

definition choices :: "environment \<Rightarrow> json list \<Rightarrow> string" where
  "choices env ss = join '', '' (map (\<lambda>s. py_str env (get_field ''id'' s) @ '':'' @ py_str env (get_field ''name'' s)) ss)"

definition gpu_servers :: "json list \<Rightarrow> json list" where
  "gpu_servers servers = filter (\<lambda>s. field ''server_type'' (JStr ''gpu'') s \<noteq> JStr ''cpu'') servers"

definition pick_server :: "environment \<Rightarrow> string \<Rightarrow> json list \<Rightarrow> mcp_error + json" where
  "pick_server env ref servers =
     (case server_matches env ref servers of
        [s] \<Rightarrow> Inr s
      | [] \<Rightarrow> failed (''GPU server not found: '' @ ref @ ''. Available GPU servers: '' @
               name_or (choices env (take 20 servers)) ''none'')
      | ss \<Rightarrow> failed (''server reference is ambiguous; choose one of: '' @ choices env (take 10 ss)))"

definition pure_after :: "mcp_error + 'a \<Rightarrow> ('a \<Rightarrow> mcp \<Rightarrow> (mcp_error + 'b) \<times> mcp) \<Rightarrow> mcp \<Rightarrow> (mcp_error + 'b) \<times> mcp" where
  "pure_after r f st = after (r, st) f"

definition resolve_server :: "environment \<Rightarrow> peer \<Rightarrow> string \<Rightarrow> mcp \<Rightarrow> (mcp_error + json) \<times> mcp" where
  "resolve_server env net reference st =
     (let ref = strip reference
      in if ref = [] then (failed ''server must be an ID, exact name, or unambiguous name fragment'', st)
         else if \<not> ref_ok ref then (failed ''server reference is invalid or too long'', st)
         else after (api_get env net ''/api/servers'' [] st) (\<lambda>v. Pair
           (chain (as_list v ''server list'') (\<lambda>servers. pick_server env ref (gpu_servers servers)))))"

text \<open>\<open>int(resolved["id"])\<close>.\<close>

definition id_of :: "json \<Rightarrow> mcp_error + int" where
  "id_of s =
     (case s of
        JObj fs \<Rightarrow>
          (case map_of fs ''id'' of
             None \<Rightarrow> Inl (Py_Error ''KeyError'')
           | Some (JNum q) \<Rightarrow> Inr (py_trunc q)
           | Some (JBool b) \<Rightarrow> Inr (if b then 1 else 0)
           | Some (JStr t) \<Rightarrow> (case py_int t of Some i \<Rightarrow> Inr i | None \<Rightarrow> Inl (Py_Error ''ValueError''))
           | Some _ \<Rightarrow> Inl (Py_Error ''TypeError''))
      | _ \<Rightarrow> Inl (Py_Error ''TypeError''))"

section \<open>The tools\<close>

text \<open>
  Each tool gets the client from the process's single instance, which the first call makes; the privacy mode is read
  from the environment where the code asks for it, and is the same throughout a call.
\<close>

type_synonym process = "client option \<times> http_request list"

definition with_client :: "environment \<Rightarrow> (mcp \<Rightarrow> (mcp_error + 'a) \<times> mcp) \<Rightarrow> process \<Rightarrow> (mcp_error + 'a) \<times> process" where
  "with_client env tool p =
     (case (case fst p of Some c \<Rightarrow> Inr c | None \<Rightarrow> from_env env) of
        Inl e \<Rightarrow> (Inl e, p)
      | Inr c \<Rightarrow> (case tool (c, snd p) of (r, (c', sent)) \<Rightarrow> (r, (Some c', sent))))"

definition in_mode :: "environment \<Rightarrow> (bool \<Rightarrow> mcp \<Rightarrow> (mcp_error + 'a) \<times> mcp) \<Rightarrow> mcp \<Rightarrow> (mcp_error + 'a) \<times> mcp" where
  "in_mode env f st = after (strict_privacy env, st) f"

definition connection_status :: "environment \<Rightarrow> peer \<Rightarrow> mcp \<Rightarrow> (mcp_error + json) \<times> mcp" where
  "connection_status env net st =
     after (health env net st) (\<lambda>healthy st. after (api_get env net ''/api/auth/me'' [] st) (\<lambda>me. in_mode env (\<lambda>strict.
       Pair (Inr (JObj [(''health'', healthy),
         (''authenticated_user'', JObj ([(''role'', field ''role'' (JStr []) me)] @
            only_if (\<not> strict \<and> is_object me) [(''username'', field ''username'' (JStr []) me),
              (''display_name'', field ''display_name'' (JStr []) me)])),
         (''read_only_tools'', JBool True), (''privacy_mode'', JStr (if strict then ''strict'' else ''extended''))])))))"

text \<open>The mode is asked for once per shown line: no line, no question.\<close>

definition mode_if :: "bool \<Rightarrow> environment \<Rightarrow> mcp_error + bool" where
  "mode_if needed env = (if needed then strict_privacy env else Inr True)"

definition list_gpu_servers :: "environment \<Rightarrow> peer \<Rightarrow> bool \<Rightarrow> mcp \<Rightarrow> (mcp_error + json) \<times> mcp" where
  "list_gpu_servers env net include_disabled st =
     after (api_get env net ''/api/metrics/cluster-gpus'' [] st) (\<lambda>v. Pair
       (chain (as_list v ''GPU matrix'') (\<lambda>rows.
          chain (mode_if (list_ex (\<lambda>r. \<not> hidden_from_matrix include_disabled r) rows) env) (\<lambda>strict.
            map_sum id (\<lambda>lines. JObj [(''count'', count_of lines), (''servers'', JList lines)])
              (summarize_matrix strict include_disabled rows)))))"

definition is_busy :: "json \<Rightarrow> bool" where
  "is_busy g \<longleftrightarrow> number_of (get_field ''utilization'' g) \<ge> 5"

definition holds_idle :: "json \<Rightarrow> bool" where
  "holds_idle g \<longleftrightarrow> \<not> is_busy g \<and>
     memory_percent (number_of (get_field ''mem_used_mb'' g)) (number_of (get_field ''mem_total_mb'' g)) \<ge> 30"

definition row_enabled :: "json \<Rightarrow> bool" where "row_enabled r \<longleftrightarrow> json_true (field ''enabled'' (JBool False) r)"
definition row_online :: "json \<Rightarrow> bool" where "row_online r \<longleftrightarrow> json_true (field ''online'' (JBool False) r)"

definition summary_of_gpus :: "json list \<Rightarrow> json" where
  "summary_of_gpus gpus =
     (let used = sum_list (numbers ''mem_used_mb'' gpus); whole = sum_list (numbers ''mem_total_mb'' gpus)
      in JObj [(''total_reporting'', count_of gpus), (''busy'', count_of (filter is_busy gpus)),
           (''idle'', count_of (filter (\<lambda>g. \<not> is_busy g) gpus)), (''idle_with_memory_held'', count_of (filter holds_idle gpus)),
           (''average_utilization_pct'', mean_or_zero (numbers ''utilization'' gpus)),
           (''memory_used_mb'', JNum (py_round_to 1 used)), (''memory_total_mb'', JNum (py_round_to 1 whole)),
           (''memory_used_pct'', JNum (memory_percent used whole)),
           (''maximum_temperature_c'', max_or_zero (numbers ''temperature'' gpus)),
           (''power_draw_w'', JNum (round_sum (numbers ''power_draw'' gpus)))])"

text \<open>Sorting by falling risk keeps the order of equals.\<close>

definition by_risk :: "json list \<Rightarrow> json list" where
  "by_risk gs = order_by (\<lambda>g. - number_of (get_field ''risk'' g)) gs"

definition summary_of_cluster :: "environment \<Rightarrow> json list \<Rightarrow> json list \<Rightarrow> json \<Rightarrow> mcp_error + json" where
  "summary_of_cluster env matrix gpus answer =
     (let analysis = (if is_object answer then answer else JObj []); enabled = filter row_enabled matrix
      in chain (objects_of (get_field ''gpus'' analysis)) (\<lambda>risky.
           chain (mode_if (risky \<noteq> []) env) (\<lambda>strict.
             chain (map_each (privacy_gpu_record env strict) (take 10 (by_risk risky))) (\<lambda>highest.
               Inr (JObj [(''servers'', JObj [(''total'', count_of matrix), (''enabled'', count_of enabled),
                      (''online'', count_of (filter row_online enabled)), (''offline'', count_of (filter (\<lambda>r. \<not> row_online r) enabled))]),
                 (''gpus'', summary_of_gpus gpus),
                 (''risk'', JObj [(''idle_held_count'', whole_number (get_field ''idle_held_count'' analysis)),
                    (''high_risk_count'', whole_number (get_field ''high_risk_count'' analysis)),
                    (''highest_risk_gpus'', JList highest)])])))))"

definition online_gpus :: "json list \<Rightarrow> mcp_error + json list" where
  "online_gpus matrix =
     map_sum id concat (map_each (\<lambda>r. objects_of (get_field ''gpus'' r)) (filter row_online (filter row_enabled matrix)))"

definition cluster_summary :: "environment \<Rightarrow> peer \<Rightarrow> mcp \<Rightarrow> (mcp_error + json) \<times> mcp" where
  "cluster_summary env net st =
     after (api_get env net ''/api/metrics/cluster-gpus'' [] st) (\<lambda>v. pure_after
       (chain (as_list v ''GPU matrix'') (\<lambda>matrix. map_sum id (Pair matrix) (online_gpus matrix))) (\<lambda>(matrix, gpus) st.
          after (api_get env net ''/api/cluster/gpu-analysis'' [] st) (\<lambda>answer. Pair
            (summary_of_cluster env matrix gpus answer))))"

definition server_path :: "string \<Rightarrow> int \<Rightarrow> string \<Rightarrow> string" where
  "server_path base sid rest = base @ show_int sid @ rest"

text \<open>
  \<open>_data_age_seconds\<close>: \<open>age\<close> is the seconds since the instant a text names (\<open>None\<close>: no instant), rounded down and not below 0.
\<close>

definition age_seconds :: "(string \<Rightarrow> int option) \<Rightarrow> json \<Rightarrow> json" where
  "age_seconds age collected_at =
     (case collected_at of
        JStr t \<Rightarrow> (if t = [] then JNull else case age t of Some n \<Rightarrow> JNum (of_int (max 0 n)) | None \<Rightarrow> JNull)
      | _ \<Rightarrow> JNull)"

text \<open>Of several risk entries for a card the last counts.\<close>

definition risk_of :: "environment \<Rightarrow> json list \<Rightarrow> json \<Rightarrow> json" where
  "risk_of env risks g =
     the_default (JObj []) (find (\<lambda>r. json_true (get_field ''uuid'' r) \<and> py_str env (get_field ''uuid'' r) = py_str env (get_field ''uuid'' g))
       (rev (filter is_object risks)))"

definition risk_fields :: "json \<Rightarrow> json" where
  "risk_fields r =
     JObj [(''score'', whole_number (get_field ''risk'' r)), (''label'', field ''risk_label'' (JStr ''unknown'') r),
       (''xid_events_24h'', whole_number (get_field ''xid_events'' r)),
       (''thermal_throttle_samples_24h'', whole_number (get_field ''thermal_throttle_samples'' r)),
       (''maximum_temperature_24h_c'', rounded (get_field ''max_temp'' r))]"

text \<open>Iterating without \<open>or []\<close>.\<close>

definition iterate :: "json \<Rightarrow> mcp_error + json list" where
  "iterate j = (case j of JNull \<Rightarrow> Inl (Py_Error ''TypeError'') | JBool b \<Rightarrow> Inl (Py_Error ''TypeError'')
     | JNum q \<Rightarrow> Inl (Py_Error ''TypeError'') | _ \<Rightarrow> items_of j)"

definition metric_fields :: "(string \<Rightarrow> int option) \<Rightarrow> bool \<Rightarrow> json \<Rightarrow> json" where
  "metric_fields age strict latest =
     JObj ([(''collected_at'', get_field ''collected_at'' latest), (''age_seconds'', age_seconds age (get_field ''collected_at'' latest)),
       (''status'', field ''status'' (JStr ''unknown'') latest), (''error_code'', field ''error_code'' (JStr []) latest),
       (''gpu_driver'', field ''gpu_driver'' (JStr []) latest),
       (''ssh_latency_seconds'', rounded_to 3 (get_field ''ssh_latency'' latest)),
       (''collection_duration_seconds'', rounded_to 2 (get_field ''duration'' latest))] @
       only_if (\<not> strict) [(''hostname'', field ''hostname'' (JStr []) latest), (''error'', field ''error'' (JStr []) latest)])"

definition gpu_info :: "environment \<Rightarrow> (string \<Rightarrow> int option) \<Rightarrow> bool \<Rightarrow> json \<Rightarrow> json \<Rightarrow> json \<Rightarrow> mcp_error + json" where
  "gpu_info env age strict resolved latest risk_payload =
     chain (if is_object risk_payload then iterate (field ''gpus'' (JList []) risk_payload) else Inr []) (\<lambda>risks.
       chain (objects_of (get_field ''gpus'' latest)) (\<lambda>gpus.
         chain (map_each (\<lambda>g. map_sum id (\<lambda>fs. JObj (fs @ [(''risk'', risk_fields (risk_of env risks g))])) (gpu_snapshot env strict g)) gpus) (\<lambda>snapshots.
           chain (server_public strict resolved) (\<lambda>server.
             Inr (JObj [(''server'', server), (''metric'', metric_fields age strict latest), (''gpu_count'', count_of snapshots),
                    (''gpus'', JList snapshots)])))))"

definition with_server :: "environment \<Rightarrow> peer \<Rightarrow> string \<Rightarrow> (json \<Rightarrow> int \<Rightarrow> mcp \<Rightarrow> (mcp_error + 'a) \<times> mcp) \<Rightarrow> mcp \<Rightarrow> (mcp_error + 'a) \<times> mcp" where
  "with_server env net server f st =
     after (resolve_server env net server st) (\<lambda>resolved. pure_after (id_of resolved) (f resolved))"

definition latest_of_server :: "environment \<Rightarrow> peer \<Rightarrow> int \<Rightarrow> mcp \<Rightarrow> (mcp_error + json) \<times> mcp" where
  "latest_of_server env net sid st =
     after (api_get env net (server_path ''/api/metrics/server/'' sid ''/latest'') [] st) (\<lambda>latest.
       Pair (if is_object latest then Inr latest else failed ''GPU Monitor returned an invalid latest metric''))"

definition get_server_gpu_info :: "environment \<Rightarrow> (string \<Rightarrow> int option) \<Rightarrow> peer \<Rightarrow> string \<Rightarrow> mcp \<Rightarrow> (mcp_error + json) \<times> mcp" where
  "get_server_gpu_info env age net server =
     with_server env net server (\<lambda>resolved sid st.
       after (latest_of_server env net sid st) (\<lambda>latest st.
         after (api_get env net (server_path ''/api/servers/'' sid ''/risk'') [] st) (\<lambda>risk_payload. in_mode env (\<lambda>strict.
           Pair (gpu_info env age strict resolved latest risk_payload)))))"

text \<open>\<open>round(i * scale)\<close> for as many points as are wanted, without repetition, in order.\<close>

definition spread :: "nat \<Rightarrow> nat \<Rightarrow> nat list" where
  "spread rows wanted =
     sorted_list_of_set ((\<lambda>i. nat (py_round (of_nat i * (of_nat (rows - 1) / of_nat (wanted - 1))))) ` {..<wanted})"

definition thin :: "nat \<Rightarrow> 'a list \<Rightarrow> 'a list" where
  "thin wanted rows = (if length rows > wanted then map (\<lambda>i. rows ! i) (spread (length rows) wanted) else rows)"

definition history_point :: "json \<Rightarrow> json" where
  "history_point row =
     JObj [(''time'', get_field ''time'' row), (''utilization_pct'', rounded (get_field ''gpu_util'' row)),
       (''memory_used_mb'', rounded (get_field ''gpu_mem_used_mb'' row)), (''memory_used_pct'', rounded (get_field ''gpu_mem_percent'' row)),
       (''maximum_temperature_c'', rounded (get_field ''gpu_temp'' row)), (''power_draw_w'', rounded (get_field ''gpu_power'' row)),
       (''average_graphics_clock_mhz'', rounded (get_field ''gpu_clock'' row))]"

definition gpu_history :: "bool \<Rightarrow> json \<Rightarrow> int \<Rightarrow> nat \<Rightarrow> json list \<Rightarrow> mcp_error + json" where
  "gpu_history strict resolved n wanted rows =
     (let ps = map history_point (thin wanted rows)
      in map_sum id (\<lambda>server. JObj [(''server'', server), (''window_hours'', JNum (of_int n)), (''point_count'', count_of ps),
             (''summary'', JObj [(''average_utilization_pct'', mean_or_zero (numbers ''utilization_pct'' ps)),
                (''maximum_temperature_c'', max_or_zero (numbers ''maximum_temperature_c'' ps)),
                (''average_power_draw_w'', mean_or_zero (numbers ''power_draw_w'' ps))]),
             (''points'', JList ps)]) (server_public strict resolved))"

definition get_gpu_history :: "environment \<Rightarrow> peer \<Rightarrow> string \<Rightarrow> int \<Rightarrow> int \<Rightarrow> mcp \<Rightarrow> (mcp_error + json) \<times> mcp" where
  "get_gpu_history env net server n max_points st =
     (if \<not> (1 \<le> n \<and> n \<le> 168) then (failed ''hours must be between 1 and 168'', st)
      else if \<not> (10 \<le> max_points \<and> max_points \<le> 720) then (failed ''max_points must be between 10 and 720'', st)
      else with_server env net server (\<lambda>resolved sid st.
        after (api_get env net (server_path ''/api/metrics/server/'' sid ''/history'') [(''hours'', show_int n)] st) (\<lambda>v. pure_after
          (as_list v ''GPU history'') (\<lambda>rows. in_mode env (\<lambda>strict.
            Pair (gpu_history strict resolved n (nat max_points) rows))))) st)"

definition process_line :: "environment \<Rightarrow> bool \<Rightarrow> json \<Rightarrow> mcp_error + json \<times> nat" where
  "process_line env strict g =
     chain (objects_of (get_field ''processes'' g)) (\<lambda>ps.
       chain (if strict then map_sum id (\<lambda>h. (''gpu_uuid_hash'', JStr h)) (opaque_hardware_id env (text_or_empty env (get_field ''uuid'' g)))
                 else Inr (''gpu_uuid'', field ''uuid'' (JStr []) g)) (\<lambda>ident.
         Inr (JObj [(''gpu_index'', get_field ''index'' g), (''gpu_name'', field ''name'' (JStr []) g), (''process_count'', count_of ps),
                (''processes'', JList (map (process_record env strict) (take 100 ps))),
                (''processes_truncated'', JBool (length ps > 100)), ident], length ps)))"

definition gpu_processes_of :: "environment \<Rightarrow> (string \<Rightarrow> int option) \<Rightarrow> bool \<Rightarrow> json \<Rightarrow> json \<Rightarrow> mcp_error + json" where
  "gpu_processes_of env age strict resolved latest =
     chain (objects_of (get_field ''gpus'' latest)) (\<lambda>gpus.
       chain (map_each (process_line env strict) gpus) (\<lambda>lines.
         chain (server_public strict resolved) (\<lambda>server.
           Inr (JObj [(''server'', server), (''collected_at'', get_field ''collected_at'' latest),
                  (''age_seconds'', age_seconds age (get_field ''collected_at'' latest)),
                  (''total_processes'', JNum (of_nat (sum_list (map snd lines)))), (''gpus'', JList (map fst lines))]))))"

definition get_gpu_processes :: "environment \<Rightarrow> (string \<Rightarrow> int option) \<Rightarrow> peer \<Rightarrow> string \<Rightarrow> mcp \<Rightarrow> (mcp_error + json) \<times> mcp" where
  "get_gpu_processes env age net server =
     with_server env net server (\<lambda>resolved sid st.
       after (latest_of_server env net sid st) (\<lambda>latest. in_mode env (\<lambda>strict.
         Pair (gpu_processes_of env age strict resolved latest))))"

definition risk_selected :: "int \<Rightarrow> bool \<Rightarrow> json \<Rightarrow> bool" where
  "risk_selected minimum idle_only g \<longleftrightarrow> number_of (get_field ''risk'' g) \<ge> of_int minimum
     \<and> (\<not> idle_only \<or> json_true (field ''idle_held'' (JBool False) g))"

definition risk_analysis :: "environment \<Rightarrow> int \<Rightarrow> bool \<Rightarrow> int \<Rightarrow> json \<Rightarrow> mcp_error + json" where
  "risk_analysis env minimum idle_only limit payload =
     (if \<not> is_object payload then failed ''GPU Monitor returned an invalid risk analysis''
      else chain (objects_of (get_field ''gpus'' payload)) (\<lambda>gpus.
        let selected = filter (risk_selected minimum idle_only) gpus
        in chain (mode_if (selected \<noteq> []) env) (\<lambda>strict.
             chain (map_each (privacy_gpu_record env strict) (take (nat limit) selected)) (\<lambda>shown.
               Inr (JObj [(''cluster_total_gpus'', whole_number (get_field ''total_gpus'' payload)),
                      (''cluster_idle_held_count'', whole_number (get_field ''idle_held_count'' payload)),
                      (''cluster_high_risk_count'', whole_number (get_field ''high_risk_count'' payload)),
                      (''filters'', JObj [(''minimum_risk'', JNum (of_int minimum)), (''idle_only'', JBool idle_only), (''limit'', JNum (of_int limit))]),
                      (''matched_count'', count_of selected), (''returned_count'', JNum (of_int (min (int (length selected)) limit))),
                      (''gpus'', JList shown)])))))"

definition get_risk_analysis :: "environment \<Rightarrow> peer \<Rightarrow> int \<Rightarrow> bool \<Rightarrow> int \<Rightarrow> mcp \<Rightarrow> (mcp_error + json) \<times> mcp" where
  "get_risk_analysis env net minimum idle_only limit st =
     (if \<not> (0 \<le> minimum \<and> minimum \<le> 100) then (failed ''minimum_risk must be between 0 and 100'', st)
      else if \<not> (1 \<le> limit \<and> limit \<le> 200) then (failed ''limit must be between 1 and 200'', st)
      else after (api_get env net ''/api/cluster/gpu-analysis'' [] st) (\<lambda>payload. Pair (risk_analysis env minimum idle_only limit payload)))"

definition GPU_TERMS :: "string list" where
  "GPU_TERMS = [''gpu'', ''xid'', ''ecc'', ''pcie'', ''nvidia'', ''nvml'']"

text \<open>Upper case of both sides: the case of ASCII letters does not matter.\<close>

definition about_gpu :: "environment \<Rightarrow> json \<Rightarrow> bool" where
  "about_gpu env row \<longleftrightarrow>
     (let text = lower (join '' '' (map (\<lambda>k. text_or_empty env (get_field k row)) [''metric'', ''rule_name'', ''message'']))
      in list_ex (\<lambda>t. contains t text) GPU_TERMS)"

definition event_record :: "bool \<Rightarrow> json \<Rightarrow> json" where
  "event_record strict row =
     JObj ([(''id'', get_field ''id'' row), (''server_id'', get_field ''server_id'' row),
       (''server_name'', field ''server_name'' (JStr []) row), (''metric'', field ''metric'' (JStr []) row),
       (''rule_name'', field ''rule_name'' (JStr []) row), (''value'', get_field ''value'' row),
       (''threshold'', get_field ''threshold'' row), (''triggered_at'', get_field ''triggered_at'' row),
       (''recovered_at'', get_field ''recovered_at'' row), (''acked_at'', get_field ''acked_at'' row)] @
       only_if (\<not> strict) [(''message'', field ''message'' (JStr []) row), (''acked_by'', field ''acked_by'' (JStr []) row),
         (''assignee'', field ''assignee'' (JStr []) row)])"

definition gpu_alerts :: "environment \<Rightarrow> json option \<Rightarrow> bool \<Rightarrow> json list \<Rightarrow> mcp_error + json" where
  "gpu_alerts env resolved open_only rows =
     (let events = filter (about_gpu env) rows
      in chain (mode_if (events \<noteq> [] \<or> resolved \<noteq> None) env) (\<lambda>strict.
           chain (case resolved of None \<Rightarrow> Inr JNull | Some s \<Rightarrow> server_public strict s) (\<lambda>server.
             Inr (JObj [(''server'', server), (''open_only'', JBool open_only), (''count'', count_of events),
                    (''events'', JList (map (event_record strict) events))]))))"

definition alert_params :: "bool \<Rightarrow> int \<Rightarrow> (string \<times> string) list" where
  "alert_params open_only limit = [(''open_only'', if open_only then ''true'' else ''false''), (''limit'', show_int limit)]"

definition fetch_alerts :: "environment \<Rightarrow> peer \<Rightarrow> bool \<Rightarrow> json option \<Rightarrow> (string \<times> string) list \<Rightarrow> mcp \<Rightarrow> (mcp_error + json) \<times> mcp" where
  "fetch_alerts env net open_only resolved params st =
     after (api_get env net ''/api/alerts/events'' params st) (\<lambda>v. Pair
       (chain (as_list v ''alert event list'') (gpu_alerts env resolved open_only)))"

definition get_gpu_alerts :: "environment \<Rightarrow> peer \<Rightarrow> string \<Rightarrow> bool \<Rightarrow> int \<Rightarrow> mcp \<Rightarrow> (mcp_error + json) \<times> mcp" where
  "get_gpu_alerts env net server open_only limit st =
     (if \<not> (1 \<le> limit \<and> limit \<le> 200) then (failed ''limit must be between 1 and 200'', st)
      else if strip server = [] then fetch_alerts env net open_only None (alert_params open_only limit) st
      else with_server env net server (\<lambda>resolved sid.
             fetch_alerts env net open_only (Some resolved) (alert_params open_only limit @ [(''server_id'', show_int sid)])) st)"

text \<open>At the start the process checks the privacy mode and, in strict mode, the key.\<close>

definition start_checks :: "environment \<Rightarrow> mcp_error + unit" where
  "start_checks env =
     chain (strict_privacy env) (\<lambda>strict.
       if strict then map_sum id (\<lambda>_. ()) (opaque_hardware_id env ''configuration-probe'') else Inr ())"

section \<open>Every tool keeps the client's invariant\<close>

context client_invariant begin

lemma keeps_pure_after: "(\<And>v. keeps (f v)) \<Longrightarrow> keeps (pure_after r f)"
  unfolding pure_after_def [abs_def] by (rule keeps_after [OF keeps_done])

lemma keeps_in_mode: "(\<And>strict. keeps (f strict)) \<Longrightarrow> keeps (in_mode env f)"
  unfolding in_mode_def [abs_def] by (rule keeps_after [OF keeps_done])

lemma keeps_if: "(b \<Longrightarrow> keeps f) \<Longrightarrow> (\<not> b \<Longrightarrow> keeps g) \<Longrightarrow> keeps (\<lambda>st. if b then f st else g st)"
  by (cases b) simp_all

lemma keeps_case_prod: "(\<And>x y. keeps (f x y)) \<Longrightarrow> keeps (case p of (x, y) \<Rightarrow> f x y)"
  by (cases p) simp

lemmas keeping = keeps_done keeps_after api_get_keeps health_keeps keeps_pure_after keeps_in_mode keeps_case_prod

lemma resolve_keeps: "keeps (resolve_server env net reference)"
  unfolding resolve_server_def [abs_def] Let_def by (intro keeps_if keeping)

lemma with_server_keeps: "(\<And>s i. keeps (f s i)) \<Longrightarrow> keeps (with_server env net server f)"
  unfolding with_server_def [abs_def] by (intro keeping resolve_keeps)

lemma latest_keeps: "keeps (latest_of_server env net sid)"
  unfolding latest_of_server_def [abs_def] by (intro keeping)

lemma tools_keep:
  "keeps (connection_status env net)" "keeps (list_gpu_servers env net include_disabled)" "keeps (cluster_summary env net)"
  "keeps (get_server_gpu_info env age net server)" "keeps (get_gpu_history env net server n max_points)"
  "keeps (get_gpu_processes env age net server)" "keeps (get_risk_analysis env net minimum idle_only limit)"
  "keeps (get_gpu_alerts env net server open_only limit)"
  unfolding connection_status_def [abs_def] list_gpu_servers_def [abs_def] cluster_summary_def [abs_def] get_server_gpu_info_def [abs_def]
    get_gpu_history_def [abs_def] get_gpu_processes_def [abs_def] get_risk_analysis_def [abs_def] get_gpu_alerts_def [abs_def]
    fetch_alerts_def [abs_def]
  by (intro keeps_if keeping with_server_keeps latest_keeps)+

end

section \<open>A process\<close>

datatype tool_call =
    Connection_Status
  | List_Servers bool
  | Cluster_Summary
  | Get_Server_Gpu_Info string
  | Get_Gpu_History string int int
  | Get_Gpu_Processes string
  | Get_Risk_Analysis int bool int
  | Get_Gpu_Alerts string bool int

definition run_tool :: "environment \<Rightarrow> (string \<Rightarrow> int option) \<Rightarrow> peer \<Rightarrow> tool_call \<Rightarrow> mcp \<Rightarrow> (mcp_error + json) \<times> mcp" where
  "run_tool env age net call =
     (case call of
        Connection_Status \<Rightarrow> connection_status env net
      | List_Servers include_disabled \<Rightarrow> list_gpu_servers env net include_disabled
      | Cluster_Summary \<Rightarrow> cluster_summary env net
      | Get_Server_Gpu_Info server \<Rightarrow> get_server_gpu_info env age net server
      | Get_Gpu_History server n max_points \<Rightarrow> get_gpu_history env net server n max_points
      | Get_Gpu_Processes server \<Rightarrow> get_gpu_processes env age net server
      | Get_Risk_Analysis minimum idle_only limit \<Rightarrow> get_risk_analysis env net minimum idle_only limit
      | Get_Gpu_Alerts server open_only limit \<Rightarrow> get_gpu_alerts env net server open_only limit)"

definition call_tool :: "environment \<Rightarrow> peer \<Rightarrow> (string \<Rightarrow> int option) \<times> tool_call \<Rightarrow> process \<Rightarrow> process" where
  "call_tool env net q p = snd (with_client env (run_tool env (fst q) net (snd q)) p)"

lemma run_tool_keeps: "sound env net c0 st \<Longrightarrow> sound env net c0 (snd (run_tool env age net call st))"
proof -
  have "confined.keeps env net c0 (run_tool env age net call)"
    by (cases call) (simp_all add: run_tool_def confined.tools_keep)
  then show "sound env net c0 st \<Longrightarrow> ?thesis" by (rule confined.keepsE)
qed

definition process_sound :: "environment \<Rightarrow> peer \<Rightarrow> process \<Rightarrow> bool" where
  "process_sound env net p \<longleftrightarrow>
     (case from_env env of
        Inl e \<Rightarrow> p = (None, [])
      | Inr c0 \<Rightarrow> p = (None, []) \<or> (\<exists>c. fst p = Some c \<and> sound env net c0 (c, snd p)))"

lemma fresh_client_sound: "from_env env = Inr c \<Longrightarrow> sound env net c (c, [])"
proof -
  assume "from_env env = Inr c"
  then obtain url user pwd t where "new_client env url user pwd t = Inr c"
    by (auto simp: from_env_def failed_def split: option.splits)
  then show ?thesis by (rule new_client_checked) (simp add: sound_def)
qed

lemma call_tool_sound: "process_sound env net p \<Longrightarrow> process_sound env net (call_tool env net q p)"
proof -
  assume p: "process_sound env net p"
  show ?thesis
  proof (cases "from_env env")
    case (Inl e)
    with p show ?thesis by (simp add: process_sound_def call_tool_def with_client_def)
  next
    case (Inr c0)
    obtain c where c: "(case fst p of Some c \<Rightarrow> Inr c | None \<Rightarrow> from_env env) = Inr c" "sound env net c0 (c, snd p)"
      using p Inr fresh_client_sound [OF Inr] by (auto simp: process_sound_def)
    obtain r c' sent where run: "run_tool env (fst q) net (snd q) (c, snd p) = (r, (c', sent))"
      by (cases "run_tool env (fst q) net (snd q) (c, snd p)") auto
    with run_tool_keeps [OF c(2), of "fst q" "snd q"] have "sound env net c0 (c', sent)" by simp
    with Inr c(1) run show ?thesis by (simp add: process_sound_def call_tool_def with_client_def)
  qed
qed

text \<open>
  C3.  Whatever tools the model calls and however the network answers, every request the process sends is either the login, with
  the credentials, or a read below \<open>/api/\<close> at the configured address; that address is HTTPS, or HTTP to this very machine, and
  holds no credentials itself; and every token that is sent was granted earlier, by a log_in of a viewer account.
\<close>

theorem requests_stay_at_the_monitor:
  "case fold (call_tool env net) calls (None, []) of
     (None, sent) \<Rightarrow> sent = []
   | (Some c, sent) \<Rightarrow>
       (\<exists>c0 parsed. from_env env = Inr c0 \<and> list_all (allowed c0) sent \<and> bearers_granted env net c0 sent \<and>
          urlsplit (cl_base_url c0) = Some parsed \<and>
          (scheme parsed = ''https'' \<or> scheme parsed = ''http'' \<and> is_loopback_host env (hostname parsed)) \<and>
          \<not> has_username parsed \<and> url_password parsed = [])"
proof -
  have "process_sound env net (fold (call_tool env net) calls p)" if "process_sound env net p" for p
    using that by (induction calls arbitrary: p) (simp_all add: call_tool_sound)
  moreover have "process_sound env net (None, [])" by (simp add: process_sound_def split: sum.split)
  ultimately have all: "process_sound env net (fold (call_tool env net) calls (None, []))" .
  obtain u sent where p: "fold (call_tool env net) calls (None, []) = (u, sent)" by (cases "fold (call_tool env net) calls (None, [])")
  show ?thesis
  proof (cases u)
    case None
    with all p show ?thesis by (auto simp: process_sound_def split: sum.splits)
  next
    case (Some c)
    with all p obtain c0 where c0: "from_env env = Inr c0" "sound env net c0 (c, sent)"
      by (auto simp: process_sound_def split: sum.splits)
    obtain url user pwd t where "new_client env url user pwd t = Inr c0"
      using c0(1) by (auto simp: from_env_def failed_def split: option.splits)
    then obtain parsed where "urlsplit (cl_base_url c0) = Some parsed"
      "scheme parsed = ''https'' \<or> scheme parsed = ''http'' \<and> is_loopback_host env (hostname parsed)"
      "\<not> has_username parsed" "url_password parsed = []" by (rule new_client_checked)
    with c0 show ?thesis unfolding p Some by (auto simp: sound_def)
  qed
qed

section \<open>What strict mode hides\<close>

text \<open>Two JSON objects agree on some keys, or on all but some.\<close>

definition same_on :: "string list \<Rightarrow> json \<Rightarrow> json \<Rightarrow> bool" where
  "same_on ks j j' \<longleftrightarrow> (\<forall>k usual. k \<in> set ks \<longrightarrow> field k usual j = field k usual j')"

definition same_except :: "string list \<Rightarrow> json \<Rightarrow> json \<Rightarrow> bool" where
  "same_except ks j j' \<longleftrightarrow> (\<forall>k usual. k \<notin> set ks \<longrightarrow> field k usual j = field k usual j')"

lemma same_onD: "same_on ks j j' \<Longrightarrow> k \<in> set ks \<Longrightarrow> field k usual j = field k usual j'"
  by (simp add: same_on_def)

lemma same_exceptD: "same_except ks j j' \<Longrightarrow> k \<notin> set ks \<Longrightarrow> field k usual j = field k usual j'"
  by (simp add: same_except_def)

definition PROCESS_SHOWN :: "string list" where "PROCESS_SHOWN = [''pid'', ''mem_mb'']"

definition HARDWARE_FIELDS :: "string list" where
  "HARDWARE_FIELDS = [''uuid'', ''serial'', ''pci_bus_id'', ''processes'']"

definition SERVER_SHOWN :: "string list" where
  "SERVER_SHOWN = [''id'', ''name'', ''enabled'', ''server_type'', ''status'']"

definition METRIC_SHOWN :: "string list" where
  "METRIC_SHOWN = [''collected_at'', ''status'', ''error_code'', ''gpu_driver'', ''ssh_latency'', ''duration'']"

definition EVENT_HIDDEN :: "string list" where "EVENT_HIDDEN = [''message'', ''acked_by'', ''assignee'']"

text \<open>
  Two cards that differ only in their identifiers, as far as the keyed hash of the UUID does not tell them apart, and in
  their processes, as far as these have the same number, ids and memory.
\<close>

definition same_card :: "environment \<Rightarrow> json \<Rightarrow> json \<Rightarrow> bool" where
  "same_card env g g' \<longleftrightarrow> same_except HARDWARE_FIELDS g g' \<and>
     opaque_hardware_id env (text_or_empty env (get_field ''uuid'' g)) = opaque_hardware_id env (text_or_empty env (get_field ''uuid'' g')) \<and>
     rel_sum (=) (list_all2 (same_on PROCESS_SHOWN)) (objects_of (get_field ''processes'' g)) (objects_of (get_field ''processes'' g'))"

lemma strict_process: "same_on PROCESS_SHOWN p p' \<Longrightarrow> process_record env True p = process_record env True p'"
  by (simp add: process_record_def only_if_def get_field_def PROCESS_SHOWN_def same_on_def)

lemma strict_processes:
  "list_all2 (same_on PROCESS_SHOWN) ps ps' \<Longrightarrow> map (process_record env True) (take n ps) = map (process_record env True) (take n ps')
     \<and> length ps = length ps'"
proof (induction ps ps' arbitrary: n rule: list_all2_induct)
  case (Cons p ps p' ps')
  then show ?case by (cases n) (auto simp: strict_process)
qed simp

lemma strict_server: "same_on SERVER_SHOWN s s' \<Longrightarrow> server_public True s = server_public True s'"
  by (simp add: server_public_def get_field_def SERVER_SHOWN_def same_on_def Let_def)

lemma strict_metric: "same_on METRIC_SHOWN l l' \<Longrightarrow> metric_fields age True l = metric_fields age True l'"
  by (simp add: metric_fields_def get_field_def METRIC_SHOWN_def same_on_def only_if_def)

lemma strict_card: "same_card env g g' \<Longrightarrow> gpu_snapshot env True g = gpu_snapshot env True g' \<and> process_line env True g = process_line env True g'"
proof -
  assume g: "same_card env g g'"
  have fields: "field k u g = field k u g'" if "k \<notin> set HARDWARE_FIELDS" for k u
    using g that by (auto simp: same_card_def dest: same_exceptD)
  have shown: "gpu_fields g = gpu_fields g'"
    by (simp add: gpu_fields_def [abs_def] get_field_def fields HARDWARE_FIELDS_def)
  have reasons: "get_field ''throttle_reasons'' g = get_field ''throttle_reasons'' g'"
    and idx: "get_field ''index'' g = get_field ''index'' g'" "field ''name'' (JStr []) g = field ''name'' (JStr []) g'"
    by (simp_all add: get_field_def fields HARDWARE_FIELDS_def)
  have hash: "opaque_hardware_id env (text_or_empty env (get_field ''uuid'' g)) = opaque_hardware_id env (text_or_empty env (get_field ''uuid'' g'))"
    using g by (simp add: same_card_def)
  have "rel_sum (=) (list_all2 (same_on PROCESS_SHOWN)) (objects_of (get_field ''processes'' g)) (objects_of (get_field ''processes'' g'))"
    using g by (simp add: same_card_def)
  then show ?thesis
  proof (cases rule: rel_sum.cases)
    case (1 e e')
    then show ?thesis by (simp add: gpu_snapshot_def process_line_def hardware_fields_def shown reasons idx hash)
  next
    case (2 ps ps')
    with strict_processes [OF 2(3)] show ?thesis
      by (simp add: gpu_snapshot_def process_line_def hardware_fields_def shown reasons idx hash count_of_def)
  qed
qed

lemma map_each_alike: "list_all2 (\<lambda>x y. f x = g y) xs ys \<Longrightarrow> map_each f xs = map_each g ys"
  by (induction rule: list_all2_induct) simp_all

lemma mono_alike: "list_all2 P xs ys \<Longrightarrow> (\<And>x y. P x y \<Longrightarrow> Q x y) \<Longrightarrow> list_all2 Q xs ys"
  by (rule list.rel_mono_strong)


definition SEEN_SERVER :: "string \<Rightarrow> json" where
  "SEEN_SERVER h = JObj [(''id'', JNum 1), (''name'', JStr ''gpu01''), (''host'', JStr h)]"

definition SEEN_SAMPLE :: "string \<Rightarrow> json" where
  "SEEN_SAMPLE user = JObj [(''status'', JStr ''ok''), (''gpus'', JList [JObj [(''index'', JNum 0),
     (''processes'', JList [JObj [(''pid'', JNum 7), (''user'', JStr user)]])]])]"


text \<open>A reference that is a server's address finds it even in strict mode, and shows the name that goes with it.\<close>

lemma address_finds_server: "pick_server env ''10.0.0.2'' (gpu_servers [SEEN_SERVER ''10.0.0.2'']) = Inr (SEEN_SERVER ''10.0.0.2'')"
  by (simp add: pick_server_def server_matches_def first_nonempty_def gpu_servers_def SEEN_SERVER_def field_def the_default_def name_of_def
      py_str_def is_digit_def code_def lower_def lower_char_def is_upper_def)

section \<open>Thinning a history\<close>

lemma py_round_nat: "0 \<le> q \<Longrightarrow> q \<le> of_nat n \<Longrightarrow> nat (py_round q) \<le> n"
proof -
  assume "0 \<le> q" "q \<le> of_nat n"
  then have "py_round q \<le> py_round (of_int (int n))" by (intro py_round_mono) simp
  then have "py_round q \<le> int n" unfolding py_round_int .
  then show ?thesis by simp
qed

lemma spread_props:
  assumes "wanted \<ge> 2" and "rows > wanted"
  shows "set (spread rows wanted) \<subseteq> {..<rows}" "length (spread rows wanted) \<le> wanted" "0 \<in> set (spread rows wanted)"
    "rows - 1 \<in> set (spread rows wanted)"
proof -
  let ?scale = "of_nat (rows - 1) / of_nat (wanted - 1) :: rat"
  let ?f = "\<lambda>i. nat (py_round (of_nat i * ?scale))"
  have set: "set (spread rows wanted) = ?f ` {..<wanted}" by (simp add: spread_def)
  have le: "?f i \<le> rows - 1" if "i < wanted" for i
  proof (rule py_round_nat)
    have "of_nat i * ?scale \<le> of_nat (wanted - 1) * ?scale" using that by (intro mult_right_mono) auto
    also have "\<dots> = of_nat (rows - 1)" using assms by simp
    finally show "of_nat i * ?scale \<le> of_nat (rows - 1)" .
  qed simp
  then show "set (spread rows wanted) \<subseteq> {..<rows}" using assms unfolding set by (force simp: less_eq_Suc_le)
  have "length (spread rows wanted) = card (?f ` {..<wanted})" by (simp add: spread_def)
  also have "\<dots> \<le> card {..<wanted}" by (rule card_image_le) simp
  finally show "length (spread rows wanted) \<le> wanted" by simp
  have "?f 0 = 0" using py_round_int [of 0] by simp
  then have "0 = ?f 0" "0 \<in> {..<wanted}" using assms by simp_all
  then show "0 \<in> set (spread rows wanted)" unfolding set by (rule image_eqI)
  have "of_nat (wanted - 1) * ?scale = of_int (int (rows - 1))" using assms by simp
  then have "?f (wanted - 1) = rows - 1" using py_round_int [of "int (rows - 1)"] by simp
  then have "rows - 1 = ?f (wanted - 1)" "wanted - 1 \<in> {..<wanted}" using assms by simp_all
  then show "rows - 1 \<in> set (spread rows wanted)" unfolding set by (rule image_eqI)
qed

text \<open>
  A history is shortened to at most the wanted number of points by leaving rows out: those that stay keep their order, and
  the first and the last row are among them.
\<close>

theorem thinning_keeps_the_ends:
  assumes "wanted \<ge> 10" and "length rows > wanted"
  shows "\<exists>is. thin wanted rows = map (\<lambda>i. rows ! i) is \<and> sorted is \<and> distinct is \<and> set is \<subseteq> {..<length rows} \<and>
    length is \<le> wanted \<and> hd is = 0 \<and> last is = length rows - 1"
proof -
  let ?is = "spread (length rows) wanted"
  have props: "set ?is \<subseteq> {..<length rows}" "length ?is \<le> wanted" "0 \<in> set ?is" "length rows - 1 \<in> set ?is"
    using assms by (intro spread_props; simp)+
  have order: "sorted ?is" "distinct ?is" by (simp_all add: spread_def)
  have ne: "?is \<noteq> []" using props(3) by auto
  have "hd ?is \<le> 0" using order(1) props(3) ne by (cases ?is) auto
  moreover have "last ?is \<ge> length rows - 1"
  proof -
    have "?is = butlast ?is @ [last ?is]" using ne by simp
    then show ?thesis using order(1) props(4) by (metis sorted_append Un_iff list.set_intros(1) set_append set_ConsD empty_iff list.set(1) order_refl)
  qed
  moreover have "last ?is < length rows" using props(1) ne last_in_set by blast
  ultimately have "hd ?is = 0" "last ?is = length rows - 1" by simp_all
  with props order assms show ?thesis by (intro exI [of _ ?is]) (simp add: thin_def)
qed

theorem thinning_keeps_the_ends_witness:
  "\<exists>is. thin 10 [0..<20::nat] = map (\<lambda>i. [0..<20] ! i) is \<and> sorted is \<and> distinct is \<and> length is \<le> 10 \<and> hd is = 0 \<and> last is = 19"
proof -
  have "10 \<le> (10::nat)" and "length [0..<20::nat] > 10" by simp_all
  from thinning_keeps_the_ends [OF this] show ?thesis by auto
qed

end
