(* ===== verification/ArchiveFiles.thy ===== *)
theory ArchiveFiles
  imports Store Json
begin

text \<open>
  Archives of samples as files: the encrypted container of \<open>backend/app/archive_crypto.py\<close> and the reader of
  \<open>backend/scripts/restore_archive.py\<close>.  The cipher (AES-GCM of the cryptography package) is a parameter; the
  tar reader hands over the members with their names, kinds, sizes and contents; a line becomes a row through a parameter
  that stands for the JSON reader and the row constructor.
\<close>

section \<open>The encrypted container\<close>

definition MAGIC :: string where "MAGIC = ''GPMONAR1''"
definition NONCE_SIZE :: nat where "NONCE_SIZE = 12"
definition TAG_SIZE :: nat where "TAG_SIZE = 16"
definition CHUNK_SIZE :: nat where "CHUNK_SIZE = 1024 * 1024"

text \<open>A cipher context: made from key, nonce and the authenticated header, fed piece by piece, with a tag at the end.\<close>

record 's cipher =
  ci_start :: "nat list \<Rightarrow> string \<Rightarrow> string \<Rightarrow> 's"
  ci_encrypt :: "'s \<Rightarrow> string \<Rightarrow> string \<times> 's"
  ci_decrypt :: "'s \<Rightarrow> string \<Rightarrow> string \<times> 's"
  ci_tag :: "'s \<Rightarrow> string"

datatype archive_error = Value_Error string | Invalid_Tag | File_Exists | No_Such_File

fun hex_bytes :: "string \<Rightarrow> nat list" where
  "hex_bytes (a # b # rest) = (16 * hex_val a + hex_val b) # hex_bytes rest"
| "hex_bytes _ = []"

definition key_bytes :: "string \<Rightarrow> archive_error + nat list" where
  "key_bytes hex_key =
     (if length hex_key \<noteq> 64 \<or> \<not> list_all is_hex hex_key
      then Inl (Value_Error ''archive encryption key must be exactly 64 hexadecimal characters'')
      else Inr (hex_bytes hex_key))"

function encrypt_chunks :: "'s cipher \<Rightarrow> 's \<Rightarrow> string \<Rightarrow> string \<times> 's" where
  "encrypt_chunks ci st source =
     (if take CHUNK_SIZE source = [] then ([], st)
      else let (out, st1) = ci_encrypt ci st (take CHUNK_SIZE source);
               (rest, st2) = encrypt_chunks ci st1 (drop CHUNK_SIZE source)
           in (out @ rest, st2))"
  by auto

termination
  by (relation "measure (\<lambda>(ci, st, source). length source)") (auto simp: CHUNK_SIZE_def)

definition encrypt_fileobj :: "'s cipher \<Rightarrow> string \<Rightarrow> string \<Rightarrow> string \<Rightarrow> archive_error + string" where
  "encrypt_fileobj ci nonce hex_key source =
     map_sum id (\<lambda>key.
       let (body, st) = encrypt_chunks ci (ci_start ci key nonce (MAGIC @ nonce)) source
       in MAGIC @ nonce @ body @ ci_tag ci st) (key_bytes hex_key)"

text \<open>The loop over what remains of the ciphertext: the plaintext of every piece is written before the tag is checked.\<close>

function decrypt_chunks :: "'s cipher \<Rightarrow> 's \<Rightarrow> string \<Rightarrow> nat \<Rightarrow> (archive_error + 's) \<times> string" where
  "decrypt_chunks ci st src remaining =
     (if remaining = 0 then (Inr st, [])
      else let chunk = take (min CHUNK_SIZE remaining) src
           in if chunk = [] then (Inl (Value_Error ''archive ciphertext is truncated''), [])
              else let (out, st1) = ci_decrypt ci st chunk;
                       (r, rest) = decrypt_chunks ci st1 (drop (length chunk) src) (remaining - length chunk)
                   in (r, out @ rest))"
  by auto

termination
  by (relation "measure (\<lambda>(ci, st, src, remaining). remaining)") (auto simp: CHUNK_SIZE_def)

declare encrypt_chunks.simps [simp del] decrypt_chunks.simps [simp del]

text \<open>What was written to the destination, and how it ended.\<close>

definition decrypt_fileobj :: "'s cipher \<Rightarrow> string \<Rightarrow> string \<Rightarrow> (archive_error + unit) \<times> string" where
  "decrypt_fileobj ci hex_key blob =
     (case key_bytes hex_key of
        Inl e \<Rightarrow> (Inl e, [])
      | Inr key \<Rightarrow>
          if length blob < length MAGIC + NONCE_SIZE + TAG_SIZE then (Inl (Value_Error ''archive is truncated''), [])
          else if take (length MAGIC) blob \<noteq> MAGIC
          then (Inl (Value_Error ''archive is not a GPU Monitor encrypted archive''), [])
          else let nonce = take NONCE_SIZE (drop (length MAGIC) blob); tag = drop (length blob - TAG_SIZE) blob;
                   size = length blob - length MAGIC - NONCE_SIZE - TAG_SIZE
               in (case decrypt_chunks ci (ci_start ci key nonce (MAGIC @ nonce)) (drop (length MAGIC + NONCE_SIZE) blob) size of
                     (Inl e, out) \<Rightarrow> (Inl e, out)
                   | (Inr st, out) \<Rightarrow> (if ci_tag ci st = tag then Inr () else Inl Invalid_Tag, out)))"

text \<open>Named files: a new file only, and none left behind by a failure.\<close>

type_synonym files = "(string, string) dict"

definition encrypt_file :: "'s cipher \<Rightarrow> string \<Rightarrow> string \<Rightarrow> string \<Rightarrow> string \<Rightarrow> files \<Rightarrow> (archive_error + unit) \<times> files" where
  "encrypt_file ci nonce source destination hex_key fs =
     (case map_of fs source of
        None \<Rightarrow> (Inl No_Such_File, fs)
      | Some content \<Rightarrow>
          (case key_bytes hex_key of
             Inl e \<Rightarrow> (Inl e, fs)
           | Inr key \<Rightarrow>
               if map_of fs destination \<noteq> None then (Inl File_Exists, fs)
               else (case encrypt_fileobj ci nonce hex_key content of
                       Inl e \<Rightarrow> (Inl e, fs)
                     | Inr blob \<Rightarrow> (Inr (), AList.update destination blob fs))))"

definition decrypt_file :: "'s cipher \<Rightarrow> string \<Rightarrow> string \<Rightarrow> string \<Rightarrow> files \<Rightarrow> (archive_error + unit) \<times> files" where
  "decrypt_file ci source destination hex_key fs =
     (if map_of fs destination \<noteq> None then (Inl File_Exists, fs)
      else case map_of fs source of
             None \<Rightarrow> (Inl (case key_bytes hex_key of Inl e \<Rightarrow> e | Inr _ \<Rightarrow> No_Such_File), fs)
           | Some blob \<Rightarrow>
               (case decrypt_fileobj ci hex_key blob of
                  (Inl e, out) \<Rightarrow> (Inl e, fs)
                | (Inr _, out) \<Rightarrow> (Inr (), AList.update destination out fs)))"

section \<open>The members of an archive\<close>

definition MAX_METRICS_BYTES :: int where "MAX_METRICS_BYTES = 20 * 1024 * 1024 * 1024"
definition MAX_SERVERS_BYTES :: int where "MAX_SERVERS_BYTES = 256 * 1024 * 1024"
definition MAX_JSONL_LINE_BYTES :: nat where "MAX_JSONL_LINE_BYTES = 8 * 1024 * 1024"

record member =
  mb_name :: string
  mb_isfile :: bool
  mb_size :: int
  mb_content :: string

definition STAMP :: string where "STAMP = ''dddd-dd-dd_dddddd''"

definition stamp_like :: "string \<Rightarrow> bool" where
  "stamp_like s \<longleftrightarrow> list_all2 (\<lambda>p c. if p = CHR ''d'' then is_digit c else c = p) STAMP s"

text \<open>The stamp in a name of the form prefix, stamp, \<open>.jsonl\<close>.\<close>

definition stamp_in :: "string \<Rightarrow> string \<Rightarrow> string option" where
  "stamp_in prefix name =
     (let stamp = take (length STAMP) (drop (length prefix) name)
      in if stamp_like stamp \<and> name = prefix @ stamp @ ''.jsonl'' then Some stamp else None)"

definition metrics_stamp :: "string \<Rightarrow> string option" where "metrics_stamp = stamp_in ''server_metrics_''"
definition servers_stamp :: "string \<Rightarrow> string option" where "servers_stamp = stamp_in ''servers_''"

record stamps =
  sp_metrics :: "string option"
  sp_servers :: "string option"

definition check_member :: "member \<Rightarrow> stamps \<times> member list \<Rightarrow> archive_error + stamps \<times> member list" where
  "check_member m st =
     (case st of (stamps, members) \<Rightarrow>
        if length members \<ge> 2 then Inl (Value_Error ''archive contains too many members'')
        else if \<not> mb_isfile m \<or> CHR ''/'' \<in> set (mb_name m) \<or> CHR 0x5C \<in> set (mb_name m)
        then Inl (Value_Error (''unsafe archive member: '' @ mb_name m))
        else case metrics_stamp (mb_name m) of
               Some t \<Rightarrow>
                 if sp_metrics stamps \<noteq> None \<or> mb_size m > MAX_METRICS_BYTES
                 then Inl (Value_Error (''invalid metrics member: '' @ mb_name m))
                 else Inr (stamps\<lparr>sp_metrics := Some t\<rparr>, members @ [m])
             | None \<Rightarrow>
                 (case servers_stamp (mb_name m) of
                    Some t \<Rightarrow>
                      if sp_servers stamps \<noteq> None \<or> mb_size m > MAX_SERVERS_BYTES
                      then Inl (Value_Error (''invalid servers member: '' @ mb_name m))
                      else Inr (stamps\<lparr>sp_servers := Some t\<rparr>, members @ [m])
                  | None \<Rightarrow> Inl (Value_Error (''unexpected archive member: '' @ mb_name m))))"

fun check_members :: "member list \<Rightarrow> stamps \<times> member list \<Rightarrow> archive_error + stamps \<times> member list" where
  "check_members [] st = Inr st"
| "check_members (m # ms) st = (case check_member m st of Inl e \<Rightarrow> Inl e | Inr st' \<Rightarrow> check_members ms st')"

definition safe_members :: "member list \<Rightarrow> archive_error + member list" where
  "safe_members ms =
     (case check_members ms (\<lparr>sp_metrics = None, sp_servers = None\<rparr>, []) of
        Inl e \<Rightarrow> Inl e
      | Inr (stamps, members) \<Rightarrow>
          if sp_metrics stamps = None then Inl (Value_Error ''archive has no metrics member'')
          else if sp_servers stamps \<noteq> None \<and> sp_servers stamps \<noteq> sp_metrics stamps
          then Inl (Value_Error ''archive member timestamps do not match'')
          else Inr members)"

text \<open>\<open>readline(MAX_JSONL_LINE_BYTES + 1)\<close>, and the lines up to one that is too long.\<close>

definition read_line :: "string \<Rightarrow> string" where
  "read_line s =
     take (MAX_JSONL_LINE_BYTES + 1)
       (takeWhile (\<lambda>c. c \<noteq> nl) s @ (if nl \<in> set s then [nl] else []))"

lemma read_line_empty: "read_line s = [] \<longleftrightarrow> s = []"
  by (cases s) (auto simp: read_line_def)

function bounded_lines :: "string \<Rightarrow> string list \<times> bool" where
  "bounded_lines s =
     (if read_line s = [] then ([], True)
      else if length (read_line s) > MAX_JSONL_LINE_BYTES then ([], False)
      else let (rest, good) = bounded_lines (drop (length (read_line s)) s) in (read_line s # rest, good))"
  by auto

termination
  by (relation "measure length") (auto simp: read_line_empty)

declare bounded_lines.simps [simp del]

section \<open>What is encrypted can be decrypted\<close>

text \<open>
  What the code relies on: a piece decrypts to what was encrypted when both contexts have seen the same so far, which they then
  still have; pieces keep their length; a tag has sixteen bytes.
\<close>

definition cipher_ok :: "'s cipher \<Rightarrow> bool" where
  "cipher_ok ci \<longleftrightarrow>
     (\<forall>st x. ci_decrypt ci st (fst (ci_encrypt ci st x)) = (x, snd (ci_encrypt ci st x)) \<and>
        length (fst (ci_encrypt ci st x)) = length x \<and> length (ci_tag ci st) = TAG_SIZE)"

lemma cipher_okD:
  "cipher_ok ci \<Longrightarrow> ci_encrypt ci st x = (y, st') \<Longrightarrow> ci_decrypt ci st y = (x, st') \<and> length y = length x"
  unfolding cipher_ok_def by (metis fst_conv snd_conv)

lemma encrypt_nothing [simp]: "encrypt_chunks ci st [] = ([], st)"
  by (simp add: encrypt_chunks.simps)

lemma decrypt_nothing [simp]: "decrypt_chunks ci st src 0 = (Inr st, [])"
  by (simp add: decrypt_chunks.simps)

lemma length_encrypted: "cipher_ok ci \<Longrightarrow> length (fst (encrypt_chunks ci st source)) = length source"
proof (induction ci st source rule: encrypt_chunks.induct)
  case (1 ci st source)
  show ?case
  proof (cases "source = []")
    case True
    then show ?thesis by simp
  next
    case False
    obtain out st1 where e: "ci_encrypt ci st (take CHUNK_SIZE source) = (out, st1)" by (cases "ci_encrypt ci st (take CHUNK_SIZE source)")
    have "take CHUNK_SIZE source \<noteq> []" using False by (simp add: CHUNK_SIZE_def)
    moreover from this e 1 have "length (fst (encrypt_chunks ci st1 (drop CHUNK_SIZE source))) = length (drop CHUNK_SIZE source)" by simp
    ultimately show ?thesis using cipher_okD [OF 1(2) e]
      by (simp add: encrypt_chunks.simps [of ci st source] e split_beta)
  qed
qed

lemma decrypt_step:
  "take (min CHUNK_SIZE n) src = out \<Longrightarrow> out \<noteq> [] \<Longrightarrow> ci_decrypt ci st out = (x, st1) \<Longrightarrow>
     decrypt_chunks ci st1 (drop (length out) src) (n - length out) = (r, rest) \<Longrightarrow> decrypt_chunks ci st src n = (r, x @ rest)"
  by (cases "n = 0") (simp_all only: decrypt_chunks.simps [of ci st src n] Let_def prod.case if_False if_True simp_thms min_0R take_0)

lemma decrypt_encrypted:
  "cipher_ok ci \<Longrightarrow> encrypt_chunks ci st source = (body, st') \<Longrightarrow>
     decrypt_chunks ci st (body @ trailer) (length body) = (Inr st', source)"
proof (induction ci st source arbitrary: body rule: encrypt_chunks.induct)
  case (1 ci st source)
  show ?case
  proof (cases "source = []")
    case True
    with 1(3) show ?thesis by simp
  next
    case False
    obtain out st1 where e: "ci_encrypt ci st (take CHUNK_SIZE source) = (out, st1)" by (cases "ci_encrypt ci st (take CHUNK_SIZE source)")
    obtain rest st2 where r: "encrypt_chunks ci st1 (drop CHUNK_SIZE source) = (rest, st2)"
      by (cases "encrypt_chunks ci st1 (drop CHUNK_SIZE source)")
    have ne: "take CHUNK_SIZE source \<noteq> []" using False by (simp add: CHUNK_SIZE_def)
    with 1(3) e r have body: "body = out @ rest" "st' = st2" by (simp_all add: encrypt_chunks.simps [of ci st source])
    have d: "ci_decrypt ci st out = (take CHUNK_SIZE source, st1)" and len: "length out = min CHUNK_SIZE (length source)"
      using cipher_okD [OF 1(2) e] by (simp_all add: min.commute)
    have "length rest = length source - CHUNK_SIZE" using length_encrypted [OF 1(2), of st1 "drop CHUNK_SIZE source"] r by simp
    then have "length body = length source" using len body by simp
    then have piece: "take (min CHUNK_SIZE (length body)) (body @ trailer) = out" using len body by simp
    have "out \<noteq> []" using cipher_okD [OF 1(2) e] ne by (metis length_0_conv)
    moreover have "decrypt_chunks ci st1 (rest @ trailer) (length rest) = (Inr st', drop CHUNK_SIZE source)"
      using 1(1) [OF ne e [symmetric] refl 1(2)] r body(2) by simp
    moreover have "drop (length out) (body @ trailer) = rest @ trailer" "length body - length out = length rest" "length body \<noteq> 0"
      using body calculation(1) by simp_all
    ultimately have "decrypt_chunks ci st (body @ trailer) (length body) = (Inr st', take CHUNK_SIZE source @ drop CHUNK_SIZE source)"
      using decrypt_step [OF piece _ d] by metis
    then show ?thesis by simp
  qed
qed

text \<open>
  C24.  An archive that was encrypted decrypts, with the same key, to exactly what went in; and a file that is too short, does not
  begin with the magic bytes, or does not carry the tag of what was read, is refused, in which case no file is left behind.
\<close>

theorem archive_round_trip:
  assumes "cipher_ok ci" and "length nonce = NONCE_SIZE" and "encrypt_fileobj ci nonce hex_key source = Inr blob"
  shows "decrypt_fileobj ci hex_key blob = (Inr (), source) \<and>
    length blob = length source + 36 \<and> take 8 blob = MAGIC"
proof -
  obtain key where key: "key_bytes hex_key = Inr key" using assms(3) by (cases "key_bytes hex_key") (auto simp: encrypt_fileobj_def)
  obtain body st where e: "encrypt_chunks ci (ci_start ci key nonce (MAGIC @ nonce)) source = (body, st)"
    by (cases "encrypt_chunks ci (ci_start ci key nonce (MAGIC @ nonce)) source")
  have blob: "blob = MAGIC @ nonce @ body @ ci_tag ci st" using assms(3) by (simp add: encrypt_fileobj_def key e)
  have len: "length MAGIC = 8" "length (ci_tag ci st) = TAG_SIZE" "length body = length source"
    using assms(1) length_encrypted [OF assms(1), of "ci_start ci key nonce (MAGIC @ nonce)" source] e
    by (simp_all add: MAGIC_def cipher_ok_def)
  have "decrypt_chunks ci (ci_start ci key nonce (MAGIC @ nonce)) (body @ ci_tag ci st) (length body) = (Inr st, source)"
    by (rule decrypt_encrypted [OF assms(1) e])
  moreover have "length blob - length MAGIC - NONCE_SIZE - TAG_SIZE = length body" using assms(2) len by (simp add: blob)
  moreover have "drop (length MAGIC + NONCE_SIZE) blob = body @ ci_tag ci st" using assms(2) len by (simp add: blob)
  moreover have "drop (length blob - TAG_SIZE) blob = ci_tag ci st" using assms(2) len by (simp add: blob)
  ultimately have "decrypt_fileobj ci hex_key blob = (Inr (), source)"
    using assms(2) len by (simp add: decrypt_fileobj_def key Let_def) (simp add: blob)
  moreover have "length blob = length source + 36" "take 8 blob = MAGIC"
    using assms(2) len by (simp_all add: blob NONCE_SIZE_def TAG_SIZE_def)
  ultimately show ?thesis by blast
qed

text \<open>A cipher for the example: every byte is left alone and the tag is sixteen letters.\<close>

definition PLAIN :: "unit cipher" where
  "PLAIN = \<lparr>ci_start = (\<lambda>_ _ _. ()), ci_encrypt = (\<lambda>st x. (x, st)), ci_decrypt = (\<lambda>st x. (x, st)), ci_tag = (\<lambda>st. replicate 16 CHR ''t'')\<rparr>"

theorem archive_round_trip_witness:
  "\<exists>blob. encrypt_fileobj PLAIN (replicate 12 CHR ''n'') (replicate 64 CHR ''a'') ''rows'' = Inr blob \<and>
     decrypt_fileobj PLAIN (replicate 64 CHR ''a'') blob = (Inr (), ''rows'')"
proof -
  have "cipher_ok PLAIN" by (simp add: cipher_ok_def PLAIN_def TAG_SIZE_def)
  moreover have "length (replicate 12 CHR ''n'') = NONCE_SIZE" by (simp add: NONCE_SIZE_def)
  moreover have "is_hex CHR ''a''" by (simp add: is_hex_def code_def)
  then have "key_bytes (replicate 64 CHR ''a'') = Inr (hex_bytes (replicate 64 CHR ''a''))"
    by (simp add: key_bytes_def list_all_iff del: hex_bytes.simps)
  then have "\<exists>blob. encrypt_fileobj PLAIN (replicate 12 CHR ''n'') (replicate 64 CHR ''a'') ''rows'' = Inr blob"
    by (simp add: encrypt_fileobj_def del: hex_bytes.simps)
  ultimately show ?thesis using archive_round_trip by blast
qed

text \<open>A failed decryption leaves the files as they were.\<close>

lemma failed_decryption_leaves_files: "decrypt_file ci source destination hex_key fs = (Inl e, fs') \<Longrightarrow> fs' = fs"
  by (auto simp: decrypt_file_def split: if_splits option.splits prod.splits sum.splits)

section \<open>Accepted members\<close>

text \<open>A member fits the stamps found so far, which later ones only add to.\<close>

definition fits :: "stamps \<Rightarrow> member \<Rightarrow> bool" where
  "fits sp m \<longleftrightarrow> mb_isfile m \<and> CHR ''/'' \<notin> set (mb_name m) \<and>
     (metrics_stamp (mb_name m) \<noteq> None \<and> sp_metrics sp = metrics_stamp (mb_name m) \<and> mb_size m \<le> MAX_METRICS_BYTES \<or>
      metrics_stamp (mb_name m) = None \<and> servers_stamp (mb_name m) \<noteq> None \<and> sp_servers sp = servers_stamp (mb_name m) \<and> mb_size m \<le> MAX_SERVERS_BYTES)"

definition extends :: "stamps \<Rightarrow> stamps \<Rightarrow> bool" where
  "extends sp sp' \<longleftrightarrow> (sp_metrics sp \<noteq> None \<longrightarrow> sp_metrics sp' = sp_metrics sp) \<and> (sp_servers sp \<noteq> None \<longrightarrow> sp_servers sp' = sp_servers sp)"

lemma fits_extends: "fits sp m \<Longrightarrow> extends sp sp' \<Longrightarrow> fits sp' m"
  by (auto simp: fits_def extends_def)

lemma check_member_InrD:
  "check_member m (sp, acc) = Inr st \<Longrightarrow> \<exists>sp1. st = (sp1, acc @ [m]) \<and> length acc < 2 \<and> fits sp1 m \<and> extends sp sp1 \<and>
     (metrics_stamp (mb_name m) = None \<longrightarrow> sp_metrics sp1 = sp_metrics sp)"
  unfolding check_member_def fits_def extends_def
  by (auto split: if_splits option.splits)

lemma check_members_inv:
  "check_members ms (sp, acc) = Inr (sp', acc') \<Longrightarrow> length acc \<le> 2 \<Longrightarrow>
     acc' = acc @ ms \<and> length acc' \<le> 2 \<and> list_all (fits sp') ms \<and> extends sp sp' \<and>
     (list_all (\<lambda>m. metrics_stamp (mb_name m) = None) ms \<longrightarrow> sp_metrics sp' = sp_metrics sp)"
proof (induction ms arbitrary: sp acc)
  case (Cons m ms)
  from Cons.prems obtain st where "check_member m (sp, acc) = Inr st" "check_members ms st = Inr (sp', acc')"
    by (auto split: sum.splits)
  with check_member_InrD obtain sp1 where m: "length acc < 2" "fits sp1 m" "extends sp sp1"
      "metrics_stamp (mb_name m) = None \<longrightarrow> sp_metrics sp1 = sp_metrics sp"
    and rest: "check_members ms (sp1, acc @ [m]) = Inr (sp', acc')" by blast
  from Cons.IH [OF rest] m(1) have "acc' = acc @ m # ms" "length acc' \<le> 2" "list_all (fits sp') ms" "extends sp1 sp'"
    "list_all (\<lambda>m. metrics_stamp (mb_name m) = None) ms \<longrightarrow> sp_metrics sp' = sp_metrics sp1" by auto
  moreover from this(4) m have "fits sp' m" "extends sp sp'" by (auto intro: fits_extends simp: extends_def)
  ultimately show ?case using m(4) by auto
qed (simp add: extends_def)

text \<open>
  C23.  The members that are accepted are all of the archive's, at most two, one of them the samples; each is a plain file with no path in its
  name, of a bounded size, and all carry one time stamp.
\<close>

theorem accepted_members_are_safe:
  assumes "safe_members ms = Inr members"
  shows "members = ms \<and> length ms \<le> 2 \<and> (\<exists>stamp. (\<exists>m\<in>set ms. metrics_stamp (mb_name m) = Some stamp) \<and>
    (\<forall>m\<in>set ms. mb_isfile m \<and> CHR ''/'' \<notin> set (mb_name m) \<and> mb_size m \<le> MAX_METRICS_BYTES \<and>
       (metrics_stamp (mb_name m) = Some stamp \<or> servers_stamp (mb_name m) = Some stamp)))"
proof -
  let ?none = "\<lparr>sp_metrics = None, sp_servers = None\<rparr> :: stamps"
  from assms obtain sp where run: "check_members ms (?none, []) = Inr (sp, members)" and stamps: "sp_metrics sp \<noteq> None"
    "sp_servers sp = None \<or> sp_servers sp = sp_metrics sp"
    by (auto simp: safe_members_def split: sum.splits if_splits prod.splits)
  from check_members_inv [OF run] have inv: "members = ms" "length ms \<le> 2" "list_all (fits sp) ms"
    "list_all (\<lambda>m. metrics_stamp (mb_name m) = None) ms \<longrightarrow> sp_metrics sp = None" by auto
  obtain stamp where stamp: "sp_metrics sp = Some stamp" using stamps(1) by blast
  have "\<exists>m\<in>set ms. metrics_stamp (mb_name m) = Some stamp"
    using inv(3,4) stamp by (fastforce simp: list_all_iff fits_def)
  moreover have size: "MAX_SERVERS_BYTES \<le> MAX_METRICS_BYTES" by (simp add: MAX_SERVERS_BYTES_def MAX_METRICS_BYTES_def)
  moreover have "mb_isfile m \<and> CHR ''/'' \<notin> set (mb_name m) \<and> mb_size m \<le> MAX_METRICS_BYTES \<and>
      (metrics_stamp (mb_name m) = Some stamp \<or> servers_stamp (mb_name m) = Some stamp)" if "m \<in> set ms" for m
  proof -
    have "fits sp m" using inv(3) that by (simp add: list_all_iff)
    with stamp stamps(2) size show ?thesis by (auto simp: fits_def)
  qed
  ultimately show ?thesis using inv(1,2) by blast
qed

text \<open>One accepted archive: the samples and the servers of one night.\<close>

definition night :: "member list" where
  "night = [\<lparr>mb_name = ''servers_2026-01-02_030405.jsonl'', mb_isfile = True, mb_size = 10, mb_content = []\<rparr>,
     \<lparr>mb_name = ''server_metrics_2026-01-02_030405.jsonl'', mb_isfile = True, mb_size = 20, mb_content = []\<rparr>]"

theorem accepted_members_are_safe_witness:
  "safe_members night = Inr night \<and> (\<exists>stamp. \<forall>m\<in>set night. metrics_stamp (mb_name m) = Some stamp \<or> servers_stamp (mb_name m) = Some stamp)"
proof -
  have "safe_members night = Inr night" by code_simp
  from accepted_members_are_safe [OF this] this show ?thesis by blast
qed

section \<open>Putting an archive back\<close>

text \<open>
  What a line of the archive says of a server or of a sample is a parameter, as is reading it (JSON, and the row constructor, which
  keeps the known columns, leaves out the id and reads the time).
\<close>

definition MAX_ARCHIVE_BYTES :: nat where "MAX_ARCHIVE_BYTES = 25 * 1024 * 1024 * 1024"

definition RESTORED_NOTE :: string where "RESTORED_NOTE = ''Restored metadata; configure and review before enabling''"

definition restored_server :: "time \<Rightarrow> server_stub \<Rightarrow> server" where
  "restored_server now source =
     \<lparr>s_id = st_id source,
      s_name = clip 128 (if st_name source = [] then ''restored-'' @ show_int (st_id source) else st_name source),
      s_host = [], s_port = 22, s_auth_type = ''key'', s_username = ''gpumon'', s_password = [], s_private_key = [], s_passphrase = [],
      s_bmc_host = [], s_bmc_user = [], s_bmc_password = [], s_enabled = False,
      s_server_type = (if st_server_type source \<in> {''gpu'', ''cpu''} then st_server_type source else ''gpu''),
      s_tags = st_tags source, s_note = RESTORED_NOTE, s_expected_gpu_count = 0, s_status = Some ''active'', s_status_reason = [],
      s_status_until = None, s_created_at = now, s_updated_at = now\<rparr>"

text \<open>Servers first, each committed by itself, none that is there already.  The third component counts them.\<close>

definition TOO_LONG :: archive_error where
  "TOO_LONG = Value_Error ''archive JSONL record exceeds the safety limit''"

fun restore_servers ::
    "(string \<Rightarrow> archive_error + server_stub) \<Rightarrow> time \<Rightarrow> string list \<times> bool \<Rightarrow> db \<times> nat \<Rightarrow> (archive_error + unit) \<times> db \<times> nat" where
  "restore_servers parse now ([], good) (d, n) = (if good then Inr () else Inl TOO_LONG, d, n)"
| "restore_servers parse now (line # lines, good) (d, n) =
     (if strip line = [] then restore_servers parse now (lines, good) (d, n)
      else case parse line of
             Inl e \<Rightarrow> (Inl e, d, n)
           | Inr source \<Rightarrow>
               if st_id source \<in> s_id ` set (d_servers d) then restore_servers parse now (lines, good) (d, n)
               else restore_servers parse now (lines, good) (d\<lparr>d_servers := d_servers d @ [restored_server now source]\<rparr>, n + 1))"

text \<open>A batch of samples, saved under new ids.\<close>

definition save_row :: "metric \<Rightarrow> db \<Rightarrow> db" where
  "save_row m d = d\<lparr>d_metrics := d_metrics d @ [m\<lparr>m_id := next_metric_id d\<rparr>]\<rparr>"

definition save_batch :: "metric list \<Rightarrow> db \<Rightarrow> db" where
  "save_batch batch d = fold save_row batch d"

definition BATCH_SIZE :: nat where "BATCH_SIZE = 300"

record restoration =
  rn_db :: db
  rn_batch :: "metric list"
  rn_restored :: nat
  rn_skipped :: nat

definition flush :: "restoration \<Rightarrow> restoration" where
  "flush r = r\<lparr>rn_db := save_batch (rn_batch r) (rn_db r), rn_restored := rn_restored r + length (rn_batch r), rn_batch := []\<rparr>"

text \<open>Is the row skipped, because its server is not there or has a row of that time?\<close>

definition skipped :: "db \<Rightarrow> metric \<Rightarrow> bool" where
  "skipped d m \<longleftrightarrow> m_server_id m \<notin> s_id ` set (d_servers d) \<or>
     (m_server_id m, m_collected_at m) \<in> (\<lambda>x. (m_server_id x, m_collected_at x)) ` set (d_metrics d)"

definition restore_row :: "metric \<Rightarrow> restoration \<Rightarrow> restoration" where
  "restore_row m r =
     (if skipped (rn_db r) m then r\<lparr>rn_skipped := rn_skipped r + 1\<rparr>
      else let r' = r\<lparr>rn_batch := rn_batch r @ [m]\<rparr> in if length (rn_batch r') \<ge> BATCH_SIZE then flush r' else r')"

fun restore_metrics ::
    "(string \<Rightarrow> archive_error + metric) \<Rightarrow> string list \<times> bool \<Rightarrow> restoration \<Rightarrow> (archive_error + unit) \<times> restoration" where
  "restore_metrics parse ([], good) r =
     (if \<not> good then (Inl TOO_LONG, r) else (Inr (), if rn_batch r = [] then r else flush r))"
| "restore_metrics parse (line # lines, good) r =
     (if strip line = [] then restore_metrics parse (lines, good) r
      else case parse line of
             Inl e \<Rightarrow> (Inl e, r)
           | Inr m \<Rightarrow> restore_metrics parse (lines, good) (restore_row m r))"

fun restore_server_members ::
    "(string \<Rightarrow> archive_error + server_stub) \<Rightarrow> time \<Rightarrow> member list \<Rightarrow> db \<times> nat \<Rightarrow> (archive_error + unit) \<times> db \<times> nat" where
  "restore_server_members parse now [] (d, n) = (Inr (), d, n)"
| "restore_server_members parse now (m # ms) (d, n) =
     (if \<not> is_prefix ''servers_'' (mb_name m) then restore_server_members parse now ms (d, n)
      else case restore_servers parse now (bounded_lines (mb_content m)) (d, n) of
             (Inl e, d', n') \<Rightarrow> (Inl e, d', n')
           | (Inr _, d', n') \<Rightarrow> restore_server_members parse now ms (d', n'))"

fun restore_metric_members ::
    "(string \<Rightarrow> archive_error + metric) \<Rightarrow> member list \<Rightarrow> restoration \<Rightarrow> (archive_error + unit) \<times> restoration" where
  "restore_metric_members parse [] r = (Inr (), r)"
| "restore_metric_members parse (m # ms) r =
     (if \<not> is_prefix ''server_metrics_'' (mb_name m) then restore_metric_members parse ms r
      else case restore_metrics parse (bounded_lines (mb_content m)) r of
             (Inl e, r') \<Rightarrow> (Inl e, r')
           | (Inr _, r') \<Rightarrow> restore_metric_members parse ms r')"

definition restore_members ::
    "(string \<Rightarrow> archive_error + server_stub) \<Rightarrow> (string \<Rightarrow> archive_error + metric) \<Rightarrow> time \<Rightarrow> bool \<Rightarrow> member list \<Rightarrow> db \<Rightarrow>
       (archive_error + nat \<times> nat \<times> nat) \<times> db" where
  "restore_members read_server read_row now create_disabled members d =
     (case (if create_disabled then restore_server_members read_server now members (d, 0) else (Inr (), d, 0)) of
        (Inl e, d1, added) \<Rightarrow> (Inl e, d1)
      | (Inr _, d1, added) \<Rightarrow>
          (case restore_metric_members read_row members \<lparr>rn_db = d1, rn_batch = [], rn_restored = 0, rn_skipped = 0\<rparr> of
             (Inl e, r) \<Rightarrow> (Inl e, rn_db r)
           | (Inr _, r) \<Rightarrow> (Inr (rn_restored r, rn_skipped r, added), rn_db r)))"

text \<open>Opening the archive, by the ending of its name; \<open>untar\<close> stands for the tar reader.\<close>

definition opened :: "'s cipher \<Rightarrow> (string \<Rightarrow> archive_error + member list) \<Rightarrow> string \<Rightarrow> bool \<Rightarrow> string \<Rightarrow> string \<Rightarrow> archive_error + member list" where
  "opened ci untar hex_key allow_legacy path content =
     (if length content > MAX_ARCHIVE_BYTES then Inl (Value_Error ''archive exceeds the encrypted/compressed size limit'')
      else if ends_with ''.enc'' path
      then (case decrypt_fileobj ci hex_key content of (Inl e, _) \<Rightarrow> Inl e | (Inr _, plain) \<Rightarrow> untar plain)
      else if \<not> allow_legacy then Inl (Value_Error ''unencrypted legacy archive requires --allow-legacy-unencrypted'')
      else untar content)"

definition restore_main ::
    "'s cipher \<Rightarrow> (string \<Rightarrow> archive_error + member list) \<Rightarrow> (string \<Rightarrow> archive_error + server_stub) \<Rightarrow> (string \<Rightarrow> archive_error + metric) \<Rightarrow>
       time \<Rightarrow> string \<Rightarrow> string \<Rightarrow> string \<Rightarrow> bool \<Rightarrow> bool \<Rightarrow> db \<Rightarrow> (archive_error + nat \<times> nat \<times> nat) \<times> db" where
  "restore_main ci untar read_server read_row now hex_key path content create_disabled allow_legacy d =
     (case opened ci untar hex_key allow_legacy path content of
        Inl e \<Rightarrow> (Inl e, d)
      | Inr ms \<Rightarrow>
          (case safe_members ms of
             Inl e \<Rightarrow> (Inl e, d)
           | Inr members \<Rightarrow> restore_members read_server read_row now create_disabled members d))"

section \<open>Nothing that is there is touched\<close>

definition row_key :: "metric \<Rightarrow> int \<times> time" where "row_key m = (m_server_id m, m_collected_at m)"

text \<open>What a restoration may do: add disabled placeholders for new ids, and samples of present servers at times they have none.\<close>

definition adds_samples :: "db \<Rightarrow> db \<Rightarrow> bool" where
  "adds_samples d d' \<longleftrightarrow> (\<exists>ms. d' = d\<lparr>d_metrics := d_metrics d @ ms\<rparr> \<and>
     list_all (\<lambda>m. m_server_id m \<in> s_id ` set (d_servers d) \<and> row_key m \<notin> row_key ` set (d_metrics d)) ms)"

definition adds_placeholders :: "time \<Rightarrow> db \<Rightarrow> db \<Rightarrow> bool" where
  "adds_placeholders now d d' \<longleftrightarrow> (\<exists>sources. d' = d\<lparr>d_servers := d_servers d @ map (restored_server now) sources\<rparr> \<and>
     distinct (map st_id sources) \<and> list_all (\<lambda>s. st_id s \<notin> s_id ` set (d_servers d)) sources)"

lemma restored_server_id [simp]: "s_id (restored_server now s) = st_id s"
  by (simp add: restored_server_def)

lemma adds_placeholders_refl: "adds_placeholders now d d"
  by (auto simp: adds_placeholders_def intro: exI [of _ "[]"])

lemma adds_placeholders_trans: "adds_placeholders now d d' \<Longrightarrow> adds_placeholders now d' d'' \<Longrightarrow> adds_placeholders now d d''"
proof -
  assume "adds_placeholders now d d'" and "adds_placeholders now d' d''"
  then obtain xs ys where "d' = d\<lparr>d_servers := d_servers d @ map (restored_server now) xs\<rparr>" "d'' = d'\<lparr>d_servers := d_servers d' @ map (restored_server now) ys\<rparr>"
    "distinct (map st_id xs)" "distinct (map st_id ys)" "list_all (\<lambda>s. st_id s \<notin> s_id ` set (d_servers d)) xs"
    "list_all (\<lambda>s. st_id s \<notin> s_id ` set (d_servers d')) ys" unfolding adds_placeholders_def by blast
  moreover from this(1,6) have "st_id ` set xs \<inter> st_id ` set ys = {}" "list_all (\<lambda>s. st_id s \<notin> s_id ` set (d_servers d)) ys"
    by (simp_all add: list_all_iff image_Un image_image disjoint_iff) blast
  ultimately show ?thesis unfolding adds_placeholders_def
    by (intro exI [of _ "xs @ ys"]) simp
qed

lemma restore_servers_adds: "restore_servers parse now ls (d, n) = (r, d', n') \<Longrightarrow> adds_placeholders now d d'"
proof (induction parse now ls "(d, n)" arbitrary: d n rule: restore_servers.induct)
  case (1 parse now good d n)
  then show ?case by (auto simp: adds_placeholders_refl)
next
  case (2 parse now line lines good d n)
  show ?case
  proof (cases "strip line = [] \<or> (\<exists>e. parse line = Inl e)")
    case True
    then show ?thesis using 2(1,4) by (cases "strip line = []") (auto simp: adds_placeholders_refl)
  next
    case False
    then obtain source where source: "strip line \<noteq> []" "parse line = Inr source" by (cases "parse line") auto
    show ?thesis
    proof (cases "st_id source \<in> s_id ` set (d_servers d)")
      case True
      then show ?thesis using 2(2) [OF source True] 2(4) source by simp
    next
      case False
      have "adds_placeholders now d (d\<lparr>d_servers := d_servers d @ [restored_server now source]\<rparr>)"
        unfolding adds_placeholders_def using False by (intro exI [of _ "[source]"]) simp
      moreover have "adds_placeholders now (d\<lparr>d_servers := d_servers d @ [restored_server now source]\<rparr>) d'"
        using 2(3) [OF source False] 2(4) source False by simp
      ultimately show ?thesis by (rule adds_placeholders_trans)
    qed
  qed
qed

lemma restore_server_members_adds: "restore_server_members parse now ms (d, n) = (r, d', n') \<Longrightarrow> adds_placeholders now d d'"
proof (induction ms arbitrary: d n)
  case (Cons m ms)
  obtain r1 d1 n1 where run: "restore_servers parse now (bounded_lines (mb_content m)) (d, n) = (r1, d1, n1)"
    by (cases "restore_servers parse now (bounded_lines (mb_content m)) (d, n)") auto
  note first = restore_servers_adds [OF run]
  show ?case using Cons run first by (auto split: if_splits sum.splits intro: adds_placeholders_trans)
qed (simp add: adds_placeholders_refl)

text \<open>A saved row is the restored one under another id.\<close>

definition renumbered :: "metric \<Rightarrow> metric \<Rightarrow> bool" where "renumbered m r \<longleftrightarrow> (\<exists>i. r = m\<lparr>m_id := i\<rparr>)"

lemma renumbered_id: "renumbered m (m\<lparr>m_id := i\<rparr>)"
  by (auto simp: renumbered_def)

lemma renumbered_key: "renumbered m r \<Longrightarrow> row_key r = row_key m \<and> m_server_id r = m_server_id m"
  by (auto simp: renumbered_def row_key_def)

lemma renumbered_trans: "renumbered a b \<Longrightarrow> renumbered b c \<Longrightarrow> renumbered a c"
  by (auto simp: renumbered_def)

lemma renumbered_refl [simp]: "renumbered m m"
  unfolding renumbered_def by (intro exI [of _ "m_id m"]) simp

lemma save_batch_rows: "\<exists>rows. save_batch ms d = d\<lparr>d_metrics := d_metrics d @ rows\<rparr> \<and> list_all2 renumbered ms rows"
  unfolding save_batch_def
proof (induction ms arbitrary: d)
  case (Cons m ms)
  obtain rows where "fold save_row ms (save_row m d) = (save_row m d)\<lparr>d_metrics := d_metrics (save_row m d) @ rows\<rparr>" "list_all2 renumbered ms rows"
    using Cons by blast
  then show ?case
    by (intro exI [of _ "m\<lparr>m_id := next_metric_id d\<rparr> # rows"]) (simp add: save_row_def [of m] renumbered_id)
qed simp

text \<open>The work so far: rows have been added to the database at the start, and every line seen is accounted for.\<close>

definition fresh_row :: "db \<Rightarrow> metric set \<Rightarrow> metric \<Rightarrow> bool" where
  "fresh_row d0 seen m \<longleftrightarrow> m_server_id m \<in> s_id ` set (d_servers d0) \<and> row_key m \<notin> row_key ` set (d_metrics d0) \<and> (\<exists>m'\<in>seen. renumbered m' m)"

definition restoring :: "db \<Rightarrow> metric set \<Rightarrow> restoration \<Rightarrow> bool" where
  "restoring d0 seen r \<longleftrightarrow> (\<exists>rows. rn_db r = d0\<lparr>d_metrics := d_metrics d0 @ rows\<rparr> \<and>
     (\<forall>m \<in> set rows \<union> set (rn_batch r). fresh_row d0 seen m) \<and>
     (\<forall>m \<in> seen. m_server_id m \<in> s_id ` set (d_servers d0) \<longrightarrow>
        row_key m \<in> row_key ` (set (d_metrics d0) \<union> set rows \<union> set (rn_batch r))))"

lemma fresh_row_mono: "fresh_row d0 seen m \<Longrightarrow> seen \<subseteq> seen' \<Longrightarrow> fresh_row d0 seen' m"
  by (auto simp: fresh_row_def)

lemma fresh_renumbered: "fresh_row d0 seen m \<Longrightarrow> renumbered m r \<Longrightarrow> fresh_row d0 seen r"
  unfolding fresh_row_def by (metis renumbered_key renumbered_trans)

lemma restoring_flush: "restoring d0 seen r \<Longrightarrow> restoring d0 seen (flush r)"
proof -
  assume "restoring d0 seen r"
  then obtain rows where r: "rn_db r = d0\<lparr>d_metrics := d_metrics d0 @ rows\<rparr>" "\<forall>m \<in> set rows \<union> set (rn_batch r). fresh_row d0 seen m"
    "\<forall>m \<in> seen. m_server_id m \<in> s_id ` set (d_servers d0) \<longrightarrow> row_key m \<in> row_key ` (set (d_metrics d0) \<union> set rows \<union> set (rn_batch r))"
    unfolding restoring_def by blast
  obtain new where new: "save_batch (rn_batch r) (rn_db r) = (rn_db r)\<lparr>d_metrics := d_metrics (rn_db r) @ new\<rparr>" "list_all2 renumbered (rn_batch r) new"
    using save_batch_rows by blast
  have "fresh_row d0 seen m" if "m \<in> set new" for m
  proof -
    from new(2) that obtain m0 where "m0 \<in> set (rn_batch r)" "renumbered m0 m"
      by (metis in_set_conv_nth list_all2_conv_all_nth)
    then show ?thesis using r(2) fresh_renumbered by blast
  qed
  moreover have "row_key ` set new = row_key ` set (rn_batch r)"
    using new(2) by (induction rule: list_all2_induct) (simp_all add: renumbered_key)
  ultimately show ?thesis unfolding restoring_def flush_def using r new(1)
    by (intro exI [of _ "rows @ new"]) (auto simp: image_Un)
qed

lemma restoring_row: "restoring d0 seen r \<Longrightarrow> restoring d0 (insert m seen) (restore_row m r)"
proof -
  assume inv: "restoring d0 seen r"
  then obtain rows where r: "rn_db r = d0\<lparr>d_metrics := d_metrics d0 @ rows\<rparr>" "\<forall>m \<in> set rows \<union> set (rn_batch r). fresh_row d0 seen m"
    "\<forall>m \<in> seen. m_server_id m \<in> s_id ` set (d_servers d0) \<longrightarrow> row_key m \<in> row_key ` (set (d_metrics d0) \<union> set rows \<union> set (rn_batch r))"
    unfolding restoring_def by blast
  show ?thesis
  proof (cases "skipped (rn_db r) m")
    case True
    then show ?thesis unfolding restoring_def using r
      by (intro exI [of _ rows])
        (auto simp: restore_row_def skipped_def row_key_def [symmetric] intro: fresh_row_mono)
  next
    case False
    then have "fresh_row d0 (insert m seen) m" using r(1)
      by (auto simp: skipped_def fresh_row_def row_key_def [symmetric])
    then have "restoring d0 (insert m seen) (r\<lparr>rn_batch := rn_batch r @ [m]\<rparr>)"
      unfolding restoring_def using r
      by (intro exI [of _ rows]) (auto intro: fresh_row_mono)
    then show ?thesis using False by (auto simp: restore_row_def Let_def intro: restoring_flush)
  qed
qed

lemma restoring_start: "restoring d {} \<lparr>rn_db = d, rn_batch = [], rn_restored = a, rn_skipped = b\<rparr>"
  by (auto simp: restoring_def intro: exI [of _ "[]"])

lemma restoring_adds: "restoring d0 seen r \<Longrightarrow> adds_samples d0 (rn_db r)"
  by (auto simp: restoring_def adds_samples_def fresh_row_def list_all_iff)

lemma restore_metrics_restoring: "restore_metrics parse ls r = (e, r') \<Longrightarrow> restoring d0 seen r \<Longrightarrow> \<exists>seen'. restoring d0 seen' r'"
proof (induction parse ls r arbitrary: seen rule: restore_metrics.induct)
  case (1 parse good r)
  then show ?case using restoring_flush by (auto split: if_splits)
next
  case (2 parse line lines good r)
  then show ?case using restoring_row by (cases "strip line = []"; cases "parse line") (auto, blast)
qed

lemma restore_metric_members_restoring:
  "restore_metric_members parse ms r = (e, r') \<Longrightarrow> restoring d0 seen r \<Longrightarrow> \<exists>seen'. restoring d0 seen' r'"
proof (induction ms arbitrary: r seen)
  case (Cons m ms)
  obtain e1 r1 where run: "restore_metrics parse (bounded_lines (mb_content m)) r = (e1, r1)"
    by (cases "restore_metrics parse (bounded_lines (mb_content m)) r")
  obtain seen1 where "restoring d0 seen1 r1" using restore_metrics_restoring [OF run Cons.prems(2)] by blast
  then show ?case using Cons run by (cases e1) (auto split: if_splits)
qed auto

lemma adds_samples_refl: "adds_samples d d"
  by (auto simp: adds_samples_def intro: exI [of _ "[]"])

lemma restore_main_cases:
  assumes "restore_main ci untar read_server read_row now hex_key path content create_disabled allow_legacy d = (result, d')"
  shows "d' = d \<and> (\<exists>e. result = Inl e) \<or>
    (\<exists>ms members. opened ci untar hex_key allow_legacy path content = Inr ms \<and> safe_members ms = Inr members \<and>
       restore_members read_server read_row now create_disabled members d = (result, d'))"
proof (cases "opened ci untar hex_key allow_legacy path content")
  case (Inl e)
  then show ?thesis using assms by (auto simp: restore_main_def)
next
  case (Inr ms)
  then show ?thesis using assms by (cases "safe_members ms") (auto simp: restore_main_def)
qed

text \<open>
  Whatever archive is restored, and however the restoration ends, everything that was in the database is still there: servers are only
  added, as disabled placeholders without host or credentials under ids not in use, and samples only for servers present, at times
  for which there was none.
\<close>

theorem restoration_only_adds:
  assumes "restore_main ci untar read_server read_row now hex_key path content create_disabled allow_legacy d = (result, d')"
  shows "\<exists>d1. adds_placeholders now d d1 \<and> (d1 = d \<or> create_disabled) \<and> adds_samples d1 d'"
proof -
  show ?thesis
  proof (cases "d' = d")
    case True
    then show ?thesis by (intro exI [of _ d]) (simp add: adds_placeholders_refl adds_samples_refl)
  next
    case False
    then obtain members where run: "restore_members read_server read_row now create_disabled members d = (result, d')"
      using restore_main_cases [OF assms] by blast
    obtain e1 d1 n where first: "(if create_disabled then restore_server_members read_server now members (d, 0) else (Inr (), d, 0)) = (e1, d1, n)"
      by (metis prod_cases3)
    then have d1: "adds_placeholders now d d1" "d1 = d \<or> create_disabled"
      using restore_server_members_adds adds_placeholders_refl by (auto split: if_splits)
    obtain e2 r where second: "restore_metric_members read_row members \<lparr>rn_db = d1, rn_batch = [], rn_restored = 0, rn_skipped = 0\<rparr> = (e2, r)"
      by (cases "restore_metric_members read_row members \<lparr>rn_db = d1, rn_batch = [], rn_restored = 0, rn_skipped = 0\<rparr>")
    have "adds_samples d1 (rn_db r)"
      using restore_metric_members_restoring [OF second restoring_start] restoring_adds by blast
    moreover have "d' = d1 \<or> d' = rn_db r"
      using run by (cases e1; cases e2) (simp_all only: restore_members_def first second prod.case sum.case prod.inject simp_thms)
    ultimately show ?thesis using d1 adds_samples_refl by blast
  qed
qed

section \<open>Restoring is idempotent\<close>

fun rows_of :: "(string \<Rightarrow> archive_error + metric) \<Rightarrow> string list \<Rightarrow> metric list option" where
  "rows_of parse [] = Some []"
| "rows_of parse (line # lines) =
     (if strip line = [] then rows_of parse lines
      else case parse line of Inl e \<Rightarrow> None | Inr m \<Rightarrow> map_option (Cons m) (rows_of parse lines))"

definition finish :: "restoration \<Rightarrow> restoration" where
  "finish r = (if rn_batch r = [] then r else flush r)"

lemma restore_metrics_fold:
  "restore_metrics parse (lines, good) r = (Inr (), r') \<longleftrightarrow>
     good \<and> (\<exists>ms. rows_of parse lines = Some ms \<and> r' = finish (fold restore_row ms r))"
  by (induction lines arbitrary: r) (auto simp: finish_def split: sum.splits)

lemma restoring_fold: "restoring d0 seen r \<Longrightarrow> restoring d0 (seen \<union> set ms) (fold restore_row ms r)"
proof (induction ms arbitrary: seen r)
  case (Cons m ms)
  from Cons.IH [OF restoring_row [OF Cons.prems]] show ?case by simp
qed simp

lemma restoring_finish: "restoring d0 seen r \<Longrightarrow> restoring d0 seen (finish r) \<and> rn_batch (finish r) = []"
  by (simp add: finish_def restoring_flush) (simp add: flush_def)

text \<open>Rows that are skipped by a database are skipped by every larger one with the same servers.\<close>

definition covers :: "db \<Rightarrow> db \<Rightarrow> bool" where
  "covers d x \<longleftrightarrow> s_id ` set (d_servers d) = s_id ` set (d_servers x) \<and> row_key ` set (d_metrics d) \<subseteq> row_key ` set (d_metrics x)"

lemma covers_refl [simp]: "covers d d"
  by (simp add: covers_def)

lemma covers_trans: "covers d x \<Longrightarrow> covers x y \<Longrightarrow> covers d y"
  unfolding covers_def by (elim conjE, intro conjI, simp, rule subset_trans)

lemma skipped_key: "skipped d m \<longleftrightarrow> m_server_id m \<notin> s_id ` set (d_servers d) \<or> row_key m \<in> row_key ` set (d_metrics d)"
  by (simp add: skipped_def row_key_def [abs_def])

lemma skipped_covers: "skipped d m \<Longrightarrow> covers d x \<Longrightarrow> skipped x m"
  by (auto simp: skipped_key covers_def)

lemma skip_all: "list_all (skipped d) ms \<Longrightarrow> fold restore_row ms \<lparr>rn_db = d, rn_batch = [], rn_restored = a, rn_skipped = b\<rparr> =
    \<lparr>rn_db = d, rn_batch = [], rn_restored = a, rn_skipped = b + length ms\<rparr>"
  by (induction ms arbitrary: b) (auto simp: restore_row_def)

lemma restoring_covers: "restoring d0 seen r \<Longrightarrow> covers d0 (rn_db r)"
  by (auto simp: restoring_def covers_def)

lemma restoring_skips: "restoring d0 seen r \<Longrightarrow> rn_batch r = [] \<Longrightarrow> m \<in> seen \<Longrightarrow> skipped (rn_db r) m"
  by (auto simp: restoring_def skipped_key)

lemma restore_metrics_again:
  assumes "restore_metrics parse ls r = (Inr (), r')" and "rn_batch r = []" and "covers (rn_db r') x"
  shows "covers (rn_db r) (rn_db r') \<and> rn_batch r' = [] \<and>
    (\<exists>k. restore_metrics parse ls \<lparr>rn_db = x, rn_batch = [], rn_restored = a, rn_skipped = b\<rparr> =
       (Inr (), \<lparr>rn_db = x, rn_batch = [], rn_restored = a, rn_skipped = b + k\<rparr>))"
proof -
  obtain lines good where ls: "ls = (lines, good)" by (cases ls)
  from assms(1) obtain ms where ms: "good" "rows_of parse lines = Some ms" "r' = finish (fold restore_row ms r)"
    by (auto simp: ls restore_metrics_fold)
  have "restoring (rn_db r) {} r" using restoring_start [of "rn_db r"] assms(2) by (cases r) simp
  from restoring_finish [OF restoring_fold [OF this, of ms]] have fin: "restoring (rn_db r) (set ms) r'" "rn_batch r' = []"
    by (simp_all add: ms)
  then have "list_all (skipped x) ms" using restoring_skips skipped_covers [OF _ assms(3)] by (auto simp: list_all_iff)
  then have "restore_metrics parse ls \<lparr>rn_db = x, rn_batch = [], rn_restored = a, rn_skipped = b\<rparr> =
       (Inr (), \<lparr>rn_db = x, rn_batch = [], rn_restored = a, rn_skipped = b + length ms\<rparr>)"
    using ms by (simp add: ls restore_metrics_fold skip_all finish_def)
  then show ?thesis using fin restoring_covers by blast
qed

lemma restore_metric_members_again:
  "restore_metric_members parse ms r = (Inr (), r') \<Longrightarrow> rn_batch r = [] \<Longrightarrow> covers (rn_db r') x \<Longrightarrow>
     covers (rn_db r) (rn_db r') \<and> (\<exists>k. restore_metric_members parse ms \<lparr>rn_db = x, rn_batch = [], rn_restored = a, rn_skipped = b\<rparr> =
       (Inr (), \<lparr>rn_db = x, rn_batch = [], rn_restored = a, rn_skipped = b + k\<rparr>))"
proof (induction ms arbitrary: r b)
  case Nil
  then show ?case by (auto simp: covers_def intro: exI [of _ 0])
next
  case (Cons m ms)
  show ?case
  proof (cases "is_prefix ''server_metrics_'' (mb_name m)")
    case False
    then show ?thesis using Cons by simp
  next
    case True
    then obtain r1 where r1: "restore_metrics parse (bounded_lines (mb_content m)) r = (Inr (), r1)"
      and rest: "restore_metric_members parse ms r1 = (Inr (), r')"
      using Cons.prems(1) by (auto split: prod.splits sum.splits)
    have empty: "rn_batch r1 = []" using restore_metrics_again [OF r1 Cons.prems(2) covers_refl] by simp
    note later = Cons.IH [OF rest empty Cons.prems(3)]
    have c1: "covers (rn_db r1) x" using later Cons.prems(3) covers_trans by blast
    from restore_metrics_again [OF r1 Cons.prems(2) c1, of a b] obtain k where
      k: "covers (rn_db r) (rn_db r1)" "restore_metrics parse (bounded_lines (mb_content m)) \<lparr>rn_db = x, rn_batch = [], rn_restored = a, rn_skipped = b\<rparr> =
       (Inr (), \<lparr>rn_db = x, rn_batch = [], rn_restored = a, rn_skipped = b + k\<rparr>)" by blast
    from later [of "b + k"] obtain j where "restore_metric_members parse ms \<lparr>rn_db = x, rn_batch = [], rn_restored = a, rn_skipped = b + k\<rparr> =
       (Inr (), \<lparr>rn_db = x, rn_batch = [], rn_restored = a, rn_skipped = b + k + j\<rparr>)" by blast
    then have "restore_metric_members parse (m # ms) \<lparr>rn_db = x, rn_batch = [], rn_restored = a, rn_skipped = b\<rparr> =
       (Inr (), \<lparr>rn_db = x, rn_batch = [], rn_restored = a, rn_skipped = b + (k + j)\<rparr>)" using True k by (simp add: add.assoc)
    moreover have "covers (rn_db r) (rn_db r')" using later k(1) covers_trans by blast
    ultimately show ?thesis by blast
  qed
qed

lemma restore_servers_again:
  "restore_servers parse now ls (d, n) = (Inr (), d', n') \<Longrightarrow> s_id ` set (d_servers d') \<subseteq> s_id ` set (d_servers x) \<Longrightarrow>
     s_id ` set (d_servers d) \<subseteq> s_id ` set (d_servers d') \<and> restore_servers parse now2 ls (x, k) = (Inr (), x, k)"
proof (induction parse now ls "(d, n)" arbitrary: d n rule: restore_servers.induct)
  case (1 parse now good d n)
  then show ?case by (auto split: if_splits)
next
  case (2 parse now line lines good d n)
  show ?case
  proof (cases "strip line = []")
    case True
    then show ?thesis using 2(1) [OF True] 2(4,5) by simp
  next
    case False
    then obtain source where source: "strip line \<noteq> []" "parse line = Inr source" using 2(4) by (cases "parse line") auto
    show ?thesis
    proof (cases "st_id source \<in> s_id ` set (d_servers d)")
      case True
      with 2(2) [OF source True] 2(4,5) source have
        ih: "s_id ` set (d_servers d) \<subseteq> s_id ` set (d_servers d')" "restore_servers parse now2 (lines, good) (x, k) = (Inr (), x, k)" by simp_all
      then have "st_id source \<in> s_id ` set (d_servers x)" using True 2(5) by blast
      then show ?thesis using ih source by simp
    next
      case False
      with 2(3) [OF source False] 2(4,5) source have
        ih: "s_id ` set (d_servers d) \<union> {st_id source} \<subseteq> s_id ` set (d_servers d')" "restore_servers parse now2 (lines, good) (x, k) = (Inr (), x, k)" by simp_all
      then have "st_id source \<in> s_id ` set (d_servers x)" using 2(5) by blast
      then show ?thesis using ih source by simp
    qed
  qed
qed

lemma restore_server_members_again:
  "restore_server_members parse now ms (d, n) = (Inr (), d', n') \<Longrightarrow> s_id ` set (d_servers d') \<subseteq> s_id ` set (d_servers x) \<Longrightarrow>
     s_id ` set (d_servers d) \<subseteq> s_id ` set (d_servers d') \<and> restore_server_members parse now2 ms (x, k) = (Inr (), x, k)"
proof (induction ms arbitrary: d n)
  case (Cons m ms)
  show ?case
  proof (cases "is_prefix ''servers_'' (mb_name m)")
    case False
    then show ?thesis using Cons by simp
  next
    case True
    then obtain d1 n1 where one: "restore_servers parse now (bounded_lines (mb_content m)) (d, n) = (Inr (), d1, n1)"
      and rest: "restore_server_members parse now ms (d1, n1) = (Inr (), d', n')"
      using Cons.prems(1) by (auto split: prod.splits sum.splits)
    from Cons.IH [OF rest Cons.prems(2)] have later: "s_id ` set (d_servers d1) \<subseteq> s_id ` set (d_servers d')"
      "restore_server_members parse now2 ms (x, k) = (Inr (), x, k)" by simp_all
    then have "s_id ` set (d_servers d1) \<subseteq> s_id ` set (d_servers x)" using Cons.prems(2) by blast
    from restore_servers_again [OF one this, of now2 k] show ?thesis using True later(2) subset_trans [OF _ later(1)] by simp
  qed
qed simp

text \<open>
  C22.  Restoring the same archive once more, at whatever later time, succeeds again, adds no server and no sample and leaves the database as it is.
\<close>

theorem restoring_twice_changes_nothing:
  assumes "restore_main ci untar read_server read_row now hex_key path content create_disabled allow_legacy d = (Inr counts, d')"
  shows "\<exists>k. restore_main ci untar read_server read_row now2 hex_key path content create_disabled allow_legacy d' = (Inr (0, k, 0), d')"
proof -
  from restore_main_cases [OF assms] obtain ms members where arch: "opened ci untar hex_key allow_legacy path content = Inr ms"
    "safe_members ms = Inr members" and run: "restore_members read_server read_row now create_disabled members d = (Inr counts, d')" by auto
  obtain e1 d1 n where first: "(if create_disabled then restore_server_members read_server now members (d, 0) else (Inr (), d, 0)) = (e1, d1, n)"
    by (metis prod_cases3)
  obtain e2 r where second: "restore_metric_members read_row members \<lparr>rn_db = d1, rn_batch = [], rn_restored = 0, rn_skipped = 0\<rparr> = (e2, r)"
    by (cases "restore_metric_members read_row members \<lparr>rn_db = d1, rn_batch = [], rn_restored = 0, rn_skipped = 0\<rparr>")
  have fin: "e1 = Inr ()" "e2 = Inr ()" "d' = rn_db r" using run
    by (cases e1; cases e2; simp add: restore_members_def first second)+
  have again: "covers d1 d'" "\<exists>k. restore_metric_members read_row members \<lparr>rn_db = d', rn_batch = [], rn_restored = 0, rn_skipped = 0\<rparr> =
       (Inr (), \<lparr>rn_db = d', rn_batch = [], rn_restored = 0, rn_skipped = 0 + k\<rparr>)"
    using restore_metric_members_again [OF second [unfolded fin(2)], of d' 0 0] fin(3) by simp_all
  have "restore_server_members read_server now2 members (d', 0) = (Inr (), d', 0)" if create_disabled
  proof (rule conjunct2 [OF restore_server_members_again])
    show "restore_server_members read_server now members (d, 0) = (Inr (), d1, n)" using first fin(1) that by simp
    show "s_id ` set (d_servers d1) \<subseteq> s_id ` set (d_servers d')" using again(1) by (simp add: covers_def)
  qed
  then show ?thesis using again(2) by (auto simp: restore_main_def restore_members_def arch)
qed

section \<open>What retention removed comes back\<close>

lemma restored_row_found:
  assumes "distinct (map row_key (d_metrics d))" and "set (d_metrics d') \<subseteq> set (d_metrics d)"
    and "m \<in> set (d_metrics d) - set (d_metrics d')" and "archived \<subseteq> minimize_metric ` set (d_metrics d)"
    and "\<forall>x\<in>set new. fresh_row d' archived x"
    and "row_key (minimize_metric m) \<in> row_key ` (set (d_metrics d') \<union> set new)"
  shows "\<exists>r\<in>set new. renumbered (minimize_metric m) r"
proof -
  have keys: "row_key (minimize_metric x) = row_key x" for x by (simp add: row_key_def)
  have key: "x = m" if "x \<in> set (d_metrics d)" "row_key x = row_key m" for x
    using assms(1,3) that by (auto simp: distinct_map inj_on_def)
  have "row_key m \<notin> row_key ` set (d_metrics d')"
  proof
    assume "row_key m \<in> row_key ` set (d_metrics d')"
    then obtain x where "x \<in> set (d_metrics d')" "row_key x = row_key m" by (metis imageE)
    then show False using key assms(2,3) by blast
  qed
  then obtain r where r: "r \<in> set new" "row_key r = row_key m"
    using assms(6) unfolding keys image_Un by (metis UnE imageE)
  then obtain a where "a \<in> archived" "renumbered a r" using assms(5) by (auto simp: fresh_row_def)
  moreover from this(1) obtain x where x: "x \<in> set (d_metrics d)" "a = minimize_metric x" using assms(4) by blast
  ultimately have "row_key x = row_key m" using r(2) renumbered_key [of a r] keys [of x] by simp
  then have "x = m" using key x(1) by blast
  then show ?thesis using \<open>renumbered a r\<close> x(2) r(1) by blast
qed


text \<open>A night with one sample, in a plain archive: it is restored, and the second time left out.\<close>

definition one_line :: "member list" where
  "one_line = [\<lparr>mb_name = ''server_metrics_2026-01-02_030405.jsonl'', mb_isfile = True, mb_size = 2, mb_content = ''x''\<rparr>]"

lemma one_line_lines: "bounded_lines ''x'' = ([''x''], True)"
proof -
  have "read_line ''x'' = ''x''" by (simp add: read_line_def nl_def MAX_JSONL_LINE_BYTES_def)
  moreover have "bounded_lines [] = ([], True)" by (simp add: bounded_lines.simps [of "[]"] read_line_def)
  ultimately show ?thesis by (simp add: bounded_lines.simps [of "''x''"] MAX_JSONL_LINE_BYTES_def)
qed

definition old_sample :: metric where "old_sample = demo_metric 1 0 ''ok'' []"

definition restore_demo :: "time \<Rightarrow> db \<Rightarrow> (archive_error + nat \<times> nat \<times> nat) \<times> db" where
  "restore_demo now d = restore_main PLAIN (\<lambda>_. Inr one_line) (\<lambda>_. Inr \<lparr>st_id = 1, st_name = ''n'', st_server_type = ''gpu'', st_tags = []\<rparr>)
     (\<lambda>_. Inr old_sample) now [] ''a.tar.gz'' [] False True d"

definition one_server :: db where "one_server = empty_db\<lparr>d_servers := [demo_server]\<rparr>"

lemma restore_demo_one: "restore_demo now one_server = (Inr (1, 0, 0), one_server\<lparr>d_metrics := [old_sample]\<rparr>)"
proof -
  have "opened PLAIN (\<lambda>_. Inr one_line) [] True ''a.tar.gz'' [] = Inr one_line"
    by (simp add: opened_def ends_with_def)
  moreover have "safe_members one_line = Inr one_line" by code_simp
  moreover have "strip ''x'' = ''x''" by code_simp
  moreover have "old_sample\<lparr>m_id := 1\<rparr> = old_sample" "m_server_id old_sample = 1" by (simp_all add: old_sample_def demo_metric_def)
  ultimately show ?thesis
    by (simp add: restore_demo_def restore_main_def restore_members_def)
      (simp add: one_line_def one_line_lines restore_row_def skipped_def flush_def save_batch_def save_row_def next_metric_id_def
        BATCH_SIZE_def one_server_def empty_db_def demo_server_def)
qed

theorem restoration_only_adds_witness:
  "restore_demo 0 one_server = (Inr (1, 0, 0), one_server\<lparr>d_metrics := [old_sample]\<rparr>) \<and>
     (\<exists>d1. adds_placeholders 0 one_server d1 \<and> adds_samples d1 (one_server\<lparr>d_metrics := [old_sample]\<rparr>))"
  using restoration_only_adds [OF restore_demo_one [unfolded restore_demo_def, of 0]] restore_demo_one by blast

theorem restoring_twice_changes_nothing_witness:
  "\<exists>k. restore_demo 7 (one_server\<lparr>d_metrics := [old_sample]\<rparr>) = (Inr (0, k, 0), one_server\<lparr>d_metrics := [old_sample]\<rparr>)"
  unfolding restore_demo_def by (rule restoring_twice_changes_nothing [OF restore_demo_one [unfolded restore_demo_def, of 0]])

text \<open>
  Two lines with one sample are both stored when they fall into one batch, which is compared with the database only; the comment
  at the head of the script says that rows with an existing server and time are skipped.
\<close>

lemma batch_keeps_duplicates:
  "skipped d m = False \<Longrightarrow>
     map row_key (d_metrics (rn_db (finish (fold restore_row [m, m] \<lparr>rn_db = d, rn_batch = [], rn_restored = 0, rn_skipped = 0\<rparr>)))) =
       map row_key (d_metrics d) @ [row_key m, row_key m]"
  by (simp add: restore_row_def BATCH_SIZE_def finish_def flush_def save_batch_def save_row_def row_key_def)

definition recent_sample :: metric where "recent_sample = demo_metric 2 (days 10) ''ok'' []"

definition kept_server :: db where
  "kept_server = empty_db\<lparr>d_servers := [demo_server], d_metrics := [old_sample, recent_sample], d_settings := [(''retention_days'', ''5'')]\<rparr>"

lemma old_sample_archived:
  "\<exists>day ar. retention_cleanup True True (days 10) None kept_server kept_server kept_server =
     (day, kept_server\<lparr>d_metrics := [recent_sample]\<rparr>, Some ar) \<and> ar_metrics ar = [minimize_metric old_sample]"
proof -
  have keep: "retention_days kept_server = 5" by code_simp
  have rows: "d_metrics kept_server = [old_sample, recent_sample]" by (simp add: kept_server_def)
  have demo: "m_id old_sample = 1" "m_collected_at old_sample = 0" "m_id recent_sample = 2" "m_collected_at recent_sample = days 10"
    by (simp_all add: demo_metric_def old_sample_def recent_sample_def)
  have cut: "0 < days 10 - days 5" "\<not> days 10 < days 10 - days 5" by (simp_all add: days_def)
  have "max_expired_id (days 10 - days 5) kept_server = Some 1" using cut by (simp add: max_expired_id_def rows demo)
  then obtain ar where ar: "archive_expired_metrics True True (days 10 - days 5) kept_server kept_server = Some (1, Some ar)"
    "ar_metrics ar = [minimize_metric old_sample]"
    using cut by (auto simp: archive_expired_metrics_def Let_def order_by_def rows expired_def demo)
  moreover have "delete_batches (days 10 - days 5) 1 (d_metrics kept_server) = [recent_sample]"
    using cut by (subst delete_batches_all) (simp_all add: rows demo expired_def)
  ultimately show ?thesis using keep by (simp add: retention_cleanup_def Let_def)
qed


end
