(* ===== verification/Maintenance.thy ===== *)
theory Maintenance
  imports Security Notifier Store
begin

text \<open>
  The operator's scripts that rewrite the database in place: \<open>backend/scripts/rotate_credentials.py\<close>,
  \<open>scrub_sensitive_history.py\<close> and \<open>reset_admin_mfa.py\<close>.  Each is a dry run unless told to apply, and an error rolls
  everything back.  The outcome is the printed pair of counters or the error, with the database.
\<close>

section \<open>Rotation of the credential key\<close>

text \<open>A stored secret with the prefix its ciphertext carries, in the order in which they are visited.\<close>

definition server_secrets :: "server \<Rightarrow> string list" where
  "server_secrets s = [s_password s, s_private_key s, s_passphrase s, s_bmc_password s]"

definition targets :: "db \<Rightarrow> (string \<times> string) list" where
  "targets d =
     map (Pair []) (concat (map server_secrets (order_by s_id (d_servers d)))) @
     map (\<lambda>u. ([], u_mfa_secret u)) (order_by u_id (d_users d)) @
     map (\<lambda>w. (WEBHOOK_ENCRYPTED_PREFIX, w_url w)) (order_by w_id (d_channels d)) @
     (case map_of (d_settings d) SETTING_WEBHOOK_URL of Some v \<Rightarrow> [(WEBHOOK_ENCRYPTED_PREFIX, v)] | None \<Rightarrow> [])"

definition uses_primary :: "fernet \<Rightarrow> string \<Rightarrow> string \<Rightarrow> bool" where
  "uses_primary fer token key \<longleftrightarrow> fernet_decrypt fer (derive_key fer key) token \<noteq> None"

text \<open>A legacy URL is stored without the prefix and encrypted as it is.\<close>

definition plain_legacy :: "string \<times> string \<Rightarrow> bool" where
  "plain_legacy t \<longleftrightarrow> fst t \<noteq> [] \<and> \<not> is_prefix (fst t) (snd t)"

definition token_of :: "string \<times> string \<Rightarrow> string" where
  "token_of t = drop (length (fst t)) (snd t)"

definition needs_rotation :: "fernet \<Rightarrow> string \<Rightarrow> string \<times> string \<Rightarrow> bool" where
  "needs_rotation fer key t \<longleftrightarrow> snd t \<noteq> [] \<and> (plain_legacy t \<or> \<not> uses_primary fer (token_of t) key)"

definition rotate_text :: "fernet \<Rightarrow> settings \<Rightarrow> string \<Rightarrow> string \<times> string \<Rightarrow> http_error + string" where
  "rotate_text fer st key t =
     (if \<not> needs_rotation fer key t then Inr (snd t)
      else if plain_legacy t then map_sum id (\<lambda>tok. fst t @ tok) (encrypt_text fer st (snd t))
      else case decrypt_text fer st (token_of t) of
             Inl e \<Rightarrow> Inl e
           | Inr plaintext \<Rightarrow> map_sum id (\<lambda>tok. fst t @ tok) (encrypt_text fer st plaintext))"

definition set_to :: "http_error + string \<Rightarrow> string \<Rightarrow> string" where
  "set_to r old = (case r of Inr v \<Rightarrow> v | Inl _ \<Rightarrow> old)"

text \<open>Assigning the new texts.  A row that changes is touched, where its table says so.\<close>

definition rotate_server :: "time \<Rightarrow> (string \<Rightarrow> string) \<Rightarrow> server \<Rightarrow> server" where
  "rotate_server now f s =
     (let s' = s\<lparr>s_password := f (s_password s), s_private_key := f (s_private_key s), s_passphrase := f (s_passphrase s),
                 s_bmc_password := f (s_bmc_password s)\<rparr>
      in if s' = s then s else s'\<lparr>s_updated_at := now\<rparr>)"

definition rotate_rows :: "time \<Rightarrow> (string \<times> string \<Rightarrow> string) \<Rightarrow> db \<Rightarrow> db" where
  "rotate_rows now f d =
     d\<lparr>d_servers := map (rotate_server now (\<lambda>c. f ([], c))) (d_servers d),
       d_users := map (\<lambda>u. u\<lparr>u_mfa_secret := f ([], u_mfa_secret u)\<rparr>) (d_users d),
       d_channels := map (\<lambda>w. w\<lparr>w_url := f (WEBHOOK_ENCRYPTED_PREFIX, w_url w)\<rparr>) (d_channels d),
       d_settings := (case map_of (d_settings d) SETTING_WEBHOOK_URL of
                        Some v \<Rightarrow> AList.update SETTING_WEBHOOK_URL (f (WEBHOOK_ENCRYPTED_PREFIX, v)) (d_settings d)
                      | None \<Rightarrow> d_settings d)\<rparr>"

text \<open>The first target that cannot be decrypted ends the run.\<close>

fun first_error :: "(http_error + string) list \<Rightarrow> http_error option" where
  "first_error [] = None"
| "first_error (Inl e # rs) = Some e"
| "first_error (Inr _ # rs) = first_error rs"

definition rotate_credentials :: "fernet \<Rightarrow> settings \<Rightarrow> time \<Rightarrow> bool \<Rightarrow> db \<Rightarrow> (http_error + nat \<times> nat) \<times> db" where
  "rotate_credentials fer st now apply_it d =
     (case credential_encryption_keys st of
        [] \<Rightarrow> (Inl (Crash ''CREDENTIAL_ENCRYPTION_KEYS is not configured''), d)
      | key # _ \<Rightarrow>
          (case first_error (map (rotate_text fer st key) (targets d)) of
             Some e \<Rightarrow> (Inl e, d)
           | None \<Rightarrow> (Inr (length (filter (\<lambda>t. snd t \<noteq> []) (targets d)), length (filter (needs_rotation fer key) (targets d))),
                     if apply_it then rotate_rows now (\<lambda>t. set_to (rotate_text fer st key t) (snd t)) d else d)))"

section \<open>Scrubbing stored history\<close>

definition is_sensitive :: "metric \<Rightarrow> bool" where
  "is_sensitive m \<longleftrightarrow> minimize_processes (m_processes m) \<noteq> m_processes m \<or> minimize_gpus (m_gpus m) \<noteq> m_gpus m \<or> m_users m \<noteq> []"

definition scrub_history :: "bool \<Rightarrow> db \<Rightarrow> (nat \<times> nat) \<times> db" where
  "scrub_history apply_it d =
     ((length (d_metrics d), length (filter is_sensitive (d_metrics d))),
      if apply_it
      then d\<lparr>d_metrics := map (\<lambda>m. if is_sensitive m
              then m\<lparr>m_processes := minimize_processes (m_processes m), m_gpus := minimize_gpus (m_gpus m), m_users := []\<rparr>
              else m) (d_metrics d)\<rparr>
      else d)"

section \<open>The recovery of an administrator's second factor\<close>

definition reset_admin_mfa :: "time \<Rightarrow> string \<Rightarrow> bool \<Rightarrow> db \<Rightarrow> (http_error + bool) \<times> db" where
  "reset_admin_mfa now username apply_it d =
     (case find (\<lambda>u. u_username u = username \<and> u_role u = ''admin'') (d_users d) of
        None \<Rightarrow> (Inl (Crash ''administrator not found''), d)
      | Some u \<Rightarrow>
          (Inr (mfa_enrolled u),
           if apply_it
           then (update_user (u_id u) (\<lambda>u. u\<lparr>u_mfa_secret := [], u_mfa_confirmed := False, u_mfa_last_counter := -1,
                   u_token_version := u_token_version u + 1\<rparr>) d)
                \<lparr>d_audit := d_audit d @ [\<lparr>a_ts = now, a_username = ''system:local-recovery'', a_action = ''user.mfa_breakglass_reset'',
                   a_detail = ''reset MFA for '' @ u_username u\<rparr>]\<rparr>
           else d))"

section \<open>After a rotation the primary key is enough\<close>

lemma if_same: "(if x = s then s else y) = x \<or> (if x = s then s else y) = y"
  by simp

lemma rotate_server_parts:
  "s_id (rotate_server now f s) = s_id s" "server_secrets (rotate_server now f s) = map f (server_secrets s)"
proof -
  let ?s = "s\<lparr>s_password := f (s_password s), s_private_key := f (s_private_key s), s_passphrase := f (s_passphrase s),
    s_bmc_password := f (s_bmc_password s)\<rparr>"
  have cases: "rotate_server now f s = ?s \<or> rotate_server now f s = ?s\<lparr>s_updated_at := now\<rparr>"
    unfolding rotate_server_def Let_def by (rule if_same)
  have parts: "s_id ?s = s_id s \<and> server_secrets ?s = map f (server_secrets s)"
    "s_id (?s\<lparr>s_updated_at := now\<rparr>) = s_id s \<and> server_secrets (?s\<lparr>s_updated_at := now\<rparr>) = map f (server_secrets s)"
    by (simp_all add: server_secrets_def)
  have "s_id (rotate_server now f s) = s_id s \<and> server_secrets (rotate_server now f s) = map f (server_secrets s)"
    using cases
  proof
    assume eq: "rotate_server now f s = ?s"
    show ?thesis unfolding eq by (rule parts)
  next
    assume eq: "rotate_server now f s = ?s\<lparr>s_updated_at := now\<rparr>"
    show ?thesis unfolding eq by (rule parts)
  qed
  then show "s_id (rotate_server now f s) = s_id s" "server_secrets (rotate_server now f s) = map f (server_secrets s)"
    by simp_all
qed

lemma targets_rotated: "targets (rotate_rows now f d) = map (\<lambda>t. (fst t, f t)) (targets d)"
proof -
  show ?thesis
    by (simp add: targets_def rotate_rows_def order_by_map comp_def rotate_server_parts map_concat update_conv' split: option.split)
qed

lemma first_errorD: "first_error rs = None \<Longrightarrow> r \<in> set rs \<Longrightarrow> \<exists>v. r = Inr v"
  by (induction rs rule: first_error.induct) auto

text \<open>What the program reads for a secret.\<close>

definition decrypted :: "fernet \<Rightarrow> settings \<Rightarrow> string \<Rightarrow> string option" where
  "decrypted fer st c = (case decrypt_text fer st c of Inr p \<Rightarrow> Some p | Inl _ \<Rightarrow> None)"

definition secret_of :: "fernet \<Rightarrow> settings \<Rightarrow> string \<times> string \<Rightarrow> string option" where
  "secret_of fer st t = (if fst t = [] then decrypted fer st (snd t) else reveal_webhook_url (decrypted fer st) (snd t))"

definition fernet_ok :: "fernet \<Rightarrow> string \<Rightarrow> bool" where
  "fernet_ok fer key \<longleftrightarrow> (\<forall>p. fernet_decrypt fer (derive_key fer key) (fernet_encrypt fer (derive_key fer key) p) = Some p \<and>
     fernet_encrypt fer (derive_key fer key) p \<noteq> [])"

lemma decrypted_simps [simp]:
  "decrypted fer st [] = Some []"
  "fernet_ok fer key \<Longrightarrow> credential_encryption_keys st = key # ks \<Longrightarrow> decrypted fer st (fernet_encrypt fer (derive_key fer key) p) = Some p"
  by (simp_all add: decrypted_def decrypt_text_def fernet_ok_def)

lemma decrypted_primary:
  "uses_primary fer tok key \<Longrightarrow> credential_encryption_keys st = key # ks \<Longrightarrow> credential_encryption_keys st' = [key] \<Longrightarrow>
     decrypted fer st' tok = decrypted fer st tok \<and> decrypted fer st tok \<noteq> None"
  by (auto simp: uses_primary_def decrypted_def decrypt_text_def)

lemma has_prefix [simp]: "WEBHOOK_ENCRYPTED_PREFIX \<noteq> []" "[] \<noteq> WEBHOOK_ENCRYPTED_PREFIX"
  by (simp_all add: WEBHOOK_ENCRYPTED_PREFIX_def)

lemma prefix_split: "is_prefix p s \<Longrightarrow> p @ drop (length p) s = s"
  by (induction p s rule: is_prefix.induct) auto

lemma prefix_append [simp]: "is_prefix p (p @ s)"
  by (induction p) auto

lemma prefix_self [simp]: "is_prefix p p"
  using prefix_append [of p "[]"] by simp

text \<open>A target after its rotation: the same secret, for a ring with the primary key only, and nothing more to do.\<close>

lemma rotated_secret:
  assumes "rotate_text fer st key t = Inr v" and "fernet_ok fer key" and "credential_encryption_keys st = key # ks"
    and "credential_encryption_keys st' = [key]" and "fst t \<in> {[], WEBHOOK_ENCRYPTED_PREFIX}"
  shows "secret_of fer st' (fst t, v) = secret_of fer st t \<and> secret_of fer st t \<noteq> None \<and> rotate_text fer st key (fst t, v) = Inr v"
proof (cases "needs_rotation fer key t")
  case False
  then have v: "v = snd t" using assms(1) by (simp add: rotate_text_def)
  then have t: "(fst t, v) = t" by simp
  have "secret_of fer st' t = secret_of fer st t \<and> secret_of fer st t \<noteq> None"
  proof (cases "snd t = []")
    case True
    then show ?thesis by (simp add: secret_of_def reveal_webhook_url_def)
  next
    case nonempty: False
    then have "\<not> plain_legacy t" "uses_primary fer (token_of t) key" using False by (auto simp: needs_rotation_def)
    with decrypted_primary [OF this(2) assms(3,4)] nonempty assms(5) show ?thesis
      by (cases "fst t = []") (auto simp: secret_of_def plain_legacy_def token_of_def reveal_webhook_url_def)
  qed
  then show ?thesis using assms(1) by (simp add: t v)
next
  case True
  note e = encrypt_text_def [of fer st, unfolded assms(3)]
  have again: "rotate_text fer st key (fst t, fst t @ fernet_encrypt fer (derive_key fer key) p) = Inr (fst t @ fernet_encrypt fer (derive_key fer key) p)" for p
    using assms(2) by (simp add: rotate_text_def needs_rotation_def plain_legacy_def token_of_def uses_primary_def fernet_ok_def)
  show ?thesis
  proof (cases "plain_legacy t")
    case True
    then have "v = fst t @ fernet_encrypt fer (derive_key fer key) (snd t)" "snd t \<noteq> []" "fst t \<noteq> []"
      using assms(1) \<open>needs_rotation fer key t\<close> by (auto simp: rotate_text_def e plain_legacy_def needs_rotation_def)
    then show ?thesis using True assms(2-5) again
      by (simp add: secret_of_def reveal_webhook_url_def plain_legacy_def)
  next
    case False
    obtain p where p: "decrypt_text fer st (token_of t) = Inr p" and enc: "map_sum id (\<lambda>tok. fst t @ tok) (encrypt_text fer st p) = Inr v"
      using assms(1) True False by (auto simp: rotate_text_def split: sum.splits)
    have before: "secret_of fer st t = Some p"
      using p False True assms(5) by (auto simp: secret_of_def reveal_webhook_url_def plain_legacy_def token_of_def decrypted_def needs_rotation_def)
    show ?thesis
    proof (cases "p = []")
      case True
      then have "v = fst t" using enc by (simp add: encrypt_text_def)
      moreover have "rotate_text fer st key (fst t, fst t) = Inr (fst t)"
        by (simp add: rotate_text_def plain_legacy_def token_of_def decrypt_text_def encrypt_text_def)
      moreover have "secret_of fer st' (fst t, fst t) = Some []"
        using assms(5) by (auto simp: secret_of_def reveal_webhook_url_def)
      ultimately show ?thesis using before True by simp
    next
      case False
      then have "v = fst t @ fernet_encrypt fer (derive_key fer key) p" using enc by (simp add: e)
      then show ?thesis using before again assms(2,4,5) by (auto simp: secret_of_def reveal_webhook_url_def)
    qed
  qed
qed

text \<open>
  C6.  After a rotation was applied the first key of the ring is enough: under it alone every stored secret (passwords, keys, seeds of the second
  factor, webhook URLs) is read as it was under the whole ring before, and applying the rotation once more leaves the secrets as they are.
\<close>

theorem rotation_retires_old_keys:
  assumes "rotate_credentials fer st now True d = (Inr counts, d')" and "fernet_ok fer key"
    and "credential_encryption_keys st = key # ks" and "credential_encryption_keys st' = [key]"
  shows "list_all2 (\<lambda>t t'. fst t' = fst t \<and> secret_of fer st' t' = secret_of fer st t \<and> secret_of fer st t \<noteq> None) (targets d) (targets d') \<and>
    targets (snd (rotate_credentials fer st now2 True d')) = targets d'"
proof -
  let ?f = "\<lambda>t. set_to (rotate_text fer st key t) (snd t)"
  have ok: "first_error (map (rotate_text fer st key) (targets d)) = None" and d': "d' = rotate_rows now ?f d"
    using assms(1,3) by (auto simp: rotate_credentials_def split: option.splits)
  have after: "targets d' = map (\<lambda>t. (fst t, ?f t)) (targets d)" unfolding d' by (rule targets_rotated)
  have one: "secret_of fer st' (fst t, ?f t) = secret_of fer st t \<and> secret_of fer st t \<noteq> None \<and> rotate_text fer st key (fst t, ?f t) = Inr (?f t)"
    if t: "t \<in> set (targets d)" for t
  proof -
    have "fst t \<in> {[], WEBHOOK_ENCRYPTED_PREFIX}" using t by (auto simp: targets_def split: option.splits)
    moreover obtain v where "rotate_text fer st key t = Inr v" using first_errorD [OF ok] t by fastforce
    ultimately show ?thesis using rotated_secret assms(2-4) by (simp add: set_to_def)
  qed
  have "targets (snd (rotate_credentials fer st now2 True d')) = targets d'"
  proof -
    have "map (\<lambda>t. (fst t, ?f t)) (targets d') = targets d'" unfolding after using one by (simp add: set_to_def)
    then show ?thesis using assms(3) by (simp add: rotate_credentials_def targets_rotated split: option.split)
  qed
  moreover have "list_all2 (\<lambda>t t'. fst t' = fst t \<and> secret_of fer st' t' = secret_of fer st t \<and> secret_of fer st t \<noteq> None) (targets d) (targets d')"
    unfolding after using one by (simp add: list_all2_map2 list.rel_refl_strong)
  ultimately show ?thesis by blast
qed

text \<open>A dry run changes nothing, and neither does a run that fails.\<close>

lemma dry_run_changes_nothing:
  "snd (rotate_credentials fer st now False d) = d" "snd (scrub_history False d) = d" "snd (reset_admin_mfa now name False d) = d"
  "rotate_credentials fer st now yes d = (Inl e, d') \<Longrightarrow> d' = d"
  by (auto simp: rotate_credentials_def scrub_history_def reset_admin_mfa_def split: list.splits option.splits)

section \<open>After scrubbing nothing personal is left\<close>

lemma scrubbed: "(if is_sensitive m then m\<lparr>m_processes := minimize_processes (m_processes m), m_gpus := minimize_gpus (m_gpus m), m_users := []\<rparr> else m)
    = minimize_metric m"
  by (cases m) (simp add: is_sensitive_def minimize_metric_def)

text \<open>
  Scrubbing leaves no user and no command line in any stored sample, changes nothing else, and finds nothing to do when it runs again.
\<close>

theorem scrubbed_history_is_private:
  "d_metrics (snd (scrub_history True d)) = map minimize_metric (d_metrics d) \<and>
   list_all private_metric (d_metrics (snd (scrub_history True d))) \<and>
   snd (scrub_history True d) = d\<lparr>d_metrics := map minimize_metric (d_metrics d)\<rparr> \<and>
   snd (fst (scrub_history apply_it (snd (scrub_history True d)))) = 0"
proof -
  have scrub: "snd (scrub_history True d) = d\<lparr>d_metrics := map minimize_metric (d_metrics d)\<rparr>"
    by (simp add: scrub_history_def scrubbed)
  have "\<not> is_sensitive (minimize_metric m)" for m
    by (simp add: is_sensitive_def minimize_metric_def minimize_processes_idem minimize_gpus_def minimize_gpu_process_def comp_def)
  moreover have "snd (fst (scrub_history apply_it x)) = length (filter is_sensitive (d_metrics x))" for x
    by (simp add: scrub_history_def)
  ultimately show ?thesis by (simp add: scrub minimized_private list_all_iff)
qed

definition rotated_db :: db where
  "rotated_db = empty_db\<lparr>d_servers := [demo_server\<lparr>s_password := ''opw''\<rparr>],
     d_channels := [\<lparr>w_id = 1, w_name = ''ops'', w_url = ''https://h'', w_template = [], w_min_severity = ''info'', w_enabled = True\<rparr>]\<rparr>"

theorem rotation_retires_old_keys_witness:
  "\<exists>d'. rotate_credentials tagging (ring ''new, old'') 5 True rotated_db = (Inr (2, 2), d') \<and>
     list_all2 (\<lambda>t t'. fst t' = fst t \<and> secret_of tagging (ring ''new'') t' = secret_of tagging (ring ''new, old'') t \<and>
       secret_of tagging (ring ''new, old'') t \<noteq> None) (targets rotated_db) (targets d')"
proof -
  have "fst (rotate_credentials tagging (ring ''new, old'') 5 True rotated_db) = Inr (2, 2)" by code_simp
  then obtain d' where run: "rotate_credentials tagging (ring ''new, old'') 5 True rotated_db = (Inr (2, 2), d')"
    by (cases "rotate_credentials tagging (ring ''new, old'') 5 True rotated_db") simp
  have ok: "fernet_ok tagging ''new''" by (simp add: fernet_ok_def tagging_def derive_key_def)
  have keys: "credential_encryption_keys (ring ''new, old'') = ''new'' # [''old'']" "credential_encryption_keys (ring ''new'') = [''new'']"
    by code_simp+
  show ?thesis using rotation_retires_old_keys [OF run ok keys] run by blast
qed

section \<open>A recovered second factor ends the sessions\<close>

lemma find_map_id: "(\<And>u. u_id (f u) = u_id u) \<Longrightarrow> find (\<lambda>u. u_id u = i) (map f us) = map_option f (find (\<lambda>u. u_id u = i) us)"
  by (induction us) auto

lemma session_payload:
  assumes "get_current_user decode rq bearer d = Inr (u, mfa)"
  shows "let token = (if the_default [] bearer \<noteq> [] then the_default [] bearer else cookie rq ACCESS_COOKIE)
    in token \<noteq> [] \<and> (\<exists>p uid. decode token = Some p \<and> c_uid p = Some uid \<and> user_by_id d uid = Some u \<and> c_ver p = Some (u_token_version u))"
  using assms unfolding get_current_user_def Let_def
  by (simp split: if_split_asm option.split_asm)

text \<open>
  After the break-glass reset the administrator's second factor is gone and every session that was open is refused; the password, the
  name and every other user are as they were.
\<close>

theorem recovery_ends_sessions:
  assumes "find (\<lambda>u. u_username u = name \<and> u_role u = ''admin'') (d_users d) = Some u"
    and "get_current_user decode rq bearer d = Inr (u, mfa)"
  shows "get_current_user decode rq bearer (snd (reset_admin_mfa now name True d)) = Inl invalid_token \<and>
    (\<forall>v\<in>set (d_users (snd (reset_admin_mfa now name True d))). u_id v = u_id u \<longrightarrow> \<not> mfa_enrolled v) \<and>
    map (\<lambda>v. (u_id v, u_username v, u_password_hash v, u_role v, u_is_active v)) (d_users (snd (reset_admin_mfa now name True d))) =
      map (\<lambda>v. (u_id v, u_username v, u_password_hash v, u_role v, u_is_active v)) (d_users d) \<and>
    filter (\<lambda>v. u_id v \<noteq> u_id u) (d_users (snd (reset_admin_mfa now name True d))) = filter (\<lambda>v. u_id v \<noteq> u_id u) (d_users d)"
proof -
  let ?f = "\<lambda>v. if u_id v = u_id u then v\<lparr>u_mfa_secret := [], u_mfa_confirmed := False, u_mfa_last_counter := -1, u_token_version := u_token_version v + 1\<rparr> else v"
  let ?d = "snd (reset_admin_mfa now name True d)"
  have users: "d_users ?d = map ?f (d_users d)"
    using assms(1) by (simp add: reset_admin_mfa_def update_user_def)
  have "get_current_user decode rq bearer ?d = Inl invalid_token"
  proof -
    have found: "user_by_id ?d i = map_option ?f (user_by_id d i)" for i
      by (simp add: user_by_id_def users) (rule find_map_id, simp)
    let ?token = "if the_default [] bearer \<noteq> [] then the_default [] bearer else cookie rq ACCESS_COOKIE"
    obtain p uid where p: "?token \<noteq> []" "decode ?token = Some p" "c_uid p = Some uid" "user_by_id d uid = Some u"
        "c_ver p = Some (u_token_version u)"
      using session_payload [OF assms(2), unfolded Let_def] by blast
    have "user_by_id ?d uid = Some (u\<lparr>u_mfa_secret := [], u_mfa_confirmed := False, u_mfa_last_counter := -1, u_token_version := u_token_version u + 1\<rparr>)"
      by (simp add: found p(4))
    then show ?thesis using p(1-3,5) unfolding get_current_user_def Let_def by (simp split: option.split)
  qed
  moreover have "filter (\<lambda>v. u_id v \<noteq> u_id u) (map ?f us) = filter (\<lambda>v. u_id v \<noteq> u_id u) us" for us
    by (induction us) auto
  ultimately show ?thesis by (auto simp: users mfa_enrolled_def)
qed

definition root_user :: user where
  "root_user = \<lparr>u_id = 7, u_username = ''root'', u_password_hash = ''h'', u_display_name = [], u_email = [], u_role = ''admin'', u_is_active = True,
     u_auth_id = ''a'', u_token_version = 3, u_mfa_secret = ''seed'', u_mfa_confirmed = True, u_mfa_last_counter = 9, u_created_at = 0\<rparr>"

definition root_claims :: claims where
  "root_claims = \<lparr>c_sub = Some ''root'', c_uid = Some 7, c_aid = Some ''a'', c_ver = Some 3, c_mfa = True, c_iat = 0, c_jti = [], c_iss = [],
     c_aud = [], c_exp = 0\<rparr>"

theorem recovery_ends_sessions_witness:
  "get_current_user (\<lambda>_. Some root_claims) (forwarded ''10.0.0.1'' []) (Some ''t'') (empty_db\<lparr>d_users := [root_user]\<rparr>) = Inr (root_user, True) \<and>
   get_current_user (\<lambda>_. Some root_claims) (forwarded ''10.0.0.1'' []) (Some ''t'')
     (snd (reset_admin_mfa 5 ''root'' True (empty_db\<lparr>d_users := [root_user]\<rparr>))) = Inl invalid_token"
proof -
  have found: "find (\<lambda>u. u_username u = ''root'' \<and> u_role u = ''admin'') (d_users (empty_db\<lparr>d_users := [root_user]\<rparr>)) = Some root_user"
    by (simp add: root_user_def)
  have open_session: "get_current_user (\<lambda>_. Some root_claims) (forwarded ''10.0.0.1'' []) (Some ''t'') (empty_db\<lparr>d_users := [root_user]\<rparr>)
      = Inr (root_user, True)" by code_simp
  show ?thesis using recovery_ends_sessions [OF found open_session, of 5] open_session by blast
qed

end
