(* ===== verification/Migrate.thy ===== *)
theory Migrate
  imports HostParse Notifier Extra
begin

text \<open>
  The migration runner of \<open>backend/app/migrate.py\<close>: which files are applied and in which order, how a file becomes statements,
  which errors are tolerated, what is recorded.  The schema and the execution of a statement belong to the database and are a
  parameter, as is what a roll-back restores; the table of applied names is part of the state.
\<close>

section \<open>Which files\<close>

text \<open>\<open>^(\d+)_.*\.sql$\<close>, on the name of a file.\<close>

definition named_migration :: "string \<Rightarrow> bool" where
  "named_migration fname \<longleftrightarrow>
     (let digits = takeWhile is_digit fname; after_digits = dropWhile is_digit fname
      in digits \<noteq> [] \<and> is_prefix ''_'' after_digits \<and> nl \<notin> set after_digits \<and> ends_with ''.sql'' (drop 1 after_digits))"

definition migration_files :: "(string, string) dict \<Rightarrow> string list" where
  "migration_files dir = sort (filter (\<lambda>f. ends_with ''.sql'' f \<and> named_migration f) (keys dir))"

definition wrong_dialect :: "bool \<Rightarrow> string \<Rightarrow> bool" where
  "wrong_dialect is_mysql fname \<longleftrightarrow>
     ends_with ''.mysql.sql'' fname \<and> \<not> is_mysql \<or> ends_with ''.sqlite.sql'' fname \<and> is_mysql"

section \<open>Statements\<close>

definition migration_statements :: "string \<Rightarrow> string list" where
  "migration_statements sql =
     filter (\<lambda>s. s \<noteq> []) (map strip (split_on CHR '';''
       (join [nl] (filter (\<lambda>ln. \<not> is_prefix ''--'' (strip ln)) (splitlines sql)))))"

definition TOLERATED :: "string list" where
  "TOLERATED = [''duplicate column'', ''already exists'', ''duplicate key name'', ''check that column/key exists'', ''no such column'',
     ''unknown column'', [CHR ''c'', CHR ''a'', CHR ''n'', CHR 0x27] @ ''t drop'', ''check that column exists'']"

definition translated :: "bool \<Rightarrow> string \<Rightarrow> string" where
  "translated is_mysql stmt =
     (if is_mysql then stmt else replace_all ''INSERT IGNORE INTO'' ''INSERT OR IGNORE INTO'' stmt)"

definition tolerated :: "string \<Rightarrow> bool" where
  "tolerated e \<longleftrightarrow> list_ex (\<lambda>t. contains t (lower e)) TOLERATED"

section \<open>Running\<close>

text \<open>
  The database: what executing a statement does (an error text, or the next schema), and what a roll-back makes of the schema
  at the last commit and the schema now.
\<close>

record 's engine =
  en_mysql :: bool
  en_execute :: "'s \<Rightarrow> string \<Rightarrow> string + 's"
  en_rollback :: "'s \<Rightarrow> 's \<Rightarrow> 's"

text \<open>The statements of a file, up to an error that is not tolerated.\<close>

fun run_statements :: "'s engine \<Rightarrow> string list \<Rightarrow> 's \<Rightarrow> string option \<times> 's" where
  "run_statements en [] s = (None, s)"
| "run_statements en (stmt # stmts) s =
     (case en_execute en s (translated (en_mysql en) stmt) of
        Inr s' \<Rightarrow> run_statements en stmts s'
      | Inl e \<Rightarrow> if tolerated e then run_statements en stmts s else (Some e, s))"

record 's migrated =
  mg_schema :: 's
  mg_recorded :: "string list"

text \<open>The loop over the files; \<open>recorded\<close> is what was recorded at the start.\<close>

fun run_files :: "'s engine \<Rightarrow> (string, string) dict \<Rightarrow> string list \<Rightarrow> string list \<Rightarrow> 's migrated \<Rightarrow> (string + string list) \<times> 's migrated" where
  "run_files en dir recorded [] st = (Inr [], st)"
| "run_files en dir recorded (fname # fnames) st =
     (if fname \<in> set recorded \<or> wrong_dialect (en_mysql en) fname then run_files en dir recorded fnames st
      else case run_statements en (migration_statements (the_default [] (map_of dir fname))) (mg_schema st) of
             (Some e, s) \<Rightarrow> (Inl e, st\<lparr>mg_schema := en_rollback en (mg_schema st) s\<rparr>)
           | (None, s) \<Rightarrow>
               (case run_files en dir recorded fnames \<lparr>mg_schema = s, mg_recorded = mg_recorded st @ [fname]\<rparr> of
                  (r, st') \<Rightarrow> (map_sum id (Cons fname) r, st')))"

text \<open>\<open>None\<close>: there is no directory of migrations.\<close>

definition run_migrations :: "'s engine \<Rightarrow> (string, string) dict option \<Rightarrow> 's migrated \<Rightarrow> (string + string list) \<times> 's migrated" where
  "run_migrations en dir st =
     (case dir of
        None \<Rightarrow> (Inr [], st)
      | Some files \<Rightarrow> run_files en files (mg_recorded st) (migration_files files) st)"

section \<open>What a file says\<close>

lemma statement_parts_of: "p \<in> set (split_on_aux sep acc s) \<Longrightarrow> sep \<notin> set acc \<Longrightarrow> sep \<notin> set p"
  by (induction sep acc s rule: split_on_aux.induct) (auto split: if_splits)

lemma set_strip: "set (strip s) \<subseteq> set s"
  unfolding strip_def lstrip_def rstrip_def by (metis set_dropWhileD set_rev subsetI)

text \<open>A statement is not blank and holds no separator.\<close>

lemma statements_are_single: "s \<in> set (migration_statements sql) \<Longrightarrow> s \<noteq> [] \<and> CHR '';'' \<notin> set s"
proof -
  assume "s \<in> set (migration_statements sql)"
  then obtain p where "p \<in> set (split_on CHR '';'' (join [nl] (filter (\<lambda>ln. \<not> is_prefix ''--'' (strip ln)) (splitlines sql))))"
    "s = strip p" "s \<noteq> []" by (auto simp: migration_statements_def)
  then show ?thesis using statement_parts_of [of p _ "[]"] set_strip [of p] by (auto simp: split_on_def)
qed

section \<open>Every file once, in order\<close>

definition pending :: "'s engine \<Rightarrow> string list \<Rightarrow> string list \<Rightarrow> string list" where
  "pending en recorded fnames = filter (\<lambda>f. f \<notin> set recorded \<and> \<not> wrong_dialect (en_mysql en) f) fnames"

lemma run_files_applies:
  "run_files en dir recorded fnames st = (Inr now, st') \<Longrightarrow> now = pending en recorded fnames \<and> mg_recorded st' = mg_recorded st @ now"
proof (induction fnames arbitrary: st now)
  case (Cons f fs)
  show ?case
  proof (cases "f \<in> set recorded \<or> wrong_dialect (en_mysql en) f")
    case True
    then show ?thesis using Cons by (auto simp: pending_def)
  next
    case False
    obtain e s where run: "run_statements en (migration_statements (the_default [] (map_of dir f))) (mg_schema st) = (e, s)"
      by (cases "run_statements en (migration_statements (the_default [] (map_of dir f))) (mg_schema st)")
    with Cons.prems False obtain now' where "run_files en dir recorded fs \<lparr>mg_schema = s, mg_recorded = mg_recorded st @ [f]\<rparr> = (Inr now', st')"
      "now = f # now'" by (cases e) (auto split: prod.splits sum.splits simp: map_sum_def)
    with Cons.IH [OF this(1)] False show ?thesis by (simp add: pending_def)
  qed
qed (simp add: pending_def)

lemma run_files_nothing: "pending en recorded fnames = [] \<Longrightarrow> run_files en dir recorded fnames st = (Inr [], st)"
  by (induction fnames) (auto simp: pending_def split: if_splits)

lemma run_files_stops:
  "run_files en dir recorded fnames st = (Inl e, st') \<Longrightarrow>
     \<exists>before f after s0 s. pending en recorded fnames = before @ f # after \<and> mg_recorded st' = mg_recorded st @ before \<and>
       run_statements en (migration_statements (the_default [] (map_of dir f))) s0 = (Some e, s) \<and> mg_schema st' = en_rollback en s0 s"
proof (induction fnames arbitrary: st)
  case (Cons f fs)
  show ?case
  proof (cases "f \<in> set recorded \<or> wrong_dialect (en_mysql en) f")
    case True
    then show ?thesis using Cons by (auto simp: pending_def)
  next
    case False
    obtain r s where run: "run_statements en (migration_statements (the_default [] (map_of dir f))) (mg_schema st) = (r, s)"
      by (cases "run_statements en (migration_statements (the_default [] (map_of dir f))) (mg_schema st)")
    show ?thesis
    proof (cases r)
      case (Some e')
      then have "e' = e" "mg_recorded st' = mg_recorded st @ []" "mg_schema st' = en_rollback en (mg_schema st) s" using Cons.prems False run by auto
      moreover have "pending en recorded (f # fs) = [] @ f # pending en recorded fs" using False by (simp add: pending_def)
      ultimately show ?thesis using run Some by blast
    next
      case None
      then have "run_files en dir recorded fs \<lparr>mg_schema = s, mg_recorded = mg_recorded st @ [f]\<rparr> = (Inl e, st')"
        using Cons.prems False run by (auto split: prod.splits sum.splits simp: map_sum_def)
      from Cons.IH [OF this] obtain pre g post s0 s1 where "pending en recorded fs = pre @ g # post" "mg_recorded st' = mg_recorded st @ f # pre"
        "run_statements en (migration_statements (the_default [] (map_of dir g))) s0 = (Some e, s1)" "mg_schema st' = en_rollback en s0 s1" by auto
      moreover have "pending en recorded (f # fs) = f # pending en recorded fs" using False by (simp add: pending_def)
      ultimately show ?thesis by (metis append_Cons)
    qed
  qed
qed simp

lemma pending_files:
  "distinct (keys files) \<Longrightarrow> sorted (pending en recorded (migration_files files)) \<and> distinct (pending en recorded (migration_files files))"
  using sorted_filter [of "\<lambda>x. x" "migration_files files" "\<lambda>f. f \<notin> set recorded \<and> \<not> wrong_dialect (en_mysql en) f"]
  by (simp add: pending_def migration_files_def)

text \<open>
  C20.  A run that succeeds applies exactly the files of the directory's dialect that were not recorded, each once and in the order of their
  names, records them, and the next run finds nothing to do and leaves the schema alone.
\<close>

theorem migrations_apply_once:
  assumes "run_migrations en (Some files) st = (Inr applied_now, st')" and "distinct (keys files)"
  shows "sorted applied_now \<and> distinct applied_now \<and>
    set applied_now = {f \<in> set (migration_files files). f \<notin> set (mg_recorded st) \<and> \<not> wrong_dialect (en_mysql en) f} \<and>
    mg_recorded st' = mg_recorded st @ applied_now \<and> run_migrations en (Some files) st' = (Inr [], st')"
proof -
  let ?pending = "\<lambda>recorded. pending en recorded (migration_files files)"
  have run: "applied_now = ?pending (mg_recorded st)" "mg_recorded st' = mg_recorded st @ applied_now"
    using run_files_applies [of en files "mg_recorded st" "migration_files files" st] assms(1) by (simp_all add: run_migrations_def)
  have "?pending (mg_recorded st') = []"
    unfolding run(2) by (auto simp: run(1) pending_def filter_empty_conv)
  then have "run_migrations en (Some files) st' = (Inr [], st')" by (simp add: run_migrations_def run_files_nothing)
  then show ?thesis using run pending_files [OF assms(2)] by (simp add: pending_def)
qed

text \<open>
  C21.  A run that fails has recorded the files before the one that failed and no other: that one is the first of the next run, which
  starts from what the roll-back left.
\<close>

theorem failed_migration_is_retried:
  assumes "run_migrations en (Some files) st = (Inl e, st')" and "distinct (keys files)"
  shows "\<exists>before f after. pending en (mg_recorded st) (migration_files files) = before @ f # after \<and>
    mg_recorded st' = mg_recorded st @ before \<and> pending en (mg_recorded st') (migration_files files) = f # after \<and>
    (\<exists>s0 s. run_statements en (migration_statements (the_default [] (map_of files f))) s0 = (Some e, s) \<and> mg_schema st' = en_rollback en s0 s)"
proof -
  obtain pre f post s0 s where run: "pending en (mg_recorded st) (migration_files files) = pre @ f # post" "mg_recorded st' = mg_recorded st @ pre"
    "run_statements en (migration_statements (the_default [] (map_of files f))) s0 = (Some e, s)" "mg_schema st' = en_rollback en s0 s"
    using run_files_stops [of en files "mg_recorded st" "migration_files files" st e st'] assms(1) by (auto simp: run_migrations_def)
  have "distinct (pre @ f # post)" using pending_files [OF assms(2), of en "mg_recorded st"] run(1) by simp
  then have apart: "f \<notin> set pre" "set post \<inter> set pre = {}" by auto
  have "pending en (mg_recorded st') (migration_files files) = filter (\<lambda>g. g \<notin> set pre) (pending en (mg_recorded st) (migration_files files))"
    unfolding run(2) by (simp add: pending_def) (rule filter_cong, auto)
  also have "\<dots> = f # post" using apart unfolding run(1) by (auto simp: filter_empty_conv filter_id_conv)
  finally show ?thesis using run by blast
qed

text \<open>A schema that is the list of the statements executed, with two files of which one was applied before.\<close>

definition listing :: "string list engine" where
  "listing = \<lparr>en_mysql = False, en_execute = (\<lambda>s stmt. if stmt = ''BAD'' then Inl ''syntax error'' else Inr (s @ [stmt])), en_rollback = (\<lambda>s0 s. s0)\<rparr>"

definition two_files :: "(string, string) dict" where
  "two_files = [(''002_b.sql'', ''DROP B;''), (''001_a.sql'', ''MAKE A''), (''002_b.mysql.sql'', ''X'')]"

theorem migrations_apply_once_witness:
  "run_migrations listing (Some two_files) \<lparr>mg_schema = [], mg_recorded = [''001_a.sql'']\<rparr> =
     (Inr [''002_b.sql''], \<lparr>mg_schema = [''DROP B''], mg_recorded = [''001_a.sql'', ''002_b.sql'']\<rparr>) \<and>
   run_migrations listing (Some two_files) \<lparr>mg_schema = [''DROP B''], mg_recorded = [''001_a.sql'', ''002_b.sql'']\<rparr> =
     (Inr [], \<lparr>mg_schema = [''DROP B''], mg_recorded = [''001_a.sql'', ''002_b.sql'']\<rparr>)"
proof -
  have run: "run_migrations listing (Some two_files) \<lparr>mg_schema = [], mg_recorded = [''001_a.sql'']\<rparr> =
     (Inr [''002_b.sql''], \<lparr>mg_schema = [''DROP B''], mg_recorded = [''001_a.sql'', ''002_b.sql'']\<rparr>)" by code_simp
  have "distinct (keys two_files)" by code_simp
  from migrations_apply_once [OF run this] run show ?thesis by blast
qed

theorem failed_migration_is_retried_witness:
  "run_migrations listing (Some [(''001_a.sql'', ''A;BAD;C'')]) \<lparr>mg_schema = [], mg_recorded = []\<rparr> =
     (Inl ''syntax error'', \<lparr>mg_schema = [], mg_recorded = []\<rparr>) \<and>
   (\<exists>f after. pending listing [] (migration_files [(''001_a.sql'', ''A;BAD;C'')]) = f # after)"
proof -
  have run: "run_migrations listing (Some [(''001_a.sql'', ''A;BAD;C'')]) \<lparr>mg_schema = [], mg_recorded = []\<rparr> =
     (Inl ''syntax error'', \<lparr>mg_schema = [], mg_recorded = []\<rparr>)" by code_simp
  have "distinct (keys [(''001_a.sql'', ''A;BAD;C'')])" by simp
  from failed_migration_is_retried [OF run this] run show ?thesis by auto
qed

end
