(* ===== verification/Background.thy ===== *)
theory Background
  imports Cycle Cache Json Security Transport
begin

text \<open>
  What runs beside the requests, and the choice of what they run on: starting the scheduler, the cache warmer, the IPMI loop and the
  rebuild of old roll-ups (\<open>scheduler.py\<close>), the choice of the cache backend and the Redis connection (\<open>cache.py\<close>), and
  running a command over an open SSH connection, private keys and credentials (\<open>ssh_transport.py\<close>).
\<close>

section \<open>Threads\<close>

text \<open>The flags and the names of the threads started so far; \<open>bg_rebuilding\<close>: the rebuild's thread is alive.\<close>

record background =
  bg_running :: bool
  bg_interval :: int
  bg_stopped :: bool
  bg_warmer :: bool
  bg_ipmi :: bool
  bg_rebuilding :: bool
  bg_threads :: "string list"

definition nothing_started :: "int \<Rightarrow> background" where
  "nothing_started poll_seconds = \<lparr>bg_running = False, bg_interval = poll_seconds, bg_stopped = False, bg_warmer = False, bg_ipmi = False,
     bg_rebuilding = False, bg_threads = []\<rparr>"

definition spawn :: "string \<Rightarrow> background \<Rightarrow> background" where
  "spawn name b = b\<lparr>bg_threads := bg_threads b @ [name]\<rparr>"

definition start_cache_warmer :: "background \<Rightarrow> background" where
  "start_cache_warmer b = (if bg_warmer b then b else spawn ''gpumon-cache-warmer'' (b\<lparr>bg_warmer := True\<rparr>))"

definition start_ipmi_loop :: "background \<Rightarrow> background" where
  "start_ipmi_loop b = (if bg_ipmi b then b else spawn ''gpumon-ipmi'' (b\<lparr>bg_ipmi := True\<rparr>))"

definition start_scheduler :: "int \<Rightarrow> db \<Rightarrow> background \<Rightarrow> background" where
  "start_scheduler poll_seconds d b =
     (if bg_running b then b
      else start_ipmi_loop (start_cache_warmer
             (spawn ''gpumon-scheduler'' (b\<lparr>bg_interval := load_interval poll_seconds d, bg_running := True, bg_stopped := False\<rparr>))))"

definition start_legacy_backfill :: "background \<Rightarrow> background" where
  "start_legacy_backfill b =
     (if bg_stopped b \<or> bg_rebuilding b then b else spawn ''gpumon-legacy-card-time'' (b\<lparr>bg_rebuilding := True\<rparr>))"

text \<open>What may happen, in any order: a start, a request to rebuild, the end of a rebuild, the stop event.\<close>

datatype event = Start db | Rebuild | Rebuilt | Stop

fun happen :: "int \<Rightarrow> event \<Rightarrow> background \<Rightarrow> background" where
  "happen poll_seconds (Start d) b = start_scheduler poll_seconds d b"
| "happen poll_seconds Rebuild b = start_legacy_backfill b"
| "happen poll_seconds Rebuilt b = b\<lparr>bg_rebuilding := False\<rparr>"
| "happen poll_seconds Stop b = b\<lparr>bg_stopped := True\<rparr>"

section \<open>The cache warmer\<close>

definition WARM_JOBS :: "(string \<times> rat) list" where
  "WARM_JOBS = [(''metrics:dashboard'', 15), (''metrics:latest:slim'', 10), (''cockpit:cluster-gpus'', 15), (''cockpit:power-now'', 15),
     (''cluster:health-summary'', 15), (''cockpit:history:6'', 60), (''cockpit:history:24'', 60), (''cockpit:energy:7'', 300),
     (''cluster:gpu-analysis'', 300)]"

text \<open>One job: \<open>cached\<close> for a caller that is alone, on the memory backend; \<open>None\<close>: the computation raised.\<close>

definition cached_alone :: "rat \<Rightarrow> string \<Rightarrow> rat \<Rightarrow> 'v option \<Rightarrow> 'v mem_backend \<Rightarrow> 'v option \<times> 'v mem_backend" where
  "cached_alone now key ttl fn m =
     (case mem_get now key m of
        (Some hit, m') \<Rightarrow> (Some hit, m')
      | (None, m') \<Rightarrow> (case fn of None \<Rightarrow> (None, m') | Some v \<Rightarrow> (Some v, mem_set now key v ttl m')))"

text \<open>The jobs in some order; the first exception is raised after all have run, and logged by the loop.\<close>

definition warm_hot_keys :: "rat \<Rightarrow> (string \<Rightarrow> 'v option) \<Rightarrow> (string \<times> rat) list \<Rightarrow> 'v mem_backend \<Rightarrow> 'v mem_backend" where
  "warm_hot_keys now build jobs m = fold (\<lambda>(key, ttl) m. snd (cached_alone now key ttl (build key) m)) jobs m"

section \<open>Backends\<close>

datatype backend = Memory_Backend | Redis_Backend

record redis_options =
  ro_connect_timeout :: int
  ro_socket_timeout :: int
  ro_cert_required :: bool
  ro_check_hostname :: bool
  ro_ca :: "string option"

definition redis_options_of :: "settings \<Rightarrow> string \<Rightarrow> redis_options option" where
  "redis_options_of st url =
     map_option (\<lambda>u.
       if lower (scheme u) = ''rediss''
       then \<lparr>ro_connect_timeout = 2, ro_socket_timeout = 2, ro_cert_required = True, ro_check_hostname = True,
             ro_ca = (if strip (REDIS_SSL_CA st) \<noteq> [] then Some (strip (REDIS_SSL_CA st)) else None)\<rparr>
       else \<lparr>ro_connect_timeout = 2, ro_socket_timeout = 2, ro_cert_required = False, ro_check_hostname = False, ro_ca = None\<rparr>)
     (urlsplit url)"

text \<open>\<open>connects\<close>: does connecting with these options and the first ping succeed?  The backend chosen first stays.\<close>

definition get_backend :: "(string \<Rightarrow> redis_options \<Rightarrow> bool) \<Rightarrow> settings \<Rightarrow> backend option \<Rightarrow> backend" where
  "get_backend connects st chosen =
     (case chosen of
        Some b \<Rightarrow> b
      | None \<Rightarrow>
          let url = strip (REDIS_URL st)
          in if url = [] then Memory_Backend
             else case redis_options_of st url of
                    None \<Rightarrow> Memory_Backend
                  | Some opts \<Rightarrow> if connects url opts then Redis_Backend else Memory_Backend)"

text \<open>\<open>clear\<close> and \<open>invalidate_prefix\<close> on Redis: \<open>scan\<close> answers the keys that match a pattern.\<close>

definition redis_clear :: "(string \<Rightarrow> string list) \<Rightarrow> (string, 'v) dict \<Rightarrow> (string, 'v) dict" where
  "redis_clear scan store = fold AList.delete (scan (KEY_PREFIX @ ''*'')) store"

definition redis_invalidate_prefix :: "(string \<Rightarrow> string list) \<Rightarrow> string \<Rightarrow> (string, 'v) dict \<Rightarrow> (string, 'v) dict" where
  "redis_invalidate_prefix scan pre store = fold AList.delete (scan (KEY_PREFIX @ pre @ ''*'')) store"

section \<open>Commands over an open connection\<close>

text \<open>What one look at the channel sees: is the exit status there, is the channel closed, what time is it?\<close>

record look =
  lk_ready :: bool
  lk_closed :: bool
  lk_now :: time

text \<open>The wait for the exit status, from the \<open>k\<close>-th look on; a wait that never ends is \<open>None\<close>.\<close>

partial_function (option) recv_exit_status :: "(nat \<Rightarrow> look) \<Rightarrow> time \<Rightarrow> int \<Rightarrow> nat \<Rightarrow> int option" where
  "recv_exit_status looks deadline status k =
     (if lk_ready (looks k) then Some status
      else if lk_closed (looks k) \<or> lk_now (looks k) > deadline then Some (- 1)
      else recv_exit_status looks deadline status (Suc k))"

declare recv_exit_status.simps [code]

definition MAX_OUTPUT_BYTES :: nat where "MAX_OUTPUT_BYTES = 2 * 1024 * 1024"

record channel =
  ch_stdout :: string
  ch_stderr :: string
  ch_looks :: "nat \<Rightarrow> look"
  ch_status :: int

text \<open>
  \<open>channel_of\<close> is what executing the command, with what is sent to its input, opens.
\<close>

definition run_remote :: "(string \<Rightarrow> string \<Rightarrow> channel) \<Rightarrow> string \<Rightarrow> time \<Rightarrow> (int \<times> string \<times> string) option" where
  "run_remote channel_of command timeout =
     (let ch = channel_of command [];
          out = decode_replace (take MAX_OUTPUT_BYTES (ch_stdout ch));
          err = decode_replace (take 65536 (ch_stderr ch))
      in map_option (\<lambda>status. (status, out, err)) (recv_exit_status (ch_looks ch) (lk_now (ch_looks ch 0) + timeout) (ch_status ch) 0))"

definition run_script :: "(string \<Rightarrow> string \<Rightarrow> channel) \<Rightarrow> string \<Rightarrow> time \<Rightarrow> (int \<times> string \<times> string) option" where
  "run_script channel_of script timeout =
     (let ch = channel_of ''bash -s'' script;
          out = decode_replace (take MAX_OUTPUT_BYTES (ch_stdout ch));
          err = decode_replace (take 65536 (ch_stderr ch))
      in map_option (\<lambda>status. (status, out, err)) (recv_exit_status (ch_looks ch) (lk_now (ch_looks ch 0) + timeout) (ch_status ch) 0))"

text \<open>The classes of keys are tried in turn; \<open>Inl\<close> is the last exception's text.\<close>

fun load_pkey :: "(string \<Rightarrow> string option \<Rightarrow> string + 'k) list \<Rightarrow> string \<Rightarrow> string \<Rightarrow> string \<Rightarrow> string + 'k" where
  "load_pkey [] pem phrase problem = Inl (''Cannot load private key: '' @ problem)"
| "load_pkey (from_private_key # classes) pem phrase problem =
     (case from_private_key pem (if phrase = [] then None else Some phrase) of
        Inr key \<Rightarrow> Inr key
      | Inl e \<Rightarrow> load_pkey classes pem phrase e)"

definition decrypt_creds :: "fernet \<Rightarrow> settings \<Rightarrow> server \<Rightarrow> http_error + string \<times> string \<times> string" where
  "decrypt_creds fer st s =
     (case (if s_auth_type s = ''password'' then decrypt_text fer st (s_password s) else Inr []) of
        Inl e \<Rightarrow> Inl e
      | Inr password \<Rightarrow>
          (case (if s_auth_type s = ''key'' then decrypt_text fer st (s_private_key s) else Inr []) of
             Inl e \<Rightarrow> Inl e
           | Inr private_key \<Rightarrow>
               (case (if s_auth_type s = ''key'' then decrypt_text fer st (s_passphrase s) else Inr []) of
                  Inl e \<Rightarrow> Inl e
                | Inr passphrase \<Rightarrow> Inr (password, private_key, passphrase))))"

section \<open>Each thread once\<close>

definition started_ok :: "background \<Rightarrow> bool" where
  "started_ok b \<longleftrightarrow>
     count_list (bg_threads b) ''gpumon-scheduler'' = (if bg_running b then 1 else 0) \<and>
     count_list (bg_threads b) ''gpumon-cache-warmer'' = (if bg_warmer b then 1 else 0) \<and>
     count_list (bg_threads b) ''gpumon-ipmi'' = (if bg_ipmi b then 1 else 0) \<and>
     (bg_running b \<longrightarrow> bg_warmer b \<and> bg_ipmi b)"

lemma started_ok_step: "started_ok b \<Longrightarrow> started_ok (happen poll_seconds e b)"
  by (cases e)
    (auto simp: started_ok_def start_scheduler_def start_cache_warmer_def start_ipmi_loop_def start_legacy_backfill_def spawn_def)

text \<open>
  However often and in whatever order the application is started, rebuilds are asked for and the stop event is set: there is never more than
  one scheduler, one warmer and one IPMI loop, a running scheduler has the two classes beside it, and it polls at the stored interval.
\<close>

theorem background_threads_start_once:
  assumes "b = fold (happen poll_seconds) events (nothing_started poll_seconds)"
  shows "count_list (bg_threads b) ''gpumon-scheduler'' \<le> 1 \<and> count_list (bg_threads b) ''gpumon-cache-warmer'' \<le> 1 \<and>
    count_list (bg_threads b) ''gpumon-ipmi'' \<le> 1 \<and>
    (Start d \<in> set events \<longrightarrow> set [''gpumon-scheduler'', ''gpumon-cache-warmer'', ''gpumon-ipmi''] \<subseteq> set (bg_threads b))"
proof -
  have ok: "started_ok (nothing_started poll_seconds)" by (simp add: started_ok_def nothing_started_def)
  have keeps: "started_ok c \<Longrightarrow> started_ok (fold (happen poll_seconds) es c)" for es c
    by (induction es arbitrary: c) (simp_all add: started_ok_step)
  have running: "bg_running (happen poll_seconds e c) \<longleftrightarrow> bg_running c \<or> (\<exists>d. e = Start d)" for e c
    by (cases e) (auto simp: start_scheduler_def start_cache_warmer_def start_ipmi_loop_def start_legacy_backfill_def spawn_def)
  have runs: "bg_running (fold (happen poll_seconds) es c) \<longleftrightarrow> bg_running c \<or> (\<exists>d. Start d \<in> set es)" for es c
    by (induction es arbitrary: c) (auto simp: running)
  have b: "started_ok b" unfolding assms by (rule keeps [OF ok])
  moreover have "set [''gpumon-scheduler'', ''gpumon-cache-warmer'', ''gpumon-ipmi''] \<subseteq> set (bg_threads b)" if "Start d \<in> set events"
  proof -
    have "bg_running b" unfolding assms runs using that by blast
    then have "count_list (bg_threads b) t \<noteq> 0" if "t \<in> {''gpumon-scheduler'', ''gpumon-cache-warmer'', ''gpumon-ipmi''}" for t
      using b that by (auto simp: started_ok_def)
    then show ?thesis by (auto simp: count_list_0_iff)
  qed
  ultimately show ?thesis by (auto simp: started_ok_def)
qed

theorem background_threads_start_once_witness:
  "\<exists>b. b = fold (happen 60) [Rebuild, Start empty_db, Start empty_db] (nothing_started 60) \<and>
     set [''gpumon-scheduler'', ''gpumon-cache-warmer'', ''gpumon-ipmi''] \<subseteq> set (bg_threads b) \<and>
     count_list (bg_threads b) ''gpumon-scheduler'' \<le> 1"
proof -
  let ?b = "fold (happen 60) [Rebuild, Start empty_db, Start empty_db] (nothing_started 60)"
  have "Start empty_db \<in> set [Rebuild, Start empty_db, Start empty_db]" by simp
  then show ?thesis using background_threads_start_once [OF refl, of 60 "[Rebuild, Start empty_db, Start empty_db]" empty_db] by blast
qed

section \<open>The wait for an exit status ends\<close>

text \<open>A pause of a tenth of a second between two looks.\<close>

definition TENTH :: time where "TENTH = seconds 1 div 10"

lemma clock_runs: "(\<And>k. lk_now (looks k) + TENTH \<le> lk_now (looks (Suc k))) \<Longrightarrow> lk_now (looks 0) + int k * TENTH \<le> lk_now (looks k)"
proof (induction k)
  case (Suc k)
  have "int (Suc k) * TENTH = int k * TENTH + TENTH" by (simp add: algebra_simps)
  with Suc.IH [OF Suc.prems] Suc.prems [of k] show ?case by linarith
qed simp

definition ends_at :: "(nat \<Rightarrow> look) \<Rightarrow> time \<Rightarrow> nat \<Rightarrow> bool" where
  "ends_at looks deadline k \<longleftrightarrow> lk_ready (looks k) \<or> lk_closed (looks k) \<or> lk_now (looks k) > deadline"

lemma wait_ends:
  "ends_at looks deadline (k + n) \<Longrightarrow> (\<And>i. i < n \<Longrightarrow> \<not> ends_at looks deadline (k + i)) \<Longrightarrow>
     recv_exit_status looks deadline status k = Some (if lk_ready (looks (k + n)) then status else - 1)"
proof (induction n arbitrary: k)
  case 0
  then show ?case by (subst recv_exit_status.simps) (auto simp: ends_at_def)
next
  case (Suc n)
  have "\<not> ends_at looks deadline k" using Suc.prems(2) [of 0] by simp
  moreover have "recv_exit_status looks deadline status (Suc k) = Some (if lk_ready (looks (Suc k + n)) then status else - 1)"
  proof (rule Suc.IH)
    show "ends_at looks deadline (Suc k + n)" using Suc.prems(1) by simp
    show "\<not> ends_at looks deadline (Suc k + i)" if "i < n" for i using Suc.prems(2) [of "Suc i"] that by simp
  qed
  ultimately show ?case by (subst recv_exit_status.simps) (simp add: ends_at_def)
qed

text \<open>
  C40.  While the clock moves on by the pause between two looks, the wait for the exit status of a command ends: after at most ten looks per
  second of the timeout, and two more, with the status, or with -1 when the channel was closed or the time is over.
\<close>

theorem exit_status_wait_ends:
  assumes "\<And>k. lk_now (looks k) + TENTH \<le> lk_now (looks (Suc k))" and "0 \<le> timeout"
  shows "\<exists>n. int n \<le> timeout div TENTH + 1 \<and> (\<forall>i<n. \<not> lk_ready (looks i) \<and> \<not> lk_closed (looks i)) \<and>
    recv_exit_status looks (lk_now (looks 0) + timeout) status 0 = Some (if lk_ready (looks n) then status else - 1)"
proof -
  let ?deadline = "lk_now (looks 0) + timeout"
  define m where "m = nat (timeout div TENTH + 1)"
  have tenth: "TENTH > 0" by (simp add: TENTH_def seconds_def)
  have "timeout < int m * TENTH"
  proof -
    have m: "int m = timeout div TENTH + 1" using assms(2) tenth by (simp add: m_def pos_imp_zdiv_nonneg_iff)
    have "timeout = TENTH * (timeout div TENTH) + timeout mod TENTH" "timeout mod TENTH < TENTH" using tenth by simp_all
    moreover have "(timeout div TENTH + 1) * TENTH = TENTH * (timeout div TENTH) + TENTH" by (simp add: algebra_simps)
    ultimately show ?thesis unfolding m by linarith
  qed
  then have last: "ends_at looks ?deadline m" using clock_runs [of looks, OF assms(1), of m] by (simp add: ends_at_def)
  define n where "n = (LEAST k. ends_at looks ?deadline k)"
  have n: "ends_at looks ?deadline n" "\<And>i. i < n \<Longrightarrow> \<not> ends_at looks ?deadline i" "n \<le> m"
    unfolding n_def using last by (auto intro: LeastI Least_le dest: not_less_Least)
  then have "recv_exit_status looks ?deadline status 0 = Some (if lk_ready (looks n) then status else - 1)"
    using wait_ends [of looks ?deadline 0 n status] by simp
  moreover have "int n \<le> timeout div TENTH + 1"
    using n(3) assms(2) tenth by (simp add: m_def pos_imp_zdiv_nonneg_iff le_nat_iff)
  moreover have "\<forall>i<n. \<not> lk_ready (looks i) \<and> \<not> lk_closed (looks i)" using n(2) by (auto simp: ends_at_def)
  ultimately show ?thesis by blast
qed

definition silent :: "nat \<Rightarrow> look" where
  "silent k = \<lparr>lk_ready = False, lk_closed = False, lk_now = int k * TENTH\<rparr>"

theorem exit_status_wait_ends_witness: "recv_exit_status silent (seconds 15) 0 0 = Some (- 1)"
  using exit_status_wait_ends [of silent "seconds 15" 0] by (simp add: silent_def seconds_def algebra_simps)

section \<open>Backends and keys\<close>

text \<open>The backend chosen first is kept, whatever the settings or the server say later; Redis over TLS is always verified.\<close>

lemma backend_stays: "get_backend connects' st' (Some (get_backend connects st chosen)) = get_backend connects st chosen"
  by (simp add: get_backend_def)

lemma redis_tls_verified:
  "get_backend connects st None = Redis_Backend \<Longrightarrow> \<exists>opts. redis_options_of st (strip (REDIS_URL st)) = Some opts \<and>
     connects (strip (REDIS_URL st)) opts \<and>
     ((\<exists>u. urlsplit (strip (REDIS_URL st)) = Some u \<and> lower (scheme u) = ''rediss'') \<longrightarrow> ro_cert_required opts \<and> ro_check_hostname opts)"
  by (auto simp: get_backend_def redis_options_of_def Let_def split: if_splits option.splits)

text \<open>Warming leaves an entry that is still fresh as it is, and a job that is alone stores what it built.\<close>

lemma warm_keeps_fresh: "mem_get now key m = (Some hit, m') \<Longrightarrow> cached_alone now key ttl fn m = (Some hit, m)"
  by (auto simp: cached_alone_def mem_get_def split: option.splits if_splits)

lemma warm_jobs_distinct: "distinct (map fst WARM_JOBS)"
  by (simp add: WARM_JOBS_def)

text \<open>Only the credentials of the server's own kind are decrypted.\<close>

lemma creds_of_kind: "decrypt_creds fer st s = Inr (password, private_key, passphrase) \<Longrightarrow>
    (password \<noteq> [] \<longrightarrow> s_auth_type s = ''password'') \<and> (private_key \<noteq> [] \<or> passphrase \<noteq> [] \<longrightarrow> s_auth_type s = ''key'')"
  by (auto simp: decrypt_creds_def split: sum.splits if_splits)

lemma loaded_key: "load_pkey classes pem phrase problem = Inr key \<Longrightarrow>
    \<exists>c\<in>set classes. c pem (if phrase = [] then None else Some phrase) = Inr key"
  by (induction classes arbitrary: problem) (auto split: sum.splits)

end
