(* ===== verification/IpmiApi.thy ===== *)
theory IpmiApi
  imports Servers Ipmi Json
begin

text \<open>
  \<open>backend/app/api/ipmi.py\<close>: the newest dump of a server's board controller with its summary, the course of its power draw, and
  a collection on demand, which is stored.  Running \<open>ipmitool\<close> is a parameter, as in theory Ipmi.
\<close>

section \<open>Reading\<close>

definition server_or_404 :: "db \<Rightarrow> int \<Rightarrow> http_error + server" where
  "server_or_404 d sid = (case server_by_id d sid of None \<Rightarrow> Inl server_not_found | Some s \<Rightarrow> Inr s)"

definition snapshots_of :: "db \<Rightarrow> int \<Rightarrow> ipmi_snapshot list" where
  "snapshots_of d sid = filter (\<lambda>x. is_server_id x = sid) (d_ipmi d)"

text \<open>Is the tool there, and the newest dump with its summary.\<close>

definition ipmi_latest :: "bool \<Rightarrow> db \<Rightarrow> int \<Rightarrow> http_error + bool \<times> (ipmi_snapshot \<times> bmc_summary) option" where
  "ipmi_latest available d sid =
     map_sum id (\<lambda>_. (available, map_option (\<lambda>x. (x, summarize (is_data x))) (latest_by is_collected_at (snapshots_of d sid))))
       (server_or_404 d sid)"

record ipmi_point =
  ip_time :: time
  ip_ok :: bool
  ip_power_on :: bool
  ip_power_w :: int

definition ipmi_point_of :: "ipmi_snapshot \<Rightarrow> ipmi_point" where
  "ipmi_point_of x =
     (let summ = summarize ((no_bmc_data [])\<lparr>bm_chassis := bm_chassis (is_data x), bm_power := bm_power (is_data x)\<rparr>)
      in \<lparr>ip_time = is_collected_at x, ip_ok = bm_ok (is_data x), ip_power_on = sm_power_on summ, ip_power_w = sm_power_w summ\<rparr>)"

definition ipmi_history :: "time \<Rightarrow> db \<Rightarrow> int \<Rightarrow> int \<Rightarrow> http_error + ipmi_point list" where
  "ipmi_history now d sid n =
     (if n < 1 \<or> n > 720 then Inl unprocessable
      else map_sum id (\<lambda>_. map ipmi_point_of (order_by is_collected_at
             (filter (\<lambda>x. is_collected_at x \<ge> now - hours n) (snapshots_of d sid)))) (server_or_404 d sid))"

section \<open>Collecting on demand\<close>

definition NO_BMC_HOST :: string where
  "NO_BMC_HOST = utf8 [232, 175, 165, 230, 156, 141, 229, 138, 161, 229, 153, 168, 230, 156, 170, 233, 133, 141, 231, 189, 174] @ '' BMC '' @
     utf8 [229, 184, 166, 229, 164, 150, 231, 174, 161, 231, 144, 134, 229, 156, 176, 229, 157, 128]"

definition bmc_creds :: "fernet \<Rightarrow> settings \<Rightarrow> server \<Rightarrow> http_error + string \<times> string \<times> string" where
  "bmc_creds fer st s =
     (if s_bmc_host s = [] then Inl (HTTPException 400 NO_BMC_HOST)
      else map_sum id (\<lambda>pwd. (s_bmc_host s, s_bmc_user s, pwd)) (decrypt_text fer st (s_bmc_password s)))"

record ipmi_test_result =
  it_ok :: bool
  it_error :: string
  it_duration :: rat
  it_summary :: bmc_summary
  it_snapshot :: ipmi_snapshot

text \<open>A first command that raises leaves the handler as an exception, before anything is stored.\<close>

definition ipmi_test ::
    "fernet \<Rightarrow> settings \<Rightarrow> bool \<Rightarrow> (string \<Rightarrow> string \<Rightarrow> string \<Rightarrow> string list \<Rightarrow> run_result) \<Rightarrow> time \<Rightarrow> rat \<Rightarrow> string \<Rightarrow> int \<Rightarrow> db \<Rightarrow>
       (http_error + ipmi_test_result) \<times> db" where
  "ipmi_test fer st available run now elapsed admin sid d =
     (case server_or_404 d sid of
        Inl e \<Rightarrow> (Inl e, d)
      | Inr s \<Rightarrow>
          (case bmc_creds fer st s of
             Inl e \<Rightarrow> (Inl e, d)
           | Inr (host, user, pwd) \<Rightarrow>
               (case collect_ipmi available (run host user pwd) of
                  None \<Rightarrow> (Inl (Crash ''TimeoutExpired''), d)
                | Some res \<Rightarrow>
                    let snap = snapshot_of now (s_id s) res elapsed;
                        row = \<lparr>a_ts = now, a_username = admin, a_action = ''ipmi.test'',
                               a_detail = s_name s @ '': '' @ (if bm_ok res then ''ok'' else clip 200 (bm_error res))\<rparr>
                    in (Inr \<lparr>it_ok = bm_ok res, it_error = bm_error res, it_duration = elapsed, it_summary = summarize res, it_snapshot = snap\<rparr>,
                        d\<lparr>d_ipmi := d_ipmi d @ [snap], d_audit := d_audit d @ [row]\<rparr>))))"

section \<open>A collection on demand is what the readers then show\<close>

lemma latest_by_snoc: "\<forall>y\<in>set xs. t y < t x \<Longrightarrow> latest_by t (xs @ [x]) = Some x"
  by (induction xs) (auto simp: not_le)

lemma insort_snoc: "t y < (t x :: 'b::linorder) \<Longrightarrow> insort_key t y (zs @ [x]) = insort_key t y zs @ [x]"
  by (induction zs) auto

lemma order_by_snoc: "\<forall>y\<in>set xs. (t y :: 'b::linorder) < t x \<Longrightarrow> order_by t (xs @ [x]) = order_by t xs @ [x]"
  unfolding order_by_def by (induction xs) (simp_all add: insort_snoc)

lemma point_of_snapshot:
  "ipmi_point_of (snapshot_of now sid res elapsed) =
     \<lparr>ip_time = now, ip_ok = bm_ok res, ip_power_on = sm_power_on (summarize res), ip_power_w = sm_power_w (summarize res)\<rparr>"
  by (simp add: ipmi_point_of_def snapshot_of_def summarize_def Let_def)

text \<open>
  A collection on demand that succeeds stores one dump and one audit row and nothing else; the dump is then the newest, with the summary
  that was answered, and the last point of the history shows its state and its watts, which are the ones stored.
\<close>

theorem tested_controller_is_shown:
  assumes "ipmi_test fer st available run now elapsed admin sid d = (Inr r, d')"
    and "\<forall>x\<in>set (d_ipmi d). is_collected_at x < now" and "1 \<le> n" and "n \<le> 720"
  shows "ipmi_latest there d' sid = Inr (there, Some (it_snapshot r, it_summary r)) \<and>
    (\<exists>before. ipmi_history now d' sid n = Inr (before @ [\<lparr>ip_time = now, ip_ok = it_ok r, ip_power_on = sm_power_on (it_summary r),
       ip_power_w = sm_power_w (it_summary r)\<rparr>]) \<and> ipmi_history now d sid n = Inr before) \<and>
    is_power_w (it_snapshot r) = of_int (sm_power_w (it_summary r)) \<and>
    (\<exists>row. d' = d\<lparr>d_ipmi := d_ipmi d @ [it_snapshot r], d_audit := d_audit d @ [row]\<rparr> \<and> a_username row = admin)"
proof -
  obtain s res row where s: "server_by_id d sid = Some s"
    and r: "it_ok r = bm_ok res" "it_summary r = summarize res" "it_snapshot r = snapshot_of now (s_id s) res elapsed"
    and d': "d' = d\<lparr>d_ipmi := d_ipmi d @ [it_snapshot r], d_audit := d_audit d @ [row]\<rparr>" "a_username row = admin"
    using assms(1) by (auto simp: ipmi_test_def server_or_404_def Let_def split: option.splits sum.splits prod.splits)
  have sid: "s_id s = sid" using s by (auto simp: server_by_id_def find_Some_iff)
  have s': "server_by_id d' sid = Some s" using s by (simp add: d' server_by_id_def)
  have snaps: "snapshots_of d' sid = snapshots_of d sid @ [it_snapshot r]" "is_collected_at (it_snapshot r) = now"
    using sid by (simp_all add: snapshots_of_def d' r(3) snapshot_of_def)
  have older: "\<forall>x\<in>set (snapshots_of d sid). is_collected_at x < is_collected_at (it_snapshot r)"
    using assms(2) snaps(2) by (simp add: snapshots_of_def)
  have "ipmi_latest there d' sid = Inr (there, Some (it_snapshot r, it_summary r))"
    using latest_by_snoc [OF older] by (simp add: ipmi_latest_def server_or_404_def s' snaps(1) r(2,3)) (simp add: snapshot_of_def)
  moreover have "order_by is_collected_at (filter (\<lambda>x. is_collected_at x \<ge> now - hours n) (snapshots_of d' sid)) =
      order_by is_collected_at (filter (\<lambda>x. is_collected_at x \<ge> now - hours n) (snapshots_of d sid)) @ [it_snapshot r]"
  proof -
    have "now - hours n \<le> now" using assms(3) by (simp add: hours_def)
    then show ?thesis using older order_by_snoc [of "filter (\<lambda>x. is_collected_at x \<ge> now - hours n) (snapshots_of d sid)" is_collected_at "it_snapshot r"]
      by (simp add: snaps)
  qed
  then have "\<exists>before. ipmi_history now d' sid n = Inr (before @ [\<lparr>ip_time = now, ip_ok = it_ok r, ip_power_on = sm_power_on (it_summary r),
       ip_power_w = sm_power_w (it_summary r)\<rparr>]) \<and> ipmi_history now d sid n = Inr before"
    using assms(3,4) s s' by (simp add: ipmi_history_def server_or_404_def r point_of_snapshot)
  moreover have "is_power_w (it_snapshot r) = of_int (sm_power_w (it_summary r))" by (simp add: r snapshot_of_def)
  ultimately show ?thesis using d' by blast
qed

definition bmc_server :: db where
  "bmc_server = empty_db\<lparr>d_servers := [demo_server\<lparr>s_bmc_host := ''10.0.0.9''\<rparr>]\<rparr>"

definition bmc_run :: "string \<Rightarrow> string \<Rightarrow> string \<Rightarrow> string list \<Rightarrow> run_result" where
  "bmc_run host user pwd args = Exit 0 (if hd args = ''chassis'' then ''System Power : on'' else []) []"

theorem tested_controller_is_shown_witness:
  "\<exists>r d'. ipmi_test tagging default_settings True bmc_run (hours 5) 1 ''root'' 1 bmc_server = (Inr r, d') \<and>
     ipmi_latest True d' 1 = Inr (True, Some (it_snapshot r, it_summary r)) \<and> sm_power_on (it_summary r)"
proof -
  have "case fst (ipmi_test tagging default_settings True bmc_run (hours 5) 1 ''root'' 1 bmc_server) of
      Inl e \<Rightarrow> False | Inr r \<Rightarrow> sm_power_on (it_summary r)" by code_simp
  then obtain r d' where run: "ipmi_test tagging default_settings True bmc_run (hours 5) 1 ''root'' 1 bmc_server = (Inr r, d')"
    and on: "sm_power_on (it_summary r)"
    by (cases "ipmi_test tagging default_settings True bmc_run (hours 5) 1 ''root'' 1 bmc_server") (auto split: sum.splits)
  have "\<forall>x\<in>set (d_ipmi bmc_server). is_collected_at x < hours 5" by (simp add: bmc_server_def empty_db_def)
  from tested_controller_is_shown [OF run this, of 1] run on show ?thesis by auto
qed

end
