(* ===== verification/SqliteImport.thy ===== *)
theory SqliteImport
  imports ArchiveFiles "HOL-Library.Sublist"
begin

text \<open>
  The one-off import of an old SQLite file, \<open>backend/app/import_sqlite.py\<close>.  SQLite's cells are dynamically typed: a row is a
  dictionary from column names to cells, and storing a cell in a typed column is a parameter, as is reading a JSON text.  An
  exception is \<open>None\<close>; what was committed before it stays.  References between the imported tables are taken to hold.
\<close>

section \<open>Cells and rows\<close>

datatype sql_cell = Null | Integer int | Real rat | Text string

type_synonym sql_row = "(string, sql_cell) dict"

text \<open>Columns of the target: how a cell is stored in each type, and the JSON texts.\<close>

record conversions =
  cv_text :: "sql_cell \<Rightarrow> string"
  cv_int :: "sql_cell \<Rightarrow> int"
  cv_real :: "sql_cell \<Rightarrow> rat"
  cv_time :: "sql_cell \<Rightarrow> time"
  cv_tags :: "sql_cell \<Rightarrow> string list option"
  cv_cores :: "sql_cell \<Rightarrow> (int \<times> rat \<times> int \<times> rat) list option"
  cv_disks :: "sql_cell \<Rightarrow> disk list option"
  cv_disk_io :: "sql_cell \<Rightarrow> disk_rate list option"
  cv_net_ifaces :: "sql_cell \<Rightarrow> net_rate list option"
  cv_json :: "sql_cell \<Rightarrow> json list option"
  cv_gpus :: "sql_cell \<Rightarrow> gpu list option"
  cv_auth_id :: "int \<Rightarrow> string"

fun cell_truthy :: "sql_cell \<Rightarrow> bool" where
  "cell_truthy Null \<longleftrightarrow> False"
| "cell_truthy (Integer i) \<longleftrightarrow> i \<noteq> 0"
| "cell_truthy (Real q) \<longleftrightarrow> q \<noteq> 0"
| "cell_truthy (Text s) \<longleftrightarrow> s \<noteq> []"

text \<open>\<open>row[k]\<close> raises when the column is missing; \<open>row.get(k) or default\<close> does not; \<open>bool(row.get(k, n))\<close>.\<close>

definition column :: "sql_row \<Rightarrow> string \<Rightarrow> sql_cell option" where "column row k = map_of row k"

definition got_or :: "sql_row \<Rightarrow> string \<Rightarrow> sql_cell \<Rightarrow> sql_cell" where
  "got_or row k dflt = (case map_of row k of Some c \<Rightarrow> if cell_truthy c then c else dflt | None \<Rightarrow> dflt)"

definition got_flag :: "sql_row \<Rightarrow> string \<Rightarrow> int \<Rightarrow> bool" where
  "got_flag row k n \<longleftrightarrow> cell_truthy (the_default (Integer n) (map_of row k))"

text \<open>\<open>json.loads(row[k]) if row.get(k) else []\<close>.\<close>

definition got_list :: "(sql_cell \<Rightarrow> 'a list option) \<Rightarrow> sql_row \<Rightarrow> string \<Rightarrow> 'a list option" where
  "got_list loads row k = (if cell_truthy (got_or row k Null) then loads (got_or row k Null) else Some [])"

text \<open>The rows a table adds: a row may raise, be left out, or make a new one.\<close>

definition added :: "('r \<Rightarrow> 'x option option) \<Rightarrow> 'r list \<Rightarrow> 'x list option" where
  "added f rows = map_option (List.map_filter id) (all_or_raise f rows)"

definition IMPORT_TABLES :: "string set" where
  "IMPORT_TABLES = {''settings'', ''users'', ''servers'', ''alert_rules'', ''alert_events'', ''audit_logs'', ''server_metrics''}"

definition fetch_all :: "(string \<Rightarrow> sql_row list) \<Rightarrow> string \<Rightarrow> sql_row list option" where
  "fetch_all source table = (if table \<in> IMPORT_TABLES then Some (source table) else None)"

section \<open>Row by row\<close>

definition setting_row :: "conversions \<Rightarrow> db \<Rightarrow> sql_row \<Rightarrow> (string \<times> string) option option" where
  "setting_row cv d row =
     do { key \<leftarrow> column row ''key'';
          if map_of (d_settings d) (cv_text cv key) \<noteq> None then Some None
          else do { v \<leftarrow> column row ''value'';
                    Some (Some (cv_text cv key, cv_text cv (if cell_truthy v then v else Text []))) } }"

definition user_row :: "conversions \<Rightarrow> time \<Rightarrow> db \<Rightarrow> sql_row \<Rightarrow> user option option" where
  "user_row cv now d row =
     do { name \<leftarrow> column row ''username'';
          if cv_text cv name \<in> u_username ` set (d_users d) then Some None
          else do { i \<leftarrow> column row ''id'';
                    hash \<leftarrow> column row ''password_hash'';
                    Some (Some \<lparr>u_id = cv_int cv i, u_username = cv_text cv name, u_password_hash = cv_text cv hash,
                      u_display_name = cv_text cv (got_or row ''display_name'' (Text [])), u_email = cv_text cv (got_or row ''email'' (Text [])),
                      u_role = cv_text cv (got_or row ''role'' (Text ''viewer'')), u_is_active = got_flag row ''is_active'' 1,
                      u_auth_id = cv_auth_id cv (cv_int cv i), u_token_version = 1, u_mfa_secret = [], u_mfa_confirmed = False,
                      u_mfa_last_counter = - 1, u_created_at = now\<rparr>) } }"

definition server_row :: "conversions \<Rightarrow> time \<Rightarrow> db \<Rightarrow> sql_row \<Rightarrow> server option option" where
  "server_row cv now d row =
     do { i \<leftarrow> column row ''id'';
          if cv_int cv i \<in> s_id ` set (d_servers d) then Some None
          else do { name \<leftarrow> column row ''name''; host \<leftarrow> column row ''host''; port \<leftarrow> column row ''port'';
                    username \<leftarrow> column row ''username'';
                    server_tags \<leftarrow> got_list (cv_tags cv) row ''tags'';
                    Some (Some \<lparr>s_id = cv_int cv i, s_name = cv_text cv name, s_host = cv_text cv host, s_port = cv_int cv port,
                      s_auth_type = cv_text cv (got_or row ''auth_type'' (Text ''password'')), s_username = cv_text cv username,
                      s_password = cv_text cv (got_or row ''password'' (Text [])), s_private_key = cv_text cv (got_or row ''private_key'' (Text [])),
                      s_passphrase = cv_text cv (got_or row ''passphrase'' (Text [])), s_bmc_host = [], s_bmc_user = [], s_bmc_password = [],
                      s_enabled = got_flag row ''enabled'' 1, s_server_type = ''gpu'', s_tags = server_tags,
                      s_note = cv_text cv (got_or row ''note'' (Text [])), s_expected_gpu_count = 0, s_status = Some ''active'',
                      s_status_reason = [], s_status_until = None, s_created_at = now, s_updated_at = now\<rparr>) } }"

definition optional_int :: "conversions \<Rightarrow> sql_row \<Rightarrow> string \<Rightarrow> int option" where
  "optional_int cv row k = (case map_of row k of None \<Rightarrow> None | Some Null \<Rightarrow> None | Some c \<Rightarrow> Some (cv_int cv c))"

definition rule_row :: "conversions \<Rightarrow> time \<Rightarrow> db \<Rightarrow> sql_row \<Rightarrow> alert_rule option option" where
  "rule_row cv now d row =
     do { i \<leftarrow> column row ''id'';
          if cv_int cv i \<in> r_id ` set (d_rules d) then Some None
          else do { name \<leftarrow> column row ''name''; metric \<leftarrow> column row ''metric''; op_text \<leftarrow> column row ''op'';
                    threshold \<leftarrow> column row ''threshold'';
                    Some (Some \<lparr>r_id = cv_int cv i, r_name = cv_text cv name, r_metric = cv_text cv metric, r_op = cv_text cv op_text,
                      r_threshold = cv_real cv threshold, r_duration_minutes = cv_int cv (got_or row ''duration_minutes'' (Integer 0)),
                      r_server_id = optional_int cv row ''server_id'', r_enabled = got_flag row ''enabled'' 1, r_created_at = now\<rparr>) } }"

text \<open>What the check for present events and samples compares: cells of SQLite with values of the target.\<close>

datatype py_value = Cell sql_cell | Datetime time

definition existing_events :: "db \<Rightarrow> (py_value \<times> py_value \<times> py_value) set" where
  "existing_events d = (\<lambda>e. (Cell (Integer (e_server_id e)), Cell (Text (e_metric e)), Datetime (e_triggered_at e))) ` set (d_events d)"

definition existing_metrics :: "db \<Rightarrow> (py_value \<times> py_value) set" where
  "existing_metrics d = (\<lambda>m. (Cell (Integer (m_server_id m)), Datetime (m_collected_at m))) ` set (d_metrics d)"

definition event_row :: "conversions \<Rightarrow> db \<Rightarrow> sql_row \<Rightarrow> alert_event option option" where
  "event_row cv d row =
     do { sid \<leftarrow> column row ''server_id''; metric \<leftarrow> column row ''metric''; triggered \<leftarrow> column row ''triggered_at'';
          if (Cell sid, Cell metric, Cell triggered) \<in> existing_events d then Some None
          else Some (Some \<lparr>e_id = 0, e_rule_id = optional_int cv row ''rule_id'', e_rule_name = cv_text cv (got_or row ''rule_name'' (Text [])),
                 e_server_id = cv_int cv sid, e_server_name = cv_text cv (got_or row ''server_name'' (Text [])), e_metric = cv_text cv metric,
                 e_value = cv_real cv (got_or row ''value'' (Integer 0)), e_threshold = cv_real cv (got_or row ''threshold'' (Integer 0)),
                 e_message = cv_text cv (got_or row ''message'' (Text [])), e_triggered_at = cv_time cv triggered,
                 e_recovered_at = (case map_of row ''recovered_at'' of None \<Rightarrow> None | Some Null \<Rightarrow> None | Some c \<Rightarrow> Some (cv_time cv c)),
                 e_acked_at = None, e_acked_by = [], e_assignee = [], e_notified = got_flag row ''notified'' 0\<rparr>) }"

definition audit_row_of :: "conversions \<Rightarrow> sql_row \<Rightarrow> audit_log option option" where
  "audit_row_of cv row =
     do { ts \<leftarrow> column row ''ts'';
          Some (Some \<lparr>a_ts = cv_time cv ts, a_username = cv_text cv (got_or row ''username'' (Text [])),
            a_action = cv_text cv (got_or row ''action'' (Text [])), a_detail = cv_text cv (got_or row ''detail'' (Text []))\<rparr>) }"

text \<open>A sample with everything the code leaves out at its column's default.\<close>

definition blank_metric :: "int \<Rightarrow> time \<Rightarrow> metric" where
  "blank_metric sid t =
     \<lparr>m_id = 0, m_server_id = sid, m_collected_at = t, m_sample_interval_seconds = None, m_hostname = [], m_os = [], m_kernel = [],
      m_uptime_seconds = 0, m_boot_id = [], m_cpu_model = [], m_cpu_count = 0, m_cpu_percent = 0, m_cpu_iowait = Some 0, m_cpu_freq_avg = 0,
      m_cpu_temp_package = 0, m_cores = [], m_load1 = 0, m_load5 = 0, m_load15 = 0, m_mem_total_mb = 0, m_mem_used_mb = 0,
      m_mem_available_mb = 0, m_mem_cached_mb = 0, m_swap_total_mb = 0, m_swap_used_mb = 0, m_disk_total_gb = 0, m_disk_used_gb = 0,
      m_disks = [], m_inodes = [], m_disk_io = [], m_net_rx_bytes = Some 0, m_net_tx_bytes = Some 0, m_net_ifaces = [], m_users = [],
      m_sock_estab = 0, m_sock_timewait = 0, m_fd_allocated = 0, m_fd_max = 0, m_gpu_count = 0, m_gpu_driver = [], m_gpus = [],
      m_processes = [], m_duration = 0, m_ssh_latency = 0, m_status = ''ok'', m_error_code = ''OK'', m_error = []\<rparr>"

definition real_or0 :: "conversions \<Rightarrow> sql_row \<Rightarrow> string \<Rightarrow> rat" where
  "real_or0 cv row k = cv_real cv (got_or row k (Integer 0))"

definition int_or0 :: "conversions \<Rightarrow> sql_row \<Rightarrow> string \<Rightarrow> int" where
  "int_or0 cv row k = cv_int cv (got_or row k (Integer 0))"

definition text_of_cell :: "conversions \<Rightarrow> sql_row \<Rightarrow> string \<Rightarrow> string \<Rightarrow> string" where
  "text_of_cell cv row k dflt = cv_text cv (got_or row k (Text dflt))"

definition imported_metric :: "conversions \<Rightarrow> db \<Rightarrow> sql_row \<Rightarrow> metric option option" where
  "imported_metric cv d row =
     do { sid \<leftarrow> column row ''server_id''; at_cell \<leftarrow> column row ''collected_at'';
          if (Cell sid, Cell at_cell) \<in> existing_metrics d then Some None
          else do { cores \<leftarrow> got_list (cv_cores cv) row ''cores''; disks \<leftarrow> got_list (cv_disks cv) row ''disks'';
                    disk_io \<leftarrow> got_list (cv_disk_io cv) row ''disk_io''; net_ifaces \<leftarrow> got_list (cv_net_ifaces cv) row ''net_ifaces'';
                    logins \<leftarrow> got_list (cv_json cv) row ''users''; gpus \<leftarrow> got_list (cv_gpus cv) row ''gpus'';
                    procs \<leftarrow> got_list (cv_json cv) row ''processes'';
                    Some (Some ((blank_metric (cv_int cv sid) (cv_time cv at_cell))
                      \<lparr>m_hostname := text_of_cell cv row ''hostname'' [], m_os := text_of_cell cv row ''os'' [], m_kernel := text_of_cell cv row ''kernel'' [],
                       m_uptime_seconds := int_or0 cv row ''uptime_seconds'', m_cpu_model := text_of_cell cv row ''cpu_model'' [],
                       m_cpu_count := int_or0 cv row ''cpu_count'', m_cpu_percent := real_or0 cv row ''cpu_percent'',
                       m_cpu_freq_avg := real_or0 cv row ''cpu_freq_avg'', m_cpu_temp_package := real_or0 cv row ''cpu_temp_package'',
                       m_cores := cores, m_load1 := real_or0 cv row ''load1'', m_load5 := real_or0 cv row ''load5'',
                       m_load15 := real_or0 cv row ''load15'', m_mem_total_mb := real_or0 cv row ''mem_total_mb'',
                       m_mem_used_mb := real_or0 cv row ''mem_used_mb'', m_mem_available_mb := real_or0 cv row ''mem_available_mb'',
                       m_mem_cached_mb := real_or0 cv row ''mem_cached_mb'', m_swap_total_mb := real_or0 cv row ''swap_total_mb'',
                       m_swap_used_mb := real_or0 cv row ''swap_used_mb'', m_disk_total_gb := real_or0 cv row ''disk_total_gb'',
                       m_disk_used_gb := real_or0 cv row ''disk_used_gb'', m_disks := disks, m_disk_io := disk_io,
                       m_net_rx_bytes := Some (real_or0 cv row ''net_rx_bytes''), m_net_tx_bytes := Some (real_or0 cv row ''net_tx_bytes''),
                       m_net_ifaces := net_ifaces, m_users := logins, m_gpu_count := int_or0 cv row ''gpu_count'',
                       m_gpu_driver := text_of_cell cv row ''gpu_driver'' [], m_gpus := gpus, m_processes := procs,
                       m_duration := real_or0 cv row ''duration'', m_status := text_of_cell cv row ''status'' ''ok'',
                       m_error := text_of_cell cv row ''error'' []\<rparr>)) } }"

section \<open>Table by table\<close>

text \<open>The result counts what was imported; the database is what has been committed.\<close>

type_synonym 'a imported = "'a option \<times> db"

definition import_settings :: "conversions \<Rightarrow> sql_row list \<Rightarrow> db \<Rightarrow> nat imported" where
  "import_settings cv rows d =
     (case added (setting_row cv d) rows of
        None \<Rightarrow> (None, d)
      | Some new \<Rightarrow> (Some (length rows), d\<lparr>d_settings := d_settings d @ new\<rparr>))"

text \<open>A user whose id is taken violates the primary key: nothing of the table is committed, and the import ends.\<close>

definition import_users :: "conversions \<Rightarrow> time \<Rightarrow> sql_row list \<Rightarrow> db \<Rightarrow> nat imported" where
  "import_users cv now rows d =
     (case added (user_row cv now d) rows of
        None \<Rightarrow> (None, d)
      | Some new \<Rightarrow>
          if list_ex (\<lambda>u. u_id u \<in> u_id ` set (d_users d)) new then (None, d)
          else (Some (length new), d\<lparr>d_users := d_users d @ new\<rparr>))"

definition import_servers :: "conversions \<Rightarrow> time \<Rightarrow> sql_row list \<Rightarrow> db \<Rightarrow> nat imported" where
  "import_servers cv now rows d =
     (case added (server_row cv now d) rows of
        None \<Rightarrow> (None, d)
      | Some new \<Rightarrow> (Some (length new), d\<lparr>d_servers := d_servers d @ new\<rparr>))"

definition import_rules :: "conversions \<Rightarrow> time \<Rightarrow> sql_row list \<Rightarrow> db \<Rightarrow> nat imported" where
  "import_rules cv now rows d =
     (case added (rule_row cv now d) rows of
        None \<Rightarrow> (None, d)
      | Some new \<Rightarrow> (Some (length new), d\<lparr>d_rules := d_rules d @ new\<rparr>))"

definition save_event :: "alert_event \<Rightarrow> db \<Rightarrow> db" where
  "save_event e d = d\<lparr>d_events := d_events d @ [e\<lparr>e_id := next_event_id d\<rparr>]\<rparr>"

definition import_events :: "conversions \<Rightarrow> sql_row list \<Rightarrow> db \<Rightarrow> nat imported" where
  "import_events cv rows d =
     (case added (event_row cv d) rows of
        None \<Rightarrow> (None, d)
      | Some new \<Rightarrow> (Some (length new), fold save_event new d))"

definition import_audit :: "conversions \<Rightarrow> sql_row list \<Rightarrow> db \<Rightarrow> nat imported" where
  "import_audit cv rows d =
     (case added (audit_row_of cv) rows of
        None \<Rightarrow> (None, d)
      | Some new \<Rightarrow> (Some (length new), d\<lparr>d_audit := d_audit d @ new\<rparr>))"

definition IMPORT_CHUNK :: nat where "IMPORT_CHUNK = 200"

text \<open>The samples in chunks; which are present was read once, in \<open>d0\<close>.\<close>

fun import_metrics :: "conversions \<Rightarrow> db \<Rightarrow> sql_row list \<Rightarrow> metric list \<Rightarrow> nat \<Rightarrow> db \<Rightarrow> nat imported" where
  "import_metrics cv d0 [] buffer n d = (Some n, if buffer = [] then d else save_batch buffer d)"
| "import_metrics cv d0 (row # rows) buffer n d =
     (case imported_metric cv d0 row of
        None \<Rightarrow> (None, d)
      | Some None \<Rightarrow> import_metrics cv d0 rows buffer n d
      | Some (Some m) \<Rightarrow>
          if length buffer + 1 \<ge> IMPORT_CHUNK then import_metrics cv d0 rows [] (n + 1) (save_batch (buffer @ [m]) d)
          else import_metrics cv d0 rows (buffer @ [m]) (n + 1) d)"

text \<open>One table after the other, each committed by itself, with the counts.\<close>

fun import_all :: "(db \<Rightarrow> nat imported) list \<Rightarrow> db \<Rightarrow> nat list imported" where
  "import_all [] d = (Some [], d)"
| "import_all (f # fs) d =
     (case f d of
        (None, d') \<Rightarrow> (None, d')
      | (Some n, d') \<Rightarrow> (case import_all fs d' of (r, d'') \<Rightarrow> (map_option (Cons n) r, d'')))"

definition import_from_sqlite ::
    "conversions \<Rightarrow> time \<Rightarrow> bool \<Rightarrow> (string \<Rightarrow> sql_row list) \<Rightarrow> bool \<Rightarrow> db \<Rightarrow> nat list imported" where
  "import_from_sqlite cv now is_mysql source with_history d =
     (if \<not> is_mysql then (None, d)
      else import_all
        ([import_settings cv (source ''settings''), import_users cv now (source ''users''), import_servers cv now (source ''servers''),
          import_rules cv now (source ''alert_rules''), import_events cv (source ''alert_events''), import_audit cv (source ''audit_logs'')] @
         (if with_history then [\<lambda>d. import_metrics cv d (source ''server_metrics'') [] 0 d] else [])) d)"

lemma approved_tables: "t \<in> IMPORT_TABLES \<Longrightarrow> fetch_all source t = Some (source t)"
  by (simp add: fetch_all_def)

section \<open>An import only adds rows\<close>

definition unimported :: "db \<Rightarrow> db" where
  "unimported d = d\<lparr>d_settings := [], d_users := [], d_servers := [], d_rules := [], d_events := [], d_audit := [], d_metrics := []\<rparr>"

definition only_adds :: "db \<Rightarrow> db \<Rightarrow> bool" where
  "only_adds d d' \<longleftrightarrow> prefix (d_settings d) (d_settings d') \<and> prefix (d_users d) (d_users d') \<and> prefix (d_servers d) (d_servers d') \<and>
     prefix (d_rules d) (d_rules d') \<and> prefix (d_events d) (d_events d') \<and> prefix (d_audit d) (d_audit d') \<and>
     prefix (d_metrics d) (d_metrics d') \<and> unimported d' = unimported d"

lemma only_adds_refl [simp]: "only_adds d d"
  by (simp add: only_adds_def)

lemma only_adds_trans: "only_adds d x \<Longrightarrow> only_adds x y \<Longrightarrow> only_adds d y"
  unfolding only_adds_def by (elim conjE, intro conjI; (rule prefix_order.trans, assumption, assumption | simp))

lemma only_adds_events: "only_adds d (fold save_event es d)"
proof (induction es arbitrary: d)
  case (Cons e es)
  have "only_adds d (save_event e d)" by (simp add: only_adds_def save_event_def unimported_def)
  with Cons [of "save_event e d"] show ?case by (auto intro: only_adds_trans)
qed simp

lemma only_adds_batch: "only_adds d (save_batch ms d)"
  using save_batch_rows [of ms d] by (auto simp: only_adds_def unimported_def)

lemma only_adds_metrics: "import_metrics cv d0 rows buffer n d = (r, d') \<Longrightarrow> only_adds d d'"
proof (induction cv d0 rows buffer n d rule: import_metrics.induct)
  case (1 cv d0 buffer n d)
  then show ?case by (auto simp: only_adds_batch split: if_splits)
next
  case (2 cv d0 row rows buffer n d)
  show ?case
  proof (cases "imported_metric cv d0 row")
    case None
    then show ?thesis using 2(4) by simp
  next
    case (Some x)
    show ?thesis
    proof (cases x)
      case None
      then show ?thesis using 2 Some by simp
    next
      case m: (Some m)
      show ?thesis
      proof (cases "length buffer + 1 \<ge> IMPORT_CHUNK")
        case True
        then have "only_adds (save_batch (buffer @ [m]) d) d'" using 2(2) [OF Some m True] 2(4) Some m by simp
        then show ?thesis using only_adds_batch only_adds_trans by blast
      next
        case False
        then show ?thesis using 2(3) [OF Some m False] 2(4) Some m by simp
      qed
    qed
  qed
qed

lemma only_adds_tables:
  "import_settings cv rows d = (r, d') \<Longrightarrow> only_adds d d'"
  "import_users cv now rows d = (r, d') \<Longrightarrow> only_adds d d'"
  "import_servers cv now rows d = (r, d') \<Longrightarrow> only_adds d d'"
  "import_rules cv now rows d = (r, d') \<Longrightarrow> only_adds d d'"
  "import_events cv rows d = (r, d') \<Longrightarrow> only_adds d d'"
  "import_audit cv rows d = (r, d') \<Longrightarrow> only_adds d d'"
  by (auto simp: import_settings_def import_users_def import_servers_def import_rules_def import_events_def import_audit_def
      only_adds_events split: option.splits if_splits) (simp_all add: only_adds_def unimported_def)

lemma only_adds_all:
  "(\<And>f d r d'. f \<in> set fs \<Longrightarrow> f d = (r, d') \<Longrightarrow> only_adds d d') \<Longrightarrow> import_all fs d = (ns, d') \<Longrightarrow> only_adds d d'"
proof (induction fs arbitrary: d ns d')
  case (Cons f fs)
  obtain r d1 where f: "f d = (r, d1)" by (cases "f d")
  have one: "only_adds d d1" using Cons.prems(1) [of f d r d1] f by simp
  have later: "only_adds a b" if "g \<in> set fs" "g a = (q, b)" for g a q b
    using Cons.prems(1) [of g a q b] that by simp
  obtain ns' d2 where rest: "import_all fs d1 = (ns', d2)" by (cases "import_all fs d1")
  have "only_adds d1 d2" by (rule Cons.IH [OF _ rest]) (rule later)
  then show ?case using Cons.prems(2) f rest one by (cases r) (auto intro: only_adds_trans)
qed simp

text \<open>
  However an import ends, every row that was in the target is still there as it was, and no other table is touched.
\<close>

theorem import_only_adds:
  assumes "import_from_sqlite cv now is_mysql source with_history d = (r, d')"
  shows "only_adds d d'"
proof (cases is_mysql)
  case False
  then show ?thesis using assms by (simp add: import_from_sqlite_def)
next
  case True
  let ?fs = "[import_settings cv (source ''settings''), import_users cv now (source ''users''), import_servers cv now (source ''servers''),
          import_rules cv now (source ''alert_rules''), import_events cv (source ''alert_events''), import_audit cv (source ''audit_logs'')] @
         (if with_history then [\<lambda>d. import_metrics cv d (source ''server_metrics'') [] 0 d] else [])"
  have "only_adds d1 d2" if "f \<in> set ?fs" "f d1 = (q, d2)" for f d1 q d2
    using that only_adds_tables only_adds_metrics by (auto split: if_splits)
  moreover have "import_all ?fs d = (r, d')" using assms True by (simp add: import_from_sqlite_def del: import_all.simps)
  ultimately show ?thesis by (rule only_adds_all)
qed

section \<open>A second import\<close>

lemma added_all: "added f rows = Some new \<Longrightarrow> r \<in> set rows \<Longrightarrow> f r = Some None \<or> (\<exists>x \<in> set new. f r = Some (Some x))"
proof -
  have "all_or_raise f rows = Some ys \<Longrightarrow> r \<in> set rows \<Longrightarrow> \<exists>y \<in> set ys. f r = Some y" for ys
    by (induction rows arbitrary: ys) (auto simp: bind_eq_Some_conv)
  then show "added f rows = Some new \<Longrightarrow> r \<in> set rows \<Longrightarrow> ?thesis"
    by (fastforce simp: added_def List.map_filter_def)
qed

lemma added_nothing: "(\<And>r. r \<in> set rows \<Longrightarrow> f r = Some None) \<Longrightarrow> added f rows = Some []"
proof -
  assume "\<And>r. r \<in> set rows \<Longrightarrow> f r = Some None"
  then have "all_or_raise f rows = Some (map (\<lambda>_. None) rows)" by (induction rows) simp_all
  then show ?thesis by (simp add: added_def List.map_filter_def comp_def)
qed

lemma added_everything: "(\<And>r. r \<in> set rows \<Longrightarrow> f r \<noteq> Some None) \<Longrightarrow> added f rows = Some new \<Longrightarrow> length new = length rows"
proof -
  have "all_or_raise f rows = Some ys \<Longrightarrow> (\<And>r. r \<in> set rows \<Longrightarrow> f r \<noteq> Some None) \<Longrightarrow> length (List.map_filter id ys) = length rows" for ys
  proof (induction rows arbitrary: ys)
    case (Cons r rows)
    obtain y ys' where y: "f r = Some y" "all_or_raise f rows = Some ys'" "ys = y # ys'"
      using Cons.prems(1) by (auto simp: bind_eq_Some_conv)
    moreover obtain z where "y = Some z" using Cons.prems(2) [of r] y(1) by (cases y) simp_all
    ultimately show ?case using Cons.IH [of ys'] Cons.prems(2) by (simp add: map_filter_simps)
  qed (simp add: map_filter_simps)
  then show "(\<And>r. r \<in> set rows \<Longrightarrow> f r \<noteq> Some None) \<Longrightarrow> added f rows = Some new \<Longrightarrow> ?thesis" by (auto simp: added_def)
qed

lemma settings_keys:
  "setting_row cv d r = Some None \<Longrightarrow> \<exists>key. column r ''key'' = Some key \<and> cv_text cv key \<in> fst ` set (d_settings d)"
  "setting_row cv d r = Some (Some n) \<Longrightarrow> \<exists>key. column r ''key'' = Some key \<and> fst n = cv_text cv key"
  by (auto simp: setting_row_def bind_eq_Some_conv map_of_eq_None_iff split: if_splits)

lemma settings_again:
  assumes "added (setting_row cv d) rows = Some new" and "prefix (d_settings d @ new) (d_settings x)"
  shows "added (setting_row cv x) rows = Some []"
proof (rule added_nothing)
  fix r assume r: "r \<in> set rows"
  have "\<exists>key. column r ''key'' = Some key \<and> cv_text cv key \<in> fst ` set (d_settings d @ new)"
    using added_all [OF assms(1) r]
  proof (elim disjE bexE)
    fix n assume n: "n \<in> set new" "setting_row cv d r = Some (Some n)"
    then show ?thesis using settings_keys(2) [OF n(2)] n(1) by (metis Un_iff image_eqI set_append)
  next
    assume none: "setting_row cv d r = Some None"
    then show ?thesis using settings_keys(1) [OF none] by auto
  qed
  then obtain key where "column r ''key'' = Some key" "cv_text cv key \<in> fst ` set (d_settings x)"
    using set_mono_prefix [OF assms(2)] by blast
  then show "setting_row cv x r = Some None" by (simp add: setting_row_def map_of_eq_None_iff)
qed

lemma users_keys:
  "user_row cv now d r = Some None \<Longrightarrow> \<exists>key. column r ''username'' = Some key \<and> cv_text cv key \<in> u_username ` set (d_users d)"
  "user_row cv now d r = Some (Some n) \<Longrightarrow> \<exists>key. column r ''username'' = Some key \<and> u_username n = cv_text cv key"
  by (auto simp: user_row_def bind_eq_Some_conv map_of_eq_None_iff split: if_splits)

lemma users_again:
  assumes "added (user_row cv now d) rows = Some new" and "prefix (d_users d @ new) (d_users x)"
  shows "added (user_row cv now2 x) rows = Some []"
proof (rule added_nothing)
  fix r assume r: "r \<in> set rows"
  have "\<exists>key. column r ''username'' = Some key \<and> cv_text cv key \<in> u_username ` set (d_users d @ new)"
    using added_all [OF assms(1) r]
  proof (elim disjE bexE)
    fix n assume n: "n \<in> set new" "user_row cv now d r = Some (Some n)"
    then show ?thesis using users_keys(2) [OF n(2)] n(1) by (metis Un_iff image_eqI set_append)
  next
    assume none: "user_row cv now d r = Some None"
    then show ?thesis using users_keys(1) [OF none] by auto
  qed
  then obtain key where "column r ''username'' = Some key" "cv_text cv key \<in> u_username ` set (d_users x)"
    using set_mono_prefix [OF assms(2)] by blast
  then show "user_row cv now2 x r = Some None" by (simp add: user_row_def map_of_eq_None_iff)
qed

lemma servers_keys:
  "server_row cv now d r = Some None \<Longrightarrow> \<exists>key. column r ''id'' = Some key \<and> cv_int cv key \<in> s_id ` set (d_servers d)"
  "server_row cv now d r = Some (Some n) \<Longrightarrow> \<exists>key. column r ''id'' = Some key \<and> s_id n = cv_int cv key"
  by (auto simp: server_row_def bind_eq_Some_conv map_of_eq_None_iff split: if_splits)

lemma servers_again:
  assumes "added (server_row cv now d) rows = Some new" and "prefix (d_servers d @ new) (d_servers x)"
  shows "added (server_row cv now2 x) rows = Some []"
proof (rule added_nothing)
  fix r assume r: "r \<in> set rows"
  have "\<exists>key. column r ''id'' = Some key \<and> cv_int cv key \<in> s_id ` set (d_servers d @ new)"
    using added_all [OF assms(1) r]
  proof (elim disjE bexE)
    fix n assume n: "n \<in> set new" "server_row cv now d r = Some (Some n)"
    then show ?thesis using servers_keys(2) [OF n(2)] n(1) by (metis Un_iff image_eqI set_append)
  next
    assume none: "server_row cv now d r = Some None"
    then show ?thesis using servers_keys(1) [OF none] by auto
  qed
  then obtain key where "column r ''id'' = Some key" "cv_int cv key \<in> s_id ` set (d_servers x)"
    using set_mono_prefix [OF assms(2)] by blast
  then show "server_row cv now2 x r = Some None" by (simp add: server_row_def map_of_eq_None_iff)
qed

lemma rules_keys:
  "rule_row cv now d r = Some None \<Longrightarrow> \<exists>key. column r ''id'' = Some key \<and> cv_int cv key \<in> r_id ` set (d_rules d)"
  "rule_row cv now d r = Some (Some n) \<Longrightarrow> \<exists>key. column r ''id'' = Some key \<and> r_id n = cv_int cv key"
  by (auto simp: rule_row_def bind_eq_Some_conv map_of_eq_None_iff split: if_splits)

lemma rules_again:
  assumes "added (rule_row cv now d) rows = Some new" and "prefix (d_rules d @ new) (d_rules x)"
  shows "added (rule_row cv now2 x) rows = Some []"
proof (rule added_nothing)
  fix r assume r: "r \<in> set rows"
  have "\<exists>key. column r ''id'' = Some key \<and> cv_int cv key \<in> r_id ` set (d_rules d @ new)"
    using added_all [OF assms(1) r]
  proof (elim disjE bexE)
    fix n assume n: "n \<in> set new" "rule_row cv now d r = Some (Some n)"
    then show ?thesis using rules_keys(2) [OF n(2)] n(1) by (metis Un_iff image_eqI set_append)
  next
    assume none: "rule_row cv now d r = Some None"
    then show ?thesis using rules_keys(1) [OF none] by auto
  qed
  then obtain key where "column r ''id'' = Some key" "cv_int cv key \<in> r_id ` set (d_rules x)"
    using set_mono_prefix [OF assms(2)] by blast
  then show "rule_row cv now2 x r = Some None" by (simp add: rule_row_def map_of_eq_None_iff)
qed

text \<open>A cell is never equal to a point in time, so that no event and no sample is recognised.\<close>

lemma never_recognised: "event_row cv d row \<noteq> Some None" "imported_metric cv d row \<noteq> Some None" "audit_row_of cv row \<noteq> Some None"
  by (auto simp: event_row_def imported_metric_def audit_row_of_def existing_events_def existing_metrics_def bind_eq_Some_conv)

lemma length_saved: "length (d_events (fold save_event es d)) = length (d_events d) + length es"
  "d_audit (fold save_event es d) = d_audit d" "d_metrics (fold save_event es d) = d_metrics d"
  by (induction es arbitrary: d) (simp_all add: save_event_def)

lemma length_batch: "length (d_metrics (save_batch ms d)) = length (d_metrics d) + length ms"
  using save_batch_rows [of ms d] by (auto dest: list_all2_lengthD)

lemma length_imported:
  "import_metrics cv d0 rows buffer n d = (Some k, d') \<Longrightarrow> length (d_metrics d') = length (d_metrics d) + length buffer + length rows"
proof (induction cv d0 rows buffer n d rule: import_metrics.induct)
  case (1 cv d0 buffer n d)
  then show ?case by (auto simp: length_batch split: if_splits)
next
  case (2 cv d0 row rows buffer n d)
  then obtain m where m: "imported_metric cv d0 row = Some (Some m)"
    using never_recognised(2) [of cv d0 row] by (cases "imported_metric cv d0 row") (auto split: option.splits)
  show ?case
  proof (cases "length buffer + 1 \<ge> IMPORT_CHUNK")
    case True
    from 2(2) [OF m refl True] 2(4) m True show ?thesis by (simp add: length_batch)
  next
    case False
    from 2(3) [OF m refl False] 2(4) m False show ?thesis by simp
  qed
qed

lemma batch_frame [simp]:
  "d_events (save_batch ms x) = d_events x" "d_audit (save_batch ms x) = d_audit x" "d_settings (save_batch ms x) = d_settings x"
  "d_users (save_batch ms x) = d_users x" "d_servers (save_batch ms x) = d_servers x" "d_rules (save_batch ms x) = d_rules x"
  using save_batch_rows [of ms x] by auto

lemma metrics_frame:
  "import_metrics cv d0 rows buffer n d = (r, d') \<Longrightarrow> d_events d' = d_events d \<and> d_audit d' = d_audit d \<and> d_settings d' = d_settings d \<and>
     d_users d' = d_users d \<and> d_servers d' = d_servers d \<and> d_rules d' = d_rules d"
proof (induction cv d0 rows buffer n d rule: import_metrics.induct)
  case (1 cv d0 buffer n d)
  then show ?case by (auto split: if_splits)
next
  case (2 cv d0 row rows buffer n d)
  show ?case
  proof (cases "imported_metric cv d0 row")
    case None
    then show ?thesis using 2(4) by simp
  next
    case (Some x)
    show ?thesis
    proof (cases x)
      case None
      then show ?thesis using 2(1) 2(4) Some by simp
    next
      case m: (Some m)
      show ?thesis
      proof (cases "length buffer + 1 \<ge> IMPORT_CHUNK")
        case True
        then show ?thesis using 2(2) [OF Some m True] 2(4) Some m by simp
      next
        case False
        then show ?thesis using 2(3) [OF Some m False] 2(4) Some m by simp
      qed
    qed
  qed
qed

lemma import_all_Cons:
  "import_all (f # fs) d = (Some ns, d') \<Longrightarrow> \<exists>n d1 ms. f d = (Some n, d1) \<and> import_all fs d1 = (Some ms, d')"
  by (auto split: prod.splits option.splits)

lemma only_adds_prefix: "only_adds d d' \<Longrightarrow> prefix (d_settings d) (d_settings d') \<and> prefix (d_users d) (d_users d') \<and>
    prefix (d_servers d) (d_servers d') \<and> prefix (d_rules d) (d_rules d')"
  by (simp add: only_adds_def)

text \<open>The tables whose rows are recognised, on a database that has everything the first import made.\<close>

lemma table_again:
  "import_settings cv rows d = (Some n, d1) \<Longrightarrow> only_adds d1 x \<Longrightarrow> import_settings cv rows x = (Some n, x)"
  "import_users cv now rows d = (Some n, d1) \<Longrightarrow> only_adds d1 x \<Longrightarrow> import_users cv now2 rows x = (Some 0, x)"
  "import_servers cv now rows d = (Some n, d1) \<Longrightarrow> only_adds d1 x \<Longrightarrow> import_servers cv now2 rows x = (Some 0, x)"
  "import_rules cv now rows d = (Some n, d1) \<Longrightarrow> only_adds d1 x \<Longrightarrow> import_rules cv now2 rows x = (Some 0, x)"
  by (auto simp: import_settings_def import_users_def import_servers_def import_rules_def
      dest!: only_adds_prefix split: option.splits if_splits
      dest: settings_again [of cv d rows _ x] users_again [of cv now d rows _ x now2] servers_again [of cv now d rows _ x now2]
        rules_again [of cv now d rows _ x now2])

definition import_tail :: "conversions \<Rightarrow> (string \<Rightarrow> sql_row list) \<Rightarrow> bool \<Rightarrow> (db \<Rightarrow> nat imported) list" where
  "import_tail cv source with_history =
     [import_events cv (source ''alert_events''), import_audit cv (source ''audit_logs'')] @
     (if with_history then [\<lambda>d. import_metrics cv d (source ''server_metrics'') [] 0 d] else [])"

lemma import_split:
  "import_from_sqlite cv now True source with_history d =
     import_all (import_settings cv (source ''settings'') # import_users cv now (source ''users'') # import_servers cv now (source ''servers'') #
       import_rules cv now (source ''alert_rules'') # import_tail cv source with_history) d"
  by (simp add: import_from_sqlite_def import_tail_def del: import_all.simps)

lemma tail_adds: "import_all (import_tail cv source with_history) d = (r, d') \<Longrightarrow> only_adds d d'"
proof (rule only_adds_all)
  show "only_adds a b" if "f \<in> set (import_tail cv source with_history)" "f a = (q, b)" for f a q b
    using that only_adds_tables only_adds_metrics by (auto simp: import_tail_def split: if_splits)
qed

lemma tail_imports_all:
  assumes "import_all (import_tail cv source with_history) d = (Some k, d')"
  shows "length (d_events d') = length (d_events d) + length (source ''alert_events'') \<and>
    length (d_audit d') = length (d_audit d) + length (source ''audit_logs'') \<and>
    length (d_metrics d') = length (d_metrics d) + (if with_history then length (source ''server_metrics'') else 0) \<and>
    d_settings d' = d_settings d \<and> d_users d' = d_users d \<and> d_servers d' = d_servers d \<and> d_rules d' = d_rules d"
proof -
  obtain n1 d1 n2 d2 ms where stages: "import_events cv (source ''alert_events'') d = (Some n1, d1)"
    "import_audit cv (source ''audit_logs'') d1 = (Some n2, d2)"
    "import_all (if with_history then [\<lambda>d. import_metrics cv d (source ''server_metrics'') [] 0 d] else []) d2 = (Some ms, d')"
    using assms by (auto simp: import_tail_def split: prod.splits option.splits)
  obtain es where es: "added (event_row cv d) (source ''alert_events'') = Some es" "d1 = fold save_event es d"
    using stages(1) by (auto simp: import_events_def split: option.splits)
  obtain as where as: "added (audit_row_of cv) (source ''audit_logs'') = Some as" "d2 = d1\<lparr>d_audit := d_audit d1 @ as\<rparr>"
    using stages(2) by (auto simp: import_audit_def split: option.splits)
  have lens: "length es = length (source ''alert_events'')" "length as = length (source ''audit_logs'')"
    using added_everything [OF never_recognised(1) es(1)] added_everything [OF never_recognised(3) as(1)] .
  have kept: "d_settings (fold save_event xs y) = d_settings y" "d_users (fold save_event xs y) = d_users y"
    "d_servers (fold save_event xs y) = d_servers y" "d_rules (fold save_event xs y) = d_rules y" for xs y
    by (induction xs arbitrary: y) (simp_all add: save_event_def)
  show ?thesis
  proof (cases with_history)
    case False
    then have "d' = d2" using stages(3) by simp
    then show ?thesis using False lens by (simp add: es(2) as(2) length_saved kept)
  next
    case True
    then obtain n where n: "import_metrics cv d2 (source ''server_metrics'') [] 0 d2 = (Some n, d')"
      using stages(3) by (auto split: prod.splits option.splits)
    have "d_events d' = d_events d2 \<and> d_audit d' = d_audit d2 \<and> d_settings d' = d_settings d2 \<and> d_users d' = d_users d2 \<and>
        d_servers d' = d_servers d2 \<and> d_rules d' = d_rules d2"
      using metrics_frame [OF n] .
    then show ?thesis using True length_imported [OF n] lens by (simp add: es(2) as(2) length_saved kept)
  qed
qed

text \<open>
  An import that is run twice leaves settings, users, servers and rules as the first run made them, but adds every alert event, every
  audit row and every sample of the source once more, since a text is compared with a point in time.
\<close>

theorem second_import_duplicates:
  assumes "import_from_sqlite cv now True source with_history d = (Some ns, d')"
    and "import_from_sqlite cv now2 True source with_history d' = (Some ms, d'')"
  shows "d_settings d'' = d_settings d' \<and> d_users d'' = d_users d' \<and> d_servers d'' = d_servers d' \<and> d_rules d'' = d_rules d' \<and>
    length (d_events d'') = length (d_events d') + length (source ''alert_events'') \<and>
    length (d_audit d'') = length (d_audit d') + length (source ''audit_logs'') \<and>
    length (d_metrics d'') = length (d_metrics d') + (if with_history then length (source ''server_metrics'') else 0)"
proof -
  obtain n1 d1 n2 d2 n3 d3 n4 d4 k where one: "import_settings cv (source ''settings'') d = (Some n1, d1)"
    "import_users cv now (source ''users'') d1 = (Some n2, d2)" "import_servers cv now (source ''servers'') d2 = (Some n3, d3)"
    "import_rules cv now (source ''alert_rules'') d3 = (Some n4, d4)"
    and rest: "import_all (import_tail cv source with_history) d4 = (Some k, d')"
    using assms(1) unfolding import_split by (auto split: prod.splits option.splits)
  have adds: "only_adds d4 d'" "only_adds d3 d'" "only_adds d2 d'" "only_adds d1 d'"
    using tail_adds [OF rest] only_adds_tables(2) [OF one(2)] only_adds_tables(3) [OF one(3)] only_adds_tables(4) [OF one(4)]
      only_adds_trans by blast+
  note again = table_again(1) [OF one(1) adds(4)] table_again(2) [OF one(2) adds(3)] table_again(3) [OF one(3) adds(2)]
    table_again(4) [OF one(4) adds(1)]
  then obtain k' where "import_all (import_tail cv source with_history) d' = (Some k', d'')"
    using assms(2) unfolding import_split by (auto split: prod.splits option.splits)
  from tail_imports_all [OF this] show ?thesis by simp
qed

text \<open>Two imports of a source with one event and one audit row.\<close>

fun plain_text :: "sql_cell \<Rightarrow> string" where
  "plain_text (Text s) = s"
| "plain_text _ = []"

fun plain_int :: "sql_cell \<Rightarrow> int" where
  "plain_int (Integer i) = i"
| "plain_int _ = 0"

definition plain_conversions :: conversions where
  "plain_conversions = \<lparr>cv_text = plain_text, cv_int = plain_int, cv_real = \<lambda>c. of_int (plain_int c), cv_time = \<lambda>c. int (length (plain_text c)),
     cv_tags = \<lambda>_. Some [], cv_cores = \<lambda>_. Some [], cv_disks = \<lambda>_. Some [], cv_disk_io = \<lambda>_. Some [], cv_net_ifaces = \<lambda>_. Some [],
     cv_json = \<lambda>_. Some [], cv_gpus = \<lambda>_. Some [], cv_auth_id = \<lambda>_. []\<rparr>"

definition small_source :: "string \<Rightarrow> sql_row list" where
  "small_source table =
     (if table = ''audit_logs'' then [[(''ts'', Text ''2024'')]]
      else if table = ''alert_events'' then [[(''server_id'', Integer 1), (''metric'', Text ''gpu''), (''triggered_at'', Text ''2024'')]]
      else [])"

theorem second_import_duplicates_witness:
  "\<exists>ns d' ms d''. import_from_sqlite plain_conversions 0 True small_source True empty_db = (Some ns, d') \<and>
     import_from_sqlite plain_conversions 1 True small_source True d' = (Some ms, d'') \<and>
     length (d_events d'') = length (d_events d') + 1 \<and> length (d_audit d'') = length (d_audit d') + 1"
proof -
  have ok: "\<exists>ns y. import_from_sqlite plain_conversions now True small_source True x = (Some ns, y)" for now x
    by (simp add: import_from_sqlite_def import_settings_def import_users_def import_servers_def import_rules_def import_events_def
        import_audit_def added_def small_source_def map_filter_simps event_row_def audit_row_of_def column_def existing_events_def
        image_iff)
  obtain ns d' ms d'' where two: "import_from_sqlite plain_conversions 0 True small_source True empty_db = (Some ns, d')"
    "import_from_sqlite plain_conversions 1 True small_source True d' = (Some ms, d'')"
    using ok [of 0 empty_db] ok [of 1] by blast
  have "length (small_source ''alert_events'') = 1" "length (small_source ''audit_logs'') = 1" by (simp_all add: small_source_def)
  with second_import_duplicates [OF two] two show ?thesis by auto
qed

end
