(* ===== verification/Spec2Isabelle.thy ===== *)
theory Spec2Isabelle
  imports RateLimit Cache Cycle AlertRules Notifier Sessions History StatusPage Enterprise Cockpit McpTools ArchiveFiles
    Maintenance Migrate Background IpmiApi SqliteImport
begin

text \<open>
  A verification library for the GPU server monitor: the FastAPI back end under \<open>src/backend/app\<close>, its operator scripts under
  \<open>src/backend/scripts\<close> and the MCP server of \<open>src/mcp_server/server.py\<close>.

  \<^bold>\<open>The program and its parts.\<close>  A scheduler thread (\<open>scheduler.py\<close>) polls every enabled host over SSH, in a fast tier every
  minute and in slow, kernel and inventory tiers less often, and the boards' controllers over IPMI.  A poll runs one remote shell
  script, whose output is parsed into a sample (\<open>ssh_collector.py\<close>, \<open>collectors_extra.py\<close>, \<open>ipmi_collector.py\<close>), stored as a row,
  rolled up by the hour, and archived, minimized, before retention deletes it.  After every poll the built-in detectors
  (\<open>health.py\<close>) and the users' rules open and close alert events, which are sent to webhooks (\<open>notifier.py\<close>).  The web application
  (\<open>main.py\<close>, \<open>api/*.py\<close>) reads the same tables and changes servers, users, rules and settings behind a login with a second
  factor (\<open>security.py\<close>, \<open>rate_limit.py\<close>), with a response cache in front (\<open>cache.py\<close>).  The MCP server is a client of that
  interface and hands masked answers to a language model.  The components meet in the database: theory Models has it as one
  record of tables, which every operation takes and returns.

  \<^bold>\<open>Which theory models which part.\<close>
  \<^item> Prelude, PyText, Ipaddr, Url, Json: what the source uses of Python's strings, numbers, \<open>ipaddress\<close>, \<open>urllib.parse\<close> and \<open>json\<close>.
  \<^item> Models: \<open>models.py\<close>.  Config: \<open>config.py\<close>.
  \<^item> HostParse, GpuParse, Collect: \<open>ssh_collector.py\<close>, parsers first, then one poll.  Extra: \<open>collectors_extra.py\<close>.  Transport:
    \<open>ssh_transport.py\<close>, host keys and the choices before a connection.  Ipmi: \<open>ipmi_collector.py\<close> and its cycle.
  \<^item> AlertLog, Detectors, Risk: \<open>health.py\<close>, the log of events, the detectors on it, risk scores and health tree.  AlertRules, Rollup,
    IdleState, Store, Cycle: \<open>scheduler.py\<close>, by its parts.  Privacy: \<open>privacy.py\<close>.  Notifier: \<open>notifier.py\<close>.
  \<^item> RateLimit, Cache: \<open>rate_limit.py\<close>, \<open>cache.py\<close>.
  \<^item> Security, Accounts, Sessions: \<open>security.py\<close>, \<open>api/auth.py\<close> and \<open>api/users.py\<close>, and what they guarantee over all sequences of
    requests.  Startup, Gateway: \<open>main.py\<close> before and while it serves, with \<open>database.py\<close>.
  \<^item> Servers, Actions, Fleet: \<open>api/servers.py\<close>, \<open>api/server_test.py\<close>, the two handlers that act on a host, and the sequences of both.
    Alerts, History: \<open>api/alerts.py\<close> and everything that writes events.  StatusPage, Enterprise, Metrics, Cockpit: the modules of
    \<open>api\<close> with those names.
  \<^item> McpClient, McpTools: \<open>mcp_server/server.py\<close>.
  \<^item> ArchiveFiles, Maintenance, Migrate: \<open>archive_crypto.py\<close> and the scripts \<open>restore_archive.py\<close>, \<open>rotate_credentials.py\<close>,
    \<open>scrub_sensitive_history.py\<close>, \<open>reset_admin_mfa.py\<close>; \<open>migrate.py\<close>.
    SqliteImport: \<open>import_sqlite.py\<close>, table by table.
  \<^item> Background: the starts of the background threads, the cache warmer and the choice of the cache's backend, remote commands with
    their bounded wait.  IpmiApi: \<open>api/ipmi.py\<close>.

  \<^bold>\<open>How state and operations correspond.\<close>  A table is the list of its rows in primary-key order; a committed change is the
  database returned, a roll-back the database given.  A handler is a function of the request's inputs (the clock, random numbers,
  what lies outside) and of the database to \<open>http_error + result\<close>; every \<open>HTTPException\<close>, early return and escaping exception
  of the source is a branch.  Reads and writes of other requests between two commits are an input where the code must withstand
  them (Accounts, Cycle, Cache).  Threads are step relations: the marks and the lock of the cycle, and the single flight of the
  cache, where a step is an atomic section of the source.

  \<^bold>\<open>Interfaces.\<close>  \<open>bounded_store\<close> (Prelude) is what the limiter's tables and the memory cache promise, \<open>alert_log\<close> (AlertLog) what
  detectors and the IPMI tier rely on when they open and close events, \<open>guard\<close> (Cycle) what marks and lock share,
  \<open>detector_effect\<close> (History) what a relation needs so that every detector stays inside it, \<open>client_invariant\<close> (McpClient) what
  an invariant of the requests sent needs so that every tool keeps it.  Each is interpreted on the model's own definitions.

  \<^bold>\<open>What the lemmas show.\<close>  Alerting: an alert of a rule is justified by the samples in its window, an alert of an array
  follows the array, the event log only grows.  Storage: retention deletes nothing that is not in the archive of that run, an
  archive can be restored any number of times and brings the samples back, roll-ups close the gap and are idempotent, migrations run
  once and a failed one is retried.  Access: five failures lock a pair, the client's address cannot be forged, one code admits one
  login, ended sessions never return, an administrator remains, remote actions are authorised, a rotated key ring
  reads every secret.  Boundaries: host keys are never overwritten and follow their address, tests reach vetted addresses only, webhooks
  go to public addresses, the public page and the MCP tools reveal what they should and no more.  Concurrency: at most one
  collection per host and tier, a single leader per cache key.  Reports: the endpoints that show the same figures agree, and every
  row is accounted for.

  \<^bold>\<open>Bounds and fuel.\<close>  Loops are structural recursion or \<open>function\<close> with a measure (text or list left).  Three carry a counter:
  \<open>json_loads\<close> gives the scanner \<open>2 * length + 2\<close> steps, at most two of which read no character, and its round trip shows
  that a text of \<open>json_dumps\<close> never runs out; \<open>show_nat_aux\<close> takes as many digits as the number itself; \<open>get_loop\<close> takes the two
  attempts of \<open>range(2)\<close>.  The wait for a command's exit status is a
  \<open>partial_function\<close>, shown to end while the clock runs.  No theorem is conditional on fuel.

  \<^bold>\<open>Conventions.\<close>  A \<open>float\<close> is an exact \<open>rat\<close>: rounding to a number of digits is written out, binary rounding, infinities and
  NaN are outside (except for the timeout of the MCP client).  A text outside ASCII stands as its UTF-8 bytes and case folding is on the
  ASCII letters.  Instants are microseconds since the epoch.  Addresses are words of their width.

  \<^bold>\<open>Parameters.\<close>  Code that is not the repository's is an argument: SSH sessions, handshakes and fingerprints, \<open>ipmitool\<close>,
  name resolution and the wire of webhooks, bcrypt, JWT, Fernet, AES-GCM, SHA-256 and HMAC, random numbers, Redis commands,
  SQLAlchemy's reading of URLs, tar files, and the execution of a migration's statement.  What a property relies on of them is a
  hypothesis in its statement, which its witness discharges for a concrete function.

  \<^bold>\<open>Not modelled.\<close>  The Vue front end, the deployment files and the tests are not the back end's logic; the texts of the remote
  shell scripts (\<open>remote_scripts.py\<close>) are shell, of which the output is parsed here; the SQL of the migrations belongs to the
  database.  Of the modelled files: the framework's routing, CORS and static files, sockets, file permissions and \<open>fsync\<close>, the
  engine and its pragmas (\<open>database.py\<close>), the bodies of threads beyond the steps named above, logging, and database errors other
  than those a handler catches.  How SQLite's dynamically typed cells become values of a column is a parameter of the import.
\<close>

end
